(* ===== verification/NovaPrelude.thy ===== *)
theory NovaPrelude
  imports Complex_Main "HOL-Library.List_Lexorder" "HOL-Library.Char_ord"
begin

text \<open>
  What every component of the development shares: the identifiers, JSON values and failures of the
  TypeScript services, the handler type (an \<open>async\<close> method over the state of one service, which
  returns or throws and leaves a new state), database tables as lists of rows, and the generic
  lemmas about them.

  A handler is a function \<open>'s \<Rightarrow> (failure + 'a) \<times> 's\<close>. \<open>bnd\<close> is \<open>await\<close> followed by the rest of the
  method, \<open>throw\<close> is \<open>throw\<close>, \<open>catch\<close> is \<open>try\<close>/\<open>catch\<close>, \<open>transaction\<close> is \<open>prisma.db.$transaction\<close>:
  when its callback throws, or a check deferred to the commit fails, the database is as before.
  \<open>pause\<close> marks an \<open>await\<close> at which requests handled concurrently may change the state.

  Two-state properties of handlers ("whatever happens, the state after relates to the state
  before") are stated with \<open>steps\<close>; the locale \<open>two_state\<close> proves once how they pass through the
  handler combinators, and each component interprets it for its own relations.
\<close>

section \<open>Identifiers, JSON and failures\<close>

type_synonym uuid = string
type_synonym instant = int  \<comment> \<open>milliseconds since the epoch, as \<open>Date.getTime()\<close> gives them\<close>

datatype json =
    JNull
  | JBool bool
  | JNum rat
  | JStr string
  | JArr "json list"
  | JObj "(string \<times> json) list"

datatype db_code =
    P2002    \<comment> \<open>a unique index refuses the row\<close>
  | P2034    \<comment> \<open>the engine aborts a serializable transaction\<close>
  | P2025    \<comment> \<open>a row that an operation requires does not exist\<close>
  | DbCheck  \<comment> \<open>a \<open>CHECK\<close> constraint, a foreign key, a numeric range or a trigger refuses the row\<close>

datatype failure =
    HttpException nat "string option" string  \<comment> \<open>status, the \<open>code\<close> field, the message\<close>
  | DbError db_code
  | PlainError string
  | UpstreamHttpError string nat string string json  \<comment> \<open>service, status, code, message, body\<close>
  | UpstreamUnavailableError string

abbreviation http_failure :: "nat \<Rightarrow> string \<Rightarrow> string \<Rightarrow> failure" where
  "http_failure status code msg \<equiv> HttpException status (Some code) msg"

fun is_unique_violation :: "failure \<Rightarrow> bool" where
  "is_unique_violation (DbError P2002) = True"
| "is_unique_violation _ = False"

fun is_serialization_failure :: "failure \<Rightarrow> bool" where
  "is_serialization_failure (DbError P2034) = True"
| "is_serialization_failure _ = False"

text \<open>JavaScript's truth value of an optional string: absent and empty are both false.\<close>

definition truthy :: "string option \<Rightarrow> bool" where
  "truthy v = (case v of None \<Rightarrow> False | Some t \<Rightarrow> t \<noteq> [])"

lemma truthy_simps [simp]: "\<not> truthy None" "truthy (Some t) = (t \<noteq> [])"
  by (auto simp: truthy_def)

definition opt_str :: "string option \<Rightarrow> json" where
  "opt_str v = (case v of None \<Rightarrow> JNull | Some t \<Rightarrow> JStr t)"

text \<open>The column check \<open>~ '^[A-Z]{3}$'\<close> of every currency column.\<close>

definition upper_letter :: "char \<Rightarrow> bool" where
  "upper_letter c \<longleftrightarrow> CHR ''A'' \<le> c \<and> c \<le> CHR ''Z''"

definition is_currency :: "string \<Rightarrow> bool" where
  "is_currency t \<longleftrightarrow> length t = 3 \<and> list_all upper_letter t"

text \<open>
  The length of a text, which is its UTF-8 bytes, in UTF-16 units as \<open>length\<close> counts them, and in code points as
  a VARCHAR column and class-validator do.
\<close>

definition utf16_units :: "string \<Rightarrow> nat" where
  "utf16_units t =
     sum_list (map (\<lambda>c. let k = (of_char c :: nat) in
       if k < 128 \<or> (192 \<le> k \<and> k < 240) then 1 else if 240 \<le> k then 2 else 0) t)"

definition char_count :: "string \<Rightarrow> nat" where
  "char_count t = length (filter (\<lambda>c. let k = (of_char c :: nat) in k < 128 \<or> 192 \<le> k) t)"

section \<open>Handlers\<close>

type_synonym ('s, 'a) act = "'s \<Rightarrow> (failure + 'a) \<times> 's"

definition ret :: "'a \<Rightarrow> ('s, 'a) act" where
  "ret x s = (Inr x, s)"

definition throw :: "failure \<Rightarrow> ('s, 'a) act" where
  "throw e s = (Inl e, s)"

definition bnd :: "('s, 'a) act \<Rightarrow> ('a \<Rightarrow> ('s, 'b) act) \<Rightarrow> ('s, 'b) act" where
  "bnd m f s = (case m s of (Inl e, s') \<Rightarrow> (Inl e, s') | (Inr x, s') \<Rightarrow> f x s')"

definition catch :: "('s, 'a) act \<Rightarrow> (failure \<Rightarrow> ('s, 'a) act) \<Rightarrow> ('s, 'a) act" where
  "catch m h s = (case m s of (Inl e, s') \<Rightarrow> h e s' | (Inr x, s') \<Rightarrow> (Inr x, s'))"

definition gets :: "('s \<Rightarrow> 'a) \<Rightarrow> ('s, 'a) act" where
  "gets f s = (Inr (f s), s)"

definition modify :: "('s \<Rightarrow> 's) \<Rightarrow> ('s, unit) act" where
  "modify f s = (Inr (), f s)"

definition ensure :: "bool \<Rightarrow> failure \<Rightarrow> ('s, unit) act" where
  "ensure c e s = (if c then (Inr (), s) else (Inl e, s))"

definition pause :: "('s \<Rightarrow> 's) \<Rightarrow> ('s, unit) act" where
  "pause env s = (Inr (), env s)"

definition transaction :: "('s \<Rightarrow> bool) \<Rightarrow> ('s, 'a) act \<Rightarrow> ('s, 'a) act" where
  "transaction commit_ok m s =
     (case m s of
        (Inl e, _) \<Rightarrow> (Inl e, s)
      | (Inr x, s') \<Rightarrow> if commit_ok s' then (Inr x, s') else (Inl (DbError DbCheck), s))"

primrec each :: "('a \<Rightarrow> ('s, 'b) act) \<Rightarrow> 'a list \<Rightarrow> ('s, 'b list) act" where
  "each f [] = ret []"
| "each f (x # xs) = bnd (f x) (\<lambda>y. bnd (each f xs) (\<lambda>ys. ret (y # ys)))"

lemma ret_apply [simp]: "ret x s = (Inr x, s)"
  by (simp add: ret_def)

lemma throw_apply [simp]: "throw e s = (Inl e, s)"
  by (simp add: throw_def)

lemma gets_apply [simp]: "gets f s = (Inr (f s), s)"
  by (simp add: gets_def)

lemma modify_apply [simp]: "modify f s = (Inr (), f s)"
  by (simp add: modify_def)

lemma pause_apply [simp]: "pause f s = (Inr (), f s)"
  by (simp add: pause_def)

lemma ensure_apply: "ensure c e s = (if c then (Inr (), s) else (Inl e, s))"
  by (simp add: ensure_def)

lemma ensure_simps [simp]: "ensure True e s = (Inr (), s)" "ensure False e s = (Inl e, s)"
  by (simp_all add: ensure_def)

lemma bnd_Inr: "m s = (Inr x, s') \<Longrightarrow> bnd m f s = f x s'"
  by (simp add: bnd_def)

lemma bnd_Inl: "m s = (Inl e, s') \<Longrightarrow> bnd m f s = (Inl e, s')"
  by (simp add: bnd_def)

lemma bnd_ret [simp]: "bnd (ret x) f s = f x s"
  by (simp add: bnd_def)

lemma bnd_throw [simp]: "bnd (throw e) f s = (Inl e, s)"
  by (simp add: bnd_def)

lemma bnd_gets [simp]: "bnd (gets g) f s = f (g s) s"
  by (simp add: bnd_def)

lemma bnd_modify [simp]: "bnd (modify u) f s = f () (u s)"
  by (simp add: bnd_def)

lemma bnd_pause [simp]: "bnd (pause u) f s = f () (u s)"
  by (simp add: bnd_def)

lemma bnd_ensure [simp]: "bnd (ensure c e) f s = (if c then f () s else (Inl e, s))"
  by (simp add: bnd_def ensure_def)

lemma bnd_result_Inr:
  "bnd m f s = (Inr y, t) \<longleftrightarrow> (\<exists>x s'. m s = (Inr x, s') \<and> f x s' = (Inr y, t))"
  by (auto simp: bnd_def split: prod.splits sum.splits)

lemma bnd_result_Inl:
  "bnd m f s = (Inl e, t) \<longleftrightarrow>
     m s = (Inl e, t) \<or> (\<exists>x s'. m s = (Inr x, s') \<and> f x s' = (Inl e, t))"
  by (auto simp: bnd_def split: prod.splits sum.splits)

lemma catch_Inr: "m s = (Inr x, s') \<Longrightarrow> catch m h s = (Inr x, s')"
  by (simp add: catch_def)

lemma catch_Inl: "m s = (Inl e, s') \<Longrightarrow> catch m h s = h e s'"
  by (simp add: catch_def)

lemma catch_result:
  "catch m h s = (r, t) \<longleftrightarrow>
     (\<exists>x. m s = (Inr x, t) \<and> r = Inr x) \<or> (\<exists>e s'. m s = (Inl e, s') \<and> h e s' = (r, t))"
  by (auto simp: catch_def split: prod.splits sum.splits)

lemma transaction_Inl:
  "transaction c m s = (Inl e, t) \<Longrightarrow> t = s"
  by (auto simp: transaction_def split: prod.splits sum.splits if_splits)

lemma transaction_Inr:
  "transaction c m s = (Inr x, t) \<longleftrightarrow> m s = (Inr x, t) \<and> c t"
  by (auto simp: transaction_def split: prod.splits sum.splits if_splits)

section \<open>Two-state properties of handlers\<close>

definition steps :: "('s \<Rightarrow> 's \<Rightarrow> bool) \<Rightarrow> ('s, 'a) act \<Rightarrow> bool" where
  "steps R m \<longleftrightarrow> (\<forall>s. R s (snd (m s)))"

lemma stepsI: "(\<And>s. R s (snd (m s))) \<Longrightarrow> steps R m"
  by (simp add: steps_def)

lemma stepsD: "steps R m \<Longrightarrow> R s (snd (m s))"
  by (simp add: steps_def)

lemma stepsD_eq: "steps R m \<Longrightarrow> m s = (r, t) \<Longrightarrow> R s t"
  by (metis steps_def snd_conv)

text \<open>An invariant is the two-state relation "if it held before, it holds after".\<close>

definition keeping :: "('s \<Rightarrow> bool) \<Rightarrow> 's \<Rightarrow> 's \<Rightarrow> bool" where
  "keeping I s t \<longleftrightarrow> (I s \<longrightarrow> I t)"

locale two_state =
  fixes R :: "'s \<Rightarrow> 's \<Rightarrow> bool"
  assumes R_refl: "R s s"
    and R_trans: "R s t \<Longrightarrow> R t u \<Longrightarrow> R s u"
begin

lemma steps_ret: "steps R (ret x)"
  by (simp add: steps_def R_refl)

lemma steps_throw: "steps R (throw e)"
  by (simp add: steps_def R_refl)

lemma steps_gets: "steps R (gets f)"
  by (simp add: steps_def R_refl)

lemma steps_ensure: "steps R (ensure c e)"
  by (simp add: steps_def R_refl ensure_def)

lemma steps_modify: "(\<And>s. R s (f s)) \<Longrightarrow> steps R (modify f)"
  by (simp add: steps_def)

lemma steps_pause: "(\<And>s. R s (f s)) \<Longrightarrow> steps R (pause f)"
  by (simp add: steps_def)

lemma steps_bnd:
  assumes "steps R m" and "\<And>x. steps R (f x)"
  shows "steps R (bnd m f)"
proof (rule stepsI)
  fix s
  obtain r t where m: "m s = (r, t)" by fastforce
  have "R s t" using assms(1) m by (rule stepsD_eq)
  moreover have "R t (snd (f x t))" for x using assms(2) by (rule stepsD)
  ultimately show "R s (snd (bnd m f s))"
    using m by (auto simp: bnd_def intro: R_trans split: sum.splits)
qed

lemma steps_catch:
  assumes "steps R m" and "\<And>e. steps R (h e)"
  shows "steps R (catch m h)"
proof (rule stepsI)
  fix s
  obtain r t where m: "m s = (r, t)" by fastforce
  have "R s t" using assms(1) m by (rule stepsD_eq)
  moreover have "R t (snd (h e t))" for e using assms(2) by (rule stepsD)
  ultimately show "R s (snd (catch m h s))"
    using m by (auto simp: catch_def intro: R_trans split: sum.splits)
qed

lemma steps_transaction: "steps R m \<Longrightarrow> steps R (transaction c m)"
  by (auto simp: steps_def transaction_def R_refl split: prod.splits sum.splits)
    (metis snd_conv)

lemma steps_each: "(\<And>x. steps R (f x)) \<Longrightarrow> steps R (each f xs)"
  by (induction xs) (auto intro!: steps_ret steps_bnd)

lemma steps_if: "(c \<Longrightarrow> steps R m) \<Longrightarrow> (\<not> c \<Longrightarrow> steps R n) \<Longrightarrow> steps R (if c then m else n)"
  by simp

lemma steps_option:
  "steps R n \<Longrightarrow> (\<And>x. steps R (f x)) \<Longrightarrow> steps R (case v of None \<Rightarrow> n | Some x \<Rightarrow> f x)"
  by (cases v) simp_all

lemma steps_each_in: "(\<And>x. x \<in> set xs \<Longrightarrow> steps R (f x)) \<Longrightarrow> steps R (each f xs)"
  by (induction xs) (auto intro!: steps_ret steps_bnd)

lemma steps_gets_bnd: "(\<And>s. R s (snd (m (f s) s))) \<Longrightarrow> steps R (bnd (gets f) m)"
  by (simp add: steps_def)

lemmas steps_rules = steps_ret steps_throw steps_gets steps_ensure steps_bnd steps_catch
  steps_transaction steps_each steps_if steps_option

end

text \<open>Every invariant gives such a relation.\<close>

interpretation keep: two_state "keeping I" for I :: "'s \<Rightarrow> bool"
  by unfold_locales (auto simp: keeping_def)

lemma steps_keeping: "steps (keeping I) m \<longleftrightarrow> (\<forall>s. I s \<longrightarrow> I (snd (m s)))"
  by (simp add: steps_def keeping_def)

section \<open>What a handler that returns has done\<close>

text \<open>
  \<open>results I m Q\<close>: from a state with \<open>I\<close>, when \<open>m\<close> returns, \<open>Q\<close> relates its result and the state it
  leaves; \<open>failures m Q\<close>: when \<open>m\<close> throws, \<open>Q\<close> holds of what it throws.
\<close>

definition results :: "('s \<Rightarrow> bool) \<Rightarrow> ('s, 'a) act \<Rightarrow> ('a \<Rightarrow> 's \<Rightarrow> bool) \<Rightarrow> bool" where
  "results I m Q \<longleftrightarrow> (\<forall>s x t. I s \<longrightarrow> m s = (Inr x, t) \<longrightarrow> Q x t)"

definition failures :: "('s, 'a) act \<Rightarrow> (failure \<Rightarrow> bool) \<Rightarrow> bool" where
  "failures m Q \<longleftrightarrow> (\<forall>s e t. m s = (Inl e, t) \<longrightarrow> Q e)"

lemma resultsI: "(\<And>s x t. I s \<Longrightarrow> m s = (Inr x, t) \<Longrightarrow> Q x t) \<Longrightarrow> results I m Q"
  by (simp add: results_def)

lemma resultsD: "results I m Q \<Longrightarrow> I s \<Longrightarrow> m s = (Inr x, t) \<Longrightarrow> Q x t"
  by (simp add: results_def)

lemma results_throw: "results I (throw e) Q"
  by (simp add: results_def)

lemma results_bnd:
  assumes "steps (keeping I) m" and "\<And>x. results I (f x) Q"
  shows "results I (bnd m f) Q"
proof (rule resultsI)
  fix s y t
  assume s: "I s" and r: "bnd m f s = (Inr y, t)"
  from r obtain x u where m: "m s = (Inr x, u)" and f: "f x u = (Inr y, t)"
    by (auto simp: bnd_result_Inr)
  have "keeping I s u" using assms(1) m by (rule stepsD_eq)
  then have "I u" using s by (simp add: keeping_def)
  then show "Q y t" using resultsD [OF assms(2)] f by blast
qed

lemma results_catch:
  assumes "steps (keeping I) m" and "results I m Q" and "\<And>e. results I (h e) Q"
  shows "results I (catch m h) Q"
proof (rule resultsI)
  fix s x t
  assume s: "I s" and r: "catch m h s = (Inr x, t)"
  show "Q x t"
  proof (cases "m s")
    case (Pair w u)
    have "keeping I s u" using assms(1) Pair by (rule stepsD_eq)
    then have "I u" using s by (simp add: keeping_def)
    then show ?thesis
      using r Pair s assms(2,3) by (cases w) (auto simp: catch_def dest: resultsD)
  qed
qed

lemma results_bnd_that:
  assumes "steps (keeping I) m" and "results I m (\<lambda>x _. P x)" and "\<And>x. P x \<Longrightarrow> results I (f x) Q"
  shows "results I (bnd m f) Q"
proof (rule resultsI)
  fix s y t
  assume s: "I s" and "bnd m f s = (Inr y, t)"
  then obtain x u where m: "m s = (Inr x, u)" and f: "f x u = (Inr y, t)" by (auto simp: bnd_result_Inr)
  have "I u" using stepsD_eq [OF assms(1) m] s by (simp add: keeping_def)
  then show "Q y t" using resultsD [OF assms(3) _ f] resultsD [OF assms(2) s m] by blast
qed

lemma results_ret: "(\<And>s. I s \<Longrightarrow> Q x s) \<Longrightarrow> results I (ret x) Q"
  by (simp add: results_def)

lemma results_bind: "results I m J \<Longrightarrow> (\<And>x. results (J x) (f x) Q) \<Longrightarrow> results I (bnd m f) Q"
  unfolding results_def bnd_result_Inr by blast

lemma results_if: "results I m Q \<Longrightarrow> results I n Q \<Longrightarrow> results I (if c then m else n) Q"
  by simp

lemmas results_rules = results_throw results_bnd results_catch results_if

lemma failuresD: "failures m Q \<Longrightarrow> m s = (Inl e, t) \<Longrightarrow> Q e"
  unfolding failures_def by blast

lemma failures_basic:
  "failures (ret x) Q" "failures (gets f) Q" "failures (modify u) Q" "failures (pause u) Q"
  "Q e \<Longrightarrow> failures (throw e) Q" "Q e \<Longrightarrow> failures (ensure c e) Q"
  by (auto simp: failures_def ensure_def split: if_splits)

lemma failures_bnd: "failures m Q \<Longrightarrow> (\<And>x. failures (f x) Q) \<Longrightarrow> failures (bnd m f) Q"
  unfolding failures_def bnd_result_Inl by blast

lemma failures_catch: "(\<And>e. failures (h e) Q) \<Longrightarrow> failures (catch m h) Q"
  unfolding failures_def catch_result by blast

lemma failures_option:
  "failures n Q \<Longrightarrow> (\<And>x. failures (f x) Q) \<Longrightarrow> failures (case v of None \<Rightarrow> n | Some x \<Rightarrow> f x) Q"
  by (cases v) simp_all

lemma failures_if:
  "(c \<Longrightarrow> failures m Q) \<Longrightarrow> (\<not> c \<Longrightarrow> failures n Q) \<Longrightarrow> failures (if c then m else n) Q"
  by simp

lemmas failures_rules = failures_basic failures_bnd failures_catch failures_option failures_if

section \<open>Tables\<close>

text \<open>
  A table is the list of its rows in insertion order. \<open>update_where\<close> is \<open>updateMany\<close>; a unique
  index over a key column refuses a row whose key is present.
\<close>

definition update_where :: "('r \<Rightarrow> bool) \<Rightarrow> ('r \<Rightarrow> 'r) \<Rightarrow> 'r list \<Rightarrow> 'r list" where
  "update_where P f rows = map (\<lambda>r. if P r then f r else r) rows"

definition count_where :: "('r \<Rightarrow> bool) \<Rightarrow> 'r list \<Rightarrow> nat" where
  "count_where P rows = length (filter P rows)"

definition key_taken :: "('r \<Rightarrow> 'k) \<Rightarrow> 'k \<Rightarrow> 'r list \<Rightarrow> bool" where
  "key_taken key k rows \<longleftrightarrow> k \<in> set (map key rows)"

lemma length_update_where [simp]: "length (update_where P f rows) = length rows"
  by (simp add: update_where_def)

lemma map_update_where:
  "(\<And>r. P r \<Longrightarrow> key (f r) = key r) \<Longrightarrow> map key (update_where P f rows) = map key rows"
  by (induction rows) (auto simp: update_where_def)

lemma update_where_none: "(\<And>r. r \<in> set rows \<Longrightarrow> \<not> P r) \<Longrightarrow> update_where P f rows = rows"
  by (induction rows) (auto simp: update_where_def)

lemma in_update_where:
  "r \<in> set (update_where P f rows) \<Longrightarrow> r \<in> set rows \<or> (\<exists>q\<in>set rows. P q \<and> r = f q)"
  by (auto simp: update_where_def split: if_splits)

lemma find_append: "List.find P (xs @ ys) = (case List.find P xs of None \<Rightarrow> List.find P ys | r \<Rightarrow> r)"
  by (induction xs) auto

lemma find_Some_in: "List.find P xs = Some x \<Longrightarrow> x \<in> set xs \<and> P x"
  by (induction xs) (auto split: if_splits)

lemma find_None_iff_all: "List.find P xs = None \<longleftrightarrow> (\<forall>x\<in>set xs. \<not> P x)"
  by (induction xs) auto

lemma find_key_unique:
  assumes "distinct (map key rows)" and "r \<in> set rows" and "key r = k"
  shows "List.find (\<lambda>q. key q = k) rows = Some r"
  using assms by (induction rows) (auto simp: image_iff)

lemma find_update_where:
  assumes "\<And>r. P r \<Longrightarrow> key (f r) = key r"
  shows "List.find (\<lambda>q. key q = k) (update_where P f rows) =
    map_option (\<lambda>r. if P r then f r else r) (List.find (\<lambda>q. key q = k) rows)"
  using assms by (induction rows) (auto simp: update_where_def)

lemma distinct_key:
  "distinct (map key rows) \<Longrightarrow> a \<in> set rows \<Longrightarrow> b \<in> set rows \<Longrightarrow> key a = key b \<Longrightarrow> a = b"
  by (simp add: distinct_map inj_on_def)

lemma list_all2_right: "list_all2 P xs ys \<Longrightarrow> y \<in> set ys \<Longrightarrow> \<exists>x\<in>set xs. P x y"
  by (induction rule: list_all2_induct) auto

text \<open>A table whose rows were only replaced by later versions of them and appended to.\<close>

definition grows :: "('r \<Rightarrow> 'r \<Rightarrow> bool) \<Rightarrow> 'r list \<Rightarrow> 'r list \<Rightarrow> bool" where
  "grows R rows rows' \<longleftrightarrow> (\<exists>olds news. rows' = olds @ news \<and> list_all2 R rows olds)"

lemma grows_refl: "(\<And>x. R x x) \<Longrightarrow> grows R xs xs"
  unfolding grows_def by (intro exI [of _ xs] exI [of _ "[]"]) (simp add: list_all2_refl)

lemma grows_snoc: "(\<And>x. R x x) \<Longrightarrow> grows R xs (xs @ ys)"
  unfolding grows_def by (intro exI [of _ xs] exI [of _ ys]) (simp add: list_all2_refl)

lemma grows_trans:
  assumes "\<And>x y z. R x y \<Longrightarrow> R y z \<Longrightarrow> R x z" and "grows R xs ys" and "grows R ys zs"
  shows "grows R xs zs"
proof -
  obtain olds news where ys: "ys = olds @ news" "list_all2 R xs olds"
    using assms(2) by (auto simp: grows_def)
  obtain rows more where zs: "zs = rows @ more" "list_all2 R (olds @ news) rows"
    using assms(3) ys(1) by (auto simp: grows_def)
  from zs(2) obtain a b where ab: "rows = a @ b" "list_all2 R olds a"
    by (auto simp: list_all2_append1)
  have "list_all2 R xs a" using assms(1) ys(2) ab(2) by (rule list_all2_trans)
  then show ?thesis using zs(1) ab(1) by (auto simp: grows_def)
qed

lemma grows_update:
  "(\<And>r. r \<in> set rows \<Longrightarrow> P r \<Longrightarrow> R r (f r)) \<Longrightarrow> (\<And>x. R x x) \<Longrightarrow> grows R rows (update_where P f rows)"
  unfolding grows_def
  by (intro exI [of _ "update_where P f rows"] exI [of _ "[]"])
    (simp add: update_where_def list_all2_map2 list_all2_same)

lemma grows_find:
  assumes "grows R rows rows'" and "\<And>p q. R p q \<Longrightarrow> key q = key p"
    and "List.find (\<lambda>r. key r = k) rows = Some p"
  shows "\<exists>q. List.find (\<lambda>r. key r = k) rows' = Some q \<and> R p q"
proof -
  obtain olds news where n: "rows' = olds @ news" "list_all2 R rows olds"
    using assms(1) by (auto simp: grows_def)
  from n(2) assms(3) have "\<exists>q. List.find (\<lambda>r. key r = k) olds = Some q \<and> R p q"
    by (induction rule: list_all2_induct) (auto simp: assms(2) split: if_splits)
  then show ?thesis by (auto simp: n(1) find_append)
qed

lemma list_all2_in: "list_all2 R rows olds \<Longrightarrow> r \<in> set rows \<Longrightarrow> \<exists>q\<in>set olds. R r q"
  by (induction rule: list_all2_induct) auto

lemma grows_in:
  assumes "grows R rows rows'" and "r \<in> set rows"
  shows "\<exists>q\<in>set rows'. R r q"
  using assms list_all2_in unfolding grows_def by fastforce

text \<open>A partial unique index, over the rows whose key is not null.\<close>

definition unique_some :: "('r \<Rightarrow> 'k option) \<Rightarrow> 'r list \<Rightarrow> bool" where
  "unique_some key rows \<longleftrightarrow> distinct (filter (\<lambda>k. k \<noteq> None) (map key rows))"

lemma unique_some_Nil [simp]: "unique_some key []"
  by (simp add: unique_some_def)

lemma unique_some_snoc:
  "unique_some key (rows @ [r]) \<longleftrightarrow>
     unique_some key rows \<and> (key r = None \<or> key r \<notin> set (map key rows))"
  by (auto simp: unique_some_def)

lemma unique_someD:
  assumes "unique_some key rows" and "a \<in> set rows" and "b \<in> set rows"
    and "key a = Some k" and "key b = Some k" and "distinct (map ident rows)"
  shows "a = b"
  using assms
proof (induction rows)
  case Nil
  then show ?case by simp
next
  case (Cons r rows)
  have rest: "unique_some key rows" "distinct (map ident rows)"
    using Cons.prems(1,6) by (auto simp: unique_some_def split: if_splits)
  have fresh: "Some k \<notin> set (map key rows)" if "key r = Some k"
    using Cons.prems(1) that by (auto simp: unique_some_def)
  show ?case
  proof (cases "a = r \<or> b = r")
    case True
    then show ?thesis using Cons.prems(2-5) fresh by (auto simp: image_iff) metis+
  next
    case False
    then show ?thesis using Cons.IH [OF rest(1)] rest(2) Cons.prems(2-5) by auto
  qed
qed

end
