(* ===== verification/DecimalText.thy ===== *)
theory DecimalText
  imports NovaPrelude
begin

text \<open>
  \<open>Prisma.Decimal\<close> as the services use it. The package is not part of the repository, so its
  operations are the fields of a parameter, \<open>decimal_lib\<close>, and a value is the rational number it
  denotes. \<open>decimal_lib_ok\<close> states the documented behaviour the code relies on: the sign tests (the
  sign of zero is positive), exact sums and differences of amounts with eight decimals while the
  result is below \<open>10 ^ 12\<close> (the library rounds results to 20 significant digits), that parsing a
  numeral that \<open>toFixed(8)\<close> printed gives the amount back, and that a numeral of the pattern \<open>MONEY\<close>
  denotes a non-negative amount with at most eight decimals.

  \<open>exact_decimal\<close> is one concrete library, with decimal numerals printed and parsed digit by digit;
  the theory proves that it behaves as documented, and it is the library of every witness.

  The DTO patterns for amounts (\<open>MONEY\<close>) and rates (\<open>RATE\<close>) are here as well.
\<close>

section \<open>Patterns of the DTOs\<close>

definition is_digit :: "char \<Rightarrow> bool" where
  "is_digit c \<longleftrightarrow> CHR ''0'' \<le> c \<and> c \<le> CHR ''9''"

text \<open>\<open>^(?:0|[1-9]\d{0,19})\.\d{1,n}$\<close>: \<open>MONEY\<close> with \<open>n = 8\<close>, \<open>RATE\<close> with \<open>n = 12\<close>.\<close>

definition decimal_pattern :: "nat \<Rightarrow> string \<Rightarrow> bool" where
  "decimal_pattern n t \<longleftrightarrow>
     (let whole = takeWhile (\<lambda>c. c \<noteq> CHR ''.'') t;
          rest = dropWhile (\<lambda>c. c \<noteq> CHR ''.'') t
      in (whole = ''0'' \<or>
          (whole \<noteq> [] \<and> hd whole \<noteq> CHR ''0'' \<and> length whole \<le> 20 \<and> list_all is_digit whole)) \<and>
         rest \<noteq> [] \<and> tl rest \<noteq> [] \<and> length (tl rest) \<le> n \<and> list_all is_digit (tl rest))"

abbreviation money_pattern :: "string \<Rightarrow> bool" where
  "money_pattern \<equiv> decimal_pattern 8"

abbreviation rate_pattern :: "string \<Rightarrow> bool" where
  "rate_pattern \<equiv> decimal_pattern 12"

section \<open>The library as a parameter\<close>

record decimal_lib =
  dl_of :: "string \<Rightarrow> rat"                  \<comment> \<open>\<open>new Decimal(value)\<close>\<close>
  dl_plus :: "rat \<Rightarrow> rat \<Rightarrow> rat"
  dl_minus :: "rat \<Rightarrow> rat \<Rightarrow> rat"
  dl_mul :: "rat \<Rightarrow> rat \<Rightarrow> rat"
  dl_places :: "nat \<Rightarrow> rat \<Rightarrow> rat"           \<comment> \<open>\<open>toDecimalPlaces(n)\<close>\<close>
  dl_fixed :: "nat \<Rightarrow> rat \<Rightarrow> string"        \<comment> \<open>\<open>toFixed(n)\<close>\<close>
  dl_positive :: "rat \<Rightarrow> bool"             \<comment> \<open>\<open>isPositive()\<close>\<close>
  dl_negative :: "rat \<Rightarrow> bool"             \<comment> \<open>\<open>isNegative()\<close>\<close>

text \<open>\<open>has_places n x\<close>: the number is a multiple of \<open>10 ^ (-n)\<close>.\<close>

definition has_places :: "nat \<Rightarrow> rat \<Rightarrow> bool" where
  "has_places n x \<longleftrightarrow> of_int \<lfloor>x * 10 ^ n\<rfloor> = x * 10 ^ n"

definition money_bound :: rat where
  "money_bound = 10 ^ 12"

definition decimal_lib_ok :: "decimal_lib \<Rightarrow> bool" where
  "decimal_lib_ok D \<longleftrightarrow>
     (\<forall>x. dl_positive D x \<longleftrightarrow> 0 \<le> x) \<and>
     (\<forall>x. dl_negative D x \<longleftrightarrow> x < 0) \<and>
     (\<forall>x y. has_places 8 x \<and> has_places 8 y \<and> \<bar>x + y\<bar> < money_bound \<longrightarrow> dl_plus D x y = x + y) \<and>
     (\<forall>x y. has_places 8 x \<and> has_places 8 y \<and> \<bar>x - y\<bar> < money_bound \<longrightarrow> dl_minus D x y = x - y) \<and>
     (\<forall>x. has_places 8 x \<and> 0 \<le> x \<longrightarrow> dl_of D (dl_fixed D 8 x) = x) \<and>
     (\<forall>t. decimal_pattern 8 t \<longrightarrow> has_places 8 (dl_of D t) \<and> 0 \<le> dl_of D t)"

lemma decimal_lib_okD:
  assumes "decimal_lib_ok D"
  shows "dl_positive D x \<longleftrightarrow> 0 \<le> x"
    and "dl_negative D x \<longleftrightarrow> x < 0"
    and "has_places 8 x \<Longrightarrow> has_places 8 y \<Longrightarrow> \<bar>x + y\<bar> < money_bound \<Longrightarrow> dl_plus D x y = x + y"
    and "has_places 8 x \<Longrightarrow> has_places 8 y \<Longrightarrow> \<bar>x - y\<bar> < money_bound \<Longrightarrow> dl_minus D x y = x - y"
    and "has_places 8 x \<Longrightarrow> 0 \<le> x \<Longrightarrow> dl_of D (dl_fixed D 8 x) = x"
    and "decimal_pattern 8 t \<Longrightarrow> has_places 8 (dl_of D t)" and "decimal_pattern 8 t \<Longrightarrow> 0 \<le> dl_of D t"
  using assms by (simp_all add: decimal_lib_ok_def)

lemma has_places_iff: "has_places n x \<longleftrightarrow> (\<exists>k::int. x * 10 ^ n = of_int k)"
  by (metis floor_of_int has_places_def)

lemma has_places_add: "has_places n x \<Longrightarrow> has_places n y \<Longrightarrow> has_places n (x + y)"
  unfolding has_places_iff by (metis distrib_right of_int_add)

lemma has_places_diff: "has_places n x \<Longrightarrow> has_places n y \<Longrightarrow> has_places n (x - y)"
  unfolding has_places_iff by (metis left_diff_distrib of_int_diff)

lemma has_places_zero [simp]: "has_places n 0"
  by (simp add: has_places_def)

section \<open>A concrete library\<close>

definition digit_char :: "nat \<Rightarrow> char" where
  "digit_char d = char_of (48 + d)"

definition char_digit :: "char \<Rightarrow> nat" where
  "char_digit c = of_char c - 48"

fun nat_text :: "nat \<Rightarrow> string" where
  "nat_text n = (if n < 10 then [digit_char n] else nat_text (n div 10) @ [digit_char (n mod 10)])"

declare nat_text.simps [simp del]

text \<open>The last \<open>k\<close> decimal digits.\<close>

primrec low_digits :: "nat \<Rightarrow> nat \<Rightarrow> string" where
  "low_digits 0 n = []"
| "low_digits (Suc k) n = low_digits k (n div 10) @ [digit_char (n mod 10)]"

definition text_nat :: "string \<Rightarrow> nat" where
  "text_nat t = foldl (\<lambda>a c. 10 * a + char_digit c) 0 t"

lemma char_digit_digit_char [simp]: "d < 10 \<Longrightarrow> char_digit (digit_char d) = d"
  by (simp add: char_digit_def digit_char_def of_char_of)

lemma of_char_digit_char [simp]: "d < 10 \<Longrightarrow> of_char (digit_char d) = 48 + d"
  by (simp add: digit_char_def of_char_of)

lemma digit_char_not_dot [simp]: "d < 10 \<Longrightarrow> digit_char d \<noteq> CHR ''.''"
proof
  assume "d < 10" and "digit_char d = CHR ''.''"
  then have "48 + d = (of_char CHR ''.'' :: nat)" by (metis of_char_digit_char)
  then show False by simp
qed

lemma text_nat_snoc: "text_nat (t @ [c]) = 10 * text_nat t + char_digit c"
  by (simp add: text_nat_def)

lemma text_nat_Nil [simp]: "text_nat [] = 0"
  by (simp add: text_nat_def)

lemma text_nat_nat_text: "text_nat (nat_text n) = n"
proof (induction n rule: nat_text.induct)
  case (1 n)
  show ?case
  proof (cases "n < 10")
    case True
    then show ?thesis by (subst nat_text.simps) (simp add: text_nat_def)
  next
    case False
    with 1 have "text_nat (nat_text (n div 10)) = n div 10" by simp
    with False show ?thesis by (subst nat_text.simps) (simp add: text_nat_snoc)
  qed
qed

lemma length_low_digits [simp]: "length (low_digits k n) = k"
  by (induction k arbitrary: n) auto

lemma text_nat_low_digits: "text_nat (low_digits k n) = n mod 10 ^ k"
proof (induction k arbitrary: n)
  case 0
  then show ?case by simp
next
  case (Suc k)
  have "n mod 10 ^ Suc k = 10 * (n div 10 mod 10 ^ k) + n mod 10"
    by (simp add: mod_mult2_eq)
  then show ?case by (simp add: text_nat_snoc Suc.IH)
qed


text \<open>\<open>toFixed(n)\<close>: rounded half up to \<open>n\<close> decimals, always with \<open>n\<close> of them.\<close>

definition fixed_text :: "nat \<Rightarrow> rat \<Rightarrow> string" where
  "fixed_text n x =
     (let u = nat \<lfloor>\<bar>x\<bar> * 10 ^ n + 1 / 2\<rfloor>
      in (if x < 0 \<and> u \<noteq> 0 then ''-'' else []) @
         nat_text (u div 10 ^ n) @ ''.'' @ low_digits n u)"

definition unsigned_value :: "string \<Rightarrow> rat" where
  "unsigned_value t =
     (let whole = takeWhile (\<lambda>c. c \<noteq> CHR ''.'') t;
          frac = tl (dropWhile (\<lambda>c. c \<noteq> CHR ''.'') t)
      in of_nat (text_nat whole) + of_nat (text_nat frac) / 10 ^ length frac)"

definition decimal_value :: "string \<Rightarrow> rat" where
  "decimal_value t =
     (if t \<noteq> [] \<and> hd t = CHR ''-'' then - unsigned_value (tl t) else unsigned_value t)"

definition round_places :: "nat \<Rightarrow> rat \<Rightarrow> rat" where
  "round_places n x = sgn x * of_int \<lfloor>\<bar>x\<bar> * 10 ^ n + 1 / 2\<rfloor> / 10 ^ n"

definition exact_decimal :: decimal_lib where
  "exact_decimal =
     \<lparr>dl_of = decimal_value, dl_plus = (+), dl_minus = (-), dl_mul = (*),
      dl_places = round_places, dl_fixed = fixed_text,
      dl_positive = (\<lambda>x. 0 \<le> x), dl_negative = (\<lambda>x. x < 0)\<rparr>"

lemma nat_text_digits: "c \<in> set (nat_text n) \<Longrightarrow> \<exists>d<10. c = digit_char d"
proof (induction n rule: nat_text.induct)
  case (1 n)
  have "nat_text n = (if n < 10 then [digit_char n] else nat_text (n div 10) @ [digit_char (n mod 10)])"
    by (subst nat_text.simps) simp
  moreover have "n mod 10 < 10" by simp
  ultimately show ?case using 1 by (cases "n < 10") fastforce+
qed

lemma nat_text_no_dot: "\<forall>c\<in>set (nat_text n). c \<noteq> CHR ''.''"
proof
  fix c
  assume "c \<in> set (nat_text n)"
  then obtain d where "d < 10" and "c = digit_char d" using nat_text_digits by blast
  then show "c \<noteq> CHR ''.''" by simp
qed

lemma digit_char_not_minus: "d < 10 \<Longrightarrow> digit_char d \<noteq> CHR ''-''"
proof
  assume "d < 10" and "digit_char d = CHR ''-''"
  then have "48 + d = (of_char CHR ''-'' :: nat)" by (metis of_char_digit_char)
  then show False by simp
qed

lemma nat_text_not_Nil [simp]: "nat_text n \<noteq> []"
  by (subst nat_text.simps) simp

lemma hd_nat_text_not_minus: "hd (nat_text n @ t) \<noteq> CHR ''-''"
proof -
  have "hd (nat_text n @ t) \<in> set (nat_text n)" by (simp add: hd_append)
  then show ?thesis using nat_text_digits digit_char_not_minus by metis
qed

lemma unsigned_value_fixed:
  "unsigned_value (nat_text w @ ''.'' @ low_digits n u) =
     of_nat w + of_nat (u mod 10 ^ n) / 10 ^ n"
proof -
  have "takeWhile (\<lambda>c. c \<noteq> CHR ''.'') (nat_text w @ ''.'' @ low_digits n u) = nat_text w"
    and "dropWhile (\<lambda>c. c \<noteq> CHR ''.'') (nat_text w @ ''.'' @ low_digits n u) = ''.'' @ low_digits n u"
    using nat_text_no_dot by (simp_all add: takeWhile_append2 dropWhile_append2)
  then show ?thesis
    by (simp add: unsigned_value_def text_nat_nat_text text_nat_low_digits)
qed

lemma fixed_text_value:
  assumes "has_places n x" and "0 \<le> x"
  shows "decimal_value (fixed_text n x) = x"
proof -
  obtain k :: int where k: "x * 10 ^ n = of_int k"
    using assms(1) by (auto simp: has_places_iff)
  have "0 \<le> k" using k assms(2) by (metis of_int_0_le_iff zero_le_mult_iff zero_le_numeral zero_le_power)
  define u where "u = nat k"
  have "\<lfloor>\<bar>x\<bar> * 10 ^ n + 1 / 2\<rfloor> = k"
    using k assms(2) by (simp add: floor_unique)
  then have shape: "fixed_text n x = nat_text (u div 10 ^ n) @ ''.'' @ low_digits n u"
    using assms(2) by (simp add: fixed_text_def u_def Let_def)
  have "decimal_value (fixed_text n x) = of_nat (u div 10 ^ n) + of_nat (u mod 10 ^ n) / 10 ^ n"
    using hd_nat_text_not_minus [of "u div 10 ^ n" "''.'' @ low_digits n u"]
    by (simp only: shape decimal_value_def unsigned_value_fixed) simp
  also have "\<dots> = of_nat (u div 10 ^ n * 10 ^ n + u mod 10 ^ n) / 10 ^ n"
    by (simp add: add_divide_distrib)
  also have "\<dots> = of_nat u / 10 ^ n"
    by (simp only: div_mult_mod_eq)
  also have "\<dots> = x"
    using k \<open>0 \<le> k\<close> by (simp add: u_def field_simps)
  finally show ?thesis .
qed

lemma digit_not_minus: "is_digit c \<Longrightarrow> c \<noteq> CHR ''-''"
  by (auto simp: is_digit_def)

lemma pattern_value:
  assumes "decimal_pattern n t"
  shows "has_places n (decimal_value t)" and "0 \<le> decimal_value t"
proof -
  let ?whole = "takeWhile (\<lambda>c. c \<noteq> CHR ''.'') t"
  let ?frac = "tl (dropWhile (\<lambda>c. c \<noteq> CHR ''.'') t)"
  have whole: "?whole \<noteq> []" "list_all is_digit ?whole" and len: "length ?frac \<le> n"
    using assms by (auto simp: decimal_pattern_def Let_def is_digit_def)
  have "hd t = hd ?whole"
    using whole(1) by (cases t) auto
  moreover have "is_digit (hd ?whole)"
    using whole by (cases ?whole) auto
  ultimately have minus: "\<not> (t \<noteq> [] \<and> hd t = CHR ''-'')"
    using digit_not_minus by metis
  have v: "decimal_value t = of_nat (text_nat ?whole) + of_nat (text_nat ?frac) / 10 ^ length ?frac"
    using minus by (auto simp: decimal_value_def unsigned_value_def Let_def)
  show "0 \<le> decimal_value t" by (simp add: v)
  have "(10::rat) ^ n = 10 ^ length ?frac * 10 ^ (n - length ?frac)"
    using len by (simp flip: power_add)
  then have "decimal_value t * 10 ^ n =
      of_int (int (text_nat ?whole) * 10 ^ n + int (text_nat ?frac) * 10 ^ (n - length ?frac))"
    by (simp add: v distrib_right)
  then show "has_places n (decimal_value t)"
    unfolding has_places_iff by blast
qed

lemma exact_decimal_ok: "decimal_lib_ok exact_decimal"
  by (simp add: decimal_lib_ok_def exact_decimal_def fixed_text_value pattern_value)

lemma exact_decimal_simps [simp]:
  "dl_plus exact_decimal x y = x + y" "dl_minus exact_decimal x y = x - y"
  "dl_mul exact_decimal x y = x * y" "dl_of exact_decimal t = decimal_value t"
  "dl_fixed exact_decimal n x = fixed_text n x" "dl_places exact_decimal n x = round_places n x"
  by (simp_all add: exact_decimal_def)

lemma exact_decimal_signs [simp]:
  "dl_positive exact_decimal x \<longleftrightarrow> 0 \<le> x" "dl_negative exact_decimal x \<longleftrightarrow> x < 0"
  by (simp_all add: exact_decimal_def)

section \<open>Evaluation\<close>

text \<open>Equations with which the simplifier prints and parses concrete numerals.\<close>

lemma low_digits_numeral:
  "low_digits (numeral k) n = low_digits (pred_numeral k) (n div 10) @ [digit_char (n mod 10)]"
  by (simp only: numeral_eq_Suc [of k] low_digits.simps)

lemma digit_char_table:
  "digit_char 0 = CHR ''0''" "digit_char 1 = CHR ''1''" "digit_char (Suc 0) = CHR ''1''"
  "digit_char 2 = CHR ''2''" "digit_char 3 = CHR ''3''" "digit_char 4 = CHR ''4''"
  "digit_char 5 = CHR ''5''" "digit_char 6 = CHR ''6''" "digit_char 7 = CHR ''7''"
  "digit_char 8 = CHR ''8''" "digit_char 9 = CHR ''9''"
  by code_simp+

lemma char_digit_table:
  "char_digit CHR ''0'' = 0" "char_digit CHR ''1'' = 1" "char_digit CHR ''2'' = 2"
  "char_digit CHR ''3'' = 3" "char_digit CHR ''4'' = 4" "char_digit CHR ''5'' = 5"
  "char_digit CHR ''6'' = 6" "char_digit CHR ''7'' = 7" "char_digit CHR ''8'' = 8"
  "char_digit CHR ''9'' = 9"
  by (simp_all add: char_digit_def)

lemma floor_numeral_rat:
  "\<lfloor>numeral a / numeral b :: rat\<rfloor> = numeral a div numeral b"
  using floor_divide_of_int_eq [of "numeral a" "numeral b"] by simp

lemmas decimal_eval = floor_numeral_rat low_digits_numeral digit_char_table char_digit_table nat_text.simps
  fixed_text_def decimal_value_def unsigned_value_def text_nat_def Let_def

end
