(* ===== verification/LedgerModel.thy ===== *)
theory LedgerModel
  imports DecimalText
begin

text \<open>
  The state of the Ledger service (services/ledger-service): the tables of its database with the
  constraints, unique indexes and triggers of its migrations, the counters of
  \<open>LedgerMetricsService\<close>, and the command and response objects of its DTOs. Columns that no code of the
  service reads (row identifiers of entries, creation times) are left out; the status column of a
  transaction has one value, \<open>POSTED\<close>, and appears in the response only. The format check of
  \<open>command_hash\<close> is left out: the digest is a parameter and SHA-256 in hexadecimal satisfies it.
\<close>

section \<open>Rows\<close>

datatype account_type = CUSTOMER | FX_CLEARING | FEE_REVENUE
datatype side = DEBIT | CREDIT  \<comment> \<open>\<open>NormalSide\<close> and \<open>EntryDirection\<close>\<close>
datatype account_status = ACTIVE | FROZEN | CLOSED
datatype posting_type = TRANSFER | FX_TRANSFER | FEE | REVERSAL | FUNDING

record ledger_account =
  la_id :: uuid
  la_wallet :: "uuid option"
  la_type :: account_type
  la_currency :: string
  la_normal :: side
  la_status :: account_status

record wallet_balance =
  wb_account :: uuid
  wb_currency :: string
  wb_available :: rat
  wb_version :: int

record ledger_transaction =
  lt_id :: uuid
  lt_reference :: uuid
  lt_hash :: string
  lt_type :: posting_type
  lt_source_currency :: string
  lt_target_currency :: string
  lt_source_amount :: rat
  lt_target_amount :: rat
  lt_fx_quote :: "uuid option"
  lt_locked_rate :: "rat option"
  lt_reverses :: "uuid option"
  lt_request :: uuid

record ledger_entry =
  le_transaction :: uuid
  le_account :: uuid
  le_sequence :: nat
  le_direction :: side
  le_amount :: rat
  le_currency :: string
  le_fx_quote :: "uuid option"
  le_locked_rate :: "rat option"

record invariant_check =
  ic_checked_at :: instant
  ic_violations :: nat
  ic_examples :: "(uuid \<times> string) list"

record ledger_state =
  accounts :: "ledger_account list"
  balances :: "wallet_balance list"
  transactions :: "ledger_transaction list"
  entries :: "ledger_entry list"
  checks :: "invariant_check list"
  succeeded :: nat
  failed :: nat
  invariant_gauge :: nat

definition empty_ledger :: ledger_state where
  "empty_ledger = \<lparr>accounts = [], balances = [], transactions = [], entries = [], checks = [],
     succeeded = 0, failed = 0, invariant_gauge = 0\<rparr>"

text \<open>\<open>LedgerMetricsService\<close>: the counters next to their Prometheus series.\<close>

definition record_success :: "ledger_state \<Rightarrow> ledger_state" where
  "record_success s = s\<lparr>succeeded := succeeded s + 1\<rparr>"

definition record_failure :: "ledger_state \<Rightarrow> ledger_state" where
  "record_failure s = s\<lparr>failed := failed s + 1\<rparr>"

definition set_invariant_violations :: "nat \<Rightarrow> ledger_state \<Rightarrow> ledger_state" where
  "set_invariant_violations n s = s\<lparr>invariant_gauge := n\<rparr>"

definition metrics_snapshot :: "ledger_state \<Rightarrow> nat \<times> nat \<times> nat" where
  "metrics_snapshot s = (succeeded s, failed s, invariant_gauge s)"

section \<open>Constraints of the migrations\<close>

text \<open>
  A \<open>NUMERIC(p, s)\<close> column rounds to \<open>s\<close> decimals and refuses a value that then has more than
  \<open>p - s\<close> digits before the point.
\<close>

definition numeric_column :: "nat \<Rightarrow> nat \<Rightarrow> rat \<Rightarrow> rat option" where
  "numeric_column p s x =
     (let r = round_places s x in if \<bar>r\<bar> < 10 ^ (p - s) then Some r else None)"

abbreviation money_column :: "rat \<Rightarrow> rat option" where
  "money_column \<equiv> numeric_column 28 8"

abbreviation rate_column :: "rat \<Rightarrow> rat option" where
  "rate_column \<equiv> numeric_column 28 12"

definition nullable_rate_column :: "rat option \<Rightarrow> rat option option" where
  "nullable_rate_column v = (case v of None \<Rightarrow> Some None | Some x \<Rightarrow> map_option Some (rate_column x))"

definition account_check :: "ledger_account \<Rightarrow> bool" where
  "account_check a \<longleftrightarrow>
     is_currency (la_currency a) \<and> (la_type a = CUSTOMER) = (la_wallet a \<noteq> None)"

definition internal_key :: "ledger_account \<Rightarrow> (account_type \<times> string) option" where
  "internal_key a = (if la_type a = CUSTOMER then None else Some (la_type a, la_currency a))"

definition account_conflict :: "ledger_account \<Rightarrow> ledger_account list \<Rightarrow> bool" where
  "account_conflict a rows \<longleftrightarrow>
     key_taken la_id (la_id a) rows \<or>
     (la_wallet a \<noteq> None \<and> key_taken la_wallet (la_wallet a) rows) \<or>
     (internal_key a \<noteq> None \<and> key_taken internal_key (internal_key a) rows)"

text \<open>
  \<open>locked_fx_rate > 0\<close> in a \<open>CHECK\<close>: unknown for a missing rate, and a check refuses only what is false.
\<close>

definition positive_rate :: "rat option \<Rightarrow> bool" where
  "positive_rate v = (case v of None \<Rightarrow> True | Some r \<Rightarrow> 0 < r)"

definition transaction_fx_check :: "ledger_transaction \<Rightarrow> bool" where
  "transaction_fx_check t \<longleftrightarrow>
     (let cross = lt_source_currency t \<noteq> lt_target_currency t \<and> lt_fx_quote t \<noteq> None \<and>
                  positive_rate (lt_locked_rate t);
          plain = lt_source_currency t = lt_target_currency t \<and> lt_fx_quote t = None \<and>
                  lt_locked_rate t = None
      in (lt_type t = FX_TRANSFER \<and> cross) \<or>
         (lt_type t = REVERSAL \<and> (plain \<or> cross)) \<or>
         (lt_type t \<notin> {FX_TRANSFER, REVERSAL} \<and> plain))"

definition transaction_check :: "ledger_transaction \<Rightarrow> bool" where
  "transaction_check t \<longleftrightarrow>
     is_currency (lt_source_currency t) \<and> is_currency (lt_target_currency t) \<and>
     0 < lt_source_amount t \<and> 0 < lt_target_amount t \<and>
     transaction_fx_check t \<and>
     (lt_type t = REVERSAL) = (lt_reverses t \<noteq> None)"

definition transaction_conflict :: "ledger_transaction \<Rightarrow> ledger_transaction list \<Rightarrow> bool" where
  "transaction_conflict t rows \<longleftrightarrow>
     key_taken lt_id (lt_id t) rows \<or>
     key_taken lt_reference (lt_reference t) rows \<or>
     (lt_reverses t \<noteq> None \<and> key_taken lt_reverses (lt_reverses t) rows)"

definition reverses_known :: "ledger_transaction \<Rightarrow> ledger_transaction list \<Rightarrow> bool" where
  "reverses_known t rows =
     (case lt_reverses t of None \<Rightarrow> True | Some i \<Rightarrow> key_taken lt_id i rows)"

definition entry_check :: "ledger_entry \<Rightarrow> bool" where
  "entry_check e \<longleftrightarrow>
     0 < le_sequence e \<and> 0 < le_amount e \<and> is_currency (le_currency e) \<and>
     ((le_fx_quote e = None \<and> le_locked_rate e = None) \<or>
      (le_fx_quote e \<noteq> None \<and> positive_rate (le_locked_rate e)))"

section \<open>Row operations\<close>

text \<open>\<open>ledgerAccount.create\<close> with its nested \<open>balance: { create: { currency } }\<close>.\<close>

definition create_account :: "ledger_account \<Rightarrow> (ledger_state, ledger_account) act" where
  "create_account a s =
     (if \<not> account_check a then (Inl (DbError DbCheck), s)
      else if account_conflict a (accounts s) then (Inl (DbError P2002), s)
      else (Inr a,
        s\<lparr>accounts := accounts s @ [a],
          balances := balances s @
            [\<lparr>wb_account = la_id a, wb_currency = la_currency a, wb_available = 0, wb_version = 0\<rparr>]\<rparr>))"

text \<open>The rows as the columns hold them; \<open>None\<close> when a value is out of a column's range.\<close>

definition stored_transaction :: "ledger_transaction \<Rightarrow> ledger_transaction option" where
  "stored_transaction t =
     (case (money_column (lt_source_amount t), money_column (lt_target_amount t),
            nullable_rate_column (lt_locked_rate t)) of
        (Some sa, Some ta, Some lr) \<Rightarrow>
          Some (t\<lparr>lt_source_amount := sa, lt_target_amount := ta, lt_locked_rate := lr\<rparr>)
      | _ \<Rightarrow> None)"

definition stored_entry :: "ledger_entry \<Rightarrow> ledger_entry option" where
  "stored_entry e =
     (case (money_column (le_amount e), nullable_rate_column (le_locked_rate e)) of
        (Some a, Some lr) \<Rightarrow> Some (e\<lparr>le_amount := a, le_locked_rate := lr\<rparr>)
      | _ \<Rightarrow> None)"

definition entry_key :: "ledger_entry \<Rightarrow> uuid \<times> nat" where
  "entry_key e = (le_transaction e, le_sequence e)"

text \<open>\<open>ledgerTransaction.create\<close>.\<close>

definition create_transaction :: "ledger_transaction \<Rightarrow> (ledger_state, ledger_transaction) act" where
  "create_transaction t s =
     (case stored_transaction t of
        None \<Rightarrow> (Inl (DbError DbCheck), s)
      | Some row \<Rightarrow>
          if \<not> transaction_check row then (Inl (DbError DbCheck), s)
          else if transaction_conflict row (transactions s) then (Inl (DbError P2002), s)
          else if \<not> reverses_known row (transactions s) then (Inl (DbError DbCheck), s)
          else (Inr row, s\<lparr>transactions := transactions s @ [row]\<rparr>))"

text \<open>One row of \<open>ledgerEntry.createMany\<close>.\<close>

definition create_entry :: "ledger_entry \<Rightarrow> (ledger_state, unit) act" where
  "create_entry e s =
     (case stored_entry e of
        None \<Rightarrow> (Inl (DbError DbCheck), s)
      | Some row \<Rightarrow>
          if \<not> entry_check row then (Inl (DbError DbCheck), s)
          else if key_taken entry_key (entry_key row) (entries s) then (Inl (DbError P2002), s)
          else if \<not> key_taken lt_id (le_transaction row) (transactions s) \<or>
                  \<not> key_taken la_id (le_account row) (accounts s)
          then (Inl (DbError DbCheck), s)
          else (Inr (), s\<lparr>entries := entries s @ [row]\<rparr>))"

text \<open>\<open>walletBalance.update\<close> of one account.\<close>

definition update_balance :: "uuid \<Rightarrow> rat \<Rightarrow> (ledger_state, unit) act" where
  "update_balance account v s =
     (case money_column v of
        None \<Rightarrow> (Inl (DbError DbCheck), s)
      | Some x \<Rightarrow>
          if \<not> key_taken wb_account account (balances s) then (Inl (DbError P2025), s)
          else (Inr (),
            s\<lparr>balances := update_where (\<lambda>b. wb_account b = account)
                 (\<lambda>b. b\<lparr>wb_available := x, wb_version := wb_version b + 1\<rparr>) (balances s)\<rparr>))"

text \<open>
  The deferred trigger \<open>novapay_verify_balanced_posting\<close>, which runs at commit for every inserted
  transaction: at least two entries, and equal debits and credits in every currency they use.
\<close>

definition side_total :: "side \<Rightarrow> string \<Rightarrow> ledger_entry list \<Rightarrow> rat" where
  "side_total d cur es =
     sum_list (map le_amount (filter (\<lambda>e. le_direction e = d \<and> le_currency e = cur) es))"

definition entries_of :: "uuid \<Rightarrow> ledger_entry list \<Rightarrow> ledger_entry list" where
  "entries_of t es = filter (\<lambda>e. le_transaction e = t) es"

definition balanced_entries :: "ledger_entry list \<Rightarrow> bool" where
  "balanced_entries es \<longleftrightarrow>
     2 \<le> length es \<and>
     list_all (\<lambda>cur. side_total DEBIT cur es = side_total CREDIT cur es) (map le_currency es)"

definition posting_commits :: "uuid \<Rightarrow> ledger_state \<Rightarrow> bool" where
  "posting_commits t s \<longleftrightarrow> balanced_entries (entries_of t (entries s))"

section \<open>Commands and responses\<close>

datatype posting_type_dto = TRANSFER_DTO | FX_TRANSFER_DTO | FEE_DTO

fun posting_type_of :: "posting_type_dto \<Rightarrow> posting_type" where
  "posting_type_of TRANSFER_DTO = TRANSFER"
| "posting_type_of FX_TRANSFER_DTO = FX_TRANSFER"
| "posting_type_of FEE_DTO = FEE"

fun posting_type_name :: "posting_type \<Rightarrow> string" where
  "posting_type_name TRANSFER = ''TRANSFER''"
| "posting_type_name FX_TRANSFER = ''FX_TRANSFER''"
| "posting_type_name FEE = ''FEE''"
| "posting_type_name REVERSAL = ''REVERSAL''"
| "posting_type_name FUNDING = ''FUNDING''"

fun side_name :: "side \<Rightarrow> string" where
  "side_name DEBIT = ''DEBIT''"
| "side_name CREDIT = ''CREDIT''"

text \<open>
  An entry of a posting command. \<open>pe_keys\<close> is the order in which the request spelled the entry's
  four properties: the object spread of \<open>normalizeCommand\<close> keeps it, so it reaches the hash.
\<close>

record posting_entry_dto =
  pe_wallet :: uuid
  pe_direction :: side
  pe_amount :: string
  pe_currency :: string
  pe_keys :: "string list"

record create_posting_dto =
  cp_reference :: uuid
  cp_request :: uuid
  cp_type :: posting_type_dto
  cp_source_currency :: string
  cp_target_currency :: string
  cp_source_amount :: string
  cp_target_amount :: string
  cp_fx_quote :: "uuid option"
  cp_locked_rate :: "string option"
  cp_entries :: "posting_entry_dto list"

record reverse_posting_dto =
  rp_reference :: uuid
  rp_request :: uuid

record fund_wallet_dto =
  fw_reference :: uuid
  fw_request :: uuid
  fw_wallet :: uuid
  fw_amount :: string
  fw_currency :: string

record provision_dto =
  pv_wallet :: uuid
  pv_currency :: string

text \<open>
  What the validation decorators of the DTOs accept; \<open>is_uuid\<close> stands for class-validator's
  \<open>IsUUID\<close>.
\<close>

definition entry_dto_ok :: "(string \<Rightarrow> bool) \<Rightarrow> posting_entry_dto \<Rightarrow> bool" where
  "entry_dto_ok is_uuid e \<longleftrightarrow>
     is_uuid (pe_wallet e) \<and> money_pattern (pe_amount e) \<and> is_currency (pe_currency e)"

definition posting_dto_ok :: "(string \<Rightarrow> bool) \<Rightarrow> create_posting_dto \<Rightarrow> bool" where
  "posting_dto_ok is_uuid c \<longleftrightarrow>
     is_uuid (cp_reference c) \<and> is_uuid (cp_request c) \<and>
     is_currency (cp_source_currency c) \<and> is_currency (cp_target_currency c) \<and>
     money_pattern (cp_source_amount c) \<and> money_pattern (cp_target_amount c) \<and>
     pred_option is_uuid (cp_fx_quote c) \<and> pred_option rate_pattern (cp_locked_rate c) \<and>
     2 \<le> length (cp_entries c) \<and> length (cp_entries c) \<le> 8 \<and>
     list_all (entry_dto_ok is_uuid) (cp_entries c)"

definition reverse_dto_ok :: "(string \<Rightarrow> bool) \<Rightarrow> reverse_posting_dto \<Rightarrow> bool" where
  "reverse_dto_ok is_uuid c \<longleftrightarrow> is_uuid (rp_reference c) \<and> is_uuid (rp_request c)"

definition fund_dto_ok :: "(string \<Rightarrow> bool) \<Rightarrow> fund_wallet_dto \<Rightarrow> bool" where
  "fund_dto_ok is_uuid c \<longleftrightarrow>
     is_uuid (fw_reference c) \<and> is_uuid (fw_request c) \<and> is_uuid (fw_wallet c) \<and>
     money_pattern (fw_amount c) \<and> is_currency (fw_currency c)"

definition provision_dto_ok :: "(string \<Rightarrow> bool) \<Rightarrow> provision_dto \<Rightarrow> bool" where
  "provision_dto_ok is_uuid c \<longleftrightarrow> is_uuid (pv_wallet c) \<and> is_currency (pv_currency c)"

definition balance_query_ok :: "(string \<Rightarrow> bool) \<Rightarrow> uuid list \<Rightarrow> bool" where
  "balance_query_ok is_uuid ws \<longleftrightarrow> ws \<noteq> [] \<and> length ws \<le> 100 \<and> list_all is_uuid ws"

record entry_response =
  er_account :: uuid
  er_direction :: side
  er_amount :: string
  er_currency :: string

record posting_response =
  pr_id :: uuid
  pr_reference :: uuid
  pr_status :: string
  pr_type :: string
  pr_entries :: "entry_response list"

record balance_response =
  br_wallet :: uuid
  br_account :: uuid
  br_available :: string
  br_currency :: string
  br_version :: int

end
