(* ===== verification/LedgerPosting.thy ===== *)
theory LedgerPosting
  imports LedgerModel
begin

text \<open>
  \<open>PostingService\<close> (services/ledger-service/src/ledger/posting.service.ts): posting, reversal,
  controlled funding and the lookup by reference, with the pure functions below the class. The
  handler of \<open>post\<close> is the sequence of database calls of the method; \<open>lv_others\<close> is what requests
  handled concurrently do to the state at each of its \<open>await\<close>s, \<open>lv_aborts\<close> says which attempts the
  engine aborts with a serialization failure. Logging and the request context, which only feeds the
  log, are left out.
\<close>

section \<open>The environment of a request\<close>

record ledger_env =
  lv_decimal :: decimal_lib
  lv_digest :: "json \<Rightarrow> string"          \<comment> \<open>SHA-256 of \<open>JSON.stringify\<close>, in hexadecimal\<close>
  lv_collate :: "string \<Rightarrow> string"       \<comment> \<open>the sort key by which \<open>localeCompare\<close> compares\<close>
  lv_others :: "nat \<Rightarrow> ledger_state \<Rightarrow> ledger_state"
  lv_aborts :: "nat \<Rightarrow> bool"
  lv_transaction_id :: "nat \<Rightarrow> uuid"     \<comment> \<open>the default \<open>uuid()\<close> of the row created by an attempt\<close>
  lv_clearing_id :: "string \<Rightarrow> uuid"     \<comment> \<open>the default \<open>uuid()\<close> of a new clearing account\<close>
  lv_node_env :: "string option"
  lv_test_funding :: "string option"

section \<open>Errors\<close>

definition ledger_account_not_found :: failure where
  "ledger_account_not_found =
     http_failure 404 ''LEDGER_ACCOUNT_NOT_FOUND'' ''One or more ledger accounts were not found.''"

definition wallet_account_not_found :: failure where
  "wallet_account_not_found =
     http_failure 404 ''LEDGER_ACCOUNT_NOT_FOUND'' ''Ledger account not found.''"

definition ledger_account_unavailable :: failure where
  "ledger_account_unavailable =
     http_failure 409 ''LEDGER_ACCOUNT_UNAVAILABLE''
       ''A ledger account is unavailable or uses another currency.''"

definition invalid_fx_posting :: failure where
  "invalid_fx_posting =
     http_failure 422 ''INVALID_FX_POSTING'' ''Posting currencies and FX fields are inconsistent.''"

definition invalid_posting_amount :: failure where
  "invalid_posting_amount =
     http_failure 422 ''INVALID_POSTING_AMOUNT'' ''Posting amounts must be positive.''"

definition invalid_entry_amount :: failure where
  "invalid_entry_amount =
     http_failure 422 ''INVALID_POSTING_AMOUNT'' ''Ledger entry amounts must be positive.''"

definition invalid_fx_rate :: failure where
  "invalid_fx_rate = http_failure 422 ''INVALID_FX_RATE'' ''The locked FX rate must be positive.''"

definition unbalanced_posting :: failure where
  "unbalanced_posting =
     http_failure 422 ''UNBALANCED_POSTING''
       ''Debits and credits must balance independently per currency.''"

definition posting_total_mismatch :: failure where
  "posting_total_mismatch =
     http_failure 422 ''POSTING_TOTAL_MISMATCH''
       ''Posting metadata must match the balanced journal totals.''"

definition insufficient_funds :: failure where
  "insufficient_funds =
     http_failure 422 ''INSUFFICIENT_FUNDS'' ''The wallet has insufficient available funds.''"

definition idempotency_mismatch :: failure where
  "idempotency_mismatch =
     http_failure 409 ''IDEMPOTENCY_KEY_REUSED''
       ''The external reference was already used with a different command.''"

definition posting_conflict :: failure where
  "posting_conflict =
     http_failure 409 ''POSTING_CONFLICT''
       ''The posting conflicts with an existing ledger operation.''"

definition posting_not_found :: failure where
  "posting_not_found = http_failure 404 ''POSTING_NOT_FOUND'' ''Ledger posting not found.''"

definition reversal_of_reversal :: failure where
  "reversal_of_reversal =
     http_failure 409 ''REVERSAL_OF_REVERSAL_NOT_ALLOWED'' ''A reversal cannot itself be reversed.''"

definition posting_already_reversed :: failure where
  "posting_already_reversed =
     http_failure 409 ''POSTING_ALREADY_REVERSED'' ''The ledger posting has already been reversed.''"

definition test_funding_disabled :: failure where
  "test_funding_disabled =
     http_failure 403 ''TEST_FUNDING_DISABLED'' ''Controlled test funding is disabled.''"

definition missing_projection :: failure where
  "missing_projection = PlainError ''A ledger balance projection is missing.''"

definition injected_failure :: failure where
  "injected_failure = PlainError ''Injected failure before commit.''"

definition retry_loop_exit :: failure where
  "retry_loop_exit = PlainError ''Posting retry loop exited unexpectedly.''"

lemmas ledger_failures = ledger_account_not_found_def wallet_account_not_found_def
  ledger_account_unavailable_def invalid_fx_posting_def invalid_posting_amount_def
  invalid_entry_amount_def invalid_fx_rate_def unbalanced_posting_def posting_total_mismatch_def
  insufficient_funds_def idempotency_mismatch_def posting_conflict_def posting_not_found_def
  reversal_of_reversal_def posting_already_reversed_def test_funding_disabled_def
  missing_projection_def injected_failure_def retry_loop_exit_def

lemma ledger_failures_not_unique [simp]:
  "\<not> is_unique_violation ledger_account_not_found"
  "\<not> is_unique_violation ledger_account_unavailable"
  "\<not> is_unique_violation invalid_posting_amount" "\<not> is_unique_violation invalid_entry_amount"
  "\<not> is_unique_violation invalid_fx_rate" "\<not> is_unique_violation unbalanced_posting"
  "\<not> is_unique_violation posting_total_mismatch" "\<not> is_unique_violation insufficient_funds"
  "\<not> is_unique_violation missing_projection" "\<not> is_unique_violation injected_failure"
  by (simp_all add: ledger_failures)

lemma ledger_failures_not_serialization [simp]:
  "\<not> is_serialization_failure ledger_account_not_found"
  "\<not> is_serialization_failure ledger_account_unavailable"
  "\<not> is_serialization_failure insufficient_funds"
  "\<not> is_serialization_failure missing_projection"
  "\<not> is_serialization_failure injected_failure"
  by (simp_all add: ledger_failures)

section \<open>Resolved postings\<close>

record resolved_entry =
  re_account :: uuid
  re_direction :: side
  re_amount :: rat
  re_currency :: string
  re_fx_quote :: "uuid option"
  re_locked_rate :: "rat option"

record resolved_posting =
  rs_reference :: uuid
  rs_request :: uuid
  rs_type :: posting_type
  rs_source_currency :: string
  rs_target_currency :: string
  rs_source_amount :: rat
  rs_target_amount :: rat
  rs_fx_quote :: "uuid option"
  rs_locked_rate :: "rat option"
  rs_reverses :: "uuid option"
  rs_entries :: "resolved_entry list"

definition to_response :: "decimal_lib \<Rightarrow> ledger_transaction \<Rightarrow> ledger_entry list \<Rightarrow> posting_response" where
  "to_response D t es =
     \<lparr>pr_id = lt_id t, pr_reference = lt_reference t, pr_status = ''POSTED'',
      pr_type = posting_type_name (lt_type t),
      pr_entries = map (\<lambda>e. \<lparr>er_account = le_account e, er_direction = le_direction e,
        er_amount = dl_fixed D 8 (le_amount e), er_currency = le_currency e\<rparr>) es\<rparr>"

text \<open>\<open>include: { entries: { orderBy: { sequence: 'asc' } } }\<close>.\<close>

definition ordered_entries :: "uuid \<Rightarrow> ledger_state \<Rightarrow> ledger_entry list" where
  "ordered_entries t s = sort_key le_sequence (entries_of t (entries s))"

definition response_of :: "decimal_lib \<Rightarrow> ledger_state \<Rightarrow> ledger_transaction \<Rightarrow> posting_response" where
  "response_of D s t = to_response D t (ordered_entries (lt_id t) s)"

definition find_transaction :: "uuid \<Rightarrow> ledger_state \<Rightarrow> ledger_transaction option" where
  "find_transaction t s = List.find (\<lambda>r. lt_id r = t) (transactions s)"

definition find_by_reference :: "uuid \<Rightarrow> ledger_state \<Rightarrow> ledger_transaction option" where
  "find_by_reference r s = List.find (\<lambda>t. lt_reference t = r) (transactions s)"

definition find_account :: "uuid \<Rightarrow> ledger_account list \<Rightarrow> ledger_account option" where
  "find_account i rows = List.find (\<lambda>a. la_id a = i) rows"

section \<open>Pure functions\<close>

definition validate_fx_shape :: "create_posting_dto \<Rightarrow> bool" where
  "validate_fx_shape c =
     (if cp_type c = FX_TRANSFER_DTO
      then cp_source_currency c \<noteq> cp_target_currency c \<and>
           truthy (cp_fx_quote c) \<and> truthy (cp_locked_rate c)
      else cp_source_currency c = cp_target_currency c \<and>
           \<not> truthy (cp_fx_quote c) \<and> \<not> truthy (cp_locked_rate c))"

text \<open>The map from currency to debit and credit totals, in insertion order.\<close>

type_synonym totals = "(string \<times> rat \<times> rat) list"

definition add_total :: "decimal_lib \<Rightarrow> totals \<Rightarrow> resolved_entry \<Rightarrow> totals" where
  "add_total D ts e =
     (let (d, c) = (case map_of ts (re_currency e) of Some p \<Rightarrow> p | None \<Rightarrow> (0, 0));
          p = (if re_direction e = DEBIT then (dl_plus D d (re_amount e), c)
               else (d, dl_plus D c (re_amount e)))
      in if map_of ts (re_currency e) = None then ts @ [(re_currency e, p)]
         else map (\<lambda>(k, q). if k = re_currency e then (k, p) else (k, q)) ts)"

fun entry_totals :: "decimal_lib \<Rightarrow> totals \<Rightarrow> resolved_entry list \<Rightarrow> failure + totals" where
  "entry_totals D ts [] = Inr ts"
| "entry_totals D ts (e # es) =
     (if \<not> dl_positive D (re_amount e) then Inl invalid_entry_amount
      else entry_totals D (add_total D ts e) es)"

definition validate_resolved :: "decimal_lib \<Rightarrow> resolved_posting \<Rightarrow> failure option" where
  "validate_resolved D c =
     (if \<not> dl_positive D (rs_source_amount c) \<or> \<not> dl_positive D (rs_target_amount c)
      then Some invalid_posting_amount
      else if \<not> pred_option (dl_positive D) (rs_locked_rate c) then Some invalid_fx_rate
      else case entry_totals D [] (rs_entries c) of
        Inl e \<Rightarrow> Some e
      | Inr ts \<Rightarrow>
          if list_ex (\<lambda>(k, d, cr). d \<noteq> cr) ts then Some unbalanced_posting
          else if map_option fst (map_of ts (rs_source_currency c)) \<noteq> Some (rs_source_amount c) \<or>
                  map_option snd (map_of ts (rs_target_currency c)) \<noteq> Some (rs_target_amount c)
          then Some posting_total_mismatch
          else None)"

definition money :: "decimal_lib \<Rightarrow> string \<Rightarrow> string" where
  "money D v = dl_fixed D 8 (dl_of D v)"

definition rate_text :: "decimal_lib \<Rightarrow> string \<Rightarrow> string" where
  "rate_text D v = dl_fixed D 12 (dl_of D v)"

definition entry_sort_key :: "posting_entry_dto \<Rightarrow> string" where
  "entry_sort_key e =
     pe_wallet e @ '':'' @ side_name (pe_direction e) @ '':'' @ pe_currency e @ '':'' @ pe_amount e"

definition entry_field :: "posting_entry_dto \<Rightarrow> string \<Rightarrow> json" where
  "entry_field e k =
     JStr (if k = ''walletId'' then pe_wallet e
           else if k = ''direction'' then side_name (pe_direction e)
           else if k = ''amount'' then pe_amount e
           else pe_currency e)"

definition entry_json :: "posting_entry_dto \<Rightarrow> json" where
  "entry_json e = JObj (map (\<lambda>k. (k, entry_field e k)) (pe_keys e))"

definition normalize_entries :: "ledger_env \<Rightarrow> posting_entry_dto list \<Rightarrow> posting_entry_dto list" where
  "normalize_entries v es =
     sort_key (\<lambda>e. lv_collate v (entry_sort_key e))
       (map (\<lambda>e. e\<lparr>pe_amount := money (lv_decimal v) (pe_amount e)\<rparr>) es)"

definition posting_type_dto_name :: "posting_type_dto \<Rightarrow> string" where
  "posting_type_dto_name t = posting_type_name (posting_type_of t)"

definition normalize_command :: "ledger_env \<Rightarrow> create_posting_dto \<Rightarrow> json" where
  "normalize_command v c =
     JObj [(''externalReference'', JStr (cp_reference c)),
           (''postingType'', JStr (posting_type_dto_name (cp_type c))),
           (''sourceCurrency'', JStr (cp_source_currency c)),
           (''targetCurrency'', JStr (cp_target_currency c)),
           (''sourceAmount'', JStr (money (lv_decimal v) (cp_source_amount c))),
           (''targetAmount'', JStr (money (lv_decimal v) (cp_target_amount c))),
           (''lockedFxRate'',
              opt_str (if truthy (cp_locked_rate c)
                       then map_option (rate_text (lv_decimal v)) (cp_locked_rate c) else None)),
           (''fxQuoteId'', opt_str (cp_fx_quote c)),
           (''entries'', JArr (map entry_json (normalize_entries v (cp_entries c))))]"

definition reversal_json :: "uuid \<Rightarrow> reverse_posting_dto \<Rightarrow> json" where
  "reversal_json original c =
     JObj [(''kind'', JStr ''REVERSAL''), (''originalTransactionId'', JStr original),
           (''externalReference'', JStr (rp_reference c))]"

definition funding_json :: "ledger_env \<Rightarrow> fund_wallet_dto \<Rightarrow> json" where
  "funding_json v c =
     JObj [(''kind'', JStr ''FUNDING''), (''externalReference'', JStr (fw_reference c)),
           (''walletId'', JStr (fw_wallet c)), (''amount'', JStr (money (lv_decimal v) (fw_amount c))),
           (''currency'', JStr (fw_currency c))]"

section \<open>Lookups and clearing accounts\<close>

definition find_idempotent ::
  "ledger_env \<Rightarrow> uuid \<Rightarrow> string \<Rightarrow> (ledger_state, posting_response option) act" where
  "find_idempotent v reference hash s =
     (case find_by_reference reference s of
        None \<Rightarrow> (Inr None, s)
      | Some t \<Rightarrow>
          if lt_hash t \<noteq> hash then (Inl idempotency_mismatch, s)
          else (Inr (Some (response_of (lv_decimal v) s t)), s))"

definition find_clearing :: "string \<Rightarrow> ledger_state \<Rightarrow> ledger_account option" where
  "find_clearing cur s =
     List.find (\<lambda>a. la_type a = FX_CLEARING \<and> la_currency a = cur) (accounts s)"

definition ensure_clearing_account :: "ledger_env \<Rightarrow> string \<Rightarrow> (ledger_state, ledger_account) act" where
  "ensure_clearing_account v cur =
     bnd (gets (find_clearing cur)) (\<lambda>existing.
       case existing of
         Some a \<Rightarrow> ret a
       | None \<Rightarrow>
           bnd (pause (lv_others v 1)) (\<lambda>_.
           catch
             (create_account \<lparr>la_id = lv_clearing_id v cur, la_wallet = None, la_type = FX_CLEARING,
                la_currency = cur, la_normal = DEBIT, la_status = ACTIVE\<rparr>)
             (\<lambda>e. if is_unique_violation e
                  then bnd (gets (find_clearing cur)) (\<lambda>winner.
                         case winner of Some a \<Rightarrow> ret a | None \<Rightarrow> throw (DbError P2025))
                  else throw e)))"

text \<open>\<open>Promise.all\<close> of two calls: both run, the first failure is the result.\<close>

definition both :: "('s, 'a) act \<Rightarrow> ('s, 'b) act \<Rightarrow> ('s, 'a \<times> 'b) act" where
  "both m n s =
     (let (r1, s1) = m s; (r2, s2) = n s1
      in (case (r1, r2) of
            (Inl e, _) \<Rightarrow> Inl e
          | (Inr _, Inl e) \<Rightarrow> Inl e
          | (Inr x, Inr y) \<Rightarrow> Inr (x, y), s2))"

section \<open>The posting transaction\<close>

text \<open>The accounts with the given identifiers, as \<open>findMany\<close> finds them.\<close>

definition accounts_in :: "uuid list \<Rightarrow> ledger_state \<Rightarrow> ledger_account list" where
  "accounts_in ids s = filter (\<lambda>a. la_id a \<in> set ids) (accounts s)"

text \<open>\<open>SELECT ... FOR UPDATE ... ORDER BY ledger_account_id\<close>.\<close>

definition locked_balances :: "uuid list \<Rightarrow> ledger_state \<Rightarrow> wallet_balance list" where
  "locked_balances ids s =
     sort_key wb_account (filter (\<lambda>b. wb_account b \<in> set ids) (balances s))"

text \<open>The account's currency and status; a missing account cannot happen after the count check.\<close>

definition entry_account_ok :: "posting_type \<Rightarrow> ledger_account list \<Rightarrow> resolved_entry \<Rightarrow> bool" where
  "entry_account_ok ty rows e =
     (case find_account (re_account e) rows of
        None \<Rightarrow> False
      | Some a \<Rightarrow>
          la_currency a = re_currency e \<and>
          (la_status a = ACTIVE \<or> (ty = REVERSAL \<and> la_status a = FROZEN)))"

definition increases :: "ledger_account list \<Rightarrow> resolved_entry \<Rightarrow> bool" where
  "increases rows e \<longleftrightarrow> map_option la_normal (find_account (re_account e) rows) = Some (re_direction e)"

definition apply_entry ::
  "decimal_lib \<Rightarrow> ledger_account list \<Rightarrow> resolved_entry \<Rightarrow> (uuid \<times> rat) list \<Rightarrow> (uuid \<times> rat) list" where
  "apply_entry D rows e next =
     map (\<lambda>(k, x). if k = re_account e
            then (k, if increases rows e then dl_plus D x (re_amount e) else dl_minus D x (re_amount e))
            else (k, x)) next"

definition next_balances ::
  "decimal_lib \<Rightarrow> ledger_account list \<Rightarrow> resolved_entry list \<Rightarrow> wallet_balance list \<Rightarrow> (uuid \<times> rat) list" where
  "next_balances D rows es locked =
     fold (apply_entry D rows) es (map (\<lambda>b. (wb_account b, wb_available b)) locked)"

definition overdrawn :: "decimal_lib \<Rightarrow> ledger_account list \<Rightarrow> (uuid \<times> rat) list \<Rightarrow> bool" where
  "overdrawn D rows next \<longleftrightarrow>
     list_ex (\<lambda>(k, x). map_option la_type (find_account k rows) = Some CUSTOMER \<and> dl_negative D x) next"

definition transaction_row :: "uuid \<Rightarrow> string \<Rightarrow> resolved_posting \<Rightarrow> ledger_transaction" where
  "transaction_row i hash c =
     \<lparr>lt_id = i, lt_reference = rs_reference c, lt_hash = hash, lt_type = rs_type c,
      lt_source_currency = rs_source_currency c, lt_target_currency = rs_target_currency c,
      lt_source_amount = rs_source_amount c, lt_target_amount = rs_target_amount c,
      lt_fx_quote = rs_fx_quote c, lt_locked_rate = rs_locked_rate c,
      lt_reverses = rs_reverses c, lt_request = rs_request c\<rparr>"

definition entry_row :: "uuid \<Rightarrow> nat \<times> resolved_entry \<Rightarrow> ledger_entry" where
  "entry_row i = (\<lambda>(index, e).
     \<lparr>le_transaction = i, le_account = re_account e, le_sequence = index + 1,
      le_direction = re_direction e, le_amount = re_amount e, le_currency = re_currency e,
      le_fx_quote = re_fx_quote e, le_locked_rate = re_locked_rate e\<rparr>)"

definition entry_rows :: "uuid \<Rightarrow> resolved_entry list \<Rightarrow> ledger_entry list" where
  "entry_rows i es = map (entry_row i) (enumerate 0 es)"

definition posting_body ::
  "ledger_env \<Rightarrow> uuid \<Rightarrow> resolved_posting \<Rightarrow> string \<Rightarrow> bool \<Rightarrow> (ledger_state, posting_response) act" where
  "posting_body v i c hash fail_before_commit =
     (let ids = sort (remdups (map re_account (rs_entries c))) in
      bnd (gets (accounts_in ids)) (\<lambda>rows.
      bnd (ensure (length rows = length ids) ledger_account_not_found) (\<lambda>_.
      bnd (ensure (list_all (entry_account_ok (rs_type c) rows) (rs_entries c))
             ledger_account_unavailable) (\<lambda>_.
      bnd (gets (locked_balances ids)) (\<lambda>locked.
      bnd (ensure (length locked = length ids) missing_projection) (\<lambda>_.
      let next = next_balances (lv_decimal v) rows (rs_entries c) locked in
      bnd (ensure (\<not> overdrawn (lv_decimal v) rows next) insufficient_funds) (\<lambda>_.
      bnd (create_transaction (transaction_row i hash c)) (\<lambda>created.
      bnd (each create_entry (entry_rows i (rs_entries c))) (\<lambda>_.
      bnd (each (\<lambda>(k, x). update_balance k x) next) (\<lambda>_.
      bnd (ensure (\<not> fail_before_commit) injected_failure) (\<lambda>_.
      gets (\<lambda>s. response_of (lv_decimal v) s created))))))))))))"

text \<open>
  The retry loop: attempt \<open>4 - n\<close> of three. An attempt the engine aborts leaves the database as it
  was; so does any other failure of the transaction.
\<close>

primrec post_attempts ::
  "ledger_env \<Rightarrow> resolved_posting \<Rightarrow> string \<Rightarrow> bool \<Rightarrow> nat \<Rightarrow> (ledger_state, posting_response) act" where
  "post_attempts v c hash fl 0 = throw retry_loop_exit"
| "post_attempts v c hash fl (Suc n) =
     bnd (pause (lv_others v (10 - n))) (\<lambda>_.
     catch
       (bnd (if lv_aborts v (3 - n) then throw (DbError P2034)
             else transaction (posting_commits (lv_transaction_id v (3 - n)))
                    (posting_body v (lv_transaction_id v (3 - n)) c hash fl)) (\<lambda>result.
        bnd (modify record_success) (\<lambda>_. ret result)))
       (\<lambda>e. if is_serialization_failure e \<and> 3 - n < 3 then post_attempts v c hash fl n
            else throw e))"

definition post_resolved ::
  "ledger_env \<Rightarrow> resolved_posting \<Rightarrow> string \<Rightarrow> bool \<Rightarrow> (ledger_state, posting_response) act" where
  "post_resolved v c hash fl =
     (case validate_resolved (lv_decimal v) c of
        Some e \<Rightarrow> throw e
      | None \<Rightarrow> post_attempts v c hash fl 3)"

definition handle_posting_failure ::
  "ledger_env \<Rightarrow> failure \<Rightarrow> uuid \<Rightarrow> string \<Rightarrow> (ledger_state, posting_response) act" where
  "handle_posting_failure v e reference hash =
     (if is_unique_violation e
      then bnd (pause (lv_others v 20)) (\<lambda>_.
           bnd (find_idempotent v reference hash) (\<lambda>winner.
             case winner of Some r \<Rightarrow> ret r | None \<Rightarrow> throw posting_conflict))
      else bnd (modify record_failure) (\<lambda>_. throw e))"

section \<open>The operations\<close>

definition customer_entry ::
  "ledger_env \<Rightarrow> create_posting_dto \<Rightarrow> ledger_account list \<Rightarrow> posting_entry_dto \<Rightarrow> failure + resolved_entry" where
  "customer_entry v c rows e =
     (case List.find (\<lambda>a. la_wallet a = Some (pe_wallet e)) rows of
        None \<Rightarrow> Inl (PlainError ''TypeError'')
      | Some a \<Rightarrow>
          if la_currency a \<noteq> pe_currency e \<or> la_status a \<noteq> ACTIVE then Inl ledger_account_unavailable
          else Inr \<lparr>re_account = la_id a, re_direction = pe_direction e,
                    re_amount = dl_of (lv_decimal v) (pe_amount e), re_currency = pe_currency e,
                    re_fx_quote = cp_fx_quote c,
                    re_locked_rate =
                      (if truthy (cp_locked_rate c)
                       then map_option (dl_of (lv_decimal v)) (cp_locked_rate c) else None)\<rparr>)"

fun map_result :: "('a \<Rightarrow> failure + 'b) \<Rightarrow> 'a list \<Rightarrow> failure + 'b list" where
  "map_result f [] = Inr []"
| "map_result f (x # xs) =
     (case f x of
        Inl e \<Rightarrow> Inl e
      | Inr y \<Rightarrow> (case map_result f xs of Inl e \<Rightarrow> Inl e | Inr ys \<Rightarrow> Inr (y # ys)))"

definition clearing_entry ::
  "ledger_env \<Rightarrow> create_posting_dto \<Rightarrow> ledger_account \<Rightarrow> side \<Rightarrow> string \<Rightarrow> string \<Rightarrow> resolved_entry" where
  "clearing_entry v c a d amount cur =
     \<lparr>re_account = la_id a, re_direction = d, re_amount = dl_of (lv_decimal v) amount,
      re_currency = cur, re_fx_quote = cp_fx_quote c,
      re_locked_rate = map_option (dl_of (lv_decimal v)) (cp_locked_rate c)\<rparr>"

definition clearing_entries :: "ledger_env \<Rightarrow> create_posting_dto \<Rightarrow> (ledger_state, resolved_entry list) act" where
  "clearing_entries v c =
     (if cp_type c = FX_TRANSFER_DTO
      then bnd (both (ensure_clearing_account v (cp_source_currency c))
                     (ensure_clearing_account v (cp_target_currency c))) (\<lambda>(src, tgt).
           ret [clearing_entry v c src CREDIT (cp_source_amount c) (cp_source_currency c),
                clearing_entry v c tgt DEBIT (cp_target_amount c) (cp_target_currency c)])
      else ret [])"

definition resolve_posting ::
  "ledger_env \<Rightarrow> create_posting_dto \<Rightarrow> resolved_entry list \<Rightarrow> resolved_posting" where
  "resolve_posting v c es =
     \<lparr>rs_reference = cp_reference c, rs_request = cp_request c, rs_type = posting_type_of (cp_type c),
      rs_source_currency = cp_source_currency c, rs_target_currency = cp_target_currency c,
      rs_source_amount = dl_of (lv_decimal v) (cp_source_amount c),
      rs_target_amount = dl_of (lv_decimal v) (cp_target_amount c),
      rs_fx_quote = cp_fx_quote c,
      rs_locked_rate =
        (if truthy (cp_locked_rate c)
         then map_option (dl_of (lv_decimal v)) (cp_locked_rate c) else None),
      rs_reverses = None, rs_entries = es\<rparr>"

definition posting_hash :: "ledger_env \<Rightarrow> create_posting_dto \<Rightarrow> string" where
  "posting_hash v c = lv_digest v (normalize_command v c)"

text \<open>The part of \<open>post\<close> under its \<open>try\<close>.\<close>

definition post_new :: "ledger_env \<Rightarrow> create_posting_dto \<Rightarrow> string \<Rightarrow> bool \<Rightarrow> (ledger_state, posting_response) act" where
  "post_new v c hash fail_before_commit =
     (let wallets = remdups (map pe_wallet (cp_entries c)) in
      bnd (gets (\<lambda>s. filter (\<lambda>a. la_wallet a \<in> Some ` set wallets) (accounts s))) (\<lambda>rows.
      bnd (ensure (length rows = length wallets) ledger_account_not_found) (\<lambda>_.
      case map_result (customer_entry v c rows) (cp_entries c) of
        Inl e \<Rightarrow> throw e
      | Inr es \<Rightarrow>
          bnd (clearing_entries v c) (\<lambda>clearing.
          post_resolved v (resolve_posting v c (es @ clearing)) hash fail_before_commit))))"

definition post :: "ledger_env \<Rightarrow> create_posting_dto \<Rightarrow> bool \<Rightarrow> (ledger_state, posting_response) act" where
  "post v c fail_before_commit =
     bnd (ensure (validate_fx_shape c) invalid_fx_posting) (\<lambda>_.
     let hash = posting_hash v c in
     bnd (find_idempotent v (cp_reference c) hash) (\<lambda>prior.
     case prior of
       Some r \<Rightarrow> ret r
     | None \<Rightarrow>
         bnd (pause (lv_others v 0)) (\<lambda>_.
         catch (post_new v c hash fail_before_commit)
           (\<lambda>e. handle_posting_failure v e (cp_reference c) hash))))"

fun opposite :: "side \<Rightarrow> side" where
  "opposite DEBIT = CREDIT"
| "opposite CREDIT = DEBIT"

definition reversal_entry :: "ledger_entry \<Rightarrow> resolved_entry" where
  "reversal_entry e =
     \<lparr>re_account = le_account e, re_direction = opposite (le_direction e), re_amount = le_amount e,
      re_currency = le_currency e, re_fx_quote = le_fx_quote e, re_locked_rate = le_locked_rate e\<rparr>"

definition reversal_posting ::
  "ledger_transaction \<Rightarrow> ledger_entry list \<Rightarrow> reverse_posting_dto \<Rightarrow> resolved_posting" where
  "reversal_posting original es c =
     \<lparr>rs_reference = rp_reference c, rs_request = rp_request c, rs_type = REVERSAL,
      rs_source_currency = lt_source_currency original,
      rs_target_currency = lt_target_currency original,
      rs_source_amount = lt_source_amount original, rs_target_amount = lt_target_amount original,
      rs_fx_quote = lt_fx_quote original, rs_locked_rate = lt_locked_rate original,
      rs_reverses = Some (lt_id original), rs_entries = map reversal_entry es\<rparr>"

definition reverse_posting ::
  "ledger_env \<Rightarrow> uuid \<Rightarrow> reverse_posting_dto \<Rightarrow> (ledger_state, posting_response) act" where
  "reverse_posting v transaction_id c =
     bnd (gets (\<lambda>s. map_option (\<lambda>t. (t, ordered_entries (lt_id t) s,
                      key_taken lt_reverses (Some (lt_id t)) (transactions s)))
                    (find_transaction transaction_id s))) (\<lambda>found.
     case found of
       None \<Rightarrow> throw posting_not_found
     | Some (original, es, reversed) \<Rightarrow>
         bnd (ensure (lt_type original \<noteq> REVERSAL) reversal_of_reversal) (\<lambda>_.
         let hash = lv_digest v (reversal_json (lt_id original) c) in
         bnd (pause (lv_others v 30)) (\<lambda>_.
         bnd (find_idempotent v (rp_reference c) hash) (\<lambda>prior.
         case prior of
           Some r \<Rightarrow> ret r
         | None \<Rightarrow>
             bnd (ensure (\<not> reversed) posting_already_reversed) (\<lambda>_.
             catch (post_resolved v (reversal_posting original es c) hash False)
               (\<lambda>e. handle_posting_failure v e (rp_reference c) hash))))))"

definition funding_posting ::
  "ledger_env \<Rightarrow> fund_wallet_dto \<Rightarrow> ledger_account \<Rightarrow> ledger_account \<Rightarrow> resolved_posting" where
  "funding_posting v c clearing customer =
     (let amount = dl_of (lv_decimal v) (fw_amount c);
          entry = (\<lambda>a d. \<lparr>re_account = la_id a, re_direction = d, re_amount = amount,
                          re_currency = fw_currency c, re_fx_quote = None, re_locked_rate = None\<rparr>)
      in \<lparr>rs_reference = fw_reference c, rs_request = fw_request c, rs_type = FUNDING,
          rs_source_currency = fw_currency c, rs_target_currency = fw_currency c,
          rs_source_amount = amount, rs_target_amount = amount,
          rs_fx_quote = None, rs_locked_rate = None, rs_reverses = None,
          rs_entries = [entry clearing DEBIT, entry customer CREDIT]\<rparr>)"

definition fund :: "ledger_env \<Rightarrow> fund_wallet_dto \<Rightarrow> (ledger_state, posting_response) act" where
  "fund v c =
     bnd (ensure (\<not> (lv_node_env v = Some ''production'' \<or> lv_test_funding v \<noteq> Some ''true''))
            test_funding_disabled) (\<lambda>_.
     bnd (gets (\<lambda>s. List.find (\<lambda>a. la_wallet a = Some (fw_wallet c)) (accounts s))) (\<lambda>found.
     case found of
       None \<Rightarrow> throw wallet_account_not_found
     | Some customer \<Rightarrow>
         bnd (ensure (la_currency customer = fw_currency c \<and> la_status customer = ACTIVE)
                wallet_account_not_found) (\<lambda>_.
         bnd (pause (lv_others v 31)) (\<lambda>_.
         bnd (ensure_clearing_account v (fw_currency c)) (\<lambda>clearing.
         bnd (pause (lv_others v 32)) (\<lambda>_.
         let hash = lv_digest v (funding_json v c) in
         bnd (find_idempotent v (fw_reference c) hash) (\<lambda>prior.
         case prior of
           Some r \<Rightarrow> ret r
         | None \<Rightarrow>
             catch (post_resolved v (funding_posting v c clearing customer) hash False)
               (\<lambda>e. handle_posting_failure v e (fw_reference c) hash))))))))"

definition by_reference :: "ledger_env \<Rightarrow> uuid \<Rightarrow> (ledger_state, posting_response) act" where
  "by_reference v reference s =
     (case find_by_reference reference s of
        None \<Rightarrow> (Inl posting_not_found, s)
      | Some t \<Rightarrow> (Inr (response_of (lv_decimal v) s t), s))"

end
