(* ===== verification/HttpPlatform.thy ===== *)
theory HttpPlatform
  imports NovaPrelude
begin

text \<open>
  The HTTP edge every service shares (src/common of each service, with equal text): the guard on
  internal routes, the validation pipe, the exception filter that turns a failure into a status,
  a code and a message, and the two internal HTTP clients' classification of what \<open>fetch\<close> gives.
  The code is modelled from the ledger's copies of the common files and from the transaction
  service's client.
\<close>

section \<open>Replies\<close>

record http_error =
  he_status :: nat
  he_code :: string
  he_message :: string

text \<open>\<open>describeStatus\<close>: the default code and message of a status; \<open>num\<close> prints a status.\<close>

definition describe_status :: "(nat \<Rightarrow> string) \<Rightarrow> nat \<Rightarrow> string \<times> string" where
  "describe_status num status =
     (if status = 400 then (''VALIDATION_ERROR'', ''Request validation failed.'')
      else if status = 401 then (''UNAUTHORIZED'', ''Authentication is required.'')
      else if status = 403 then (''FORBIDDEN'', ''The requested operation is not allowed.'')
      else if status = 404 then (''NOT_FOUND'', ''Resource not found.'')
      else if status = 405 then (''METHOD_NOT_ALLOWED'', ''Method not allowed.'')
      else if status = 409 then (''CONFLICT'', ''The request conflicts with current state.'')
      else if status = 413 then (''PAYLOAD_TOO_LARGE'', ''Request payload is too large.'')
      else if status = 422 then (''UNPROCESSABLE_ENTITY'', ''The request could not be processed.'')
      else if status = 429 then (''TOO_MANY_REQUESTS'', ''Too many requests.'')
      else if status = 503 then (''SERVICE_UNAVAILABLE'', ''Service is temporarily unavailable.'')
      else if status = 500 then (''INTERNAL_SERVER_ERROR'', ''An unexpected error occurred.'')
      else (''HTTP_'' @ num status, ''Request failed.''))"

text \<open>
  \<open>HttpExceptionFilter.catch\<close>. Only an \<open>HttpException\<close> carries a status; everything else, a database
  error included, is a 500 with the default description.
\<close>

definition exception_filter :: "(nat \<Rightarrow> string) \<Rightarrow> failure \<Rightarrow> http_error" where
  "exception_filter num e =
     (let status = (case e of HttpException st _ _ \<Rightarrow> st | _ \<Rightarrow> 500);
          custom = (case e of HttpException _ code _ \<Rightarrow> code | _ \<Rightarrow> None);
          (code, msg) = describe_status num status
      in case custom of
           None \<Rightarrow> \<lparr>he_status = status, he_code = code, he_message = msg\<rparr>
         | Some c \<Rightarrow>
             \<lparr>he_status = status, he_code = c,
              he_message = (case e of HttpException _ _ m \<Rightarrow> m | _ \<Rightarrow> msg)\<rparr>)"

section \<open>Guard and pipe\<close>

definition internal_auth_required :: failure where
  "internal_auth_required =
     http_failure 401 ''INTERNAL_AUTH_REQUIRED'' ''Internal service authentication is required.''"

text \<open>
  \<open>InternalServiceGuard\<close>: the configured token and the header must be present, not empty and
  equal; \<open>timingSafeEqual\<close> on buffers of one length is equality.
\<close>

definition internal_guard :: "string option \<Rightarrow> string option \<Rightarrow> bool" where
  "internal_guard configured supplied \<longleftrightarrow>
     truthy configured \<and> truthy supplied \<and> configured = supplied"

definition guarded :: "string option \<Rightarrow> string option \<Rightarrow> ('s, 'a) act \<Rightarrow> ('s, 'a) act" where
  "guarded configured supplied m =
     bnd (ensure (internal_guard configured supplied) internal_auth_required) (\<lambda>_. m)"

text \<open>The validation pipe and \<open>ParseUUIDPipe\<close> refuse with a 400 that has no code of its own.\<close>

definition validation_failed :: failure where
  "validation_failed = HttpException 400 None ''Bad Request Exception''"

definition validated :: "bool \<Rightarrow> ('s, 'a) act \<Rightarrow> ('s, 'a) act" where
  "validated ok m = bnd (ensure ok validation_failed) (\<lambda>_. m)"

context two_state
begin

lemma steps_validated: "(ok \<Longrightarrow> steps R m) \<Longrightarrow> steps R (validated ok m)"
  by (auto simp: validated_def steps_def ensure_def bnd_def R_refl)

lemma steps_guarded: "steps R m \<Longrightarrow> steps R (guarded a b m)"
  unfolding guarded_def by (intro steps_rules)

end

section \<open>Clients\<close>

text \<open>
  What \<open>fetch\<close> gives: a response with a status and the body's value and, when they are strings,
  its \<open>code\<close> and \<open>message\<close>; or nothing, when the connection fails or the signal times out.
\<close>

datatype 'a fetched =
    NoResponse
  | Response nat 'a "string option" "string option"

text \<open>\<open>InternalHttpClient.request\<close> of the transaction service.\<close>

definition internal_request ::
  "string \<Rightarrow> string \<Rightarrow> string option \<Rightarrow> string option \<Rightarrow> 'a fetched \<Rightarrow> failure + 'a" where
  "internal_request service service_upper base_url token r =
     (if \<not> truthy base_url \<or> \<not> truthy token then Inl (UpstreamUnavailableError service)
      else case r of
        NoResponse \<Rightarrow> Inl (UpstreamUnavailableError service)
      | Response status body code msg \<Rightarrow>
          if 200 \<le> status \<and> status \<le> 299 then Inr body
          else Inl (UpstreamHttpError service status
            (case code of Some c \<Rightarrow> c | None \<Rightarrow> service_upper @ ''_ERROR'')
            (case msg of Some m \<Rightarrow> m | None \<Rightarrow> service @ '' request failed.'') (JObj [])))"

lemma internal_request_ok [simp]:
  "truthy base_url \<Longrightarrow> truthy token \<Longrightarrow> 200 \<le> status \<Longrightarrow> status \<le> 299 \<Longrightarrow>
     internal_request service up base_url token (Response status body c m) = Inr body"
  by (simp add: internal_request_def)

end
