(* ===== verification/LedgerAccounts.thy ===== *)
theory LedgerAccounts
  imports LedgerPosting HttpPlatform
begin

text \<open>
  The rest of the Ledger service: \<open>LedgerAccountService\<close> (provisioning and balances),
  \<open>LedgerInvariantService.verify\<close> and the routes of \<open>LedgerController\<close>, each behind the internal
  guard and the validation pipe.
\<close>

section \<open>Accounts\<close>

definition ledger_account_mismatch :: failure where
  "ledger_account_mismatch =
     http_failure 409 ''LEDGER_ACCOUNT_MISMATCH''
       ''The wallet is already provisioned with another currency.''"

definition duplicate_wallet_id :: failure where
  "duplicate_wallet_id =
     http_failure 409 ''DUPLICATE_WALLET_ID'' ''Each wallet ID may appear only once.''"

definition missing_balance :: failure where
  "missing_balance = PlainError ''Ledger account is missing its balance projection.''"

definition wallet_account :: "uuid \<Rightarrow> ledger_state \<Rightarrow> ledger_account option" where
  "wallet_account w s = List.find (\<lambda>a. la_wallet a = Some w) (accounts s)"

definition find_balance :: "uuid \<Rightarrow> ledger_state \<Rightarrow> wallet_balance option" where
  "find_balance i s = List.find (\<lambda>b. wb_account b = i) (balances s)"

definition to_balance :: "decimal_lib \<Rightarrow> ledger_state \<Rightarrow> ledger_account \<Rightarrow> failure + balance_response" where
  "to_balance D s a =
     (case (la_wallet a, find_balance (la_id a) s) of
        (Some w, Some b) \<Rightarrow>
          if w = [] then Inl missing_balance
          else Inr \<lparr>br_wallet = w, br_account = la_id a, br_available = dl_fixed D 8 (wb_available b),
                    br_currency = la_currency a, br_version = wb_version b\<rparr>
      | _ \<Rightarrow> Inl missing_balance)"

definition lift_result :: "('s \<Rightarrow> failure + 'a) \<Rightarrow> ('s, 'a) act" where
  "lift_result f s = (f s, s)"

definition provision ::
  "ledger_env \<Rightarrow> uuid \<Rightarrow> uuid \<Rightarrow> string \<Rightarrow> (ledger_state, balance_response) act" where
  "provision v new_id wallet cur =
     bnd (gets (wallet_account wallet)) (\<lambda>existing.
     case existing of
       Some a \<Rightarrow>
         bnd (ensure (la_currency a = cur) ledger_account_mismatch) (\<lambda>_.
         lift_result (\<lambda>s. to_balance (lv_decimal v) s a))
     | None \<Rightarrow>
         bnd (pause (lv_others v 0)) (\<lambda>_.
         catch
           (bnd (create_account \<lparr>la_id = new_id, la_wallet = Some wallet, la_type = CUSTOMER,
                   la_currency = cur, la_normal = CREDIT, la_status = ACTIVE\<rparr>) (\<lambda>created.
            lift_result (\<lambda>s. to_balance (lv_decimal v) s created)))
           (\<lambda>e. if is_unique_violation e
                then bnd (pause (lv_others v 1)) (\<lambda>_.
                     bnd (gets (wallet_account wallet)) (\<lambda>winner.
                       case winner of
                         Some a \<Rightarrow>
                           if la_currency a = cur
                           then lift_result (\<lambda>s. to_balance (lv_decimal v) s a)
                           else throw e
                       | None \<Rightarrow> throw e))
                else throw e)))"

definition balance :: "ledger_env \<Rightarrow> uuid \<Rightarrow> (ledger_state, balance_response) act" where
  "balance v wallet =
     bnd (gets (wallet_account wallet)) (\<lambda>found.
     case found of
       None \<Rightarrow> throw wallet_account_not_found
     | Some a \<Rightarrow> lift_result (\<lambda>s. to_balance (lv_decimal v) s a))"

definition balances_query :: "ledger_env \<Rightarrow> uuid list \<Rightarrow> (ledger_state, balance_response list) act" where
  "balances_query v wallets =
     bnd (ensure (distinct wallets) duplicate_wallet_id) (\<lambda>_.
     bnd (gets (\<lambda>s. filter (\<lambda>a. la_wallet a \<in> Some ` set wallets) (accounts s))) (\<lambda>rows.
     bnd (ensure (length rows = length wallets) wallet_account_not_found) (\<lambda>_.
     lift_result (\<lambda>s. map_result (\<lambda>w.
       case List.find (\<lambda>a. la_wallet a = Some w) rows of
         None \<Rightarrow> Inl (PlainError ''TypeError'')
       | Some a \<Rightarrow> to_balance (lv_decimal v) s a) wallets))))"

section \<open>The invariant check\<close>

text \<open>
  The groups of one transaction that the query of \<open>verify\<close> selects: the transaction itself, under
  its source currency, when it has no entry; otherwise every currency of its entries whose debits
  and credits differ.
\<close>

definition violations_of :: "ledger_state \<Rightarrow> ledger_transaction \<Rightarrow> (uuid \<times> string) list" where
  "violations_of s t =
     (let es = entries_of (lt_id t) (entries s)
      in if es = [] then [(lt_id t, lt_source_currency t)]
         else map (Pair (lt_id t))
                (filter (\<lambda>cur. side_total DEBIT cur es \<noteq> side_total CREDIT cur es)
                  (remdups (map le_currency es))))"

definition violation_rows :: "ledger_state \<Rightarrow> (uuid \<times> string) list" where
  "violation_rows s =
     sort_key fst (sort_key snd (concat (map (violations_of s) (transactions s))))"

definition verify :: "instant \<Rightarrow> (ledger_state, nat \<times> instant) act" where
  "verify checked_at =
     bnd (gets violation_rows) (\<lambda>rows.
     bnd (modify (set_invariant_violations (length rows))) (\<lambda>_.
     bnd (modify (\<lambda>s. s\<lparr>checks := checks s @
            [\<lparr>ic_checked_at = checked_at, ic_violations = length rows,
              ic_examples = take 10 rows\<rparr>]\<rparr>)) (\<lambda>_.
     ret (length rows, checked_at))))"

text \<open>\<open>invariantIntervalMs\<close>, over the number the environment variable denotes, if it is an integer.\<close>

definition invariant_interval_ms :: "int option \<Rightarrow> int" where
  "invariant_interval_ms value =
     (case value of Some n \<Rightarrow> if 1000 \<le> n then n else 15000 | None \<Rightarrow> 15000)"

section \<open>Routes\<close>

record ledger_http =
  lh_token :: "string option"     \<comment> \<open>\<open>INTERNAL_SERVICE_TOKEN\<close>\<close>
  lh_supplied :: "string option"  \<comment> \<open>the header of the request\<close>
  lh_is_uuid :: "string \<Rightarrow> bool"

definition post_route ::
  "ledger_http \<Rightarrow> ledger_env \<Rightarrow> create_posting_dto \<Rightarrow> (ledger_state, posting_response) act" where
  "post_route h v c =
     guarded (lh_token h) (lh_supplied h) (validated (posting_dto_ok (lh_is_uuid h) c) (post v c False))"

definition by_reference_route ::
  "ledger_http \<Rightarrow> ledger_env \<Rightarrow> uuid \<Rightarrow> (ledger_state, posting_response) act" where
  "by_reference_route h v r =
     guarded (lh_token h) (lh_supplied h) (validated (lh_is_uuid h r) (by_reference v r))"

definition reverse_route ::
  "ledger_http \<Rightarrow> ledger_env \<Rightarrow> uuid \<Rightarrow> reverse_posting_dto \<Rightarrow> (ledger_state, posting_response) act" where
  "reverse_route h v t c =
     guarded (lh_token h) (lh_supplied h)
       (validated (lh_is_uuid h t \<and> reverse_dto_ok (lh_is_uuid h) c) (reverse_posting v t c))"

definition fund_route ::
  "ledger_http \<Rightarrow> ledger_env \<Rightarrow> fund_wallet_dto \<Rightarrow> (ledger_state, posting_response) act" where
  "fund_route h v c =
     guarded (lh_token h) (lh_supplied h) (validated (fund_dto_ok (lh_is_uuid h) c) (fund v c))"

definition provision_route ::
  "ledger_http \<Rightarrow> ledger_env \<Rightarrow> uuid \<Rightarrow> provision_dto \<Rightarrow> (ledger_state, balance_response) act" where
  "provision_route h v new_id c =
     guarded (lh_token h) (lh_supplied h)
       (validated (provision_dto_ok (lh_is_uuid h) c) (provision v new_id (pv_wallet c) (pv_currency c)))"

definition balance_route ::
  "ledger_http \<Rightarrow> ledger_env \<Rightarrow> uuid \<Rightarrow> (ledger_state, balance_response) act" where
  "balance_route h v w =
     guarded (lh_token h) (lh_supplied h) (validated (lh_is_uuid h w) (balance v w))"

definition balances_route ::
  "ledger_http \<Rightarrow> ledger_env \<Rightarrow> uuid list \<Rightarrow> (ledger_state, balance_response list) act" where
  "balances_route h v ws =
     guarded (lh_token h) (lh_supplied h)
       (validated (balance_query_ok (lh_is_uuid h) ws) (balances_query v ws))"

definition metrics_route :: "ledger_http \<Rightarrow> (ledger_state, nat \<times> nat \<times> nat) act" where
  "metrics_route h = guarded (lh_token h) (lh_supplied h) (gets metrics_snapshot)"

definition verify_route :: "ledger_http \<Rightarrow> instant \<Rightarrow> (ledger_state, nat \<times> instant) act" where
  "verify_route h now = guarded (lh_token h) (lh_supplied h) (verify now)"

end
