(* ===== verification/LedgerEffects.thy ===== *)
theory LedgerEffects
  imports LedgerAccounts
begin

text \<open>
  What the database calls of the Ledger service do to the state, one lemma per call, and the
  effect of a whole posting transaction: a transaction row, its entries and the new balances are
  appended or written together, or nothing changes.
\<close>

lemma round_places_nonneg: "0 \<le> x \<Longrightarrow> 0 \<le> round_places n x"
  by (simp add: round_places_def sgn_if)

lemma round_places_exact:
  assumes "has_places n x"
  shows "round_places n x = x"
proof -
  obtain k :: int where k: "x * 10 ^ n = of_int k"
    using assms by (auto simp: has_places_iff)
  have abs: "\<bar>x\<bar> * 10 ^ n = of_int \<bar>k\<bar>"
    using k by (metis abs_mult abs_numeral abs_power_minus of_int_abs power_abs)
  have "\<lfloor>\<bar>x\<bar> * 10 ^ n + 1 / 2\<rfloor> = \<bar>k\<bar>"
    unfolding abs by (rule floor_unique) simp_all
  then have "round_places n x = sgn x * (\<bar>x\<bar> * 10 ^ n) / 10 ^ n"
    using abs by (simp add: round_places_def)
  also have "\<dots> = x"
    by (simp add: sgn_mult_abs)
  finally show ?thesis .
qed

lemma has_places_round: "has_places n (round_places n x)"
proof -
  define k where "k = \<lfloor>\<bar>x\<bar> * 10 ^ n + 1 / 2\<rfloor>"
  have "round_places n x * 10 ^ n = sgn x * of_int k"
    by (simp add: round_places_def k_def)
  also have "\<dots> = of_int (if 0 < x then k else if x = 0 then 0 else - k)"
    by (simp add: sgn_if)
  finally show ?thesis unfolding has_places_iff by blast
qed

lemma money_column_Some:
  "money_column x = Some y \<longleftrightarrow> y = round_places 8 x \<and> \<bar>y\<bar> < 10 ^ 20"
  by (auto simp: numeric_column_def Let_def)

lemma money_column_exact:
  "has_places 8 x \<Longrightarrow> \<bar>x\<bar> < 10 ^ 20 \<Longrightarrow> money_column x = Some x"
  by (simp add: money_column_Some round_places_exact)

section \<open>Single calls\<close>

lemma create_account_Inr:
  "create_account a s = (Inr r, s') \<longleftrightarrow>
     account_check a \<and> \<not> account_conflict a (accounts s) \<and> r = a \<and>
     s' = s\<lparr>accounts := accounts s @ [a],
            balances := balances s @
              [\<lparr>wb_account = la_id a, wb_currency = la_currency a, wb_available = 0, wb_version = 0\<rparr>]\<rparr>"
  by (auto simp: create_account_def)

lemma create_account_Inl: "create_account a s = (Inl e, s') \<Longrightarrow> s' = s"
  by (auto simp: create_account_def split: if_splits)

lemma create_transaction_Inr:
  "create_transaction t s = (Inr row, s') \<longleftrightarrow>
     stored_transaction t = Some row \<and> transaction_check row \<and>
     \<not> transaction_conflict row (transactions s) \<and> reverses_known row (transactions s) \<and>
     s' = s\<lparr>transactions := transactions s @ [row]\<rparr>"
  by (auto simp: create_transaction_def split: option.splits)

lemma create_entry_Inr:
  "create_entry e s = (Inr u, s') \<longleftrightarrow>
     (\<exists>row. stored_entry e = Some row \<and> entry_check row \<and>
        \<not> key_taken entry_key (entry_key row) (entries s) \<and>
        key_taken lt_id (le_transaction row) (transactions s) \<and>
        key_taken la_id (le_account row) (accounts s) \<and>
        s' = s\<lparr>entries := entries s @ [row]\<rparr>)"
  by (auto simp: create_entry_def split: option.splits)

lemma update_balance_Inr:
  "update_balance k v s = (Inr u, s') \<longleftrightarrow>
     (\<exists>x. money_column v = Some x \<and> key_taken wb_account k (balances s) \<and>
        s' = s\<lparr>balances := update_where (\<lambda>b. wb_account b = k)
                (\<lambda>b. b\<lparr>wb_available := x, wb_version := wb_version b + 1\<rparr>) (balances s)\<rparr>)"
  by (auto simp: update_balance_def split: option.splits)

lemma stored_transaction_fields:
  assumes "stored_transaction t = Some row"
  shows "lt_id row = lt_id t" "lt_reference row = lt_reference t" "lt_hash row = lt_hash t"
    "lt_type row = lt_type t" "lt_reverses row = lt_reverses t" "lt_request row = lt_request t"
    "lt_source_currency row = lt_source_currency t" "lt_target_currency row = lt_target_currency t"
    "lt_fx_quote row = lt_fx_quote t"
  using assms by (auto simp: stored_transaction_def split: option.splits)

lemma stored_entry_fields:
  assumes "stored_entry e = Some row"
  shows "le_transaction row = le_transaction e" "le_account row = le_account e"
    "le_sequence row = le_sequence e" "le_direction row = le_direction e"
    "le_currency row = le_currency e" "le_amount row = round_places 8 (le_amount e)"
    "has_places 8 (le_amount row)"
  using assms
  by (auto simp: stored_entry_def money_column_Some has_places_round split: option.splits)

section \<open>Many calls\<close>

lemma create_entries_Inr:
  assumes "each create_entry es s = (Inr us, s')"
  shows "\<exists>rows. list_all2 (\<lambda>e r. stored_entry e = Some r) es rows \<and>
    s' = s\<lparr>entries := entries s @ rows\<rparr> \<and>
    (\<forall>r\<in>set rows. entry_check r \<and> le_transaction r \<in> lt_id ` set (transactions s) \<and>
                  le_account r \<in> la_id ` set (accounts s)) \<and>
    (distinct (map entry_key (entries s)) \<longrightarrow> distinct (map entry_key (entries s @ rows)))"
  using assms
proof (induction es arbitrary: s us)
  case Nil
  then show ?case by (auto intro: exI [where x = "[]"])
next
  case (Cons e es)
  from Cons.prems obtain s1 us' where
    one: "create_entry e s = (Inr (), s1)" and more: "each create_entry es s1 = (Inr us', s')"
    by (auto simp: bnd_result_Inr)
  from one obtain row where row: "stored_entry e = Some row" "entry_check row"
      "\<not> key_taken entry_key (entry_key row) (entries s)"
      "key_taken lt_id (le_transaction row) (transactions s)"
      "key_taken la_id (le_account row) (accounts s)"
      "s1 = s\<lparr>entries := entries s @ [row]\<rparr>"
    by (auto simp: create_entry_Inr)
  from Cons.IH [OF more] obtain rows where
    rows: "list_all2 (\<lambda>e r. stored_entry e = Some r) es rows"
      "s' = s1\<lparr>entries := entries s1 @ rows\<rparr>"
      "\<forall>r\<in>set rows. entry_check r \<and> le_transaction r \<in> lt_id ` set (transactions s1) \<and>
                    le_account r \<in> la_id ` set (accounts s1)"
      "distinct (map entry_key (entries s1)) \<longrightarrow> distinct (map entry_key (entries s1 @ rows))"
    by blast
  show ?case
    using row rows by (intro exI [where x = "row # rows"]) (auto simp: key_taken_def)
qed

definition rebalance :: "(uuid \<times> rat) list \<Rightarrow> wallet_balance \<Rightarrow> wallet_balance" where
  "rebalance next b =
     (case map_of next (wb_account b) of
        None \<Rightarrow> b
      | Some v \<Rightarrow> b\<lparr>wb_available := round_places 8 v, wb_version := wb_version b + 1\<rparr>)"

lemma rebalance_account [simp]: "wb_account (rebalance next b) = wb_account b"
  by (simp add: rebalance_def split: option.splits)

lemma rebalance_currency [simp]: "wb_currency (rebalance next b) = wb_currency b"
  by (simp add: rebalance_def split: option.splits)

lemma update_balances_Inr:
  assumes "each (\<lambda>(k, x). update_balance k x) next s = (Inr us, s')" and "distinct (map fst next)"
  shows "s' = s\<lparr>balances := map (rebalance next) (balances s)\<rparr> \<and>
    (\<forall>(k, x)\<in>set next. \<bar>round_places 8 x\<bar> < 10 ^ 20)"
  using assms
proof (induction "next" arbitrary: s us)
  case Nil
  then show ?case by (simp add: rebalance_def map_idI)
next
  case (Cons kx rest)
  obtain k x where kx: "kx = (k, x)" by fastforce
  from Cons.prems obtain s1 us' where
    one: "update_balance k x s = (Inr (), s1)" and
    more: "each (\<lambda>(k, x). update_balance k x) rest s1 = (Inr us', s')"
    by (auto simp: bnd_result_Inr kx)
  from one obtain y where y: "money_column x = Some y" and
    s1: "s1 = s\<lparr>balances := update_where (\<lambda>b. wb_account b = k)
                (\<lambda>b. b\<lparr>wb_available := y, wb_version := wb_version b + 1\<rparr>) (balances s)\<rparr>"
    by (auto simp: update_balance_Inr)
  have k: "map_of rest k = None"
    using Cons.prems(2) by (simp add: kx map_of_eq_None_iff)
  have IH: "s' = s1\<lparr>balances := map (rebalance rest) (balances s1)\<rparr>"
    "\<forall>(k, x)\<in>set rest. \<bar>round_places 8 x\<bar> < 10 ^ 20"
    using Cons.IH [OF more] Cons.prems(2) by auto
  have "rebalance rest (if wb_account b = k
      then b\<lparr>wb_available := y, wb_version := wb_version b + 1\<rparr> else b) = rebalance (kx # rest) b" for b
    using k y by (simp add: rebalance_def kx money_column_Some)
  then have "map (rebalance rest) (balances s1) = map (rebalance (kx # rest)) (balances s)"
    by (simp add: s1 update_where_def)
  then show ?case
    using IH s1 y by (auto simp: kx money_column_Some)
qed

section \<open>The posting transaction\<close>

lemma apply_entry_keys [simp]: "map fst (apply_entry D rows e next) = map fst next"
  by (induction "next") (auto simp: apply_entry_def)

lemma fold_apply_entry_keys [simp]: "map fst (fold (apply_entry D rows) es next) = map fst next"
  by (induction es arbitrary: "next") auto

lemma next_balances_keys [simp]: "map fst (next_balances D rows es locked) = map wb_account locked"
  by (simp add: next_balances_def comp_def)

text \<open>
  \<open>posting_effect v i c hash s row es s'\<close>: the transaction row and the entry rows that the committed
  posting \<open>c\<close> added to \<open>s\<close>, what it had checked, and the state it left.
\<close>

definition posting_ids :: "resolved_posting \<Rightarrow> uuid list" where
  "posting_ids c = sort (remdups (map re_account (rs_entries c)))"

definition posting_next :: "ledger_env \<Rightarrow> resolved_posting \<Rightarrow> ledger_state \<Rightarrow> (uuid \<times> rat) list" where
  "posting_next v c s = next_balances (lv_decimal v) (accounts_in (posting_ids c) s) (rs_entries c)
     (locked_balances (posting_ids c) s)"

definition posting_effect ::
  "ledger_env \<Rightarrow> uuid \<Rightarrow> resolved_posting \<Rightarrow> string \<Rightarrow> ledger_state \<Rightarrow> ledger_transaction \<Rightarrow>
     ledger_entry list \<Rightarrow> ledger_state \<Rightarrow> bool" where
  "posting_effect v i c hash s row es s' \<longleftrightarrow>
     length (accounts_in (posting_ids c) s) = length (posting_ids c) \<and>
     list_all (entry_account_ok (rs_type c) (accounts_in (posting_ids c) s)) (rs_entries c) \<and>
     length (locked_balances (posting_ids c) s) = length (posting_ids c) \<and>
     \<not> overdrawn (lv_decimal v) (accounts_in (posting_ids c) s) (posting_next v c s) \<and>
     stored_transaction (transaction_row i hash c) = Some row \<and>
     transaction_check row \<and> \<not> transaction_conflict row (transactions s) \<and>
     reverses_known row (transactions s) \<and>
     list_all2 (\<lambda>e r. stored_entry e = Some r) (entry_rows i (rs_entries c)) es \<and>
     (\<forall>e\<in>set es. entry_check e \<and> le_account e \<in> la_id ` set (accounts s)) \<and>
     (distinct (map entry_key (entries s)) \<longrightarrow> distinct (map entry_key (entries s @ es))) \<and>
     (\<forall>(k, x)\<in>set (posting_next v c s). \<bar>round_places 8 x\<bar> < 10 ^ 20) \<and>
     s' = s\<lparr>transactions := transactions s @ [row], entries := entries s @ es,
            balances := map (rebalance (posting_next v c s)) (balances s)\<rparr>"

lemma posting_effectD:
  assumes "posting_effect v i c hash s row es s'"
  shows "length (accounts_in (posting_ids c) s) = length (posting_ids c)"
    and "list_all (entry_account_ok (rs_type c) (accounts_in (posting_ids c) s)) (rs_entries c)"
    and "length (locked_balances (posting_ids c) s) = length (posting_ids c)"
    and "\<not> overdrawn (lv_decimal v) (accounts_in (posting_ids c) s) (posting_next v c s)"
    and "stored_transaction (transaction_row i hash c) = Some row"
    and "transaction_check row" and "\<not> transaction_conflict row (transactions s)"
    and "reverses_known row (transactions s)"
    and "list_all2 (\<lambda>e r. stored_entry e = Some r) (entry_rows i (rs_entries c)) es"
    and "e \<in> set es \<Longrightarrow> entry_check e" and "e \<in> set es \<Longrightarrow> le_account e \<in> la_id ` set (accounts s)"
    and "distinct (map entry_key (entries s)) \<Longrightarrow> distinct (map entry_key (entries s @ es))"
    and "(k, x) \<in> set (posting_next v c s) \<Longrightarrow> \<bar>round_places 8 x\<bar> < 10 ^ 20"
    and "s' = s\<lparr>transactions := transactions s @ [row], entries := entries s @ es,
            balances := map (rebalance (posting_next v c s)) (balances s)\<rparr>"
  using assms unfolding posting_effect_def by blast+

lemma posting_body_Inr:
  assumes "posting_body v i c hash fl s = (Inr r, s')"
    and dist: "distinct (map wb_account (balances s))"
  obtains row es where "posting_effect v i c hash s row es s'"
    and "r = response_of (lv_decimal v) s' row" and "\<not> fl"
proof -
  from assms(1) obtain row s1 us s2 us' where
    pre: "length (accounts_in (posting_ids c) s) = length (posting_ids c)"
      "list_all (entry_account_ok (rs_type c) (accounts_in (posting_ids c) s)) (rs_entries c)"
      "length (locked_balances (posting_ids c) s) = length (posting_ids c)"
      "\<not> overdrawn (lv_decimal v) (accounts_in (posting_ids c) s) (posting_next v c s)" and
    t: "create_transaction (transaction_row i hash c) s = (Inr row, s1)" and
    e: "each create_entry (entry_rows i (rs_entries c)) s1 = (Inr us, s2)" and
    b: "each (\<lambda>(k, x). update_balance k x) (posting_next v c s) s2 = (Inr us', s')" and
    r: "r = response_of (lv_decimal v) s' row" "\<not> fl"
    unfolding posting_body_def
    by (auto simp: bnd_result_Inr Let_def posting_ids_def [symmetric] posting_next_def split: if_splits)
  from t have t': "stored_transaction (transaction_row i hash c) = Some row" "transaction_check row"
      "\<not> transaction_conflict row (transactions s)" "reverses_known row (transactions s)"
      "s1 = s\<lparr>transactions := transactions s @ [row]\<rparr>"
    by (simp_all add: create_transaction_Inr)
  from create_entries_Inr [OF e] obtain es where
    es: "list_all2 (\<lambda>e r. stored_entry e = Some r) (entry_rows i (rs_entries c)) es"
      "s2 = s1\<lparr>entries := entries s1 @ es\<rparr>"
      "\<forall>e\<in>set es. entry_check e \<and> le_transaction e \<in> lt_id ` set (transactions s1) \<and>
                  le_account e \<in> la_id ` set (accounts s1)"
      "distinct (map entry_key (entries s1)) \<longrightarrow> distinct (map entry_key (entries s1 @ es))"
    by blast
  have "distinct (map fst (posting_next v c s))"
    using dist by (simp add: posting_next_def locked_balances_def distinct_map distinct_filter inj_on_def)
  with b have "s' = s2\<lparr>balances := map (rebalance (posting_next v c s)) (balances s2)\<rparr>"
    "\<forall>(k, x)\<in>set (posting_next v c s). \<bar>round_places 8 x\<bar> < 10 ^ 20"
    using update_balances_Inr by blast+
  then have "posting_effect v i c hash s row es s'"
    using pre t' es unfolding posting_effect_def by simp
  then show thesis using r by (rule that)
qed

lemma posted:
  assumes "transaction (posting_commits i) (posting_body v i c hash fl) s = (Inr r, s')"
    and "distinct (map wb_account (balances s))"
  obtains row es where "posting_effect v i c hash s row es s'"
    and "r = response_of (lv_decimal v) s' row" and "\<not> fl" and "posting_commits i s'"
  using assms by (auto simp: transaction_Inr elim: posting_body_Inr)

end
