(* ===== verification/LedgerSafety.thy ===== *)
theory LedgerSafety
  imports LedgerEffects "HOL-Library.Sublist"
begin

text \<open>
  What holds of the Ledger's tables in every state its handlers can reach, whatever concurrent
  requests do at their \<open>await\<close>s: the referential integrity of accounts and balances, the
  double-entry invariant of the journal (\<open>journal_ok\<close>), non-negative customer balances (\<open>funds_ok\<close>),
  and that rows of the journal are only ever appended (\<open>journal_extends\<close>).

  The locale \<open>ledger_steps\<close> states what a two-state relation must allow for every handler to stay
  within it: the calls that write, and the other requests. Its lemmas go through each handler once;
  the invariants and the append-only relation are instances.
\<close>

section \<open>Invariants\<close>

definition accounts_ok :: "ledger_state \<Rightarrow> bool" where
  "accounts_ok s \<longleftrightarrow>
     distinct (map la_id (accounts s)) \<and>
     unique_some la_wallet (accounts s) \<and> unique_some internal_key (accounts s) \<and>
     list_all account_check (accounts s) \<and>
     map wb_account (balances s) = map la_id (accounts s) \<and>
     map wb_currency (balances s) = map la_currency (accounts s)"

definition journal_ok :: "ledger_state \<Rightarrow> bool" where
  "journal_ok s \<longleftrightarrow>
     distinct (map lt_id (transactions s)) \<and>
     distinct (map lt_reference (transactions s)) \<and>
     unique_some lt_reverses (transactions s) \<and>
     (\<forall>t\<in>set (transactions s). transaction_check t \<and> balanced_entries (entries_of (lt_id t) (entries s))) \<and>
     distinct (map entry_key (entries s)) \<and>
     (\<forall>e\<in>set (entries s). entry_check e \<and> has_places 8 (le_amount e) \<and> le_transaction e \<in> lt_id ` set (transactions s) \<and>
                           le_account e \<in> la_id ` set (accounts s))"

definition ledger_inv :: "ledger_state \<Rightarrow> bool" where
  "ledger_inv s \<longleftrightarrow> accounts_ok s \<and> journal_ok s"

definition funds_ok :: "ledger_state \<Rightarrow> bool" where
  "funds_ok s \<longleftrightarrow>
     (\<forall>a\<in>set (accounts s). \<forall>b\<in>set (balances s).
        la_type a = CUSTOMER \<and> wb_account b = la_id a \<longrightarrow> 0 \<le> wb_available b)"

definition journal_extends :: "ledger_state \<Rightarrow> ledger_state \<Rightarrow> bool" where
  "journal_extends s t \<longleftrightarrow>
     prefix (accounts s) (accounts t) \<and> prefix (transactions s) (transactions t) \<and>
     prefix (entries s) (entries t) \<and>
     (\<forall>i\<in>lt_id ` set (transactions s). entries_of i (entries t) = entries_of i (entries s))"

lemma ledger_inv_empty [simp]: "ledger_inv empty_ledger" "funds_ok empty_ledger"
  by (simp_all add: ledger_inv_def accounts_ok_def journal_ok_def funds_ok_def empty_ledger_def)

interpretation journal: two_state journal_extends
proof
  show "journal_extends s s" for s by (simp add: journal_extends_def)
  show "journal_extends s t \<Longrightarrow> journal_extends t u \<Longrightarrow> journal_extends s u" for s t u
    unfolding journal_extends_def by (fastforce intro: prefix_order.trans dest: set_mono_prefix)
qed

section \<open>The calls that write\<close>

lemma create_account_inv:
  assumes "create_account a s = (Inr r, s')" and "ledger_inv s"
  shows "ledger_inv s'"
proof -
  from assms(1) have a: "account_check a" "\<not> account_conflict a (accounts s)" and
    s': "s' = s\<lparr>accounts := accounts s @ [a], balances := balances s @
      [\<lparr>wb_account = la_id a, wb_currency = la_currency a, wb_available = 0, wb_version = 0\<rparr>]\<rparr>"
    by (auto simp: create_account_Inr)
  have old: "distinct (map la_id (accounts s))" "unique_some la_wallet (accounts s)"
    "unique_some internal_key (accounts s)" "list_all account_check (accounts s)"
    "map wb_account (balances s) = map la_id (accounts s)"
    "map wb_currency (balances s) = map la_currency (accounts s)"
    using assms(2) unfolding ledger_inv_def accounts_ok_def by blast+
  have new: "la_id a \<notin> set (map la_id (accounts s))"
    "la_wallet a = None \<or> la_wallet a \<notin> set (map la_wallet (accounts s))"
    "internal_key a = None \<or> internal_key a \<notin> set (map internal_key (accounts s))"
    using a(2) unfolding account_conflict_def key_taken_def by blast+
  have "accounts_ok s'"
    using old new a(1) unfolding accounts_ok_def s' by (simp add: unique_some_snoc)
  moreover have "journal_ok s'"
    using assms(2) by (auto simp: s' ledger_inv_def journal_ok_def)
  ultimately show ?thesis by (simp add: ledger_inv_def)
qed

lemma create_account_funds:
  assumes "create_account a s = (Inr r, s')" and "accounts_ok s" and "funds_ok s"
  shows "funds_ok s'"
proof -
  from assms(1) have new: "la_id a \<notin> la_id ` set (accounts s)" and
    s': "s' = s\<lparr>accounts := accounts s @ [a], balances := balances s @
      [\<lparr>wb_account = la_id a, wb_currency = la_currency a, wb_available = 0, wb_version = 0\<rparr>]\<rparr>"
    by (auto simp: create_account_Inr account_conflict_def key_taken_def)
  have "la_id a \<notin> wb_account ` set (balances s)"
    using new assms(2) by (metis accounts_ok_def list.set_map)
  then show ?thesis
    using assms(3) by (auto simp: s' funds_ok_def image_iff)
qed

lemma entry_rows_transaction: "e \<in> set (entry_rows i es) \<Longrightarrow> le_transaction e = i"
  by (auto simp: entry_rows_def entry_row_def)

lemma stored_rows_transaction:
  assumes "list_all2 (\<lambda>e r. stored_entry e = Some r) (entry_rows i es) rows" and "r \<in> set rows"
  shows "le_transaction r = i"
proof -
  obtain e where "e \<in> set (entry_rows i es)" and "stored_entry e = Some r"
    using list_all2_right [OF assms] by blast
  then show ?thesis using entry_rows_transaction [of e i es] stored_entry_fields(1) [of e r] by simp
qed

lemma entries_of_append [simp]: "entries_of t (xs @ ys) = entries_of t xs @ entries_of t ys"
  by (simp add: entries_of_def)

lemma entries_of_other: "\<forall>e\<in>set es. le_transaction e \<noteq> t \<Longrightarrow> entries_of t es = []"
  by (simp add: entries_of_def filter_empty_conv)

lemma entries_of_same: "\<forall>e\<in>set es. le_transaction e = t \<Longrightarrow> entries_of t es = es"
  by (simp add: entries_of_def filter_True)

text \<open>A committed posting keeps the tables consistent.\<close>

lemma posting_inv:
  assumes "transaction (posting_commits i) (posting_body v i c hash fl) s = (Inr r, s')"
    and "ledger_inv s"
  shows "ledger_inv s'"
proof -
  have A: "accounts_ok s" and J: "journal_ok s"
    using assms(2) by (simp_all add: ledger_inv_def)
  then have "distinct (map wb_account (balances s))" by (simp add: accounts_ok_def)
  with assms(1) obtain row es where eff: "posting_effect v i c hash s row es s'"
    and commit: "posting_commits i s'"
    by (rule posted)
  note eff = posting_effectD [OF eff]
  have i: "lt_id row = i"
    using stored_transaction_fields(1) [OF eff(5)] by (simp add: transaction_row_def)
  have fresh: "i \<notin> set (map lt_id (transactions s))"
      "lt_reference row \<notin> set (map lt_reference (transactions s))"
      "lt_reverses row = None \<or> lt_reverses row \<notin> set (map lt_reverses (transactions s))"
    using eff(7) i unfolding transaction_conflict_def key_taken_def by blast+
  have es: "le_transaction e = i" if "e \<in> set es" for e
    using stored_rows_transaction [OF eff(9)] that .
  have old: "entries_of (lt_id t) es = []" if "t \<in> set (transactions s)" for t
    using that fresh(1) es by (intro entries_of_other) (auto simp: image_iff)
  note J = J [unfolded journal_ok_def]
  have bal: "transaction_check t \<and> balanced_entries (entries_of (lt_id t) (entries s @ es))"
    if "t \<in> set (transactions s @ [row])" for t
    using that commit J eff(6) i old by (auto simp: posting_commits_def eff(14))
  have places: "has_places 8 (le_amount e)" if "e \<in> set es" for e
    using list_all2_right [OF eff(9) that] stored_entry_fields(7) by blast
  have ents: "entry_check e \<and> has_places 8 (le_amount e) \<and> le_transaction e \<in> lt_id ` set (transactions s @ [row]) \<and>
      le_account e \<in> la_id ` set (accounts s)" if "e \<in> set (entries s @ es)" for e
    using that J eff(10,11) es i places by auto
  have "journal_ok s'"
    unfolding journal_ok_def eff(14)
    using J fresh eff(12) bal ents i by (simp add: unique_some_snoc)
  moreover have "accounts_ok s'"
    using A unfolding accounts_ok_def eff(14) by (simp add: comp_def)
  ultimately show ?thesis by (simp add: ledger_inv_def)
qed

lemma posting_extends:
  assumes "posting_effect v i c hash s row es s'"
  shows "journal_extends s s'"
proof -
  note eff = posting_effectD [OF assms]
  have "lt_id row = i"
    using stored_transaction_fields(1) [OF eff(5)] by (simp add: transaction_row_def)
  then have "i \<notin> lt_id ` set (transactions s)"
    using eff(7) by (simp add: transaction_conflict_def key_taken_def)
  moreover have "le_transaction e = i" if "e \<in> set es" for e
    using stored_rows_transaction [OF eff(9) that] .
  ultimately have "entries_of j es = []" if "j \<in> lt_id ` set (transactions s)" for j
    using that by (intro entries_of_other) auto
  then show ?thesis by (simp add: journal_extends_def eff(14))
qed

lemma find_account_in:
  assumes "distinct (map la_id (accounts s))" and "a \<in> set (accounts s)" and "la_id a \<in> set ids"
  shows "find_account (la_id a) (accounts_in ids s) = Some a"
proof -
  have "distinct (map la_id (accounts_in ids s))"
    using assms(1) by (simp add: accounts_in_def distinct_map_filter)
  then show ?thesis
    using assms(2,3) unfolding find_account_def by (intro find_key_unique) (auto simp: accounts_in_def)
qed

text \<open>A committed posting overdraws no customer.\<close>

lemma posting_funds:
  assumes "transaction (posting_commits i) (posting_body v i c hash fl) s = (Inr r, s')"
    and "decimal_lib_ok (lv_decimal v)" and "accounts_ok s" and "funds_ok s"
  shows "funds_ok s'"
proof -
  have ids: "distinct (map la_id (accounts s))"
    and "distinct (map wb_account (balances s))"
    using assms(3) by (simp_all add: accounts_ok_def)
  with assms(1) obtain row es where "posting_effect v i c hash s row es s'"
    by (auto elim: posted)
  note eff = posting_effectD [OF this]
  let ?rows = "accounts_in (posting_ids c) s"
  show ?thesis
    unfolding funds_ok_def
  proof (intro ballI impI)
    fix a b
    assume a: "a \<in> set (accounts s')" and b: "b \<in> set (balances s')"
      and ab: "la_type a = CUSTOMER \<and> wb_account b = la_id a"
    from b obtain b0 where b0: "b0 \<in> set (balances s)" "b = rebalance (posting_next v c s) b0"
      by (auto simp: eff(14))
    have a0: "a \<in> set (accounts s)" using a by (simp add: eff(14))
    have id0: "wb_account b0 = la_id a" using ab b0(2) by simp
    show "0 \<le> wb_available b"
    proof (cases "map_of (posting_next v c s) (wb_account b0)")
      case None
      then have "b = b0" using b0(2) by (simp add: rebalance_def)
      then show ?thesis using assms(4) a0 ab b0(1) unfolding funds_ok_def by blast
    next
      case (Some x)
      then have x: "(la_id a, x) \<in> set (posting_next v c s)"
        using id0 by (auto dest: map_of_SomeD)
      then have "la_id a \<in> set (map fst (posting_next v c s))" by force
      then have "la_id a \<in> set (posting_ids c)"
        by (auto simp: posting_next_def locked_balances_def)
      then have "find_account (la_id a) ?rows = Some a"
        using ids a0 by (intro find_account_in)
      then have "\<not> dl_negative (lv_decimal v) x"
        using eff(4) x ab unfolding overdrawn_def list_ex_iff by fastforce
      then have "0 \<le> x" using decimal_lib_okD(2) [OF assms(2)] by simp
      then show ?thesis using Some b0 by (simp add: rebalance_def round_places_nonneg)
    qed
  qed
qed

section \<open>Balances are projections of the journal\<close>

definition signed_amount :: "side \<Rightarrow> ledger_entry \<Rightarrow> rat" where
  "signed_amount normal e = (if le_direction e = normal then le_amount e else - le_amount e)"

definition journal_balance :: "ledger_account \<Rightarrow> ledger_entry list \<Rightarrow> rat" where
  "journal_balance a es =
     sum_list (map (signed_amount (la_normal a)) (filter (\<lambda>e. le_account e = la_id a) es))"

definition projection_ok :: "ledger_state \<Rightarrow> bool" where
  "projection_ok s \<longleftrightarrow>
     (\<forall>a\<in>set (accounts s). \<forall>b\<in>set (balances s).
        wb_account b = la_id a \<longrightarrow> wb_available b = journal_balance a (entries s))"

lemma projection_empty [simp]: "projection_ok empty_ledger"
  by (simp add: projection_ok_def empty_ledger_def)

text \<open>The sum of all amounts ever posted, in whatever currency; it only grows.\<close>

definition volume :: "ledger_entry list \<Rightarrow> rat" where
  "volume es = sum_list (map le_amount es)"

lemma volume_append [simp]: "volume (xs @ ys) = volume xs + volume ys"
  by (simp add: volume_def)

lemma volume_nonneg: "(\<And>e. e \<in> set es \<Longrightarrow> 0 < le_amount e) \<Longrightarrow> 0 \<le> volume es"
  by (induction es) (auto simp: volume_def add_nonneg_nonneg less_imp_le)

lemma journal_balance_append [simp]:
  "journal_balance a (xs @ ys) = journal_balance a xs + journal_balance a ys"
  by (simp add: journal_balance_def)

lemma journal_balance_other: "(\<And>e. e \<in> set es \<Longrightarrow> le_account e \<noteq> la_id a) \<Longrightarrow> journal_balance a es = 0"
  by (simp add: journal_balance_def filter_empty_conv)

lemma journal_balance_bound:
  "(\<And>e. e \<in> set es \<Longrightarrow> 0 < le_amount e) \<Longrightarrow> \<bar>journal_balance a es\<bar> \<le> volume es"
proof (induction es)
  case Nil
  then show ?case by (simp add: journal_balance_def volume_def)
next
  case (Cons e es)
  then have "\<bar>journal_balance a es\<bar> \<le> volume es" and "0 < le_amount e" by simp_all
  then show ?case by (simp add: journal_balance_def volume_def signed_amount_def) linarith
qed

lemma journal_balance_places:
  "(\<And>e. e \<in> set es \<Longrightarrow> has_places 8 (le_amount e)) \<Longrightarrow> has_places 8 (journal_balance a es)"
  by (induction es)
    (auto simp: journal_balance_def signed_amount_def intro!: has_places_add has_places_diff)

text \<open>What a list of resolved entries adds to an account, and what the journal rows of it add.\<close>

definition resolved_change :: "ledger_account list \<Rightarrow> uuid \<Rightarrow> resolved_entry list \<Rightarrow> rat" where
  "resolved_change rows k es =
     sum_list (map (\<lambda>e. if increases rows e then re_amount e else - re_amount e)
       (filter (\<lambda>e. re_account e = k) es))"

lemma map_of_apply_entry:
  "map_of (apply_entry D rows e next) k =
     map_option (\<lambda>x. if k = re_account e
       then if increases rows e then dl_plus D x (re_amount e) else dl_minus D x (re_amount e)
       else x) (map_of next k)"
  by (induction "next") (auto simp: apply_entry_def)

lemma next_value:
  assumes "decimal_lib_ok D"
    and "\<And>e. e \<in> set es \<Longrightarrow> has_places 8 (re_amount e) \<and> 0 < re_amount e"
    and "has_places 8 x" and "\<bar>x\<bar> + sum_list (map re_amount es) < money_bound"
    and "map_of next k = Some x"
  shows "map_of (fold (apply_entry D rows) es next) k = Some (x + resolved_change rows k es)"
  using assms(2-)
proof (induction es arbitrary: x "next")
  case Nil
  then show ?case by (simp add: resolved_change_def)
next
  case (Cons e es)
  have e: "has_places 8 (re_amount e)" "0 < re_amount e" using Cons.prems(1) by auto
  have rest: "0 \<le> sum_list (map re_amount es)"
    using Cons.prems(1) by (intro sum_list_nonneg) (auto simp: less_imp_le)
  define y where "y = (if k = re_account e then if increases rows e then x + re_amount e
      else x - re_amount e else x)"
  have y: "has_places 8 y" "\<bar>y\<bar> \<le> \<bar>x\<bar> + re_amount e"
    using Cons.prems(2) e by (auto simp: y_def intro: has_places_add has_places_diff)
  have "dl_plus D x (re_amount e) = x + re_amount e" "dl_minus D x (re_amount e) = x - re_amount e"
    using Cons.prems(2,3) e rest
    by (auto intro!: decimal_lib_okD(3,4) [OF assms(1)])
  then have "map_of (apply_entry D rows e next) k = Some y"
    using Cons.prems(4) by (simp add: map_of_apply_entry y_def)
  moreover have "\<bar>y\<bar> + sum_list (map re_amount es) < money_bound"
    using Cons.prems(3) y(2) by simp
  ultimately have "map_of (fold (apply_entry D rows) es (apply_entry D rows e next)) k =
      Some (y + resolved_change rows k es)"
    using Cons.IH [OF _ y(1)] Cons.prems(1) by simp
  then show ?case
    by (simp add: y_def resolved_change_def)
qed

text \<open>The rows of a posting carry the accounts, directions and amounts of its entries.\<close>

lemma stored_rows_fields:
  assumes "list_all2 (\<lambda>e r. stored_entry e = Some r) (map (entry_row i) (enumerate n es)) rows"
    and "\<And>e. e \<in> set es \<Longrightarrow> has_places 8 (re_amount e)"
  shows "map (\<lambda>r. (le_account r, le_direction r, le_amount r, le_currency r)) rows =
    map (\<lambda>e. (re_account e, re_direction e, re_amount e, re_currency e)) es"
  using assms
proof (induction es arbitrary: n rows)
  case Nil
  then show ?case by simp
next
  case (Cons e es)
  from Cons.prems(1) obtain r rs where rows: "rows = r # rs" and
    r: "stored_entry (entry_row i (n, e)) = Some r" and
    rs: "list_all2 (\<lambda>e r. stored_entry e = Some r) (map (entry_row i) (enumerate (Suc n) es)) rs"
    by (auto simp: list_all2_Cons1)
  have "le_amount r = re_amount e"
    using stored_entry_fields(6) [OF r] Cons.prems(2) by (simp add: entry_row_def round_places_exact)
  moreover have "le_account r = re_account e" "le_direction r = re_direction e" "le_currency r = re_currency e"
    using stored_entry_fields(2,4,5) [OF r] by (simp_all add: entry_row_def)
  ultimately show ?case
    using Cons.IH [OF rs] Cons.prems(2) by (simp add: rows)
qed

lemma stored_rows_map:
  assumes "list_all2 (\<lambda>e r. stored_entry e = Some r) (map (entry_row i) (enumerate n es)) rows"
    and "\<And>e. e \<in> set es \<Longrightarrow> has_places 8 (re_amount e)"
  shows "map (\<lambda>r. (le_account r, le_direction r, le_amount r)) rows =
    map (\<lambda>e. (re_account e, re_direction e, re_amount e)) es"
  using arg_cong [OF stored_rows_fields [OF assms], where f = "map (\<lambda>(a, d, x, k). (a, d, x))"]
  by (simp add: comp_def)

lemma volume_map: "volume rows = sum_list (map (snd \<circ> snd) (map (\<lambda>r. (le_account r, le_direction r, le_amount r)) rows))"
  by (simp add: volume_def comp_def)

lemma journal_balance_map:
  "journal_balance a rows = sum_list (map (\<lambda>(k, d, x). if d = la_normal a then x else - x)
     (filter (\<lambda>(k, d, x). k = la_id a) (map (\<lambda>r. (le_account r, le_direction r, le_amount r)) rows)))"
  by (induction rows) (auto simp: journal_balance_def signed_amount_def)

lemma resolved_change_map:
  assumes "find_account (la_id a) rows = Some a"
  shows "resolved_change rows (la_id a) es = sum_list (map (\<lambda>(k, d, x). if d = la_normal a then x else - x)
     (filter (\<lambda>(k, d, x). k = la_id a) (map (\<lambda>e. (re_account e, re_direction e, re_amount e)) es)))"
  using assms by (induction es) (auto simp: resolved_change_def increases_def)

definition posting_exact :: "resolved_posting \<Rightarrow> bool" where
  "posting_exact c \<longleftrightarrow> list_all (\<lambda>e. has_places 8 (re_amount e)) (rs_entries c)"

lemma posting_next_other:
  assumes "k \<notin> set (posting_ids c)"
  shows "map_of (posting_next v c s) k = None"
proof -
  have "set (map fst (posting_next v c s)) \<subseteq> set (posting_ids c)"
    unfolding posting_next_def next_balances_keys by (auto simp: locked_balances_def)
  with assms show ?thesis by (auto simp: map_of_eq_None_iff)
qed

lemma locked_value:
  assumes "distinct (map wb_account (balances s))" and "b \<in> set (balances s)" and "wb_account b \<in> set ids"
  shows "map_of (map (\<lambda>b. (wb_account b, wb_available b)) (locked_balances ids s)) (wb_account b)
    = Some (wb_available b)"
proof -
  have "distinct (map wb_account (locked_balances ids s))"
    using assms(1) by (simp add: locked_balances_def distinct_map_filter)
      (simp add: distinct_map inj_on_def)
  then show ?thesis
    using assms(2,3) by (intro map_of_is_SomeI) (auto simp: locked_balances_def comp_def)
qed

lemma posting_projection:
  assumes "posting_effect v i c hash s row es s'" and "posting_exact c"
    and "decimal_lib_ok (lv_decimal v)" and "ledger_inv s" and "projection_ok s"
    and "volume (entries s') < money_bound"
  shows "projection_ok s'"
proof -
  note eff = posting_effectD [OF assms(1)]
  note A = assms(4) [unfolded ledger_inv_def accounts_ok_def journal_ok_def]
  let ?D = "lv_decimal v" and ?rows = "accounts_in (posting_ids c) s"
  have places: "has_places 8 (re_amount e)" if "e \<in> set (rs_entries c)" for e
    using assms(2) that by (simp add: posting_exact_def list_all_iff)
  have same: "map (\<lambda>r. (le_account r, le_direction r, le_amount r)) es =
      map (\<lambda>e. (re_account e, re_direction e, re_amount e)) (rs_entries c)"
    using eff(9) places unfolding entry_rows_def by (rule stored_rows_map)
  have "re_amount e \<in> le_amount ` set es" if "e \<in> set (rs_entries c)" for e
    using that same by (force dest: arg_cong [where f = set])
  then have pos: "0 < re_amount e" if "e \<in> set (rs_entries c)" for e
    using that eff(10) by (force simp: entry_check_def)
  have vol: "volume es = sum_list (map re_amount (rs_entries c))"
    by (simp add: volume_map same comp_def)
  have new_places: "has_places 8 (le_amount e)" if "e \<in> set es" for e
    using list_all2_right [OF eff(9) that] stored_entry_fields(7) by blast
  have old_pos: "0 < le_amount e" "has_places 8 (le_amount e)" if "e \<in> set (entries s)" for e
    using A that by (auto simp: entry_check_def)
  show ?thesis
    unfolding projection_ok_def
  proof (intro ballI impI)
    fix a b
    assume "a \<in> set (accounts s')" and "b \<in> set (balances s')" and ab: "wb_account b = la_id a"
    then obtain b0 where a: "a \<in> set (accounts s)" and
      b0: "b0 \<in> set (balances s)" "b = rebalance (posting_next v c s) b0" "wb_account b0 = la_id a"
      by (auto simp: eff(14))
    have av: "wb_available b0 = journal_balance a (entries s)"
      using assms(5) a b0 by (simp add: projection_ok_def)
    show "wb_available b = journal_balance a (entries s')"
    proof (cases "la_id a \<in> set (posting_ids c)")
      case False
      then have "map_of (posting_next v c s) (la_id a) = None"
        by (rule posting_next_other)
      moreover have "map le_account es = map re_account (rs_entries c)"
        using arg_cong [OF same, where f = "map fst"] by (simp add: comp_def)
      then have "le_account ` set es = re_account ` set (rs_entries c)"
        by (metis list.set_map)
      then have "la_id a \<notin> le_account ` set es"
        using False by (simp add: posting_ids_def)
      then have "journal_balance a es = 0"
        by (intro journal_balance_other) (metis imageI)
      ultimately show ?thesis
        using av b0 by (auto simp: rebalance_def eff(14))
    next
      case True
      have found: "find_account (la_id a) ?rows = Some a"
        using A a True by (intro find_account_in) auto
      have "map_of (map (\<lambda>b. (wb_account b, wb_available b)) (locked_balances (posting_ids c) s)) (la_id a)
          = Some (wb_available b0)"
        using locked_value [OF _ b0(1), of "posting_ids c"] A True b0(3) by simp
      moreover have "has_places 8 (wb_available b0)"
        unfolding av using old_pos by (intro journal_balance_places)
      moreover have "\<bar>wb_available b0\<bar> + sum_list (map re_amount (rs_entries c)) < money_bound"
        using journal_balance_bound [of "entries s" a] old_pos assms(6) av by (simp add: eff(14) vol)
      ultimately have "map_of (posting_next v c s) (la_id a) =
          Some (wb_available b0 + resolved_change ?rows (la_id a) (rs_entries c))"
        unfolding posting_next_def next_balances_def
        using places pos by (intro next_value assms(3)) blast+
      then have "wb_available b = round_places 8 (journal_balance a (entries s')) "
        using b0 av resolved_change_map [OF found] journal_balance_map [of a es] same
        by (simp add: rebalance_def eff(14))
      moreover have "has_places 8 (journal_balance a (entries s'))"
        using old_pos(2) new_places by (intro journal_balance_places) (auto simp: eff(14))
      ultimately show ?thesis by (simp add: round_places_exact)
    qed
  qed
qed

section \<open>Every handler\<close>

text \<open>A command of the DTO's shape is posted with amounts of at most eight decimals.\<close>

lemma map_result_Inr: "map_result f xs = Inr ys \<Longrightarrow> list_all2 (\<lambda>x y. f x = Inr y) xs ys"
  by (induction xs arbitrary: ys) (auto split: sum.splits)

lemma customer_entry_Inr:
  assumes "customer_entry v c rows e = Inr r"
  shows "re_amount r = dl_of (lv_decimal v) (pe_amount e)" "re_currency r = pe_currency e"
    "re_direction r = pe_direction e"
    "\<exists>a\<in>set rows. la_wallet a = Some (pe_wallet e) \<and> la_id a = re_account r \<and>
       la_currency a = pe_currency e \<and> la_status a = ACTIVE"
  using assms by (auto simp: customer_entry_def split: option.splits if_splits dest: find_Some_in)

lemma clearing_entries_amounts:
  assumes "clearing_entries v c s = (Inr es, t)" and "e \<in> set es"
  shows "re_amount e \<in> {dl_of (lv_decimal v) (cp_source_amount c), dl_of (lv_decimal v) (cp_target_amount c)}"
  using assms
  by (auto simp: clearing_entries_def bnd_result_Inr clearing_entry_def split: if_splits prod.splits)

lemma resolved_exact:
  assumes "decimal_lib_ok (lv_decimal v)" and "posting_dto_ok u c"
    and "map_result (customer_entry v c rows) (cp_entries c) = Inr es"
    and "clearing_entries v c s = (Inr cl, t)"
  shows "posting_exact (resolve_posting v c (es @ cl))"
proof -
  have "has_places 8 (re_amount r)" if "r \<in> set es" for r
  proof -
    have "\<exists>e\<in>set (cp_entries c). customer_entry v c rows e = Inr r"
      using list_all2_right [OF map_result_Inr [OF assms(3)] that] .
    then obtain e where "e \<in> set (cp_entries c)" and "customer_entry v c rows e = Inr r"
      by blast
    moreover from this have "money_pattern (pe_amount e)"
      using assms(2) by (simp add: posting_dto_ok_def entry_dto_ok_def list_all_iff)
    ultimately show ?thesis
      using decimal_lib_okD(6) [OF assms(1)] customer_entry_Inr(1) [of v c rows e r] by simp
  qed
  moreover have "has_places 8 (re_amount r)" if "r \<in> set cl" for r
    using clearing_entries_amounts [OF assms(4) that] assms(2) decimal_lib_okD(6) [OF assms(1)]
    by (auto simp: posting_dto_ok_def)
  ultimately show ?thesis
    by (auto simp: posting_exact_def resolve_posting_def list_all_iff)
qed

text \<open>
  What a relation must allow so that every handler stays within it. \<open>known\<close> is the invariant that the
  relation may suppose of the state before; \<open>D\<close> is the decimal library of the service.
\<close>

locale ledger_steps = two_state R
  for R :: "ledger_state \<Rightarrow> ledger_state \<Rightarrow> bool" +
  fixes known :: "ledger_state \<Rightarrow> bool" and D :: decimal_lib
  assumes outside: "\<not> known s \<Longrightarrow> R s t"
    and known_places: "known s \<Longrightarrow> e \<in> set (entries s) \<Longrightarrow> has_places 8 (le_amount e)"
    and counters: "R s (record_success s)" "R s (record_failure s)"
      "R s (set_invariant_violations n s)" "R s (s\<lparr>checks := cs\<rparr>)"
    and account: "steps R (create_account a)"
    and posting: "lv_decimal v = D \<Longrightarrow> (decimal_lib_ok D \<Longrightarrow> posting_exact c) \<Longrightarrow>
      steps R (transaction (posting_commits i) (posting_body v i c hash fl))"
begin

text \<open>The environment of a request: its library, and what the other requests may do.\<close>

definition tame :: "ledger_env \<Rightarrow> bool" where
  "tame v \<longleftrightarrow> lv_decimal v = D \<and> (\<forall>k s. R s (lv_others v k s))"

lemma steps_known:
  assumes "steps R m" and "\<And>s x t. known s \<Longrightarrow> m s = (Inr x, t) \<Longrightarrow> steps R (f x)"
  shows "steps R (bnd m f)"
proof (rule stepsI)
  fix s
  obtain r t where m: "m s = (r, t)" by fastforce
  show "R s (snd (bnd m f s))"
  proof (cases "known s")
    case True
    have "R s t" using assms(1) m by (rule stepsD_eq)
    moreover have "R t (snd (f x t))" if "r = Inr x" for x
      using assms(2) [OF True] m that by (auto intro: stepsD)
    ultimately show ?thesis
      using m by (auto simp: bnd_def intro: R_trans split: sum.splits)
  qed (rule outside)
qed

lemma steps_find_idempotent: "steps R (find_idempotent v r h)"
  by (auto simp: steps_def find_idempotent_def R_refl split: option.splits)

lemma steps_lift: "steps R (lift_result f)"
  by (simp add: steps_def lift_result_def R_refl)

lemma steps_others: "tame v \<Longrightarrow> steps R (pause (lv_others v k))"
  by (simp add: steps_def tame_def)

lemma steps_success: "steps R (modify record_success)"
  and steps_failure: "steps R (modify record_failure)"
  by (simp_all add: steps_def counters)

lemma steps_both: "steps R m \<Longrightarrow> steps R n \<Longrightarrow> steps R (both m n)"
  unfolding steps_def both_def
  by (auto simp: Let_def split: prod.splits) (metis R_trans snd_conv)

lemmas rules = steps_rules steps_find_idempotent steps_lift steps_others steps_success steps_failure
  account

lemma steps_clearing: "tame v \<Longrightarrow> steps R (ensure_clearing_account v cur)"
  unfolding ensure_clearing_account_def by (intro rules)

lemma steps_attempts:
  assumes "tame v" and "decimal_lib_ok D \<Longrightarrow> posting_exact c"
  shows "steps R (post_attempts v c h fl n)"
proof (induction n)
  case 0
  show ?case unfolding post_attempts.simps by (intro rules)
next
  case (Suc n)
  show ?case
    unfolding post_attempts.simps
    by (intro rules posting Suc.IH assms) (use assms(1) in \<open>simp add: tame_def\<close>)
qed

lemma steps_post_resolved:
  "tame v \<Longrightarrow> (decimal_lib_ok D \<Longrightarrow> posting_exact c) \<Longrightarrow> steps R (post_resolved v c h fl)"
  unfolding post_resolved_def by (intro rules steps_attempts)

lemma steps_posting_failure: "tame v \<Longrightarrow> steps R (handle_posting_failure v e r h)"
  unfolding handle_posting_failure_def by (intro rules)

lemma steps_clearing_entries: "tame v \<Longrightarrow> steps R (clearing_entries v c)"
  unfolding clearing_entries_def
  by (intro rules steps_both steps_clearing) (auto intro: rules split: prod.split)

lemma steps_resolved:
  assumes "tame v" and "posting_dto_ok u c"
    and "map_result (customer_entry v c rows) (cp_entries c) = Inr es"
  shows "steps R (bnd (clearing_entries v c) (\<lambda>cl. post_resolved v (resolve_posting v c (es @ cl)) h fl))"
proof -
  have "lv_decimal v = D" using assms(1) by (simp add: tame_def)
  then show ?thesis
    by (intro steps_known steps_clearing_entries steps_post_resolved assms(1))
      (rule resolved_exact [OF _ assms(2,3)], simp_all)
qed

lemma steps_post_new: "tame v \<Longrightarrow> posting_dto_ok u c \<Longrightarrow> steps R (post_new v c h fl)"
  unfolding post_new_def Let_def
  by (intro rules) (auto intro: steps_throw steps_resolved split: sum.split)

lemma steps_post: "tame v \<Longrightarrow> posting_dto_ok u c \<Longrightarrow> steps R (post v c fl)"
  unfolding post_def Let_def by (intro rules steps_posting_failure steps_post_new)

lemma steps_reverse:
  assumes "tame v"
  shows "steps R (reverse_posting v i c)"
proof -
  have exact: "posting_exact (reversal_posting t (ordered_entries k s) c)" if "known s" for s t k
    using known_places [OF that]
    by (auto simp: posting_exact_def reversal_posting_def reversal_entry_def list_all_iff
        ordered_entries_def entries_of_def)
  have reads: "x = map_option (\<lambda>t. (t, ordered_entries (lt_id t) s,
      key_taken lt_reverses (Some (lt_id t)) (transactions s))) (find_transaction i s)"
    if "gets (\<lambda>s. map_option (\<lambda>t. (t, ordered_entries (lt_id t) s,
      key_taken lt_reverses (Some (lt_id t)) (transactions s))) (find_transaction i s)) s = (Inr x, u)"
    for x s u using that by auto
  show ?thesis
    unfolding reverse_posting_def Let_def
    by (rule steps_known, rule steps_gets, drule reads)
      (auto intro!: rules steps_post_resolved steps_posting_failure assms exact
        split: option.split)
qed

lemma steps_fund:
  assumes "tame v" and "fund_dto_ok u c"
  shows "steps R (fund v c)"
proof -
  have "posting_exact (funding_posting v c a b)" if "decimal_lib_ok D" for a b
    using that assms
    by (auto simp: posting_exact_def funding_posting_def Let_def fund_dto_ok_def decimal_lib_okD tame_def)
  then show ?thesis
    unfolding fund_def Let_def
    by (intro rules steps_clearing steps_post_resolved steps_posting_failure assms(1))
qed

lemma steps_provision: "tame v \<Longrightarrow> steps R (provision v i w cur)"
  unfolding provision_def by (intro rules)

lemma steps_verify: "steps R (verify now)"
  unfolding verify_def by (intro steps_rules steps_modify counters)

end

end
