(* ===== verification/LedgerRuns.thy ===== *)
theory LedgerRuns
  imports LedgerSafety
begin

text \<open>
  Everything the Ledger service can be asked, as one datatype of requests served by the routes of
  its controllers, and the states a service reaches by serving requests, whatever requests run
  concurrently at the \<open>await\<close>s of each (\<open>ledger_run\<close>). The relation \<open>books\<close> collects what holds
  between any two states of such a run; it is the interpretation of \<open>ledger_steps\<close> on the
  service's own definitions.
\<close>

section \<open>Requests\<close>

datatype ledger_request =
    PostRequest create_posting_dto
  | ReverseRequest uuid reverse_posting_dto
  | FundRequest fund_wallet_dto
  | ProvisionRequest uuid provision_dto  \<comment> \<open>with the default \<open>uuid()\<close> of a new account\<close>
  | VerifyRequest instant
  | ReferenceRequest uuid
  | BalanceRequest uuid
  | BalancesRequest "uuid list"
  | MetricsRequest

fun serve :: "ledger_http \<Rightarrow> ledger_env \<Rightarrow> ledger_request \<Rightarrow> ledger_state \<Rightarrow> ledger_state" where
  "serve h v (PostRequest c) s = snd (post_route h v c s)"
| "serve h v (ReverseRequest i c) s = snd (reverse_route h v i c s)"
| "serve h v (FundRequest c) s = snd (fund_route h v c s)"
| "serve h v (ProvisionRequest i c) s = snd (provision_route h v i c s)"
| "serve h v (VerifyRequest now) s = snd (verify_route h now s)"
| "serve h v (ReferenceRequest r) s = snd (by_reference_route h v r s)"
| "serve h v (BalanceRequest w) s = snd (balance_route h v w s)"
| "serve h v (BalancesRequest ws) s = snd (balances_route h v ws s)"
| "serve h v MetricsRequest s = snd (metrics_route h s)"

inductive ledger_run :: "decimal_lib \<Rightarrow> ledger_state \<Rightarrow> ledger_state \<Rightarrow> bool" for D where
  run_idle: "ledger_run D s s"
| run_serve: "lv_decimal v = D \<Longrightarrow> \<forall>k u. ledger_run D u (lv_others v k u) \<Longrightarrow>
    ledger_run D s t \<Longrightarrow> ledger_run D s (serve h v q t)"

text \<open>An environment in which no other request interferes.\<close>

definition isolated :: "ledger_env \<Rightarrow> bool" where
  "isolated v \<longleftrightarrow> (\<forall>k s. lv_others v k s = s)"

lemma isolated_others [simp]: "isolated v \<Longrightarrow> lv_others v k s = s"
  by (simp add: isolated_def)

lemma run_isolated:
  "lv_decimal v = D \<Longrightarrow> isolated v \<Longrightarrow> ledger_run D s t \<Longrightarrow> ledger_run D s (serve h v q t)"
  by (intro run_serve) (simp_all add: run_idle)

context ledger_steps
begin

lemma serve_step:
  assumes "tame v"
  shows "R s (serve h v q s)"
proof -
  have refl: "steps R (by_reference v r)" "steps R (balance v w)" "steps R (balances_query v ws)"
    "steps R (gets metrics_snapshot :: (ledger_state, nat \<times> nat \<times> nat) act)" for r w ws
    by (auto simp: steps_def by_reference_def R_refl split: option.split)
      (unfold balance_def balances_query_def, (rule stepsD, intro rules)+)
  show ?thesis
    by (cases q)
      (auto simp: post_route_def reverse_route_def fund_route_def provision_route_def verify_route_def
        by_reference_route_def balance_route_def balances_route_def metrics_route_def
        intro!: stepsD [where R = R] steps_guarded steps_validated refl steps_post steps_reverse
          steps_fund steps_provision steps_verify assms)
qed

lemma runs: "ledger_run D s t \<Longrightarrow> R s t"
proof (induction rule: ledger_run.induct)
  case (run_idle s)
  then show ?case by (rule R_refl)
next
  case (run_serve v s t h q)
  then have "tame v" by (simp add: tame_def)
  then show ?case using run_serve.IH serve_step R_trans by blast
qed

end

section \<open>The books\<close>

definition books :: "decimal_lib \<Rightarrow> ledger_state \<Rightarrow> ledger_state \<Rightarrow> bool" where
  "books D s t \<longleftrightarrow>
     (ledger_inv s \<longrightarrow>
        ledger_inv t \<and> journal_extends s t \<and>
        (decimal_lib_ok D \<longrightarrow>
           (funds_ok s \<longrightarrow> funds_ok t) \<and>
           (projection_ok s \<and> volume (entries t) < money_bound \<longrightarrow> projection_ok t)))"

lemma volume_mono:
  assumes "journal_extends s t" and "ledger_inv t"
  shows "volume (entries s) \<le> volume (entries t)"
proof -
  obtain es where es: "entries t = entries s @ es"
    using assms(1) by (auto simp: journal_extends_def prefix_def)
  have "0 < le_amount e" if "e \<in> set es" for e
    using assms(2) that es by (auto simp: ledger_inv_def journal_ok_def entry_check_def)
  then show ?thesis using volume_nonneg [of es] by (simp add: es)
qed

lemma books_trans: "books D s t \<Longrightarrow> books D t u \<Longrightarrow> books D s u"
  unfolding books_def
  by (meson journal.R_trans order.strict_trans1 volume_mono)

lemma books_same_tables:
  assumes "accounts t = accounts s" "balances t = balances s" "transactions t = transactions s"
    "entries t = entries s"
  shows "books D s t"
  using assms
  by (simp add: books_def ledger_inv_def accounts_ok_def journal_ok_def journal_extends_def
      funds_ok_def projection_ok_def)

lemma create_account_projection:
  assumes "create_account a s = (Inr r, s')" and "ledger_inv s" and "projection_ok s"
  shows "projection_ok s'"
proof -
  from assms(1) have new: "la_id a \<notin> la_id ` set (accounts s)" and
    s': "s' = s\<lparr>accounts := accounts s @ [a], balances := balances s @
      [\<lparr>wb_account = la_id a, wb_currency = la_currency a, wb_available = 0, wb_version = 0\<rparr>]\<rparr>"
    by (auto simp: create_account_Inr account_conflict_def key_taken_def)
  have "\<forall>e\<in>set (entries s). le_account e \<in> la_id ` set (accounts s)"
    using assms(2) by (simp add: ledger_inv_def journal_ok_def)
  then have zero: "journal_balance a (entries s) = 0"
    using new by (intro journal_balance_other) (metis imageI)
  have ids: "set (map wb_account (balances s)) = set (map la_id (accounts s))"
    using assms(2) by (simp only: ledger_inv_def accounts_ok_def)
  then have "la_id a \<notin> wb_account ` set (balances s)" using new by simp
  moreover have "b \<in> set (balances s) \<Longrightarrow> wb_account b \<in> la_id ` set (accounts s)" for b
    using ids by auto
  ultimately show ?thesis
    using assms(3) new zero by (auto simp: s' projection_ok_def image_iff)
qed

lemma create_account_books: "books D s (snd (create_account a s))"
proof (cases "create_account a s")
  case (Pair r s')
  show ?thesis
  proof (cases r)
    case (Inl e)
    then have "s' = s" using Pair create_account_Inl by blast
    then show ?thesis by (simp add: Pair books_same_tables)
  next
    case (Inr x)
    then have c: "create_account a s = (Inr x, s')" using Pair by simp
    have "journal_extends s s'"
      using c by (auto simp: create_account_Inr journal_extends_def)
    moreover have "ledger_inv s \<Longrightarrow> accounts_ok s" by (simp add: ledger_inv_def)
    ultimately show ?thesis
      using create_account_inv [OF c] create_account_funds [OF c] create_account_projection [OF c]
      by (simp add: Pair books_def)
  qed
qed

lemma posting_books:
  assumes "lv_decimal v = D" and "decimal_lib_ok D \<Longrightarrow> posting_exact c"
  shows "books D s (snd (transaction (posting_commits i) (posting_body v i c hash fl) s))"
proof (cases "transaction (posting_commits i) (posting_body v i c hash fl) s")
  case (Pair r s')
  show ?thesis
  proof (cases r)
    case (Inl e)
    then have "s' = s" using Pair by (simp add: transaction_Inl)
    then show ?thesis by (simp add: Pair books_same_tables)
  next
    case (Inr x)
    then have c: "transaction (posting_commits i) (posting_body v i c hash fl) s = (Inr x, s')"
      using Pair by simp
    show ?thesis
      unfolding books_def
    proof (intro impI)
      assume inv: "ledger_inv s"
      then have A: "accounts_ok s" and dist: "distinct (map wb_account (balances s))"
        by (simp_all add: ledger_inv_def accounts_ok_def)
      from posted [OF c dist] obtain row es where eff: "posting_effect v i c hash s row es s'"
        by blast
      have "journal_extends s s'"
        using eff by (rule posting_extends)
      then show "ledger_inv (snd (transaction (posting_commits i) (posting_body v i c hash fl) s)) \<and>
        journal_extends s (snd (transaction (posting_commits i) (posting_body v i c hash fl) s)) \<and>
        (decimal_lib_ok D \<longrightarrow>
          (funds_ok s \<longrightarrow> funds_ok (snd (transaction (posting_commits i) (posting_body v i c hash fl) s))) \<and>
          (projection_ok s \<and> volume (entries (snd (transaction (posting_commits i)
              (posting_body v i c hash fl) s))) < money_bound \<longrightarrow>
            projection_ok (snd (transaction (posting_commits i) (posting_body v i c hash fl) s))))"
        using posting_inv [OF c inv] posting_funds [OF c _ A] assms inv
          posting_projection [OF eff]
        by (simp add: Pair)
    qed
  qed
qed

interpretation books: ledger_steps "books D" ledger_inv D for D
proof
  show "books D s s" for s by (simp add: books_same_tables)
  show "books D s t \<Longrightarrow> books D t u \<Longrightarrow> books D s u" for s t u by (rule books_trans)
  show "\<not> ledger_inv s \<Longrightarrow> books D s t" for s t by (simp add: books_def)
  show "ledger_inv s \<Longrightarrow> e \<in> set (entries s) \<Longrightarrow> has_places 8 (le_amount e)" for s e
    by (simp add: ledger_inv_def journal_ok_def)
  show "books D s (record_success s)" "books D s (record_failure s)"
    "books D s (set_invariant_violations n s)" "books D s (s\<lparr>checks := cs\<rparr>)" for s n cs
    by (rule books_same_tables;
        simp add: record_success_def record_failure_def set_invariant_violations_def)+
  show "steps (books D) (create_account a)" for a
    by (rule stepsI) (rule create_account_books)
  show "lv_decimal v = D \<Longrightarrow> (decimal_lib_ok D \<Longrightarrow> posting_exact c) \<Longrightarrow>
      steps (books D) (transaction (posting_commits i) (posting_body v i c hash fl))" for v c i hash fl
    by (rule stepsI) (rule posting_books)
qed

lemma run_books: "ledger_run D s t \<Longrightarrow> books D s t"
  by (rule books.runs)

lemma run_inv: "ledger_run D empty_ledger s \<Longrightarrow> ledger_inv s"
  using run_books [of D empty_ledger s] by (simp add: books_def)

end
