(* ===== verification/LedgerDemo.thy ===== *)
theory LedgerDemo
  imports LedgerRuns
begin

text \<open>
  A small ledger on which the properties are instantiated: two wallets in US dollars, the first
  funded with 10, a payment of 4 from the first to the second, and its reversal. Each step is
  evaluated by the simplifier from the definitions of the handlers; \<open>ledger_eval\<close> is the bundle of
  equations it uses. The demo environment has the exact decimal library, a digest that looks at
  the amount of a command only, and no concurrent request.
\<close>

section \<open>Environment\<close>

definition json_text :: "json option \<Rightarrow> string" where
  "json_text j = (case j of Some (JStr t) \<Rightarrow> t | _ \<Rightarrow> ''-'')"

fun demo_digest :: "json \<Rightarrow> string" where
  "demo_digest (JObj kvs) = json_text (map_of kvs ''sourceAmount'')"
| "demo_digest _ = []"

definition demo_env :: "uuid \<Rightarrow> ledger_env" where
  "demo_env t = \<lparr>lv_decimal = exact_decimal, lv_digest = demo_digest, lv_collate = (\<lambda>t. t),
     lv_others = (\<lambda>k s. s), lv_aborts = (\<lambda>n. False), lv_transaction_id = (\<lambda>n. t),
     lv_clearing_id = (\<lambda>cur. ''c-'' @ cur), lv_node_env = Some ''test'', lv_test_funding = Some ''true''\<rparr>"

definition demo_http :: ledger_http where
  "demo_http = \<lparr>lh_token = Some ''k'', lh_supplied = Some ''k'', lh_is_uuid = (\<lambda>t. t \<noteq> [])\<rparr>"

lemma demo_env_isolated [simp]: "isolated (demo_env t)"
  by (simp add: isolated_def demo_env_def)

lemma demo_env_decimal [simp]: "lv_decimal (demo_env t) = exact_decimal"
  by (simp add: demo_env_def)

section \<open>Commands\<close>

definition usd_account :: "uuid \<Rightarrow> uuid \<Rightarrow> ledger_account" where
  "usd_account i w = \<lparr>la_id = i, la_wallet = Some w, la_type = CUSTOMER, la_currency = ''USD'',
     la_normal = CREDIT, la_status = ACTIVE\<rparr>"

definition usd_clearing :: ledger_account where
  "usd_clearing = \<lparr>la_id = ''c-USD'', la_wallet = None, la_type = FX_CLEARING,
     la_currency = ''USD'', la_normal = DEBIT, la_status = ACTIVE\<rparr>"

definition usd_balance :: "uuid \<Rightarrow> rat \<Rightarrow> int \<Rightarrow> wallet_balance" where
  "usd_balance i x n = \<lparr>wb_account = i, wb_currency = ''USD'', wb_available = x, wb_version = n\<rparr>"

definition demo_funding :: fund_wallet_dto where
  "demo_funding = \<lparr>fw_reference = ''f1'', fw_request = ''q1'', fw_wallet = ''w1'', fw_amount = ''10.0'',
     fw_currency = ''USD''\<rparr>"

definition demo_entry :: "uuid \<Rightarrow> side \<Rightarrow> string \<Rightarrow> posting_entry_dto" where
  "demo_entry w d amount = \<lparr>pe_wallet = w, pe_direction = d, pe_amount = amount, pe_currency = ''USD'',
     pe_keys = [''walletId'', ''direction'', ''amount'', ''currency'']\<rparr>"

definition demo_payment :: "string \<Rightarrow> create_posting_dto" where
  "demo_payment amount = \<lparr>cp_reference = ''p1'', cp_request = ''q2'', cp_type = TRANSFER_DTO,
     cp_source_currency = ''USD'', cp_target_currency = ''USD'', cp_source_amount = amount,
     cp_target_amount = amount, cp_fx_quote = None, cp_locked_rate = None,
     cp_entries = [demo_entry ''w1'' DEBIT amount, demo_entry ''w2'' CREDIT amount]\<rparr>"

definition demo_reversal :: reverse_posting_dto where
  "demo_reversal = \<lparr>rp_reference = ''r1'', rp_request = ''q3''\<rparr>"

lemmas demo_commands = demo_funding_def demo_payment_def demo_entry_def demo_reversal_def
  usd_account_def usd_clearing_def usd_balance_def

section \<open>States\<close>

definition usd_transaction ::
  "uuid \<Rightarrow> uuid \<Rightarrow> uuid \<Rightarrow> string \<Rightarrow> posting_type \<Rightarrow> rat \<Rightarrow> uuid option \<Rightarrow> ledger_transaction" where
  "usd_transaction i r q h ty x undone = \<lparr>lt_id = i, lt_reference = r, lt_hash = h, lt_type = ty,
     lt_source_currency = ''USD'', lt_target_currency = ''USD'', lt_source_amount = x,
     lt_target_amount = x, lt_fx_quote = None, lt_locked_rate = None, lt_reverses = undone, lt_request = q\<rparr>"

definition usd_entry :: "uuid \<Rightarrow> uuid \<Rightarrow> nat \<Rightarrow> side \<Rightarrow> rat \<Rightarrow> ledger_entry" where
  "usd_entry i a n d x = \<lparr>le_transaction = i, le_account = a, le_sequence = n, le_direction = d,
     le_amount = x, le_currency = ''USD'', le_fx_quote = None, le_locked_rate = None\<rparr>"

definition demo_accounts :: ledger_state where
  "demo_accounts = empty_ledger\<lparr>
     accounts := [usd_account ''a1'' ''w1'', usd_account ''a2'' ''w2''],
     balances := [usd_balance ''a1'' 0 0, usd_balance ''a2'' 0 0]\<rparr>"

definition demo_funded :: ledger_state where
  "demo_funded = demo_accounts\<lparr>
     accounts := [usd_account ''a1'' ''w1'', usd_account ''a2'' ''w2'', usd_clearing],
     balances := [usd_balance ''a1'' 10 1, usd_balance ''a2'' 0 0, usd_balance ''c-USD'' 10 1],
     transactions := [usd_transaction ''t1'' ''f1'' ''q1'' ''-'' FUNDING 10 None],
     entries := [usd_entry ''t1'' ''c-USD'' 1 DEBIT 10, usd_entry ''t1'' ''a1'' 2 CREDIT 10],
     succeeded := 1\<rparr>"

definition demo_paid :: ledger_state where
  "demo_paid = demo_funded\<lparr>
     balances := [usd_balance ''a1'' 6 2, usd_balance ''a2'' 4 1, usd_balance ''c-USD'' 10 1],
     transactions := transactions demo_funded @
       [usd_transaction ''t2'' ''p1'' ''q2'' ''4.00000000'' TRANSFER 4 None],
     entries := entries demo_funded @ [usd_entry ''t2'' ''a1'' 1 DEBIT 4, usd_entry ''t2'' ''a2'' 2 CREDIT 4],
     succeeded := 2\<rparr>"

definition demo_reversed :: ledger_state where
  "demo_reversed = demo_paid\<lparr>
     balances := [usd_balance ''a1'' 10 3, usd_balance ''a2'' 0 2, usd_balance ''c-USD'' 10 1],
     transactions := transactions demo_paid @
       [usd_transaction ''t3'' ''r1'' ''q3'' ''-'' REVERSAL 4 (Some ''t2'')],
     entries := entries demo_paid @ [usd_entry ''t3'' ''a1'' 1 CREDIT 4, usd_entry ''t3'' ''a2'' 2 DEBIT 4],
     succeeded := 3\<rparr>"

lemmas demo_states = demo_accounts_def demo_funded_def demo_paid_def demo_reversed_def empty_ledger_def
  usd_transaction_def usd_entry_def

section \<open>Evaluation\<close>

lemma demo_amounts [simp]:
  "decimal_value ''10.0'' = 10" "decimal_value ''4.0'' = 4" "decimal_value ''0.0'' = 0"
  "decimal_value ''7.0'' = 7"
  "fixed_text 8 10 = ''10.00000000''" "fixed_text 8 4 = ''4.00000000''"
  "fixed_text 8 7 = ''7.00000000''" "fixed_text 8 0 = ''0.00000000''"
  by (simp_all add: decimal_eval)

lemma round_numeral [simp]: "round_places 8 (numeral k) = numeral k" "round_places 8 0 = 0"
  "has_places 8 (numeral k)"
proof -
  have "of_int \<lfloor>of_int (numeral k * 10 ^ 8) :: rat\<rfloor> = (of_int (numeral k * 10 ^ 8) :: rat)"
    by (simp only: floor_of_int)
  then show p: "has_places 8 (numeral k)" unfolding has_places_def by simp
  show "round_places 8 (numeral k) = numeral k" using p by (rule round_places_exact)
  show "round_places 8 0 = 0" by (simp add: round_places_def)
qed

lemmas ledger_eval = demo_env_def demo_commands demo_states Let_def catch_def bnd_def
  transaction_def numeral_3_eq_3
  provision_def wallet_account_def create_account_def account_check_def is_currency_def
  upper_letter_def account_conflict_def key_taken_def internal_key_def lift_result_def to_balance_def
  find_balance_def fund_def ensure_clearing_account_def find_clearing_def find_idempotent_def
  find_by_reference_def find_transaction_def funding_posting_def post_resolved_def
  validate_resolved_def add_total_def posting_body_def accounts_in_def entry_account_ok_def
  find_account_def locked_balances_def next_balances_def apply_entry_def increases_def
  overdrawn_def create_transaction_def transaction_row_def stored_transaction_def
  numeric_column_def nullable_rate_column_def transaction_check_def transaction_fx_check_def
  transaction_conflict_def reverses_known_def entry_rows_def entry_row_def create_entry_def
  stored_entry_def entry_check_def entry_key_def update_balance_def update_where_def
  posting_commits_def balanced_entries_def entries_of_def side_total_def response_of_def
  to_response_def ordered_entries_def record_success_def record_failure_def
  post_def post_new_def validate_fx_shape_def posting_hash_def normalize_command_def funding_json_def
  reversal_json_def posting_type_dto_name_def money_def rate_text_def opt_str_def json_text_def
  normalize_entries_def entry_json_def entry_field_def entry_sort_key_def customer_entry_def
  clearing_entries_def resolve_posting_def reverse_posting_def reversal_posting_def
  reversal_entry_def handle_posting_failure_def ledger_failures

lemma demo_provision:
  "provision (demo_env t) ''a1'' ''w1'' ''USD'' empty_ledger =
     (Inr \<lparr>br_wallet = ''w1'', br_account = ''a1'', br_available = ''0.00000000'', br_currency = ''USD'',
           br_version = 0\<rparr>,
      empty_ledger\<lparr>accounts := [usd_account ''a1'' ''w1''], balances := [usd_balance ''a1'' 0 0]\<rparr>)"
  "snd (provision (demo_env t) ''a2'' ''w2'' ''USD''
      (empty_ledger\<lparr>accounts := [usd_account ''a1'' ''w1''], balances := [usd_balance ''a1'' 0 0]\<rparr>)) =
     demo_accounts"
  by (simp_all add: ledger_eval)

lemma demo_fund: "snd (fund (demo_env ''t1'') demo_funding demo_accounts) = demo_funded"
  by (simp add: ledger_eval)

definition demo_receipt :: posting_response where
  "demo_receipt = \<lparr>pr_id = ''t2'', pr_reference = ''p1'', pr_status = ''POSTED'', pr_type = ''TRANSFER'',
     pr_entries =
       [\<lparr>er_account = ''a1'', er_direction = DEBIT, er_amount = ''4.00000000'', er_currency = ''USD''\<rparr>,
        \<lparr>er_account = ''a2'', er_direction = CREDIT, er_amount = ''4.00000000'', er_currency = ''USD''\<rparr>]\<rparr>"

lemma demo_post: "post (demo_env ''t2'') (demo_payment ''4.0'') False demo_funded = (Inr demo_receipt, demo_paid)"
  by (simp add: ledger_eval demo_receipt_def)

lemma demo_reverse: "snd (reverse_posting (demo_env ''t3'') ''t2'' demo_reversal demo_paid) = demo_reversed"
  by (simp add: ledger_eval)

section \<open>The run\<close>

lemmas demo_routes = demo_http_def guarded_def validated_def internal_guard_def truthy_def

lemma demo_dtos:
  "provision_dto_ok (\<lambda>t. t \<noteq> []) \<lparr>pv_wallet = ''w1'', pv_currency = ''USD''\<rparr>"
  "provision_dto_ok (\<lambda>t. t \<noteq> []) \<lparr>pv_wallet = ''w2'', pv_currency = ''USD''\<rparr>"
  "fund_dto_ok (\<lambda>t. t \<noteq> []) demo_funding" "posting_dto_ok (\<lambda>t. t \<noteq> []) (demo_payment ''4.0'')"
  "reverse_dto_ok (\<lambda>t. t \<noteq> []) demo_reversal"
  by (simp_all add: provision_dto_ok_def fund_dto_ok_def posting_dto_ok_def reverse_dto_ok_def
      entry_dto_ok_def demo_commands is_currency_def upper_letter_def decimal_pattern_def is_digit_def
      Let_def)

lemma demo_serve:
  "serve demo_http (demo_env ''x'') (ProvisionRequest ''a2'' \<lparr>pv_wallet = ''w2'', pv_currency = ''USD''\<rparr>)
     (serve demo_http (demo_env ''x'') (ProvisionRequest ''a1'' \<lparr>pv_wallet = ''w1'', pv_currency = ''USD''\<rparr>)
        empty_ledger) = demo_accounts"
  "serve demo_http (demo_env ''t1'') (FundRequest demo_funding) demo_accounts = demo_funded"
  "serve demo_http (demo_env ''t2'') (PostRequest (demo_payment ''4.0'')) demo_funded = demo_paid"
  "serve demo_http (demo_env ''t3'') (ReverseRequest ''t2'' demo_reversal) demo_paid = demo_reversed"
  using demo_dtos demo_provision demo_fund demo_post demo_reverse
  by (simp_all add: demo_routes provision_route_def fund_route_def post_route_def reverse_route_def)

lemma demo_runs:
  "ledger_run exact_decimal empty_ledger demo_funded" "ledger_run exact_decimal empty_ledger demo_paid"
  "ledger_run exact_decimal empty_ledger demo_reversed" "ledger_run exact_decimal demo_paid demo_reversed"
proof -
  have step: "ledger_run exact_decimal s (serve demo_http (demo_env x) q t)"
    if "ledger_run exact_decimal s t" for s t x q
    using that by (intro run_isolated) simp_all
  have "ledger_run exact_decimal empty_ledger demo_accounts"
    unfolding demo_serve(1) [symmetric] by (intro step run_idle)
  then show funded: "ledger_run exact_decimal empty_ledger demo_funded"
    unfolding demo_serve(2) [symmetric] by (rule step)
  then show paid: "ledger_run exact_decimal empty_ledger demo_paid"
    unfolding demo_serve(3) [symmetric] by (rule step)
  then show "ledger_run exact_decimal empty_ledger demo_reversed"
    unfolding demo_serve(4) [symmetric] by (rule step)
  show "ledger_run exact_decimal demo_paid demo_reversed"
    unfolding demo_serve(4) [symmetric] by (intro step run_idle)
qed

end
