(* ===== verification/LedgerOperations.thy ===== *)
theory LedgerOperations
  imports LedgerDemo "HOL-Library.Multiset"
begin

text \<open>
  The operations of the Ledger service: idempotent replay, refusals, atomicity, retries, reversals,
  funding and provisioning. The lemmas that precede a property belong to it.
\<close>

section \<open>What a successful posting leaves\<close>

definition recorded :: "ledger_env \<Rightarrow> uuid \<Rightarrow> string \<Rightarrow> posting_response \<Rightarrow> ledger_state \<Rightarrow> bool" where
  "recorded v r h x s \<longleftrightarrow>
     (\<exists>t. find_by_reference r s = Some t \<and> lt_hash t = h \<and> x = response_of (lv_decimal v) s t)"

lemma books_keeping: "steps (books D) m \<Longrightarrow> steps (keeping ledger_inv) m"
  by (auto simp: steps_def books_def keeping_def)

abbreviation tame_env :: "ledger_env \<Rightarrow> bool" where
  "tame_env v \<equiv> books.tame (lv_decimal v) v"

lemma run_tame: "lv_decimal v = D \<Longrightarrow> \<forall>k u. ledger_run D u (lv_others v k u) \<Longrightarrow> tame_env v"
  by (auto simp: books.tame_def intro: run_books)

lemma isolated_tame [simp]: "isolated v \<Longrightarrow> tame_env v"
  by (auto simp: books.tame_def intro: books.R_refl)

lemma find_idempotent_recorded:
  "find_idempotent v r h s = (Inr (Some x), t) \<Longrightarrow> recorded v r h x t"
  by (auto simp: find_idempotent_def recorded_def split: option.splits if_splits)

lemma handle_failure_recorded: "results I (handle_posting_failure v e r h) (recorded v r h)"
  by (rule resultsI)
    (auto simp: handle_posting_failure_def bnd_result_Inr split: option.splits if_splits
      dest: find_idempotent_recorded)

lemma record_success_recorded [simp]: "recorded v r h x (record_success s) = recorded v r h x s"
  by (simp add: recorded_def record_success_def response_of_def ordered_entries_def find_by_reference_def)

lemma posted_recorded:
  "results ledger_inv (transaction (posting_commits i) (posting_body v i c h fl)) (recorded v (rs_reference c) h)"
proof (rule resultsI)
  fix s x t
  assume inv: "ledger_inv s" and ok: "transaction (posting_commits i) (posting_body v i c h fl) s = (Inr x, t)"
  have dist: "distinct (map wb_account (balances s))"
    using inv by (simp add: ledger_inv_def accounts_ok_def)
  from posted [OF ok dist] obtain row es where eff: "posting_effect v i c h s row es t"
    and x: "x = response_of (lv_decimal v) t row" by blast
  note eff = posting_effectD [OF eff]
  have row: "lt_reference row = rs_reference c" "lt_hash row = h"
    using stored_transaction_fields [OF eff(5)] by (simp_all add: transaction_row_def)
  have "find_by_reference (rs_reference c) s = None"
    using eff(7) row unfolding find_by_reference_def find_None_iff_all transaction_conflict_def key_taken_def
    by (metis imageI list.set_map)
  then have "find_by_reference (rs_reference c) t = Some row"
    using row by (simp add: eff(14) find_by_reference_def find_append)
  then show "recorded v (rs_reference c) h x t"
    using row x by (simp add: recorded_def)
qed

lemma attempts_recorded:
  assumes "tame_env v" and "decimal_lib_ok (lv_decimal v) \<Longrightarrow> posting_exact c"
  shows "results ledger_inv (post_attempts v c h fl n) (recorded v (rs_reference c) h)"
proof (induction n)
  case 0
  show ?case unfolding post_attempts.simps by (rule results_throw)
next
  case (Suc n)
  let ?i = "lv_transaction_id v (3 - n)"
  let ?once = "if lv_aborts v (3 - n) then throw (DbError P2034)
      else transaction (posting_commits ?i) (posting_body v ?i c h fl)"
  have keep: "steps (keeping ledger_inv) ?once"
    using assms by (intro books_keeping books.rules books.posting) simp_all
  have count: "steps (keeping ledger_inv) (modify record_success)"
    by (intro books_keeping [of "lv_decimal v"] books.steps_success)
  have "results ledger_inv ?once (recorded v (rs_reference c) h)"
    by (auto intro: results_throw posted_recorded)
  then have once: "results ledger_inv (bnd ?once (\<lambda>x. bnd (modify record_success) (\<lambda>_. ret x)))
      (recorded v (rs_reference c) h)"
    by (fastforce simp: results_def bnd_result_Inr)
  have "steps (keeping ledger_inv) (bnd ?once (\<lambda>x. bnd (modify record_success) (\<lambda>_. ret x)))"
    by (intro keep.steps_bnd keep count keep.steps_ret)
  from results_catch [OF this once]
  show ?case
    unfolding post_attempts.simps
    by (rule results_bnd [OF books_keeping [OF books.steps_others [OF assms(1)]]])
      (rule results_if Suc.IH results_throw)+
qed

lemma post_resolved_recorded:
  assumes "tame_env v" and "decimal_lib_ok (lv_decimal v) \<Longrightarrow> posting_exact c"
  shows "results ledger_inv (post_resolved v c h fl) (recorded v (rs_reference c) h)"
  unfolding post_resolved_def
  using attempts_recorded [OF assms] by (auto intro: results_throw split: option.split)

lemma resolve_posting_reference [simp]: "rs_reference (resolve_posting v c es) = cp_reference c"
  by (simp add: resolve_posting_def)

lemma find_idempotent_state: "find_idempotent v r h s = (x, t) \<Longrightarrow> t = s"
  by (auto simp: find_idempotent_def split: option.splits if_splits)

lemma resolved_recorded:
  assumes "tame_env v" and "posting_dto_ok u c"
    and "map_result (customer_entry v c rows) (cp_entries c) = Inr es"
  shows "results ledger_inv (bnd (clearing_entries v c) (\<lambda>cl.
      post_resolved v (resolve_posting v c (es @ cl)) h fl)) (recorded v (cp_reference c) h)"
proof (rule resultsI)
  fix s x t
  assume inv: "ledger_inv s" and r: "bnd (clearing_entries v c) (\<lambda>cl.
      post_resolved v (resolve_posting v c (es @ cl)) h fl) s = (Inr x, t)"
  from r obtain cl u where cl: "clearing_entries v c s = (Inr cl, u)"
    and post: "post_resolved v (resolve_posting v c (es @ cl)) h fl u = (Inr x, t)"
    by (auto simp: bnd_result_Inr)
  have "keeping ledger_inv s u"
    using books_keeping [OF books.steps_clearing_entries [OF assms(1)]] cl by (rule stepsD_eq)
  then have "ledger_inv u" using inv by (simp add: keeping_def)
  moreover have "posting_exact (resolve_posting v c (es @ cl))" if "decimal_lib_ok (lv_decimal v)"
    using resolved_exact [OF that assms(2,3) cl] .
  ultimately show "recorded v (cp_reference c) h x t"
    using post_resolved_recorded [OF assms(1)] post by (fastforce dest: resultsD)
qed

lemma post_new_recorded:
  assumes "tame_env v" and "posting_dto_ok u c"
  shows "results ledger_inv (post_new v c h fl) (recorded v (cp_reference c) h)"
  unfolding post_new_def Let_def
  using assms
  by (intro results_bnd keep.steps_gets keep.steps_ensure)
    (auto intro: results_throw resolved_recorded split: sum.split)

text \<open>The shape every posting operation shares: replay a recorded reference, or post and recover.\<close>

definition replay_or :: "ledger_env \<Rightarrow> uuid \<Rightarrow> string \<Rightarrow> (ledger_state, posting_response) act \<Rightarrow>
    (ledger_state, posting_response) act" where
  "replay_or v r h m =
     bnd (find_idempotent v r h) (\<lambda>prior. case prior of Some x \<Rightarrow> ret x | None \<Rightarrow> m)"

lemma replay_or_cases:
  "replay_or v r h m s =
     (case find_by_reference r s of
        None \<Rightarrow> m s
      | Some t \<Rightarrow> if lt_hash t = h then (Inr (response_of (lv_decimal v) s t), s)
                  else (Inl idempotency_mismatch, s))"
  by (auto simp: replay_or_def bnd_def find_idempotent_def split: option.split)

lemma replay_or_recorded:
  "results I m (recorded v r h) \<Longrightarrow> results I (replay_or v r h m) (recorded v r h)"
  by (auto simp: results_def replay_or_cases recorded_def split: option.splits if_splits)

lemma post_shape:
  "post v c fl = bnd (ensure (validate_fx_shape c) invalid_fx_posting) (\<lambda>_.
     replay_or v (cp_reference c) (posting_hash v c)
       (bnd (pause (lv_others v 0)) (\<lambda>_. catch (post_new v c (posting_hash v c) fl)
          (\<lambda>e. handle_posting_failure v e (cp_reference c) (posting_hash v c)))))"
  by (simp add: post_def replay_or_def Let_def)

lemma post_recorded:
  assumes "tame_env v" and "posting_dto_ok u c"
  shows "results ledger_inv (post v c fl) (recorded v (cp_reference c) (posting_hash v c))"
  unfolding post_shape
  using assms
  by (intro results_bnd keep.steps_ensure replay_or_recorded results_catch post_new_recorded
      handle_failure_recorded books_keeping [OF books.steps_others] books_keeping [OF books.steps_post_new])

lemma recorded_stable:
  assumes "journal_extends s t" and "recorded v r h x s"
  shows "recorded v r h x t"
proof -
  obtain q where q: "find_by_reference r s = Some q" "lt_hash q = h" "x = response_of (lv_decimal v) s q"
    using assms(2) by (auto simp: recorded_def)
  obtain new where "transactions t = transactions s @ new"
    using assms(1) by (auto simp: journal_extends_def prefix_def)
  then have "find_by_reference r t = Some q"
    using q(1) by (simp add: find_by_reference_def find_append)
  moreover have "q \<in> set (transactions s)"
    using q(1) find_Some_in unfolding find_by_reference_def by fast
  then have "response_of (lv_decimal v) t q = response_of (lv_decimal v) s q"
    using assms(1) by (simp add: journal_extends_def response_of_def ordered_entries_def)
  ultimately show ?thesis using q by (simp add: recorded_def)
qed

lemma recorded_replay:
  "recorded v r h x s \<Longrightarrow> lv_decimal w = lv_decimal v \<Longrightarrow> replay_or w r h m s = (Inr x, s)"
  by (auto simp: recorded_def replay_or_cases)

lemma guarded_Inr: "guarded a b m s = (Inr x, t) \<Longrightarrow> m s = (Inr x, t)"
  by (simp add: guarded_def split: if_splits)

lemma validated_Inr: "validated ok m s = (Inr x, t) \<Longrightarrow> ok \<and> m s = (Inr x, t)"
  by (simp add: validated_def split: if_splits)

lemma post_route_Inr:
  assumes "post_route h v c s = (Inr x, t)"
  shows "posting_dto_ok (lh_is_uuid h) c" and "post v c False s = (Inr x, t)" and "validate_fx_shape c"
proof -
  have ok: "posting_dto_ok (lh_is_uuid h) c \<and> post v c False s = (Inr x, t)"
    by (rule validated_Inr [OF guarded_Inr [OF assms [unfolded post_route_def]]])
  then show "posting_dto_ok (lh_is_uuid h) c" and "post v c False s = (Inr x, t)" by simp_all
  show "validate_fx_shape c"
    using ok by (simp add: post_shape split: if_splits)
qed

text \<open>A posting that the route answered stays recorded in every later state.\<close>

lemma post_route_recorded:
  assumes "ledger_run D empty_ledger s" and "lv_decimal v = D"
    and "\<forall>k u. ledger_run D u (lv_others v k u)" and "post_route h v c s = (Inr x, t)"
    and "ledger_run D t u"
  shows "recorded v (cp_reference c) (posting_hash v c) x u"
proof -
  note post = post_route_Inr [OF assms(4)]
  have tame: "tame_env v" using assms(2,3) by (rule run_tame)
  have inv: "ledger_inv s" using assms(1) by (rule run_inv)
  have "recorded v (cp_reference c) (posting_hash v c) x t"
    using resultsD [OF post_recorded [OF tame post(1)] inv post(2)] .
  moreover have "keeping ledger_inv s t"
    using books_keeping [OF books.steps_post [OF tame post(1)]] post(2) by (rule stepsD_eq)
  then have "journal_extends t u"
    using run_books [OF assms(5)] inv by (simp add: keeping_def books_def)
  ultimately show ?thesis by (rule recorded_stable [rotated])
qed

section \<open>Idempotent replay\<close>

text \<open>
  C5. Replay: once the Ledger has answered a posting command with a receipt, the same command sent
  again, at any later moment and whatever else the service did in between, is answered with the
  same receipt and changes nothing.
\<close>

theorem post_replay_is_stable:
  assumes "ledger_run D empty_ledger s" and "lv_decimal v = D"
    and "\<forall>k u. ledger_run D u (lv_others v k u)" and "post_route h v c s = (Inr x, t)"
    and "ledger_run D t u" and "lv_decimal w = D" and "posting_hash w c = posting_hash v c"
  shows "post w c fl u = (Inr x, u)"
  using post_route_recorded [OF assms(1-5)] assms(2,6,7) post_route_Inr(3) [OF assms(4)]
  by (simp add: post_shape recorded_replay)

theorem post_replay_is_stable_witness:
  "post (demo_env ''t9'') (demo_payment ''4.0'') False demo_reversed = (Inr demo_receipt, demo_reversed)"
proof (rule post_replay_is_stable [OF demo_runs(1) demo_env_decimal _ _ demo_runs(4)])
  show "\<forall>k u. ledger_run exact_decimal u (lv_others (demo_env ''t2'') k u)"
    by (simp add: run_idle)
  show "post_route demo_http (demo_env ''t2'') (demo_payment ''4.0'') demo_funded = (Inr demo_receipt, demo_paid)"
    using demo_dtos demo_post by (simp add: demo_routes post_route_def)
  show "posting_hash (demo_env ''t9'') (demo_payment ''4.0'') = posting_hash (demo_env ''t2'') (demo_payment ''4.0'')"
    by (simp add: ledger_eval)
qed simp

text \<open>
  Key reuse: after a command was answered, another command under the same external reference,
  that is one with a different hash, is refused with \<open>IDEMPOTENCY_KEY_REUSED\<close> (409) for ever after and
  changes nothing.
\<close>

theorem post_reference_not_reusable:
  assumes "ledger_run D empty_ledger s" and "lv_decimal v = D"
    and "\<forall>k u. ledger_run D u (lv_others v k u)" and "post_route h v c s = (Inr x, t)"
    and "ledger_run D t u" and "cp_reference c' = cp_reference c"
    and "posting_hash w c' \<noteq> posting_hash v c" and "validate_fx_shape c'"
  shows "post w c' fl u = (Inl idempotency_mismatch, u)"
proof -
  obtain q where "find_by_reference (cp_reference c) u = Some q" "lt_hash q = posting_hash v c"
    using post_route_recorded [OF assms(1-5)] by (auto simp: recorded_def)
  then show ?thesis using assms(6-8) by (simp add: post_shape replay_or_cases)
qed

theorem post_reference_not_reusable_witness:
  "post (demo_env ''t9'') (demo_payment ''7.0'') False demo_paid = (Inl idempotency_mismatch, demo_paid)"
proof (rule post_reference_not_reusable [OF demo_runs(1) demo_env_decimal])
  show "\<forall>k u. ledger_run exact_decimal u (lv_others (demo_env ''t2'') k u)"
    by (simp add: run_idle)
  show "post_route demo_http (demo_env ''t2'') (demo_payment ''4.0'') demo_funded = (Inr demo_receipt, demo_paid)"
    using demo_dtos demo_post by (simp add: demo_routes post_route_def)
  show "posting_hash (demo_env ''t9'') (demo_payment ''7.0'') \<noteq> posting_hash (demo_env ''t2'') (demo_payment ''4.0'')"
    by (simp add: ledger_eval)
  show "cp_reference (demo_payment ''7.0'') = cp_reference (demo_payment ''4.0'')"
    by (simp add: demo_payment_def)
  show "validate_fx_shape (demo_payment ''7.0'')"
    by (simp add: demo_payment_def validate_fx_shape_def)
qed (rule run_idle)

section \<open>Failures\<close>

lemma failures_find_idempotent: "failures (find_idempotent v r h) (\<lambda>e. \<not> is_unique_violation e)"
  by (auto simp: failures_def find_idempotent_def idempotency_mismatch_def split: option.splits if_splits)

lemma failures_posting_failure: "failures (handle_posting_failure v e r h) (\<lambda>e. \<not> is_unique_violation e)"
  unfolding handle_posting_failure_def
  by (intro failures_rules failures_find_idempotent) (simp_all add: posting_conflict_def)

lemma failures_clearing: "failures (ensure_clearing_account v cur) (\<lambda>e. \<not> is_unique_violation e)"
  unfolding ensure_clearing_account_def
  by (intro failures_rules) simp_all

lemma replay_or_shape:
  "bnd (find_idempotent v r h) (\<lambda>prior. case prior of None \<Rightarrow> m | Some x \<Rightarrow> ret x) = replay_or v r h m"
  by (simp add: replay_or_def)

text \<open>
  The loser of a race sees no database error: a unique violation of a concurrent writer with the
  same reference, original or clearing account never leaves \<open>post\<close>, \<open>reverse\<close> or \<open>fund\<close>. Its caller gets
  the winner's receipt or a conflict.
\<close>

theorem unique_violations_are_resolved:
  "failures (post v c fl) (\<lambda>e. \<not> is_unique_violation e) \<and>
   failures (reverse_posting v i rc) (\<lambda>e. \<not> is_unique_violation e) \<and>
   failures (fund v fc) (\<lambda>e. \<not> is_unique_violation e)"
proof (intro conjI)
  show "failures (post v c fl) (\<lambda>e. \<not> is_unique_violation e)"
    unfolding post_def Let_def
    by (intro failures_rules failures_find_idempotent failures_posting_failure)
      (simp_all add: ledger_failures)
  show "failures (reverse_posting v i rc) (\<lambda>e. \<not> is_unique_violation e)"
    unfolding reverse_posting_def Let_def
    by (intro failures_rules failures_find_idempotent failures_posting_failure)
      (auto intro!: failures_rules failures_find_idempotent failures_posting_failure
        simp: ledger_failures split: option.split)
  show "failures (fund v fc) (\<lambda>e. \<not> is_unique_violation e)"
    unfolding fund_def Let_def
    by (intro failures_rules failures_find_idempotent failures_posting_failure failures_clearing)
      (simp_all add: ledger_failures)
qed

text \<open>\<open>unwinds R m\<close>: when \<open>m\<close> throws, the state it leaves relates to the state before.\<close>

definition unwinds :: "('s \<Rightarrow> 's \<Rightarrow> bool) \<Rightarrow> ('s, 'a) act \<Rightarrow> bool" where
  "unwinds R m \<longleftrightarrow> (\<forall>s e t. m s = (Inl e, t) \<longrightarrow> R s t)"

lemma unwindsD: "unwinds R m \<Longrightarrow> m s = (Inl e, t) \<Longrightarrow> R s t"
  unfolding unwinds_def by blast

lemma unwinds_steps: "steps R m \<Longrightarrow> unwinds R m"
  by (auto simp: unwinds_def dest: stepsD_eq)

context two_state
begin

lemma unwinds_bnd:
  assumes "steps R m" and "\<And>x. unwinds R (f x)"
  shows "unwinds R (bnd m f)"
proof -
  have "R s t" if "bnd m f s = (Inl e, t)" for s e t
    using that assms R_trans unfolding bnd_result_Inl steps_def unwinds_def by (metis snd_conv)
  then show ?thesis by (simp add: unwinds_def)
qed

lemma unwinds_last:
  assumes "unwinds R m" and "\<And>x s. \<exists>y t. f x s = (Inr y, t)"
  shows "unwinds R (bnd m f)"
  using assms unfolding unwinds_def bnd_result_Inl by (metis Inl_Inr_False Pair_inject)

lemma unwinds_catch:
  assumes "unwinds R m" and "\<And>e. unwinds R (h e)"
  shows "unwinds R (catch m h)"
proof -
  have "R s t" if "catch m h s = (Inl e, t)" for s e t
    using that assms R_trans unfolding catch_result unwinds_def by blast
  then show ?thesis by (simp add: unwinds_def)
qed

lemma unwinds_transaction: "unwinds R (transaction c m)"
  by (auto simp: unwinds_def R_refl dest: transaction_Inl)

end

text \<open>Nothing is posted: only clearing accounts, with zero balances, and counters may be new.\<close>

definition nothing_posted :: "ledger_state \<Rightarrow> ledger_state \<Rightarrow> bool" where
  "nothing_posted s t \<longleftrightarrow>
     transactions t = transactions s \<and> entries t = entries s \<and>
     (\<exists>new. accounts t = accounts s @ new \<and> list_all (\<lambda>a. la_type a = FX_CLEARING) new) \<and>
     (\<exists>new. balances t = balances s @ new \<and> list_all (\<lambda>b. wb_available b = 0) new)"

interpretation unposted: two_state nothing_posted
proof
  show "nothing_posted s s" for s by (auto simp: nothing_posted_def)
  show "nothing_posted s t \<Longrightarrow> nothing_posted t u \<Longrightarrow> nothing_posted s u" for s t u
    by (force simp: nothing_posted_def)
qed

lemma unposted_clearing: "isolated v \<Longrightarrow> steps nothing_posted (ensure_clearing_account v cur)"
  unfolding ensure_clearing_account_def
  by (intro unposted.steps_rules)
    (auto intro!: stepsI simp: create_account_def nothing_posted_def)

lemma unposted_both:
  "steps nothing_posted m \<Longrightarrow> steps nothing_posted n \<Longrightarrow> steps nothing_posted (both m n)"
  unfolding steps_def both_def
  by (auto simp: Let_def split: prod.splits) (metis unposted.R_trans snd_conv)

lemma unposted_clearing_entries: "isolated v \<Longrightarrow> steps nothing_posted (clearing_entries v c)"
  unfolding clearing_entries_def
  by (intro unposted.steps_rules unposted_both unposted_clearing)
    (auto intro: unposted.steps_ret split: prod.split)

lemma unposted_counters: "nothing_posted s (record_success s)" "nothing_posted s (record_failure s)"
  by (simp_all add: nothing_posted_def record_success_def record_failure_def)

lemma unposted_find: "steps nothing_posted (find_idempotent v r h)"
  by (auto intro!: stepsI simp: find_idempotent_def unposted.R_refl split: option.split)

lemma unposted_failure:
  "isolated v \<Longrightarrow> steps nothing_posted (handle_posting_failure v e r h)"
  unfolding handle_posting_failure_def
  by (intro unposted.steps_rules unposted_find unposted.steps_modify unposted_counters
      unposted.steps_pause) (simp add: unposted.R_refl)

lemma unposted_pause: "isolated v \<Longrightarrow> steps nothing_posted (pause (lv_others v k))"
  by (rule unposted.steps_pause) (simp add: unposted.R_refl)

lemma unwinds_attempts: "isolated v \<Longrightarrow> unwinds nothing_posted (post_attempts v c h fl n)"
proof (induction n)
  case 0
  show ?case unfolding post_attempts.simps by (intro unwinds_steps unposted.steps_throw)
next
  case (Suc n)
  have "unwinds nothing_posted (if lv_aborts v (3 - n) then throw (DbError P2034)
      else transaction (posting_commits (lv_transaction_id v (3 - n)))
             (posting_body v (lv_transaction_id v (3 - n)) c h fl))"
    by (auto intro: unwinds_steps unposted.steps_throw unposted.unwinds_transaction)
  then show ?case
    unfolding post_attempts.simps
    using Suc
    by (intro unposted.unwinds_bnd unposted_pause unposted.unwinds_catch unposted.unwinds_last)
      (auto intro: unwinds_steps unposted.steps_throw)
qed

lemma unwinds_post_resolved: "isolated v \<Longrightarrow> unwinds nothing_posted (post_resolved v c h fl)"
  unfolding post_resolved_def
  by (auto intro: unwinds_attempts unwinds_steps unposted.steps_throw split: option.split)

lemma unwinds_post_new: "isolated v \<Longrightarrow> unwinds nothing_posted (post_new v c h fl)"
  unfolding post_new_def Let_def
  by (intro unposted.unwinds_bnd unposted.steps_gets unposted.steps_ensure)
    (auto intro!: unposted.unwinds_bnd unposted_clearing_entries unwinds_post_resolved
      intro: unwinds_steps unposted.steps_throw split: sum.split)

text \<open>
  Atomicity: a posting command that fails, at whatever point, leaves the journal and every
  existing balance exactly as they were; at most new clearing accounts with a zero balance remain.
\<close>

theorem failed_post_changes_nothing:
  assumes "isolated v" and "post v c fl s = (Inl e, t)"
  shows "transactions t = transactions s \<and> entries t = entries s \<and>
    prefix (balances s) (balances t) \<and>
    (\<exists>new. accounts t = accounts s @ new \<and> list_all (\<lambda>a. la_type a = FX_CLEARING) new)"
proof -
  have "unwinds nothing_posted (catch (post_new v c h fl) (\<lambda>e. handle_posting_failure v e r h))" for r h
    using assms(1)
    by (intro unposted.unwinds_catch unwinds_post_new unwinds_steps unposted_failure)
  then have "unwinds nothing_posted (post v c fl)"
    unfolding post_def Let_def using assms(1)
    by (intro unposted.unwinds_bnd unposted.steps_ensure unposted_find)
      (auto intro!: unposted.unwinds_bnd unposted_pause
        intro: unwinds_steps [OF unposted.steps_ret] split: option.split)
  then have "nothing_posted s t" using assms(2) by (rule unwindsD)
  then show ?thesis unfolding nothing_posted_def prefix_def by blast
qed

definition demo_overdraft :: create_posting_dto where
  "demo_overdraft = demo_payment ''7.0''\<lparr>cp_reference := ''p2''\<rparr>"

lemma demo_overdraft_refused:
  "post (demo_env ''t3'') demo_overdraft False demo_paid =
     (Inl insufficient_funds, demo_paid\<lparr>failed := 1\<rparr>)"
  by (simp add: ledger_eval demo_overdraft_def)

theorem failed_post_changes_nothing_witness:
  "fst (post (demo_env ''t3'') demo_overdraft False demo_paid) = Inl insufficient_funds \<and>
   entries (snd (post (demo_env ''t3'') demo_overdraft False demo_paid)) = entries demo_paid"
  using failed_post_changes_nothing [OF demo_env_isolated demo_overdraft_refused] demo_overdraft_refused
  by simp

section \<open>Retries\<close>

lemma failures_mono: "failures m Q \<Longrightarrow> (\<And>e. Q e \<Longrightarrow> P e) \<Longrightarrow> failures m P"
  unfolding failures_def by blast

lemma failures_transaction: "Q (DbError DbCheck) \<Longrightarrow> failures m Q \<Longrightarrow> failures (transaction c m) Q"
  by (auto simp: failures_def transaction_def split: prod.splits sum.splits if_splits)

lemma failures_each: "(\<And>x. failures (f x) Q) \<Longrightarrow> failures (each f xs) Q"
  by (induction xs) (auto intro!: failures_rules)

lemma failures_posting_body:
  "failures (posting_body v i c h fl) (\<lambda>e. \<not> is_serialization_failure e)"
  unfolding posting_body_def Let_def
  by (intro failures_rules failures_each)
    (auto simp: failures_def create_transaction_def create_entry_def update_balance_def
      split: option.splits if_splits)

text \<open>One attempt, with no other request interfering: the transaction, and its counter.\<close>

definition posting_attempt ::
  "ledger_env \<Rightarrow> nat \<Rightarrow> resolved_posting \<Rightarrow> string \<Rightarrow> bool \<Rightarrow> (ledger_state, posting_response) act" where
  "posting_attempt v k c h fl =
     bnd (transaction (posting_commits (lv_transaction_id v k)) (posting_body v (lv_transaction_id v k) c h fl))
       (\<lambda>result. bnd (modify record_success) (\<lambda>_. ret result))"

lemma posting_attempt_failure: "posting_attempt v k c h fl s = (Inl e, t) \<Longrightarrow> t = s \<and> \<not> is_serialization_failure e"
proof -
  assume "posting_attempt v k c h fl s = (Inl e, t)"
  then have "transaction (posting_commits (lv_transaction_id v k))
      (posting_body v (lv_transaction_id v k) c h fl) s = (Inl e, t)"
    by (auto simp: posting_attempt_def bnd_result_Inl)
  then show ?thesis
    using failuresD [OF failures_transaction [OF _ failures_posting_body]] transaction_Inl by fastforce
qed

lemma post_attempts_step:
  assumes "isolated v"
  shows "post_attempts v c h fl (Suc n) s =
    (if lv_aborts v (3 - n)
     then (if 3 - n < 3 then post_attempts v c h fl n s else (Inl (DbError P2034), s))
     else posting_attempt v (3 - n) c h fl s)"
proof -
  let ?m = "posting_attempt v (3 - n) c h fl"
  have "catch ?m g s = ?m s" if "\<And>e. \<not> is_serialization_failure e \<Longrightarrow> g e s = (Inl e, s)" for g
    using that posting_attempt_failure [of v "3 - n" c h fl s] by (auto simp: catch_def split: prod.split sum.split)
  then have "catch ?m (\<lambda>e. if is_serialization_failure e \<and> 3 - n < 3 then post_attempts v c h fl n
      else throw e) s = ?m s" by simp
  then show ?thesis
    using assms by (simp add: posting_attempt_def catch_def)
qed

text \<open>
  C7. Retries: a posting is attempted at most three times. The first attempt that the engine does not
  abort decides the result; when it aborts all three, the posting fails with the serialization
  failure and the state is unchanged. The loop never runs past its last attempt.
\<close>

theorem posting_attempted_at_most_three_times:
  assumes "isolated v" and "validate_resolved (lv_decimal v) c = None"
  shows "post_resolved v c h fl s =
    (if \<not> lv_aborts v 1 then posting_attempt v 1 c h fl s
     else if \<not> lv_aborts v 2 then posting_attempt v 2 c h fl s
     else if \<not> lv_aborts v 3 then posting_attempt v 3 c h fl s
     else (Inl (DbError P2034), s))"
  using assms
  by (simp add: post_resolved_def numeral_3_eq_3 post_attempts_step del: post_attempts.simps)
    (simp add: numeral_2_eq_2)

theorem posting_attempted_at_most_three_times_witness:
  "post_resolved ((demo_env ''t3'')\<lparr>lv_aborts := (\<lambda>n. True)\<rparr>)
     (reversal_posting (usd_transaction ''t2'' ''p1'' ''q2'' ''4.00000000'' TRANSFER 4 None)
       [usd_entry ''t2'' ''a1'' 1 DEBIT 4, usd_entry ''t2'' ''a2'' 2 CREDIT 4] demo_reversal)
     ''-'' False demo_paid = (Inl (DbError P2034), demo_paid)"
  by (subst posting_attempted_at_most_three_times)
    (simp_all add: isolated_def ledger_eval)

section \<open>Reversals\<close>

lemma reverse_shape:
  assumes "isolated v"
  shows "reverse_posting v i c s =
     (case find_transaction i s of
        None \<Rightarrow> (Inl posting_not_found, s)
      | Some original \<Rightarrow>
          if lt_type original = REVERSAL then (Inl reversal_of_reversal, s)
          else replay_or v (rp_reference c) (lv_digest v (reversal_json (lt_id original) c))
            (bnd (ensure (\<not> key_taken lt_reverses (Some (lt_id original)) (transactions s))
                    posting_already_reversed)
              (\<lambda>_. catch (post_resolved v
                        (reversal_posting original (ordered_entries (lt_id original) s) c)
                        (lv_digest v (reversal_json (lt_id original) c)) False)
                (\<lambda>e. handle_posting_failure v e (rp_reference c)
                        (lv_digest v (reversal_json (lt_id original) c))))) s)"
  using assms by (simp add: reverse_posting_def replay_or_def Let_def split: option.split)

text \<open>
  A posting is reversed at most once: in every reachable state two reversals of the same
  original are the same transaction, and asking for another reversal of it under a new reference is
  refused with \<open>POSTING_ALREADY_REVERSED\<close>.
\<close>

theorem reversed_at_most_once:
  assumes "ledger_run D empty_ledger s" and "a \<in> set (transactions s)" and "lt_reverses a = Some i"
    and "find_transaction i s = Some t" and "lt_type t \<noteq> REVERSAL"
    and "find_by_reference (rp_reference c) s = None" and "isolated v"
  shows "(\<forall>b\<in>set (transactions s). lt_reverses b = Some i \<longrightarrow> b = a) \<and>
    reverse_posting v i c s = (Inl posting_already_reversed, s)"
proof
  have J: "journal_ok s" using run_inv [OF assms(1)] by (simp add: ledger_inv_def)
  then have "b = a" if "b \<in> set (transactions s)" "lt_reverses b = Some i" for b
    using that assms(2,3) unfolding journal_ok_def
    by (intro unique_someD [of lt_reverses "transactions s" b a i lt_id]) simp_all
  then show "\<forall>b\<in>set (transactions s). lt_reverses b = Some i \<longrightarrow> b = a" by blast
  have "lt_id t = i"
    using assms(4) find_Some_in unfolding find_transaction_def by fast
  moreover have "key_taken lt_reverses (Some i) (transactions s)"
    using assms(2,3) by (force simp: key_taken_def)
  ultimately show "reverse_posting v i c s = (Inl posting_already_reversed, s)"
    using assms(4-7) by (simp add: reverse_shape replay_or_cases)
qed

theorem reversed_at_most_once_witness:
  "reverse_posting (demo_env ''t4'') ''t2'' (demo_reversal\<lparr>rp_reference := ''r2''\<rparr>) demo_reversed =
     (Inl posting_already_reversed, demo_reversed)"
proof -
  note at = reversed_at_most_once [OF demo_runs(3),
    of "usd_transaction ''t3'' ''r1'' ''q3'' ''-'' REVERSAL 4 (Some ''t2'')" "''t2''"
       "usd_transaction ''t2'' ''p1'' ''q2'' ''4.00000000'' TRANSFER 4 None"
       "demo_reversal\<lparr>rp_reference := ''r2''\<rparr>" "demo_env ''t4''"]
  show ?thesis
    by (rule conjunct2 [OF at])
      (simp_all add: demo_states find_transaction_def find_by_reference_def demo_commands)
qed

lemma posting_attempt_posted:
  assumes "posting_attempt v k c h fl s = (Inr x, t)" and "ledger_inv s"
  obtains row es u where "posting_effect v (lv_transaction_id v k) c h s row es u"
    and "t = record_success u" and "x = response_of (lv_decimal v) u row" and "\<not> fl"
proof -
  have dist: "distinct (map wb_account (balances s))"
    using assms(2) by (simp add: ledger_inv_def accounts_ok_def)
  from assms(1) obtain u where
    tr: "transaction (posting_commits (lv_transaction_id v k))
      (posting_body v (lv_transaction_id v k) c h fl) s = (Inr x, u)" and t: "t = record_success u"
    by (auto simp: posting_attempt_def bnd_result_Inr)
  from posted [OF tr dist] obtain row es where "posting_effect v (lv_transaction_id v k) c h s row es u"
    and "x = response_of (lv_decimal v) u row" and "\<not> fl" by blast
  then show thesis using that t by blast
qed

lemma post_resolved_posted:
  assumes "isolated v" and "post_resolved v c h fl s = (Inr x, t)" and "ledger_inv s"
  obtains k row es u where "validate_resolved (lv_decimal v) c = None"
    and "posting_effect v (lv_transaction_id v k) c h s row es u"
    and "t = record_success u" and "x = response_of (lv_decimal v) u row"
proof -
  have valid: "validate_resolved (lv_decimal v) c = None"
    using assms(2) by (simp add: post_resolved_def split: option.splits)
  have "post_resolved v c h fl s = (Inr x, t) \<Longrightarrow> \<exists>k. posting_attempt v k c h fl s = (Inr x, t)"
    using assms(1) valid
    by (simp add: post_resolved_def numeral_3_eq_3 post_attempts_step del: post_attempts.simps
        split: if_splits) blast+
  then obtain k where k: "posting_attempt v k c h fl s = (Inr x, t)" using assms(2) by blast
  show thesis
    by (rule posting_attempt_posted [OF k assms(3)]) (rule that [OF valid])
qed

text \<open>The entries that a posting added are the ones of its transaction.\<close>

lemma effect_entries:
  assumes "posting_effect v i c h s row es u" and "ledger_inv s"
  shows "entries_of i (entries u) = es" and "lt_id row = i"
proof -
  note eff = posting_effectD [OF assms(1)]
  show i: "lt_id row = i"
    using stored_transaction_fields(1) [OF eff(5)] by (simp add: transaction_row_def)
  then have "i \<notin> lt_id ` set (transactions s)"
    using eff(7) by (simp add: transaction_conflict_def key_taken_def)
  moreover have "\<forall>e\<in>set (entries s). le_transaction e \<in> lt_id ` set (transactions s)"
    using assms(2) by (simp add: ledger_inv_def journal_ok_def)
  ultimately have "entries_of i (entries s) = []"
    by (intro entries_of_other) (metis)
  moreover have "entries_of i es = es"
    using stored_rows_transaction [OF eff(9)] by (intro entries_of_same) simp
  ultimately show "entries_of i (entries u) = es" by (simp add: eff(14))
qed

lemma journal_balance_mset:
  assumes "mset xs = mset ys"
  shows "journal_balance a xs = journal_balance a ys"
proof -
  have "journal_balance a zs =
      sum_mset (image_mset (signed_amount (la_normal a)) (filter_mset (\<lambda>e. le_account e = la_id a) (mset zs)))"
    for zs by (simp add: journal_balance_def flip: sum_mset_sum_list mset_map mset_filter)
  then show ?thesis using assms by simp
qed

lemma journal_balance_opposite:
  assumes "map (\<lambda>r. (le_account r, le_direction r, le_amount r)) rows =
    map (\<lambda>e. (le_account e, opposite (le_direction e), le_amount e)) es"
  shows "journal_balance a rows = - journal_balance a es"
  unfolding journal_balance_map [of a rows] assms
proof (induction es)
  case Nil
  then show ?case by (simp add: journal_balance_def)
next
  case (Cons e es)
  have "opposite (le_direction e) = la_normal a \<longleftrightarrow> le_direction e \<noteq> la_normal a"
    by (cases "le_direction e"; cases "la_normal a") simp_all
  then show ?case using Cons by (simp add: journal_balance_def signed_amount_def)
qed

lemma handle_failure_fresh:
  assumes "isolated v" and "find_by_reference r s = None"
  shows "\<exists>f t. handle_posting_failure v e r h s = (Inl f, t)"
  using assms by (auto simp: handle_posting_failure_def find_idempotent_def bnd_def)

text \<open>
  C6. A reversal undoes its original: when \<open>reverse\<close> answers a fresh command for a posted transaction,
  the journal has a new transaction that names the original, and on every account the entries of
  the two cancel, whichever its normal side.
\<close>

theorem reversal_cancels_original:
  assumes "ledger_run D empty_ledger s" and "lv_decimal v = D" and "isolated v"
    and "reverse_posting v i c s = (Inr x, t)" and "find_by_reference (rp_reference c) s = None"
  shows "\<exists>q\<in>set (transactions t). lt_reference q = rp_reference c \<and> lt_reverses q = Some i \<and>
    (\<forall>a. journal_balance a (entries_of (lt_id q) (entries t)) +
          journal_balance a (entries_of i (entries t)) = 0)"
proof -
  have inv: "ledger_inv s" using assms(1) by (rule run_inv)
  let ?h = "\<lambda>p. lv_digest v (reversal_json (lt_id p) c)"
  obtain p where p: "find_transaction i s = Some p" and
    tried: "catch (post_resolved v (reversal_posting p (ordered_entries (lt_id p) s) c) (?h p) False)
      (\<lambda>e. handle_posting_failure v e (rp_reference c) (?h p)) s = (Inr x, t)"
    using assms(3-5) by (auto simp: reverse_shape replay_or_cases split: option.splits if_splits)
  have i: "lt_id p = i" "i \<in> lt_id ` set (transactions s)"
    using p find_Some_in unfolding find_transaction_def by fast+
  let ?c = "reversal_posting p (ordered_entries i s) c"
  have "post_resolved v ?c (?h p) False s = (Inr x, t)"
  proof (cases "post_resolved v ?c (?h p) False s")
    case (Pair r u)
    show ?thesis
    proof (cases r)
      case (Inl e)
      then have "nothing_posted s u"
        using unwindsD [OF unwinds_post_resolved [OF assms(3)]] Pair by blast
      then have "find_by_reference (rp_reference c) u = None"
        using assms(5) by (simp add: nothing_posted_def find_by_reference_def)
      then show ?thesis
        using tried Pair Inl i handle_failure_fresh [OF assms(3), of "rp_reference c" u e "?h p"]
        by (auto simp: catch_def)
    qed (use tried Pair i in \<open>simp add: catch_def\<close>)
  qed
  then obtain k row es u where "validate_resolved (lv_decimal v) ?c = None"
    and eff: "posting_effect v (lv_transaction_id v k) ?c (?h p) s row es u"
    and t: "t = record_success u" and "x = response_of (lv_decimal v) u row"
    by (rule post_resolved_posted [OF assms(3) _ inv])
  note new = effect_entries [OF eff inv] and old = posting_extends [OF eff]
  note eff = posting_effectD [OF eff]
  have row: "lt_reference row = rp_reference c" "lt_reverses row = Some i"
    using stored_transaction_fields [OF eff(5)] i(1) by (simp_all add: transaction_row_def reversal_posting_def)
  have places: "has_places 8 (le_amount e)" if "e \<in> set (ordered_entries i s)" for e
    using that inv by (auto simp: ordered_entries_def entries_of_def ledger_inv_def journal_ok_def)
  have "map (\<lambda>r. (le_account r, le_direction r, le_amount r)) es =
      map (\<lambda>e. (re_account e, re_direction e, re_amount e)) (rs_entries ?c)"
    using places
    by (intro stored_rows_map [OF eff(9) [unfolded entry_rows_def]])
      (auto simp: reversal_posting_def reversal_entry_def)
  then have "journal_balance a es = - journal_balance a (ordered_entries i s)" for a
    by (intro journal_balance_opposite) (simp add: reversal_posting_def reversal_entry_def)
  moreover have "journal_balance a (ordered_entries i s) = journal_balance a (entries_of i (entries s))" for a
    by (rule journal_balance_mset) (simp add: ordered_entries_def)
  ultimately have "journal_balance a es = - journal_balance a (entries_of i (entries s))" for a
    by simp
  moreover have "entries_of i (entries u) = entries_of i (entries s)"
    using old i(2) unfolding journal_extends_def by blast
  ultimately have "journal_balance a (entries_of (lt_id row) (entries t)) +
      journal_balance a (entries_of i (entries t)) = 0" for a
    using new by (simp add: t record_success_def)
  moreover have "row \<in> set (transactions t)" by (simp add: t record_success_def eff(14))
  ultimately show ?thesis using row by blast
qed

theorem reversal_cancels_original_witness:
  "\<exists>q\<in>set (transactions demo_reversed). lt_reference q = ''r1'' \<and> lt_reverses q = Some ''t2'' \<and>
    (\<forall>a. journal_balance a (entries_of (lt_id q) (entries demo_reversed)) +
          journal_balance a (entries_of ''t2'' (entries demo_reversed)) = 0)"
proof -
  have "\<exists>x. reverse_posting (demo_env ''t3'') ''t2'' demo_reversal demo_paid = (Inr x, demo_reversed)"
    by (simp add: ledger_eval)
  then obtain x where x: "reverse_posting (demo_env ''t3'') ''t2'' demo_reversal demo_paid = (Inr x, demo_reversed)"
    by blast
  have ref: "rp_reference demo_reversal = ''r1''" by (simp add: demo_reversal_def)
  have "find_by_reference ''r1'' demo_paid = None" by (simp add: ledger_eval)
  then show ?thesis
    using reversal_cancels_original [OF demo_runs(2) demo_env_decimal demo_env_isolated x] by (simp add: ref)
qed

end
