(* ===== verification/LedgerProperties.thy ===== *)
theory LedgerProperties
  imports LedgerDemo
begin

text \<open>
  The properties of the Ledger service: what holds of its books in every reachable state, and what
  each operation does on its branches. The lemmas that precede a property belong to it.
\<close>

section \<open>The books\<close>

lemma side_total_Cons:
  "side_total d cur (e # es) =
     (if le_direction e = d \<and> le_currency e = cur then le_amount e else 0) + side_total d cur es"
  by (simp add: side_total_def)

lemma side_total_by_transaction:
  assumes "finite I" and "\<And>e. e \<in> set es \<Longrightarrow> le_transaction e \<in> I"
  shows "side_total d cur es = (\<Sum>i\<in>I. side_total d cur (entries_of i es))"
  using assms(2)
proof (induction es)
  case Nil
  then show ?case by (simp add: side_total_def entries_of_def)
next
  case (Cons e es)
  let ?x = "if le_direction e = d \<and> le_currency e = cur then le_amount e else 0"
  have "side_total d cur (entries_of i (e # es)) =
      (if i = le_transaction e then ?x else 0) + side_total d cur (entries_of i es)" for i
    by (simp add: entries_of_def side_total_Cons)
  then show ?case
    using Cons assms(1) by (simp add: side_total_Cons sum.distrib)
qed

lemma balanced_sides:
  assumes "balanced_entries es"
  shows "side_total DEBIT cur es = side_total CREDIT cur es"
proof (cases "cur \<in> set (map le_currency es)")
  case True
  then show ?thesis using assms by (auto simp: balanced_entries_def list_all_iff)
next
  case False
  then have "filter (\<lambda>e. le_direction e = d \<and> le_currency e = cur) es = []" for d
    by (auto simp: filter_empty_conv)
  then show ?thesis by (simp add: side_total_def)
qed

text \<open>
  C1. Double entry: in every state the Ledger reaches by serving requests, with any other requests
  running at their \<open>await\<close>s, every posted transaction has at least two entries with equal debits and
  credits in each currency, and so have all entries of the journal together.
\<close>

theorem journal_always_balanced:
  assumes "ledger_run D empty_ledger s"
  shows "(\<forall>t\<in>set (transactions s). balanced_entries (entries_of (lt_id t) (entries s))) \<and>
    side_total DEBIT cur (entries s) = side_total CREDIT cur (entries s)"
proof -
  have J: "journal_ok s" using run_inv [OF assms] by (simp add: ledger_inv_def)
  let ?I = "lt_id ` set (transactions s)"
  have all: "side_total d cur (entries s) = (\<Sum>i\<in>?I. side_total d cur (entries_of i (entries s)))" for d
    using J by (intro side_total_by_transaction) (auto simp: journal_ok_def)
  have bal: "balanced_entries (entries_of i (entries s))" if "i \<in> ?I" for i
    using J that by (auto simp: journal_ok_def)
  then have "side_total DEBIT cur (entries_of i (entries s)) =
      side_total CREDIT cur (entries_of i (entries s))" if "i \<in> ?I" for i
    using that by (intro balanced_sides)
  then show ?thesis
    using bal by (simp add: all cong: sum.cong)
qed

theorem journal_always_balanced_witness:
  "length (transactions demo_reversed) = 3 \<and>
   side_total DEBIT ''USD'' (entries demo_reversed) = side_total CREDIT ''USD'' (entries demo_reversed)"
  using journal_always_balanced [OF demo_runs(3), of "''USD''"] by (simp add: demo_states)

text \<open>
  The journal is append-only: between any two states of a run, accounts, transactions and
  entries are extended at the end, never changed or removed, and a posted transaction never gains
  an entry.
\<close>

theorem journal_append_only:
  assumes "ledger_run D empty_ledger s" and "ledger_run D s t"
  shows "prefix (accounts s) (accounts t) \<and> prefix (transactions s) (transactions t) \<and>
    prefix (entries s) (entries t) \<and>
    (\<forall>r\<in>set (transactions s). entries_of (lt_id r) (entries t) = entries_of (lt_id r) (entries s))"
proof -
  have "journal_extends s t"
    using run_inv [OF assms(1)] run_books [OF assms(2)] by (simp add: books_def)
  then show ?thesis by (simp add: journal_extends_def)
qed

theorem journal_append_only_witness:
  "prefix (entries demo_paid) (entries demo_reversed) \<and> entries demo_paid \<noteq> entries demo_reversed"
  using journal_append_only [OF demo_runs(2,4)] by (simp add: demo_reversed_def)

text \<open>
  C2. No customer is overdrawn: in every reachable state the balance of every customer account is
  at least zero, however many postings compete for it.
\<close>

theorem customers_never_overdrawn:
  assumes "ledger_run D empty_ledger s" and "decimal_lib_ok D"
    and "a \<in> set (accounts s)" and "la_type a = CUSTOMER" and "find_balance (la_id a) s = Some b"
  shows "0 \<le> wb_available b"
proof -
  have "funds_ok s"
    using run_books [OF assms(1)] assms(2) by (simp add: books_def)
  moreover have "b \<in> set (balances s) \<and> wb_account b = la_id a"
    using assms(5) unfolding find_balance_def by (rule find_Some_in)
  ultimately show ?thesis using assms(3,4) unfolding funds_ok_def by blast
qed

theorem customers_never_overdrawn_witness:
  "0 \<le> wb_available (usd_balance ''a1'' 6 2)"
proof (rule customers_never_overdrawn [OF demo_runs(2) exact_decimal_ok])
  show "usd_account ''a1'' ''w1'' \<in> set (accounts demo_paid)"
    by (simp add: demo_states)
  show "la_type (usd_account ''a1'' ''w1'') = CUSTOMER"
    by (simp add: usd_account_def)
  show "find_balance (la_id (usd_account ''a1'' ''w1'')) demo_paid = Some (usd_balance ''a1'' 6 2)"
    by (simp add: demo_states find_balance_def demo_commands)
qed

text \<open>
  C3. Balances are exact projections: as long as less than \<open>10 ^ 12\<close> has been posted in all, every
  stored balance is the sum of the account's entries, those on its normal side counted positive.
\<close>

theorem balances_project_journal:
  assumes "ledger_run D empty_ledger s" and "decimal_lib_ok D"
    and "sum_list (map le_amount (entries s)) < 10 ^ 12"
    and "a \<in> set (accounts s)" and "find_balance (la_id a) s = Some b"
  shows "wb_available b = journal_balance a (entries s)"
proof -
  have "projection_ok s"
    using run_books [OF assms(1)] assms(2,3) by (simp add: books_def volume_def money_bound_def)
  moreover have "b \<in> set (balances s) \<and> wb_account b = la_id a"
    using assms(5) unfolding find_balance_def by (rule find_Some_in)
  ultimately show ?thesis using assms(4) unfolding projection_ok_def by blast
qed

theorem balances_project_journal_witness:
  "wb_available (usd_balance ''a2'' 4 1) = journal_balance (usd_account ''a2'' ''w2'') (entries demo_paid)"
proof (rule balances_project_journal [OF demo_runs(2) exact_decimal_ok])
  show "sum_list (map le_amount (entries demo_paid)) < 10 ^ 12"
    by (simp add: demo_states)
  show "usd_account ''a2'' ''w2'' \<in> set (accounts demo_paid)"
    by (simp add: demo_states)
  show "find_balance (la_id (usd_account ''a2'' ''w2'')) demo_paid = Some (usd_balance ''a2'' 4 1)"
    by (simp add: demo_states find_balance_def demo_commands)
qed

text \<open>
  The scheduled invariant check never reports drift: in every reachable state \<open>verify\<close> finds no
  transaction without entries and none whose debits and credits differ in a currency.
\<close>

theorem verify_reports_no_drift:
  assumes "ledger_run D empty_ledger s"
  shows "fst (verify now s) = Inr (0, now) \<and> invariant_gauge (snd (verify now s)) = 0"
proof -
  have "violations_of s t = []" if "t \<in> set (transactions s)" for t
  proof -
    have bal: "balanced_entries (entries_of (lt_id t) (entries s))"
      using run_inv [OF assms] that by (simp add: ledger_inv_def journal_ok_def)
    then have "entries_of (lt_id t) (entries s) \<noteq> []"
      by (auto simp: balanced_entries_def)
    then show ?thesis
      using balanced_sides [OF bal] by (simp add: violations_of_def Let_def)
  qed
  then have "concat (map (violations_of s) (transactions s)) = []"
    by (simp add: concat_eq_Nil_conv)
  then show ?thesis
    by (simp add: verify_def violation_rows_def set_invariant_violations_def)
qed

theorem verify_reports_no_drift_witness:
  "fst (verify 1000 demo_reversed) = Inr (0, 1000)"
  using verify_reports_no_drift [OF demo_runs(3)] by simp

end
