(* ===== verification/LedgerCommands.thy ===== *)
theory LedgerCommands
  imports LedgerOperations
begin

text \<open>
  What an accepted command does to the balances its sender named, the agreement of the service's
  own validation with the trigger of the database, and the remaining operations: provisioning,
  controlled funding, and the hash by which commands are compared.
\<close>

section \<open>Money movement\<close>

lemma clearing_account_result:
  assumes "isolated v" and "ensure_clearing_account v cur s = (Inr a, t)"
  shows "a \<in> set (accounts t) \<and> la_type a = FX_CLEARING \<and> prefix (accounts s) (accounts t)"
  using assms
  by (auto simp: ensure_clearing_account_def catch_def create_account_def find_clearing_def bnd_def
      dest: find_Some_in split: option.splits if_splits)

lemma clearing_entries_result:
  assumes "isolated v" and "clearing_entries v c s = (Inr cl, t)"
  shows "prefix (accounts s) (accounts t)"
    and "r \<in> set cl \<Longrightarrow> \<exists>a\<in>set (accounts t). la_type a = FX_CLEARING \<and> la_id a = re_account r"
proof -
  have "prefix (accounts s) (accounts t) \<and>
    (\<forall>r\<in>set cl. \<exists>a\<in>set (accounts t). la_type a = FX_CLEARING \<and> la_id a = re_account r)"
  proof (cases "cp_type c = FX_TRANSFER_DTO")
    case False
    then show ?thesis using assms(2) by (simp add: clearing_entries_def)
  next
    case True
    obtain r1 u1 where m1: "ensure_clearing_account v (cp_source_currency c) s = (r1, u1)" by fastforce
    obtain r2 u2 where m2: "ensure_clearing_account v (cp_target_currency c) u1 = (r2, u2)" by fastforce
    obtain a1 a2 where r: "r1 = Inr a1" "r2 = Inr a2" "t = u2"
      "cl = [clearing_entry v c a1 CREDIT (cp_source_amount c) (cp_source_currency c),
             clearing_entry v c a2 DEBIT (cp_target_amount c) (cp_target_currency c)]"
      using assms(2) True m1 m2
      by (auto simp: clearing_entries_def bnd_result_Inr both_def split: sum.splits)
    note one = clearing_account_result [OF assms(1) m1 [unfolded r]]
    note two = clearing_account_result [OF assms(1) m2 [unfolded r]]
    have "a1 \<in> set (accounts t)"
      using one two r(3) set_mono_prefix by blast
    then show ?thesis
      using one two r prefix_order.trans by (auto simp: clearing_entry_def)
  qed
  then show "prefix (accounts s) (accounts t)"
    and "r \<in> set cl \<Longrightarrow> \<exists>a\<in>set (accounts t). la_type a = FX_CLEARING \<and> la_id a = re_account r"
    by blast+
qed

lemma post_fresh:
  assumes "isolated v" and "post v c fl s = (Inr x, t)" and "find_by_reference (cp_reference c) s = None"
  shows "post_new v c (posting_hash v c) fl s = (Inr x, t)"
proof (cases "post_new v c (posting_hash v c) fl s")
  case (Pair r u)
  have tried: "catch (post_new v c (posting_hash v c) fl)
      (\<lambda>e. handle_posting_failure v e (cp_reference c) (posting_hash v c)) s = (Inr x, t)"
    using assms by (simp add: post_shape replay_or_cases split: if_splits)
  show ?thesis
  proof (cases r)
    case (Inl e)
    then have "nothing_posted s u"
      using unwindsD [OF unwinds_post_new [OF assms(1)]] Pair by blast
    then have "find_by_reference (cp_reference c) u = None"
      using assms(3) by (simp add: nothing_posted_def find_by_reference_def)
    then show ?thesis
      using tried Pair Inl handle_failure_fresh [OF assms(1), of "cp_reference c" u e "posting_hash v c"]
      by (auto simp: catch_def)
  qed (use tried Pair in \<open>simp add: catch_def\<close>)
qed

lemma post_new_Inr:
  assumes "post_new v c h fl s = (Inr x, t)"
  obtains rows es cl u where
    "rows = filter (\<lambda>a. la_wallet a \<in> Some ` set (map pe_wallet (cp_entries c))) (accounts s)"
    "map_result (customer_entry v c rows) (cp_entries c) = Inr es"
    "clearing_entries v c s = (Inr cl, u)"
    "post_resolved v (resolve_posting v c (es @ cl)) h fl u = (Inr x, t)"
proof -
  let ?rows = "filter (\<lambda>a. la_wallet a \<in> Some ` set (map pe_wallet (cp_entries c))) (accounts s)"
  have m: "(case map_result (customer_entry v c ?rows) (cp_entries c) of
      Inl e \<Rightarrow> throw e
    | Inr es \<Rightarrow> bnd (clearing_entries v c) (\<lambda>clearing.
        post_resolved v (resolve_posting v c (es @ clearing)) h fl)) s = (Inr x, t)"
    using assms by (simp add: post_new_def Let_def split: if_splits)
  show thesis
  proof (cases "map_result (customer_entry v c ?rows) (cp_entries c)")
    case (Inl e)
    then show ?thesis using m by simp
  next
    case (Inr es)
    then obtain cl u where "clearing_entries v c s = (Inr cl, u)"
      and "post_resolved v (resolve_posting v c (es @ cl)) h fl u = (Inr x, t)"
      using m by (auto simp: bnd_result_Inr)
    with Inr show ?thesis by (rule that [OF refl])
  qed
qed

text \<open>What a command adds to the account of a wallet whose normal side is \<open>normal\<close>.\<close>

definition command_change :: "decimal_lib \<Rightarrow> uuid \<Rightarrow> side \<Rightarrow> posting_entry_dto list \<Rightarrow> rat" where
  "command_change D w normal es =
     sum_list (map (\<lambda>e. if pe_direction e = normal then dl_of D (pe_amount e) else - dl_of D (pe_amount e))
       (filter (\<lambda>e. pe_wallet e = w) es))"

lemma customer_entries_change:
  assumes "list_all2 (\<lambda>e r. customer_entry v c rows e = Inr r) ces es"
    and "\<And>b. b \<in> set rows \<Longrightarrow> la_id b = la_id a \<longleftrightarrow> la_wallet b = la_wallet a"
    and "la_wallet a = Some w"
  shows "sum_list (map (\<lambda>(k, d, x). if d = n then x else - x)
      (filter (\<lambda>(k, d, x). k = la_id a) (map (\<lambda>e. (re_account e, re_direction e, re_amount e)) es))) =
    command_change (lv_decimal v) w n ces"
  using assms(1)
proof (induction rule: list_all2_induct)
  case Nil
  then show ?case by (simp add: command_change_def)
next
  case (Cons e ces r es)
  note r = customer_entry_Inr [OF Cons.hyps(1)]
  from r(4) obtain b where "b \<in> set rows" "la_wallet b = Some (pe_wallet e)" "la_id b = re_account r"
    by blast
  then have "re_account r = la_id a \<longleftrightarrow> pe_wallet e = w"
    using assms(2) [of b] assms(3) by auto
  then show ?case using Cons.IH r(1,3) by (simp add: command_change_def)
qed

text \<open>
  C4. An accepted posting moves the money it names: when the Ledger answers a fresh command, the balance of
  every wallet changes by the sum of the command's entries for that wallet, credits and debits signed by the
  account's normal side. This is the effect of the one request, so nothing is written by others at its awaits
  (\<open>isolated v\<close>); and less than \<open>10 ^ 12\<close> has been posted in all when it is done, the range in which the sums of the
  decimal library are exact (it keeps 20 significant digits, while the columns hold larger amounts).
\<close>

theorem post_moves_exactly_its_entries:
  assumes "ledger_run D empty_ledger s" and "decimal_lib_ok D" and "lv_decimal v = D" and "isolated v"
    and "post_route h v c s = (Inr x, t)" and "find_by_reference (cp_reference c) s = None"
    and "volume (entries t) < money_bound"
    and "a \<in> set (accounts s)" and "la_wallet a = Some w"
    and "find_balance (la_id a) s = Some b" and "find_balance (la_id a) t = Some b'"
  shows "wb_available b' = wb_available b + command_change D w (la_normal a) (cp_entries c)"
proof -
  have inv: "ledger_inv s" using assms(1) by (rule run_inv)
  note route = post_route_Inr [OF assms(5)]
  have run: "ledger_run D s t"
  proof -
    have "serve h v (PostRequest c) s = t" using assms(5) by simp
    then show ?thesis using run_isolated [OF assms(3,4) run_idle] by metis
  qed
  then have ext: "journal_extends s t" and inv_t: "ledger_inv t"
    using run_books [OF run] inv by (simp_all add: books_def)
  have "volume (entries s) < money_bound"
    using volume_mono [OF ext inv_t] assms(7) by simp
  then have proj: "projection_ok s"
    using run_books [OF assms(1)] assms(2) by (simp add: books_def)
  then have proj_t: "projection_ok t"
    using run_books [OF run] inv assms(2,7) by (simp add: books_def)
  have b: "b \<in> set (balances s)" "wb_account b = la_id a"
    and b': "b' \<in> set (balances t)" "wb_account b' = la_id a"
    using assms(10,11) find_Some_in unfolding find_balance_def by fast+
  have "a \<in> set (accounts t)"
    using ext assms(8) set_mono_prefix unfolding journal_extends_def by blast
  then have change: "wb_available b' - wb_available b = journal_balance a (entries t) - journal_balance a (entries s)"
    using proj proj_t b b' assms(8) by (simp add: projection_ok_def)
  from post_new_Inr [OF post_fresh [OF assms(4) route(2) assms(6)]] obtain rows es cl u where
    rows: "rows = filter (\<lambda>a. la_wallet a \<in> Some ` set (map pe_wallet (cp_entries c))) (accounts s)" and
    es: "map_result (customer_entry v c rows) (cp_entries c) = Inr es" and
    cl: "clearing_entries v c s = (Inr cl, u)" and
    post: "post_resolved v (resolve_posting v c (es @ cl)) (posting_hash v c) False u = (Inr x, t)" .
  have "books D s u"
    using stepsD_eq [OF books.steps_clearing_entries [OF isolated_tame [OF assms(4)]] cl] assms(3) by simp
  then have inv_u: "ledger_inv u" using inv by (simp add: books_def)
  have u: "entries u = entries s" "set (accounts s) \<subseteq> set (accounts u)"
    using stepsD_eq [OF unposted_clearing_entries [OF assms(4)] cl]
      clearing_entries_result(1) [OF assms(4) cl] set_mono_prefix
    by (auto simp: nothing_posted_def)
  let ?c = "resolve_posting v c (es @ cl)"
  obtain k row new u' where eff: "posting_effect v (lv_transaction_id v k) ?c (posting_hash v c) u row new u'"
    and t: "t = record_success u'"
    using post_resolved_posted [OF assms(4) post inv_u] by metis
  note eff = posting_effectD [OF eff]
  have exact: "posting_exact ?c"
    using resolved_exact [OF _ route(1) es cl] assms(2,3) by simp
  have new: "map (\<lambda>r. (le_account r, le_direction r, le_amount r)) new =
      map (\<lambda>e. (re_account e, re_direction e, re_amount e)) (es @ cl)"
    using exact
    by (intro trans [OF stored_rows_map [OF eff(9) [unfolded entry_rows_def]]])
      (auto simp: posting_exact_def resolve_posting_def list_all_iff)
  have A: "accounts_ok u" using inv_u by (simp add: ledger_inv_def)
  then have ids: "distinct (map la_id (accounts u))" by (simp add: accounts_ok_def)
  have a_u: "a \<in> set (accounts u)" using assms(8) u(2) by blast
  then have customer: "la_type a = CUSTOMER"
    using A assms(9) by (auto simp: accounts_ok_def account_check_def list_all_iff)
  have "re_account r \<noteq> la_id a" if r_in: "r \<in> set cl" for r
  proof
    assume r: "re_account r = la_id a"
    obtain q where q: "q \<in> set (accounts u)" "la_type q = FX_CLEARING" "la_id q = la_id a"
      using clearing_entries_result(2) [OF assms(4) cl r_in] r by auto
    then have "q = a"
      using distinct_key [OF ids] a_u by blast
    then show False using q(2) customer by simp
  qed
  then have "filter (\<lambda>(k, d, x). k = la_id a) (map (\<lambda>e. (re_account e, re_direction e, re_amount e)) cl) = []"
    by (auto simp: filter_empty_conv)
  moreover have "la_id q = la_id a \<longleftrightarrow> la_wallet q = la_wallet a" if "q \<in> set rows" for q
  proof -
    have q: "q \<in> set (accounts u)" using that u(2) by (auto simp: rows)
    have "unique_some la_wallet (accounts u)"
      using A by (simp add: accounts_ok_def)
    then have "la_wallet q = la_wallet a \<Longrightarrow> q = a"
      using unique_someD [of la_wallet "accounts u" q a w la_id] q a_u assms(9) ids by simp
    then show ?thesis using distinct_key [OF ids q a_u] by blast
  qed
  ultimately have "journal_balance a new = command_change D w (la_normal a) (cp_entries c)"
    using customer_entries_change [OF map_result_Inr [OF es] _ assms(9), of "la_normal a"] assms(3)
    by (simp add: journal_balance_map new)
  then show ?thesis
    using change by (simp add: t record_success_def eff(14) u(1))
qed

theorem post_moves_exactly_its_entries_witness:
  "wb_available (usd_balance ''a2'' 4 1) = wb_available (usd_balance ''a2'' 0 0) +
     command_change exact_decimal ''w2'' CREDIT (cp_entries (demo_payment ''4.0'')) \<and>
   command_change exact_decimal ''w2'' CREDIT (cp_entries (demo_payment ''4.0'')) = 4"
proof
  have post: "post_route demo_http (demo_env ''t2'') (demo_payment ''4.0'') demo_funded = (Inr demo_receipt, demo_paid)"
    using demo_dtos demo_post by (simp add: demo_routes post_route_def)
  have fresh: "find_by_reference (cp_reference (demo_payment ''4.0'')) demo_funded = None"
    by (simp add: ledger_eval)
  have small: "volume (entries demo_paid) < money_bound"
    by (simp add: volume_def money_bound_def demo_states)
  have a: "usd_account ''a2'' ''w2'' \<in> set (accounts demo_funded)"
    and w: "la_wallet (usd_account ''a2'' ''w2'') = Some ''w2''"
    and b: "find_balance (la_id (usd_account ''a2'' ''w2'')) demo_funded = Some (usd_balance ''a2'' 0 0)"
    and b': "find_balance (la_id (usd_account ''a2'' ''w2'')) demo_paid = Some (usd_balance ''a2'' 4 1)"
    by (simp_all add: demo_states find_balance_def demo_commands)
  have n: "la_normal (usd_account ''a2'' ''w2'') = CREDIT" by (simp add: usd_account_def)
  show "wb_available (usd_balance ''a2'' 4 1) = wb_available (usd_balance ''a2'' 0 0) +
     command_change exact_decimal ''w2'' CREDIT (cp_entries (demo_payment ''4.0''))"
    using post_moves_exactly_its_entries
      [OF demo_runs(1) exact_decimal_ok demo_env_decimal demo_env_isolated post fresh small a w b b']
    unfolding n .
  show "command_change exact_decimal ''w2'' CREDIT (cp_entries (demo_payment ''4.0'')) = 4"
    by (simp add: command_change_def demo_commands)
qed

section \<open>Validation and the commit trigger\<close>

definition resolved_side :: "side \<Rightarrow> string \<Rightarrow> resolved_entry list \<Rightarrow> rat" where
  "resolved_side d k es =
     sum_list (map re_amount (filter (\<lambda>e. re_direction e = d \<and> re_currency e = k) es))"

definition total_of :: "totals \<Rightarrow> string \<Rightarrow> side \<Rightarrow> rat" where
  "total_of ts k d = (case map_of ts k of None \<Rightarrow> 0 | Some (x, y) \<Rightarrow> if d = DEBIT then x else y)"

lemma map_of_replace:
  "map_of (map (\<lambda>(k, q). if k = c then (k, p) else (k, q)) ts) k =
     (if k = c then map_option (\<lambda>_. p) (map_of ts k) else map_of ts k)"
  by (induction ts) auto

lemma total_of_add:
  "total_of (add_total D ts e) k d =
     (if k = re_currency e \<and> d = re_direction e then dl_plus D (total_of ts k d) (re_amount e)
      else total_of ts k d)"
  by (cases "re_direction e"; cases d)
    (auto simp: add_total_def total_of_def Let_def map_of_replace map_add_def split: option.split prod.split)

lemma keys_replace: "fst ` set (map (\<lambda>(k, q). if k = c then (k, p) else (k, q)) ts) = fst ` set ts"
  by (induction ts) auto

lemma keys_add_total:
  "fst ` set (add_total D ts e) = insert (re_currency e) (fst ` set ts)"
proof (cases "map_of ts (re_currency e)")
  case None
  then show ?thesis by (simp add: add_total_def Let_def)
next
  case (Some p)
  then have "re_currency e \<in> fst ` set ts" by (metis domI dom_map_of_conv_image_fst)
  moreover let ?q = "if re_direction e = DEBIT then (dl_plus D (fst p) (re_amount e), snd p)
      else (fst p, dl_plus D (snd p) (re_amount e))"
  have "add_total D ts e = map (\<lambda>(k, r). if k = re_currency e then (k, ?q) else (k, r)) ts"
    using Some by (cases p) (auto simp: add_total_def)
  ultimately show ?thesis by (simp only: keys_replace insert_absorb)
qed

lemma entry_totals_exact:
  assumes "decimal_lib_ok D" and "entry_totals D ts es = Inr ts'"
    and "\<And>e. e \<in> set es \<Longrightarrow> has_places 8 (re_amount e)"
    and "\<And>k d. has_places 8 (total_of ts k d) \<and> 0 \<le> total_of ts k d \<and>
      total_of ts k d + sum_list (map re_amount es) < money_bound"
  shows "total_of ts' k d = total_of ts k d + resolved_side d k es" and
    "fst ` set ts' = fst ` set ts \<union> re_currency ` set es"
  using assms(2-)
proof (induction es arbitrary: ts)
  case Nil
  {
    case 1
    then show ?case by (simp add: resolved_side_def)
  next
    case 2
    then show ?case by simp
  }
next
  case (Cons e es)
  {
    fix ts
    assume run: "entry_totals D ts (e # es) = Inr ts'"
      and places: "\<And>e'. e' \<in> set (e # es) \<Longrightarrow> has_places 8 (re_amount e')"
      and bound: "\<And>k d. has_places 8 (total_of ts k d) \<and> 0 \<le> total_of ts k d \<and>
        total_of ts k d + sum_list (map re_amount (e # es)) < money_bound"
    have pos: "0 \<le> re_amount e" and rest: "entry_totals D (add_total D ts e) es = Inr ts'"
      using run assms(1) by (auto simp: decimal_lib_okD(1) split: if_splits)
    have nonneg: "0 \<le> sum_list (map re_amount es)"
    proof -
      have "entry_totals D us es = Inr ts' \<Longrightarrow> \<forall>e\<in>set es. 0 \<le> re_amount e" for us
        by (induction es arbitrary: us) (auto simp: decimal_lib_okD(1) [OF assms(1)] split: if_splits)
      then show ?thesis using rest by (intro sum_list_nonneg) auto
    qed
    have "dl_plus D (total_of ts k d) (re_amount e) = total_of ts k d + re_amount e" for k d
      using bound [of k d] places [of e] pos nonneg
      by (intro decimal_lib_okD(3) [OF assms(1)]) auto
    then have add: "total_of (add_total D ts e) k d =
        total_of ts k d + (if k = re_currency e \<and> d = re_direction e then re_amount e else 0)" for k d
      by (simp add: total_of_add)
    have next_bound: "has_places 8 (total_of (add_total D ts e) k d) \<and> 0 \<le> total_of (add_total D ts e) k d \<and>
        total_of (add_total D ts e) k d + sum_list (map re_amount es) < money_bound" for k d
      using bound [of k d] pos places [of e] by (auto simp: add intro: has_places_add)
    note IH = Cons.IH [OF rest _ next_bound]
    have "total_of ts' k d = total_of ts k d + resolved_side d k (e # es)"
      using IH(1) places by (simp add: add resolved_side_def)
    moreover have "fst ` set ts' = fst ` set ts \<union> re_currency ` set (e # es)"
      using IH(2) places by (auto simp: keys_add_total)
    ultimately have "total_of ts' k d = total_of ts k d + resolved_side d k (e # es)"
      "fst ` set ts' = fst ` set ts \<union> re_currency ` set (e # es)" .
  }
  note step = this
  {
    case 1
    then show ?case by (rule step)
  next
    case 2
    then show ?case by (rule step)
  }
qed

lemma rows_side_total:
  assumes "list_all2 (\<lambda>e r. stored_entry e = Some r) (entry_rows i es) rows"
    and "\<And>e. e \<in> set es \<Longrightarrow> has_places 8 (re_amount e)"
  shows "side_total d k rows = resolved_side d k es" and "le_currency ` set rows = re_currency ` set es"
proof -
  let ?f = "\<lambda>r. (le_account r, le_direction r, le_amount r, le_currency r)"
  let ?g = "\<lambda>e. (re_account e, re_direction e, re_amount e, re_currency e)"
  have same: "map ?f rows = map ?g es"
    using assms unfolding entry_rows_def by (rule stored_rows_fields)
  have "side_total d k rows = sum_list (map (\<lambda>(a, b, x, c). x) (filter (\<lambda>(a, b, x, c). b = d \<and> c = k) (map ?f rows)))"
    by (induction rows) (auto simp: side_total_def)
  also have "\<dots> = resolved_side d k es"
    unfolding same by (induction es) (auto simp: resolved_side_def)
  finally show "side_total d k rows = resolved_side d k es" .
  have "map le_currency rows = map re_currency es"
    using arg_cong [OF same, where f = "map (\<lambda>(a, b, x, c). c)"] by (simp add: comp_def)
  then show "le_currency ` set rows = re_currency ` set es" by (metis list.set_map)
qed

text \<open>
  The service's validation implies the database's: a resolved posting of at least two entries
  that \<open>validateResolved\<close> accepts always satisfies the balanced-posting trigger at commit (amounts of
  eight decimals, less than \<open>10 ^ 12\<close> in all).
\<close>

theorem validated_postings_pass_commit_trigger:
  assumes "decimal_lib_ok D" and "validate_resolved D c = None" and "posting_exact c"
    and "2 \<le> length (rs_entries c)" and "sum_list (map re_amount (rs_entries c)) < money_bound"
    and "list_all2 (\<lambda>e r. stored_entry e = Some r) (entry_rows i (rs_entries c)) rows"
  shows "balanced_entries rows"
proof -
  have places: "has_places 8 (re_amount e)" if "e \<in> set (rs_entries c)" for e
    using assms(3) that by (simp add: posting_exact_def list_all_iff)
  obtain ts where ts: "entry_totals D [] (rs_entries c) = Inr ts" and
    equal: "\<not> list_ex (\<lambda>(k, d, cr). d \<noteq> cr) ts"
    using assms(2) by (auto simp: validate_resolved_def split: if_splits sum.splits)
  have start: "has_places 8 (total_of [] k d) \<and> 0 \<le> total_of [] k d \<and>
      total_of [] k d + sum_list (map re_amount (rs_entries c)) < money_bound" for k d
    using assms(5) by (simp add: total_of_def)
  note totals = entry_totals_exact [OF assms(1) ts places start]
  have "resolved_side DEBIT k (rs_entries c) = resolved_side CREDIT k (rs_entries c)" for k
  proof -
    have "total_of ts k DEBIT = total_of ts k CREDIT"
      using equal by (auto simp: total_of_def list_ex_iff split: option.split dest: map_of_SomeD)
    then show ?thesis using totals(1) [of k] by (simp add: total_of_def)
  qed
  moreover have "length rows = length (rs_entries c)"
    using list_all2_lengthD [OF assms(6)] by (simp add: entry_rows_def)
  ultimately show ?thesis
    using assms(4) rows_side_total(1) [OF assms(6) places] by (simp add: balanced_entries_def list_all_iff)
qed

theorem validated_postings_pass_commit_trigger_witness:
  "balanced_entries [usd_entry ''t3'' ''a1'' 1 CREDIT 4, usd_entry ''t3'' ''a2'' 2 DEBIT 4]"
proof (rule validated_postings_pass_commit_trigger [OF exact_decimal_ok])
  let ?c = "reversal_posting (usd_transaction ''t2'' ''p1'' ''q2'' ''4.00000000'' TRANSFER 4 None)
       [usd_entry ''t2'' ''a1'' 1 DEBIT 4, usd_entry ''t2'' ''a2'' 2 CREDIT 4] demo_reversal"
  show "validate_resolved exact_decimal ?c = None" "posting_exact ?c" "2 \<le> length (rs_entries ?c)"
    "sum_list (map re_amount (rs_entries ?c)) < money_bound"
    "list_all2 (\<lambda>e r. stored_entry e = Some r) (entry_rows ''t3'' (rs_entries ?c))
      [usd_entry ''t3'' ''a1'' 1 CREDIT 4, usd_entry ''t3'' ''a2'' 2 DEBIT 4]"
    by (simp_all add: ledger_eval posting_exact_def money_bound_def)
qed

section \<open>Accounts, funding, hashes\<close>

lemma to_balance_new:
  assumes "create_account a s = (Inr r, t)" and "la_wallet a = Some w" and "w \<noteq> []"
    and "distinct (map wb_account (balances t))"
  shows "to_balance D t a = Inr \<lparr>br_wallet = w, br_account = la_id a, br_available = dl_fixed D 8 0,
    br_currency = la_currency a, br_version = 0\<rparr>"
proof -
  have t: "t = s\<lparr>accounts := accounts s @ [a], balances := balances s @
      [\<lparr>wb_account = la_id a, wb_currency = la_currency a, wb_available = 0, wb_version = 0\<rparr>]\<rparr>"
    using assms(1) by (simp add: create_account_Inr)
  have "find_balance (la_id a) t =
      Some \<lparr>wb_account = la_id a, wb_currency = la_currency a, wb_available = 0, wb_version = 0\<rparr>"
    unfolding find_balance_def using assms(4) by (rule find_key_unique) (simp_all add: t)
  then show ?thesis using assms(2,3) by (simp add: to_balance_def)
qed

lemma wallet_account_unique:
  assumes "ledger_inv s" and "a \<in> set (accounts s)" and "la_wallet a = Some w"
  shows "wallet_account w s = Some a"
proof -
  have ids: "distinct (map la_id (accounts s))" and "unique_some la_wallet (accounts s)"
    using assms(1) by (simp_all add: ledger_inv_def accounts_ok_def)
  moreover have "wallet_account w s \<noteq> None"
    using assms(2,3) by (auto simp: wallet_account_def find_None_iff_all)
  then obtain b where b: "wallet_account w s = Some b" by blast
  then have "b \<in> set (accounts s)" "la_wallet b = Some w"
    unfolding wallet_account_def by (auto dest: find_Some_in)
  ultimately have "b = a"
    using assms(2,3) by (intro unique_someD [of la_wallet "accounts s" b a w la_id])
  with b show ?thesis by simp
qed

lemma account_has_balance:
  assumes "ledger_inv s" and "a \<in> set (accounts s)" and "la_wallet a = Some w" and "w \<noteq> []"
  shows "\<exists>b. to_balance D s a = Inr b \<and> br_wallet b = w \<and> br_account b = la_id a \<and>
    br_currency b = la_currency a"
proof -
  have "set (map wb_account (balances s)) = set (map la_id (accounts s))"
    using assms(1) by (simp only: ledger_inv_def accounts_ok_def)
  then have "la_id a \<in> wb_account ` set (balances s)"
    using assms(2) by simp
  then have "find_balance (la_id a) s \<noteq> None"
    by (auto simp: find_balance_def find_None_iff_all)
  then show ?thesis using assms(3,4) by (auto simp: to_balance_def)
qed

definition new_customer :: "uuid \<Rightarrow> uuid \<Rightarrow> string \<Rightarrow> ledger_account" where
  "new_customer i wallet cur = \<lparr>la_id = i, la_wallet = Some wallet, la_type = CUSTOMER,
     la_currency = cur, la_normal = CREDIT, la_status = ACTIVE\<rparr>"

lemma provision_new:
  assumes "ledger_inv s" and "isolated v" and "wallet \<noteq> []" and "is_currency cur"
    and "wallet_account wallet s = None" and "i \<notin> la_id ` set (accounts s)"
  shows "\<exists>t. provision v i wallet cur s = (Inr \<lparr>br_wallet = wallet, br_account = i,
      br_available = dl_fixed (lv_decimal v) 8 0, br_currency = cur, br_version = 0\<rparr>, t) \<and>
    ledger_inv t \<and> new_customer i wallet cur \<in> set (accounts t)"
proof -
  let ?a = "new_customer i wallet cur"
  have "Some wallet \<notin> la_wallet ` set (accounts s)"
    using assms(5) by (auto simp: wallet_account_def find_None_iff_all)
  then obtain t where t: "create_account ?a s = (Inr ?a, t)" and a: "?a \<in> set (accounts t)"
    using assms(4,6)
    by (auto simp: create_account_def account_check_def account_conflict_def key_taken_def
        new_customer_def internal_key_def)
  have inv: "ledger_inv t" using t assms(1) by (rule create_account_inv)
  then have "distinct (map wb_account (balances t))" by (simp add: ledger_inv_def accounts_ok_def)
  with t have "to_balance (lv_decimal v) t ?a = Inr \<lparr>br_wallet = wallet, br_account = i,
      br_available = dl_fixed (lv_decimal v) 8 0, br_currency = cur, br_version = 0\<rparr>"
    using to_balance_new [OF t _ assms(3)] by (simp add: new_customer_def)
  then have "provision v i wallet cur s = (Inr \<lparr>br_wallet = wallet, br_account = i,
      br_available = dl_fixed (lv_decimal v) 8 0, br_currency = cur, br_version = 0\<rparr>, t)"
    using t assms(2,5) by (simp add: provision_def new_customer_def catch_def bnd_def lift_result_def)
  then show ?thesis using inv a by blast
qed

text \<open>
  Provisioning is idempotent: the first call for a wallet opens a customer account with a zero
  balance, and every later call for the same wallet and currency, at any moment, returns the
  balance of that same account and creates nothing; another currency is refused.
\<close>

theorem provision_is_idempotent:
  assumes "ledger_run D empty_ledger s" and "lv_decimal v = D" and "isolated v" and "wallet \<noteq> []"
    and "is_currency cur" and "wallet_account wallet s = None" and "i \<notin> la_id ` set (accounts s)"
    and "ledger_run D (snd (provision v i wallet cur s)) u"
  shows "fst (provision v i wallet cur s) = Inr \<lparr>br_wallet = wallet, br_account = i,
      br_available = dl_fixed D 8 0, br_currency = cur, br_version = 0\<rparr> \<and>
    (\<exists>b. provision w j wallet cur u = (Inr b, u) \<and> br_wallet b = wallet \<and> br_account b = i) \<and>
    (cur' = cur \<or> provision w j wallet cur' u = (Inl ledger_account_mismatch, u))"
proof -
  let ?a = "new_customer i wallet cur"
  obtain t where t: "provision v i wallet cur s = (Inr \<lparr>br_wallet = wallet, br_account = i,
      br_available = dl_fixed D 8 0, br_currency = cur, br_version = 0\<rparr>, t)"
    and inv: "ledger_inv t" and a: "?a \<in> set (accounts t)"
    using provision_new [OF run_inv [OF assms(1)] assms(3-7)] assms(2) by blast
  have ext: "journal_extends t u" and inv_u: "ledger_inv u"
    using run_books [OF assms(8)] inv by (simp_all add: t books_def)
  have a_u: "?a \<in> set (accounts u)"
    using ext a set_mono_prefix unfolding journal_extends_def by blast
  have found: "wallet_account wallet u = Some ?a"
    using inv_u a_u by (rule wallet_account_unique) (simp add: new_customer_def)
  obtain b where "to_balance (lv_decimal w) u ?a = Inr b" "br_wallet b = wallet" "br_account b = i"
    using account_has_balance [OF inv_u a_u _ assms(4), of "lv_decimal w"] by (auto simp: new_customer_def)
  then have "\<exists>b. provision w j wallet cur u = (Inr b, u) \<and> br_wallet b = wallet \<and> br_account b = i"
    using found by (simp add: provision_def lift_result_def new_customer_def)
  moreover have "cur' = cur \<or> provision w j wallet cur' u = (Inl ledger_account_mismatch, u)"
    using found by (simp add: provision_def new_customer_def)
  ultimately show ?thesis by (simp add: t)
qed

theorem provision_is_idempotent_witness:
  "fst (provision (demo_env ''x'') ''a9'' ''w9'' ''EUR'' demo_paid) = Inr \<lparr>br_wallet = ''w9'',
     br_account = ''a9'', br_available = ''0.00000000'', br_currency = ''EUR'', br_version = 0\<rparr>"
proof -
  have w: "wallet_account ''w9'' demo_paid = None" "''a9'' \<notin> la_id ` set (accounts demo_paid)"
    "is_currency ''EUR''"
    by (simp_all add: ledger_eval)
  show ?thesis
    using provision_is_idempotent [OF demo_runs(2) demo_env_decimal demo_env_isolated _ w(3) w(1,2) run_idle]
    by simp
qed

text \<open>
  Controlled funding is off in production: with \<open>NODE_ENV\<close> set to \<open>production\<close>, or without
  \<open>ENABLE_TEST_FUNDING=true\<close>, \<open>fund\<close> creates no money and no account, whatever the command.
\<close>

theorem funding_disabled_in_production:
  assumes "lv_node_env v = Some ''production'' \<or> lv_test_funding v \<noteq> Some ''true''"
  shows "fund v c s = (Inl test_funding_disabled, s)"
  using assms by (auto simp: fund_def)

theorem funding_disabled_in_production_witness:
  "fund ((demo_env ''t9'')\<lparr>lv_node_env := Some ''production''\<rparr>) demo_funding demo_accounts =
     (Inl test_funding_disabled, demo_accounts)"
  by (rule funding_disabled_in_production) simp

lemma normalize_entries_permuted:
  assumes "mset (map (\<lambda>e. e\<lparr>pe_amount := money (lv_decimal v) (pe_amount e)\<rparr>) es') =
      mset (map (\<lambda>e. e\<lparr>pe_amount := money (lv_decimal v) (pe_amount e)\<rparr>) es)"
    and "inj_on (\<lambda>e. lv_collate v (entry_sort_key e)) (set (normalize_entries v es))"
  shows "normalize_entries v es' = normalize_entries v es"
  unfolding normalize_entries_def [of v es']
proof (rule sort_key_inj_key_eq)
  show "mset (map (\<lambda>e. e\<lparr>pe_amount := money (lv_decimal v) (pe_amount e)\<rparr>) es') = mset (normalize_entries v es)"
    using assms(1) by (simp add: normalize_entries_def)
  show "sorted (map (\<lambda>e. lv_collate v (entry_sort_key e)) (normalize_entries v es))"
    by (simp add: normalize_entries_def)
  have "set (map (\<lambda>e. e\<lparr>pe_amount := money (lv_decimal v) (pe_amount e)\<rparr>) es') = set (normalize_entries v es)"
    using mset_eq_setD [OF assms(1)] by (simp add: normalize_entries_def)
  then show "inj_on (\<lambda>e. lv_collate v (entry_sort_key e))
      (set (map (\<lambda>e. e\<lparr>pe_amount := money (lv_decimal v) (pe_amount e)\<rparr>) es'))"
    using assms(2) by metis
qed

text \<open>
  The command hash is canonical in the order of entries and the spelling of amounts: two commands
  that differ only in these, and whose entries have distinct sort keys, have the same hash, so
  that one is a replay of the other.
\<close>

theorem hash_ignores_order_and_spelling:
  assumes "c' = c\<lparr>cp_source_amount := sa, cp_target_amount := ta, cp_entries := es, cp_request := q\<rparr>"
    and "dl_of (lv_decimal v) sa = dl_of (lv_decimal v) (cp_source_amount c)"
    and "dl_of (lv_decimal v) ta = dl_of (lv_decimal v) (cp_target_amount c)"
    and "mset (map (\<lambda>e. e\<lparr>pe_amount := money (lv_decimal v) (pe_amount e)\<rparr>) es) =
      mset (map (\<lambda>e. e\<lparr>pe_amount := money (lv_decimal v) (pe_amount e)\<rparr>) (cp_entries c))"
    and "inj_on (\<lambda>e. lv_collate v (entry_sort_key e)) (set (normalize_entries v (cp_entries c)))"
  shows "posting_hash v c' = posting_hash v c"
  using normalize_entries_permuted [OF assms(4,5)] assms(2,3)
  by (simp add: assms(1) posting_hash_def normalize_command_def money_def)

theorem hash_ignores_order_and_spelling_witness:
  "posting_hash (demo_env ''x'') ((demo_payment ''4.0'')\<lparr>cp_source_amount := ''4.00'', cp_target_amount := ''4.00'',
     cp_entries := [demo_entry ''w2'' CREDIT ''4.00'', demo_entry ''w1'' DEBIT ''4.00''], cp_request := ''q9''\<rparr>) =
   posting_hash (demo_env ''x'') (demo_payment ''4.0'')"
proof (rule hash_ignores_order_and_spelling [OF refl])
  have "decimal_value ''4.00'' = 4" by (simp add: decimal_eval)
  then show "dl_of (lv_decimal (demo_env ''x'')) ''4.00'' =
      dl_of (lv_decimal (demo_env ''x'')) (cp_source_amount (demo_payment ''4.0''))"
    "dl_of (lv_decimal (demo_env ''x'')) ''4.00'' =
      dl_of (lv_decimal (demo_env ''x'')) (cp_target_amount (demo_payment ''4.0''))"
    "mset (map (\<lambda>e. e\<lparr>pe_amount := money (lv_decimal (demo_env ''x'')) (pe_amount e)\<rparr>)
        [demo_entry ''w2'' CREDIT ''4.00'', demo_entry ''w1'' DEBIT ''4.00'']) =
      mset (map (\<lambda>e. e\<lparr>pe_amount := money (lv_decimal (demo_env ''x'')) (pe_amount e)\<rparr>)
        (cp_entries (demo_payment ''4.0'')))"
    by (simp_all add: demo_payment_def demo_entry_def money_def)
  show "inj_on (\<lambda>e. lv_collate (demo_env ''x'') (entry_sort_key e))
      (set (normalize_entries (demo_env ''x'') (cp_entries (demo_payment ''4.0''))))"
    by (simp add: ledger_eval)
qed

text \<open>
  The spread \<open>{...entry}\<close> keeps the order in which the request spelled an entry's properties, and
  \<open>JSON.stringify\<close> prints it: the same command with reordered properties has another normal form.
\<close>

theorem normal_form_depends_on_property_order:
  "normalize_command (demo_env ''x'') ((demo_payment ''4.0'')\<lparr>cp_entries :=
     map (\<lambda>e. e\<lparr>pe_keys := rev (pe_keys e)\<rparr>) (cp_entries (demo_payment ''4.0''))\<rparr>) \<noteq>
   normalize_command (demo_env ''x'') (demo_payment ''4.0'')"
  by (simp add: ledger_eval)

text \<open>
  A zero amount is an internal error: \<open>isPositive()\<close> holds of zero, so a command over \<open>0.0\<close> passes
  the DTO and \<open>validateResolved\<close> and is stopped by the table's \<open>CHECK\<close> constraint only; the caller gets a
  500 instead of \<open>INVALID_POSTING_AMOUNT\<close> (422). Nothing is posted.
\<close>

theorem zero_amount_is_an_internal_error:
  "posting_dto_ok (\<lambda>t. t \<noteq> []) (demo_payment ''0.0'') \<and>
   post (demo_env ''t2'') (demo_payment ''0.0'') False demo_funded =
     (Inl (DbError DbCheck), demo_funded\<lparr>failed := 1\<rparr>) \<and>
   exception_filter num (DbError DbCheck) =
     \<lparr>he_status = 500, he_code = ''INTERNAL_SERVER_ERROR'', he_message = ''An unexpected error occurred.''\<rparr>"
proof (intro conjI)
  show "posting_dto_ok (\<lambda>t. t \<noteq> []) (demo_payment ''0.0'')"
    by (simp add: posting_dto_ok_def entry_dto_ok_def demo_commands is_currency_def upper_letter_def
        decimal_pattern_def is_digit_def Let_def)
  show "post (demo_env ''t2'') (demo_payment ''0.0'') False demo_funded =
     (Inl (DbError DbCheck), demo_funded\<lparr>failed := 1\<rparr>)"
    by (simp add: ledger_eval)
  show "exception_filter num (DbError DbCheck) =
     \<lparr>he_status = 500, he_code = ''INTERNAL_SERVER_ERROR'', he_message = ''An unexpected error occurred.''\<rparr>"
    by (simp add: exception_filter_def describe_status_def)
qed

end
