(* ===== verification/FxQuotes.thy ===== *)
theory FxQuotes
  imports LedgerAccounts
begin

text \<open>
  The FX service (services/fx-service): \<open>QuoteService\<close> over the table \<open>fx_quotes\<close> with its checks and
  its update guard, the deterministic provider, the DTOs, the principal of a request and the two
  controllers.

  The transactions of this service run at the default isolation level, so that other requests may
  write between a read and the write that follows it: \<open>qv_others\<close> acts there, and what a rolled back
  transaction wrote itself is undone. \<open>qv_now\<close> is \<open>CURRENT_TIMESTAMP\<close>, the start of the transaction.
\<close>

section \<open>The table\<close>

datatype quote_status = QuoteActive | QuoteConsumed | QuoteExpired

record fx_quote =
  fq_id :: uuid
  fq_client :: string
  fq_source_currency :: string
  fq_target_currency :: string
  fq_source_amount :: rat
  fq_target_amount :: rat
  fq_rate :: rat
  fq_provider :: string
  fq_status :: quote_status
  fq_issued :: instant
  fq_expires :: instant
  fq_consumed_at :: "instant option"
  fq_consumed_by :: "uuid option"
  fq_request :: uuid

record fx_state =
  quotes :: "fx_quote list"

definition quote_check :: "fx_quote \<Rightarrow> bool" where
  "quote_check q \<longleftrightarrow>
     is_currency (fq_source_currency q) \<and> is_currency (fq_target_currency q) \<and>
     fq_source_currency q \<noteq> fq_target_currency q \<and>
     0 < fq_source_amount q \<and> 0 < fq_target_amount q \<and> 0 < fq_rate q \<and>
     fq_expires q = fq_issued q + 60000 \<and>
     (fq_status q = QuoteConsumed) = (fq_consumed_at q \<noteq> None \<and> fq_consumed_by q \<noteq> None)"

definition stored_quote :: "fx_quote \<Rightarrow> fx_quote option" where
  "stored_quote q =
     (case (money_column (fq_source_amount q), money_column (fq_target_amount q), rate_column (fq_rate q)) of
        (Some sa, Some ta, Some r) \<Rightarrow>
          Some (q\<lparr>fq_source_amount := sa, fq_target_amount := ta, fq_rate := r\<rparr>)
      | _ \<Rightarrow> None)"

definition create_quote_row :: "fx_quote \<Rightarrow> (fx_state, fx_quote) act" where
  "create_quote_row q s =
     (case stored_quote q of
        None \<Rightarrow> (Inl (DbError DbCheck), s)
      | Some row \<Rightarrow>
          if \<not> quote_check row then (Inl (DbError DbCheck), s)
          else if key_taken fq_id (fq_id row) (quotes s) \<or>
                  (fq_consumed_by row \<noteq> None \<and> key_taken fq_consumed_by (fq_consumed_by row) (quotes s))
          then (Inl (DbError P2002), s)
          else (Inr row, s\<lparr>quotes := quotes s @ [row]\<rparr>))"

text \<open>The status transitions that the trigger \<open>novapay_guard_fx_quote_update\<close> allows.\<close>

inductive quote_step :: "quote_status \<Rightarrow> quote_status \<Rightarrow> bool" where
  step_same: "quote_step a a"
| step_consume: "quote_step QuoteActive QuoteConsumed"
| step_expire: "quote_step QuoteActive QuoteExpired"

code_pred quote_step .

inductive_cases quote_step_closed: "quote_step QuoteConsumed a" "quote_step QuoteExpired a"

inductive_simps quote_step_active: "quote_step QuoteActive a"

lemma quote_step_iff:
  "quote_step a b \<longleftrightarrow> a = b \<or> (a = QuoteActive \<and> b \<in> {QuoteConsumed, QuoteExpired})"
  by (auto intro: quote_step.intros elim: quote_step.cases)

definition same_terms :: "fx_quote \<Rightarrow> fx_quote \<Rightarrow> bool" where
  "same_terms p q \<longleftrightarrow>
     fq_client q = fq_client p \<and> fq_source_currency q = fq_source_currency p \<and>
     fq_target_currency q = fq_target_currency p \<and> fq_source_amount q = fq_source_amount p \<and>
     fq_target_amount q = fq_target_amount p \<and> fq_rate q = fq_rate p \<and>
     fq_provider q = fq_provider p \<and> fq_issued q = fq_issued p \<and> fq_expires q = fq_expires p \<and>
     fq_request q = fq_request p"

definition quote_update_ok :: "fx_quote \<Rightarrow> fx_quote \<Rightarrow> bool" where
  "quote_update_ok p q \<longleftrightarrow>
     same_terms p q \<and> quote_step (fq_status p) (fq_status q)"

text \<open>
  An update of the rows that a condition selects. The trigger and the check refuse the whole
  statement, the unique index on \<open>consumed_by_transfer_id\<close> as well; the count is the result.
\<close>

definition update_quotes :: "(fx_quote \<Rightarrow> bool) \<Rightarrow> (fx_quote \<Rightarrow> fx_quote) \<Rightarrow> (fx_state, nat) act" where
  "update_quotes P f s =
     (let rows = update_where P f (quotes s) in
      if \<not> list_all (\<lambda>q. P q \<longrightarrow> quote_update_ok q (f q) \<and> quote_check (f q)) (quotes s)
      then (Inl (DbError DbCheck), s)
      else if \<not> unique_some fq_consumed_by rows then (Inl (DbError P2002), s)
      else (Inr (count_where P (quotes s)), s\<lparr>quotes := rows\<rparr>))"

definition find_quote :: "uuid \<Rightarrow> fx_state \<Rightarrow> fx_quote option" where
  "find_quote i s = List.find (\<lambda>q. fq_id q = i) (quotes s)"

section \<open>Requests\<close>

record create_quote_dto =
  cq_source_currency :: string
  cq_target_currency :: string
  cq_source_amount :: string

record consume_quote_dto =
  uq_source_currency :: string
  uq_target_currency :: string
  uq_source_amount :: string
  uq_transfer :: uuid
  uq_client :: string

record quote_response =
  qr_id :: uuid
  qr_source_currency :: string
  qr_target_currency :: string
  qr_source_amount :: string
  qr_target_amount :: string
  qr_rate :: string
  qr_status :: quote_status
  qr_issued :: instant
  qr_expires :: instant
  qr_valid :: bool
  qr_remaining :: int

record fx_env =
  qv_decimal :: decimal_lib
  qv_others :: "fx_state \<Rightarrow> fx_state"
  qv_now :: instant
  qv_mode :: "string option"     \<comment> \<open>\<open>FX_PROVIDER_MODE\<close>\<close>
  qv_quote_id :: uuid            \<comment> \<open>the default \<open>uuid()\<close> of a new row\<close>
  qv_reference :: uuid           \<comment> \<open>\<open>randomUUID()\<close> of the provider\<close>
  qv_request_id :: string        \<comment> \<open>the request's identifier\<close>
  qv_fresh_request :: uuid       \<comment> \<open>\<open>randomUUID()\<close> of \<open>requestId\<close>\<close>

definition is_alnum :: "char \<Rightarrow> bool" where
  "is_alnum c \<longleftrightarrow> is_digit c \<or> upper_letter c \<or> (CHR ''a'' \<le> c \<and> c \<le> CHR ''z'')"

text \<open>\<open>^[A-Za-z0-9][A-Za-z0-9._:@-]{0,99}$\<close>.\<close>

definition principal_pattern :: "string \<Rightarrow> bool" where
  "principal_pattern t \<longleftrightarrow>
     t \<noteq> [] \<and> is_alnum (hd t) \<and> length t \<le> 100 \<and>
     list_all (\<lambda>c. is_alnum c \<or> c \<in> set ''._:@-'') (tl t)"

definition is_space :: "char \<Rightarrow> bool" where
  "is_space c \<longleftrightarrow> (let n = (of_char c :: nat) in n = 32 \<or> (9 \<le> n \<and> n \<le> 13) \<or> n = 160)"

definition trim :: "string \<Rightarrow> string" where
  "trim t = rev (dropWhile is_space (rev (dropWhile is_space t)))"

definition bearer_token :: "string option \<Rightarrow> string" where
  "bearer_token header =
     (case header of
        None \<Rightarrow> []
      | Some h \<Rightarrow> if take 7 h = ''Bearer '' then trim (drop 7 h) else [])"

definition invalid_principal :: failure where
  "invalid_principal = http_failure 401 ''INVALID_PRINCIPAL'' ''A valid bearer principal is required.''"

text \<open>\<open>PrincipalService.fromRequest\<close>.\<close>

definition from_request :: "string option \<Rightarrow> failure + string" where
  "from_request header =
     (let token = bearer_token header
      in if principal_pattern token then Inr token else Inl invalid_principal)"

definition is_hex :: "char \<Rightarrow> bool" where
  "is_hex c \<longleftrightarrow> is_digit c \<or> (CHR ''a'' \<le> c \<and> c \<le> CHR ''f'') \<or> (CHR ''A'' \<le> c \<and> c \<le> CHR ''F'')"

text \<open>The pattern of \<open>requestId\<close>: a UUID of version 1 to 5 and of the RFC's variant.\<close>

definition uuid_pattern :: "string \<Rightarrow> bool" where
  "uuid_pattern t \<longleftrightarrow>
     length t = 36 \<and>
     list_all (\<lambda>(i, c).
       if i \<in> {8, 13, 18, 23} then c = CHR ''-''
       else if i = 14 then CHR ''1'' \<le> c \<and> c \<le> CHR ''5''
       else if i = 19 then c \<in> set ''89abAB''
       else is_hex c) (enumerate 0 t)"

definition request_id :: "uuid \<Rightarrow> string \<Rightarrow> uuid" where
  "request_id fresh value = (if uuid_pattern value then value else fresh)"

section \<open>Errors\<close>

definition same_currency_quote :: failure where
  "same_currency_quote =
     http_failure 409 ''SAME_CURRENCY_QUOTE'' ''Source and target currencies must differ.''"

definition fx_provider_unavailable :: failure where
  "fx_provider_unavailable =
     http_failure 503 ''FX_PROVIDER_UNAVAILABLE'' ''The FX provider is temporarily unavailable.''"

definition unsupported_pair :: failure where
  "unsupported_pair =
     http_failure 422 ''UNSUPPORTED_CURRENCY_PAIR'' ''The requested currency pair is not supported.''"

definition quote_not_found :: failure where
  "quote_not_found = http_failure 404 ''QUOTE_NOT_FOUND'' ''FX quote not found.''"

definition quote_access_denied :: failure where
  "quote_access_denied = http_failure 403 ''QUOTE_ACCESS_DENIED'' ''Quote access denied.''"

definition quote_details_mismatch :: failure where
  "quote_details_mismatch =
     http_failure 409 ''QUOTE_DETAILS_MISMATCH'' ''The quote does not match the transfer details.''"

definition quote_already_used :: failure where
  "quote_already_used =
     http_failure 409 ''QUOTE_ALREADY_USED'' ''The quote was already consumed by another transfer.''"

definition quote_expired :: failure where
  "quote_expired = http_failure 409 ''QUOTE_EXPIRED'' ''The FX quote has expired.''"

lemmas quote_failures = same_currency_quote_def fx_provider_unavailable_def unsupported_pair_def
  quote_not_found_def quote_access_denied_def quote_details_mismatch_def quote_already_used_def
  quote_expired_def

section \<open>The provider\<close>

definition provider_rates :: "(string \<times> string) list" where
  "provider_rates =
     [(''USD:EUR'', ''0.920000000000''), (''EUR:USD'', ''1.086956521739''),
      (''USD:GBP'', ''0.790000000000''), (''GBP:USD'', ''1.265822784810''),
      (''USD:PKR'', ''278.500000000000''), (''PKR:USD'', ''0.003590664273'')]"

text \<open>\<open>DeterministicFxProvider.freshRate\<close>: the rate and the provider's reference.\<close>

definition fresh_rate :: "fx_env \<Rightarrow> string \<Rightarrow> string \<Rightarrow> failure + (string \<times> string)" where
  "fresh_rate v src tgt =
     (if qv_mode v = Some ''unavailable'' then Inl fx_provider_unavailable
      else case map_of provider_rates (src @ '':'' @ tgt) of
        None \<Rightarrow> Inl unsupported_pair
      | Some r \<Rightarrow> Inr (r, ''local-'' @ qv_reference v))"

section \<open>The service\<close>

definition quote_response_of :: "decimal_lib \<Rightarrow> fx_quote \<Rightarrow> instant \<Rightarrow> quote_response" where
  "quote_response_of D q now =
     (let valid = fq_status q = QuoteActive \<and> now < fq_expires q
      in \<lparr>qr_id = fq_id q, qr_source_currency = fq_source_currency q,
          qr_target_currency = fq_target_currency q,
          qr_source_amount = dl_fixed D 8 (fq_source_amount q),
          qr_target_amount = dl_fixed D 8 (fq_target_amount q),
          qr_rate = dl_fixed D 12 (fq_rate q), qr_status = fq_status q,
          qr_issued = fq_issued q, qr_expires = fq_expires q, qr_valid = valid,
          qr_remaining =
            (if valid then max 0 (- ((now - fq_expires q) div 1000)) else 0)\<rparr>)"

definition new_quote :: "fx_env \<Rightarrow> string \<Rightarrow> create_quote_dto \<Rightarrow> string \<times> string \<Rightarrow> fx_quote" where
  "new_quote v client c fresh =
     (let amount = dl_of (qv_decimal v) (cq_source_amount c);
          rate = dl_of (qv_decimal v) (fst fresh)
      in \<lparr>fq_id = qv_quote_id v, fq_client = client, fq_source_currency = cq_source_currency c,
          fq_target_currency = cq_target_currency c, fq_source_amount = amount,
          fq_target_amount = dl_places (qv_decimal v) 8 (dl_mul (qv_decimal v) amount rate),
          fq_rate = rate, fq_provider = snd fresh, fq_status = QuoteActive,
          fq_issued = qv_now v, fq_expires = qv_now v + 60000, fq_consumed_at = None,
          fq_consumed_by = None, fq_request = request_id (qv_fresh_request v) (qv_request_id v)\<rparr>)"

definition create_quote :: "fx_env \<Rightarrow> string \<Rightarrow> create_quote_dto \<Rightarrow> (fx_state, quote_response) act" where
  "create_quote v client c =
     bnd (ensure (cq_source_currency c \<noteq> cq_target_currency c) same_currency_quote) (\<lambda>_.
     case fresh_rate v (cq_source_currency c) (cq_target_currency c) of
       Inl e \<Rightarrow> throw e
     | Inr fresh \<Rightarrow>
         bnd (pause (qv_others v)) (\<lambda>_.
         bnd (create_quote_row (new_quote v client c fresh)) (\<lambda>q.
         ret (quote_response_of (qv_decimal v) q (fq_issued q)))))"

text \<open>\<open>fxQuote.update\<close> of one row by its identifier; it returns the row as updated.\<close>

definition expire_quote :: "uuid \<Rightarrow> (fx_state, fx_quote) act" where
  "expire_quote i =
     bnd (update_quotes (\<lambda>q. fq_id q = i) (\<lambda>q. q\<lparr>fq_status := QuoteExpired\<rparr>)) (\<lambda>_.
     bnd (gets (find_quote i)) (\<lambda>found.
     case found of None \<Rightarrow> throw (DbError P2025) | Some q \<Rightarrow> ret q))"

definition get_quote :: "fx_env \<Rightarrow> string \<Rightarrow> uuid \<Rightarrow> (fx_state, quote_response) act" where
  "get_quote v client i =
     bnd (gets (find_quote i)) (\<lambda>found.
     case found of
       None \<Rightarrow> throw quote_not_found
     | Some q \<Rightarrow>
         bnd (ensure (fq_client q = client) quote_access_denied) (\<lambda>_.
         if fq_status q = QuoteActive \<and> fq_expires q \<le> qv_now v
         then bnd (pause (qv_others v)) (\<lambda>_.
              bnd (transaction (\<lambda>_. True) (expire_quote i)) (\<lambda>p.
              ret (quote_response_of (qv_decimal v) p (qv_now v))))
         else ret (quote_response_of (qv_decimal v) q (qv_now v))))"

definition claim_quote :: "fx_env \<Rightarrow> uuid \<Rightarrow> uuid \<Rightarrow> (fx_state, quote_response) act" where
  "claim_quote v i transfer =
     bnd (update_quotes
            (\<lambda>q. fq_id q = i \<and> fq_status q = QuoteActive \<and> qv_now v < fq_expires q \<and> fq_consumed_by q = None)
            (\<lambda>q. q\<lparr>fq_status := QuoteConsumed, fq_consumed_at := Some (qv_now v),
                   fq_consumed_by := Some transfer\<rparr>)) (\<lambda>count.
     bnd (gets (find_quote i)) (\<lambda>found.
     case found of
       None \<Rightarrow> throw (DbError P2025)
     | Some q \<Rightarrow>
         if count \<noteq> 1 \<and> fq_consumed_by q \<noteq> Some transfer then throw quote_already_used
         else ret (quote_response_of (qv_decimal v) q (qv_now v))))"

definition consume_quote :: "fx_env \<Rightarrow> uuid \<Rightarrow> consume_quote_dto \<Rightarrow> (fx_state, quote_response) act" where
  "consume_quote v i c =
     bnd (gets (find_quote i)) (\<lambda>found.
     case found of
       None \<Rightarrow> throw quote_not_found
     | Some q \<Rightarrow>
         bnd (ensure (fq_client q = uq_client c) quote_access_denied) (\<lambda>_.
         bnd (ensure (fq_source_currency q = uq_source_currency c \<and>
                      fq_target_currency q = uq_target_currency c \<and>
                      fq_source_amount q = dl_of (qv_decimal v) (uq_source_amount c))
                quote_details_mismatch) (\<lambda>_.
         if fq_status q = QuoteConsumed
         then if fq_consumed_by q = Some (uq_transfer c)
              then ret (quote_response_of (qv_decimal v) q (qv_now v))
              else throw quote_already_used
         else
           bnd (pause (qv_others v)) (\<lambda>_.
           transaction (\<lambda>_. True)
             (if fq_status q = QuoteExpired \<or> fq_expires q \<le> qv_now v
              then if fq_status q = QuoteActive
                   then bnd (expire_quote i) (\<lambda>_. throw quote_expired)
                   else throw quote_expired
              else claim_quote v i (uq_transfer c))))))"

section \<open>Routes\<close>

definition create_quote_ok :: "create_quote_dto \<Rightarrow> bool" where
  "create_quote_ok c \<longleftrightarrow>
     is_currency (cq_source_currency c) \<and> is_currency (cq_target_currency c) \<and>
     money_pattern (cq_source_amount c)"

definition consume_quote_ok :: "(string \<Rightarrow> bool) \<Rightarrow> consume_quote_dto \<Rightarrow> bool" where
  "consume_quote_ok is_uuid c \<longleftrightarrow>
     is_currency (uq_source_currency c) \<and> is_currency (uq_target_currency c) \<and>
     money_pattern (uq_source_amount c) \<and> is_uuid (uq_transfer c) \<and> principal_pattern (uq_client c)"

definition with_principal :: "string option \<Rightarrow> (string \<Rightarrow> ('s, 'a) act) \<Rightarrow> ('s, 'a) act" where
  "with_principal header f =
     (case from_request header of Inl e \<Rightarrow> throw e | Inr client \<Rightarrow> f client)"

context two_state
begin

lemma steps_principal: "(\<And>x. steps R (f x)) \<Longrightarrow> steps R (with_principal header f)"
  by (auto simp: with_principal_def intro: steps_throw split: sum.split)

end

definition create_quote_route ::
  "fx_env \<Rightarrow> string option \<Rightarrow> create_quote_dto \<Rightarrow> (fx_state, quote_response) act" where
  "create_quote_route v header c =
     validated (create_quote_ok c) (with_principal header (\<lambda>client. create_quote v client c))"

definition get_quote_route ::
  "(string \<Rightarrow> bool) \<Rightarrow> fx_env \<Rightarrow> string option \<Rightarrow> uuid \<Rightarrow> (fx_state, quote_response) act" where
  "get_quote_route is_uuid v header i =
     validated (is_uuid i) (with_principal header (\<lambda>client. get_quote v client i))"

text \<open>The FX service's own \<open>InternalServiceGuard\<close>: absent values are empty.\<close>

definition fx_internal_guard :: "string option \<Rightarrow> string option \<Rightarrow> bool" where
  "fx_internal_guard configured supplied \<longleftrightarrow>
     (let sent = (case supplied of None \<Rightarrow> [] | Some t \<Rightarrow> t);
          expected = (case configured of None \<Rightarrow> [] | Some t \<Rightarrow> t)
      in expected \<noteq> [] \<and> length sent = length expected \<and> sent = expected)"

definition consume_quote_route ::
  "string option \<Rightarrow> string option \<Rightarrow> (string \<Rightarrow> bool) \<Rightarrow> fx_env \<Rightarrow> uuid \<Rightarrow> consume_quote_dto \<Rightarrow>
     (fx_state, quote_response) act" where
  "consume_quote_route configured supplied is_uuid v i c =
     bnd (ensure (fx_internal_guard configured supplied) internal_auth_required) (\<lambda>_.
     validated (is_uuid i \<and> consume_quote_ok is_uuid c) (consume_quote v i c))"

end
