(* ===== verification/FxProofs.thy ===== *)
theory FxProofs
  imports FxQuotes LedgerEffects
begin

text \<open>
  What holds of the quotes over every run of the FX service: identifiers and terms never change,
  a quote's status only moves from active to consumed or to expired, and a consumed quote stays
  consumed by the transfer that won it.
\<close>

section \<open>The relation between two states\<close>

definition later_quote :: "fx_quote \<Rightarrow> fx_quote \<Rightarrow> bool" where
  "later_quote p q \<longleftrightarrow>
     fq_id q = fq_id p \<and> same_terms p q \<and> quote_step (fq_status p) (fq_status q) \<and>
     (fq_status p = QuoteConsumed \<longrightarrow> fq_consumed_by q = fq_consumed_by p \<and> fq_consumed_at q = fq_consumed_at p)"

definition quotes_later :: "fx_state \<Rightarrow> fx_state \<Rightarrow> bool" where
  "quotes_later s t \<longleftrightarrow> (\<exists>rows new. quotes t = rows @ new \<and> list_all2 later_quote (quotes s) rows)"

definition consumer_recorded :: "fx_quote \<Rightarrow> bool" where
  "consumer_recorded q \<longleftrightarrow> fq_consumed_by q = None \<or> fq_status q = QuoteConsumed"

definition fx_inv :: "fx_state \<Rightarrow> bool" where
  "fx_inv s \<longleftrightarrow>
     distinct (map fq_id (quotes s)) \<and> list_all quote_check (quotes s) \<and>
     unique_some fq_consumed_by (quotes s) \<and> list_all consumer_recorded (quotes s)"

definition fx_step :: "fx_state \<Rightarrow> fx_state \<Rightarrow> bool" where
  "fx_step s t \<longleftrightarrow> (fx_inv s \<longrightarrow> fx_inv t \<and> quotes_later s t)"

lemma later_refl [simp]: "later_quote q q"
  by (simp add: later_quote_def same_terms_def quote_step_iff)

lemma later_trans: "later_quote p q \<Longrightarrow> later_quote q r \<Longrightarrow> later_quote p r"
  by (auto simp: later_quote_def same_terms_def quote_step_iff)

lemma quotes_later_refl [simp]: "quotes_later s s"
  unfolding quotes_later_def by (intro exI [of _ "quotes s"] exI [of _ "[]"]) (simp add: list_all2_refl)

lemma quotes_later_trans:
  assumes "quotes_later s t" and "quotes_later t u"
  shows "quotes_later s u"
proof -
  obtain rows new where t: "quotes t = rows @ new" "list_all2 later_quote (quotes s) rows"
    using assms(1) by (auto simp: quotes_later_def)
  obtain rows' more where u: "quotes u = rows' @ more" "list_all2 later_quote (rows @ new) rows'"
    using assms(2) t(1) by (auto simp: quotes_later_def)
  from u(2) obtain a b where ab: "rows' = a @ b" "list_all2 later_quote rows a"
    by (auto simp: list_all2_append1)
  have "list_all2 later_quote (quotes s) a"
    using later_trans t(2) ab(2) by (rule list_all2_trans)
  then show ?thesis using u(1) ab(1) by (auto simp: quotes_later_def)
qed

interpretation fx: two_state fx_step
  by unfold_locales (auto simp: fx_step_def intro: quotes_later_trans)

lemma find_later:
  assumes "quotes_later s t" and "find_quote i s = Some p"
  shows "\<exists>q. find_quote i t = Some q \<and> later_quote p q"
proof -
  obtain rows new where t: "quotes t = rows @ new" "list_all2 later_quote (quotes s) rows"
    using assms(1) by (auto simp: quotes_later_def)
  from t(2) assms(2) have "\<exists>q. List.find (\<lambda>q. fq_id q = i) rows = Some q \<and> later_quote p q"
    unfolding find_quote_def
    by (induction rule: list_all2_induct) (auto simp: later_quote_def split: if_splits)
  then show ?thesis by (auto simp: find_quote_def t(1) find_append)
qed

section \<open>The writes\<close>

lemma create_row_step:
  assumes "fq_consumed_by q = None"
  shows "fx_step s (snd (create_quote_row q s))"
proof (cases "create_quote_row q s")
  case (Pair r t)
  show ?thesis
  proof (cases r)
    case (Inl e)
    then have "t = s" using Pair by (auto simp: create_quote_row_def split: option.splits if_splits)
    then show ?thesis by (simp add: Pair fx.R_refl)
  next
    case (Inr row)
    then have row: "quote_check row" "fq_id row \<notin> set (map fq_id (quotes s))"
        "fq_consumed_by row = None \<or> fq_consumed_by row \<notin> set (map fq_consumed_by (quotes s))"
      and t: "t = s\<lparr>quotes := quotes s @ [row]\<rparr>" and stored: "stored_quote q = Some row"
      using Pair unfolding create_quote_row_def key_taken_def
      by (force split: option.splits if_splits)+
    have "consumer_recorded row"
      using stored assms by (auto simp: stored_quote_def consumer_recorded_def split: option.splits)
    moreover have "quotes_later s t"
      unfolding quotes_later_def
      by (intro exI [of _ "quotes s"] exI [of _ "[row]"]) (simp add: t list_all2_refl)
    ultimately show ?thesis
      using row by (simp add: fx_step_def fx_inv_def unique_some_snoc Pair t)
  qed
qed

lemma update_quotes_step:
  assumes "\<And>q. P q \<Longrightarrow> fq_id (f q) = fq_id q"
    and "\<And>q. P q \<Longrightarrow> fq_status q = QuoteConsumed \<Longrightarrow>
      fq_consumed_by (f q) = fq_consumed_by q \<and> fq_consumed_at (f q) = fq_consumed_at q"
    and "\<And>q. P q \<Longrightarrow> consumer_recorded q \<Longrightarrow> quote_step (fq_status q) (fq_status (f q)) \<Longrightarrow>
      consumer_recorded (f q)"
  shows "fx_step s (snd (update_quotes P f s))"
proof (cases "update_quotes P f s")
  case (Pair r t)
  let ?rows = "update_where P f (quotes s)"
  show ?thesis
  proof (cases r)
    case (Inl e)
    then have "t = s" using Pair by (auto simp: update_quotes_def Let_def split: if_splits)
    then show ?thesis by (simp add: Pair fx.R_refl)
  next
    case (Inr n)
    then have ok: "list_all (\<lambda>q. P q \<longrightarrow> quote_update_ok q (f q) \<and> quote_check (f q)) (quotes s)"
      and uniq: "unique_some fq_consumed_by ?rows" and t: "t = s\<lparr>quotes := ?rows\<rparr>"
      using Pair by (auto simp: update_quotes_def Let_def split: if_splits)
    have "later_quote q (if P q then f q else q)" if "q \<in> set (quotes s)" for q
      using that ok assms [of q] by (auto simp: later_quote_def quote_update_ok_def list_all_iff)
        (auto simp: same_terms_def quote_step_iff)
    then have "list_all2 later_quote (quotes s) ?rows"
      by (simp add: update_where_def list_all2_map2 list_all2_same)
    then have "quotes_later s t" by (auto simp: quotes_later_def t)
    moreover have "map fq_id ?rows = map fq_id (quotes s)"
      using assms(1) by (rule map_update_where)
    moreover have "list_all quote_check (quotes s) \<Longrightarrow> list_all quote_check ?rows"
      using ok by (auto simp: list_all_iff dest: in_update_where)
    moreover have "list_all consumer_recorded (quotes s) \<Longrightarrow> list_all consumer_recorded ?rows"
      using ok assms(3) by (auto simp: list_all_iff quote_update_ok_def dest!: in_update_where)
    ultimately show ?thesis
      using uniq by (simp add: fx_step_def fx_inv_def Pair t)
  qed
qed

lemma expire_step: "steps fx_step (expire_quote i)"
proof -
  have "steps fx_step (update_quotes (\<lambda>q. fq_id q = i) (\<lambda>q. q\<lparr>fq_status := QuoteExpired\<rparr>))"
    by (rule stepsI) (rule update_quotes_step; auto simp: consumer_recorded_def quote_step_iff)
  then show ?thesis unfolding expire_quote_def by (intro fx.steps_rules)
qed

lemma claim_quote_step: "steps fx_step (claim_quote v i transfer)"
proof -
  have "steps fx_step (update_quotes
      (\<lambda>q. fq_id q = i \<and> fq_status q = QuoteActive \<and> qv_now v < fq_expires q \<and> fq_consumed_by q = None)
      (\<lambda>q. q\<lparr>fq_status := QuoteConsumed, fq_consumed_at := Some (qv_now v), fq_consumed_by := Some transfer\<rparr>))"
    by (rule stepsI) (rule update_quotes_step; simp add: consumer_recorded_def)
  then show ?thesis unfolding claim_quote_def by (intro fx.steps_rules)
qed

text \<open>Whatever the other requests do within \<open>fx_step\<close>, so does every operation.\<close>

lemma fx_pause: "(\<And>s. fx_step s (qv_others v s)) \<Longrightarrow> steps fx_step (pause (qv_others v))"
  by (rule fx.steps_pause)

lemma create_quote_step:
  assumes "\<And>s. fx_step s (qv_others v s)"
  shows "steps fx_step (create_quote v client c)"
proof -
  have "steps fx_step (create_quote_row (new_quote v client c fresh))" for fresh
    by (rule stepsI) (rule create_row_step, simp add: new_quote_def Let_def)
  then show ?thesis
    unfolding create_quote_def
    by (intro fx.steps_rules) (auto intro!: fx.steps_rules fx_pause assms split: sum.split)
qed

lemma get_quote_step:
  "(\<And>s. fx_step s (qv_others v s)) \<Longrightarrow> steps fx_step (get_quote v client i)"
  unfolding get_quote_def by (intro fx.steps_rules fx_pause expire_step)

lemma consume_quote_step:
  "(\<And>s. fx_step s (qv_others v s)) \<Longrightarrow> steps fx_step (consume_quote v i c)"
  unfolding consume_quote_def by (intro fx.steps_rules fx_pause expire_step claim_quote_step)

section \<open>Runs\<close>

datatype fx_request =
    CreateQuote "string option" create_quote_dto
  | GetQuote "string option" uuid
  | ConsumeQuote uuid consume_quote_dto

fun serve_fx :: "ledger_http \<Rightarrow> fx_env \<Rightarrow> fx_request \<Rightarrow> fx_state \<Rightarrow> fx_state" where
  "serve_fx h v (CreateQuote header c) s = snd (create_quote_route v header c s)"
| "serve_fx h v (GetQuote header i) s = snd (get_quote_route (lh_is_uuid h) v header i s)"
| "serve_fx h v (ConsumeQuote i c) s =
     snd (consume_quote_route (lh_token h) (lh_supplied h) (lh_is_uuid h) v i c s)"

inductive fx_run :: "fx_state \<Rightarrow> fx_state \<Rightarrow> bool" where
  fx_idle: "fx_run s s"
| fx_serve: "\<forall>u. fx_run u (qv_others v u) \<Longrightarrow> fx_run s t \<Longrightarrow> fx_run s (serve_fx h v q t)"

definition empty_fx :: fx_state where
  "empty_fx = \<lparr>quotes = []\<rparr>"

lemma fx_inv_empty [simp]: "fx_inv empty_fx"
  by (simp add: fx_inv_def empty_fx_def)

lemma serve_fx_step:
  assumes "\<And>s. fx_step s (qv_others v s)"
  shows "fx_step s (serve_fx h v q s)"
  by (cases q)
    (auto simp: create_quote_route_def get_quote_route_def consume_quote_route_def
      intro!: stepsD [where R = fx_step] fx.steps_validated fx.steps_principal create_quote_step
        get_quote_step consume_quote_step fx.R_refl assms)

lemma fx_run_step: "fx_run s t \<Longrightarrow> fx_step s t"
proof (induction rule: fx_run.induct)
  case (fx_idle s)
  then show ?case by (rule fx.R_refl)
next
  case (fx_serve v s t h q)
  then have "fx_step t (serve_fx h v q t)" by (intro serve_fx_step) blast
  then show ?case using fx_serve.IH(2) fx.R_trans by blast
qed

lemma fx_run_inv: "fx_run empty_fx s \<Longrightarrow> fx_inv s"
  using fx_run_step [of empty_fx s] by (simp add: fx_step_def)

section \<open>A concrete run\<close>

definition demo_fx_env :: "instant \<Rightarrow> fx_env" where
  "demo_fx_env now = \<lparr>qv_decimal = exact_decimal, qv_others = (\<lambda>s. s), qv_now = now, qv_mode = None,
     qv_quote_id = ''q1'', qv_reference = ''r1'', qv_request_id = [], qv_fresh_request = ''f1''\<rparr>"

definition demo_quote :: fx_quote where
  "demo_quote = \<lparr>fq_id = ''q1'', fq_client = ''alice'', fq_source_currency = ''USD'',
     fq_target_currency = ''EUR'', fq_source_amount = 100, fq_target_amount = 92, fq_rate = 23 / 25,
     fq_provider = ''local-r1'', fq_status = QuoteActive, fq_issued = 1000, fq_expires = 61000,
     fq_consumed_at = None, fq_consumed_by = None, fq_request = ''f1''\<rparr>"

definition demo_quoted :: fx_state where
  "demo_quoted = \<lparr>quotes = [demo_quote]\<rparr>"

definition demo_consumed :: fx_state where
  "demo_consumed = \<lparr>quotes = [demo_quote\<lparr>fq_status := QuoteConsumed, fq_consumed_at := Some 2000,
     fq_consumed_by := Some ''x1''\<rparr>]\<rparr>"

definition demo_create :: create_quote_dto where
  "demo_create = \<lparr>cq_source_currency = ''USD'', cq_target_currency = ''EUR'', cq_source_amount = ''100.0''\<rparr>"

definition demo_consume :: "uuid \<Rightarrow> consume_quote_dto" where
  "demo_consume t = \<lparr>uq_source_currency = ''USD'', uq_target_currency = ''EUR'',
     uq_source_amount = ''100.0'', uq_transfer = t, uq_client = ''alice''\<rparr>"

lemma fx_amounts [simp]:
  "decimal_value ''100.0'' = 100" "decimal_value ''0.920000000000'' = 23 / 25"
  "fixed_text 8 100 = ''100.00000000''" "fixed_text 8 92 = ''92.00000000''"
  "fixed_text 12 (23 / 25) = ''0.920000000000''"
  "round_places 12 (23 / 25) = 23 / 25" "round_places 8 92 = 92" "round_places 8 100 = 100"
  by (simp_all add: decimal_eval round_places_def sgn_if)

lemmas fx_eval = demo_fx_env_def demo_quote_def demo_quoted_def demo_consumed_def demo_create_def
  demo_consume_def empty_fx_def Let_def bnd_def transaction_def create_quote_def fresh_rate_def
  provider_rates_def new_quote_def create_quote_row_def stored_quote_def numeric_column_def
  quote_check_def is_currency_def upper_letter_def key_taken_def quote_response_of_def find_quote_def
  request_id_def uuid_pattern_def consume_quote_def claim_quote_def update_quotes_def update_where_def
  count_where_def quote_update_ok_def same_terms_def quote_step_iff unique_some_def get_quote_def
  expire_quote_def

lemma demo_create_quote: "snd (create_quote (demo_fx_env 1000) ''alice'' demo_create empty_fx) = demo_quoted"
  by (simp add: fx_eval)

lemma demo_consume_quote:
  "consume_quote (demo_fx_env 2000) ''q1'' (demo_consume ''x1'') demo_quoted =
     (Inr (quote_response_of exact_decimal (hd (quotes demo_consumed)) 2000), demo_consumed)"
  by (simp add: fx_eval)

definition demo_fx_http :: ledger_http where
  "demo_fx_http = \<lparr>lh_token = Some ''k'', lh_supplied = Some ''k'', lh_is_uuid = (\<lambda>t. t \<noteq> [])\<rparr>"

lemma demo_fx_serve:
  "serve_fx demo_fx_http (demo_fx_env 1000) (CreateQuote (Some ''Bearer alice'') demo_create) empty_fx = demo_quoted"
  "serve_fx demo_fx_http (demo_fx_env 2000) (ConsumeQuote ''q1'' (demo_consume ''x1'')) demo_quoted = demo_consumed"
  using demo_create_quote demo_consume_quote
  by (simp_all add: create_quote_route_def validated_def create_quote_ok_def with_principal_def
      from_request_def bearer_token_def trim_def is_space_def principal_pattern_def is_alnum_def
      is_digit_def upper_letter_def is_currency_def decimal_pattern_def Let_def demo_create_def
      consume_quote_route_def consume_quote_ok_def demo_consume_def fx_internal_guard_def demo_fx_http_def)

lemma demo_fx_runs:
  "fx_run empty_fx demo_quoted" "fx_run empty_fx demo_consumed" "fx_run demo_quoted demo_consumed"
proof -
  have idle: "\<forall>u. fx_run u (qv_others (demo_fx_env now) u)" for now
    by (simp add: demo_fx_env_def fx_idle)
  show q: "fx_run empty_fx demo_quoted"
    unfolding demo_fx_serve(1) [symmetric] by (rule fx_serve [OF idle fx_idle])
  show "fx_run empty_fx demo_consumed"
    unfolding demo_fx_serve(2) [symmetric] by (rule fx_serve [OF idle q])
  show "fx_run demo_quoted demo_consumed"
    unfolding demo_fx_serve(2) [symmetric] by (rule fx_serve [OF idle fx_idle])
qed

section \<open>Properties\<close>

lemma claim_quote_Inr:
  assumes "claim_quote v i transfer s = (Inr r, t)" and "fx_inv s"
  shows "\<exists>q. find_quote i t = Some q \<and> fq_consumed_by q = Some transfer \<and>
    r = quote_response_of (qv_decimal v) q (qv_now v)"
proof -
  let ?P = "\<lambda>q. fq_id q = i \<and> fq_status q = QuoteActive \<and> qv_now v < fq_expires q \<and> fq_consumed_by q = None"
  let ?f = "\<lambda>q. q\<lparr>fq_status := QuoteConsumed, fq_consumed_at := Some (qv_now v), fq_consumed_by := Some transfer\<rparr>"
  from assms(1) obtain n q where upd: "update_quotes ?P ?f s = (Inr n, t)"
    and q: "find_quote i t = Some q" and won: "n = 1 \<or> fq_consumed_by q = Some transfer"
    and r: "r = quote_response_of (qv_decimal v) q (qv_now v)"
    unfolding claim_quote_def by (auto simp: bnd_result_Inr split: option.splits if_splits)
  from upd have t: "t = s\<lparr>quotes := update_where ?P ?f (quotes s)\<rparr>" and n: "n = count_where ?P (quotes s)"
    by (auto simp: update_quotes_def Let_def split: if_splits)
  have found: "find_quote i t = map_option (\<lambda>q. if ?P q then ?f q else q) (find_quote i s)"
    unfolding find_quote_def t by (simp add: find_update_where)
  then obtain p where p: "find_quote i s = Some p" "q = (if ?P p then ?f p else p)"
    using q by (cases "find_quote i s") simp_all
  have "fq_consumed_by q = Some transfer"
  proof (cases "?P p")
    case True
    then show ?thesis using p(2) by simp
  next
    case False
    have "p \<in> set (quotes s) \<and> fq_id p = i"
      using p(1) unfolding find_quote_def by (rule find_Some_in)
    moreover have "distinct (map fq_id (quotes s))"
      using assms(2) by (simp add: fx_inv_def)
    ultimately have "\<not> ?P z" if "z \<in> set (quotes s)" for z
      using that False distinct_key [of fq_id "quotes s" z p] by metis
    then have "n = 0" by (simp add: n count_where_def filter_empty_conv)
    then show ?thesis using won by simp
  qed
  then show ?thesis using q r by blast
qed

text \<open>What a successful consumption says of the quote.\<close>

lemma consume_quote_Inr:
  assumes "consume_quote v i c s = (Inr r, t)" and "fx_inv s" and "\<And>s. fx_step s (qv_others v s)"
  shows "\<exists>q. find_quote i t = Some q \<and> fq_status q = QuoteConsumed \<and>
    fq_consumed_by q = Some (uq_transfer c) \<and> fq_client q = uq_client c \<and>
    fq_source_currency q = uq_source_currency c \<and> fq_target_currency q = uq_target_currency c \<and>
    fq_source_amount q = dl_of (qv_decimal v) (uq_source_amount c) \<and>
    r = quote_response_of (qv_decimal v) q (qv_now v)"
proof -
  have step: "fx_step s t"
    using consume_quote_step [OF assms(3)] assms(1) by (rule stepsD_eq)
  then have inv_t: "fx_inv t" and later: "quotes_later s t"
    using assms(2) by (simp_all add: fx_step_def)
  from assms(1) obtain p where p: "find_quote i s = Some p" and client: "fq_client p = uq_client c"
    and terms: "fq_source_currency p = uq_source_currency c" "fq_target_currency p = uq_target_currency c"
      "fq_source_amount p = dl_of (qv_decimal v) (uq_source_amount c)"
    and rest: "(fq_status p = QuoteConsumed \<and> fq_consumed_by p = Some (uq_transfer c) \<and> t = s \<and>
        r = quote_response_of (qv_decimal v) p (qv_now v)) \<or>
      claim_quote v i (uq_transfer c) (qv_others v s) = (Inr r, t)"
    unfolding consume_quote_def
    by (auto simp: bnd_result_Inr transaction_Inr ensure_apply split: option.splits if_splits)
  obtain q where q: "find_quote i t = Some q" "later_quote p q"
    using find_later [OF later p] by blast
  have "fq_consumed_by q = Some (uq_transfer c) \<and> r = quote_response_of (qv_decimal v) q (qv_now v)"
    using rest
  proof
    assume "claim_quote v i (uq_transfer c) (qv_others v s) = (Inr r, t)"
    moreover have "fx_inv (qv_others v s)" using assms(2,3) by (simp add: fx_step_def)
    ultimately show ?thesis using claim_quote_Inr q(1) by fastforce
  qed (use p q in simp)
  moreover have "consumer_recorded q"
    using inv_t q(1) find_Some_in unfolding fx_inv_def find_quote_def list_all_iff by fast
  ultimately show ?thesis
    using q client terms by (auto simp: consumer_recorded_def later_quote_def same_terms_def)
qed

text \<open>
  A quote's terms never change: whatever requests the FX service handles, with others interleaved
  at their \<open>await\<close>s, a quote keeps its client, currencies, amounts, rate and expiry; its status only
  moves from active to consumed or expired; and a consumed quote keeps its consumer.
\<close>

theorem quote_terms_immutable:
  assumes "fx_run empty_fx s" and "fx_run s t" and "find_quote i s = Some p"
  shows "\<exists>q. find_quote i t = Some q \<and> same_terms p q \<and> quote_step (fq_status p) (fq_status q) \<and>
    (fq_status p = QuoteConsumed \<longrightarrow> fq_consumed_by q = fq_consumed_by p)"
proof -
  have "quotes_later s t"
    using fx_run_step [OF assms(2)] fx_run_inv [OF assms(1)] by (simp add: fx_step_def)
  from find_later [OF this assms(3)] show ?thesis
    unfolding later_quote_def by blast
qed

theorem quote_terms_immutable_witness:
  "\<exists>q. find_quote ''q1'' demo_consumed = Some q \<and> same_terms demo_quote q \<and>
    quote_step (fq_status demo_quote) (fq_status q)"
proof -
  have "find_quote ''q1'' demo_quoted = Some demo_quote" by (simp add: fx_eval)
  from quote_terms_immutable [OF demo_fx_runs(1,3) this] show ?thesis by blast
qed

text \<open>
  C8. One consumer: once a transfer has consumed a quote, every later attempt by another transfer is
  refused with \<open>QUOTE_ALREADY_USED\<close>, and every retry by the same transfer is answered with the same
  quote and changes nothing, also after its expiry.
\<close>

theorem quote_consumed_once:
  assumes "fx_run empty_fx s" and "\<forall>u. fx_run u (qv_others v u)"
    and "consume_quote v i c s = (Inr r, t)" and "fx_run t u" and "qv_decimal w = qv_decimal v"
  shows "\<exists>q. find_quote i u = Some q \<and> fq_consumed_by q = Some (uq_transfer c) \<and>
    consume_quote w i c u = (Inr (quote_response_of (qv_decimal v) q (qv_now w)), u) \<and>
    (k = uq_transfer c \<or> consume_quote w i (c\<lparr>uq_transfer := k\<rparr>) u = (Inl quote_already_used, u))"
proof -
  have inv: "fx_inv s" using assms(1) by (rule fx_run_inv)
  have others: "fx_step u (qv_others v u)" for u using assms(2) fx_run_step by blast
  obtain p where p: "find_quote i t = Some p" "fq_status p = QuoteConsumed"
      "fq_consumed_by p = Some (uq_transfer c)" "fq_client p = uq_client c"
      "fq_source_currency p = uq_source_currency c" "fq_target_currency p = uq_target_currency c"
      "fq_source_amount p = dl_of (qv_decimal v) (uq_source_amount c)"
    using consume_quote_Inr [OF assms(3) inv others] by blast
  have "fx_step s t"
    using consume_quote_step [OF others] assms(3) by (rule stepsD_eq)
  then have "quotes_later t u"
    using inv fx_run_step [OF assms(4)] by (simp add: fx_step_def)
  from find_later [OF this p(1)] obtain q where q: "find_quote i u = Some q" "later_quote p q"
    by blast
  then have "fq_status q = QuoteConsumed" "fq_consumed_by q = Some (uq_transfer c)"
    "fq_client q = uq_client c" "fq_source_currency q = uq_source_currency c"
    "fq_target_currency q = uq_target_currency c"
    "fq_source_amount q = dl_of (qv_decimal v) (uq_source_amount c)"
    using p by (auto simp: later_quote_def same_terms_def quote_step_iff)
  then show ?thesis
    using q(1) assms(5) by (auto simp: consume_quote_def)
qed

theorem quote_consumed_once_witness:
  "consume_quote (demo_fx_env 99000) ''q1'' ((demo_consume ''x1'')\<lparr>uq_transfer := ''x2''\<rparr>) demo_consumed =
     (Inl quote_already_used, demo_consumed)"
proof -
  have idle: "\<forall>u. fx_run u (qv_others (demo_fx_env 2000) u)"
    by (simp add: demo_fx_env_def fx_idle)
  have same: "qv_decimal (demo_fx_env 99000) = qv_decimal (demo_fx_env 2000)"
    by (simp add: demo_fx_env_def)
  show ?thesis
    using quote_consumed_once [OF demo_fx_runs(1) idle demo_consume_quote fx_idle same, of "''x2''"]
    by (auto simp: demo_consume_def)
qed

text \<open>
  A consumption is of the quote that was asked: when \<open>consume\<close> answers, the quote exists with the
  command's client, currencies and source amount, is consumed by the command's transfer, and the
  response carries its locked amounts and rate. Unless the transfer had already consumed it, the
  quote was active and not expired.
\<close>

theorem consumption_locks_the_quoted_terms:
  assumes "fx_run empty_fx s" and "qv_others v = (\<lambda>u. u)" and "consume_quote v i c s = (Inr r, t)"
  shows "\<exists>p. find_quote i s = Some p \<and> fq_client p = uq_client c \<and>
    fq_source_currency p = uq_source_currency c \<and> fq_target_currency p = uq_target_currency c \<and>
    fq_source_amount p = dl_of (qv_decimal v) (uq_source_amount c) \<and>
    qr_target_amount r = dl_fixed (qv_decimal v) 8 (fq_target_amount p) \<and>
    qr_rate r = dl_fixed (qv_decimal v) 12 (fq_rate p) \<and> qr_status r = QuoteConsumed \<and>
    (fq_consumed_by p = Some (uq_transfer c) \<or>
     (fq_status p = QuoteActive \<and> qv_now v < fq_expires p))"
proof -
  have inv: "fx_inv s" using assms(1) by (rule fx_run_inv)
  have others: "fx_step u (qv_others v u)" for u by (simp add: assms(2) fx.R_refl)
  obtain q where q: "find_quote i t = Some q" "fq_status q = QuoteConsumed" "fq_client q = uq_client c"
      "fq_source_currency q = uq_source_currency c" "fq_target_currency q = uq_target_currency c"
      "fq_source_amount q = dl_of (qv_decimal v) (uq_source_amount c)"
      "r = quote_response_of (qv_decimal v) q (qv_now v)"
    using consume_quote_Inr [OF assms(3) inv others] by blast
  obtain p where p: "find_quote i s = Some p" and fresh: "fq_consumed_by p = Some (uq_transfer c) \<or>
     (fq_status p = QuoteActive \<and> qv_now v < fq_expires p)"
    using assms(2,3) unfolding consume_quote_def
    by (auto simp: bnd_result_Inr transaction_Inr ensure_apply split: option.splits if_splits)
      (metis quote_status.exhaust)
  have "fx_step s t"
    using consume_quote_step [OF others] assms(3) by (rule stepsD_eq)
  then have "quotes_later s t" using inv by (simp add: fx_step_def)
  from find_later [OF this p] q(1) have "same_terms p q" by (simp add: later_quote_def)
  then show ?thesis
    using p fresh q by (simp add: same_terms_def quote_response_of_def Let_def)
qed

theorem consumption_locks_the_quoted_terms_witness:
  "\<exists>p. find_quote ''q1'' demo_quoted = Some p \<and> fq_client p = ''alice'' \<and> 2000 < fq_expires p"
proof -
  have idle: "qv_others (demo_fx_env 2000) = (\<lambda>u. u)" by (simp add: demo_fx_env_def)
  show ?thesis
    using consumption_locks_the_quoted_terms [OF demo_fx_runs(1) idle demo_consume_quote]
    by (auto simp: demo_consume_def demo_fx_env_def fx_eval)
qed

text \<open>
  A fresh quote: \<open>create\<close> stores and answers an active quote of the caller at the provider's rate for
  the pair, whose target amount is the product rounded to eight decimals and which expires exactly
  60 seconds after it was issued; with the provider unavailable or the pair unsupported, nothing is
  stored.
\<close>

theorem create_quote_behaviour:
  assumes "qv_others v = (\<lambda>u. u)"
  shows "case create_quote v client c s of
      (Inr r, t) \<Rightarrow> (\<exists>rate q. map_of provider_rates (cq_source_currency c @ '':'' @ cq_target_currency c) = Some rate \<and>
         quotes t = quotes s @ [q] \<and> fq_client q = client \<and> fq_status q = QuoteActive \<and>
         fq_expires q = fq_issued q + 60000 \<and>
         fq_target_amount q = round_places 8 (dl_places (qv_decimal v) 8
           (dl_mul (qv_decimal v) (dl_of (qv_decimal v) (cq_source_amount c)) (dl_of (qv_decimal v) rate))) \<and>
         r = quote_response_of (qv_decimal v) q (qv_now v) \<and> qr_valid r \<and> qr_remaining r = 60)
    | (Inl e, t) \<Rightarrow> t = s"
proof (cases "create_quote v client c s")
  case (Pair r t)
  show ?thesis
  proof (cases r)
    case (Inl e)
    then show ?thesis
      using Pair assms
      by (auto simp: create_quote_def bnd_def ensure_apply create_quote_row_def
          split: sum.splits option.splits if_splits prod.splits)
  next
    case (Inr x)
    then obtain fresh q where fresh: "fresh_rate v (cq_source_currency c) (cq_target_currency c) = Inr fresh"
      and row: "create_quote_row (new_quote v client c fresh) s = (Inr q, t)"
      and x: "x = quote_response_of (qv_decimal v) q (fq_issued q)"
      using Pair assms by (auto simp: create_quote_def bnd_result_Inr split: sum.splits if_splits)
    have stored: "stored_quote (new_quote v client c fresh) = Some q" and t: "quotes t = quotes s @ [q]"
      using row by (auto simp: create_quote_row_def split: option.splits if_splits)
    have q: "fq_client q = client" "fq_status q = QuoteActive" "fq_issued q = qv_now v"
      "fq_expires q = fq_issued q + 60000"
      "fq_target_amount q = round_places 8 (dl_places (qv_decimal v) 8
        (dl_mul (qv_decimal v) (dl_of (qv_decimal v) (cq_source_amount c)) (dl_of (qv_decimal v) (fst fresh))))"
      using stored by (auto simp: stored_quote_def new_quote_def Let_def money_column_Some split: option.splits)
    have "map_of provider_rates (cq_source_currency c @ '':'' @ cq_target_currency c) = Some (fst fresh)"
      using fresh by (auto simp: fresh_rate_def split: if_splits option.splits)
    moreover have "qr_valid x" "qr_remaining x = 60"
      using q by (simp_all add: x quote_response_of_def Let_def)
    ultimately show ?thesis
      using Pair Inr q t x by auto
  qed
qed

theorem create_quote_behaviour_witness:
  "\<exists>q. quotes demo_quoted = [q] \<and> fq_expires q = fq_issued q + 60000"
proof -
  have r: "\<exists>r. create_quote (demo_fx_env 1000) ''alice'' demo_create empty_fx = (Inr r, demo_quoted)"
    by (simp add: fx_eval)
  have "qv_others (demo_fx_env 1000) = (\<lambda>u. u)" by (simp add: demo_fx_env_def)
  from create_quote_behaviour [OF this, where client = "''alice''" and c = demo_create and s = empty_fx] r
  show ?thesis by (auto simp: empty_fx_def)
qed

lemma expire_succeeds:
  assumes "fx_inv s" and "find_quote i s = Some q" and "fq_status q = QuoteActive"
  shows "\<exists>p t. expire_quote i s = (Inr p, t)"
proof -
  let ?P = "\<lambda>q. fq_id q = i" and ?f = "\<lambda>q. q\<lparr>fq_status := QuoteExpired\<rparr>"
  have q: "q \<in> set (quotes s) \<and> fq_id q = i"
    using assms(2) unfolding find_quote_def by (rule find_Some_in)
  have "z = q" if "z \<in> set (quotes s)" "fq_id z = i" for z
    using that q assms(1) distinct_key [of fq_id "quotes s" z q] by (simp add: fx_inv_def)
  moreover have "quote_check q" "consumer_recorded q"
    using q assms(1) by (simp_all add: fx_inv_def list_all_iff)
  then have "quote_update_ok q (?f q)" "quote_check (?f q)"
    using assms(3)
    by (auto simp: quote_update_ok_def same_terms_def quote_step_iff quote_check_def consumer_recorded_def)
  ultimately have "list_all (\<lambda>q. ?P q \<longrightarrow> quote_update_ok q (?f q) \<and> quote_check (?f q)) (quotes s)"
    unfolding list_all_iff by blast
  moreover have "map fq_consumed_by (update_where ?P ?f (quotes s)) = map fq_consumed_by (quotes s)"
    by (rule map_update_where) simp
  then have "unique_some fq_consumed_by (update_where ?P ?f (quotes s))"
    using assms(1) by (simp add: fx_inv_def unique_some_def)
  moreover have "find_quote i (s\<lparr>quotes := update_where ?P ?f (quotes s)\<rparr>) \<noteq> None"
    using assms(2) by (simp add: find_quote_def find_update_where)
  ultimately show ?thesis
    by (auto simp: expire_quote_def bnd_def update_quotes_def Let_def)
qed

text \<open>
  An expired quote is not consumed, and its expiry is not recorded: \<open>consume\<close> of an active quote
  past its expiry is refused with \<open>QUOTE_EXPIRED\<close>; the update to \<open>EXPIRED\<close> that precedes the throw is in
  the same transaction and rolled back with it, so the row is still active afterwards.
\<close>

theorem expired_quote_refused_unrecorded:
  assumes "qv_others v = (\<lambda>u. u)" and "find_quote i s = Some q" and "fq_status q = QuoteActive"
    and "fq_expires q \<le> qv_now v" and "fx_inv s" and "fq_client q = uq_client c"
    and "fq_source_currency q = uq_source_currency c" and "fq_target_currency q = uq_target_currency c"
    and "fq_source_amount q = dl_of (qv_decimal v) (uq_source_amount c)"
  shows "consume_quote v i c s = (Inl quote_expired, s)"
proof -
  obtain p t where "expire_quote i s = (Inr p, t)"
    using expire_succeeds [OF assms(5,2,3)] by blast
  then have "bnd (expire_quote i) (\<lambda>_. throw quote_expired :: (fx_state, quote_response) act) s =
      (Inl quote_expired, t)"
    by (simp add: bnd_Inr)
  then show ?thesis
    using assms by (simp add: consume_quote_def transaction_def)
qed

theorem expired_quote_refused_unrecorded_witness:
  "consume_quote (demo_fx_env 61000) ''q1'' (demo_consume ''x1'') demo_quoted = (Inl quote_expired, demo_quoted)"
proof (rule expired_quote_refused_unrecorded)
  show "fx_inv demo_quoted" using demo_fx_runs(1) by (rule fx_run_inv)
  show "find_quote ''q1'' demo_quoted = Some demo_quote" by (simp add: fx_eval)
qed (simp_all add: demo_fx_env_def demo_quote_def demo_consume_def)

text \<open>
  Quotes are their owner's: another client that reads or consumes a quote is refused with
  \<open>QUOTE_ACCESS_DENIED\<close> (403) and changes nothing.
\<close>

theorem quote_access_is_owner_only:
  assumes "find_quote i s = Some q" and "client \<noteq> fq_client q" and "uq_client c = client"
  shows "get_quote v client i s = (Inl quote_access_denied, s) \<and>
    consume_quote v i c s = (Inl quote_access_denied, s)"
  using assms by (simp add: get_quote_def consume_quote_def)

theorem quote_access_is_owner_only_witness:
  "get_quote (demo_fx_env 2000) ''mallory'' ''q1'' demo_quoted = (Inl quote_access_denied, demo_quoted)"
proof -
  have "find_quote ''q1'' demo_quoted = Some demo_quote" by (simp add: fx_eval)
  from quote_access_is_owner_only [OF this, of "''mallory''" "(demo_consume ''x1'')\<lparr>uq_client := ''mallory''\<rparr>"]
  show ?thesis by (simp add: demo_quote_def)
qed
end
