(* ===== verification/TransferModel.thy ===== *)
theory TransferModel
  imports FxQuotes "HOL-Library.Product_Lexorder"
begin

text \<open>
  The state of the Transfer service (services/transaction-service): the tables of its database with
  the checks, unique indexes and update triggers of its four migrations, its DTOs, and the environment
  of a request.

  A transfer calls other services. \<open>'w\<close> is the world outside this service; the raw answers of \<open>fetch\<close>
  are functions of the environment that may change it, so that a theorem about the service holds for
  whatever answers, losses and delays the network gives, and can be instantiated with the models of
  the other services. Row identifiers and time stamps that no code reads are left out, and identifiers
  are in the canonical spelling that a \<open>UUID\<close> column gives them.
\<close>

section \<open>Rows\<close>

datatype transfer_type = Domestic | International
datatype transfer_status = Pending | Processing | Completed | Failed | Reversed
datatype transfer_role = Sender | Recipient
datatype idempotency_state = KeyProcessing | KeyCompleted | KeyFailed

record transfer =
  tr_id :: uuid
  tr_client :: string
  tr_type :: transfer_type
  tr_status :: transfer_status
  tr_sender :: uuid
  tr_recipient :: uuid
  tr_source_currency :: string
  tr_source_amount :: rat
  tr_target_currency :: string
  tr_target_amount :: "rat option"
  tr_fx_quote :: "uuid option"
  tr_locked_rate :: "rat option"
  tr_ledger :: "uuid option"
  tr_failure_code :: "string option"
  tr_failure_message :: "string option"
  tr_created :: instant
  tr_updated :: instant
  tr_completed :: "instant option"
  tr_version :: int

text \<open>\<open>TransferResponseDto\<close>, which is also the JSON body that an idempotency record stores.\<close>

record transfer_response =
  rs_id :: uuid
  rs_status :: transfer_status
  rs_source_amount :: string
  rs_source_currency :: string
  rs_target_amount :: "string option"
  rs_target_currency :: string
  rs_quote :: "uuid option"
  rs_rate :: "string option"
  rs_ledger :: "uuid option"
  rs_completed :: "instant option"
  rs_status_url :: "string option"
  rs_failure :: "(string \<times> string) option"

record idem_record =
  ir_client :: string
  ir_key :: string
  ir_hash :: string
  ir_state :: idempotency_state
  ir_transfer :: uuid
  ir_status :: "nat option"
  ir_body :: "transfer_response option"
  ir_replay_until :: instant
  ir_retain_until :: instant

record history_row =
  hr_id :: uuid
  hr_transfer :: uuid
  hr_wallet :: uuid
  hr_role :: transfer_role
  hr_counterparty :: uuid
  hr_status :: transfer_status
  hr_amount :: rat
  hr_currency :: string
  hr_fx_quote :: "uuid option"
  hr_occurred :: instant

record 'w transfer_state =
  transfers :: "transfer list"
  records :: "idem_record list"
  history :: "history_row list"
  reconciling :: bool  \<comment> \<open>the \<open>running\<close> flag of \<open>ReconciliationService\<close>\<close>
  outside :: 'w

section \<open>Checks\<close>

text \<open>
  The row checks. A comparison with a missing value is unknown, and a check refuses only what is
  false: \<open>positive_rate\<close> holds of a missing value, and a domestic transfer without target amount would
  pass.
\<close>

definition terminal_state_check :: "transfer \<Rightarrow> bool" where
  "terminal_state_check t \<longleftrightarrow>
     (case tr_status t of
        Failed \<Rightarrow> tr_ledger t = None \<and> tr_completed t = None \<and>
                  tr_failure_code t \<noteq> None \<and> tr_failure_message t \<noteq> None
      | Completed \<Rightarrow> tr_ledger t \<noteq> None \<and> tr_completed t \<noteq> None \<and>
                  tr_failure_code t = None \<and> tr_failure_message t = None
      | Reversed \<Rightarrow> tr_ledger t \<noteq> None \<and> tr_completed t \<noteq> None \<and>
                  tr_failure_code t = None \<and> tr_failure_message t = None
      | _ \<Rightarrow> tr_ledger t = None \<and> tr_completed t = None \<and>
                  tr_failure_code t = None \<and> tr_failure_message t = None)"

definition transfer_type_check :: "transfer \<Rightarrow> bool" where
  "transfer_type_check t \<longleftrightarrow>
     (case tr_type t of
        Domestic \<Rightarrow>
          tr_source_currency t = tr_target_currency t \<and>
          pred_option (\<lambda>x. x = tr_source_amount t) (tr_target_amount t) \<and>
          tr_fx_quote t = None \<and> tr_locked_rate t = None
      | International \<Rightarrow>
          tr_source_currency t \<noteq> tr_target_currency t \<and> tr_fx_quote t \<noteq> None \<and>
          positive_rate (tr_target_amount t) \<and> positive_rate (tr_locked_rate t) \<and>
          (tr_status t \<in> {Pending, Failed} \<or>
           (tr_target_amount t \<noteq> None \<and> tr_locked_rate t \<noteq> None)))"

definition short_text :: "nat \<Rightarrow> string option \<Rightarrow> bool" where
  "short_text n v \<longleftrightarrow> pred_option (\<lambda>t. char_count t \<le> n) v"

definition transfer_check :: "transfer \<Rightarrow> bool" where
  "transfer_check t \<longleftrightarrow>
     tr_sender t \<noteq> tr_recipient t \<and>
     is_currency (tr_source_currency t) \<and> is_currency (tr_target_currency t) \<and>
     0 < tr_source_amount t \<and> positive_rate (tr_target_amount t) \<and> 0 \<le> tr_version t \<and>
     transfer_type_check t \<and> terminal_state_check t \<and>
     short_text 80 (tr_failure_code t) \<and> short_text 300 (tr_failure_message t)"

definition record_check :: "idem_record \<Rightarrow> bool" where
  "record_check r \<longleftrightarrow>
     ir_replay_until r \<le> ir_retain_until r \<and>
     pred_option (\<lambda>n. 100 \<le> n \<and> n \<le> 599) (ir_status r) \<and>
     (case ir_state r of
        KeyProcessing \<Rightarrow> ir_status r = None \<and> ir_body r = None
      | _ \<Rightarrow> ir_status r \<noteq> None \<and> ir_body r \<noteq> None)"

definition history_check :: "history_row \<Rightarrow> bool" where
  "history_check h \<longleftrightarrow>
     hr_wallet h \<noteq> hr_counterparty h \<and> 0 < hr_amount h \<and> is_currency (hr_currency h)"

definition history_key :: "history_row \<Rightarrow> uuid \<times> uuid \<times> transfer_role" where
  "history_key h = (hr_transfer h, hr_wallet h, hr_role h)"

section \<open>Update triggers\<close>

text \<open>The status transitions that \<open>novapay_guard_transfer_update\<close> allows.\<close>

inductive status_step :: "transfer_status \<Rightarrow> transfer_status \<Rightarrow> bool" where
  stay: "status_step a a"
| start: "status_step Pending Processing"
| fail_pending: "status_step Pending Failed"
| finish: "status_step Processing Completed"
| fail_processing: "status_step Processing Failed"
| undo: "status_step Completed Reversed"

code_pred status_step .

inductive_cases status_step_final: "status_step Failed a" "status_step Reversed a"

inductive_simps status_step_from: "status_step Pending a" "status_step Processing a" "status_step Completed a"

inductive_simps status_step_to: "status_step a Pending" "status_step a Processing"

definition same_command :: "transfer \<Rightarrow> transfer \<Rightarrow> bool" where
  "same_command p q \<longleftrightarrow>
     tr_client q = tr_client p \<and> tr_type q = tr_type p \<and> tr_sender q = tr_sender p \<and>
     tr_recipient q = tr_recipient p \<and> tr_source_currency q = tr_source_currency p \<and>
     tr_source_amount q = tr_source_amount p \<and> tr_target_currency q = tr_target_currency p \<and>
     tr_fx_quote q = tr_fx_quote p"

definition quote_terms_ok :: "transfer \<Rightarrow> transfer \<Rightarrow> bool" where
  "quote_terms_ok p q \<longleftrightarrow>
     (tr_target_amount q = tr_target_amount p \<and> tr_locked_rate q = tr_locked_rate p) \<or>
     (tr_type p = International \<and> tr_status p = Pending \<and> tr_status q = Processing \<and>
      tr_target_amount p = None \<and> tr_locked_rate p = None \<and>
      positive_rate (tr_target_amount q) \<and> positive_rate (tr_locked_rate q))"

definition transfer_update_ok :: "transfer \<Rightarrow> transfer \<Rightarrow> bool" where
  "transfer_update_ok p q \<longleftrightarrow>
     same_command p q \<and> quote_terms_ok p q \<and> status_step (tr_status p) (tr_status q)"

definition record_update_ok :: "idem_record \<Rightarrow> idem_record \<Rightarrow> bool" where
  "record_update_ok p q \<longleftrightarrow>
     ir_client q = ir_client p \<and> ir_key q = ir_key p \<and> ir_hash q = ir_hash p \<and>
     ir_transfer q = ir_transfer p \<and>
     (ir_state q = ir_state p \<or> (ir_state p = KeyProcessing \<and> ir_state q \<noteq> KeyProcessing))"

section \<open>Row operations\<close>

definition nullable_money_column :: "rat option \<Rightarrow> rat option option" where
  "nullable_money_column v = (case v of None \<Rightarrow> Some None | Some x \<Rightarrow> map_option Some (money_column x))"

definition stored_transfer :: "transfer \<Rightarrow> transfer option" where
  "stored_transfer t =
     (case (money_column (tr_source_amount t), nullable_money_column (tr_target_amount t),
            nullable_rate_column (tr_locked_rate t)) of
        (Some sa, Some ta, Some r) \<Rightarrow>
          Some (t\<lparr>tr_source_amount := sa, tr_target_amount := ta, tr_locked_rate := r\<rparr>)
      | _ \<Rightarrow> None)"

definition transfer_conflict :: "transfer \<Rightarrow> transfer list \<Rightarrow> bool" where
  "transfer_conflict t rows \<longleftrightarrow>
     key_taken tr_id (tr_id t) rows \<or>
     (tr_fx_quote t \<noteq> None \<and> key_taken tr_fx_quote (tr_fx_quote t) rows) \<or>
     (tr_ledger t \<noteq> None \<and> key_taken tr_ledger (tr_ledger t) rows)"

definition create_transfer :: "transfer \<Rightarrow> ('w transfer_state, transfer) act" where
  "create_transfer t s =
     (case stored_transfer t of
        None \<Rightarrow> (Inl (DbError DbCheck), s)
      | Some row \<Rightarrow>
          if \<not> transfer_check row then (Inl (DbError DbCheck), s)
          else if transfer_conflict row (transfers s) then (Inl (DbError P2002), s)
          else (Inr row, s\<lparr>transfers := transfers s @ [row]\<rparr>))"

text \<open>
  An update of the selected rows to what \<open>f\<close> gives, which is nothing when a value exceeds its column.
  The checks and the trigger refuse the whole statement, the unique indexes as well; the count is the
  result.
\<close>

definition changed :: "('r \<Rightarrow> 'r option) \<Rightarrow> 'r \<Rightarrow> 'r" where
  "changed f r = (case f r of None \<Rightarrow> r | Some q \<Rightarrow> q)"

definition update_transfers ::
  "(transfer \<Rightarrow> bool) \<Rightarrow> (transfer \<Rightarrow> transfer option) \<Rightarrow> ('w transfer_state, nat) act" where
  "update_transfers P f s =
     (let rows = update_where P (changed f) (transfers s) in
      if \<not> list_all (\<lambda>t. P t \<longrightarrow> f t \<noteq> None \<and> transfer_update_ok t (changed f t) \<and>
              transfer_check (changed f t)) (transfers s)
      then (Inl (DbError DbCheck), s)
      else if \<not> unique_some tr_ledger rows then (Inl (DbError P2002), s)
      else (Inr (count_where P (transfers s)), s\<lparr>transfers := rows\<rparr>))"

definition create_record :: "idem_record \<Rightarrow> ('w transfer_state, unit) act" where
  "create_record r s =
     (if \<not> record_check r \<or> \<not> key_taken tr_id (ir_transfer r) (transfers s)
      then (Inl (DbError DbCheck), s)
      else if key_taken (\<lambda>q. (ir_client q, ir_key q)) (ir_client r, ir_key r) (records s) \<or>
              key_taken ir_transfer (ir_transfer r) (records s)
      then (Inl (DbError P2002), s)
      else (Inr (), s\<lparr>records := records s @ [r]\<rparr>))"

definition update_records ::
  "(idem_record \<Rightarrow> bool) \<Rightarrow> (idem_record \<Rightarrow> idem_record) \<Rightarrow> ('w transfer_state, nat) act" where
  "update_records P f s =
     (if \<not> list_all (\<lambda>r. P r \<longrightarrow> record_update_ok r (f r) \<and> record_check (f r)) (records s)
      then (Inl (DbError DbCheck), s)
      else (Inr (count_where P (records s)), s\<lparr>records := update_where P f (records s)\<rparr>))"

definition create_history :: "history_row \<Rightarrow> ('w transfer_state, unit) act" where
  "create_history h s =
     (case money_column (hr_amount h) of
        None \<Rightarrow> (Inl (DbError DbCheck), s)
      | Some a \<Rightarrow>
          let row = h\<lparr>hr_amount := a\<rparr> in
          if \<not> history_check row \<or> \<not> key_taken tr_id (hr_transfer row) (transfers s)
          then (Inl (DbError DbCheck), s)
          else if key_taken hr_id (hr_id row) (history s) \<or>
                  key_taken history_key (history_key row) (history s)
          then (Inl (DbError P2002), s)
          else (Inr (), s\<lparr>history := history s @ [row]\<rparr>))"

definition update_history ::
  "(history_row \<Rightarrow> bool) \<Rightarrow> (history_row \<Rightarrow> history_row) \<Rightarrow> ('w transfer_state, unit) act" where
  "update_history P f = modify (\<lambda>s. s\<lparr>history := update_where P f (history s)\<rparr>)"

definition find_row :: "uuid \<Rightarrow> 'w transfer_state \<Rightarrow> transfer option" where
  "find_row i s = List.find (\<lambda>t. tr_id t = i) (transfers s)"

definition find_record :: "uuid \<Rightarrow> 'w transfer_state \<Rightarrow> idem_record option" where
  "find_record i s = List.find (\<lambda>r. ir_transfer r = i) (records s)"

section \<open>Requests\<close>

record create_transfer_dto =
  ct_sender :: uuid
  ct_recipient :: uuid
  ct_amount :: string
  ct_currency :: string

record create_international_dto =
  ci_sender :: uuid
  ci_recipient :: uuid
  ci_source_amount :: string
  ci_source_currency :: string
  ci_target_currency :: string
  ci_quote :: uuid

definition create_transfer_ok :: "(string \<Rightarrow> bool) \<Rightarrow> create_transfer_dto \<Rightarrow> bool" where
  "create_transfer_ok is_uuid c \<longleftrightarrow>
     is_uuid (ct_sender c) \<and> is_uuid (ct_recipient c) \<and> money_pattern (ct_amount c) \<and>
     is_currency (ct_currency c)"

definition create_international_ok :: "(string \<Rightarrow> bool) \<Rightarrow> create_international_dto \<Rightarrow> bool" where
  "create_international_ok is_uuid c \<longleftrightarrow>
     is_uuid (ci_sender c) \<and> is_uuid (ci_recipient c) \<and> money_pattern (ci_source_amount c) \<and>
     is_currency (ci_source_currency c) \<and> is_currency (ci_target_currency c) \<and> is_uuid (ci_quote c)"

record execution_result =
  ex_status :: nat
  ex_body :: transfer_response

text \<open>\<open>WalletValidation\<close> of the account client.\<close>

record wallet_validation =
  wv_wallet :: uuid
  wv_user :: uuid
  wv_owner :: string
  wv_currency :: string
  wv_status :: string
  wv_ledger_account :: "uuid option"

text \<open>
  The environment. \<open>tv_now k\<close> is the clock at the place \<open>k\<close> where the code reads it, \<open>tv_others k\<close> what
  other requests do at the \<open>await\<close> numbered \<open>k\<close>. \<open>tv_recipient_first\<close> says which of two failed calls of
  a \<open>Promise.all\<close> is the first.
\<close>

record 'w transfer_env =
  tv_decimal :: decimal_lib
  tv_digest :: "json \<Rightarrow> string"
  tv_others :: "nat \<Rightarrow> 'w transfer_state \<Rightarrow> 'w transfer_state"
  tv_now :: "nat \<Rightarrow> instant"
  tv_transfer_id :: uuid
  tv_history_id :: "nat \<Rightarrow> uuid"
  tv_request_id :: string
  tv_fresh_request :: uuid
  tv_stale_setting :: "rat option"      \<comment> \<open>\<open>Number(STALE_PROCESSING_MS)\<close>, when it is set and finite\<close>
  tv_token :: "string option"
  tv_account_url :: "string option"
  tv_ledger_url :: "string option"
  tv_fx_url :: "string option"
  tv_recipient_first :: bool
  tv_validation :: "uuid \<Rightarrow> 'w \<Rightarrow> wallet_validation fetched \<times> 'w"
  tv_post :: "create_posting_dto \<Rightarrow> 'w \<Rightarrow> posting_response fetched \<times> 'w"
  tv_by_reference :: "uuid \<Rightarrow> 'w \<Rightarrow> posting_response fetched \<times> 'w"
  tv_consume :: "uuid \<Rightarrow> consume_quote_dto \<Rightarrow> 'w \<Rightarrow> quote_response fetched \<times> 'w"

end
