(* ===== verification/TransferService.thy ===== *)
theory TransferService
  imports TransferModel
begin

text \<open>
  \<open>TransferService\<close> (services/transaction-service/src/transfers/transfer.service.ts) with its HTTP
  clients, the reconciliation job and the controllers; the history query is in \<open>TransferHistory\<close>.

  Every transaction is one atomic step: its first write takes the lock of the transfer's row, and all
  writers of a transfer's history and idempotency record write that row first. Between the steps, at
  the \<open>await\<close>s of a request, \<open>tv_others\<close> acts. The number of each \<open>pause\<close> is its place in the code.
  What a provider answers with a success status is taken to have the shape of its DTO.
\<close>

section \<open>Clients\<close>

definition upstream ::
  "string \<Rightarrow> string \<Rightarrow> string option \<Rightarrow> string option \<Rightarrow> ('w \<Rightarrow> 'a fetched \<times> 'w) \<Rightarrow> ('w transfer_state, 'a) act" where
  "upstream service upper url token send s =
     (if \<not> truthy url \<or> \<not> truthy token then (Inl (UpstreamUnavailableError service), s)
      else let (r, w) = send (outside s)
           in (internal_request service upper url token r, s\<lparr>outside := w\<rparr>))"

definition account_validation :: "'w transfer_env \<Rightarrow> uuid \<Rightarrow> ('w transfer_state, wallet_validation) act" where
  "account_validation v wallet =
     upstream ''account'' ''ACCOUNT'' (tv_account_url v) (tv_token v) (tv_validation v wallet)"

definition ledger_post :: "'w transfer_env \<Rightarrow> create_posting_dto \<Rightarrow> ('w transfer_state, posting_response) act" where
  "ledger_post v c = upstream ''ledger'' ''LEDGER'' (tv_ledger_url v) (tv_token v) (tv_post v c)"

definition ledger_by_reference ::
  "'w transfer_env \<Rightarrow> uuid \<Rightarrow> ('w transfer_state, posting_response option) act" where
  "ledger_by_reference v reference =
     catch
       (bnd (upstream ''ledger'' ''LEDGER'' (tv_ledger_url v) (tv_token v) (tv_by_reference v reference))
          (\<lambda>p. ret (Some p)))
       (\<lambda>e. case e of
          UpstreamHttpError _ status _ _ _ \<Rightarrow> if status = 404 then ret None else throw e
        | _ \<Rightarrow> throw e)"

definition fx_consume ::
  "'w transfer_env \<Rightarrow> uuid \<Rightarrow> consume_quote_dto \<Rightarrow> ('w transfer_state, quote_response) act" where
  "fx_consume v i c = upstream ''fx'' ''FX'' (tv_fx_url v) (tv_token v) (tv_consume v i c)"

section \<open>Errors\<close>

definition invalid_idempotency_key :: failure where
  "invalid_idempotency_key = http_failure 400 ''INVALID_IDEMPOTENCY_KEY''
     ''Idempotency-Key must contain 1 to 128 visible ASCII characters.''"

definition same_wallet_transfer :: failure where
  "same_wallet_transfer =
     http_failure 400 ''SAME_WALLET_TRANSFER'' ''Sender and recipient wallets must be different.''"

definition same_currency_transfer :: failure where
  "same_currency_transfer =
     http_failure 400 ''SAME_CURRENCY_TRANSFER'' ''International transfer currencies must differ.''"

definition invalid_transfer_amount :: failure where
  "invalid_transfer_amount =
     http_failure 400 ''INVALID_TRANSFER_AMOUNT'' ''Transfer amount must be positive.''"

definition payload_mismatch :: failure where
  "payload_mismatch = http_failure 409 ''IDEMPOTENCY_PAYLOAD_MISMATCH''
     ''The idempotency key was already used with a different request.''"

definition key_expired :: failure where
  "key_expired = http_failure 409 ''IDEMPOTENCY_KEY_EXPIRED''
     ''The idempotency replay window has expired; use a new key.''"

definition quote_bound :: failure where
  "quote_bound =
     http_failure 409 ''QUOTE_ALREADY_USED'' ''The quote is already bound to another transfer.''"

definition transfer_not_found :: failure where
  "transfer_not_found = http_failure 404 ''TRANSFER_NOT_FOUND'' ''Transfer not found.''"

definition transfer_access_denied :: failure where
  "transfer_access_denied = http_failure 403 ''TRANSFER_ACCESS_DENIED''
     ''The transfer is not accessible to this principal.''"

definition sender_access_denied :: failure where
  "sender_access_denied = http_failure 403 ''WALLET_ACCESS_DENIED''
     ''The sender wallet is not owned by this principal.''"

definition wallet_unavailable :: failure where
  "wallet_unavailable = http_failure 409 ''WALLET_UNAVAILABLE''
     ''Both wallets must be active and provisioned.''"

definition currency_mismatch :: failure where
  "currency_mismatch = http_failure 409 ''CURRENCY_MISMATCH''
     ''Domestic transfer wallets and request currency must match.''"

definition wallet_not_found :: failure where
  "wallet_not_found = http_failure 404 ''WALLET_NOT_FOUND'' ''Wallet not found.''"

definition account_unavailable :: failure where
  "account_unavailable = http_failure 503 ''ACCOUNT_UNAVAILABLE''
     ''Account service is temporarily unavailable.''"

definition missing_terms :: failure where
  "missing_terms = PlainError ''Cannot read properties of null''"

section \<open>Pure functions\<close>

text \<open>\<open>^[\x21-\x7E]{1,128}$\<close>.\<close>

definition idempotency_key_ok :: "string \<Rightarrow> bool" where
  "idempotency_key_ok t \<longleftrightarrow>
     1 \<le> length t \<and> length t \<le> 128 \<and>
     list_all (\<lambda>c. let n = (of_char c :: nat) in 33 \<le> n \<and> n \<le> 126) t"

definition validate_command :: "decimal_lib \<Rightarrow> create_transfer_dto \<Rightarrow> failure option" where
  "validate_command D c =
     (if ct_sender c = ct_recipient c then Some same_wallet_transfer
      else if \<not> dl_positive D (dl_of D (ct_amount c)) then Some invalid_transfer_amount
      else None)"

definition validate_international :: "decimal_lib \<Rightarrow> create_international_dto \<Rightarrow> failure option" where
  "validate_international D c =
     (if ci_sender c = ci_recipient c then Some same_wallet_transfer
      else if ci_source_currency c = ci_target_currency c then Some same_currency_transfer
      else if \<not> dl_positive D (dl_of D (ci_source_amount c)) then Some invalid_transfer_amount
      else None)"

definition validate_wallets ::
  "transfer \<Rightarrow> wallet_validation \<Rightarrow> wallet_validation \<Rightarrow> failure option" where
  "validate_wallets t sender recipient =
     (if wv_owner sender \<noteq> tr_client t then Some sender_access_denied
      else if wv_status sender \<noteq> ''ACTIVE'' \<or> wv_status recipient \<noteq> ''ACTIVE'' \<or>
              \<not> truthy (wv_ledger_account sender) \<or> \<not> truthy (wv_ledger_account recipient)
      then Some wallet_unavailable
      else if wv_currency sender \<noteq> tr_source_currency t \<or> wv_currency recipient \<noteq> tr_target_currency t
      then Some currency_mismatch
      else None)"

definition check_that :: "failure option \<Rightarrow> ('s, unit) act" where
  "check_that problem = (case problem of None \<Rightarrow> ret () | Some e \<Rightarrow> throw e)"

definition domestic_hash :: "'w transfer_env \<Rightarrow> create_transfer_dto \<Rightarrow> string" where
  "domestic_hash v c =
     tv_digest v (JObj
       [(''method'', JStr ''POST''), (''route'', JStr ''/transfers''),
        (''senderWalletId'', JStr (ct_sender c)), (''recipientWalletId'', JStr (ct_recipient c)),
        (''amount'', JStr (dl_fixed (tv_decimal v) 8 (dl_of (tv_decimal v) (ct_amount c)))),
        (''currency'', JStr (ct_currency c))])"

definition international_hash :: "'w transfer_env \<Rightarrow> create_international_dto \<Rightarrow> string" where
  "international_hash v c =
     tv_digest v (JObj
       [(''method'', JStr ''POST''), (''route'', JStr ''/transfers/international''),
        (''senderWalletId'', JStr (ci_sender c)), (''recipientWalletId'', JStr (ci_recipient c)),
        (''sourceAmount'', JStr (dl_fixed (tv_decimal v) 8 (dl_of (tv_decimal v) (ci_source_amount c)))),
        (''sourceCurrency'', JStr (ci_source_currency c)),
        (''targetCurrency'', JStr (ci_target_currency c)), (''quoteId'', JStr (ci_quote c))])"

definition transfer_response_of :: "decimal_lib \<Rightarrow> transfer \<Rightarrow> transfer_response" where
  "transfer_response_of D t =
     \<lparr>rs_id = tr_id t, rs_status = tr_status t,
      rs_source_amount = dl_fixed D 8 (tr_source_amount t), rs_source_currency = tr_source_currency t,
      rs_target_amount = map_option (dl_fixed D 8) (tr_target_amount t),
      rs_target_currency = tr_target_currency t,
      rs_quote = (if truthy (tr_fx_quote t) then tr_fx_quote t else None),
      rs_rate = map_option (dl_fixed D 12) (tr_locked_rate t),
      rs_ledger = tr_ledger t, rs_completed = tr_completed t,
      rs_status_url = (if tr_status t \<in> {Processing, Pending} then Some (''/transfers/'' @ tr_id t) else None),
      rs_failure =
        (if tr_status t = Failed \<and> truthy (tr_failure_code t) \<and> truthy (tr_failure_message t)
         then Some (the (tr_failure_code t), the (tr_failure_message t)) else None)\<rparr>"

definition processing_result :: "decimal_lib \<Rightarrow> transfer \<Rightarrow> execution_result" where
  "processing_result D t = \<lparr>ex_status = 202, ex_body = transfer_response_of D t\<rparr>"

definition result_for_transfer :: "decimal_lib \<Rightarrow> transfer \<Rightarrow> execution_result" where
  "result_for_transfer D t =
     \<lparr>ex_status =
        (if tr_status t = Processing \<or> tr_status t = Pending then 202
         else if tr_status t = Failed then 422 else 201),
      ex_body = transfer_response_of D t\<rparr>"

definition describe_http :: "nat \<Rightarrow> string option \<Rightarrow> string \<Rightarrow> string \<times> string" where
  "describe_http status code msg =
     (case code of Some c \<Rightarrow> (c, msg) | None \<Rightarrow> (''HTTP_'' @ nat_text status, msg))"

definition stale_ms :: "rat option \<Rightarrow> int" where
  "stale_ms setting =
     (case setting of
        Some x \<Rightarrow> if x = of_int \<lfloor>x\<rfloor> \<and> 0 < x then \<lfloor>x\<rfloor> else 30000
      | None \<Rightarrow> 30000)"

definition replay_window_ms :: int where
  "replay_window_ms = 24 * 60 * 60 * 1000"

definition retention_window_ms :: int where
  "retention_window_ms = 7 * 365 * 24 * 60 * 60 * 1000"

section \<open>Reads\<close>

definition find_by_key :: "string \<Rightarrow> string \<Rightarrow> 'w transfer_state \<Rightarrow> (transfer \<times> idem_record) option" where
  "find_by_key client key s =
     (case List.find (\<lambda>r. (ir_client r, ir_key r) = (client, key)) (records s) of
        None \<Rightarrow> None
      | Some r \<Rightarrow> map_option (\<lambda>t. (t, r)) (find_row (ir_transfer r) s))"

definition find_transfer :: "uuid \<Rightarrow> ('w transfer_state, transfer) act" where
  "find_transfer i =
     bnd (gets (find_row i)) (\<lambda>found.
     case found of None \<Rightarrow> throw transfer_not_found | Some t \<Rightarrow> ret t)"

text \<open>\<open>findUniqueOrThrow\<close>.\<close>

definition row_or_throw :: "uuid \<Rightarrow> ('w transfer_state, transfer) act" where
  "row_or_throw i =
     bnd (gets (find_row i)) (\<lambda>found.
     case found of None \<Rightarrow> throw (DbError P2025) | Some t \<Rightarrow> ret t)"

definition read_wallet :: "'w transfer_env \<Rightarrow> uuid \<Rightarrow> ('w transfer_state, wallet_validation) act" where
  "read_wallet v wallet =
     bnd (pause (tv_others v 16)) (\<lambda>_.
     catch (account_validation v wallet)
       (\<lambda>e. case e of
          UpstreamUnavailableError _ \<Rightarrow> throw account_unavailable
        | UpstreamHttpError _ status _ _ _ \<Rightarrow>
            if status = 404 then throw wallet_not_found else throw account_unavailable
        | _ \<Rightarrow> throw e))"

section \<open>Transactions\<close>

text \<open>\<open>complete\<close>: its transaction, then the answer.\<close>

definition complete_transaction ::
  "'w transfer_env \<Rightarrow> uuid \<Rightarrow> uuid \<Rightarrow> ('w transfer_state, transfer) act" where
  "complete_transaction v i ledger =
     bnd (update_transfers (\<lambda>t. tr_id t = i \<and> tr_status t = Processing)
            (\<lambda>t. Some (t\<lparr>tr_status := Completed, tr_ledger := Some ledger, tr_completed := Some (tv_now v 2),
                         tr_version := tr_version t + 1, tr_updated := tv_now v 7\<rparr>))) (\<lambda>count.
     if count = 0 then row_or_throw i
     else
       bnd (update_history (\<lambda>h. hr_transfer h = i) (\<lambda>h. h\<lparr>hr_status := Completed\<rparr>)) (\<lambda>_.
       bnd (row_or_throw i) (\<lambda>t.
       bnd (update_records (\<lambda>r. ir_transfer r = i)
              (\<lambda>r. r\<lparr>ir_state := KeyCompleted, ir_status := Some 201,
                     ir_body := Some (transfer_response_of (tv_decimal v) t)\<rparr>)) (\<lambda>changed.
       bnd (ensure (changed \<noteq> 0) (DbError P2025)) (\<lambda>_. ret t)))))"

definition complete :: "'w transfer_env \<Rightarrow> uuid \<Rightarrow> uuid \<Rightarrow> ('w transfer_state, execution_result) act" where
  "complete v i ledger =
     bnd (pause (tv_others v 15)) (\<lambda>_.
     bnd (transaction (\<lambda>_. True) (complete_transaction v i ledger)) (\<lambda>t.
     ret (if tr_status t = Completed
          then \<lparr>ex_status = 201, ex_body = transfer_response_of (tv_decimal v) t\<rparr>
          else result_for_transfer (tv_decimal v) t)))"

definition fail_transaction ::
  "'w transfer_env \<Rightarrow> uuid \<Rightarrow> nat \<Rightarrow> string \<Rightarrow> string \<Rightarrow> ('w transfer_state, transfer \<times> bool) act" where
  "fail_transaction v i status code msg =
     bnd (update_transfers (\<lambda>t. tr_id t = i \<and> tr_status t \<in> {Pending, Processing})
            (\<lambda>t. Some (t\<lparr>tr_status := Failed, tr_failure_code := Some code, tr_failure_message := Some msg,
                         tr_version := tr_version t + 1, tr_updated := tv_now v 8\<rparr>))) (\<lambda>count.
     bnd (if count = 1
          then update_history (\<lambda>h. hr_transfer h = i) (\<lambda>h. h\<lparr>hr_status := Failed\<rparr>)
          else ret ()) (\<lambda>_.
     bnd (row_or_throw i) (\<lambda>t.
     bnd (if count = 1
          then update_records (\<lambda>r. ir_transfer r = i \<and> ir_state r = KeyProcessing)
                 (\<lambda>r. r\<lparr>ir_state := KeyFailed, ir_status := Some status,
                        ir_body := Some (transfer_response_of (tv_decimal v) t)\<rparr>)
          else ret 0) (\<lambda>_.
     ret (t, count = 1)))))"

definition fail ::
  "'w transfer_env \<Rightarrow> uuid \<Rightarrow> nat \<Rightarrow> string \<Rightarrow> string \<Rightarrow> ('w transfer_state, execution_result) act" where
  "fail v i status code msg =
     bnd (pause (tv_others v 15)) (\<lambda>_.
     bnd (transaction (\<lambda>_. True) (fail_transaction v i status code msg)) (\<lambda>(t, transitioned).
     ret (if transitioned
          then \<lparr>ex_status = status, ex_body = transfer_response_of (tv_decimal v) t\<rparr>
          else result_for_transfer (tv_decimal v) t)))"

text \<open>\<open>transition\<close>, which is only called from \<open>PENDING\<close> to \<open>PROCESSING\<close>.\<close>

definition transition :: "'w transfer_env \<Rightarrow> uuid \<Rightarrow> ('w transfer_state, unit) act" where
  "transition v i =
     transaction (\<lambda>_. True)
       (bnd (update_transfers (\<lambda>t. tr_id t = i \<and> tr_status t = Pending)
               (\<lambda>t. Some (t\<lparr>tr_status := Processing, tr_version := tr_version t + 1,
                            tr_updated := tv_now v 5\<rparr>))) (\<lambda>count.
        if count = 1
        then update_history (\<lambda>h. hr_transfer h = i \<and> hr_status h = Pending) (\<lambda>h. h\<lparr>hr_status := Processing\<rparr>)
        else ret ()))"

definition claim_processing_retry ::
  "'w transfer_env \<Rightarrow> transfer \<Rightarrow> instant option \<Rightarrow> ('w transfer_state, bool) act" where
  "claim_processing_retry v t stale_before =
     bnd (update_transfers
            (\<lambda>r. tr_id r = tr_id t \<and> tr_status r = Processing \<and> tr_version r = tr_version t \<and>
                 (case stale_before of None \<Rightarrow> True | Some b \<Rightarrow> tr_updated r \<le> b))
            (\<lambda>r. Some (r\<lparr>tr_version := tr_version r + 1, tr_updated := tv_now v 9\<rparr>))) (\<lambda>count.
     ret (count = 1))"

section \<open>Failures of the providers\<close>

definition handle_account_failure ::
  "'w transfer_env \<Rightarrow> uuid \<Rightarrow> failure \<Rightarrow> ('w transfer_state, execution_result) act" where
  "handle_account_failure v i e =
     (case e of
        UpstreamUnavailableError _ \<Rightarrow>
          fail v i 503 ''ACCOUNT_UNAVAILABLE'' ''Account service is temporarily unavailable.''
      | UpstreamHttpError _ status code msg _ \<Rightarrow>
          if status = 404 then fail v i 404 code msg
          else if status = 401 \<or> status = 403 \<or> 500 \<le> status
          then fail v i 503 ''ACCOUNT_UNAVAILABLE'' ''Account service is temporarily unavailable.''
          else fail v i status code msg
      | HttpException status code msg \<Rightarrow>
          fail v i status (fst (describe_http status code msg)) (snd (describe_http status code msg))
      | _ \<Rightarrow> throw e)"

definition handle_fx_failure ::
  "'w transfer_env \<Rightarrow> transfer \<Rightarrow> failure \<Rightarrow> ('w transfer_state, execution_result) act" where
  "handle_fx_failure v t e =
     (case e of
        UpstreamUnavailableError _ \<Rightarrow> ret (processing_result (tv_decimal v) t)
      | UpstreamHttpError _ status code msg _ \<Rightarrow>
          if status = 401 \<or> status = 403 \<or> 500 \<le> status
          then ret (processing_result (tv_decimal v) t)
          else fail v (tr_id t) (if status = 404 then 404 else 409) code msg
      | _ \<Rightarrow> throw e)"

definition handle_ledger_failure ::
  "'w transfer_env \<Rightarrow> transfer \<Rightarrow> failure \<Rightarrow> ('w transfer_state, execution_result) act" where
  "handle_ledger_failure v t e =
     (case e of
        UpstreamUnavailableError _ \<Rightarrow> ret (processing_result (tv_decimal v) t)
      | UpstreamHttpError _ status code msg _ \<Rightarrow>
          if status = 401 \<or> status = 403 \<or> 500 \<le> status
          then ret (processing_result (tv_decimal v) t)
          else fail v (tr_id t) (if code = ''INSUFFICIENT_FUNDS'' then 422 else status) code msg
      | _ \<Rightarrow> throw e)"

section \<open>Processing\<close>

text \<open>\<open>Promise.all\<close> of the two validations, then \<open>validateWallets\<close>.\<close>

definition validated_wallets :: "'w transfer_env \<Rightarrow> transfer \<Rightarrow> ('w transfer_state, unit) act" where
  "validated_wallets v t s =
     (let (r1, s1) = account_validation v (tr_sender t) s;
          (r2, s2) = account_validation v (tr_recipient t) s1
      in case (r1, r2) of
           (Inl e, Inl e') \<Rightarrow> (Inl (if tv_recipient_first v then e' else e), s2)
         | (Inl e, Inr _) \<Rightarrow> (Inl e, s2)
         | (Inr _, Inl e) \<Rightarrow> (Inl e, s2)
         | (Inr a, Inr b) \<Rightarrow> check_that (validate_wallets t a b) s2)"

text \<open>
  The posting of a transfer; the code's non-null assertions on the target amount and the rate fail
  when they are missing.
\<close>

definition posting_command :: "'w transfer_env \<Rightarrow> transfer \<Rightarrow> create_posting_dto option" where
  "posting_command v t =
     (let D = tv_decimal v; amount = dl_fixed D 8 (tr_source_amount t);
          keys = [''walletId'', ''direction'', ''amount'', ''currency'']
      in case tr_target_amount t of
           None \<Rightarrow> None
         | Some target \<Rightarrow>
             if tr_type t = International \<and> tr_locked_rate t = None then None
             else Some
               \<lparr>cp_reference = tr_id t,
                cp_request = (if uuid_pattern (tv_request_id v) then tv_request_id v else tv_fresh_request v),
                cp_type = (if tr_type t = International then FX_TRANSFER_DTO else TRANSFER_DTO),
                cp_source_currency = tr_source_currency t, cp_target_currency = tr_target_currency t,
                cp_source_amount = amount, cp_target_amount = dl_fixed D 8 target,
                cp_fx_quote = (if tr_type t = International then tr_fx_quote t else None),
                cp_locked_rate = (if tr_type t = International
                  then map_option (dl_fixed D 12) (tr_locked_rate t) else None),
                cp_entries =
                  [\<lparr>pe_wallet = tr_sender t, pe_direction = DEBIT, pe_amount = amount,
                    pe_currency = tr_source_currency t, pe_keys = keys\<rparr>,
                   \<lparr>pe_wallet = tr_recipient t, pe_direction = CREDIT, pe_amount = dl_fixed D 8 target,
                    pe_currency = tr_target_currency t, pe_keys = keys\<rparr>]\<rparr>)"

text \<open>
  The outcome of a \<open>try\<close> block, for a handler that continues outside its reach: the promise that
  \<open>return this.complete(...)\<close> gives is not awaited inside the block, so what \<open>complete\<close> throws is not
  caught.
\<close>

definition attempt :: "('s, 'a) act \<Rightarrow> ('s, failure + 'a) act" where
  "attempt m s = (let (r, t) = m s in (Inr r, t))"

definition post_transfer :: "'w transfer_env \<Rightarrow> transfer \<Rightarrow> ('w transfer_state, posting_response) act" where
  "post_transfer v t =
     (case posting_command v t of
        None \<Rightarrow> throw missing_terms
      | Some c \<Rightarrow> ledger_post v c)"

definition process :: "'w transfer_env \<Rightarrow> uuid \<Rightarrow> ('w transfer_state, execution_result) act" where
  "process v i =
     bnd (pause (tv_others v 11)) (\<lambda>_.
     bnd (find_transfer i) (\<lambda>t.
     if tr_status t \<noteq> Processing then ret (result_for_transfer (tv_decimal v) t)
     else
       bnd (pause (tv_others v 12)) (\<lambda>_.
       bnd (attempt (validated_wallets v t)) (\<lambda>checked.
       case checked of
         Inl e \<Rightarrow> handle_account_failure v (tr_id t) e
       | Inr _ \<Rightarrow>
           bnd (pause (tv_others v 13)) (\<lambda>_.
           bnd (attempt (post_transfer v t)) (\<lambda>posted.
           case posted of
             Inl e \<Rightarrow> handle_ledger_failure v t e
           | Inr p \<Rightarrow> complete v (tr_id t) (pr_id p)))))))"

section \<open>Preparation of an international transfer\<close>

definition consume_command :: "'w transfer_env \<Rightarrow> transfer \<Rightarrow> consume_quote_dto" where
  "consume_command v t =
     \<lparr>uq_source_currency = tr_source_currency t, uq_target_currency = tr_target_currency t,
      uq_source_amount = dl_fixed (tv_decimal v) 8 (tr_source_amount t), uq_transfer = tr_id t,
      uq_client = tr_client t\<rparr>"

definition history_rows :: "'w transfer_env \<Rightarrow> transfer \<Rightarrow> rat \<Rightarrow> transfer_status \<Rightarrow> history_row list" where
  "history_rows v t target status =
     [\<lparr>hr_id = tv_history_id v 0, hr_transfer = tr_id t, hr_wallet = tr_sender t, hr_role = Sender,
       hr_counterparty = tr_recipient t, hr_status = status, hr_amount = tr_source_amount t,
       hr_currency = tr_source_currency t, hr_fx_quote = tr_fx_quote t, hr_occurred = tr_created t\<rparr>,
      \<lparr>hr_id = tv_history_id v 1, hr_transfer = tr_id t, hr_wallet = tr_recipient t, hr_role = Recipient,
       hr_counterparty = tr_sender t, hr_status = status, hr_amount = target,
       hr_currency = tr_target_currency t, hr_fx_quote = tr_fx_quote t, hr_occurred = tr_created t\<rparr>]"

definition prepare_transaction ::
  "'w transfer_env \<Rightarrow> transfer \<Rightarrow> quote_response \<Rightarrow> ('w transfer_state, bool) act" where
  "prepare_transaction v t q =
     (let target = dl_of (tv_decimal v) (qr_target_amount q); rate = dl_of (tv_decimal v) (qr_rate q) in
      bnd (update_transfers
             (\<lambda>r. tr_id r = tr_id t \<and> tr_status r = Pending \<and> tr_target_amount r = None \<and>
                  tr_locked_rate r = None)
             (\<lambda>r. case (money_column target, rate_column rate) of
                 (Some a, Some b) \<Rightarrow>
                   Some (r\<lparr>tr_target_amount := Some a, tr_locked_rate := Some b, tr_status := Processing,
                           tr_version := tr_version r + 1, tr_updated := tv_now v 6\<rparr>)
               | _ \<Rightarrow> None)) (\<lambda>count.
      bnd (if count = 1 then each create_history (history_rows v t target Processing) else ret []) (\<lambda>_.
      ret (count = 1))))"

definition prepare_international ::
  "'w transfer_env \<Rightarrow> transfer \<Rightarrow> ('w transfer_state, execution_result) act" where
  "prepare_international v t =
     (if tr_status t \<noteq> Pending \<or> tr_type t \<noteq> International \<or> \<not> truthy (tr_fx_quote t)
      then ret (result_for_transfer (tv_decimal v) t)
      else
        bnd (pause (tv_others v 8)) (\<lambda>_.
        bnd (attempt (fx_consume v (the (tr_fx_quote t)) (consume_command v t))) (\<lambda>consumed.
        case consumed of
          Inl e \<Rightarrow> handle_fx_failure v t e
        | Inr q \<Rightarrow>
            bnd (pause (tv_others v 9)) (\<lambda>_.
            bnd (transaction (\<lambda>_. True) (prepare_transaction v t q)) (\<lambda>prepared.
            if \<not> prepared
            then bnd (pause (tv_others v 10)) (\<lambda>_.
                 bnd (find_transfer (tr_id t)) (\<lambda>r. ret (result_for_transfer (tv_decimal v) r)))
            else process v (tr_id t))))))"

section \<open>Claiming an idempotency key\<close>

definition new_domestic :: "'w transfer_env \<Rightarrow> string \<Rightarrow> create_transfer_dto \<Rightarrow> transfer" where
  "new_domestic v client c =
     (let amount = dl_of (tv_decimal v) (ct_amount c)
      in \<lparr>tr_id = tv_transfer_id v, tr_client = client, tr_type = Domestic, tr_status = Pending,
          tr_sender = ct_sender c, tr_recipient = ct_recipient c, tr_source_currency = ct_currency c,
          tr_source_amount = amount, tr_target_currency = ct_currency c, tr_target_amount = Some amount,
          tr_fx_quote = None, tr_locked_rate = None, tr_ledger = None, tr_failure_code = None,
          tr_failure_message = None, tr_created = tv_now v 0, tr_updated = tv_now v 4,
          tr_completed = None, tr_version = 0\<rparr>)"

definition new_international :: "'w transfer_env \<Rightarrow> string \<Rightarrow> create_international_dto \<Rightarrow> transfer" where
  "new_international v client c =
     \<lparr>tr_id = tv_transfer_id v, tr_client = client, tr_type = International, tr_status = Pending,
      tr_sender = ci_sender c, tr_recipient = ci_recipient c,
      tr_source_currency = ci_source_currency c,
      tr_source_amount = dl_of (tv_decimal v) (ci_source_amount c),
      tr_target_currency = ci_target_currency c, tr_target_amount = None,
      tr_fx_quote = Some (ci_quote c), tr_locked_rate = None, tr_ledger = None,
      tr_failure_code = None, tr_failure_message = None, tr_created = tv_now v 0,
      tr_updated = tv_now v 4, tr_completed = None, tr_version = 0\<rparr>"

definition new_record :: "'w transfer_env \<Rightarrow> string \<Rightarrow> string \<Rightarrow> string \<Rightarrow> idem_record" where
  "new_record v client key hash =
     \<lparr>ir_client = client, ir_key = key, ir_hash = hash, ir_state = KeyProcessing,
      ir_transfer = tv_transfer_id v, ir_status = None, ir_body = None,
      ir_replay_until = tv_now v 0 + replay_window_ms,
      ir_retain_until = tv_now v 0 + retention_window_ms\<rparr>"

text \<open>
  The transaction of both claims: the transfer, the history rows of a domestic transfer, the record,
  and the pair read back.
\<close>

definition claim_transaction ::
  "transfer \<Rightarrow> history_row list \<Rightarrow> idem_record \<Rightarrow> ('w transfer_state, transfer \<times> idem_record) act" where
  "claim_transaction t rows r =
     bnd (create_transfer t) (\<lambda>_.
     bnd (each create_history rows) (\<lambda>_.
     bnd (create_record r) (\<lambda>_.
     bnd (row_or_throw (tr_id t)) (\<lambda>row.
     bnd (gets (find_record (tr_id t))) (\<lambda>found.
     case found of None \<Rightarrow> throw missing_terms | Some q \<Rightarrow> ret (row, q))))))"

definition claim ::
  "'w transfer_env \<Rightarrow> string \<Rightarrow> string \<Rightarrow> string \<Rightarrow> create_transfer_dto \<Rightarrow>
     ('w transfer_state, bool \<times> transfer \<times> idem_record) act" where
  "claim v client key hash c =
     bnd (gets (find_by_key client key)) (\<lambda>existing.
     case existing of
       Some tr \<Rightarrow> ret (False, tr)
     | None \<Rightarrow>
         bnd (pause (tv_others v 0)) (\<lambda>_.
         catch
           (bnd (transaction (\<lambda>_. True)
                   (claim_transaction (new_domestic v client c)
                      (history_rows v (new_domestic v client c) (dl_of (tv_decimal v) (ct_amount c)) Pending)
                      (new_record v client key hash)))
              (\<lambda>tr. ret (True, tr)))
           (\<lambda>e. if is_unique_violation e
                then bnd (pause (tv_others v 1)) (\<lambda>_.
                     bnd (gets (find_by_key client key)) (\<lambda>winner.
                     case winner of Some tr \<Rightarrow> ret (False, tr) | None \<Rightarrow> throw e))
                else throw e)))"

definition claim_international ::
  "'w transfer_env \<Rightarrow> string \<Rightarrow> string \<Rightarrow> string \<Rightarrow> create_international_dto \<Rightarrow>
     ('w transfer_state, bool \<times> transfer \<times> idem_record) act" where
  "claim_international v client key hash c =
     bnd (gets (find_by_key client key)) (\<lambda>existing.
     case existing of
       Some tr \<Rightarrow> ret (False, tr)
     | None \<Rightarrow>
         bnd (pause (tv_others v 0)) (\<lambda>_.
         catch
           (bnd (transaction (\<lambda>_. True)
                   (claim_transaction (new_international v client c) [] (new_record v client key hash)))
              (\<lambda>tr. ret (True, tr)))
           (\<lambda>e. if is_unique_violation e
                then bnd (pause (tv_others v 1)) (\<lambda>_.
                     bnd (gets (find_by_key client key)) (\<lambda>winner.
                     case winner of
                       Some tr \<Rightarrow> ret (False, tr)
                     | None \<Rightarrow>
                         bnd (gets (\<lambda>s. \<exists>t\<in>set (transfers s). tr_fx_quote t = Some (ci_quote c))) (\<lambda>bound.
                         if bound then throw quote_bound else throw e)))
                else throw e)))"

section \<open>Reconciliation and creation\<close>

definition reconcile :: "'w transfer_env \<Rightarrow> uuid \<Rightarrow> bool \<Rightarrow> ('w transfer_state, execution_result) act" where
  "reconcile v i force =
     bnd (find_transfer i) (\<lambda>t.
     if tr_status t = Pending \<and> tr_type t = International
     then bnd (pause (tv_others v 5)) (\<lambda>_. bnd (row_or_throw (tr_id t)) (prepare_international v))
     else if tr_status t \<noteq> Processing then ret (result_for_transfer (tv_decimal v) t)
     else
       bnd (pause (tv_others v 5)) (\<lambda>_.
       bnd (attempt (ledger_by_reference v (tr_id t))) (\<lambda>answer.
       case answer of
         Inl (UpstreamUnavailableError _) \<Rightarrow> ret (processing_result (tv_decimal v) t)
       | Inl e \<Rightarrow> throw e
       | Inr (Some p) \<Rightarrow> complete v (tr_id t) (pr_id p)
       | Inr None \<Rightarrow>
           let stale_before = tv_now v 3 - stale_ms (tv_stale_setting v) in
           if \<not> force \<and> stale_before < tr_updated t then ret (processing_result (tv_decimal v) t)
           else
             bnd (pause (tv_others v 6)) (\<lambda>_.
             bnd (claim_processing_retry v t (if force then None else Some stale_before)) (\<lambda>claimed.
             if \<not> claimed
             then bnd (pause (tv_others v 7)) (\<lambda>_.
                  bnd (find_transfer (tr_id t)) (\<lambda>r. ret (result_for_transfer (tv_decimal v) r)))
             else process v (tr_id t))))))"

definition handle_existing ::
  "'w transfer_env \<Rightarrow> transfer \<Rightarrow> idem_record \<Rightarrow> string \<Rightarrow> ('w transfer_state, execution_result) act" where
  "handle_existing v t r hash =
     bnd (ensure (ir_hash r = hash) payload_mismatch) (\<lambda>_.
     bnd (pause (tv_others v 4)) (\<lambda>_.
     bnd (ensure (tv_now v 1 < ir_replay_until r) key_expired) (\<lambda>_.
     case (ir_state r, ir_status r, ir_body r) of
       (KeyProcessing, _, _) \<Rightarrow> reconcile v (tr_id t) False
     | (_, Some status, Some body) \<Rightarrow>
         if status \<noteq> 0 then ret \<lparr>ex_status = status, ex_body = body\<rparr> else reconcile v (tr_id t) False
     | _ \<Rightarrow> reconcile v (tr_id t) False)))"

definition create_domestic ::
  "'w transfer_env \<Rightarrow> string \<Rightarrow> string \<Rightarrow> create_transfer_dto \<Rightarrow> ('w transfer_state, execution_result) act" where
  "create_domestic v client key c =
     bnd (ensure (idempotency_key_ok key) invalid_idempotency_key) (\<lambda>_.
     bnd (check_that (validate_command (tv_decimal v) c)) (\<lambda>_.
     let hash = domestic_hash v c in
     bnd (claim v client key hash c) (\<lambda>(created, t, r).
     if \<not> created then handle_existing v t r hash
     else
       bnd (pause (tv_others v 2)) (\<lambda>_.
       bnd (transition v (tr_id t)) (\<lambda>_.
       process v (tr_id t))))))"

definition create_international ::
  "'w transfer_env \<Rightarrow> string \<Rightarrow> string \<Rightarrow> create_international_dto \<Rightarrow> ('w transfer_state, execution_result) act" where
  "create_international v client key c =
     bnd (ensure (idempotency_key_ok key) invalid_idempotency_key) (\<lambda>_.
     bnd (check_that (validate_international (tv_decimal v) c)) (\<lambda>_.
     let hash = international_hash v c in
     bnd (claim_international v client key hash c) (\<lambda>(created, t, r).
     if \<not> created then handle_existing v t r hash
     else prepare_international v t)))"

definition get_for_principal :: "'w transfer_env \<Rightarrow> string \<Rightarrow> uuid \<Rightarrow> ('w transfer_state, transfer_response) act" where
  "get_for_principal v client i =
     bnd (find_transfer i) (\<lambda>t.
     if tr_client t = client then ret (transfer_response_of (tv_decimal v) t)
     else
       bnd (read_wallet v (tr_recipient t)) (\<lambda>w.
       bnd (ensure (wv_owner w = client) transfer_access_denied) (\<lambda>_.
       ret (transfer_response_of (tv_decimal v) t))))"

definition get_internal :: "'w transfer_env \<Rightarrow> uuid \<Rightarrow> ('w transfer_state, transfer_response) act" where
  "get_internal v i = bnd (find_transfer i) (\<lambda>t. ret (transfer_response_of (tv_decimal v) t))"

text \<open>\<open>findStale\<close>: the oldest first, at most \<open>limit\<close>.\<close>

definition is_stale :: "instant \<Rightarrow> transfer \<Rightarrow> bool" where
  "is_stale stale_before t \<longleftrightarrow>
     tr_updated t \<le> stale_before \<and>
     (tr_status t = Processing \<or> (tr_status t = Pending \<and> tr_type t = International))"

definition find_stale :: "'w transfer_env \<Rightarrow> nat \<Rightarrow> 'w transfer_state \<Rightarrow> uuid list" where
  "find_stale v limit s =
     (let stale_before = tv_now v 10 - stale_ms (tv_stale_setting v)
      in map tr_id (take limit (sort_key (\<lambda>t. (tr_updated t, tr_id t))
           (filter (is_stale stale_before) (transfers s)))))"

text \<open>
  \<open>ReconciliationService.runOnce\<close>: nothing while a run is in progress; the environment of the \<open>k\<close>-th
  call is \<open>vs k\<close>. A failure of one transfer does not stop the others.
\<close>

definition run_once :: "(nat \<Rightarrow> 'w transfer_env) \<Rightarrow> ('w transfer_state, nat) act" where
  "run_once vs =
     bnd (gets reconciling) (\<lambda>running.
     if running then ret 0
     else
       bnd (modify (\<lambda>s. s\<lparr>reconciling := True\<rparr>)) (\<lambda>_.
       bnd (gets (find_stale (vs 0) 50)) (\<lambda>ids.
       bnd (each (\<lambda>(k, i). catch (bnd (reconcile (vs k) i True) (\<lambda>_. ret ())) (\<lambda>_. ret ()))
              (enumerate 1 ids)) (\<lambda>_.
       bnd (modify (\<lambda>s. s\<lparr>reconciling := False\<rparr>)) (\<lambda>_.
       ret (length ids))))))"

section \<open>Routes\<close>

record transfer_http =
  th_is_uuid :: "string \<Rightarrow> bool"
  th_token :: "string option"       \<comment> \<open>the configured internal token\<close>
  th_supplied :: "string option"    \<comment> \<open>the token of the request\<close>

definition create_domestic_route ::
  "transfer_http \<Rightarrow> 'w transfer_env \<Rightarrow> string option \<Rightarrow> string option \<Rightarrow> create_transfer_dto \<Rightarrow>
     ('w transfer_state, execution_result) act" where
  "create_domestic_route h v header key c =
     validated (create_transfer_ok (th_is_uuid h) c) (with_principal header (\<lambda>client.
     create_domestic v client (case key of None \<Rightarrow> [] | Some k \<Rightarrow> k) c))"

definition create_international_route ::
  "transfer_http \<Rightarrow> 'w transfer_env \<Rightarrow> string option \<Rightarrow> string option \<Rightarrow> create_international_dto \<Rightarrow>
     ('w transfer_state, execution_result) act" where
  "create_international_route h v header key c =
     validated (create_international_ok (th_is_uuid h) c) (with_principal header (\<lambda>client.
     create_international v client (case key of None \<Rightarrow> [] | Some k \<Rightarrow> k) c))"

definition get_transfer_route ::
  "transfer_http \<Rightarrow> 'w transfer_env \<Rightarrow> string option \<Rightarrow> uuid \<Rightarrow> ('w transfer_state, transfer_response) act" where
  "get_transfer_route h v header i =
     validated (th_is_uuid h i) (with_principal header (\<lambda>client. get_for_principal v client i))"

definition get_internal_route ::
  "transfer_http \<Rightarrow> 'w transfer_env \<Rightarrow> uuid \<Rightarrow> ('w transfer_state, transfer_response) act" where
  "get_internal_route h v i =
     guarded (th_token h) (th_supplied h) (validated (th_is_uuid h i) (get_internal v i))"

definition run_reconciliation_route ::
  "transfer_http \<Rightarrow> (nat \<Rightarrow> 'w transfer_env) \<Rightarrow> ('w transfer_state, nat) act" where
  "run_reconciliation_route h vs = guarded (th_token h) (th_supplied h) (run_once vs)"

definition reconcile_route ::
  "transfer_http \<Rightarrow> 'w transfer_env \<Rightarrow> uuid \<Rightarrow> ('w transfer_state, execution_result) act" where
  "reconcile_route h v i =
     guarded (th_token h) (th_supplied h) (validated (th_is_uuid h i) (reconcile v i True))"

end
