(* ===== verification/TransferProofs.thy ===== *)
theory TransferProofs
  imports TransferService LedgerEffects
begin

text \<open>
  The invariant of the Transfer service and the relation between two states of its runs: identifiers
  and commands never change, a status only moves along \<open>status_step\<close>, what is completed or failed
  stays as it is, every transfer has one idempotency record that agrees with it, and its history rows
  are those that a rebuild would write.
\<close>

section \<open>The invariant\<close>

text \<open>\<open>expectedRows\<close> of the history projection, with an empty identifier.\<close>

definition expected_rows :: "transfer \<Rightarrow> history_row list" where
  "expected_rows t =
     (if tr_type t = International \<and> tr_target_amount t = None then []
      else
        [\<lparr>hr_id = [], hr_transfer = tr_id t, hr_wallet = tr_sender t, hr_role = Sender,
          hr_counterparty = tr_recipient t, hr_status = tr_status t, hr_amount = tr_source_amount t,
          hr_currency = tr_source_currency t, hr_fx_quote = tr_fx_quote t, hr_occurred = tr_created t\<rparr>,
         \<lparr>hr_id = [], hr_transfer = tr_id t, hr_wallet = tr_recipient t, hr_role = Recipient,
          hr_counterparty = tr_sender t, hr_status = tr_status t,
          hr_amount = (case tr_target_amount t of None \<Rightarrow> tr_source_amount t | Some a \<Rightarrow> a),
          hr_currency = tr_target_currency t, hr_fx_quote = tr_fx_quote t, hr_occurred = tr_created t\<rparr>])"

definition anonymous :: "history_row \<Rightarrow> history_row" where
  "anonymous h = h\<lparr>hr_id := []\<rparr>"

definition history_of :: "uuid \<Rightarrow> 'w transfer_state \<Rightarrow> history_row list" where
  "history_of i s = filter (\<lambda>h. hr_transfer h = i) (history s)"

definition records_of :: "uuid \<Rightarrow> 'w transfer_state \<Rightarrow> idem_record list" where
  "records_of i s = filter (\<lambda>r. ir_transfer r = i) (records s)"

definition record_matches :: "decimal_lib \<Rightarrow> transfer \<Rightarrow> idem_record \<Rightarrow> bool" where
  "record_matches D t r \<longleftrightarrow>
     ir_client r = tr_client t \<and> ir_transfer r = tr_id t \<and> ir_replay_until r \<le> ir_retain_until r \<and>
     (case tr_status t of
        Completed \<Rightarrow> ir_state r = KeyCompleted \<and> ir_status r = Some 201 \<and>
          ir_body r = Some (transfer_response_of D t)
      | Failed \<Rightarrow> ir_state r = KeyFailed \<and> (\<exists>status. ir_status r = Some status \<and> 100 \<le> status) \<and>
          ir_body r = Some (transfer_response_of D t)
      | Reversed \<Rightarrow> False
      | _ \<Rightarrow> ir_state r = KeyProcessing \<and> ir_status r = None \<and> ir_body r = None)"

definition target_ok :: "transfer \<Rightarrow> bool" where
  "target_ok t \<longleftrightarrow>
     pred_option (has_places 8) (tr_target_amount t) \<and> (tr_type t = Domestic \<longrightarrow> tr_target_amount t \<noteq> None)"

definition row_ok :: "decimal_lib \<Rightarrow> 'w transfer_state \<Rightarrow> transfer \<Rightarrow> bool" where
  "row_ok D s t \<longleftrightarrow>
     transfer_check t \<and> has_places 8 (tr_source_amount t) \<and>
     target_ok t \<and> (\<exists>r. records_of (tr_id t) s = [r] \<and> record_matches D t r) \<and>
     map anonymous (history_of (tr_id t) s) = expected_rows t"

definition record_key :: "idem_record \<Rightarrow> string \<times> string \<times> string \<times> uuid \<times> instant" where
  "record_key r = (ir_client r, ir_key r, ir_hash r, ir_transfer r, ir_replay_until r)"

definition transfers_ok :: "decimal_lib \<Rightarrow> 'w transfer_state \<Rightarrow> bool" where
  "transfers_ok D s \<longleftrightarrow>
     distinct (map tr_id (transfers s)) \<and> (\<forall>t\<in>set (transfers s). row_ok D s t) \<and>
     unique_some tr_ledger (transfers s) \<and> unique_some tr_fx_quote (transfers s) \<and>
     distinct (map (\<lambda>r. (ir_client r, ir_key r)) (records s)) \<and>
     (\<forall>r\<in>set (records s). ir_transfer r \<in> tr_id ` set (transfers s)) \<and>
     (\<forall>h\<in>set (history s). hr_transfer h \<in> tr_id ` set (transfers s))"

section \<open>The relation between two states\<close>

definition later_transfer :: "transfer \<Rightarrow> transfer \<Rightarrow> bool" where
  "later_transfer p q \<longleftrightarrow>
     tr_id q = tr_id p \<and> same_command p q \<and> tr_created q = tr_created p \<and>
     rtranclp status_step (tr_status p) (tr_status q) \<and>
     ((tr_status p = Pending \<and> tr_target_amount p = None) \<or>
      (tr_target_amount q = tr_target_amount p \<and> tr_locked_rate q = tr_locked_rate p)) \<and>
     (tr_status p \<in> {Completed, Failed} \<longrightarrow> q = p) \<and> tr_version p \<le> tr_version q"

definition later_record :: "idem_record \<Rightarrow> idem_record \<Rightarrow> bool" where
  "later_record p q \<longleftrightarrow> record_key q = record_key p \<and> (ir_state p \<noteq> KeyProcessing \<longrightarrow> q = p)"

definition transfers_later :: "'w transfer_state \<Rightarrow> 'w transfer_state \<Rightarrow> bool" where
  "transfers_later s t \<longleftrightarrow>
     grows later_transfer (transfers s) (transfers t) \<and> grows later_record (records s) (records t)"

definition transfer_step :: "decimal_lib \<Rightarrow> 'w transfer_state \<Rightarrow> 'w transfer_state \<Rightarrow> bool" where
  "transfer_step D s t \<longleftrightarrow> (transfers_ok D s \<longrightarrow> transfers_ok D t \<and> transfers_later s t)"

lemma later_transfer_refl [simp]: "later_transfer t t"
  by (simp add: later_transfer_def same_command_def)

lemma status_reach_pending: "rtranclp status_step a Pending \<Longrightarrow> a = Pending"
  by (induction rule: converse_rtranclp_induct) (auto elim: status_step.cases)

lemma later_transfer_trans: "later_transfer p q \<Longrightarrow> later_transfer q r \<Longrightarrow> later_transfer p r"
  unfolding later_transfer_def same_command_def
  by (auto dest: status_reach_pending)

lemma later_record_refl [simp]: "later_record r r"
  by (simp add: later_record_def)

lemma later_record_trans: "later_record p q \<Longrightarrow> later_record q r \<Longrightarrow> later_record p r"
  by (auto simp: later_record_def)

lemma transfers_later_refl [simp]: "transfers_later s s"
  by (simp add: transfers_later_def grows_refl)

lemma transfers_later_trans: "transfers_later s t \<Longrightarrow> transfers_later t u \<Longrightarrow> transfers_later s u"
  unfolding transfers_later_def
  by (meson grows_trans later_record_trans later_transfer_trans)

interpretation tx: two_state "transfer_step D" for D
  by unfold_locales (auto simp: transfer_step_def intro: transfers_later_trans)

text \<open>Tables are all that counts: a step of the outside world is a step.\<close>

lemma same_tables:
  assumes "transfers t = transfers s" "records t = records s" "history t = history s"
  shows "transfer_step D s t"
  using assms
  by (auto simp: transfer_step_def transfers_ok_def transfers_later_def row_ok_def records_of_def
      history_of_def grows_refl)

lemma find_row_later:
  assumes "transfers_later s t" and "find_row i s = Some p"
  shows "\<exists>q. find_row i t = Some q \<and> later_transfer p q"
  using grows_find [of later_transfer "transfers s" "transfers t" tr_id i p] assms
  by (simp add: transfers_later_def find_row_def later_transfer_def)

lemma find_row_Some: "find_row i s = Some t \<Longrightarrow> t \<in> set (transfers s) \<and> tr_id t = i"
  unfolding find_row_def by (rule find_Some_in)

lemma find_row_iff:
  assumes "transfers_ok D s"
  shows "find_row i s = Some t \<longleftrightarrow> t \<in> set (transfers s) \<and> tr_id t = i"
  using assms find_key_unique [of tr_id "transfers s" t i] find_row_Some [of i s t]
  by (auto simp: transfers_ok_def find_row_def)

lemma row_unique:
  "transfers_ok D s \<Longrightarrow> t \<in> set (transfers s) \<Longrightarrow> u \<in> set (transfers s) \<Longrightarrow> tr_id t = tr_id u \<Longrightarrow> t = u"
  unfolding transfers_ok_def by (meson distinct_key)

section \<open>A change of one transfer\<close>

text \<open>
  \<open>row_change D s i t' r' hs s'\<close>: the row \<open>i\<close> has become \<open>t'\<close>, its record \<open>r'\<close> and its history \<open>hs\<close>;
  nothing else has changed.
\<close>

definition row_change ::
  "'w transfer_state \<Rightarrow> uuid \<Rightarrow> transfer \<Rightarrow> idem_record \<Rightarrow> history_row list \<Rightarrow> 'w transfer_state \<Rightarrow> bool" where
  "row_change s i t' r' hs s' \<longleftrightarrow>
     transfers s' = update_where (\<lambda>t. tr_id t = i) (\<lambda>_. t') (transfers s) \<and>
     records s' = update_where (\<lambda>r. ir_transfer r = i) (\<lambda>_. r') (records s) \<and>
     history_of i s' = hs \<and> (\<forall>j. j \<noteq> i \<longrightarrow> history_of j s' = history_of j s) \<and>
     (\<forall>h\<in>set (history s'). hr_transfer h \<in> tr_id ` set (transfers s))"

lemma filter_update_where:
  "(\<And>r. P r \<Longrightarrow> key (f r) = key r) \<Longrightarrow>
     filter (\<lambda>r. key r = k) (update_where P f rows) = update_where P f (filter (\<lambda>r. key r = k) rows)"
  by (induction rows) (auto simp: update_where_def)

lemma update_where_other:
  "(\<And>r. P r \<Longrightarrow> key r = i) \<Longrightarrow> (\<And>r. P r \<Longrightarrow> key (f r) = i) \<Longrightarrow> j \<noteq> i \<Longrightarrow>
     filter (\<lambda>r. key r = j) (update_where P f rows) = filter (\<lambda>r. key r = j) rows"
  by (induction rows) (auto simp: update_where_def)

lemma single_only: "filter Q rows = [r] \<Longrightarrow> q \<in> set rows \<Longrightarrow> Q q \<Longrightarrow> q = r"
  by (induction rows) (auto simp: filter_empty_conv split: if_splits)

lemma map_update_single:
  assumes "filter Q rows = [r]" and "key x = key r"
  shows "map key (update_where Q (\<lambda>_. x) rows) = map key rows"
  using single_only [OF assms(1)] assms(2) by (auto simp: update_where_def)

lemma update_where_single:
  assumes "filter Q rows = [r]" and "\<And>q. P q \<Longrightarrow> Q q" and "P r"
  shows "update_where P f rows = update_where Q (\<lambda>_. f r) rows"
  using single_only [OF assms(1)] assms(2,3) unfolding update_where_def by (auto intro!: map_cong)

lemma filter_single:
  assumes "distinct (map key rows)" and "r \<in> set rows"
  shows "filter (\<lambda>q. key q = key r) rows = [r]"
  using assms
proof (induction rows)
  case (Cons q rows)
  show ?case
  proof (cases "q = r")
    case True
    then have "filter (\<lambda>q. key q = key r) rows = []"
      using Cons.prems(1) by (auto simp: filter_empty_conv image_iff)
    then show ?thesis using True by simp
  next
    case False
    then have "r \<in> set rows" "key q \<noteq> key r" using Cons.prems by (auto simp: image_iff)
    then show ?thesis using Cons by simp
  qed
qed simp

lemma update_where_found:
  "filter Q rows = [r] \<Longrightarrow> set (update_where Q (\<lambda>_. x) rows) = insert x (set rows - {r})"
proof -
  assume f: "filter Q rows = [r]"
  have "q \<in> set rows \<Longrightarrow> Q q \<longleftrightarrow> q = r" for q
    using arg_cong [OF f, of set] by auto
  moreover have "r \<in> set rows" using arg_cong [OF f, of set] by auto
  ultimately show ?thesis by (auto simp: update_where_def)
qed

lemma filter_set_single:
  "filter (\<lambda>q. key q = i) rows = [r] \<Longrightarrow> key x = i \<Longrightarrow>
     filter (\<lambda>q. key q = i) (update_where (\<lambda>q. key q = i) (\<lambda>_. x) rows) = [x]"
  by (subst filter_update_where) (auto simp: update_where_def filter_eq_Cons_iff)

lemma row_change_inv:
  assumes inv: "transfers_ok D s" and t: "t \<in> set (transfers s)" "tr_id t = i"
    and r: "records_of i s = [r]" and change: "row_change s i t' r' hs s'"
    and t': "tr_id t' = i" "transfer_check t'" "tr_fx_quote t' = tr_fx_quote t"
      "tr_source_amount t' = tr_source_amount t" "target_ok t'"
      "unique_some tr_ledger (transfers s')"
    and r': "record_key r' = record_key r" "record_matches D t' r'"
    and hs: "map anonymous hs = expected_rows t'"
    and later: "later_transfer t t'" "later_record r r'"
  shows "transfers_ok D s' \<and> transfers_later s s'"
proof -
  have tr: "transfers s' = update_where (\<lambda>t. tr_id t = i) (\<lambda>_. t') (transfers s)"
    and rec: "records s' = update_where (\<lambda>r. ir_transfer r = i) (\<lambda>_. r') (records s)"
    and hist: "history_of i s' = hs" "\<And>j. j \<noteq> i \<Longrightarrow> history_of j s' = history_of j s"
      "\<forall>h\<in>set (history s'). hr_transfer h \<in> tr_id ` set (transfers s)"
    using change by (auto simp: row_change_def)
  have only: "filter (\<lambda>q. tr_id q = i) (transfers s) = [t]"
    using inv t filter_single [of tr_id "transfers s" t] by (simp add: transfers_ok_def)
  have ids: "map tr_id (transfers s') = map tr_id (transfers s)"
    unfolding tr by (rule map_update_where) (simp add: t')
  have quotes: "map tr_fx_quote (transfers s') = map tr_fx_quote (transfers s)"
    unfolding tr using only t'(3) by (rule map_update_single)
  have r_in: "r \<in> set (records s)" "ir_transfer r = i"
    using arg_cong [OF r, of set] by (auto simp: records_of_def)
  have key': "ir_transfer r' = i" using r' r_in by (simp add: record_key_def)
  have rset: "set (records s') = insert r' (set (records s) - {r})"
    using update_where_found [of "\<lambda>r. ir_transfer r = i" "records s" r r'] r
    by (simp add: rec records_of_def)
  have keys: "map record_key (records s') = map record_key (records s)"
    unfolding rec using r r'(1) by (intro map_update_single) (simp_all add: records_of_def)
  have recs: "records_of i s' = [r']" "\<And>j. j \<noteq> i \<Longrightarrow> records_of j s' = records_of j s"
  proof -
    show "records_of i s' = [r']"
      using r key' unfolding records_of_def rec by (rule filter_set_single)
    show "records_of j s' = records_of j s" if "j \<noteq> i" for j
      using that unfolding records_of_def rec by (intro update_where_other) (simp_all add: key')
  qed
  have "row_ok D s' q" if q: "q \<in> set (transfers s')" for q
  proof (cases "tr_id q = i")
    case True
    have "q = t'"
      using q True only unfolding tr update_where_def by auto
    moreover have "has_places 8 (tr_source_amount t)"
      using inv t(1) by (simp add: transfers_ok_def row_ok_def)
    ultimately show ?thesis using t' r' recs(1) hist(1) hs by (simp add: row_ok_def)
  next
    case False
    then have "q \<in> set (transfers s)"
      using q t' unfolding tr update_where_def by (auto split: if_splits)
    then have "row_ok D s q" using inv by (simp add: transfers_ok_def)
    then show ?thesis using False recs(2) hist(2) by (simp add: row_ok_def)
  qed
  moreover have "distinct (map (\<lambda>r. (ir_client r, ir_key r)) (records s'))"
  proof -
    have "map (\<lambda>r. (ir_client r, ir_key r)) (records s') = map (\<lambda>r. (ir_client r, ir_key r)) (records s)"
      unfolding rec using r r'(1)
      by (intro map_update_single) (simp_all add: records_of_def record_key_def)
    then show ?thesis using inv by (simp add: transfers_ok_def)
  qed
  moreover have "\<forall>q\<in>set (records s'). ir_transfer q \<in> tr_id ` set (transfers s')"
  proof -
    have "tr_id ` set (transfers s') = tr_id ` set (transfers s)"
      using ids by (metis list.set_map)
    moreover have "\<forall>q\<in>set (records s). ir_transfer q \<in> tr_id ` set (transfers s)"
      using inv by (simp add: transfers_ok_def)
    moreover have "i \<in> tr_id ` set (transfers s)" using t by blast
    ultimately show ?thesis using rset key' by simp
  qed
  moreover have "tr_id ` set (transfers s') = tr_id ` set (transfers s)"
    using ids by (metis list.set_map)
  moreover have "unique_some tr_fx_quote (transfers s')"
    using inv quotes by (simp add: transfers_ok_def unique_some_def)
  moreover have "distinct (map tr_id (transfers s'))"
    using inv ids by (simp add: transfers_ok_def)
  ultimately have ok: "transfers_ok D s'"
    using t'(6) hist(3) by (simp add: transfers_ok_def)
  have "grows later_transfer (transfers s) (transfers s')"
    unfolding tr using inv t later(1) by (intro grows_update) (auto dest: row_unique)
  moreover have "grows later_record (records s) (records s')"
    unfolding rec
  proof (rule grows_update)
    fix q assume "q \<in> set (records s)" "ir_transfer q = i"
    then have "q \<in> set (records_of i s)" by (simp add: records_of_def)
    then show "later_record q r'" using r later(2) by simp
  qed simp
  ultimately show ?thesis using ok by (simp add: transfers_later_def)
qed

section \<open>The transactions\<close>

lemma tx_stepI:
  assumes "\<And>s x s'. transfers_ok D s \<Longrightarrow> m s = (Inr x, s') \<Longrightarrow> transfers_ok D s' \<and> transfers_later s s'"
  shows "steps (transfer_step D) (transaction c m)"
proof (rule stepsI)
  fix s
  obtain r t where t: "transaction c m s = (r, t)" by fastforce
  show "transfer_step D s (snd (transaction c m s))"
  proof (cases r)
    case (Inl e)
    then have "t = s" using t by (simp add: transaction_Inl)
    then show ?thesis by (simp add: t tx.R_refl)
  next
    case (Inr x)
    then have m: "m s = (Inr x, t)" using t by (simp add: transaction_Inr)
    show ?thesis using assms [OF _ m] by (simp add: t transfer_step_def)
  qed
qed

lemma update_transfers_Inl: "update_transfers P f s = (Inl e, s') \<Longrightarrow> s' = s"
  by (auto simp: update_transfers_def Let_def split: if_splits)

lemma filter_only:
  assumes "transfers_ok D s" and "t \<in> set (transfers s)"
  shows "filter (\<lambda>q. tr_id q = tr_id t) (transfers s) = [t]"
  using assms by (simp add: transfers_ok_def filter_single)

lemma update_transfers_Inr:
  assumes u: "update_transfers P f s = (Inr n, s')" and inv: "transfers_ok D s"
    and P: "\<And>q. P q \<Longrightarrow> tr_id q = i"
  shows "(n = 0 \<and> s' = s \<and> (\<forall>q\<in>set (transfers s). \<not> P q)) \<or>
    (\<exists>t t'. n = 1 \<and> t \<in> set (transfers s) \<and> tr_id t = i \<and> P t \<and> f t = Some t' \<and>
      transfer_update_ok t t' \<and> transfer_check t' \<and> unique_some tr_ledger (transfers s') \<and>
      s' = s\<lparr>transfers := update_where (\<lambda>t. tr_id t = i) (\<lambda>_. t') (transfers s)\<rparr>)"
proof (cases "\<exists>t\<in>set (transfers s). P t")
  case False
  then have "update_where P (changed f) (transfers s) = transfers s" "count_where P (transfers s) = 0"
    by (auto intro: update_where_none simp: count_where_def filter_empty_conv)
  then show ?thesis using u False by (auto simp: update_transfers_def Let_def split: if_splits)
next
  case True
  then obtain t where t: "t \<in> set (transfers s)" "P t" by blast
  have only: "filter (\<lambda>q. tr_id q = i) (transfers s) = [t]"
    using filter_only [OF inv t(1)] P t(2) by simp
  have ok: "list_all (\<lambda>t. P t \<longrightarrow> f t \<noteq> None \<and> transfer_update_ok t (changed f t) \<and>
        transfer_check (changed f t)) (transfers s)"
    and s': "s' = s\<lparr>transfers := update_where P (changed f) (transfers s)\<rparr>"
    and uniq: "unique_some tr_ledger (transfers s')" and n: "n = count_where P (transfers s)"
    using u by (auto simp: update_transfers_def Let_def split: if_splits)
  have rows: "update_where P (changed f) (transfers s) =
      update_where (\<lambda>t. tr_id t = i) (\<lambda>_. changed f t) (transfers s)"
    using only P t(2) by (rule update_where_single)
  have "filter P (transfers s) = filter P (filter (\<lambda>q. tr_id q = i) (transfers s))"
    using P by (auto intro: filter_cong)
  then have "filter P (transfers s) = [t]" using only t(2) by simp
  then have "n = 1" by (simp add: n count_where_def)
  moreover obtain t' where "f t = Some t'" using ok t by (auto simp: list_all_iff)
  then have "changed f t = t'" "f t = Some t'" by (simp_all add: changed_def)
  moreover have "transfer_update_ok t (changed f t)" "transfer_check (changed f t)"
    using ok t by (simp_all add: list_all_iff)
  ultimately show ?thesis using t P uniq s' rows by metis
qed

lemma later_of_update:
  assumes "transfer_update_ok t t'" and "tr_status t \<notin> {Completed, Failed}"
    and "tr_id t' = tr_id t" and "tr_created t' = tr_created t" and "tr_version t \<le> tr_version t'"
  shows "later_transfer t t'"
  using assms
  by (auto simp: later_transfer_def transfer_update_ok_def quote_terms_ok_def)

lemma row_record:
  assumes "transfers_ok D s" and "t \<in> set (transfers s)"
  shows "\<exists>r. records_of (tr_id t) s = [r] \<and> record_matches D t r"
  using assms by (simp add: transfers_ok_def row_ok_def)

lemma row_history:
  "transfers_ok D s \<Longrightarrow> t \<in> set (transfers s) \<Longrightarrow> map anonymous (history_of (tr_id t) s) = expected_rows t"
  by (simp add: transfers_ok_def row_ok_def)

lemma expected_rows_status:
  assumes "same_command t t'" and "tr_id t' = tr_id t" and "tr_created t' = tr_created t"
    and "tr_target_amount t' = tr_target_amount t"
  shows "expected_rows t' = map (\<lambda>h. h\<lparr>hr_status := tr_status t'\<rparr>) (expected_rows t)"
  using assms by (simp add: expected_rows_def same_command_def split: option.split)

lemma history_of_update:
  assumes "\<And>h. P h \<Longrightarrow> hr_transfer h = i" and "\<And>h. hr_transfer (g h) = hr_transfer h"
  shows "history_of i (s\<lparr>history := update_where P g (history s)\<rparr>) = update_where P g (history_of i s)"
    and "j \<noteq> i \<Longrightarrow> history_of j (s\<lparr>history := update_where P g (history s)\<rparr>) = history_of j s"
proof -
  show "history_of i (s\<lparr>history := update_where P g (history s)\<rparr>) = update_where P g (history_of i s)"
    unfolding history_of_def by (simp add: filter_update_where assms(2))
  show "history_of j (s\<lparr>history := update_where P g (history s)\<rparr>) = history_of j s" if "j \<noteq> i"
    unfolding history_of_def
    using update_where_other [of P hr_transfer i g j] assms that by simp
qed

lemma records_other:
  "records_of i s = [r] \<Longrightarrow> q \<in> set (records s) \<Longrightarrow> ir_transfer q = i \<Longrightarrow> q = r"
  unfolding records_of_def by (rule single_only)

text \<open>What both terminal transactions do to one row.\<close>

lemma row_change_status:
  assumes inv: "transfers_ok D s" and t: "t \<in> set (transfers s)" "tr_id t = i"
    and r: "records_of i s = [r]"
    and s': "transfers s' = update_where (\<lambda>t. tr_id t = i) (\<lambda>_. t') (transfers s)"
      "records s' = update_where (\<lambda>r. ir_transfer r = i) (\<lambda>_. r') (records s)"
      "history s' = update_where (\<lambda>h. hr_transfer h = i) (\<lambda>h. h\<lparr>hr_status := tr_status t'\<rparr>) (history s)"
    and up: "transfer_update_ok t t'" "tr_status t \<notin> {Completed, Failed}" "tr_status t' \<noteq> Processing"
      "tr_id t' = i" "tr_created t' = tr_created t" "tr_version t' = tr_version t + 1"
      "transfer_check t'" "unique_some tr_ledger (transfers s')"
    and r': "record_key r' = record_key r" "record_matches D t' r'" "later_record r r'"
  shows "transfers_ok D s' \<and> transfers_later s s'"
proof (rule row_change_inv [OF inv t r])
  let ?g = "\<lambda>h. h\<lparr>hr_status := tr_status t'\<rparr>"
  have h: "s'\<lparr>history := history s'\<rparr> = s'" by simp
  have of_i: "history_of i s' = map ?g (history_of i s)"
    using history_of_update(1) [of "\<lambda>h. hr_transfer h = i" i ?g s]
    by (auto simp: history_of_def s'(3) update_where_def)
  have others: "j \<noteq> i \<Longrightarrow> history_of j s' = history_of j s" for j
    using history_of_update(2) [of "\<lambda>h. hr_transfer h = i" i ?g j s]
    by (simp add: history_of_def s'(3))
  have "\<forall>h\<in>set (history s'). hr_transfer h \<in> tr_id ` set (transfers s)"
    using inv unfolding s'(3) transfers_ok_def by (auto dest!: in_update_where)
  then show "row_change s i t' r' (map ?g (history_of i s)) s'"
    using s'(1,2) of_i others by (simp add: row_change_def)
  have same: "same_command t t'" "tr_target_amount t' = tr_target_amount t"
    using up(1,3) by (auto simp: transfer_update_ok_def quote_terms_ok_def)
  have "map anonymous (map ?g (history_of i s)) = map ?g (map anonymous (history_of i s))"
    by (simp add: anonymous_def)
  also have "\<dots> = map ?g (expected_rows t)"
    using row_history [OF inv t(1)] t(2) by simp
  also have "\<dots> = expected_rows t'"
    using expected_rows_status [of t t'] same up(4,5) t(2) by simp
  finally show "map anonymous (map ?g (history_of i s)) = expected_rows t'" .
  show "tr_fx_quote t' = tr_fx_quote t" "tr_source_amount t' = tr_source_amount t"
    using same(1) by (simp_all add: same_command_def)
  show "target_ok t'"
    using inv t(1) same by (simp add: transfers_ok_def row_ok_def target_ok_def same_command_def)
  show "later_transfer t t'"
    using up t(2) by (intro later_of_update) simp_all
qed (use up r' in simp_all)

lemma update_records_Inr:
  assumes u: "update_records P f s = (Inr n, s')" and r: "records_of i s = [r]"
    and P: "\<And>q. P q \<Longrightarrow> ir_transfer q = i" "P r"
  shows "n = 1 \<and> record_update_ok r (f r) \<and> record_check (f r) \<and>
    s' = s\<lparr>records := update_where (\<lambda>r. ir_transfer r = i) (\<lambda>_. f r) (records s)\<rparr>"
proof -
  have rows: "update_where P f (records s) = update_where (\<lambda>r. ir_transfer r = i) (\<lambda>_. f r) (records s)"
    using r P unfolding records_of_def by (rule update_where_single)
  have "filter P (records s) = filter P (records_of i s)"
    unfolding records_of_def using P(1) by (auto intro: filter_cong)
  then have "count_where P (records s) = 1" using r P(2) by (simp add: count_where_def)
  moreover have "r \<in> set (records s)" using arg_cong [OF r, of set] by (auto simp: records_of_def)
  ultimately show ?thesis
    using u rows P(2) by (auto simp: update_records_def list_all_iff split: if_splits)
qed

lemma find_filter: "List.find P xs = (case filter P xs of [] \<Rightarrow> None | x # _ \<Rightarrow> Some x)"
  by (induction xs) auto

lemma find_row_updated:
  assumes "filter (\<lambda>q. tr_id q = i) (transfers s) = [t]" and "tr_id t' = i"
    and "transfers s' = update_where (\<lambda>t. tr_id t = i) (\<lambda>_. t') (transfers s)"
  shows "find_row i s' = Some t'"
  using filter_set_single [of tr_id i "transfers s" t t'] assms
  by (simp add: find_row_def find_filter)

lemma row_or_throw_Inr: "row_or_throw i s = (Inr t, s') \<longleftrightarrow> s' = s \<and> find_row i s = Some t"
  by (auto simp: row_or_throw_def split: option.splits)

lemma find_transfer_Inr: "find_transfer i s = (Inr t, s') \<longleftrightarrow> s' = s \<and> find_row i s = Some t"
  by (auto simp: find_transfer_def split: option.splits)

text \<open>What \<open>complete\<close> has done when it commits.\<close>

lemma complete_effect:
  assumes c: "complete_transaction v i ledger s = (Inr x, s')" and inv: "transfers_ok D s"
    and D: "tv_decimal v = D"
  shows "find_row i s' = Some x \<and> transfers_ok D s' \<and> transfers_later s s' \<and>
    (s' = s \<and> tr_status x \<noteq> Processing \<or>
     tr_status x = Completed \<and> tr_ledger x = Some ledger \<and>
     (\<exists>t. find_row i s = Some t \<and> tr_status t = Processing) \<and>
     (\<exists>r. records_of i s' = [r] \<and> ir_status r = Some 201 \<and> ir_body r = Some (transfer_response_of D x)))"
proof -
  let ?P = "\<lambda>t. tr_id t = i \<and> tr_status t = Processing"
  let ?f = "\<lambda>t. Some (t\<lparr>tr_status := Completed, tr_ledger := Some ledger, tr_completed := Some (tv_now v 2),
     tr_version := tr_version t + 1, tr_updated := tv_now v 7\<rparr>)"
  obtain n s1 where u: "update_transfers ?P ?f s = (Inr n, s1)"
    and rest: "(if n = 0 then row_or_throw i
       else bnd (update_history (\<lambda>h. hr_transfer h = i) (\<lambda>h. h\<lparr>hr_status := Completed\<rparr>)) (\<lambda>_.
         bnd (row_or_throw i) (\<lambda>t.
         bnd (update_records (\<lambda>r. ir_transfer r = i)
           (\<lambda>r. r\<lparr>ir_state := KeyCompleted, ir_status := Some 201,
                 ir_body := Some (transfer_response_of (tv_decimal v) t)\<rparr>)) (\<lambda>changed.
         bnd (ensure (changed \<noteq> 0) (DbError P2025)) (\<lambda>_. ret t))))) s1 = (Inr x, s')"
    using c unfolding complete_transaction_def by (auto simp: bnd_result_Inr)
  from update_transfers_Inr [OF u inv, of i] consider
      "n = 0" "s1 = s" "\<forall>q\<in>set (transfers s). \<not> ?P q"
    | t t' where "n = 1" "t \<in> set (transfers s)" "tr_id t = i" "?P t" "?f t = Some t'"
        "transfer_update_ok t t'" "transfer_check t'" "unique_some tr_ledger (transfers s1)"
        "s1 = s\<lparr>transfers := update_where (\<lambda>t. tr_id t = i) (\<lambda>_. t') (transfers s)\<rparr>"
    by blast
  then show ?thesis
  proof cases
    case 1
    then have "find_row i s = Some x" "s' = s" using rest by (simp_all add: row_or_throw_Inr)
    then show ?thesis using 1(3) inv find_row_Some [of i s x] by auto
  next
    case (2 t t')
    let ?s2 = "s1\<lparr>history := update_where (\<lambda>h. hr_transfer h = i) (\<lambda>h. h\<lparr>hr_status := Completed\<rparr>) (history s1)\<rparr>"
    have t': "tr_id t' = i" "tr_status t' = Completed" "tr_ledger t' = Some ledger"
      "tr_created t' = tr_created t" "tr_version t' = tr_version t + 1" "tr_client t' = tr_client t"
      using 2(3,5) by auto
    have row: "find_row i s1 = Some t'"
      using filter_only [OF inv 2(2)] 2(3,9) t'(1) by (intro find_row_updated [of i s t]) simp_all
    then have row2: "find_row i ?s2 = Some t'" by (simp add: find_row_def)
    obtain r where r: "records_of i s = [r]" "record_matches D t r"
      using row_record [OF inv 2(2)] 2(3) by blast
    then have r2: "records_of i ?s2 = [r]" by (simp add: records_of_def 2(9))
    let ?h = "\<lambda>r. r\<lparr>ir_state := KeyCompleted, ir_status := Some 201, ir_body := Some (transfer_response_of D t')\<rparr>"
    have x: "x = t'" and up: "\<exists>n. update_records (\<lambda>r. ir_transfer r = i) ?h ?s2 = (Inr n, s')"
      using rest 2(1) row2 D by (auto simp: bnd_result_Inr update_history_def row_or_throw_Inr ensure_apply split: if_splits)
    have key: "ir_transfer r = i" using arg_cong [OF r(1), of set] by (auto simp: records_of_def)
    from up obtain n where "update_records (\<lambda>r. ir_transfer r = i) ?h ?s2 = (Inr n, s')" by blast
    from update_records_Inr [OF this r2] key have s': "s' = ?s2\<lparr>records :=
        update_where (\<lambda>r. ir_transfer r = i) (\<lambda>_. ?h r) (records ?s2)\<rparr>" by simp
    have pending: "ir_state r = KeyProcessing" "ir_client r = tr_client t" "ir_replay_until r \<le> ir_retain_until r"
      using r(2) 2(4) by (simp_all add: record_matches_def)
    have "transfers_ok D s' \<and> transfers_later s s'"
      using 2 t' key pending
      by (intro row_change_status [OF inv 2(2,3) r(1), where t' = t' and r' = "?h r"])
        (simp_all add: s' record_key_def record_matches_def later_record_def)
    moreover have "records_of i s' = [?h r]"
      using filter_set_single [of ir_transfer i "records ?s2" r "?h r"] r2 key
      by (simp add: records_of_def s')
    moreover have "find_row i s' = Some t'" using row2 by (simp add: s' find_row_def)
    moreover have "find_row i s = Some t" using 2(2,3) inv find_row_iff by blast
    ultimately show ?thesis using x t' 2(4) by auto
  qed
qed

lemma fail_effect:
  assumes c: "fail_transaction v i status code msg s = (Inr (x, moved), s')" and inv: "transfers_ok D s"
    and D: "tv_decimal v = D"
  shows "find_row i s' = Some x \<and> transfers_ok D s' \<and> transfers_later s s' \<and>
    (\<not> moved \<and> s' = s \<and> tr_status x \<notin> {Pending, Processing} \<or>
     moved \<and> tr_status x = Failed \<and> tr_failure_code x = Some code \<and> tr_failure_message x = Some msg \<and>
     (\<exists>t. find_row i s = Some t \<and> tr_status t \<in> {Pending, Processing}) \<and>
     (\<exists>r. records_of i s' = [r] \<and> ir_status r = Some status \<and> ir_body r = Some (transfer_response_of D x)))"
proof -
  let ?P = "\<lambda>t. tr_id t = i \<and> tr_status t \<in> {Pending, Processing}"
  let ?f = "\<lambda>t. Some (t\<lparr>tr_status := Failed, tr_failure_code := Some code, tr_failure_message := Some msg,
     tr_version := tr_version t + 1, tr_updated := tv_now v 8\<rparr>)"
  let ?up = "\<lambda>t. update_records (\<lambda>r. ir_transfer r = i \<and> ir_state r = KeyProcessing)
     (\<lambda>r. r\<lparr>ir_state := KeyFailed, ir_status := Some status,
            ir_body := Some (transfer_response_of (tv_decimal v) t)\<rparr>)"
  obtain n s1 where u: "update_transfers ?P ?f s = (Inr n, s1)"
    and rest: "bnd (if n = 1
          then update_history (\<lambda>h. hr_transfer h = i) (\<lambda>h. h\<lparr>hr_status := Failed\<rparr>)
          else ret ()) (\<lambda>_. bnd (row_or_throw i) (\<lambda>t.
        bnd (if n = 1 then ?up t else ret 0) (\<lambda>_. ret (t, n = 1)))) s1 = (Inr (x, moved), s')"
    using c unfolding fail_transaction_def by (auto simp: bnd_result_Inr)
  from update_transfers_Inr [OF u inv, of i] consider
      "n = 0" "s1 = s" "\<forall>q\<in>set (transfers s). \<not> ?P q"
    | t t' where "n = 1" "t \<in> set (transfers s)" "tr_id t = i" "?P t" "?f t = Some t'"
        "transfer_update_ok t t'" "transfer_check t'" "unique_some tr_ledger (transfers s1)"
        "s1 = s\<lparr>transfers := update_where (\<lambda>t. tr_id t = i) (\<lambda>_. t') (transfers s)\<rparr>"
    by blast
  then show ?thesis
  proof cases
    case 1
    then have "find_row i s = Some x \<and> s' = s \<and> \<not> moved"
      using rest by (auto simp: bnd_result_Inr row_or_throw_Inr)
    then show ?thesis using 1(3) inv find_row_Some [of i s x] by auto
  next
    case (2 t t')
    let ?s2 = "s1\<lparr>history := update_where (\<lambda>h. hr_transfer h = i) (\<lambda>h. h\<lparr>hr_status := Failed\<rparr>) (history s1)\<rparr>"
    let ?h = "\<lambda>r. r\<lparr>ir_state := KeyFailed, ir_status := Some status, ir_body := Some (transfer_response_of D t')\<rparr>"
    have t': "tr_id t' = i" "tr_status t' = Failed" "tr_failure_code t' = Some code"
      "tr_failure_message t' = Some msg"
      "tr_created t' = tr_created t" "tr_version t' = tr_version t + 1" "tr_client t' = tr_client t"
      using 2(3,5) by auto
    have row: "find_row i s1 = Some t'"
      using filter_only [OF inv 2(2)] 2(3,9) t'(1) by (intro find_row_updated [of i s t]) simp_all
    then have row2: "find_row i ?s2 = Some t'" by (simp add: find_row_def)
    obtain r where r: "records_of i s = [r]" "record_matches D t r"
      using row_record [OF inv 2(2)] 2(3) by blast
    then have r2: "records_of i ?s2 = [r]" by (simp add: records_of_def 2(9))
    have key: "ir_transfer r = i" using arg_cong [OF r(1), of set] by (auto simp: records_of_def)
    have pending: "ir_state r = KeyProcessing" "ir_client r = tr_client t" "ir_replay_until r \<le> ir_retain_until r"
      using r(2) 2(4) by (auto simp: record_matches_def)
    have x: "x = t' \<and> moved" and up: "\<exists>k. ?up t' ?s2 = (Inr k, s')"
      using rest 2(1) row2 by (auto simp: bnd_result_Inr update_history_def row_or_throw_Inr)
    from up obtain k where k: "?up t' ?s2 = (Inr k, s')" by blast
    have eff: "record_check (?h r) \<and>
        s' = ?s2\<lparr>records := update_where (\<lambda>r. ir_transfer r = i) (\<lambda>_. ?h r) (records ?s2)\<rparr>"
      using update_records_Inr [OF k r2] key pending D by simp
    then have s': "s' = ?s2\<lparr>records := update_where (\<lambda>r. ir_transfer r = i) (\<lambda>_. ?h r) (records ?s2)\<rparr>"
      and status: "100 \<le> status" by (simp_all add: record_check_def)
    have open_: "tr_status t \<notin> {Completed, Failed}" using 2(4) by auto
    have match: "record_matches D t' (?h r)" using t' pending key status by (simp add: record_matches_def)
    have "transfers_ok D s' \<and> transfers_later s s'"
      using 2(6-9) t' key pending open_ match
      by (intro row_change_status [OF inv 2(2,3) r(1), where t' = t' and r' = "?h r"])
        (simp_all add: s' record_key_def later_record_def)
    moreover have "records_of i s' = [?h r]"
      using filter_set_single [of ir_transfer i "records ?s2" r "?h r"] r2 key
      by (simp add: records_of_def s')
    moreover have "find_row i s' = Some t'" using row2 by (simp add: s' find_row_def)
    moreover have "find_row i s = Some t" using 2(2,3) inv find_row_iff by blast
    ultimately show ?thesis using x t' 2(4) by auto
  qed
qed

text \<open>A change of the row alone, its record and history staying as they are.\<close>

lemma row_only_inv:
  assumes inv: "transfers_ok D s" and t: "t \<in> set (transfers s)" "tr_id t = i"
    and s': "transfers s' = update_where (\<lambda>t. tr_id t = i) (\<lambda>_. t') (transfers s)"
      "records s' = records s" "history_of i s' = hs" "\<And>j. j \<noteq> i \<Longrightarrow> history_of j s' = history_of j s"
      "\<forall>h\<in>set (history s'). hr_transfer h \<in> tr_id ` set (transfers s)"
    and t': "tr_id t' = i" "transfer_check t'" "unique_some tr_ledger (transfers s')"
      "map anonymous hs = expected_rows t'" "target_ok t'"
    and up: "transfer_update_ok t t'" "tr_status t \<in> {Pending, Processing}" "tr_status t' = Processing"
      "tr_created t' = tr_created t" "tr_version t' = tr_version t + 1"
  shows "transfers_ok D s' \<and> transfers_later s s'"
proof -
  obtain r where r: "records_of i s = [r]" "record_matches D t r"
    using row_record [OF inv t(1)] t(2) by blast
  have "update_where (\<lambda>r. ir_transfer r = i) (\<lambda>_. r) (records s) = records s"
    using records_other [OF r(1)] unfolding update_where_def by (intro map_idI) auto
  then have "row_change s i t' r hs s'"
    using s' by (simp add: row_change_def)
  moreover have same: "same_command t t'" using up(1) by (simp add: transfer_update_ok_def)
  moreover have "record_matches D t' r"
    using r(2) up(2,3) t(2) t'(1) same by (auto simp: record_matches_def same_command_def)
  moreover have "later_transfer t t'"
    using up t(2) t'(1) by (intro later_of_update) auto
  ultimately show ?thesis
    using t' by (intro row_change_inv [OF inv t r(1) _ _ _ _ _ _ _ refl _ _ _ later_record_refl])
      (simp_all add: same_command_def)
qed

lemma transition_step: "steps (transfer_step D) (transition v i)"
  unfolding transition_def
proof (rule tx_stepI)
  fix s x s'
  let ?P = "\<lambda>t. tr_id t = i \<and> tr_status t = Pending"
  let ?f = "\<lambda>t. Some (t\<lparr>tr_status := Processing, tr_version := tr_version t + 1, tr_updated := tv_now v 5\<rparr>)"
  let ?Q = "\<lambda>h. hr_transfer h = i \<and> hr_status h = Pending"
  let ?g = "\<lambda>h. h\<lparr>hr_status := Processing\<rparr>"
  assume inv: "transfers_ok D s"
    and m: "bnd (update_transfers ?P ?f) (\<lambda>count. if count = 1 then update_history ?Q ?g else ret ()) s = (Inr x, s')"
  then obtain n s1 where u: "update_transfers ?P ?f s = (Inr n, s1)"
    and rest: "(if n = 1 then update_history ?Q ?g else ret ()) s1 = (Inr x, s')"
    by (auto simp: bnd_result_Inr)
  from update_transfers_Inr [OF u inv, of i] consider "n = 0" "s1 = s"
    | t t' where "n = 1" "t \<in> set (transfers s)" "tr_id t = i" "?P t" "?f t = Some t'"
        "transfer_update_ok t t'" "transfer_check t'" "unique_some tr_ledger (transfers s1)"
        "s1 = s\<lparr>transfers := update_where (\<lambda>t. tr_id t = i) (\<lambda>_. t') (transfers s)\<rparr>"
    by blast
  then show "transfers_ok D s' \<and> transfers_later s s'"
  proof cases
    case 1
    then show ?thesis using rest inv by simp
  next
    case (2 t t')
    have s': "s' = s1\<lparr>history := update_where ?Q ?g (history s1)\<rparr>"
      using rest 2(1) by (simp add: update_history_def)
    have t': "tr_id t' = i" "tr_status t' = Processing" "tr_created t' = tr_created t"
      "tr_version t' = tr_version t + 1" "tr_target_amount t' = tr_target_amount t" "same_command t t'"
      using 2(3,5,6) by (auto simp: same_command_def)
    have rows: "map anonymous (history_of i s) = expected_rows t"
      using row_history [OF inv 2(2)] 2(3) by simp
    have "hr_status (anonymous h) = Pending" if "h \<in> set (history_of i s)" for h
    proof -
      have "anonymous h \<in> set (expected_rows t)"
        unfolding rows [symmetric] using that by simp
      then show ?thesis using 2(4) by (auto simp: expected_rows_def split: if_splits)
    qed
    then have "update_where ?Q ?g (history_of i s) = map ?g (history_of i s)"
      unfolding update_where_def by (intro map_cong) (auto simp: anonymous_def history_of_def)
    moreover have "history_of i s' = update_where ?Q ?g (history_of i s)"
      using history_of_update(1) [of ?Q i ?g s1] by (simp add: s' history_of_def 2(9))
    ultimately have hs: "history_of i s' = map ?g (history_of i s)" by simp
    have others: "history_of j s' = history_of j s" if "j \<noteq> i" for j
      using history_of_update(2) [of ?Q i ?g j s1] that by (simp add: s' history_of_def 2(9))
    have "map anonymous (map ?g (history_of i s)) = map ?g (map anonymous (history_of i s))"
      by (simp add: anonymous_def)
    also have "\<dots> = expected_rows t'"
      using expected_rows_status [of t t'] t' rows 2(3) by simp
    finally have exp: "map anonymous (map ?g (history_of i s)) = expected_rows t'" .
    have refs: "\<forall>h\<in>set (history s'). hr_transfer h \<in> tr_id ` set (transfers s)"
      using inv by (auto simp: s' 2(9) transfers_ok_def dest!: in_update_where)
    have "target_ok t'"
      using inv 2(2) t'(5,6) by (simp add: transfers_ok_def row_ok_def target_ok_def same_command_def)
    then show ?thesis
      by (intro row_only_inv [OF inv 2(2,3) _ _ hs others refs t'(1) 2(7) _ exp _ 2(6)])
        (use 2(4,8) t' in \<open>simp_all add: s' 2(9)\<close>)
  qed
qed

lemma claim_processing_retry_step: "steps (transfer_step D) (claim_processing_retry v t b)"
proof -
  let ?P = "\<lambda>r. tr_id r = tr_id t \<and> tr_status r = Processing \<and> tr_version r = tr_version t \<and>
     (case b of None \<Rightarrow> True | Some b \<Rightarrow> tr_updated r \<le> b)"
  let ?f = "\<lambda>r. Some (r\<lparr>tr_version := tr_version r + 1, tr_updated := tv_now v 9\<rparr>)"
  have "transfer_step D s (snd (update_transfers ?P ?f s))" for s :: "'w transfer_state"
  proof (cases "update_transfers ?P ?f s")
    case (Pair z s')
    show ?thesis
    proof (cases z)
      case (Inl e)
      then have "s' = s" using Pair by (simp add: update_transfers_Inl)
      then show ?thesis by (simp add: Pair tx.R_refl)
    next
      case (Inr n)
      then have u: "update_transfers ?P ?f s = (Inr n, s')" using Pair by simp
      have "transfers_ok D s' \<and> transfers_later s s'" if inv: "transfers_ok D s"
      proof -
        from update_transfers_Inr [OF u inv, of "tr_id t"] consider "s' = s"
          | r r' where "r \<in> set (transfers s)" "tr_id r = tr_id t" "?P r" "?f r = Some r'"
            "transfer_update_ok r r'" "transfer_check r'" "unique_some tr_ledger (transfers s')"
            "s' = s\<lparr>transfers := update_where (\<lambda>q. tr_id q = tr_id t) (\<lambda>_. r') (transfers s)\<rparr>"
          by blast
        then show ?thesis
        proof cases
          case 1
          then show ?thesis using inv by simp
        next
        case (2 r r')
        note r = 2(1-7) and s' = 2(8)
        have r': "tr_id r' = tr_id t" "tr_status r' = Processing" "tr_created r' = tr_created r"
          "tr_version r' = tr_version r + 1" "expected_rows r' = expected_rows r"
          using r(2,3,4) by (auto simp: expected_rows_def split: option.split)
        have "\<forall>h\<in>set (history s). hr_transfer h \<in> tr_id ` set (transfers s)"
          using inv by (simp add: transfers_ok_def)
        moreover have "target_ok r'"
          using inv r(1,4) by (auto simp: transfers_ok_def row_ok_def target_ok_def)
        ultimately show ?thesis
          using r r' row_history [OF inv r(1)]
          by (intro row_only_inv [OF inv r(1,2), where t' = r' and hs = "history_of (tr_id t) s"])
            (simp_all add: s' history_of_def)
        qed
      qed
      then show ?thesis by (simp add: Pair transfer_step_def)
    qed
  qed
  then show ?thesis unfolding claim_processing_retry_def by (intro tx.steps_rules stepsI)
qed

lemma create_history_Inr:
  "create_history h s = (Inr u, s') \<longleftrightarrow>
     (\<exists>a. money_column (hr_amount h) = Some a \<and> history_check (h\<lparr>hr_amount := a\<rparr>) \<and>
        key_taken tr_id (hr_transfer h) (transfers s) \<and> \<not> key_taken hr_id (hr_id h) (history s) \<and>
        \<not> key_taken history_key (history_key (h\<lparr>hr_amount := a\<rparr>)) (history s) \<and>
        s' = s\<lparr>history := history s @ [h\<lparr>hr_amount := a\<rparr>]\<rparr>)"
  by (auto simp: create_history_def Let_def split: option.splits)

lemma history_rows_created:
  assumes "each create_history (history_rows v t target status) s = (Inr us, s')"
  shows "\<exists>a b. money_column (tr_source_amount t) = Some a \<and> money_column target = Some b \<and>
    s' = s\<lparr>history := history s @ history_rows v (t\<lparr>tr_source_amount := a\<rparr>) b status\<rparr>"
  using assms by (auto simp: history_rows_def bnd_result_Inr create_history_Inr)

lemma history_rows_expected:
  "map anonymous (history_rows v t b status) = expected_rows (t\<lparr>tr_status := status, tr_target_amount := Some b\<rparr>)"
  by (simp add: history_rows_def expected_rows_def anonymous_def)

lemma history_rows_transfer: "h \<in> set (history_rows v t b status) \<Longrightarrow> hr_transfer h = tr_id t"
  by (auto simp: history_rows_def)

lemma has_places_money: "money_column x = Some y \<Longrightarrow> has_places 8 y"
  by (auto simp: money_column_Some has_places_round)

lemma prepare_effect:
  assumes c: "prepare_transaction v t q s = (Inr prepared, s')" and inv: "transfers_ok D s"
    and snap: "find_row (tr_id t) s = Some row" "later_transfer t row"
  shows "transfers_ok D s' \<and> transfers_later s s' \<and> (\<not> prepared \<longrightarrow> s' = s) \<and>
    (prepared \<longrightarrow> tr_status row = Pending \<and> (\<exists>p. find_row (tr_id t) s' = Some p \<and> tr_status p = Processing \<and>
       tr_target_amount p = money_column (dl_of (tv_decimal v) (qr_target_amount q)) \<and>
       tr_locked_rate p = rate_column (dl_of (tv_decimal v) (qr_rate q))))"
proof -
  let ?i = "tr_id t"
  let ?target = "dl_of (tv_decimal v) (qr_target_amount q)" and ?rate = "dl_of (tv_decimal v) (qr_rate q)"
  let ?P = "\<lambda>r. tr_id r = ?i \<and> tr_status r = Pending \<and> tr_target_amount r = None \<and> tr_locked_rate r = None"
  let ?f = "\<lambda>r. case (money_column ?target, rate_column ?rate) of
      (Some a, Some b) \<Rightarrow> Some (r\<lparr>tr_target_amount := Some a, tr_locked_rate := Some b,
         tr_status := Processing, tr_version := tr_version r + 1, tr_updated := tv_now v 6\<rparr>)
    | _ \<Rightarrow> None"
  obtain n s1 where u: "update_transfers ?P ?f s = (Inr n, s1)"
    and rest: "bnd (if n = 1 then each create_history (history_rows v t ?target Processing) else ret [])
      (\<lambda>_. ret (n = 1)) s1 = (Inr prepared, s')"
    using c unfolding prepare_transaction_def Let_def by (auto simp: bnd_result_Inr)
  from update_transfers_Inr [OF u inv, of ?i] consider "n = 0" "s1 = s"
    | r r' where "n = 1" "r \<in> set (transfers s)" "tr_id r = ?i" "?P r" "?f r = Some r'"
        "transfer_update_ok r r'" "transfer_check r'" "unique_some tr_ledger (transfers s1)"
        "s1 = s\<lparr>transfers := update_where (\<lambda>t. tr_id t = ?i) (\<lambda>_. r') (transfers s)\<rparr>"
    by blast
  then show ?thesis
  proof cases
    case 1
    then show ?thesis using rest inv by (auto simp: bnd_result_Inr)
  next
    case (2 r r')
    have row: "row = r" using 2(2,3) snap(1) inv find_row_iff by (metis option.inject)
    have same: "same_command t r" "tr_created r = tr_created t"
      using snap(2) row by (simp_all add: later_transfer_def)
    obtain a b where ab: "money_column ?target = Some a" "rate_column ?rate = Some b"
      and r': "r' = r\<lparr>tr_target_amount := Some a, tr_locked_rate := Some b,
         tr_status := Processing, tr_version := tr_version r + 1, tr_updated := tv_now v 6\<rparr>"
      using 2(5) by (auto split: option.splits)
    have prepared: prepared and "\<exists>us. each create_history (history_rows v t ?target Processing) s1 = (Inr us, s')"
      using rest 2(1) by (auto simp: bnd_result_Inr)
    then obtain us where "each create_history (history_rows v t ?target Processing) s1 = (Inr us, s')" by blast
    from history_rows_created [OF this] ab(1) obtain sa where
        sa: "money_column (tr_source_amount t) = Some sa"
      and s': "s' = s1\<lparr>history := history s1 @ history_rows v (t\<lparr>tr_source_amount := sa\<rparr>) a Processing\<rparr>"
      by auto
    define hs where "hs = history_rows v (t\<lparr>tr_source_amount := sa\<rparr>) a Processing"
    have ids: "hr_transfer h = ?i" if "h \<in> set hs" for h
      using history_rows_transfer that unfolding hs_def by fastforce
    have "has_places 8 (tr_source_amount r)" using inv 2(2) by (simp add: transfers_ok_def row_ok_def)
    then have sa': "sa = tr_source_amount t"
      using sa same(1) by (simp add: money_column_Some round_places_exact same_command_def)
    have exp: "map anonymous hs = expected_rows r'"
      unfolding hs_def history_rows_expected
      using same 2(3) by (simp add: r' expected_rows_def same_command_def sa')
    have dom: "tr_type r = International"
    proof (rule ccontr)
      assume "tr_type r \<noteq> International"
      then have "tr_type r = Domestic" using transfer_type.exhaust by blast
      then show False
        using 2(4,6) by (simp add: r' transfer_update_ok_def quote_terms_ok_def)
    qed
    then have "expected_rows r = []" using 2(4) by (simp add: expected_rows_def)
    then have empty: "history_of ?i s = []" using row_history [OF inv 2(2)] 2(3) by simp
    have "history_of ?i s' = history_of ?i s @ filter (\<lambda>h. hr_transfer h = ?i) hs"
      by (simp add: s' history_of_def 2(9) hs_def)
    then have hs: "history_of ?i s' = hs" using empty ids by simp
    have "filter (\<lambda>h. hr_transfer h = j) hs = []" if "j \<noteq> ?i" for j
      using ids that by (auto simp: filter_empty_conv)
    then have others: "history_of j s' = history_of j s" if "j \<noteq> ?i" for j
      using that by (simp add: s' history_of_def 2(9) hs_def)
    have "tr_id t \<in> tr_id ` set (transfers s)" using 2(2,3) by (metis imageI)
    then have refs: "\<forall>h\<in>set (history s'). hr_transfer h \<in> tr_id ` set (transfers s)"
      using inv ids by (auto simp: s' 2(9) transfers_ok_def hs_def)
    have "transfers_ok D s' \<and> transfers_later s s'"
      by (rule row_only_inv [OF inv 2(2,3) _ _ hs others refs _ 2(7) _ exp _ 2(6)])
        (use 2(3,4,8) has_places_money [OF ab(1)] in \<open>simp_all add: s' 2(9) r' target_ok_def\<close>)
    moreover have "find_row ?i s' = Some r'"
      using filter_only [OF inv 2(2)] 2(3,9)
      by (intro find_row_updated [of ?i s r]) (simp_all add: r' s')
    ultimately show ?thesis
      using prepared 2(4) ab by (auto simp: r' row)
  qed
qed

lemma fresh_key: "k \<notin> K \<Longrightarrow> (\<And>q. q \<in> set rows \<Longrightarrow> key q \<in> K) \<Longrightarrow> filter (\<lambda>q. key q = k) rows = []"
  by (auto simp: filter_empty_conv)

lemma append_inv:
  assumes inv: "transfers_ok D s"
    and s': "transfers s' = transfers s @ [row]" "records s' = records s @ [r]" "history s' = history s @ hs"
    and row: "transfer_check row" "has_places 8 (tr_source_amount row)" "\<not> transfer_conflict row (transfers s)"
      "target_ok row"
    and r: "(ir_client r, ir_key r) \<notin> (\<lambda>r. (ir_client r, ir_key r)) ` set (records s)" "record_matches D row r"
    and hs: "map anonymous hs = expected_rows row" "\<And>h. h \<in> set hs \<Longrightarrow> hr_transfer h = tr_id row"
  shows "transfers_ok D s' \<and> transfers_later s s' \<and> records_of (tr_id row) s' = [r]"
proof -
  have fresh: "tr_id row \<notin> tr_id ` set (transfers s)"
    using row(3) by (simp add: transfer_conflict_def key_taken_def)
  have i: "ir_transfer r = tr_id row" using r(2) by (simp add: record_matches_def)
  have refs: "\<And>q. q \<in> set (records s) \<Longrightarrow> ir_transfer q \<in> tr_id ` set (transfers s)"
    "\<And>h. h \<in> set (history s) \<Longrightarrow> hr_transfer h \<in> tr_id ` set (transfers s)"
    using inv by (simp_all add: transfers_ok_def)
  have none: "filter (\<lambda>q. ir_transfer q = tr_id row) (records s) = []"
    "filter (\<lambda>h. hr_transfer h = tr_id row) (history s) = []"
    using fresh_key [OF fresh, of "records s" ir_transfer] fresh_key [OF fresh, of "history s" hr_transfer]
      refs by simp_all
  then have new: "records_of (tr_id row) s' = [r]" "history_of (tr_id row) s' = hs"
    using i hs(2) by (simp_all add: records_of_def history_of_def s')
  have old: "records_of (tr_id t) s' = records_of (tr_id t) s" "history_of (tr_id t) s' = history_of (tr_id t) s"
    if "t \<in> set (transfers s)" for t
    using that fresh i hs(2) by (auto simp: records_of_def history_of_def s' filter_empty_conv)
  have "row_ok D s' t" if "t \<in> set (transfers s')" for t
  proof (cases "t \<in> set (transfers s)")
    case True
    then have "row_ok D s t" using inv by (simp add: transfers_ok_def)
    then show ?thesis using old [OF True] by (simp add: row_ok_def)
  next
    case False
    then show ?thesis using that new row r(2) hs(1) by (simp add: s' row_ok_def)
  qed
  moreover have "distinct (map tr_id (transfers s'))"
    using inv fresh by (simp add: s' transfers_ok_def)
  moreover have "unique_some tr_ledger (transfers s')" "unique_some tr_fx_quote (transfers s')"
    using inv row(3) unfolding s' transfers_ok_def unique_some_snoc transfer_conflict_def key_taken_def
    by blast+
  moreover have "distinct (map (\<lambda>r. (ir_client r, ir_key r)) (records s'))"
    using inv r(1) by (simp add: s' transfers_ok_def)
  moreover have "\<forall>q\<in>set (records s'). ir_transfer q \<in> tr_id ` set (transfers s')"
    "\<forall>h\<in>set (history s'). hr_transfer h \<in> tr_id ` set (transfers s')"
    using refs i hs(2) by (auto simp: s')
  ultimately have "transfers_ok D s'" by (simp add: transfers_ok_def)
  moreover have "transfers_later s s'"
    by (simp add: transfers_later_def s' grows_snoc)
  ultimately show ?thesis using new by blast
qed

lemma find_row_snoc:
  assumes "tr_id row \<notin> tr_id ` set (transfers s)" and "transfers s' = transfers s @ [row]"
  shows "find_row (tr_id row) s' = Some row"
proof -
  have "List.find (\<lambda>t. tr_id t = tr_id row) (transfers s) = None"
    using fresh_key [of "tr_id row" "tr_id ` set (transfers s)" "transfers s" tr_id] assms(1)
    by (simp add: find_filter)
  then show ?thesis by (simp add: find_row_def assms(2) find_append)
qed

text \<open>The transaction of a claim: \<open>rows\<close> are the history rows of the new transfer, if it has any yet.\<close>

lemma claim_effect:
  fixes v :: "'w transfer_env"
  assumes c: "claim_transaction t rows r s = (Inr (row, q), s')" and inv: "transfers_ok D s"
    and rows: "rows = [] \<and> tr_type t = International \<and> tr_target_amount t = None \<or>
      (\<exists>x. rows = history_rows v t x Pending \<and> tr_target_amount t = Some x \<and> tr_status t = Pending)"
    and r: "ir_transfer r = tr_id t" "ir_state r = KeyProcessing" "ir_status r = None" "ir_body r = None"
      "ir_client r = tr_client t"
    and t: "tr_status t = Pending"
  shows "transfers_ok D s' \<and> transfers_later s s' \<and> q = r \<and> records_of (tr_id t) s' = [r] \<and>
    stored_transfer t = Some row \<and> find_row (tr_id t) s' = Some row"
proof -
  obtain row0 s1 where c1: "create_transfer t s = (Inr row0, s1)"
    and k1: "bnd (each create_history rows) (\<lambda>_. bnd (create_record r) (\<lambda>_. bnd (row_or_throw (tr_id t)) (\<lambda>row.
      bnd (gets (find_record (tr_id t))) (\<lambda>found.
      case found of None \<Rightarrow> throw missing_terms | Some q \<Rightarrow> ret (row, q))))) s1 = (Inr (row, q), s')"
    using c unfolding claim_transaction_def bnd_result_Inr by blast
  obtain us s2 where c2: "each create_history rows s1 = (Inr us, s2)"
    and k2: "bnd (create_record r) (\<lambda>_. bnd (row_or_throw (tr_id t)) (\<lambda>row.
      bnd (gets (find_record (tr_id t))) (\<lambda>found.
      case found of None \<Rightarrow> throw missing_terms | Some q \<Rightarrow> ret (row, q)))) s2 = (Inr (row, q), s')"
    using k1 unfolding bnd_result_Inr by blast
  obtain s3 where c3: "create_record r s2 = (Inr (), s3)"
    and k3: "bnd (row_or_throw (tr_id t)) (\<lambda>row. bnd (gets (find_record (tr_id t))) (\<lambda>found.
      case found of None \<Rightarrow> throw missing_terms | Some q \<Rightarrow> ret (row, q))) s3 = (Inr (row, q), s')"
    using k2 unfolding bnd_result_Inr by auto
  have s': "s' = s3" "find_row (tr_id t) s3 = Some row" "find_record (tr_id t) s3 = Some q"
    using k3 by (auto simp: bnd_result_Inr row_or_throw_Inr split: option.splits)
  from c1 obtain row' where stored: "stored_transfer t = Some row'" and check: "transfer_check row'"
    and conflict: "\<not> transfer_conflict row' (transfers s)"
    and s1: "s1 = s\<lparr>transfers := transfers s @ [row']\<rparr>"
    by (auto simp: create_transfer_def split: option.splits if_splits)
  have same: "tr_id row' = tr_id t" "tr_status row' = Pending" "tr_client row' = tr_client t"
    "same_command (t\<lparr>tr_source_amount := tr_source_amount row'\<rparr>) row'" "tr_created row' = tr_created t"
    "money_column (tr_source_amount t) = Some (tr_source_amount row')"
    "nullable_money_column (tr_target_amount t) = Some (tr_target_amount row')"
    using stored t by (auto simp: stored_transfer_def same_command_def split: option.splits)
  obtain hs where hs: "s2 = s1\<lparr>history := history s1 @ hs\<rparr>" "map anonymous hs = expected_rows row'"
      "\<And>h. h \<in> set hs \<Longrightarrow> hr_transfer h = tr_id row'"
  proof -
    consider "rows = []" "tr_type t = International" "tr_target_amount t = None"
      | x where "rows = history_rows v t x Pending" "tr_target_amount t = Some x"
      using rows by (elim disjE exE conjE) simp_all
    then show thesis
    proof cases
      case 1
      then have "s2 = s1" "expected_rows row' = []"
        using c2 same(4,7) by (auto simp: expected_rows_def same_command_def nullable_money_column_def)
      then show thesis using that [of "[]"] by simp
    next
      case (2 x)
      from c2 [unfolded 2(1)] history_rows_created obtain b where
          b: "money_column x = Some b"
        and s2: "s2 = s1\<lparr>history := history s1 @ history_rows v (t\<lparr>tr_source_amount := tr_source_amount row'\<rparr>) b Pending\<rparr>"
        using same(6) by fastforce
      have "tr_target_amount row' = Some b"
        using same(7) b 2(2) by (simp add: nullable_money_column_def)
      then have "map anonymous (history_rows v (t\<lparr>tr_source_amount := tr_source_amount row'\<rparr>) b Pending) =
          expected_rows row'"
        unfolding history_rows_expected using same by (simp add: expected_rows_def same_command_def)
      then show thesis using that [OF s2] history_rows_transfer same(1) by fastforce
    qed
  qed
  have key: "(ir_client r, ir_key r) \<notin> (\<lambda>r. (ir_client r, ir_key r)) ` set (records s)"
    and s3: "s3 = s2\<lparr>records := records s2 @ [r]\<rparr>" and expiry: "ir_replay_until r \<le> ir_retain_until r"
    using c3 unfolding create_record_def key_taken_def record_check_def by (auto simp: s1 hs(1) split: if_splits)
  have "pred_option (has_places 8) (tr_target_amount row')"
    using same(7) has_places_money
    by (cases "tr_target_amount row'") (auto simp: nullable_money_column_def split: option.splits)
  moreover have "tr_type row' = Domestic \<Longrightarrow> tr_target_amount row' \<noteq> None"
    using rows same(4,7)
    by (cases "tr_target_amount row'") (auto simp: nullable_money_column_def same_command_def split: option.splits)
  ultimately have "target_ok row'" by (simp add: target_ok_def)
  then have inv': "transfers_ok D s' \<and> transfers_later s s' \<and> records_of (tr_id row') s' = [r]"
    using r t same conflict check key expiry hs(2,3) has_places_money [OF same(6)]
    by (intro append_inv [OF inv]) (simp_all add: s'(1) s3 s1 hs(1) record_matches_def)
  moreover have "find_row (tr_id row') s' = Some row'"
    using conflict by (intro find_row_snoc [of row' s])
      (simp_all add: s'(1) s3 s1 hs(1) transfer_conflict_def key_taken_def)
  moreover have "q = r"
    using s'(3) inv' same(1) unfolding s'(1) find_record_def find_filter records_of_def by simp
  ultimately show ?thesis using s' stored same(1) by simp
qed

end
