(* ===== verification/TransferRuns.thy ===== *)
theory TransferRuns
  imports TransferProofs
begin

text \<open>
  Every operation of the Transfer service stays within \<open>transfer_step\<close>, whatever the providers answer
  and whatever other requests do within it at each \<open>await\<close>; the states a service reaches by serving
  requests; and what the answers of the operations say of the rows.
\<close>

section \<open>Steps of the operations\<close>

definition calm :: "decimal_lib \<Rightarrow> 'w transfer_env \<Rightarrow> bool" where
  "calm D v \<longleftrightarrow> tv_decimal v = D \<and> (\<forall>k s. transfer_step D s (tv_others v k s))"

lemma calm_decimal: "calm D v \<Longrightarrow> tv_decimal v = D"
  by (simp add: calm_def)

lemma pause_step: "calm D v \<Longrightarrow> steps (transfer_step D) (pause (tv_others v k))"
  by (simp add: calm_def tx.steps_pause)

context two_state
begin

lemma steps_attempt: "steps R m \<Longrightarrow> steps R (attempt m)"
  by (auto simp: steps_def attempt_def split: prod.splits) (metis snd_conv)

lemma steps_check_that: "steps R (check_that p)"
  by (auto simp: check_that_def intro: steps_ret steps_throw split: option.split)

end

lemma upstream_step: "steps (transfer_step D) (upstream service upper url token send)"
  by (rule stepsI) (auto simp: upstream_def Let_def split: prod.split intro!: same_tables)

lemma client_steps:
  "steps (transfer_step D) (account_validation v w)" "steps (transfer_step D) (ledger_post v c)"
  "steps (transfer_step D) (fx_consume v i q)"
  by (simp_all add: account_validation_def ledger_post_def fx_consume_def upstream_step)

lemma by_reference_step: "steps (transfer_step D) (ledger_by_reference v i)"
  unfolding ledger_by_reference_def
  by (intro tx.steps_catch tx.steps_bnd upstream_step tx.steps_ret)
    (auto intro: tx.steps_throw tx.steps_ret split: failure.split)

lemma validated_wallets_step: "steps (transfer_step D) (validated_wallets v t)"
proof (rule stepsI)
  fix s
  obtain r1 s1 where a: "account_validation v (tr_sender t) s = (r1, s1)" by fastforce
  obtain r2 s2 where b: "account_validation v (tr_recipient t) s1 = (r2, s2)" by fastforce
  have "transfer_step D s s2"
    using stepsD_eq [OF client_steps(1) a] stepsD_eq [OF client_steps(1) b] tx.R_trans by blast
  moreover have "snd (check_that p s2) = s2" for p
    by (simp add: check_that_def split: option.split)
  ultimately show "transfer_step D s (snd (validated_wallets v t s))"
    by (auto simp: validated_wallets_def a b split: sum.split)
qed

lemma post_transfer_step: "steps (transfer_step D) (post_transfer v t)"
  by (auto simp: post_transfer_def intro: tx.steps_throw client_steps split: option.split)

lemma read_steps: "steps (transfer_step D) (row_or_throw i)" "steps (transfer_step D) (find_transfer i)"
  unfolding row_or_throw_def find_transfer_def by (intro tx.steps_rules)+

lemma complete_step: "calm D v \<Longrightarrow> steps (transfer_step D) (complete v i ledger)"
  unfolding complete_def
  by (intro tx.steps_bnd pause_step tx.steps_ret tx_stepI)
    (use complete_effect calm_decimal in blast)+

lemma fail_step:
  assumes "calm D v"
  shows "steps (transfer_step D) (fail v i status code msg)"
proof -
  have "steps (transfer_step D) (transaction (\<lambda>_. True) (fail_transaction v i status code msg))"
    by (rule tx_stepI) (metis calm_decimal [OF assms] fail_effect surj_pair)
  then show ?thesis
    unfolding fail_def
    by (intro tx.steps_bnd pause_step assms) (auto intro: tx.steps_ret split: prod.split)
qed

lemma failure_steps:
  assumes "calm D v"
  shows "steps (transfer_step D) (handle_account_failure v i e)"
    and "steps (transfer_step D) (handle_fx_failure v t e)"
    and "steps (transfer_step D) (handle_ledger_failure v t e)"
  using fail_step [OF assms]
  by (auto simp: handle_account_failure_def handle_fx_failure_def handle_ledger_failure_def
      intro: tx.steps_throw tx.steps_ret split: failure.split)

lemma process_step:
  assumes "calm D v"
  shows "steps (transfer_step D) (process v i)"
  unfolding process_def
  by (intro tx.steps_rules pause_step read_steps tx.steps_attempt validated_wallets_step
      post_transfer_step assms)
    (auto intro!: tx.steps_rules pause_step tx.steps_attempt post_transfer_step failure_steps complete_step assms
      split: sum.split)

text \<open>
  The preparation works on a snapshot of the row: it is within \<open>transfer_step\<close> from every state that
  has a later version of the snapshot.
\<close>

definition known :: "transfer \<Rightarrow> 'w transfer_state \<Rightarrow> bool" where
  "known t s \<longleftrightarrow> (\<exists>row. find_row (tr_id t) s = Some row \<and> later_transfer t row)"

definition known_step :: "decimal_lib \<Rightarrow> transfer \<Rightarrow> 'w transfer_state \<Rightarrow> 'w transfer_state \<Rightarrow> bool" where
  "known_step D t s u \<longleftrightarrow>
     (transfers_ok D s \<and> known t s \<longrightarrow> transfers_ok D u \<and> transfers_later s u \<and> known t u)"

lemma known_later: "transfers_later s u \<Longrightarrow> known t s \<Longrightarrow> known t u"
  unfolding known_def using find_row_later later_transfer_trans by blast

lemma known_row: "find_row i s = Some t \<Longrightarrow> known t s"
  using find_row_Some [of i s t] by (auto simp: known_def)

interpretation txk: two_state "known_step D t" for D t
  by unfold_locales (auto simp: known_step_def intro: transfers_later_trans)

lemma known_steps: "steps (transfer_step D) m \<Longrightarrow> steps (known_step D t) m"
  unfolding steps_def transfer_step_def known_step_def by (meson known_later)

lemma prepare_transaction_step:
  assumes "tv_decimal v = D"
  shows "steps (known_step D t) (transaction c (prepare_transaction v t q))"
proof (rule stepsI)
  fix s
  obtain r u where u: "transaction c (prepare_transaction v t q) s = (r, u)" by fastforce
  have "transfers_ok D u \<and> transfers_later s u" if ok: "transfers_ok D s" and kn: "known t s"
  proof (cases r)
    case (Inl e)
    then have "u = s" using u by (simp add: transaction_Inl)
    then show ?thesis using ok by simp
  next
    case (Inr p)
    then have "prepare_transaction v t q s = (Inr p, u)" using u by (simp add: transaction_Inr)
    moreover obtain row where "find_row (tr_id t) s = Some row" "later_transfer t row"
      using kn by (auto simp: known_def)
    ultimately show ?thesis using prepare_effect ok by blast
  qed
  then show "known_step D t s (snd (transaction c (prepare_transaction v t q) s))"
    by (auto simp: known_step_def u intro: known_later)
qed

lemma prepare_international_known:
  assumes "calm D v"
  shows "steps (known_step D t) (prepare_international v t)"
  unfolding prepare_international_def
  by (intro txk.steps_rules known_steps [OF pause_step] txk.steps_attempt known_steps [OF client_steps(3)]
      assms)
    (auto intro!: txk.steps_rules known_steps [OF pause_step] known_steps [OF failure_steps(2)]
      known_steps [OF process_step] known_steps [OF read_steps(2)] prepare_transaction_step
      calm_decimal assms split: sum.split)

lemma prepare_international_step:
  assumes "calm D v" and "known t s"
  shows "transfer_step D s (snd (prepare_international v t s))"
  using stepsD [OF prepare_international_known [OF assms(1)], of t s] assms(2)
  by (auto simp: known_step_def transfer_step_def)

lemma reconcile_step:
  assumes "calm D v"
  shows "steps (transfer_step D) (reconcile v i force)"
proof -
  have prep: "steps (transfer_step D) (bnd (row_or_throw j) (prepare_international v))" for j
  proof (rule stepsI)
    fix s
    show "transfer_step D s (snd (bnd (row_or_throw j) (prepare_international v) s))"
      using prepare_international_step [OF assms known_row, of j s]
      by (cases "find_row j s") (auto simp: row_or_throw_def bnd_def tx.R_refl)
  qed
  show ?thesis
    unfolding reconcile_def
    by (intro tx.steps_bnd [OF read_steps(2)] tx.steps_if tx.steps_ret
        tx.steps_bnd [OF pause_step [OF assms]] prep tx.steps_bnd [OF tx.steps_attempt [OF by_reference_step]])
      (auto intro!: tx.steps_rules pause_step complete_step read_steps claim_processing_retry_step
        process_step assms simp: Let_def split: sum.split failure.split option.split)
qed

lemma handle_existing_step:
  assumes "calm D v"
  shows "steps (transfer_step D) (handle_existing v t r hash)"
  unfolding handle_existing_def
  by (intro tx.steps_rules pause_step assms)
    (auto intro!: tx.steps_rules reconcile_step assms split: idempotency_state.split option.split)

section \<open>Claims\<close>

text \<open>The transfer and the record that a claim gives belong to the caller's key.\<close>

definition claimed ::
  "decimal_lib \<Rightarrow> string \<Rightarrow> string \<Rightarrow> 'w transfer_state \<Rightarrow> transfer \<times> idem_record \<Rightarrow> bool" where
  "claimed D client key s tr \<longleftrightarrow>
     find_row (tr_id (fst tr)) s = Some (fst tr) \<and> records_of (tr_id (fst tr)) s = [snd tr] \<and>
     record_matches D (fst tr) (snd tr) \<and> ir_client (snd tr) = client \<and> ir_key (snd tr) = key"

lemma find_by_key_claimed:
  assumes "find_by_key client key s = Some tr" and "transfers_ok D s"
  shows "claimed D client key s tr"
proof -
  obtain t r where tr: "tr = (t, r)" by fastforce
  have r: "List.find (\<lambda>r. (ir_client r, ir_key r) = (client, key)) (records s) = Some r"
    and t: "find_row (ir_transfer r) s = Some t"
    using assms(1) by (auto simp: find_by_key_def tr split: option.splits)
  have r_in: "r \<in> set (records s)" "ir_client r = client" "ir_key r = key"
    using find_Some_in [OF r] by auto
  have t_in: "t \<in> set (transfers s)" "tr_id t = ir_transfer r"
    using find_row_Some [OF t] by auto
  obtain r' where r': "records_of (tr_id t) s = [r']" "record_matches D t r'"
    using row_record [OF assms(2) t_in(1)] by blast
  then have "r = r'" using records_other [OF r'(1) r_in(1)] t_in(2) by simp
  then show ?thesis using r' t t_in r_in by (simp add: claimed_def tr)
qed

lemma find_by_key_record:
  assumes "claimed D client key s tr" and "transfers_ok D s"
  shows "find_by_key client key s = Some tr"
proof -
  have "snd tr \<in> set (records_of (tr_id (fst tr)) s)" using assms(1) by (simp add: claimed_def)
  then have r: "snd tr \<in> set (records s)" "ir_transfer (snd tr) = tr_id (fst tr)"
    by (simp_all add: records_of_def)
  have "List.find (\<lambda>r. (ir_client r, ir_key r) = (client, key)) (records s) = Some (snd tr)"
    using assms r(1) find_key_unique [of "\<lambda>r. (ir_client r, ir_key r)" "records s" "snd tr"]
    by (simp add: claimed_def transfers_ok_def)
  then show ?thesis
    using assms(1) r(2) by (cases tr) (simp add: find_by_key_def claimed_def)
qed

text \<open>Both claims are the same but for the row they write and the failure of a losing quote.\<close>

lemma claim_catch:
  fixes v :: "'w transfer_env"
  assumes c: "(bnd (gets (find_by_key client key)) (\<lambda>existing.
     case existing of
       Some tr \<Rightarrow> ret (False, tr)
     | None \<Rightarrow>
         bnd (pause (tv_others v 0)) (\<lambda>_.
         catch (bnd (transaction (\<lambda>_. True) (claim_transaction t rows r)) (\<lambda>tr. ret (True, tr)))
           (\<lambda>e. if is_unique_violation e
                then bnd (pause (tv_others v 1)) (\<lambda>_.
                     bnd (gets (find_by_key client key)) (\<lambda>winner.
                     case winner of Some tr \<Rightarrow> ret (False, tr) | None \<Rightarrow> lost e))
                else throw e)))) s = (res, s')"
    and inv: "transfers_ok D s" and calm: "calm D v"
    and rows: "rows = [] \<and> tr_type t = International \<and> tr_target_amount t = None \<or>
      (\<exists>x. rows = history_rows v t x Pending \<and> tr_target_amount t = Some x \<and> tr_status t = Pending)"
    and r: "ir_transfer r = tr_id t" "ir_state r = KeyProcessing" "ir_status r = None" "ir_body r = None"
      "ir_client r = tr_client t" "tr_client t = client" "ir_key r = key"
    and t: "tr_status t = Pending" and lost: "\<And>e u. \<exists>e'. lost e u = (Inl e', u)"
  shows "transfers_ok D s' \<and> transfers_later s s' \<and>
    (\<forall>created tr. res = Inr (created, tr) \<longrightarrow> claimed D client key s' tr \<and>
       (created \<longrightarrow> snd tr = r \<and> stored_transfer t = Some (fst tr)))"
proof (cases "find_by_key client key s")
  case (Some tr)
  then show ?thesis using c inv find_by_key_claimed [OF Some inv] by auto
next
  case None
  let ?s0 = "tv_others v 0 s"
  have s0: "transfers_ok D ?s0 \<and> transfers_later s ?s0"
    using calm inv by (auto simp: calm_def transfer_step_def)
  obtain z u where u: "transaction (\<lambda>_. True) (claim_transaction t rows r) ?s0 = (z, u)" by fastforce
  show ?thesis
  proof (cases z)
    case (Inr w)
    obtain row q where w: "w = (row, q)" by fastforce
    have "claim_transaction t rows r ?s0 = (Inr (row, q), u)"
      using u Inr w by (simp add: transaction_Inr)
    from claim_effect [OF this _ rows r(1-5) t] s0
    have eff: "transfers_ok D u \<and> transfers_later ?s0 u \<and> q = r \<and> records_of (tr_id t) u = [r] \<and>
        stored_transfer t = Some row \<and> find_row (tr_id t) u = Some row" by blast
    have res: "res = Inr (True, row, q)" "s' = u"
      using c None u Inr w by (auto simp: bnd_def catch_def)
    have row: "tr_id row = tr_id t" "tr_client row = client"
      using eff r(6) by (auto simp: stored_transfer_def split: option.splits)
    have "record_matches D row r"
      using eff row_record [of D u row] find_row_Some [of "tr_id t" u row] row(1) by auto
    then show ?thesis
      using res eff s0 row r(5-7) transfers_later_trans [of s ?s0 u] by (auto simp: claimed_def)
  next
    case (Inl e)
    then have "u = ?s0" using u by (simp add: transaction_Inl)
    then have rest: "(if is_unique_violation e
        then bnd (pause (tv_others v 1)) (\<lambda>_. bnd (gets (find_by_key client key)) (\<lambda>winner.
             case winner of Some tr \<Rightarrow> ret (False, tr) | None \<Rightarrow> lost e)) else throw e) ?s0 = (res, s')"
      using c None u Inl by (auto simp: bnd_def catch_def)
    let ?s1 = "tv_others v 1 ?s0"
    have s1: "transfers_ok D ?s1" "transfers_later s ?s1"
      using calm s0 transfers_later_trans [of s ?s0 ?s1] by (auto simp: calm_def transfer_step_def)
    show ?thesis
    proof (cases "is_unique_violation e")
      case False
      then show ?thesis using rest s0 by auto
    next
      case True
      show ?thesis
      proof (cases "find_by_key client key ?s1")
        case (Some tr)
        then show ?thesis using True rest s1 find_by_key_claimed [OF Some s1(1)] by auto
      next
        case None
        then show ?thesis using True rest s1 lost [of e ?s1] by auto
      qed
    qed
  qed
qed

lemma claim_result:
  assumes "claim v client key hash c s = (res, s')" and "transfers_ok D s" and "calm D v"
  shows "transfers_ok D s' \<and> transfers_later s s' \<and>
    (\<forall>created tr. res = Inr (created, tr) \<longrightarrow> claimed D client key s' tr \<and>
       (created \<longrightarrow> snd tr = new_record v client key hash \<and>
          stored_transfer (new_domestic v client c) = Some (fst tr)))"
  by (rule claim_catch [OF assms(1) [unfolded claim_def] assms(2,3)])
    (auto simp: new_domestic_def new_record_def Let_def)

lemma claim_international_result:
  assumes "claim_international v client key hash c s = (res, s')" and "transfers_ok D s" and "calm D v"
  shows "transfers_ok D s' \<and> transfers_later s s' \<and>
    (\<forall>created tr. res = Inr (created, tr) \<longrightarrow> claimed D client key s' tr \<and>
       (created \<longrightarrow> snd tr = new_record v client key hash \<and>
          stored_transfer (new_international v client c) = Some (fst tr)))"
  by (rule claim_catch [OF assms(1) [unfolded claim_international_def] assms(2,3)])
    (auto simp: new_international_def new_record_def)

lemma claim_step: "calm D v \<Longrightarrow> steps (transfer_step D) (claim v client key hash c)"
  by (rule stepsI) (metis claim_result prod.collapse transfer_step_def)

lemma claimed_known: "claimed D client key s tr \<Longrightarrow> known (fst tr) s"
  unfolding claimed_def by (auto intro: known_row)

lemma create_domestic_step:
  assumes "calm D v"
  shows "steps (transfer_step D) (create_domestic v client key c)"
  unfolding create_domestic_def Let_def transition_def [symmetric]
  by (intro tx.steps_bnd tx.steps_ensure tx.steps_check_that claim_step assms)
    (auto intro!: tx.steps_bnd pause_step transition_step process_step handle_existing_step assms
      split: prod.split)

lemma create_international_step:
  assumes "calm D v"
  shows "steps (transfer_step D) (create_international v client key c)"
proof -
  have "steps (transfer_step D) (bnd (claim_international v client key hash c) (\<lambda>(created, t, r).
     if \<not> created then handle_existing v t r hash else prepare_international v t))" (is "steps _ ?m") for hash
  proof (rule stepsI)
    fix s
    obtain res u where u: "claim_international v client key hash c s = (res, u)" by fastforce
    show "transfer_step D s (snd (?m s))"
    proof (cases "transfers_ok D s")
      case False
      then show ?thesis by (simp add: transfer_step_def)
    next
      case True
      have later: "transfer_step D s u"
        using claim_international_result [OF u True assms] by (simp add: transfer_step_def)
      show ?thesis
      proof (cases res)
        case (Inl e)
        then show ?thesis using u later by (simp add: bnd_def)
      next
        case (Inr w)
        obtain created t r where w: "w = (created, t, r)" by (cases w) auto
        have "known t u"
          using claim_international_result [OF u True assms] claimed_known Inr w by fastforce
        then have "transfer_step D u (snd (prepare_international v t u))"
          using assms by (rule prepare_international_step [rotated])
        moreover have "transfer_step D u (snd (handle_existing v t r hash u))"
          using handle_existing_step [OF assms] by (rule stepsD)
        ultimately show ?thesis
          using later u Inr w tx.R_trans by (auto simp: bnd_def)
      qed
    qed
  qed
  then show ?thesis
    unfolding create_international_def Let_def
    by (rule tx.steps_bnd [OF tx.steps_ensure tx.steps_bnd [OF tx.steps_check_that]])
qed

lemma read_wallet_step: "calm D v \<Longrightarrow> steps (transfer_step D) (read_wallet v w)"
  unfolding read_wallet_def
  by (intro tx.steps_bnd pause_step tx.steps_catch client_steps)
    (auto intro: tx.steps_throw split: failure.split)

lemma get_steps:
  assumes "calm D v"
  shows "steps (transfer_step D) (get_for_principal v client i)" "steps (transfer_step D) (get_internal v i)"
  unfolding get_for_principal_def get_internal_def
  by (intro tx.steps_rules read_steps read_wallet_step assms)+

lemma flag_step: "steps (transfer_step D) (modify (\<lambda>s. s\<lparr>reconciling := b\<rparr>))"
  by (rule tx.steps_modify) (simp add: same_tables)

lemma run_once_step:
  assumes "\<And>k. calm D (vs k)"
  shows "steps (transfer_step D) (run_once vs)"
  unfolding run_once_def
  by (intro tx.steps_rules flag_step)
    (auto intro!: tx.steps_rules reconcile_step assms split: prod.split)

section \<open>Runs\<close>

datatype transfer_request =
    CreateDomestic "string option" "string option" create_transfer_dto
  | CreateInternational "string option" "string option" create_international_dto
  | GetTransfer "string option" uuid
  | GetInternal uuid
  | Reconcile uuid
  | RunReconciliation
  | ReconciliationTimer  \<comment> \<open>the interval of the reconciliation job\<close>

text \<open>The reconciliation job makes several calls, each in its own environment; the others use \<open>vs 0\<close>.\<close>

fun serve_transfer ::
  "transfer_http \<Rightarrow> (nat \<Rightarrow> 'w transfer_env) \<Rightarrow> transfer_request \<Rightarrow> 'w transfer_state \<Rightarrow> 'w transfer_state" where
  "serve_transfer h vs (CreateDomestic header key c) s = snd (create_domestic_route h (vs 0) header key c s)"
| "serve_transfer h vs (CreateInternational header key c) s =
     snd (create_international_route h (vs 0) header key c s)"
| "serve_transfer h vs (GetTransfer header i) s = snd (get_transfer_route h (vs 0) header i s)"
| "serve_transfer h vs (GetInternal i) s = snd (get_internal_route h (vs 0) i s)"
| "serve_transfer h vs (Reconcile i) s = snd (reconcile_route h (vs 0) i s)"
| "serve_transfer h vs RunReconciliation s = snd (run_reconciliation_route h vs s)"
| "serve_transfer h vs ReconciliationTimer s = snd (run_once vs s)"

inductive transfer_run :: "decimal_lib \<Rightarrow> 'w transfer_state \<Rightarrow> 'w transfer_state \<Rightarrow> bool" for D where
  tx_idle: "transfer_run D s s"
| tx_world: "transfer_run D s t \<Longrightarrow> transfer_run D s (t\<lparr>outside := w\<rparr>)"
| tx_serve: "\<forall>k. tv_decimal (vs k) = D \<Longrightarrow> \<forall>k n u. transfer_run D u (tv_others (vs k) n u) \<Longrightarrow>
    transfer_run D s t \<Longrightarrow> transfer_run D s (serve_transfer h vs q t)"

definition empty_transfers :: "'w \<Rightarrow> 'w transfer_state" where
  "empty_transfers w = \<lparr>transfers = [], records = [], history = [], reconciling = False, outside = w\<rparr>"

lemma empty_transfers_ok [simp]: "transfers_ok D (empty_transfers w)"
  by (simp add: transfers_ok_def empty_transfers_def)

lemma serve_transfer_step:
  assumes "\<And>k. calm D (vs k)"
  shows "transfer_step D s (serve_transfer h vs q s)"
  by (cases q)
    (auto simp: create_domestic_route_def create_international_route_def get_transfer_route_def
      get_internal_route_def reconcile_route_def run_reconciliation_route_def
      intro!: stepsD [where R = "transfer_step D"] tx.steps_validated tx.steps_guarded tx.steps_principal
        create_domestic_step create_international_step get_steps reconcile_step run_once_step assms)

lemma transfer_run_step: "transfer_run D s t \<Longrightarrow> transfer_step D s t"
proof (induction rule: transfer_run.induct)
  case (tx_idle s)
  then show ?case by (rule tx.R_refl)
next
  case (tx_world s t w)
  from tx_world.IH show ?case by (rule tx.R_trans) (simp add: same_tables)
next
  case (tx_serve vs s t h q)
  then have "transfer_step D t (serve_transfer h vs q t)"
    by (intro serve_transfer_step) (simp add: calm_def)
  then show ?case using tx_serve.IH(2) tx.R_trans by blast
qed

lemma transfer_run_ok: "transfer_run D (empty_transfers w) s \<Longrightarrow> transfers_ok D s"
  using transfer_run_step [of D "empty_transfers w" s] by (simp add: transfer_step_def)

lemma transfer_run_later: "transfer_run D s t \<Longrightarrow> transfers_ok D s \<Longrightarrow> transfers_later s t"
  using transfer_run_step [of D s t] by (simp add: transfer_step_def)

lemma run_calm:
  "tv_decimal v = D \<Longrightarrow> \<forall>n u. transfer_run D u (tv_others v n u) \<Longrightarrow> calm D v"
  by (simp add: calm_def transfer_run_step)

text \<open>What a key's record says once is said for ever.\<close>

lemma claimed_later:
  assumes "claimed D client key s tr" and "transfers_later s u" and "transfers_ok D u"
  shows "\<exists>q. claimed D client key u q \<and> later_transfer (fst tr) (fst q) \<and> later_record (snd tr) (snd q)"
proof -
  obtain t r where tr: "tr = (t, r)" by fastforce
  have t: "find_row (tr_id t) s = Some t" and r: "records_of (tr_id t) s = [r]"
    and match: "record_matches D t r" "ir_client r = client" "ir_key r = key"
    using assms(1) by (simp_all add: claimed_def tr)
  obtain t' where t': "find_row (tr_id t) u = Some t'" "later_transfer t t'"
    using find_row_later [OF assms(2) t] by blast
  then have id: "tr_id t' = tr_id t" by (simp add: later_transfer_def)
  have "r \<in> set (records_of (tr_id t) s)" using r by simp
  then have "r \<in> set (records s)" by (simp add: records_of_def)
  then obtain r' where r': "r' \<in> set (records u)" "later_record r r'"
    using assms(2) grows_in [of later_record "records s" "records u" r] by (auto simp: transfers_later_def)
  have "ir_transfer r = tr_id t" using match(1) by (simp add: record_matches_def)
  moreover have "record_key r' = record_key r" using r'(2) by (simp add: later_record_def)
  ultimately have key: "ir_transfer r' = tr_id t" "ir_client r' = client" "ir_key r' = key"
    using match(2,3) by (simp_all add: record_key_def)
  obtain q where q: "records_of (tr_id t') u = [q]" "record_matches D t' q"
    using row_record [OF assms(3)] find_row_Some [OF t'(1)] by blast
  have "r' = q" using records_other [OF q(1) r'(1)] key(1) id by simp
  then have "claimed D client key u (t', r')"
    using q t'(1) id key by (simp add: claimed_def)
  then show ?thesis using t'(2) r'(2) by (auto simp: tr)
qed

end
