(* ===== verification/TransferDemo.thy ===== *)
theory TransferDemo
  imports TransferRuns FxProofs
begin

text \<open>
  Concrete runs of the Transfer service, at which the properties are applied: a domestic transfer of
  100 USD that completes, one whose ledger answer is lost, and one that the ledger refuses. The
  outside world is trivial; its answers are those of \<open>demo_tx_env\<close>.
\<close>

definition demo_wallet :: "uuid \<Rightarrow> wallet_validation" where
  "demo_wallet w = \<lparr>wv_wallet = w, wv_user = ''u'', wv_owner = (if w = ''wa'' then ''alice'' else ''bob''),
     wv_currency = ''USD'', wv_status = ''ACTIVE'', wv_ledger_account = Some ''la''\<rparr>"

definition demo_posting :: posting_response where
  "demo_posting = \<lparr>pr_id = ''l1'', pr_reference = ''x1'', pr_status = ''POSTED'', pr_type = ''TRANSFER'', pr_entries = []\<rparr>"

text \<open>The answers of the ledger to a posting and to a lookup are parameters.\<close>

definition demo_tx_env ::
  "posting_response fetched \<Rightarrow> posting_response fetched \<Rightarrow> unit transfer_env" where
  "demo_tx_env posted found = \<lparr>tv_decimal = exact_decimal, tv_digest = (\<lambda>_. ''h''),
     tv_others = (\<lambda>_ s. s), tv_now = (\<lambda>_. 1000), tv_transfer_id = ''x1'',
     tv_history_id = (\<lambda>k. if k = 0 then ''h0'' else ''h1''), tv_request_id = [], tv_fresh_request = ''r1'',
     tv_stale_setting = None, tv_token = Some ''k'', tv_account_url = Some ''a'', tv_ledger_url = Some ''l'',
     tv_fx_url = Some ''f'', tv_recipient_first = False,
     tv_validation = (\<lambda>w s. (Response 200 (demo_wallet w) None None, s)),
     tv_post = (\<lambda>_ s. (posted, s)), tv_by_reference = (\<lambda>_ s. (found, s)),
     tv_consume = (\<lambda>_ _ s. (NoResponse, s))\<rparr>"

definition demo_command :: create_transfer_dto where
  "demo_command = \<lparr>ct_sender = ''wa'', ct_recipient = ''wb'', ct_amount = ''100.0'', ct_currency = ''USD''\<rparr>"

definition demo_row :: transfer where
  "demo_row = \<lparr>tr_id = ''x1'', tr_client = ''alice'', tr_type = Domestic, tr_status = Processing,
     tr_sender = ''wa'', tr_recipient = ''wb'', tr_source_currency = ''USD'', tr_source_amount = 100,
     tr_target_currency = ''USD'', tr_target_amount = Some 100, tr_fx_quote = None, tr_locked_rate = None,
     tr_ledger = None, tr_failure_code = None, tr_failure_message = None, tr_created = 1000,
     tr_updated = 1000, tr_completed = None, tr_version = 1\<rparr>"

definition demo_record :: idem_record where
  "demo_record = \<lparr>ir_client = ''alice'', ir_key = ''key'', ir_hash = ''h'', ir_state = KeyProcessing,
     ir_transfer = ''x1'', ir_status = None, ir_body = None, ir_replay_until = 86401000,
     ir_retain_until = 220752001000\<rparr>"

definition demo_history :: "transfer_status \<Rightarrow> history_row list" where
  "demo_history status =
     [\<lparr>hr_id = ''h0'', hr_transfer = ''x1'', hr_wallet = ''wa'', hr_role = Sender, hr_counterparty = ''wb'',
       hr_status = status, hr_amount = 100, hr_currency = ''USD'', hr_fx_quote = None, hr_occurred = 1000\<rparr>,
      \<lparr>hr_id = ''h1'', hr_transfer = ''x1'', hr_wallet = ''wb'', hr_role = Recipient, hr_counterparty = ''wa'',
       hr_status = status, hr_amount = 100, hr_currency = ''USD'', hr_fx_quote = None, hr_occurred = 1000\<rparr>]"

text \<open>The states with the transfer in progress, completed and failed.\<close>

definition demo_open :: "unit transfer_state" where
  "demo_open = \<lparr>transfers = [demo_row], records = [demo_record], history = demo_history Processing,
     reconciling = False, outside = ()\<rparr>"

definition demo_done_row :: transfer where
  "demo_done_row = demo_row\<lparr>tr_status := Completed, tr_ledger := Some ''l1'', tr_completed := Some 1000, tr_version := 2\<rparr>"

definition demo_done :: "unit transfer_state" where
  "demo_done = \<lparr>transfers = [demo_done_row],
     records = [demo_record\<lparr>ir_state := KeyCompleted, ir_status := Some 201,
       ir_body := Some (transfer_response_of exact_decimal demo_done_row)\<rparr>],
     history = demo_history Completed, reconciling = False, outside = ()\<rparr>"

definition demo_failed_row :: transfer where
  "demo_failed_row = demo_row\<lparr>tr_status := Failed, tr_failure_code := Some ''INSUFFICIENT_FUNDS'',
     tr_failure_message := Some ''No funds.'', tr_version := 2\<rparr>"

definition demo_failed :: "unit transfer_state" where
  "demo_failed = \<lparr>transfers = [demo_failed_row],
     records = [demo_record\<lparr>ir_state := KeyFailed, ir_status := Some 422,
       ir_body := Some (transfer_response_of exact_decimal demo_failed_row)\<rparr>],
     history = demo_history Failed, reconciling = False, outside = ()\<rparr>"

abbreviation posted_ok :: "posting_response fetched" where
  "posted_ok \<equiv> Response 201 demo_posting None None"

abbreviation posted_refused :: "posting_response fetched" where
  "posted_refused \<equiv> Response 422 demo_posting (Some ''INSUFFICIENT_FUNDS'') (Some ''No funds.'')"

lemmas tx_rows = demo_row_def demo_record_def demo_history_def demo_command_def demo_posting_def
  demo_wallet_def demo_tx_env_def demo_open_def demo_done_def demo_done_row_def demo_failed_def
  demo_failed_row_def

lemmas tx_writes = create_transfer_def stored_transfer_def nullable_money_column_def
  nullable_rate_column_def numeric_column_def transfer_check_def transfer_type_check_def
  terminal_state_check_def positive_rate_def short_text_def char_count_def is_currency_def upper_letter_def
  transfer_conflict_def key_taken_def create_record_def record_check_def create_history_def
  history_check_def history_key_def update_transfers_def update_where_def changed_def
  transfer_update_ok_def same_command_def quote_terms_ok_def unique_some_def count_where_def
  update_history_def update_records_def record_update_ok_def find_row_def find_record_def

lemmas tx_code = claim_def claim_transaction_def new_domestic_def new_record_def history_rows_def
  find_by_key_def transition_def process_def find_transfer_def row_or_throw_def
  validated_wallets_def account_validation_def upstream_def validate_wallets_def check_that_def
  attempt_def post_transfer_def posting_command_def ledger_post_def complete_def
  complete_transaction_def fail_def fail_transaction_def handle_ledger_failure_def
  processing_result_def result_for_transfer_def idempotency_key_ok_def validate_command_def

lemma status_steps [simp]:
  "status_step Pending Processing" "status_step Processing Completed" "status_step Processing Failed"
  "status_step a a"
  by (auto intro: status_step.intros)

lemma demo_claim:
  "claim (demo_tx_env p f) ''alice'' ''key'' ''h'' demo_command (empty_transfers ()) =
     (Inr (True, demo_row\<lparr>tr_status := Pending, tr_version := 0\<rparr>, demo_record),
      \<lparr>transfers = [demo_row\<lparr>tr_status := Pending, tr_version := 0\<rparr>], records = [demo_record],
       history = demo_history Pending, reconciling = False, outside = ()\<rparr>)"
  by (simp add: tx_rows tx_writes tx_code empty_transfers_def bnd_def catch_def transaction_def Let_def
      replay_window_ms_def retention_window_ms_def)

lemma demo_transition:
  "transition (demo_tx_env p f) ''x1'' \<lparr>transfers = [demo_row\<lparr>tr_status := Pending, tr_version := 0\<rparr>],
       records = [demo_record], history = demo_history Pending, reconciling = False, outside = ()\<rparr> =
     (Inr (), demo_open)"
  by (simp add: tx_rows tx_writes tx_code bnd_def transaction_def)

lemma demo_validated: "validated_wallets (demo_tx_env p f) demo_row demo_open = (Inr (), demo_open)"
  by (simp add: tx_rows tx_code internal_request_def)

lemma demo_post_transfer:
  "post_transfer (demo_tx_env p f) demo_row demo_open =
     (internal_request ''ledger'' ''LEDGER'' (Some ''l'') (Some ''k'') p, demo_open)"
  by (simp add: tx_rows tx_code Let_def)

lemma demo_complete:
  "complete (demo_tx_env p f) ''x1'' ''l1'' demo_open =
     (Inr \<lparr>ex_status = 201, ex_body = transfer_response_of exact_decimal demo_done_row\<rparr>, demo_done)"
  by (simp add: tx_rows tx_writes tx_code bnd_def transaction_def)

lemma demo_fail:
  "fail (demo_tx_env p f) ''x1'' 422 ''INSUFFICIENT_FUNDS'' ''No funds.'' demo_open =
     (Inr \<lparr>ex_status = 422, ex_body = transfer_response_of exact_decimal demo_failed_row\<rparr>, demo_failed)"
  by (simp add: tx_rows tx_writes tx_code bnd_def transaction_def)

lemma demo_process:
  "process (demo_tx_env p f) ''x1'' demo_open =
     (case internal_request ''ledger'' ''LEDGER'' (Some ''l'') (Some ''k'') p of
        Inl e \<Rightarrow> handle_ledger_failure (demo_tx_env p f) demo_row e demo_open
      | Inr r \<Rightarrow> complete (demo_tx_env p f) ''x1'' (pr_id r) demo_open)"
proof -
  have "find_transfer ''x1'' demo_open = (Inr demo_row, demo_open)"
    by (simp add: find_transfer_def find_row_def demo_open_def demo_row_def)
  moreover have "tr_status demo_row = Processing" "tr_id demo_row = ''x1''" by (simp_all add: demo_row_def)
  moreover have "tv_others (demo_tx_env p f) k s = s" for k s by (simp add: demo_tx_env_def)
  ultimately show ?thesis
    using demo_validated [of p f] demo_post_transfer [of p f]
    by (simp add: process_def bnd_def attempt_def split: sum.split)
qed

lemma demo_create:
  "create_domestic (demo_tx_env p f) ''alice'' ''key'' demo_command (empty_transfers ()) =
     process (demo_tx_env p f) ''x1'' demo_open"
proof -
  have "domestic_hash (demo_tx_env p f) demo_command = ''h''"
    by (simp add: domestic_hash_def demo_tx_env_def)
  moreover have "idempotency_key_ok ''key''" by (simp add: idempotency_key_ok_def)
  moreover have "check_that (validate_command (tv_decimal (demo_tx_env p f)) demo_command) s = (Inr (), s)"
    for s :: "unit transfer_state"
    by (simp add: check_that_def validate_command_def demo_command_def demo_tx_env_def)
  moreover have "tr_id (demo_row\<lparr>tr_status := Pending, tr_version := 0\<rparr>) = ''x1''" by (simp add: demo_row_def)
  moreover have "tv_others (demo_tx_env p f) k s = s" for k s by (simp add: demo_tx_env_def)
  ultimately show ?thesis
    using demo_claim [of p f] demo_transition [of p f]
    by (simp add: create_domestic_def bnd_def Let_def)
qed

definition demo_tx_http :: transfer_http where
  "demo_tx_http = \<lparr>th_is_uuid = (\<lambda>t. t \<noteq> []), th_token = Some ''k'', th_supplied = Some ''k''\<rparr>"

lemma demo_create_route:
  "create_domestic_route demo_tx_http v (Some ''Bearer alice'') (Some ''key'') demo_command =
     create_domestic v ''alice'' ''key'' demo_command"
  by (rule ext)
    (simp add: create_domestic_route_def validated_def create_transfer_ok_def with_principal_def
      from_request_def bearer_token_def trim_def is_space_def principal_pattern_def is_alnum_def
      is_digit_def upper_letter_def is_currency_def decimal_pattern_def Let_def demo_command_def
      demo_tx_http_def)

lemma demo_results:
  "process (demo_tx_env posted_ok f) ''x1'' demo_open =
     (Inr \<lparr>ex_status = 201, ex_body = transfer_response_of exact_decimal demo_done_row\<rparr>, demo_done)"
  "process (demo_tx_env posted_refused f) ''x1'' demo_open =
     (Inr \<lparr>ex_status = 422, ex_body = transfer_response_of exact_decimal demo_failed_row\<rparr>, demo_failed)"
  "process (demo_tx_env NoResponse f) ''x1'' demo_open =
     (Inr \<lparr>ex_status = 202, ex_body = transfer_response_of exact_decimal demo_row\<rparr>, demo_open)"
proof -
  have id: "tr_id demo_row = ''x1''" by (simp add: demo_row_def)
  show "process (demo_tx_env posted_ok f) ''x1'' demo_open =
     (Inr \<lparr>ex_status = 201, ex_body = transfer_response_of exact_decimal demo_done_row\<rparr>, demo_done)"
    by (simp add: demo_process internal_request_def demo_posting_def demo_complete)
  show "process (demo_tx_env posted_refused f) ''x1'' demo_open =
     (Inr \<lparr>ex_status = 422, ex_body = transfer_response_of exact_decimal demo_failed_row\<rparr>, demo_failed)"
    by (simp add: demo_process internal_request_def handle_ledger_failure_def id demo_fail)
  show "process (demo_tx_env NoResponse f) ''x1'' demo_open =
     (Inr \<lparr>ex_status = 202, ex_body = transfer_response_of exact_decimal demo_row\<rparr>, demo_open)"
    by (simp add: demo_process internal_request_def handle_ledger_failure_def processing_result_def)
      (simp add: demo_tx_env_def)
qed

lemma demo_serve_run:
  assumes "transfer_run exact_decimal s t"
  shows "transfer_run exact_decimal s (serve_transfer h (\<lambda>_. demo_tx_env p f) q t)"
  using assms by (intro tx_serve) (simp_all add: demo_tx_env_def tx_idle)

lemma demo_tx_runs:
  "transfer_run exact_decimal (empty_transfers ()) demo_open"
  "transfer_run exact_decimal (empty_transfers ()) demo_done"
  "transfer_run exact_decimal (empty_transfers ()) demo_failed"
  using demo_serve_run [OF tx_idle, of "empty_transfers ()" demo_tx_http NoResponse NoResponse
      "CreateDomestic (Some ''Bearer alice'') (Some ''key'') demo_command"]
    demo_serve_run [OF tx_idle, of "empty_transfers ()" demo_tx_http posted_ok NoResponse
      "CreateDomestic (Some ''Bearer alice'') (Some ''key'') demo_command"]
    demo_serve_run [OF tx_idle, of "empty_transfers ()" demo_tx_http posted_refused NoResponse
      "CreateDomestic (Some ''Bearer alice'') (Some ''key'') demo_command"]
  by (simp_all add: demo_create_route demo_create demo_results)

text \<open>The transfer in progress is found at the ledger.\<close>

lemma demo_reconcile:
  "reconcile (demo_tx_env p posted_ok) ''x1'' True demo_open =
     (Inr \<lparr>ex_status = 201, ex_body = transfer_response_of exact_decimal demo_done_row\<rparr>, demo_done)"
proof -
  have "find_transfer ''x1'' demo_open = (Inr demo_row, demo_open)"
    by (simp add: find_transfer_def find_row_def demo_open_def demo_row_def)
  moreover have "ledger_by_reference (demo_tx_env p posted_ok) ''x1'' demo_open = (Inr (Some demo_posting), demo_open)"
    by (simp add: ledger_by_reference_def catch_def bnd_def upstream_def demo_tx_env_def internal_request_def)
  moreover have "tr_status demo_row = Processing" "tr_id demo_row = ''x1''" "pr_id demo_posting = ''l1''"
    by (simp_all add: demo_row_def demo_posting_def)
  moreover have "tv_others (demo_tx_env p posted_ok) k s = s" for k s by (simp add: demo_tx_env_def)
  ultimately show ?thesis
    using demo_complete [of p posted_ok] by (simp add: reconcile_def bnd_def attempt_def)
qed

lemma demo_reconcile_run: "transfer_run exact_decimal demo_open demo_done"
proof -
  have "reconcile_route demo_tx_http (demo_tx_env NoResponse posted_ok) ''x1'' demo_open =
      reconcile (demo_tx_env NoResponse posted_ok) ''x1'' True demo_open"
    by (simp add: reconcile_route_def guarded_def validated_def internal_guard_def demo_tx_http_def)
  then show ?thesis
    using demo_serve_run [OF tx_idle, of demo_open demo_tx_http NoResponse posted_ok "Reconcile ''x1''"]
    by (simp add: demo_reconcile)
qed

end
