(* ===== verification/TransferProperties.thy ===== *)
theory TransferProperties
  imports TransferDemo
begin

text \<open>
  The properties of the Transfer service over all its runs, and what its operations do on the branches
  that matter: replays, mismatches, lost responses, provider failures.
\<close>

section \<open>Updates that succeed\<close>

lemma unique_some_replace:
  assumes "unique_some key (a @ t # b)"
    and "key x = key t \<or> key x = None \<or> (\<forall>q\<in>set a \<union> set b. key q \<noteq> key x)"
  shows "unique_some key (a @ x # b)"
  using assms by (cases "key t"; cases "key x") (auto simp: unique_some_def image_iff)

lemma update_one_succeeds:
  assumes inv: "transfers_ok D s" and t: "find_row i s = Some t" "P t" "f t = Some t'"
    and P: "\<And>q. P q \<Longrightarrow> tr_id q = i"
    and ok: "transfer_update_ok t t'" "transfer_check t'"
    and ledger: "tr_ledger t' = tr_ledger t \<or>
      (\<forall>q\<in>set (transfers s). tr_ledger q \<noteq> None \<longrightarrow> tr_ledger q \<noteq> tr_ledger t')" "tr_id t' = i"
  shows "update_transfers P f s =
    (Inr 1, s\<lparr>transfers := update_where (\<lambda>q. tr_id q = i) (\<lambda>_. t') (transfers s)\<rparr>)"
proof -
  have t_in: "t \<in> set (transfers s)" "tr_id t = i" using find_row_Some [OF t(1)] by auto
  have only: "filter (\<lambda>q. tr_id q = i) (transfers s) = [t]"
    using filter_only [OF inv t_in(1)] t_in(2) by simp
  have one: "q = t" if "q \<in> set (transfers s)" "P q" for q
    using that P single_only [OF only] by blast
  have changed: "changed f t = t'" using t(3) by (simp add: changed_def)
  have rows: "update_where P (changed f) (transfers s) =
      update_where (\<lambda>q. tr_id q = i) (\<lambda>_. t') (transfers s)"
    unfolding changed [symmetric] using only P t(2) by (rule update_where_single)
  have all: "list_all (\<lambda>q. P q \<longrightarrow> f q \<noteq> None \<and> transfer_update_ok q (changed f q) \<and>
      transfer_check (changed f q)) (transfers s)"
    using one t(3) ok changed by (auto simp: list_all_iff)
  have "filter P (transfers s) = filter P (filter (\<lambda>q. tr_id q = i) (transfers s))"
    using P by (auto intro: filter_cong)
  then have count: "count_where P (transfers s) = 1"
    using only t(2) by (simp add: count_where_def)
  have "unique_some tr_ledger (update_where (\<lambda>q. tr_id q = i) (\<lambda>_. t') (transfers s))"
  proof -
    have split: "\<exists>a b. transfers s = a @ t # b \<and>
        update_where (\<lambda>q. tr_id q = i) (\<lambda>_. t') (transfers s) = a @ t' # b"
    proof -
      obtain a b where ab: "transfers s = a @ t # b" using t_in(1) by (auto simp: in_set_conv_decomp)
      have "filter (\<lambda>q. tr_id q = i) a = []" "filter (\<lambda>q. tr_id q = i) b = []"
        using only t_in(2) by (auto simp: ab append_eq_Cons_conv)
      then have "\<forall>q\<in>set a. tr_id q \<noteq> i" "\<forall>q\<in>set b. tr_id q \<noteq> i" by (auto simp: filter_empty_conv)
      then have "update_where (\<lambda>q. tr_id q = i) (\<lambda>_. t') a = a"
        "update_where (\<lambda>q. tr_id q = i) (\<lambda>_. t') b = b"
        by (auto intro: update_where_none)
      then show ?thesis using ab t_in(2) by (intro exI [of _ a] exI [of _ b]) (simp add: update_where_def)
    qed
    then obtain a b where ab: "transfers s = a @ t # b"
      "update_where (\<lambda>q. tr_id q = i) (\<lambda>_. t') (transfers s) = a @ t' # b" by blast
    have "unique_some tr_ledger (a @ t # b)" using inv ab(1) by (simp add: transfers_ok_def)
    then show ?thesis
      unfolding ab(2) by (rule unique_some_replace) (use ledger(1) in \<open>force simp: ab(1)\<close>)
  qed
  then show ?thesis using all rows count by (simp add: update_transfers_def Let_def)
qed

lemma update_records_succeeds:
  assumes r: "records_of i s = [r]" and P: "\<And>q. P q \<Longrightarrow> ir_transfer q = i" "P r"
    and ok: "record_update_ok r (f r)" "record_check (f r)"
  shows "\<exists>s'. update_records P f s = (Inr 1, s')"
proof -
  have "q = r" if "q \<in> set (records s)" "P q" for q
    using that P records_other [OF r] by blast
  then have "list_all (\<lambda>q. P q \<longrightarrow> record_update_ok q (f q) \<and> record_check (f q)) (records s)"
    using ok by (auto simp: list_all_iff)
  moreover have "filter P (records s) = filter P (records_of i s)"
    unfolding records_of_def using P(1) by (auto intro: filter_cong)
  then have "count_where P (records s) = 1" using r P(2) by (simp add: count_where_def)
  ultimately show ?thesis by (simp add: update_records_def)
qed

lemma complete_succeeds:
  assumes inv: "transfers_ok D s" and t: "find_row i s = Some t" "tr_status t = Processing"
    and fresh: "\<forall>q\<in>set (transfers s). tr_ledger q \<noteq> Some ledger" and D: "tv_decimal v = D"
  shows "\<exists>x s'. complete_transaction v i ledger s = (Inr x, s') \<and> tr_status x = Completed"
proof -
  let ?t' = "t\<lparr>tr_status := Completed, tr_ledger := Some ledger, tr_completed := Some (tv_now v 2),
     tr_version := tr_version t + 1, tr_updated := tv_now v 7\<rparr>"
  have t_in: "t \<in> set (transfers s)" "tr_id t = i" using find_row_Some [OF t(1)] by auto
  have check: "transfer_check t" and r_ex: "\<exists>r. records_of i s = [r] \<and> record_matches D t r"
    using inv t_in by (auto simp: transfers_ok_def row_ok_def)
  then obtain r where r: "records_of i s = [r]" "record_matches D t r" by blast
  have t': "transfer_update_ok t ?t'" "transfer_check ?t'"
    using check t(2) by (auto simp: transfer_update_ok_def same_command_def quote_terms_ok_def
        status_step_from transfer_check_def transfer_type_check_def terminal_state_check_def
        short_text_def char_count_def split: transfer_type.splits)
  let ?s1 = "s\<lparr>transfers := update_where (\<lambda>q. tr_id q = i) (\<lambda>_. ?t') (transfers s)\<rparr>"
  let ?s2 = "?s1\<lparr>history := update_where (\<lambda>h. hr_transfer h = i) (\<lambda>h. h\<lparr>hr_status := Completed\<rparr>) (history s)\<rparr>"
  have up: "update_transfers (\<lambda>t. tr_id t = i \<and> tr_status t = Processing)
      (\<lambda>t. Some (t\<lparr>tr_status := Completed, tr_ledger := Some ledger, tr_completed := Some (tv_now v 2),
         tr_version := tr_version t + 1, tr_updated := tv_now v 7\<rparr>)) s = (Inr 1, ?s1)"
    using t t_in t' fresh by (intro update_one_succeeds [OF inv t(1)]) auto
  have row: "find_row i ?s2 = Some ?t'"
    using filter_only [OF inv t_in(1)] t_in(2) by (intro find_row_updated [of i s t]) simp_all
  have r2: "records_of i ?s2 = [r]" using r(1) by (simp add: records_of_def)
  have key: "ir_transfer r = i" "ir_state r = KeyProcessing" "ir_replay_until r \<le> ir_retain_until r"
    using r(2) t(2) t_in(2) by (simp_all add: record_matches_def)
  have "\<exists>s'. update_records (\<lambda>r. ir_transfer r = i) (\<lambda>r. r\<lparr>ir_state := KeyCompleted,
      ir_status := Some 201, ir_body := Some (transfer_response_of (tv_decimal v) ?t')\<rparr>) ?s2 = (Inr 1, s')"
    using key by (intro update_records_succeeds [OF r2])
      (simp_all add: record_update_ok_def record_check_def)
  then obtain s' where "update_records (\<lambda>r. ir_transfer r = i) (\<lambda>r. r\<lparr>ir_state := KeyCompleted,
      ir_status := Some 201, ir_body := Some (transfer_response_of (tv_decimal v) ?t')\<rparr>) ?s2 = (Inr 1, s')"
    by blast
  then have "complete_transaction v i ledger s = (Inr ?t', s')"
    using up row unfolding complete_transaction_def
    by (simp add: bnd_def update_history_def row_or_throw_def)
  then show ?thesis by (intro exI [of _ ?t'] exI [of _ s']) simp
qed

lemma fail_succeeds:
  assumes inv: "transfers_ok D s" and t: "find_row i s = Some t" "tr_status t \<in> {Pending, Processing}"
    and fits: "char_count code \<le> 80" "char_count msg \<le> 300" "100 \<le> status" "status \<le> 599"
    and D: "tv_decimal v = D"
  shows "\<exists>x s'. fail_transaction v i status code msg s = (Inr (x, True), s')"
proof -
  let ?f = "\<lambda>t. t\<lparr>tr_status := Failed, tr_failure_code := Some code, tr_failure_message := Some msg,
     tr_version := tr_version t + 1, tr_updated := tv_now v 8\<rparr>"
  let ?h = "\<lambda>r. r\<lparr>ir_state := KeyFailed, ir_status := Some status,
     ir_body := Some (transfer_response_of (tv_decimal v) (?f t))\<rparr>"
  have t_in: "t \<in> set (transfers s)" "tr_id t = i" using find_row_Some [OF t(1)] by auto
  have check: "transfer_check t" using inv t_in by (simp add: transfers_ok_def row_ok_def)
  obtain r where r: "records_of i s = [r]" "record_matches D t r"
    using row_record [OF inv t_in(1)] t_in(2) by blast
  have "transfer_update_ok t (?f t)"
    using t(2) by (auto simp: transfer_update_ok_def same_command_def quote_terms_ok_def status_step_from)
  moreover have "transfer_check (?f t)"
    using check fits(1,2) t(2) by (auto simp: transfer_check_def transfer_type_check_def
        terminal_state_check_def short_text_def split: transfer_type.splits transfer_status.splits)
  moreover have "tr_status (?f t) \<notin> {Pending, Processing}" by simp
  ultimately have up: "update_transfers (\<lambda>t. tr_id t = i \<and> tr_status t \<in> {Pending, Processing}) (\<lambda>t. Some (?f t)) s =
      (Inr 1, s\<lparr>transfers := update_where (\<lambda>q. tr_id q = i) (\<lambda>_. ?f t) (transfers s)\<rparr>)"
    using t t_in by (intro update_one_succeeds [OF inv t(1)]) simp_all
  let ?s2 = "s\<lparr>transfers := update_where (\<lambda>q. tr_id q = i) (\<lambda>_. ?f t) (transfers s),
      history := update_where (\<lambda>h. hr_transfer h = i) (\<lambda>h. h\<lparr>hr_status := Failed\<rparr>) (history s)\<rparr>"
  have row: "find_row i ?s2 = Some (?f t)"
    using filter_only [OF inv t_in(1)] t_in(2) by (intro find_row_updated [of i s t]) simp_all
  have r2: "records_of i ?s2 = [r]" using r(1) by (simp add: records_of_def)
  have key: "ir_transfer r = i" "ir_state r = KeyProcessing" "ir_replay_until r \<le> ir_retain_until r"
    using r(2) t(2) t_in(2) by (auto simp: record_matches_def)
  have "\<exists>s'. update_records (\<lambda>r. ir_transfer r = i \<and> ir_state r = KeyProcessing) ?h ?s2 = (Inr 1, s')"
    using key fits by (intro update_records_succeeds [OF r2]) (simp_all add: record_update_ok_def record_check_def)
  then obtain s' where "update_records (\<lambda>r. ir_transfer r = i \<and> ir_state r = KeyProcessing) ?h ?s2 = (Inr 1, s')"
    by blast
  then have "fail_transaction v i status code msg s = (Inr (?f t, True), s')"
    using up row unfolding fail_transaction_def
    by (simp add: bnd_def update_history_def row_or_throw_def)
  then show ?thesis by blast
qed

section \<open>Invariants of the runs\<close>

text \<open>
  C9. A transfer moves forward and never changes its command: whatever requests are served and
  interleaved, and whatever the other services answer, its sender, recipient, currencies, source
  amount and quote stay, its status moves along \<open>PENDING\<close>, \<open>PROCESSING\<close>, then \<open>COMPLETED\<close> or
  \<open>FAILED\<close>, the locked terms are written at most once, and a completed or failed transfer never
  changes again.
\<close>

theorem transfer_lifecycle:
  assumes "transfer_run D (empty_transfers w) s" and "transfer_run D s u" and "find_row i s = Some p"
  shows "\<exists>q. find_row i u = Some q \<and> same_command p q \<and>
    rtranclp status_step (tr_status p) (tr_status q) \<and>
    (tr_target_amount p \<noteq> None \<longrightarrow>
       tr_target_amount q = tr_target_amount p \<and> tr_locked_rate q = tr_locked_rate p) \<and>
    (tr_status p \<in> {Completed, Failed} \<longrightarrow> q = p)"
proof -
  have "transfers_later s u"
    by (rule transfer_run_later [OF assms(2) transfer_run_ok [OF assms(1)]])
  from find_row_later [OF this assms(3)] obtain q where "find_row i u = Some q" "later_transfer p q"
    by blast
  then show ?thesis by (auto simp: later_transfer_def)
qed

theorem transfer_lifecycle_witness:
  "rtranclp status_step Processing Completed \<and> find_row ''x1'' demo_done = Some demo_done_row"
proof -
  have "find_row ''x1'' demo_open = Some demo_row" "find_row ''x1'' demo_done = Some demo_done_row"
    by (simp_all add: find_row_def tx_rows)
  then show ?thesis
    using transfer_lifecycle [OF demo_tx_runs(1) demo_reconcile_run, of "''x1''" demo_row]
    by (auto simp: demo_row_def demo_done_row_def)
qed

text \<open>
  C10. Every transfer has exactly one idempotency record, of its own client, which holds the final
  answer exactly when the transfer is final, and its rows in the transaction history are those that
  a rebuild would compute from it, with its status.
\<close>

theorem records_and_history_mirror_transfers:
  assumes "transfer_run D (empty_transfers w) s" and "t \<in> set (transfers s)"
  shows "(\<exists>r. filter (\<lambda>r. ir_transfer r = tr_id t) (records s) = [r] \<and> ir_client r = tr_client t \<and>
      (if tr_status t \<in> {Completed, Failed} then ir_body r = Some (transfer_response_of D t)
       else ir_body r = None \<and> ir_state r = KeyProcessing)) \<and>
    map anonymous (filter (\<lambda>h. hr_transfer h = tr_id t) (history s)) = expected_rows t"
proof -
  have ok: "row_ok D s t" using transfer_run_ok [OF assms(1)] assms(2) by (simp add: transfers_ok_def)
  then obtain r where "records_of (tr_id t) s = [r]" "record_matches D t r"
    by (auto simp: row_ok_def)
  then show ?thesis
    using ok by (auto simp: row_ok_def records_of_def history_of_def record_matches_def
        split: transfer_status.splits)
qed

theorem records_and_history_mirror_transfers_witness:
  "map anonymous (filter (\<lambda>h. hr_transfer h = ''x1'') (history demo_done)) = expected_rows demo_done_row"
  using records_and_history_mirror_transfers [OF demo_tx_runs(2), of demo_done_row]
  by (simp add: demo_done_def demo_done_row_def demo_row_def)

text \<open>
  C13. No two transfers share an FX quote, a ledger posting or an idempotency key.
\<close>

theorem quotes_postings_and_keys_not_shared:
  assumes "transfer_run D (empty_transfers w) s" and "t \<in> set (transfers s)" and "u \<in> set (transfers s)"
    and "(tr_fx_quote t = tr_fx_quote u \<and> tr_fx_quote t \<noteq> None) \<or>
      (tr_ledger t = tr_ledger u \<and> tr_ledger t \<noteq> None) \<or>
      (\<exists>a\<in>set (records s). \<exists>b\<in>set (records s). ir_transfer a = tr_id t \<and> ir_transfer b = tr_id u \<and>
         ir_client a = ir_client b \<and> ir_key a = ir_key b)"
  shows "t = u"
proof -
  have inv: "transfers_ok D s" using assms(1) by (rule transfer_run_ok)
  have ids: "distinct (map tr_id (transfers s))" and uniq: "unique_some tr_fx_quote (transfers s)"
      "unique_some tr_ledger (transfers s)"
    and keys: "distinct (map (\<lambda>r. (ir_client r, ir_key r)) (records s))"
    using inv by (simp_all add: transfers_ok_def)
  from assms(4) show ?thesis
  proof (elim disjE bexE conjE)
    fix a b
    assume "a \<in> set (records s)" "b \<in> set (records s)" "ir_client a = ir_client b" "ir_key a = ir_key b"
      and i: "ir_transfer a = tr_id t" "ir_transfer b = tr_id u"
    then have "a = b" using distinct_key [OF keys] by simp
    then show ?thesis using i row_unique [OF inv assms(2,3)] by simp
  qed (use unique_someD [OF _ assms(2,3) _ _ ids] uniq in auto)
qed

theorem quotes_postings_and_keys_not_shared_witness:
  "{u \<in> set (transfers demo_done). tr_ledger u = Some ''l1''} = {demo_done_row}"
proof -
  have row: "demo_done_row \<in> set (transfers demo_done)" "tr_ledger demo_done_row = Some ''l1''"
    by (simp_all add: demo_done_def demo_done_row_def)
  then have "demo_done_row = u" if "u \<in> set (transfers demo_done)" "tr_ledger u = Some ''l1''" for u
    using that by (intro quotes_postings_and_keys_not_shared [OF demo_tx_runs(2)]) simp_all
  then show ?thesis using row by blast
qed

end
