(* ===== verification/TransferOutcomes.thy ===== *)
theory TransferOutcomes
  imports TransferProperties
begin

text \<open>
  What a repeated request is answered, what the failures of the other services lead to, and how a
  transfer whose ledger answer was lost is completed.
\<close>

lemma demo_find: "find_row ''x1'' demo_open = Some demo_row" "find_row ''x1'' demo_done = Some demo_done_row"
  "find_by_key ''alice'' ''key'' demo_done = Some (demo_done_row, hd (records demo_done))"
  by (simp_all add: find_row_def find_by_key_def tx_rows)

lemma check_that_None [simp]: "check_that None s = (Inr (), s)"
  by (simp add: check_that_def)

section \<open>Repeated requests\<close>

text \<open>A key that was claimed once is found by every later claim, with its first hash.\<close>

lemma later_claim:
  assumes "transfer_run D (empty_transfers w) s" and "find_by_key client key s = Some (t, r)"
    and "transfer_run D s u"
  shows "\<exists>t' r'. claim v client key hash c u = (Inr (False, t', r'), u) \<and>
    claim_international v client key hash' c' u = (Inr (False, t', r'), u) \<and>
    later_transfer t t' \<and> later_record r r' \<and> record_matches D t' r' \<and> find_row (tr_id t') u = Some t'"
proof -
  have ok: "transfers_ok D s" using assms(1) by (rule transfer_run_ok)
  then have step: "transfers_ok D u" "transfers_later s u"
    using transfer_run_step [OF assms(3)] by (simp_all add: transfer_step_def)
  from claimed_later [OF find_by_key_claimed [OF assms(2) ok] step(2,1)] obtain t' r' where
      q: "claimed D client key u (t', r')" "later_transfer t t'" "later_record r r'" by auto
  moreover have "find_by_key client key u = Some (t', r')"
    using find_by_key_record [OF q(1) step(1)] .
  ultimately show ?thesis
    by (auto simp: claim_def claim_international_def claimed_def)
qed

text \<open>
  What a request is answered that repeats the key of a settled transfer: \<open>hash\<close> is that of its own payload.
\<close>

definition settled_answer ::
  "'w transfer_env \<Rightarrow> transfer \<Rightarrow> idem_record \<Rightarrow> string \<Rightarrow> 'w transfer_state \<Rightarrow>
     (failure + execution_result) \<times> 'w transfer_state" where
  "settled_answer v t r hash u =
     (if hash \<noteq> ir_hash r then (Inl payload_mismatch, u)
      else if tv_now v 1 < ir_replay_until r
      then (Inr \<lparr>ex_status = the (ir_status r), ex_body = transfer_response_of (tv_decimal v) t\<rparr>, tv_others v 4 u)
      else (Inl key_expired, tv_others v 4 u))"

text \<open>
  C11. The replay of a settled key. Once the transfer of an idempotency key is completed or failed, every later
  request of the same client with that key, for a domestic or an international transfer, is decided by the
  record: another payload is refused with \<open>IDEMPOTENCY_PAYLOAD_MISMATCH\<close>, the same payload is answered with the
  stored status and the settled transfer until the replay window of the record (24 hours) ends, and with
  \<open>IDEMPOTENCY_KEY_EXPIRED\<close> from then on. In every case no provider is called and the request writes nothing;
  \<open>tv_others v 4\<close> is what other requests do at its one await.
\<close>

theorem settled_key_replayed:
  assumes "transfer_run D (empty_transfers w) s" and "find_by_key client key s = Some (t, r)"
    and "tr_status t \<in> {Completed, Failed}" and "transfer_run D s u" and "tv_decimal v = D"
    and "idempotency_key_ok key"
  shows "ir_status r \<noteq> None \<and>
    (validate_command D c = None \<longrightarrow>
       create_domestic v client key c u = settled_answer v t r (domestic_hash v c) u) \<and>
    (validate_international D c' = None \<longrightarrow>
       create_international v client key c' u = settled_answer v t r (international_hash v c') u)"
proof -
  obtain t' r' where claim: "claim v client key (domestic_hash v c) c u = (Inr (False, t', r'), u)"
      "claim_international v client key (international_hash v c') c' u = (Inr (False, t', r'), u)"
    and later: "later_transfer t t'" "later_record r r'" and match: "record_matches D t' r'"
    using later_claim [OF assms(1,2,4)] by blast
  have t': "t' = t" using later(1) assms(3) by (auto simp: later_transfer_def)
  then have settled: "ir_state r' \<noteq> KeyProcessing" "ir_body r' = Some (transfer_response_of D t)"
    and ex: "\<exists>status. ir_status r' = Some status \<and> status \<noteq> 0"
    using match assms(3) by (auto simp: record_matches_def)
  have ok: "transfers_ok D s" using assms(1) by (rule transfer_run_ok)
  have "record_matches D t r"
    using find_by_key_claimed [OF assms(2) ok] by (simp add: claimed_def)
  then have "ir_state r \<noteq> KeyProcessing" using assms(3) by (auto simp: record_matches_def)
  then have r: "r' = r" using later(2) by (simp add: later_record_def)
  have "handle_existing v t r hash u = settled_answer v t r hash u" for hash
    using settled ex assms(5) r
    by (auto simp: handle_existing_def settled_answer_def bnd_def ensure_apply split: idempotency_state.splits)
  then show ?thesis
    using claim ex assms(5,6) r t'
    by (auto simp: create_domestic_def create_international_def Let_def bnd_def)
qed

theorem settled_key_replayed_witness:
  "create_domestic (demo_tx_env NoResponse NoResponse) ''alice'' ''key'' demo_command demo_done =
     (Inr \<lparr>ex_status = 201, ex_body = transfer_response_of exact_decimal demo_done_row\<rparr>, demo_done)"
proof -
  let ?r = "hd (records demo_done)" and ?v = "demo_tx_env NoResponse NoResponse"
  have "tr_status demo_done_row \<in> {Completed, Failed}" "tv_decimal ?v = exact_decimal" "idempotency_key_ok ''key''"
    and c: "validate_command exact_decimal demo_command = None"
    and "domestic_hash ?v demo_command = ir_hash ?r" "tv_now ?v 1 < ir_replay_until ?r" "ir_status ?r = Some 201"
      "tv_others ?v 4 demo_done = demo_done"
    by (simp_all add: tx_rows idempotency_key_ok_def validate_command_def domestic_hash_def)
  then show ?thesis
    using settled_key_replayed [OF demo_tx_runs(2) demo_find(3) _ tx_idle, of ?v demo_command]
    by (simp add: settled_answer_def)
qed

text \<open>
  A key is bound to its first payload and expires: a later request with the key and another payload
  is refused with \<open>IDEMPOTENCY_PAYLOAD_MISMATCH\<close> and nothing happens, and one with the same payload
  after the 24 hours is refused with \<open>IDEMPOTENCY_KEY_EXPIRED\<close>; neither starts a second transfer.
\<close>

theorem reused_key_refused:
  assumes "transfer_run D (empty_transfers w) s" and "find_by_key client key s = Some (t, r)"
    and "transfer_run D s u" and "tv_decimal v = D"
    and "idempotency_key_ok key" and "validate_command D c = None"
  shows "(domestic_hash v c \<noteq> ir_hash r \<longrightarrow>
      create_domestic v client key c u = (Inl payload_mismatch, u)) \<and>
    (domestic_hash v c = ir_hash r \<and> ir_replay_until r \<le> tv_now v 1 \<longrightarrow>
      create_domestic v client key c u = (Inl key_expired, tv_others v 4 u))"
proof -
  obtain t' r' where claim: "claim v client key (domestic_hash v c) c u = (Inr (False, t', r'), u)"
    and later: "later_record r r'"
    using later_claim [OF assms(1,2,3)] by blast
  have "ir_hash r' = ir_hash r" "ir_replay_until r' = ir_replay_until r"
    using later by (auto simp: later_record_def record_key_def)
  then show ?thesis
    using claim assms(4-6)
    by (auto simp: create_domestic_def Let_def handle_existing_def bnd_def ensure_apply)
qed

theorem reused_key_refused_witness:
  "create_domestic ((demo_tx_env NoResponse NoResponse)\<lparr>tv_digest := (\<lambda>_. ''other'')\<rparr>) ''alice'' ''key''
     demo_command demo_done = (Inl payload_mismatch, demo_done)"
proof -
  let ?v = "(demo_tx_env NoResponse NoResponse)\<lparr>tv_digest := (\<lambda>_. ''other'')\<rparr>"
  have "tv_decimal ?v = exact_decimal"
    "idempotency_key_ok ''key''" "validate_command exact_decimal demo_command = None"
    "domestic_hash ?v demo_command \<noteq> ir_hash (hd (records demo_done))"
    by (simp_all add: tx_rows idempotency_key_ok_def validate_command_def domestic_hash_def)
  with reused_key_refused [OF demo_tx_runs(2) demo_find(3) tx_idle, of ?v demo_command]
  show ?thesis by simp
qed

section \<open>Failures of the providers\<close>

text \<open>A call only changes the outside world, which no table depends on.\<close>

lemma world_only:
  "transfers_ok D (s\<lparr>outside := w\<rparr>) = transfers_ok D s" "find_row i (s\<lparr>outside := w\<rparr>) = find_row i s"
  by (simp_all add: transfers_ok_def row_ok_def records_of_def history_of_def find_row_def)

lemma upstream_world: "\<exists>w. snd (upstream service upper url token send s) = s\<lparr>outside := w\<rparr>"
proof -
  have "\<exists>w. s = s\<lparr>outside := w\<rparr>" by (rule exI [of _ "outside s"]) simp
  then show ?thesis by (auto simp: upstream_def Let_def split: prod.split)
qed

lemma validated_wallets_world: "\<exists>w. snd (validated_wallets v t s) = s\<lparr>outside := w\<rparr>"
proof -
  obtain r1 s1 where a: "account_validation v (tr_sender t) s = (r1, s1)" by fastforce
  obtain r2 s2 where b: "account_validation v (tr_recipient t) s1 = (r2, s2)" by fastforce
  obtain w1 w2 where "s1 = s\<lparr>outside := w1\<rparr>" "s2 = s1\<lparr>outside := w2\<rparr>"
    using upstream_world [of _ _ _ _ _ s] upstream_world [of _ _ _ _ _ s1] a b
    unfolding account_validation_def by (metis snd_conv)
  then have "\<exists>w. s2 = s\<lparr>outside := w\<rparr>" by auto
  moreover have "snd (check_that p s2) = s2" for p
    by (simp add: check_that_def split: option.split)
  ultimately show ?thesis
    by (simp add: validated_wallets_def a b split: sum.split)
qed

lemma fail_answers:
  assumes inv: "transfers_ok D s" and t: "find_row i s = Some t" "tr_status t \<in> {Pending, Processing}"
    and fits: "char_count code \<le> 80" "char_count msg \<le> 300" "100 \<le> status" "status \<le> 599"
    and v: "tv_decimal v = D" "tv_others v 15 s = s"
  shows "\<exists>x s'. fail v i status code msg s =
      (Inr \<lparr>ex_status = status, ex_body = transfer_response_of D x\<rparr>, s') \<and>
    find_row i s' = Some x \<and> tr_status x = Failed \<and> tr_failure_code x = Some code \<and>
    tr_failure_message x = Some msg \<and> outside s' = outside s"
proof -
  obtain x s' where c: "fail_transaction v i status code msg s = (Inr (x, True), s')"
    using fail_succeeds [OF inv t fits v(1)] by blast
  have "outside s' = outside s"
    using c by (auto simp: fail_transaction_def bnd_result_Inr update_transfers_def update_history_def
        update_records_def row_or_throw_Inr Let_def split: if_splits)
  then show ?thesis
    using fail_effect [OF c inv v(1)] c v
    by (auto simp: fail_def bnd_def transaction_def)
qed

text \<open>
  What a failed posting means: when the Ledger cannot be reached, or answers 401, 403 or a 5xx, the
  outcome is unknown, the caller gets 202 and the transfer stays as it is, for reconciliation; any
  other refusal fails the transfer with the Ledger's code and message, with status 422 for
  \<open>INSUFFICIENT_FUNDS\<close> and the Ledger's status otherwise.
\<close>

theorem ledger_failures_classified:
  assumes "transfer_run D (empty_transfers w) s" and "find_row i s = Some t" and "tr_status t = Processing"
    and "tv_decimal v = D" and "tv_others v 15 s = s"
  shows "handle_ledger_failure v t (UpstreamUnavailableError service) s = (Inr (processing_result D t), s) \<and>
    (status \<in> {401, 403} \<or> 500 \<le> status \<longrightarrow>
      handle_ledger_failure v t (UpstreamHttpError service status code msg body) s = (Inr (processing_result D t), s)) \<and>
    (400 \<le> status \<and> status < 500 \<and> status \<notin> {401, 403} \<and> char_count code \<le> 80 \<and> char_count msg \<le> 300 \<longrightarrow>
      (\<exists>x s'. handle_ledger_failure v t (UpstreamHttpError service status code msg body) s =
          (Inr \<lparr>ex_status = (if code = ''INSUFFICIENT_FUNDS'' then 422 else status),
                ex_body = transfer_response_of D x\<rparr>, s') \<and>
        find_row i s' = Some x \<and> tr_status x = Failed \<and> tr_failure_code x = Some code \<and>
        tr_failure_message x = Some msg))"
proof (intro conjI impI)
  have inv: "transfers_ok D s" using assms(1) by (rule transfer_run_ok)
  have i: "tr_id t = i" using find_row_Some [OF assms(2)] by simp
  show "handle_ledger_failure v t (UpstreamUnavailableError service) s = (Inr (processing_result D t), s)"
    using assms(4) by (simp add: handle_ledger_failure_def)
  show "handle_ledger_failure v t (UpstreamHttpError service status code msg body) s = (Inr (processing_result D t), s)"
    if "status \<in> {401, 403} \<or> 500 \<le> status"
    using that assms(4) by (auto simp: handle_ledger_failure_def)
  assume "400 \<le> status \<and> status < 500 \<and> status \<notin> {401, 403} \<and> char_count code \<le> 80 \<and> char_count msg \<le> 300"
  then have st: "400 \<le> status" "status < 500" "status \<notin> {401, 403}"
    and fits: "char_count code \<le> 80" "char_count msg \<le> 300" by simp_all
  let ?status = "if code = ''INSUFFICIENT_FUNDS'' then 422 else status"
  have "100 \<le> ?status" "?status \<le> 599" using st by simp_all
  from fail_answers [OF inv assms(2) _ fits this assms(4,5)] assms(3)
  show "\<exists>x s'. handle_ledger_failure v t (UpstreamHttpError service status code msg body) s =
          (Inr \<lparr>ex_status = ?status, ex_body = transfer_response_of D x\<rparr>, s') \<and>
        find_row i s' = Some x \<and> tr_status x = Failed \<and> tr_failure_code x = Some code \<and>
        tr_failure_message x = Some msg"
    using st i by (auto simp: handle_ledger_failure_def)
qed

theorem ledger_failures_classified_witness:
  "handle_ledger_failure (demo_tx_env NoResponse NoResponse) demo_row
     (UpstreamHttpError ''ledger'' 503 ''X'' ''down'' JNull) demo_open =
     (Inr (processing_result exact_decimal demo_row), demo_open)"
  using ledger_failures_classified [OF demo_tx_runs(1) demo_find(1), where
      v = "demo_tx_env NoResponse NoResponse" and status = 503 and service = "''ledger''" and code = "''X''" and msg = "''down''" and body = JNull]
  by (simp add: demo_row_def demo_tx_env_def)

text \<open>
  No money moves when the wallets are not both valid: a transfer whose wallets cannot be validated
  (an outage, an unknown wallet, a sender owned by someone else, a wallet not active, a wrong currency)
  fails with a status of its own, and the Ledger is never asked: what the outside world sees of the
  whole processing are the two validations.
\<close>

theorem invalid_wallets_never_post:
  assumes "transfer_run D (empty_transfers w) s" and "find_row i s = Some t" and "tr_status t = Processing"
    and "tv_decimal v = D" and "\<forall>k u. tv_others v k u = u"
    and "validated_wallets v t s = (Inl e, s')"
    and "e \<in> {UpstreamUnavailableError service, sender_access_denied, wallet_unavailable, currency_mismatch}"
  shows "\<exists>x u. process v i s = (Inr x, u) \<and> outside u = outside s' \<and> rs_status (ex_body x) = Failed \<and>
    ex_status x = (case e of HttpException status _ _ \<Rightarrow> status | _ \<Rightarrow> 503) \<and>
    (\<exists>q. find_row i u = Some q \<and> tr_status q = Failed)"
proof -
  have inv: "transfers_ok D s" using assms(1) by (rule transfer_run_ok)
  have i: "tr_id t = i" using find_row_Some [OF assms(2)] by simp
  obtain w' where s': "s' = s\<lparr>outside := w'\<rparr>"
    using validated_wallets_world [of v t s] assms(6) by auto
  have ok: "transfers_ok D s'" "find_row i s' = Some t"
    using inv assms(2) by (simp_all add: s' world_only)
  have start: "process v i s = handle_account_failure v i e s'"
    using assms(2,3,5,6) i by (simp add: process_def find_transfer_def bnd_def attempt_def)
  have answers: "\<exists>x u. fail v i status code msg s' = (Inr x, u) \<and> outside u = outside s' \<and>
      rs_status (ex_body x) = Failed \<and> ex_status x = status \<and>
      (\<exists>q. find_row i u = Some q \<and> tr_status q = Failed)"
    if "char_count code \<le> 80" "char_count msg \<le> 300" "100 \<le> status" "status \<le> 599" for status code msg
    using fail_answers [OF ok _ that assms(4)] assms(3,5)
    by (auto simp: transfer_response_of_def)
  from assms(7) consider "e = UpstreamUnavailableError service" | "e = sender_access_denied"
    | "e = wallet_unavailable" | "e = currency_mismatch" by blast
  then show ?thesis
    unfolding start
    by cases (use answers in \<open>simp_all add: handle_account_failure_def describe_http_def char_count_def
      sender_access_denied_def wallet_unavailable_def currency_mismatch_def\<close>)
qed

theorem invalid_wallets_never_post_witness:
  "\<exists>x u. process ((demo_tx_env posted_ok NoResponse)\<lparr>tv_account_url := None\<rparr>) ''x1'' demo_open = (Inr x, u) \<and>
     rs_status (ex_body x) = Failed \<and> ex_status x = 503"
proof -
  let ?v = "(demo_tx_env posted_ok NoResponse)\<lparr>tv_account_url := None\<rparr>"
  have checked: "validated_wallets ?v demo_row demo_open = (Inl (UpstreamUnavailableError ''account''), demo_open)"
    by (simp add: validated_wallets_def account_validation_def upstream_def)
  have v: "tr_status demo_row = Processing" "tv_decimal ?v = exact_decimal" "\<forall>k u. tv_others ?v k u = u"
    by (simp_all add: tx_rows)
  from invalid_wallets_never_post [OF demo_tx_runs(1) demo_find(1) v checked, of "''account''"]
  show ?thesis by auto
qed

section \<open>Recovery\<close>

lemma by_reference_world: "\<exists>w. snd (ledger_by_reference v i s) = s\<lparr>outside := w\<rparr>"
proof -
  let ?m = "upstream ''ledger'' ''LEDGER'' (tv_ledger_url v) (tv_token v) (tv_by_reference v i)"
  obtain r u where m: "?m s = (r, u)" by fastforce
  moreover have "snd (ledger_by_reference v i s) = u"
  proof (cases r)
    case (Inl e)
    then show ?thesis using m
      by (cases e) (simp_all add: ledger_by_reference_def catch_def bnd_def)
  next
    case (Inr p)
    then show ?thesis using m by (simp add: ledger_by_reference_def catch_def bnd_def)
  qed
  ultimately show ?thesis using upstream_world [of _ _ _ _ _ s] by (metis snd_conv)
qed

text \<open>Completing a transfer calls nobody.\<close>

interpretation outworld: two_state "\<lambda>s t. outside s = (outside t :: 'w)"
  by unfold_locales auto

lemma complete_transaction_outside: "steps (\<lambda>s t. outside s = outside t) (complete_transaction v i ledger)"
proof -
  have "steps (\<lambda>s t. outside s = outside t) (update_transfers P f)"
    "steps (\<lambda>s t. outside s = outside t) (update_records Q g)"
    "steps (\<lambda>s t. outside s = outside t) (update_history H h)" for P f Q g H h
    by (auto simp: steps_def update_transfers_def update_records_def update_history_def Let_def)
  moreover have "steps (\<lambda>s t. outside s = outside t) (row_or_throw i)"
    by (auto simp: steps_def row_or_throw_def split: option.split)
  ultimately show ?thesis
    unfolding complete_transaction_def
    by (intro outworld.steps_bnd outworld.steps_if outworld.steps_ensure outworld.steps_ret)
qed

lemma complete_answers:
  assumes inv: "transfers_ok D s" and t: "find_row i s = Some t" "tr_status t = Processing"
    and fresh: "\<forall>q\<in>set (transfers s). tr_ledger q \<noteq> Some ledger"
    and v: "tv_decimal v = D" "tv_others v 15 s = s"
  shows "\<exists>q s'. complete v i ledger s = (Inr \<lparr>ex_status = 201, ex_body = transfer_response_of D q\<rparr>, s') \<and>
    find_row i s' = Some q \<and> tr_status q = Completed \<and> tr_ledger q = Some ledger \<and>
    (\<forall>h\<in>set (history_of i s'). hr_status h = Completed) \<and> outside s' = outside s"
proof -
  obtain x s' where c: "complete_transaction v i ledger s = (Inr x, s')" "tr_status x = Completed"
    using complete_succeeds [OF inv t fresh v(1)] by blast
  have eff: "find_row i s' = Some x" "transfers_ok D s'" "tr_ledger x = Some ledger"
    using complete_effect [OF c(1) inv v(1)] c(2) t by auto
  have "\<forall>h\<in>set (history_of i s'). hr_status h = Completed"
  proof
    fix h assume "h \<in> set (history_of i s')"
    then have "anonymous h \<in> set (expected_rows x)"
      using row_history [OF eff(2)] find_row_Some [OF eff(1)] by (metis imageI list.set_map)
    then have "hr_status (anonymous h) = Completed"
      using c(2) by (auto simp: expected_rows_def split: if_splits)
    then show "hr_status h = Completed" by (simp add: anonymous_def)
  qed
  then show ?thesis
    using c eff v stepsD_eq [OF complete_transaction_outside c(1)] by (auto simp: complete_def bnd_def transaction_def)
qed

text \<open>
  C12. A lost answer is recovered. When the call of the Ledger for a transfer ends without an answer, the caller
  gets 202 and the transfer stays \<open>PROCESSING\<close>. In every later state in which it still is, a reconciliation
  whose look-up by the transfer's identifier finds a posting, that no other transfer has, completes the
  transfer with it, marks its history rows and answers 201. It does not post again: the look-up is its only
  call, so the world outside is as the look-up left it, and what a posting would do is without effect on it.
  (Nothing is written by others at the awaits of the two requests; between the two any requests run.)
\<close>

theorem lost_answer_recovered:
  assumes "transfer_run D (empty_transfers w) s" and "find_row i s = Some t" and "tr_status t = Processing"
    and "tv_decimal v = D" and "\<forall>k u. tv_others v k u = u"
    and "validated_wallets v t s = (Inr (), s1)" and "post_transfer v t s1 = (Inl (UpstreamUnavailableError service), s2)"
    and "transfer_run D s2 u" and "find_row i u = Some t'" and "tr_status t' = Processing"
    and "tv_decimal v' = D" and "\<forall>k u. tv_others v' k u = u"
    and "ledger_by_reference v' i u = (Inr (Some p), u1)"
    and "\<forall>q\<in>set (transfers u). tr_ledger q \<noteq> Some (pr_id p)"
  shows "process v i s = (Inr (processing_result D t), s2) \<and> find_row i s2 = Some t \<and>
    (\<exists>q u'. reconcile v' i force u = (Inr \<lparr>ex_status = 201, ex_body = transfer_response_of D q\<rparr>, u') \<and>
      find_row i u' = Some q \<and> tr_status q = Completed \<and> tr_ledger q = Some (pr_id p) \<and>
      outside u' = outside u1 \<and> (\<forall>post. reconcile (v'\<lparr>tv_post := post\<rparr>) i force u = reconcile v' i force u) \<and>
      (\<forall>h\<in>set (history_of i u'). hr_status h = Completed))"
proof (intro conjI)
  have inv: "transfers_ok D s" using assms(1) by (rule transfer_run_ok)
  have i: "tr_id t = i" "tr_id t' = i" using find_row_Some [OF assms(2)] find_row_Some [OF assms(9)] by auto
  obtain w1 where s1: "s1 = s\<lparr>outside := w1\<rparr>" using validated_wallets_world [of v t s] assms(6) by auto
  have "\<exists>w2. s2 = s1\<lparr>outside := w2\<rparr>"
  proof (cases "posting_command v t")
    case None
    then show ?thesis using assms(7) by (simp add: post_transfer_def missing_terms_def)
  next
    case (Some c)
    then show ?thesis
      using assms(7) upstream_world [of "''ledger''" "''LEDGER''" "tv_ledger_url v" "tv_token v" "tv_post v c" s1]
      by (simp add: post_transfer_def ledger_post_def)
  qed
  then obtain w2 where s2: "s2 = s\<lparr>outside := w2\<rparr>" using s1 by auto
  show "find_row i s2 = Some t" using assms(2) by (simp add: s2 world_only)
  show "process v i s = (Inr (processing_result D t), s2)"
    using assms(2-7) i by (simp add: process_def find_transfer_def bnd_def attempt_def handle_ledger_failure_def)
  have "transfers_ok D s2" using inv by (simp add: s2 world_only)
  then have "transfers_ok D u" using transfer_run_step [OF assms(8)] by (simp add: transfer_step_def)
  moreover have "\<exists>w. u1 = u\<lparr>outside := w\<rparr>"
    using by_reference_world [of v' i u] assms(13) by simp
  then obtain w3 where u1: "u1 = u\<lparr>outside := w3\<rparr>" by blast
  ultimately obtain q u' where "complete v' i (pr_id p) u1 = (Inr \<lparr>ex_status = 201, ex_body = transfer_response_of D q\<rparr>, u')"
    "find_row i u' = Some q" "tr_status q = Completed" "tr_ledger q = Some (pr_id p)"
    "\<forall>h\<in>set (history_of i u'). hr_status h = Completed" "outside u' = outside u1"
    using complete_answers [of D u1 i t' "pr_id p" v'] assms(9-12,14) by (auto simp: world_only)
  moreover have only: "reconcile (v'\<lparr>tv_post := post\<rparr>) i force u = complete v' i (pr_id p) u1" for post
  proof -
    have "ledger_by_reference (v'\<lparr>tv_post := post\<rparr>) i u = (Inr (Some p), u1)"
      using assms(13) by (simp add: ledger_by_reference_def)
    moreover have "complete (v'\<lparr>tv_post := post\<rparr>) = complete v'"
    proof (intro ext)
      have same: "tv_decimal (v'\<lparr>tv_post := post\<rparr>) = tv_decimal v'" "tv_now (v'\<lparr>tv_post := post\<rparr>) = tv_now v'"
        "tv_others (v'\<lparr>tv_post := post\<rparr>) = tv_others v'" by simp_all
      show "complete (v'\<lparr>tv_post := post\<rparr>) j l u = complete v' j l u" for j l u
        unfolding complete_def complete_transaction_def same ..
    qed
    ultimately show ?thesis
      using assms(9,10,12) i by (simp add: reconcile_def find_transfer_def bnd_def attempt_def)
  qed
  moreover have "reconcile v' i force u = complete v' i (pr_id p) u1"
    using only [of "tv_post v'"] by simp
  ultimately show "\<exists>q u'. reconcile v' i force u = (Inr \<lparr>ex_status = 201, ex_body = transfer_response_of D q\<rparr>, u') \<and>
      find_row i u' = Some q \<and> tr_status q = Completed \<and> tr_ledger q = Some (pr_id p) \<and>
      outside u' = outside u1 \<and> (\<forall>post. reconcile (v'\<lparr>tv_post := post\<rparr>) i force u = reconcile v' i force u) \<and>
      (\<forall>h\<in>set (history_of i u'). hr_status h = Completed)" by auto
qed

theorem lost_answer_recovered_witness:
  "process (demo_tx_env NoResponse NoResponse) ''x1'' demo_open = (Inr (processing_result exact_decimal demo_row), demo_open) \<and>
   (\<exists>q u'. reconcile (demo_tx_env NoResponse posted_ok) ''x1'' False demo_open =
      (Inr \<lparr>ex_status = 201, ex_body = transfer_response_of exact_decimal q\<rparr>, u') \<and> tr_status q = Completed)"
proof -
  let ?v = "demo_tx_env NoResponse NoResponse" and ?v' = "demo_tx_env NoResponse posted_ok"
  have p: "post_transfer ?v demo_row demo_open = (Inl (UpstreamUnavailableError ''ledger''), demo_open)"
    by (simp add: demo_post_transfer internal_request_def)
  have v: "tr_status demo_row = Processing" "tv_decimal ?v = exact_decimal" "\<forall>k u. tv_others ?v k u = u"
    "tv_decimal ?v' = exact_decimal" "\<forall>k u. tv_others ?v' k u = u"
    "\<forall>q\<in>set (transfers demo_open). tr_ledger q \<noteq> Some (pr_id demo_posting)"
    by (simp_all add: tx_rows)
  have f: "ledger_by_reference ?v' ''x1'' demo_open = (Inr (Some demo_posting), demo_open)"
    by (simp add: ledger_by_reference_def catch_def bnd_def upstream_def demo_tx_env_def internal_request_def)
  from lost_answer_recovered [OF demo_tx_runs(1) demo_find(1) v(1-3) demo_validated p tx_idle demo_find(1)
      v(1,4,5) f v(6), of False]
  show ?thesis by blast
qed

section \<open>The posting of a transfer\<close>

text \<open>
  What is posted is the transfer: the command sent to the Ledger for a transfer in progress carries
  the transfer's identifier as its reference, debits the sender and credits the recipient, and its
  amounts read back as exactly the stored source and target amounts; a domestic transfer posts equal
  amounts in one currency, an international one its quote and locked rate, in the shape that the
  Ledger requires.
\<close>

theorem posting_is_the_transfer:
  assumes "transfer_run D (empty_transfers w) s" and "t \<in> set (transfers s)" and "tr_status t = Processing"
    and "tv_decimal v = D" and "decimal_lib_ok D" and "\<forall>x. dl_fixed D 12 x \<noteq> []"
    and "\<forall>q. tr_fx_quote t = Some q \<longrightarrow> q \<noteq> []"
  shows "\<exists>c. posting_command v t = Some c \<and> cp_reference c = tr_id t \<and> validate_fx_shape c \<and>
    dl_of D (cp_source_amount c) = tr_source_amount t \<and> Some (dl_of D (cp_target_amount c)) = tr_target_amount t \<and>
    map (\<lambda>e. (pe_wallet e, pe_direction e, Some (dl_of D (pe_amount e)), pe_currency e)) (cp_entries c) =
      [(tr_sender t, DEBIT, Some (tr_source_amount t), tr_source_currency t),
       (tr_recipient t, CREDIT, tr_target_amount t, tr_target_currency t)] \<and>
    (tr_type t = Domestic \<longrightarrow>
       cp_source_amount c = cp_target_amount c \<and> cp_source_currency c = cp_target_currency c) \<and>
    (tr_type t = International \<longrightarrow>
       cp_fx_quote c = tr_fx_quote t \<and> cp_locked_rate c = map_option (dl_fixed D 12) (tr_locked_rate t))"
proof -
  have "row_ok D s t" using transfer_run_ok [OF assms(1)] assms(2) by (simp add: transfers_ok_def)
  then have check: "transfer_check t" and places: "has_places 8 (tr_source_amount t)" "target_ok t"
    by (simp_all add: row_ok_def)
  have type: "transfer_type_check t" and pos: "0 < tr_source_amount t" "positive_rate (tr_target_amount t)"
    using check by (simp_all add: transfer_check_def)
  obtain a where a: "tr_target_amount t = Some a"
    using type places(2) assms(3)
    by (cases "tr_type t") (auto simp: transfer_type_check_def target_ok_def)
  have exact: "dl_of D (dl_fixed D 8 (tr_source_amount t)) = tr_source_amount t" "dl_of D (dl_fixed D 8 a) = a"
    using decimal_lib_okD(5) [OF assms(5)] places pos by (simp_all add: a target_ok_def positive_rate_def)
  show ?thesis
  proof (cases "tr_type t")
    case Domestic
    then show ?thesis
      using a exact type assms(4)
      by (simp add: posting_command_def Let_def transfer_type_check_def validate_fx_shape_def)
  next
    case International
    then obtain q r where q: "tr_fx_quote t = Some q" "tr_locked_rate t = Some r"
      using type assms(3) by (auto simp: transfer_type_check_def)
    then show ?thesis
      using International a exact type assms(4,6,7)
      by (simp add: posting_command_def Let_def transfer_type_check_def validate_fx_shape_def)
  qed
qed

theorem posting_is_the_transfer_witness:
  "\<exists>c. posting_command (demo_tx_env posted_ok NoResponse) demo_row = Some c \<and> cp_reference c = ''x1'' \<and>
    dl_of exact_decimal (cp_source_amount c) = 100"
proof -
  have "demo_row \<in> set (transfers demo_open)" "tr_status demo_row = Processing"
    "tv_decimal (demo_tx_env posted_ok NoResponse) = exact_decimal"
    by (simp_all add: tx_rows)
  moreover have "\<forall>x. dl_fixed exact_decimal 12 x \<noteq> []"
    by (simp add: fixed_text_def Let_def)
  ultimately show ?thesis
    using posting_is_the_transfer [OF demo_tx_runs(1) _ _ _ exact_decimal_ok, of demo_row "demo_tx_env posted_ok NoResponse"]
    by (auto simp: demo_row_def)
qed

section \<open>Access\<close>

lemma read_wallet_Inr:
  assumes "read_wallet v r s = (Inr wallet, u)"
  shows "account_validation v r (tv_others v 16 s) = (Inr wallet, u)"
proof -
  obtain a b where m: "account_validation v r (tv_others v 16 s) = (a, b)" by fastforce
  show ?thesis
  proof (cases a)
    case (Inl e)
    then show ?thesis using assms m
      by (cases e) (auto simp: read_wallet_def catch_def split: if_splits)
  next
    case (Inr x)
    then show ?thesis using assms m by (simp add: read_wallet_def catch_def)
  qed
qed

text \<open>
  A transfer is shown to its creator and to the owner of the recipient wallet only: anyone else is
  refused with \<open>TRANSFER_ACCESS_DENIED\<close>, and is told nothing while the wallet's owner cannot be
  established.
\<close>

theorem transfer_shown_to_its_parties:
  assumes "get_for_principal v client i s = (Inr x, s')"
  shows "\<exists>t. find_row i s = Some t \<and> x = transfer_response_of (tv_decimal v) t \<and>
    (tr_client t = client \<or>
     (\<exists>wallet u. account_validation v (tr_recipient t) (tv_others v 16 s) = (Inr wallet, u) \<and> wv_owner wallet = client))"
proof -
  obtain t where t: "find_row i s = Some t" "x = transfer_response_of (tv_decimal v) t"
    and access: "tr_client t = client \<or> (\<exists>w u. read_wallet v (tr_recipient t) s = (Inr w, u) \<and> wv_owner w = client)"
    using assms unfolding get_for_principal_def
    by (auto simp: bnd_result_Inr find_transfer_Inr ensure_apply split: if_splits)
  then show ?thesis using read_wallet_Inr by fastforce
qed

theorem transfer_shown_to_its_parties_witness:
  "\<exists>t. find_row ''x1'' demo_done = Some t \<and>
    get_for_principal (demo_tx_env posted_ok NoResponse) ''bob'' ''x1'' demo_done =
      (Inr (transfer_response_of exact_decimal t), demo_done)"
proof -
  let ?v = "demo_tx_env posted_ok NoResponse"
  have g: "get_for_principal ?v ''bob'' ''x1'' demo_done =
      (Inr (transfer_response_of exact_decimal demo_done_row), demo_done)"
    by (simp add: get_for_principal_def find_transfer_def demo_find(2) read_wallet_def bnd_def catch_def
        account_validation_def upstream_def)
      (simp add: tx_rows internal_request_def)
  from transfer_shown_to_its_parties [OF this] show ?thesis using g by (auto simp: demo_find(2))
qed

end
