(* ===== verification/Base64Text.thy ===== *)
theory Base64Text
  imports DecimalText
begin

text \<open>
  \<open>Buffer.toString('base64')\<close>, \<open>Buffer.toString('base64url')\<close> and \<open>Buffer.from(text, 'base64')\<close> of
  Node: bytes are the characters of a string (a text is its UTF-8 bytes). Decoding reads both
  alphabets, skips every other character and drops incomplete bits at the end.
\<close>

section \<open>Sextets\<close>

fun sextets :: "nat list \<Rightarrow> nat list" where
  "sextets [] = []"
| "sextets [a] = [a div 4, a mod 4 * 16]"
| "sextets [a, b] = [a div 4, a mod 4 * 16 + b div 16, b mod 16 * 4]"
| "sextets (a # b # c # rest) =
     a div 4 # (a mod 4 * 16 + b div 16) # (b mod 16 * 4 + c div 64) # c mod 64 # sextets rest"

fun octets :: "nat list \<Rightarrow> nat list" where
  "octets (p # q # r # s # rest) =
     (p * 4 + q div 16) # (q mod 16 * 16 + r div 4) # (r mod 4 * 64 + s) # octets rest"
| "octets [p, q, r] = [p * 4 + q div 16, q mod 16 * 16 + r div 4]"
| "octets [p, q] = [p * 4 + q div 16]"
| "octets _ = []"

lemma small_parts:
  fixes b :: nat
  assumes "b < 256"
  shows "b div 16 div 16 = 0" and "b div 16 mod 16 = b div 16" and "b div 64 div 4 = 0"
    and "b div 64 mod 4 = b div 64"
proof -
  have "b div 16 < 16" "b div 64 < 4" using assms by (simp_all add: less_mult_imp_div_less)
  then show "b div 16 div 16 = 0" "b div 16 mod 16 = b div 16" "b div 64 div 4 = 0" "b div 64 mod 4 = b div 64"
    by simp_all
qed

lemma octets_sextets: "\<forall>x\<in>set bs. x < 256 \<Longrightarrow> octets (sextets bs) = bs"
  by (induction bs rule: sextets.induct) (simp_all add: small_parts)

lemma sextets_less: "\<forall>x\<in>set bs. x < 256 \<Longrightarrow> x \<in> set (sextets bs) \<Longrightarrow> x < 64"
  by (induction bs rule: sextets.induct) auto

lemma length_sextets: "length (sextets bs) = (4 * length bs + 2) div 3"
  by (induction bs rule: sextets.induct) auto

section \<open>The alphabets\<close>

definition b64_char :: "char \<Rightarrow> char \<Rightarrow> nat \<Rightarrow> char" where
  "b64_char c62 c63 n =
     (if n < 26 then char_of (65 + n)
      else if n < 52 then char_of (71 + n)
      else if n < 62 then char_of (n - 4)
      else if n = 62 then c62 else c63)"

definition b64_value :: "char \<Rightarrow> nat option" where
  "b64_value c =
     (let k = of_char c in
      if 65 \<le> k \<and> k \<le> 90 then Some (k - 65)
      else if 97 \<le> k \<and> k \<le> 122 then Some (k - 71)
      else if 48 \<le> k \<and> k \<le> 57 then Some (k + 4)
      else if c = CHR ''+'' \<or> c = CHR ''-'' then Some 62
      else if c = CHR ''/'' \<or> c = CHR ''_'' then Some 63
      else None)"

definition base64url :: "string \<Rightarrow> string" where
  "base64url bytes = map (b64_char CHR ''-'' CHR ''_'') (sextets (map of_char bytes))"

text \<open>The standard alphabet, padded to a multiple of four characters.\<close>

definition base64 :: "string \<Rightarrow> string" where
  "base64 bytes =
     (let t = map (b64_char CHR ''+'' CHR ''/'') (sextets (map of_char bytes))
      in t @ replicate ((4 - length t mod 4) mod 4) CHR ''='')"

definition from_base64 :: "string \<Rightarrow> string" where
  "from_base64 t = map char_of (octets (List.map_filter b64_value t))"

lemma b64_value_char:
  assumes "n < 64" and "(c62, c63) \<in> {(CHR ''-'', CHR ''_''), (CHR ''+'', CHR ''/'')}"
  shows "b64_value (b64_char c62 c63 n) = Some n"
proof -
  consider "n < 26" | "26 \<le> n" "n < 52" | "52 \<le> n" "n < 62" | "n = 62" | "n = 63"
    using assms(1) by linarith
  then show ?thesis
    by cases (use assms(2) in \<open>auto simp: b64_char_def b64_value_def Let_def of_char_of\<close>)
qed

lemma map_filter_b64:
  assumes "\<forall>n\<in>set ns. n < 64" and "(c62, c63) \<in> {(CHR ''-'', CHR ''_''), (CHR ''+'', CHR ''/'')}"
  shows "List.map_filter b64_value (map (b64_char c62 c63) ns) = ns"
  using assms(1) by (induction ns) (simp_all add: List.map_filter_simps b64_value_char [OF _ assms(2)])

lemma bytes_less: "\<forall>x\<in>set (map of_char bytes). x < (256::nat)"
  by auto

lemma map_char_of_bytes [simp]: "map char_of (map (of_char :: char \<Rightarrow> nat) t) = t"
  by (simp add: comp_def)

theorem from_base64url: "from_base64 (base64url bytes) = bytes"
  using sextets_less [OF bytes_less] octets_sextets [OF bytes_less]
  by (auto simp: from_base64_def base64url_def map_filter_b64 simp del: map_map)

lemma map_filter_padding: "List.map_filter b64_value (t @ replicate k CHR ''='') = List.map_filter b64_value t"
  by (simp add: List.map_filter_def b64_value_def)

theorem from_base64_text: "from_base64 (base64 bytes) = bytes"
  using sextets_less [OF bytes_less] octets_sextets [OF bytes_less]
  by (auto simp: from_base64_def base64_def Let_def map_filter_padding map_filter_b64 simp del: map_map)

section \<open>Shape of the encoded text\<close>

definition is_b64url :: "char \<Rightarrow> bool" where
  "is_b64url c \<longleftrightarrow>
     (CHR ''A'' \<le> c \<and> c \<le> CHR ''Z'') \<or> (CHR ''a'' \<le> c \<and> c \<le> CHR ''z'') \<or> is_digit c \<or>
     c = CHR ''_'' \<or> c = CHR ''-''"

lemma base64url_chars: "c \<in> set (base64url bytes) \<Longrightarrow> is_b64url c"
proof -
  assume "c \<in> set (base64url bytes)"
  then obtain n where n: "n < 64" "c = b64_char CHR ''-'' CHR ''_'' n"
    using sextets_less [OF bytes_less] by (auto simp: base64url_def)
  consider "n < 26" | "26 \<le> n" "n < 52" | "52 \<le> n" "n < 62" | "n = 62" | "n = 63"
    using n(1) by linarith
  then show "is_b64url c"
    by cases (auto simp: n(2) b64_char_def is_b64url_def is_digit_def less_eq_char_def of_char_of)
qed

lemma length_base64url: "length (base64url bytes) = (4 * length bytes + 2) div 3"
  by (simp add: base64url_def length_sextets)

lemma base64url_inject: "base64url a = base64url b \<longleftrightarrow> a = b"
  by (metis from_base64url)

end
