(* ===== verification/IsoTime.thy ===== *)
theory IsoTime
  imports DecimalText
begin

text \<open>
  \<open>Date.prototype.toISOString\<close> and its inverse, on instants in milliseconds since the epoch: the days
  of the proleptic Gregorian calendar, the fields of a day, and the text
  \<open>YYYY-MM-DDTHH:mm:ss.sssZ\<close> (years outside 0 to 9999 have a sign and six digits).

  \<open>iso_parse\<close> reads that format only. \<open>new Date(text)\<close> reads others too, but the code accepts a text
  only when \<open>toISOString()\<close> gives it back, which no other format does.
\<close>

section \<open>The calendar\<close>

definition day_ms :: int where
  "day_ms = 86400000"

definition day_from_year :: "int \<Rightarrow> int" where
  "day_from_year y = 365 * (y - 1970) + (y - 1969) div 4 - (y - 1901) div 100 + (y - 1601) div 400"

definition year_of_day :: "int \<Rightarrow> int" where
  "year_of_day d =
     (let y = 1970 + (400 * d) div 146097
      in if d < day_from_year y then y - 1 else if day_from_year (y + 1) \<le> d then y + 1 else y)"

definition leap_year :: "int \<Rightarrow> bool" where
  "leap_year y \<longleftrightarrow> y mod 4 = 0 \<and> (y mod 100 \<noteq> 0 \<or> y mod 400 = 0)"

definition month_starts :: "int \<Rightarrow> nat list" where
  "month_starts y =
     (if leap_year y then [0, 31, 60, 91, 121, 152, 182, 213, 244, 274, 305, 335]
      else [0, 31, 59, 90, 120, 151, 181, 212, 243, 273, 304, 334])"

text \<open>The month, from 1, of a day of a year.\<close>

definition month_of :: "int \<Rightarrow> nat \<Rightarrow> nat" where
  "month_of y n = length (takeWhile (\<lambda>start. start \<le> n) (month_starts y))"

lemma div_bounds:
  fixes a k :: int
  assumes "0 < k"
  shows "k * (a div k) \<le> a" and "a < k * (a div k) + k"
proof -
  have "a = k * (a div k) + a mod k" by simp
  moreover have "0 \<le> a mod k" "a mod k < k" using assms by simp_all
  ultimately show "k * (a div k) \<le> a" "a < k * (a div k) + k" by linarith+
qed

text \<open>The parts of \<open>day_from_year\<close> as numbers of their own, with their bounds.\<close>

lemma day_from_year_parts:
  obtains a b c where "day_from_year y = 365 * (y - 1970) + a - b + c"
    and "4 * a \<le> y - 1969" "y - 1969 < 4 * a + 4" "100 * b \<le> y - 1901" "y - 1901 < 100 * b + 100"
    "400 * c \<le> y - 1601" "y - 1601 < 400 * c + 400"
proof (rule that [of "(y - 1969) div 4" "(y - 1901) div 100" "(y - 1601) div 400"])
  show "day_from_year y = 365 * (y - 1970) + (y - 1969) div 4 - (y - 1901) div 100 + (y - 1601) div 400"
    by (rule day_from_year_def)
qed (rule div_bounds; simp)+

lemma day_from_year_near:
  "146097 * (y - 1970) - 700 \<le> 400 * day_from_year y"
  "400 * day_from_year y \<le> 146097 * (y - 1970) + 700"
  by - (rule day_from_year_parts [of y]; simp add: algebra_simps)+

lemma year_of_day_bounds:
  "day_from_year (year_of_day d) \<le> d" "d < day_from_year (year_of_day d + 1)"
proof -
  define q where "q = (400 * d) div 146097"
  have q: "146097 * q \<le> 400 * d" "400 * d < 146097 * q + 146097"
    unfolding q_def by (rule div_bounds; simp)+
  note bounds = day_from_year_near
  show "day_from_year (year_of_day d) \<le> d"
    using bounds [of "1970 + q"] bounds [of "1970 + q - 1"] q
    unfolding year_of_day_def Let_def q_def [symmetric] by (auto split: if_splits)
  show "d < day_from_year (year_of_day d + 1)"
    using bounds [of "1970 + q"] bounds [of "1970 + q + 1"] bounds [of "1970 + q + 2"] q
    unfolding year_of_day_def Let_def q_def [symmetric] by (auto simp: algebra_simps split: if_splits)
qed

lemma year_length: "day_from_year (y + 1) - day_from_year y \<le> 368"
  using day_from_year_near(1) [of y] day_from_year_near(2) [of "y + 1"] by (simp add: algebra_simps)

section \<open>The text\<close>

definition year_text :: "int \<Rightarrow> string" where
  "year_text y =
     (if 0 \<le> y \<and> y \<le> 9999 then low_digits 4 (nat y)
      else (if y < 0 then ''-'' else ''+'') @ low_digits 6 (nat \<bar>y\<bar>))"

definition iso_text :: "instant \<Rightarrow> string" where
  "iso_text i =
     (let d = i div day_ms; t = nat (i mod day_ms); y = year_of_day d;
          n = nat (d - day_from_year y); m = month_of y n
      in year_text y @ ''-'' @ low_digits 2 m @ ''-'' @
         low_digits 2 (n - month_starts y ! (m - 1) + 1) @ ''T'' @
         low_digits 2 (t div 3600000) @ '':'' @ low_digits 2 (t div 60000 mod 60) @ '':'' @
         low_digits 2 (t div 1000 mod 60) @ ''.'' @ low_digits 3 (t mod 1000) @ ''Z'')"

definition number_at :: "nat \<Rightarrow> nat \<Rightarrow> string \<Rightarrow> nat" where
  "number_at i k t = text_nat (take k (drop i t))"

text \<open>What follows the year, at fixed places.\<close>

definition iso_rest :: "int \<Rightarrow> string \<Rightarrow> instant option" where
  "iso_rest y r =
     (let m = number_at 1 2 r; dom = number_at 4 2 r
      in if length r \<noteq> 20 \<or> m < 1 \<or> 12 < m \<or> dom < 1 then None
         else Some (day_ms * (day_from_year y + int (month_starts y ! (m - 1)) + int dom - 1) +
           int (number_at 7 2 r * 3600000 + number_at 10 2 r * 60000 +
                number_at 13 2 r * 1000 + number_at 16 3 r)))"

definition iso_parse :: "string \<Rightarrow> instant option" where
  "iso_parse t =
     (if t \<noteq> [] \<and> hd t = CHR ''-'' then iso_rest (- int (number_at 1 6 t)) (drop 7 t)
      else if t \<noteq> [] \<and> hd t = CHR ''+'' then iso_rest (int (number_at 1 6 t)) (drop 7 t)
      else iso_rest (int (number_at 0 4 t)) (drop 4 t))"

lemma number_at_field:
  "number_at 0 k (low_digits k n @ t) = n mod 10 ^ k"
  by (simp add: number_at_def text_nat_low_digits)

lemma number_at_skip: "length p \<le> i \<Longrightarrow> number_at i k (p @ t) = number_at (i - length p) k t"
  by (simp add: number_at_def)

lemma day_of_year:
  "day_from_year (year_of_day d) \<le> d" "nat (d - day_from_year (year_of_day d)) \<le> 367"
  using year_of_day_bounds [of d] year_length [of "year_of_day d"] by linarith+

lemma month_starts_split:
  assumes "n \<le> 367"
  shows "1 \<le> month_of y n \<and> month_of y n \<le> 12 \<and> month_starts y ! (month_of y n - 1) \<le> n \<and>
    n - month_starts y ! (month_of y n - 1) < 40"
  using assms by (cases "leap_year y") (auto simp: month_of_def month_starts_def)

section \<open>Round trip\<close>

text \<open>The instants a \<open>Date\<close> can hold.\<close>

definition valid_instant :: "instant \<Rightarrow> bool" where
  "valid_instant i \<longleftrightarrow> \<bar>i\<bar> \<le> 8640000000000000"

lemma valid_year:
  assumes "valid_instant i"
  shows "\<bar>year_of_day (i div day_ms)\<bar> < 1000000"
proof -
  define d where "d = i div day_ms"
  have "day_ms * d \<le> i" "i < day_ms * d + day_ms"
    unfolding d_def day_ms_def by (rule div_bounds; simp)+
  then have "\<bar>d\<bar> \<le> 100000001" using assms by (auto simp: valid_instant_def day_ms_def)
  then show ?thesis
    using year_of_day_bounds [of d] day_from_year_near(1) [of "year_of_day d"]
      day_from_year_near(2) [of "year_of_day d + 1"]
    unfolding d_def [symmetric] by (simp add: algebra_simps abs_if split: if_splits)
qed

lemma low_digits_chars: "c \<in> set (low_digits k n) \<Longrightarrow> \<exists>d<10. c = digit_char d"
  by (induction k arbitrary: n) (auto, metis mod_less_divisor zero_less_numeral)

lemma low_digits_no_sign: "0 < k \<Longrightarrow> hd (low_digits k n @ t) \<notin> {CHR ''+'', CHR ''-''}"
proof -
  assume "0 < k"
  then have "low_digits k n \<noteq> []" by (cases k) auto
  then have "hd (low_digits k n @ t) \<in> set (low_digits k n)" by simp
  then obtain d where d: "d < 10" "hd (low_digits k n @ t) = digit_char d"
    using low_digits_chars by blast
  have "(of_char (digit_char d) :: nat) \<noteq> of_char CHR ''+''" "(of_char (digit_char d) :: nat) \<noteq> of_char CHR ''-''"
    unfolding of_char_digit_char [OF d(1)] by simp_all
  then show ?thesis unfolding d(2) by (metis empty_iff insert_iff)
qed

lemma clock_parts:
  fixes t :: nat
  assumes "t < 86400000"
  shows "t div 3600000 mod 100 * 3600000 + t div 60000 mod 60 mod 100 * 60000 +
    t div 1000 mod 60 mod 100 * 1000 + t mod 1000 mod 1000 = t"
proof -
  have "t div 3600000 < 100" using assms by (simp add: less_mult_imp_div_less)
  moreover have "t div 60000 mod 60 < 100" "t div 1000 mod 60 < 100"
    by (simp_all add: order.strict_trans [OF mod_less_divisor])
  moreover have "t div 3600000 = t div 60000 div 60" "t div 60000 = t div 1000 div 60"
    by (simp_all flip: div_mult2_eq)
  moreover have "t = t div 1000 * 1000 + t mod 1000" "t div 1000 = t div 1000 div 60 * 60 + t div 1000 mod 60"
    "t div 1000 div 60 = t div 1000 div 60 div 60 * 60 + t div 1000 div 60 mod 60"
    by simp_all
  note parts = this
  ultimately show ?thesis
    using parts by (simp only: mod_less mod_mod_trivial)
qed

lemma iso_parse_year:
  assumes "\<bar>y\<bar> < 1000000"
  shows "iso_parse (year_text y @ r) = iso_rest y r"
proof -
  consider "0 \<le> y" "y \<le> 9999" | "y < 0" | "9999 < y" by linarith
  then show ?thesis
  proof cases
    case 1
    then have "hd (year_text y @ r) \<notin> {CHR ''+'', CHR ''-''}" "number_at 0 4 (year_text y @ r) = nat y"
      "drop 4 (year_text y @ r) = r"
      using low_digits_no_sign [of 4 "nat y" r] number_at_field [of 4 "nat y" r] by (simp_all add: year_text_def)
    then show ?thesis using 1 by (simp add: iso_parse_def del: drop_append)
  next
    case 2
    then have "year_text y @ r = CHR ''-'' # low_digits 6 (nat (- y)) @ r" by (simp add: year_text_def)
    moreover have "number_at 1 6 (CHR ''-'' # low_digits 6 (nat (- y)) @ r) = nat (- y)"
      using assms 2 by (simp add: number_at_def text_nat_low_digits nat_less_iff)
    ultimately show ?thesis using 2 by (simp add: iso_parse_def)
  next
    case 3
    then have "year_text y @ r = CHR ''+'' # low_digits 6 (nat y) @ r" by (simp add: year_text_def)
    moreover have "number_at 1 6 (CHR ''+'' # low_digits 6 (nat y) @ r) = nat y"
      using assms 3 by (simp add: number_at_def text_nat_low_digits nat_less_iff)
    ultimately show ?thesis using 3 by (simp add: iso_parse_def)
  qed
qed

theorem iso_parse_text:
  assumes "valid_instant i"
  shows "iso_parse (iso_text i) = Some i"
proof -
  define d t where "d = i div day_ms" and "t = nat (i mod day_ms)"
  define y where "y = year_of_day d"
  define n where "n = nat (d - day_from_year y)"
  define m where "m = month_of y n"
  define r where "r = ''-'' @ low_digits 2 m @ ''-'' @ low_digits 2 (n - month_starts y ! (m - 1) + 1) @ ''T'' @
    low_digits 2 (t div 3600000) @ '':'' @ low_digits 2 (t div 60000 mod 60) @ '':'' @
    low_digits 2 (t div 1000 mod 60) @ ''.'' @ low_digits 3 (t mod 1000) @ ''Z''"
  have r: "iso_text i = year_text y @ r"
    by (simp add: iso_text_def Let_def r_def d_def t_def y_def n_def m_def)
  have t: "t < 86400000" "int t = i mod day_ms" by (auto simp: t_def day_ms_def nat_less_iff)
  have n: "int n = d - day_from_year y" "n \<le> 367"
    using day_of_year [of d] by (simp_all add: n_def y_def)
  note month = month_starts_split [OF n(2), of y, folded m_def]
  have dom: "(n - month_starts y ! (m - 1) + 1) mod 100 = n - month_starts y ! (m - 1) + 1" "m mod 100 = m"
    using month by simp_all
  have fields: "length r = 20" "number_at 1 2 r = m" "number_at 4 2 r = n - month_starts y ! (m - 1) + 1"
    "number_at 7 2 r = t div 3600000 mod 100" "number_at 10 2 r = t div 60000 mod 60 mod 100"
    "number_at 13 2 r = t div 1000 mod 60 mod 100" "number_at 16 3 r = t mod 1000 mod 1000"
    using dom by (simp_all add: r_def number_at_def text_nat_low_digits)
  have year: "iso_parse (iso_text i) = iso_rest y r"
    unfolding r by (rule iso_parse_year) (use valid_year [OF assms] in \<open>simp add: y_def d_def\<close>)
  have "day_ms * d + int t = i" unfolding t(2) d_def by simp
  moreover have "day_from_year y + int (month_starts y ! (m - 1)) + int (n - month_starts y ! (m - 1) + 1) - 1 = d"
    using n(1) month by simp
  ultimately show ?thesis
    unfolding year iso_rest_def Let_def fields clock_parts [OF t(1)] using month by simp
qed

end
