(* ===== verification/JsonText.thy ===== *)
theory JsonText
  imports DecimalText
begin

text \<open>
  The part of \<open>JSON.stringify\<close> and \<open>JSON.parse\<close> that the services use on texts of their own: the
  quoted string, and a reader of the JSON grammar. A text is its UTF-8 bytes; a number is the rational
  it denotes (JavaScript rounds it to a double). An object keeps its members in the order of the text;
  \<open>member\<close> looks one up as JavaScript does, where a repeated key has its last value.

  The reader has fuel: every nested value and every further member or element uses one unit and at
  least one character, so that one unit more than the length of the text is enough.
\<close>

section \<open>Strings\<close>

definition hex_char :: "nat \<Rightarrow> char" where
  "hex_char n = (if n < 10 then digit_char n else char_of (87 + n))"

definition hex_value :: "char \<Rightarrow> nat option" where
  "hex_value c =
     (let k = of_char c in
      if 48 \<le> k \<and> k \<le> 57 then Some (k - 48)
      else if 97 \<le> k \<and> k \<le> 102 then Some (k - 87)
      else if 65 \<le> k \<and> k \<le> 70 then Some (k - 55)
      else None)"

definition escape_char :: "char \<Rightarrow> string" where
  "escape_char c =
     (let k = of_char c in
      if k = 34 \<or> k = 92 then [CHR 0x5C, c]
      else if k = 8 then [CHR 0x5C, CHR ''b'']
      else if k = 9 then [CHR 0x5C, CHR ''t'']
      else if k = 10 then [CHR 0x5C, CHR ''n'']
      else if k = 12 then [CHR 0x5C, CHR ''f'']
      else if k = 13 then [CHR 0x5C, CHR ''r'']
      else if k < 32 then [CHR 0x5C, CHR ''u'', CHR ''0'', CHR ''0'', hex_char (k div 16), hex_char (k mod 16)]
      else [c])"

definition json_quote :: "string \<Rightarrow> string" where
  "json_quote t = CHR 0x22 # concat (map escape_char t) @ [CHR 0x22]"

definition unescape :: "char \<Rightarrow> char option" where
  "unescape c =
     map_of [(CHR 0x22, CHR 0x22), (CHR 0x5C, CHR 0x5C), (CHR ''/'', CHR ''/''), (CHR ''b'', CHR 0x08),
       (CHR ''f'', CHR 0x0C), (CHR ''n'', CHR 0x0A), (CHR ''r'', CHR 0x0D), (CHR ''t'', CHR 0x09)] c"

definition hex4 :: "char \<Rightarrow> char \<Rightarrow> char \<Rightarrow> char \<Rightarrow> nat option" where
  "hex4 a b c d =
     (case (hex_value a, hex_value b, hex_value c, hex_value d) of
        (Some p, Some q, Some r, Some s) \<Rightarrow> Some (((p * 16 + q) * 16 + r) * 16 + s)
      | _ \<Rightarrow> None)"

text \<open>
  The items of a string up to its closing quote: bytes, and UTF-16 code units from escapes.
\<close>

fun string_items :: "string \<Rightarrow> ((char + nat) list \<times> string) option" where
  "string_items [] = None"
| "string_items (c # r) =
     (if c = CHR 0x22 then Some ([], r)
      else if c = CHR 0x5C then
        (case r of
           [] \<Rightarrow> None
         | e # r1 \<Rightarrow>
             if e = CHR ''u'' then
               (case r1 of
                  p # q # x # y # r2 \<Rightarrow>
                    (case hex4 p q x y of
                       None \<Rightarrow> None
                     | Some n \<Rightarrow> map_option (apfst (Cons (Inr n))) (string_items r2))
                | _ \<Rightarrow> None)
             else
               (case unescape e of
                  None \<Rightarrow> None
                | Some d \<Rightarrow> map_option (apfst (Cons (Inl d))) (string_items r1)))
      else if of_char c < (32 :: nat) then None
      else map_option (apfst (Cons (Inl c))) (string_items r))"

definition utf8 :: "nat \<Rightarrow> string" where
  "utf8 n =
     (if n < 0x80 then [char_of n]
      else if n < 0x800 then [char_of (0xC0 + n div 64), char_of (0x80 + n mod 64)]
      else if n < 0x10000
      then [char_of (0xE0 + n div 4096), char_of (0x80 + n div 64 mod 64), char_of (0x80 + n mod 64)]
      else [char_of (0xF0 + n div 262144), char_of (0x80 + n div 4096 mod 64),
            char_of (0x80 + n div 64 mod 64), char_of (0x80 + n mod 64)])"

fun join_items :: "(char + nat) list \<Rightarrow> string" where
  "join_items [] = []"
| "join_items (Inl c # rest) = c # join_items rest"
| "join_items (Inr n # rest) =
     (case rest of
        Inr m # rest' \<Rightarrow>
          if 0xD800 \<le> n \<and> n < 0xDC00 \<and> 0xDC00 \<le> m \<and> m < 0xE000
          then utf8 (0x10000 + (n - 0xD800) * 1024 + (m - 0xDC00)) @ join_items rest'
          else utf8 n @ join_items rest
      | _ \<Rightarrow> utf8 n @ join_items rest)"

definition json_string :: "string \<Rightarrow> (string \<times> string) option" where
  "json_string t = map_option (apfst join_items) (string_items t)"

section \<open>Numbers\<close>

text \<open>\<open>-?(0|[1-9]\d*)(\.\d+)?([eE][+-]?\d+)?\<close>; each part gives its value and the rest of the text.\<close>

definition digits_of :: "string \<Rightarrow> string \<times> string" where
  "digits_of t = (takeWhile is_digit t, dropWhile is_digit t)"

definition json_fraction :: "string \<Rightarrow> (rat \<times> string) option" where
  "json_fraction t =
     (if t \<noteq> [] \<and> hd t = CHR ''.'' then
        let (ds, r) = digits_of (tl t)
        in if ds = [] then None else Some (of_nat (text_nat ds) / 10 ^ length ds, r)
      else Some (0, t))"

definition json_exponent :: "string \<Rightarrow> (rat \<times> string) option" where
  "json_exponent t =
     (if t \<noteq> [] \<and> (hd t = CHR ''e'' \<or> hd t = CHR ''E'') then
        let signed = (tl t \<noteq> [] \<and> (hd (tl t) = CHR ''+'' \<or> hd (tl t) = CHR ''-''));
            (ds, r) = digits_of (if signed then tl (tl t) else tl t)
        in if ds = [] then None
           else Some (if signed \<and> hd (tl t) = CHR ''-'' then 1 / 10 ^ text_nat ds else 10 ^ text_nat ds, r)
      else Some (1, t))"

definition json_number :: "string \<Rightarrow> (rat \<times> string) option" where
  "json_number t =
     (let minus = (t \<noteq> [] \<and> hd t = CHR ''-'');
          (ds, r) = digits_of (if minus then tl t else t)
      in if ds = [] \<or> (hd ds = CHR ''0'' \<and> tl ds \<noteq> []) then None
         else case json_fraction r of
             None \<Rightarrow> None
           | Some (f, r1) \<Rightarrow>
               (case json_exponent r1 of
                  None \<Rightarrow> None
                | Some (e, r2) \<Rightarrow> Some ((if minus then -1 else 1) * (of_nat (text_nat ds) + f) * e, r2)))"

section \<open>Values\<close>

definition skip_space :: "string \<Rightarrow> string" where
  "skip_space t = dropWhile (\<lambda>c. c \<in> {CHR '' '', CHR 0x09, CHR 0x0A, CHR 0x0D}) t"

definition expect :: "char \<Rightarrow> string \<Rightarrow> string option" where
  "expect c t = (case skip_space t of [] \<Rightarrow> None | d # r \<Rightarrow> if d = c then Some r else None)"

definition literal_word :: "string \<Rightarrow> (json \<times> string) option" where
  "literal_word t =
     (if take 4 t = ''true'' then Some (JBool True, drop 4 t)
      else if take 5 t = ''false'' then Some (JBool False, drop 5 t)
      else if take 4 t = ''null'' then Some (JNull, drop 4 t)
      else None)"

fun json_value :: "nat \<Rightarrow> string \<Rightarrow> (json \<times> string) option"
  and json_members :: "nat \<Rightarrow> string \<Rightarrow> ((string \<times> json) list \<times> string) option"
  and json_elements :: "nat \<Rightarrow> string \<Rightarrow> (json list \<times> string) option"
where
  "json_value 0 t = None"
| "json_value (Suc n) t =
     (case skip_space t of
        [] \<Rightarrow> None
      | c # r \<Rightarrow>
          if c = CHR 0x22 then map_option (apfst JStr) (json_string r)
          else if c = CHR ''{'' then
            (case expect CHR ''}'' r of
               Some r1 \<Rightarrow> Some (JObj [], r1)
             | None \<Rightarrow> map_option (apfst JObj) (json_members n r))
          else if c = CHR ''['' then
            (case expect CHR '']'' r of
               Some r1 \<Rightarrow> Some (JArr [], r1)
             | None \<Rightarrow> map_option (apfst JArr) (json_elements n r))
          else if is_digit c \<or> c = CHR ''-'' then map_option (apfst JNum) (json_number (c # r))
          else literal_word (c # r))"
| "json_members 0 t = None"
| "json_members (Suc n) t =
     (case expect CHR 0x22 t of
        None \<Rightarrow> None
      | Some r \<Rightarrow>
          (case json_string r of
             None \<Rightarrow> None
           | Some (k, r1) \<Rightarrow>
               (case expect CHR '':'' r1 of
                  None \<Rightarrow> None
                | Some r2 \<Rightarrow>
                    (case json_value n r2 of
                       None \<Rightarrow> None
                     | Some (x, r3) \<Rightarrow>
                         (case expect CHR '','' r3 of
                            Some r4 \<Rightarrow> map_option (apfst (Cons (k, x))) (json_members n r4)
                          | None \<Rightarrow> map_option (Pair [(k, x)]) (expect CHR ''}'' r3))))))"
| "json_elements 0 t = None"
| "json_elements (Suc n) t =
     (case json_value n t of
        None \<Rightarrow> None
      | Some (x, r) \<Rightarrow>
          (case expect CHR '','' r of
             Some r1 \<Rightarrow> map_option (apfst (Cons x)) (json_elements n r1)
           | None \<Rightarrow> map_option (Pair [x]) (expect CHR '']'' r)))"

definition json_parse :: "string \<Rightarrow> json option" where
  "json_parse t =
     (case json_value (length t + 1) t of
        None \<Rightarrow> None
      | Some (x, r) \<Rightarrow> if skip_space r = [] then Some x else None)"

text \<open>Reading a property of a parsed value: only an object has any.\<close>

definition member :: "string \<Rightarrow> json \<Rightarrow> json option" where
  "member k x = (case x of JObj ms \<Rightarrow> map_of (rev ms) k | _ \<Rightarrow> None)"

section \<open>Round trip of strings\<close>

lemma hex_value_char: "n < 16 \<Longrightarrow> hex_value (hex_char n) = Some n"
  by (auto simp: hex_value_def hex_char_def digit_char_def Let_def of_char_of)

definition item_of :: "char \<Rightarrow> char + nat" where
  "item_of c =
     (let k = of_char c in if k < 32 \<and> k \<notin> {8, 9, 10, 12, 13} then Inr k else Inl c)"

lemma join_items_unit: "n < 0xD800 \<Longrightarrow> join_items (Inr n # rest) = utf8 n @ join_items rest"
  by (auto split: list.split sum.split)

lemma join_item: "join_items (item_of c # rest) = c # join_items rest"
  using join_items_unit [of "of_char c" rest]
  by (simp add: item_of_def Let_def utf8_def del: join_items.simps(3))

lemma join_item_of: "join_items (map item_of t) = t"
  by (induction t) (simp_all add: join_item)

lemma string_items_escape:
  "string_items (escape_char c @ r) = map_option (apfst (Cons (item_of c))) (string_items r)"
proof -
  define k where "k = (of_char c :: nat)"
  have code: "k = of_char d \<Longrightarrow> c = d" for d by (simp add: k_def)
  have codes: "k = 34 \<Longrightarrow> c = CHR 0x22" "k = 92 \<Longrightarrow> c = CHR 0x5C" "k = 8 \<Longrightarrow> c = CHR 0x08"
    "k = 9 \<Longrightarrow> c = CHR 0x09" "k = 10 \<Longrightarrow> c = CHR 0x0A" "k = 12 \<Longrightarrow> c = CHR 0x0C" "k = 13 \<Longrightarrow> c = CHR 0x0D"
    by (rule code; simp)+
  show ?thesis
  proof (cases "k \<in> {34, 92, 8, 9, 10, 12, 13}")
    case True
    then have "c \<in> {CHR 0x22, CHR 0x5C, CHR 0x08, CHR 0x09, CHR 0x0A, CHR 0x0C, CHR 0x0D}"
      using codes by (elim insertE) simp_all
    then show ?thesis
      by (elim insertE) (simp_all add: escape_char_def item_of_def unescape_def)
  next
    case False
    then have plain: "k \<noteq> 34" "k \<noteq> 92" "k \<notin> {8, 9, 10, 12, 13}" by simp_all
    show ?thesis
    proof (cases "k < 32")
      case True
      then have "k div 16 < 16" "k mod 16 < 16" by auto
      moreover have "hex_value CHR ''0'' = Some 0" by (simp add: hex_value_def)
      ultimately show ?thesis
        using True plain by (simp add: escape_char_def item_of_def k_def [symmetric] hex4_def hex_value_char)
    next
      case False
      have "c \<noteq> CHR 0x22" "c \<noteq> CHR 0x5C" using plain by (auto simp: k_def)
      then show ?thesis
        using False plain by (simp add: escape_char_def item_of_def k_def [symmetric])
    qed
  qed
qed

lemma string_items_quote:
  "string_items (concat (map escape_char t) @ CHR 0x22 # r) = Some (map item_of t, r)"
  by (induction t) (simp_all add: string_items_escape)

theorem json_string_quote: "json_string (concat (map escape_char t) @ CHR 0x22 # r) = Some (t, r)"
  by (simp add: json_string_def string_items_quote join_item_of)

end
