(* ===== verification/HistoryCursor.thy ===== *)
theory HistoryCursor
  imports Base64Text IsoTime JsonText FxQuotes
begin

text \<open>
  The pagination cursor of the history query
  (services/transaction-service/src/history/history-cursor.ts): a JSON text in base64url and its
  HMAC-SHA256. The HMAC is the parameter \<open>hx_hmac\<close>, a function of the key and the text to 32 bytes;
  base64, JSON and the ISO form of an instant are modelled. \<open>isUuid\<close> has the pattern of the request identifiers.
\<close>

section \<open>Encoding and decoding\<close>

record cursor_env =
  hx_key :: "string option"                    \<comment> \<open>\<open>HISTORY_CURSOR_HMAC_KEY\<close>\<close>
  hx_hmac :: "string \<Rightarrow> string \<Rightarrow> string"

type_synonym cursor_value = "instant \<times> uuid"

definition history_cursor_key :: "cursor_env \<Rightarrow> failure + string" where
  "history_cursor_key e =
     (case hx_key e of
        None \<Rightarrow> Inl (PlainError ''HISTORY_CURSOR_HMAC_KEY is required.'')
      | Some encoded \<Rightarrow>
          if encoded = [] then Inl (PlainError ''HISTORY_CURSOR_HMAC_KEY is required.'')
          else let key = from_base64 encoded
            in if length key \<noteq> 32 \<or> base64 key \<noteq> encoded
               then Inl (PlainError ''HISTORY_CURSOR_HMAC_KEY must be a canonical base64-encoded 32-byte key.'')
               else Inr key)"

definition sign_cursor :: "cursor_env \<Rightarrow> string \<Rightarrow> failure + string" where
  "sign_cursor e payload =
     (case history_cursor_key e of
        Inl x \<Rightarrow> Inl x
      | Inr key \<Rightarrow> Inr (base64url (hx_hmac e key payload)))"

definition cursor_text :: "uuid \<Rightarrow> string \<Rightarrow> uuid \<Rightarrow> string" where
  "cursor_text wallet time i =
     ''{'' @ json_quote ''v'' @ '':1,'' @ json_quote ''w'' @ '':'' @ json_quote wallet @ '','' @
     json_quote ''t'' @ '':'' @ json_quote time @ '','' @ json_quote ''id'' @ '':'' @ json_quote i @ ''}''"

definition encode_history_cursor :: "cursor_env \<Rightarrow> uuid \<Rightarrow> cursor_value \<Rightarrow> failure + string" where
  "encode_history_cursor e wallet value =
     (if \<not> valid_instant (fst value) then Inl (PlainError ''Invalid time value'')
      else let payload = base64url (cursor_text wallet (iso_text (fst value)) (snd value))
        in case sign_cursor e payload of
             Inl x \<Rightarrow> Inl x
           | Inr signature \<Rightarrow> Inr (payload @ ''.'' @ signature))"

text \<open>\<open>^[A-Za-z0-9_-]+\.[A-Za-z0-9_-]{43}$\<close>, and the two parts of such a text.\<close>

definition payload_part :: "string \<Rightarrow> string" where
  "payload_part t = takeWhile (\<lambda>c. c \<noteq> CHR ''.'') t"

definition signature_part :: "string \<Rightarrow> string" where
  "signature_part t = tl (dropWhile (\<lambda>c. c \<noteq> CHR ''.'') t)"

definition cursor_pattern :: "string \<Rightarrow> bool" where
  "cursor_pattern t \<longleftrightarrow>
     CHR ''.'' \<in> set t \<and> payload_part t \<noteq> [] \<and> list_all is_b64url (payload_part t) \<and>
     length (signature_part t) = 43 \<and> list_all is_b64url (signature_part t)"

definition invalid_cursor :: failure where
  "invalid_cursor = http_failure 400 ''INVALID_CURSOR'' ''The history cursor is invalid.''"

text \<open>The payload of a cursor, when its signature is good; whatever throws is the same failure.\<close>

definition signed_payload :: "cursor_env \<Rightarrow> string \<Rightarrow> string option" where
  "signed_payload e cursor =
     (let payload = payload_part cursor; signature = signature_part cursor in
      if length cursor > 1024 \<or> \<not> cursor_pattern cursor then None
      else case sign_cursor e payload of
          Inl _ \<Rightarrow> None
        | Inr wanted \<Rightarrow>
            let expected = from_base64 wanted; received = from_base64 signature in
            if base64url received \<noteq> signature \<or> length expected \<noteq> length received \<or> expected \<noteq> received
            then None
            else if base64url (from_base64 payload) \<noteq> payload then None
            else Some (from_base64 payload))"

definition payload_value :: "uuid \<Rightarrow> json \<Rightarrow> cursor_value option" where
  "payload_value wallet p =
     (case (member ''v'' p, member ''w'' p, member ''t'' p, member ''id'' p) of
        (Some (JNum v), Some (JStr w), Some (JStr t), Some (JStr i)) \<Rightarrow>
          if v \<noteq> 1 \<or> w \<noteq> wallet \<or> \<not> uuid_pattern w \<or> \<not> uuid_pattern i then None
          else (case iso_parse t of
              None \<Rightarrow> None
            | Some n \<Rightarrow> if \<not> valid_instant n \<or> iso_text n \<noteq> t then None else Some (n, i))
      | _ \<Rightarrow> None)"

definition decode_history_cursor :: "cursor_env \<Rightarrow> uuid \<Rightarrow> string \<Rightarrow> failure + cursor_value" where
  "decode_history_cursor e wallet cursor =
     (case signed_payload e cursor of
        None \<Rightarrow> Inl invalid_cursor
      | Some t \<Rightarrow>
          (case json_parse t of
             None \<Rightarrow> Inl invalid_cursor
           | Some p \<Rightarrow>
               (case payload_value wallet p of None \<Rightarrow> Inl invalid_cursor | Some value \<Rightarrow> Inr value)))"

section \<open>Reading back what was written\<close>

lemma expect_here [simp]:
  "c \<notin> {CHR '' '', CHR 0x09, CHR 0x0A, CHR 0x0D} \<Longrightarrow> expect d (c # r) = (if c = d then Some r else None)"
  by (simp add: expect_def skip_space_def)

lemma skip_here [simp]: "c \<notin> {CHR '' '', CHR 0x09, CHR 0x0A, CHR 0x0D} \<Longrightarrow> skip_space (c # r) = c # r"
  by (simp add: skip_space_def)

lemma skip_nothing [simp]: "skip_space [] = []"
  by (simp add: skip_space_def)

lemma json_value_quote: "json_value (Suc n) (json_quote t @ r) = Some (JStr t, r)"
  by (simp add: json_quote_def json_string_quote)

lemma json_value_object:
  "expect CHR ''}'' r = None \<Longrightarrow>
     json_value (Suc n) (CHR ''{'' # r) = map_option (apfst JObj) (json_members n r)"
  by simp

lemma json_members_quote:
  "json_members (Suc n) (json_quote k @ CHR '':'' # r) =
     (case json_value n r of
        None \<Rightarrow> None
      | Some (x, r3) \<Rightarrow>
          (case expect CHR '','' r3 of
             Some r4 \<Rightarrow> map_option (apfst (Cons (k, x))) (json_members n r4)
           | None \<Rightarrow> map_option (Pair [(k, x)]) (expect CHR ''}'' r3)))"
  by (simp add: json_quote_def json_string_quote)

lemma json_value_one: "json_value (Suc n) (CHR ''1'' # CHR '','' # r) = Some (JNum 1, CHR '','' # r)"
  by (simp add: json_number_def digits_of_def json_fraction_def json_exponent_def is_digit_def
      less_eq_char_def text_nat_def char_digit_def)

lemma cursor_text_parsed:
  "json_parse (cursor_text w t i) =
     Some (JObj [(''v'', JNum 1), (''w'', JStr w), (''t'', JStr t), (''id'', JStr i)])"
proof -
  obtain n where n: "length (cursor_text w t i) + 1 = Suc (Suc (Suc (Suc (Suc (Suc (Suc n))))))"
    by (rule that [of "length (cursor_text w t i) - 6"]) (simp add: cursor_text_def json_quote_def)
  have brace: "expect CHR ''}'' (json_quote k @ r) = None" for k r by (simp add: json_quote_def)
  show ?thesis
    unfolding json_parse_def n cursor_text_def
    by (simp add: brace json_value_object json_members_quote json_value_one json_value_quote del: json_value.simps(2) json_members.simps(2))
qed


section \<open>Round trip and authenticity\<close>

lemma uuid_length: "uuid_pattern t \<Longrightarrow> length t = 36"
  by (simp add: uuid_pattern_def)

lemma length_json_quote: "length (json_quote t) \<le> 6 * length t + 2"
proof -
  have "length (escape_char c) \<le> 6" for c by (simp add: escape_char_def Let_def)
  then have "length (concat (map escape_char t)) \<le> 6 * length t"
    by (induction t) (auto intro: add_mono)
  then show ?thesis by (simp add: json_quote_def)
qed

lemma length_iso_text: "length (iso_text i) \<le> 27"
  by (simp add: iso_text_def Let_def year_text_def)

lemma parts_of: "\<forall>c\<in>set p. c \<noteq> CHR ''.'' \<Longrightarrow> payload_part (p @ CHR ''.'' # r) = p \<and> signature_part (p @ CHR ''.'' # r) = r"
  by (simp add: payload_part_def signature_part_def takeWhile_append2 dropWhile_append2)

lemma b64url_not_dot: "is_b64url c \<Longrightarrow> c \<noteq> CHR ''.''"
  by (auto simp: is_b64url_def is_digit_def less_eq_char_def)

lemma cursor_length:
  assumes "length w = 36" and "length i = 36"
  shows "length (base64url (cursor_text w (iso_text t) i)) < 900"
proof -
  have "length (cursor_text w (iso_text t) i) \<le> 654"
    using length_json_quote [of w] length_json_quote [of i] length_json_quote [of "iso_text t"]
      length_json_quote [of "''v''"] length_json_quote [of "''w''"] length_json_quote [of "''t''"]
      length_json_quote [of "''id''"] length_iso_text [of t] assms
    by (simp add: cursor_text_def)
  then show ?thesis by (simp add: length_base64url)
qed

text \<open>A service whose key is set and whose HMAC has 32 bytes.\<close>

definition can_sign :: "cursor_env \<Rightarrow> string \<Rightarrow> bool" where
  "can_sign e key \<longleftrightarrow> history_cursor_key e = Inr key \<and> (\<forall>p. length (hx_hmac e key p) = 32)"

lemma encoded_cursor:
  assumes "can_sign e key" and "valid_instant t"
  shows "encode_history_cursor e w (t, i) =
    Inr (base64url (cursor_text w (iso_text t) i) @ CHR ''.'' #
         base64url (hx_hmac e key (base64url (cursor_text w (iso_text t) i))))"
  using assms by (simp add: encode_history_cursor_def sign_cursor_def can_sign_def Let_def)

lemma signed_payload_of:
  assumes "can_sign e key" and "length (base64url x) < 900" and "x \<noteq> []"
  shows "signed_payload e (base64url x @ CHR ''.'' # base64url (hx_hmac e key (base64url x))) = Some x"
proof -
  let ?s = "base64url (hx_hmac e key (base64url x))"
  have parts: "payload_part (base64url x @ CHR ''.'' # ?s) = base64url x"
    "signature_part (base64url x @ CHR ''.'' # ?s) = ?s"
    using parts_of [of "base64url x" ?s] base64url_chars b64url_not_dot by blast+
  have s: "length ?s = 43" using assms(1) by (simp add: length_base64url can_sign_def)
  have "base64url x \<noteq> []" using assms(3) length_base64url [of x] by (cases x) auto
  then have "cursor_pattern (base64url x @ CHR ''.'' # ?s)"
    using s by (simp add: cursor_pattern_def parts list_all_iff base64url_chars)
  then show ?thesis
    using assms s by (simp add: signed_payload_def parts Let_def sign_cursor_def can_sign_def from_base64url)
qed

lemma decode_encoded:
  assumes "can_sign e key" and "valid_instant t" and "uuid_pattern w" and "uuid_pattern i"
    and "encode_history_cursor e w (t, i) = Inr c"
  shows "decode_history_cursor e w' c = (if w' = w then Inr (t, i) else Inl invalid_cursor)"
proof -
  let ?x = "cursor_text w (iso_text t) i"
  have c: "c = base64url ?x @ CHR ''.'' # base64url (hx_hmac e key (base64url ?x))"
    using assms(5) unfolding encoded_cursor [OF assms(1,2)] by simp
  have "signed_payload e c = Some ?x"
    unfolding c
  proof (rule signed_payload_of [OF assms(1)])
    show "length (base64url ?x) < 900"
      using assms(3,4) by (intro cursor_length uuid_length)
  qed (simp add: cursor_text_def)
  then show ?thesis
    using assms(2-4)
    by (simp add: decode_history_cursor_def cursor_text_parsed payload_value_def member_def iso_parse_text)
qed

text \<open>What an accepted cursor is: a text of the service's own signing, for this wallet.\<close>

lemma decoded_is_signed:
  assumes "decode_history_cursor e w c = Inr v"
  obtains key p where "history_cursor_key e = Inr key" and "c = p @ CHR ''.'' # base64url (hx_hmac e key p)"
    and "json_parse (from_base64 p) \<noteq> None" and "payload_value w (the (json_parse (from_base64 p))) = Some v"
proof -
  obtain t x where t: "signed_payload e c = Some t" "json_parse t = Some x" "payload_value w x = Some v"
    using assms by (auto simp: decode_history_cursor_def split: option.splits)
  then obtain key where k: "history_cursor_key e = Inr key" "cursor_pattern c"
    "base64url (from_base64 (signature_part c)) = signature_part c"
    "from_base64 (base64url (hx_hmac e key (payload_part c))) = from_base64 (signature_part c)"
    "t = from_base64 (payload_part c)"
    by (auto simp: signed_payload_def sign_cursor_def Let_def split: if_splits sum.splits)
  have "CHR ''.'' \<in> set c" using k(2) by (simp add: cursor_pattern_def)
  then have "dropWhile (\<lambda>c. c \<noteq> CHR ''.'') c \<noteq> []" by (simp add: dropWhile_eq_Nil_conv)
  then have "c = payload_part c @ CHR ''.'' # signature_part c"
    using takeWhile_dropWhile_id [of "\<lambda>c. c \<noteq> CHR ''.''" c] hd_dropWhile [of "\<lambda>c. c \<noteq> CHR ''.''" c]
    unfolding payload_part_def signature_part_def by (metis list.collapse)
  moreover have "signature_part c = base64url (hx_hmac e key (payload_part c))"
    using k(3,4) by (metis from_base64url)
  ultimately show ?thesis using that [OF k(1), of "payload_part c"] t(2,3) k(5) by simp
qed

lemma decode_own:
  assumes "encode_history_cursor e w v = Inr c" and "decode_history_cursor e w c = Inr v'"
  shows "v' = v"
proof -
  obtain t i where v: "v = (t, i)" by fastforce
  let ?x = "cursor_text w (iso_text t) i"
  obtain sig where t: "valid_instant t" and c: "c = base64url ?x @ CHR ''.'' # sig"
    using assms(1) by (auto simp: v encode_history_cursor_def Let_def split: if_splits sum.splits)
  have part: "payload_part c = base64url ?x"
    unfolding c using parts_of [of "base64url ?x" sig] base64url_chars b64url_not_dot by blast
  have "signed_payload e c \<noteq> None" using assms(2) by (auto simp: decode_history_cursor_def split: option.splits)
  then have "signed_payload e c = Some ?x"
    by (auto simp: signed_payload_def part Let_def from_base64url split: if_splits sum.splits)
  then show ?thesis
    using assms(2) t
    by (auto simp: v decode_history_cursor_def cursor_text_parsed payload_value_def member_def iso_parse_text
        split: if_splits)
qed

lemma payload_wallet: "payload_value w p = Some v \<Longrightarrow> payload_value w' p = Some v' \<Longrightarrow> w' = w \<and> v' = v"
  by (auto simp: payload_value_def split: option.splits json.splits if_splits)


section \<open>Properties\<close>

text \<open>
  C16. A history cursor is authenticated and bound to its wallet. Whatever position the service encodes
  for a wallet, it decodes to the same instant and identifier for that wallet, and is refused with
  INVALID_CURSOR for every other wallet; and every cursor the service accepts, whoever sends it, is a
  payload followed by the service's own HMAC of exactly that payload.\<close>

theorem history_cursor_authentic:
  assumes "can_sign e key" and "valid_instant t" and "uuid_pattern w" and "uuid_pattern i"
  shows "\<exists>c. encode_history_cursor e w (t, i) = Inr c \<and> decode_history_cursor e w c = Inr (t, i) \<and>
    (\<forall>w'. w' \<noteq> w \<longrightarrow> decode_history_cursor e w' c = Inl invalid_cursor) \<and>
    (\<forall>w' c' v. decode_history_cursor e w' c' = Inr v \<longrightarrow>
       (\<exists>p. c' = p @ ''.'' @ base64url (hx_hmac e key p)))"
proof -
  let ?c = "base64url (cursor_text w (iso_text t) i) @ CHR ''.'' #
    base64url (hx_hmac e key (base64url (cursor_text w (iso_text t) i)))"
  have enc: "encode_history_cursor e w (t, i) = Inr ?c" using assms(1,2) by (rule encoded_cursor)
  have "\<exists>p. c' = p @ ''.'' @ base64url (hx_hmac e key p)" if "decode_history_cursor e w' c' = Inr v" for w' c' v
    using decoded_is_signed [OF that] assms(1) by (auto simp: can_sign_def)
  then show ?thesis
    using enc decode_encoded [OF assms enc] by (intro exI [of _ ?c]) simp
qed

definition demo_cursor_env :: cursor_env where
  "demo_cursor_env =
     \<lparr>hx_key = Some (base64 (replicate 32 CHR ''k'')), hx_hmac = (\<lambda>key p. take 32 (p @ key))\<rparr>"

lemma base64_empty: "base64 b = [] \<Longrightarrow> b = []"
  using from_base64_text [of b] by (simp add: from_base64_def List.map_filter_def)

lemma demo_can_sign: "can_sign demo_cursor_env (replicate 32 CHR ''k'')"
  using base64_empty [of "replicate 32 CHR ''k''"]
  by (auto simp: can_sign_def history_cursor_key_def demo_cursor_env_def from_base64_text)

lemma demo_uuids:
  "uuid_pattern ''11111111-1111-4111-8111-111111111111''"
  "uuid_pattern ''22222222-2222-4222-8222-222222222222''"
  by (simp_all add: uuid_pattern_def enumerate_eq_zip numeral_eq_Suc is_hex_def is_digit_def less_eq_char_def)

theorem history_cursor_authentic_witness:
  "\<exists>c. encode_history_cursor demo_cursor_env ''11111111-1111-4111-8111-111111111111''
        (1788084000000, ''22222222-2222-4222-8222-222222222222'') = Inr c \<and>
     decode_history_cursor demo_cursor_env ''11111111-1111-4111-8111-111111111111'' c =
       Inr (1788084000000, ''22222222-2222-4222-8222-222222222222'')"
  using history_cursor_authentic [OF demo_can_sign, of 1788084000000 "''11111111-1111-4111-8111-111111111111''"
      "''22222222-2222-4222-8222-222222222222''"]
      demo_uuids
  by (auto simp: valid_instant_def)

end
