(* ===== verification/TransferHistory.thy ===== *)
theory TransferHistory
  imports TransferRuns HistoryCursor
begin

text \<open>
  \<open>TransferService.history\<close> (services/transaction-service/src/transfers/transfer.service.ts): one page
  of the transactions of a wallet, newest first, by tuple comparison with the position in the cursor.
  A client reads the history by following the cursors (\<open>read_pages\<close>); meanwhile other requests run.
\<close>

section \<open>The query\<close>

datatype transfer_direction = Outgoing | Incoming

record history_item =
  hi_transfer :: uuid
  hi_direction :: transfer_direction
  hi_amount :: string
  hi_currency :: string
  hi_status :: transfer_status
  hi_occurred :: string

record history_page =
  hp_items :: "history_item list"
  hp_next :: "string option"

definition invalid_page_limit :: failure where
  "invalid_page_limit = http_failure 400 ''INVALID_PAGE_LIMIT'' ''History limit must be between 1 and 100.''"

definition wallet_access_denied :: failure where
  "wallet_access_denied =
     http_failure 403 ''WALLET_ACCESS_DENIED'' ''The wallet is not owned by this principal.''"

definition position :: "history_row \<Rightarrow> cursor_value" where
  "position h = (hr_occurred h, hr_id h)"

definition before :: "cursor_value option \<Rightarrow> history_row \<Rightarrow> bool" where
  "before after h \<longleftrightarrow> (case after of None \<Rightarrow> True | Some p \<Rightarrow> position h < p)"

text \<open>The \<open>WHERE\<close> and \<open>ORDER BY\<close> of the query.\<close>

definition wallet_rows :: "uuid \<Rightarrow> cursor_value option \<Rightarrow> 'w transfer_state \<Rightarrow> history_row list" where
  "wallet_rows wallet after s =
     List.rev (sort_key position (filter (\<lambda>h. hr_wallet h = wallet \<and> before after h) (history s)))"

definition history_item_of :: "decimal_lib \<Rightarrow> history_row \<Rightarrow> history_item" where
  "history_item_of D h =
     \<lparr>hi_transfer = hr_transfer h, hi_direction = (if hr_role h = Sender then Outgoing else Incoming),
      hi_amount = dl_fixed D 8 (hr_amount h), hi_currency = hr_currency h, hi_status = hr_status h,
      hi_occurred = iso_text (hr_occurred h)\<rparr>"

definition of_result :: "failure + 'a \<Rightarrow> ('s, 'a) act" where
  "of_result r = (case r of Inl e \<Rightarrow> throw e | Inr x \<Rightarrow> ret x)"

definition page_of ::
  "decimal_lib \<Rightarrow> cursor_env \<Rightarrow> uuid \<Rightarrow> nat \<Rightarrow> history_row list \<Rightarrow> failure + history_page" where
  "page_of D e wallet limit rows =
     (let page = take limit rows in
      if length rows > limit \<and> page \<noteq> [] then
        (case encode_history_cursor e wallet (position (last page)) of
           Inl x \<Rightarrow> Inl x
         | Inr c \<Rightarrow> Inr \<lparr>hp_items = map (history_item_of D) page, hp_next = Some c\<rparr>)
      else Inr \<lparr>hp_items = map (history_item_of D) page, hp_next = None\<rparr>)"

definition history_query ::
  "'w transfer_env \<Rightarrow> cursor_env \<Rightarrow> string \<Rightarrow> uuid \<Rightarrow> int \<Rightarrow> string option \<Rightarrow>
     ('w transfer_state, history_page) act" where
  "history_query v e client wallet limit cursor =
     bnd (ensure (1 \<le> limit \<and> limit \<le> 100) invalid_page_limit) (\<lambda>_.
     bnd (read_wallet v wallet) (\<lambda>w.
     bnd (ensure (wv_owner w = client) wallet_access_denied) (\<lambda>_.
     bnd (if truthy cursor
          then of_result (map_sum id Some (decode_history_cursor e wallet (the cursor)))
          else ret None) (\<lambda>after.
     bnd (pause (tv_others v 17)) (\<lambda>_.
     bnd (gets (\<lambda>s. take (nat limit + 1) (wallet_rows wallet after s))) (\<lambda>rows.
     of_result (page_of (tv_decimal v) e wallet (nat limit) rows)))))))"

text \<open>
  The route: \<open>limit\<close> is 50 when it is absent, and otherwise what \<open>ParseIntPipe\<close> reads, a text of
  digits with an optional sign whose value is a finite double.
\<close>

definition parse_int :: "string \<Rightarrow> int option" where
  "parse_int t =
     (let minus = (t \<noteq> [] \<and> hd t = CHR ''-''); ds = (if minus then tl t else t); n = int (text_nat ds) in
      if ds = [] \<or> \<not> list_all is_digit ds \<or> 2 ^ 1024 - 2 ^ 970 \<le> n then None
      else Some (if minus then - n else n))"

definition history_route ::
  "transfer_http \<Rightarrow> 'w transfer_env \<Rightarrow> cursor_env \<Rightarrow> string option \<Rightarrow> uuid \<Rightarrow> string option \<Rightarrow> string option \<Rightarrow>
     ('w transfer_state, history_page) act" where
  "history_route h v e header wallet limit cursor =
     (let n = (case limit of None \<Rightarrow> Some 50 | Some t \<Rightarrow> parse_int t) in
      validated (th_is_uuid h wallet \<and> n \<noteq> None) (with_principal header (\<lambda>client.
      history_query v e client wallet (the n) cursor)))"

text \<open>
  A client that follows the cursors, at most \<open>n\<close> pages; the \<open>k\<close>-th call has the environment \<open>vs k\<close>.
  It gets all items when the last page has no cursor.
\<close>

primrec read_pages ::
  "(nat \<Rightarrow> 'w transfer_env) \<Rightarrow> cursor_env \<Rightarrow> string \<Rightarrow> uuid \<Rightarrow> int \<Rightarrow> nat \<Rightarrow> string option \<Rightarrow>
     'w transfer_state \<Rightarrow> history_item list option" where
  "read_pages vs e client wallet limit 0 cursor s = None"
| "read_pages vs e client wallet limit (Suc n) cursor s =
     (case history_query (vs n) e client wallet limit cursor s of
        (Inl _, _) \<Rightarrow> None
      | (Inr p, u) \<Rightarrow>
          (case hp_next p of
             None \<Rightarrow> Some (hp_items p)
           | Some c \<Rightarrow> map_option ((@) (hp_items p)) (read_pages vs e client wallet limit n (Some c) u)))"

section \<open>Rows keep their positions\<close>

text \<open>No handler changes the key or the position of a history row, or removes one.\<close>

definition row_kept :: "history_row \<Rightarrow> history_row \<Rightarrow> bool" where
  "row_kept p q \<longleftrightarrow>
     hr_id q = hr_id p \<and> hr_occurred q = hr_occurred p \<and> hr_transfer q = hr_transfer p \<and>
     hr_wallet q = hr_wallet p \<and> hr_role q = hr_role p"

definition history_step :: "'w transfer_state \<Rightarrow> 'w transfer_state \<Rightarrow> bool" where
  "history_step s t \<longleftrightarrow>
     (distinct (map hr_id (history s)) \<longrightarrow>
        distinct (map hr_id (history t)) \<and> grows row_kept (history s) (history t))"

interpretation th: two_state history_step
proof unfold_locales
  fix s :: "'a transfer_state"
  show "history_step s s" by (simp add: history_step_def row_kept_def grows_refl)
next
  fix s t u :: "'a transfer_state"
  assume "history_step s t" "history_step t u"
  then show "history_step s u"
    unfolding history_step_def by (metis (no_types, lifting) grows_trans row_kept_def)
qed

lemma same_history: "history t = history s \<Longrightarrow> history_step s t"
  by (simp add: history_step_def row_kept_def grows_refl)

lemma history_writes:
  "steps history_step (create_transfer t)" "steps history_step (update_transfers P f)"
  "steps history_step (create_record r)" "steps history_step (update_records Q g)"
  by (auto simp: steps_def create_transfer_def update_transfers_def create_record_def update_records_def Let_def
      intro!: same_history split: option.split)

lemma create_history_step: "steps history_step (create_history h)"
proof (rule stepsI)
  fix s :: "'w transfer_state"
  show "history_step s (snd (create_history h s))"
    by (auto simp: create_history_def Let_def history_step_def key_taken_def row_kept_def
        intro!: grows_refl grows_snoc split: option.split)
qed

lemma update_history_step: "(\<And>h. row_kept h (f h)) \<Longrightarrow> steps history_step (update_history P f)"
  unfolding update_history_def
  by (rule th.steps_modify)
    (auto simp: history_step_def map_update_where row_kept_def intro!: grows_update)

lemma keep_status [simp]: "row_kept h (h\<lparr>hr_status := x\<rparr>)"
  by (simp add: row_kept_def)

definition steady :: "'w transfer_env \<Rightarrow> bool" where
  "steady v \<longleftrightarrow> (\<forall>k s. history_step s (tv_others v k s))"

lemma steady_pause: "steady v \<Longrightarrow> steps history_step (pause (tv_others v k))"
  by (simp add: steady_def th.steps_pause)

lemma steady_upstream: "steps history_step (upstream service upper url token send)"
  by (rule stepsI) (auto simp: upstream_def Let_def split: prod.split intro!: same_history)

lemma steady_clients:
  "steps history_step (account_validation v w)" "steps history_step (ledger_post v c)"
  "steps history_step (fx_consume v i q)" "steps history_step (ledger_by_reference v i)"
  unfolding account_validation_def ledger_post_def fx_consume_def ledger_by_reference_def
  by (intro steady_upstream th.steps_catch th.steps_bnd th.steps_ret;
      auto intro: th.steps_throw th.steps_ret split: failure.split)+

lemma steady_wallets: "steps history_step (validated_wallets v t)"
proof (rule stepsI)
  fix s
  obtain r1 s1 where a: "account_validation v (tr_sender t) s = (r1, s1)" by fastforce
  obtain r2 s2 where b: "account_validation v (tr_recipient t) s1 = (r2, s2)" by fastforce
  have "history_step s s2"
    using stepsD_eq [OF steady_clients(1) a] stepsD_eq [OF steady_clients(1) b] th.R_trans by blast
  moreover have "snd (check_that p s2) = s2" for p
    by (simp add: check_that_def split: option.split)
  ultimately show "history_step s (snd (validated_wallets v t s))"
    by (auto simp: validated_wallets_def a b split: sum.split)
qed

lemma steady_post: "steps history_step (post_transfer v t)"
  by (auto simp: post_transfer_def intro: th.steps_throw steady_clients split: option.split)

lemma steady_reads: "steps history_step (row_or_throw i)" "steps history_step (find_transfer i)"
  unfolding row_or_throw_def find_transfer_def by (intro th.steps_rules)+

lemma steady_transactions:
  "steps history_step (complete_transaction v i ledger)"
  "steps history_step (fail_transaction v i status code msg)"
  "steps history_step (transition v i)"
  "steps history_step (claim_processing_retry v t b)"
  "steps history_step (prepare_transaction v t q)"
  "steps history_step (claim_transaction t rows r)"
  unfolding complete_transaction_def fail_transaction_def transition_def claim_processing_retry_def
    prepare_transaction_def claim_transaction_def Let_def
  by (intro th.steps_rules th.steps_option history_writes steady_reads update_history_step create_history_step
      keep_status; auto intro: th.steps_ret split: prod.split)+

lemma steady_settle:
  assumes "steady v"
  shows "steps history_step (complete v i ledger)" "steps history_step (fail v i status code msg)"
  unfolding complete_def fail_def
  by (intro th.steps_bnd steady_pause th.steps_transaction steady_transactions assms th.steps_ret;
      auto intro: th.steps_ret split: prod.split)+

lemma steady_failures:
  assumes "steady v"
  shows "steps history_step (handle_account_failure v i e)"
    and "steps history_step (handle_fx_failure v t e)"
    and "steps history_step (handle_ledger_failure v t e)"
  using steady_settle(2) [OF assms]
  by (auto simp: handle_account_failure_def handle_fx_failure_def handle_ledger_failure_def
      intro: th.steps_throw th.steps_ret split: failure.split)

lemma steady_process:
  assumes "steady v"
  shows "steps history_step (process v i)"
  unfolding process_def
  by (intro th.steps_rules steady_pause steady_reads th.steps_attempt steady_wallets assms)
    (auto intro!: th.steps_rules steady_pause th.steps_attempt steady_post steady_failures steady_settle assms
      split: sum.split)

lemma steady_prepare:
  assumes "steady v"
  shows "steps history_step (prepare_international v t)"
  unfolding prepare_international_def
  by (intro th.steps_rules steady_pause th.steps_attempt steady_clients assms)
    (auto intro!: th.steps_rules steady_pause steady_failures steady_process steady_reads
      steady_transactions assms split: sum.split)

lemma steady_reconcile:
  assumes "steady v"
  shows "steps history_step (reconcile v i force)"
  unfolding reconcile_def
  by (intro th.steps_bnd [OF steady_reads(2)] th.steps_if th.steps_ret
      th.steps_bnd [OF steady_pause [OF assms]] th.steps_bnd [OF steady_reads(1)] steady_prepare assms
      th.steps_bnd [OF th.steps_attempt [OF steady_clients(4)]])
    (auto intro!: th.steps_rules steady_pause steady_settle steady_reads steady_transactions
      steady_process assms simp: Let_def split: sum.split failure.split option.split)

lemma steady_existing:
  assumes "steady v"
  shows "steps history_step (handle_existing v t r hash)"
  unfolding handle_existing_def
  by (intro th.steps_rules steady_pause assms)
    (auto intro!: th.steps_rules steady_reconcile assms split: idempotency_state.split option.split)

lemma steady_claims:
  assumes "steady v"
  shows "steps history_step (claim v client key hash c)"
    "steps history_step (claim_international v client key hash c')"
  unfolding claim_def claim_international_def
  by (intro th.steps_bnd [OF th.steps_gets] th.steps_option th.steps_ret th.steps_bnd [OF steady_pause [OF assms]]
      th.steps_catch th.steps_bnd [OF th.steps_transaction [OF steady_transactions(6)]] th.steps_if th.steps_throw)+

lemma steady_creates:
  assumes "steady v"
  shows "steps history_step (create_domestic v client key c)"
    "steps history_step (create_international v client key c')"
  unfolding create_domestic_def create_international_def Let_def
  by (intro th.steps_bnd th.steps_ensure th.steps_check_that steady_claims assms;
      auto intro!: th.steps_bnd steady_pause steady_transactions steady_process steady_prepare
        steady_existing assms split: prod.split)+

lemma steady_wallet: "steady v \<Longrightarrow> steps history_step (read_wallet v w)"
  unfolding read_wallet_def
  by (intro th.steps_bnd steady_pause th.steps_catch steady_clients)
    (auto intro: th.steps_throw split: failure.split)

lemma steady_gets:
  assumes "steady v"
  shows "steps history_step (get_for_principal v client i)" "steps history_step (get_internal v i)"
  unfolding get_for_principal_def get_internal_def
  by (intro th.steps_rules steady_reads steady_wallet assms)+

lemma steady_run_once:
  assumes "\<And>k. steady (vs k)"
  shows "steps history_step (run_once vs)"
  unfolding run_once_def
  by (intro th.steps_rules th.steps_modify same_history)
    (auto intro!: th.steps_rules steady_reconcile assms split: prod.split)

lemma steady_serve:
  assumes "\<And>k. steady (vs k)"
  shows "history_step s (serve_transfer h vs q s)"
  by (cases q)
    (auto simp: create_domestic_route_def create_international_route_def get_transfer_route_def
      get_internal_route_def reconcile_route_def run_reconciliation_route_def
      intro!: stepsD [where R = history_step] th.steps_validated th.steps_guarded th.steps_principal
        steady_creates steady_gets steady_reconcile steady_run_once assms)

lemma transfer_run_history: "transfer_run D s t \<Longrightarrow> history_step s t"
proof (induction rule: transfer_run.induct)
  case (tx_idle s)
  then show ?case by (rule th.R_refl)
next
  case (tx_world s t w)
  from tx_world.IH show ?case by (rule th.R_trans) (simp add: same_history)
next
  case (tx_serve vs s t h q)
  then have "history_step t (serve_transfer h vs q t)"
    by (intro steady_serve) (simp add: steady_def)
  then show ?case using tx_serve.IH(2) th.R_trans by blast
qed

end
