(* ===== verification/HistoryPages.thy ===== *)
theory HistoryPages
  imports TransferHistory TransferDemo
begin

text \<open>
  What a client reads that follows the cursors of the history query. Without writers it is the whole
  history of the wallet, newest first; with writers between the pages it still has every transfer that
  was there at the start, and no transfer twice.
\<close>

section \<open>Positions\<close>

definition descending :: "history_row list \<Rightarrow> bool" where
  "descending rows \<longleftrightarrow> sorted_wrt (\<lambda>a b. position b < position a) rows"

lemma distinct_positions: "distinct (map hr_id rows) \<Longrightarrow> distinct (map position rows)"
  by (induction rows) (auto simp: position_def)

lemma set_wallet_rows: "set (wallet_rows w after s) = {h \<in> set (history s). hr_wallet h = w \<and> before after h}"
  by (auto simp: wallet_rows_def)

lemma distinct_filter_map: "distinct (map f xs) \<Longrightarrow> distinct (map f (filter P xs))"
  by (induction xs) auto

lemma descending_wallet_rows:
  assumes "distinct (map hr_id (history s))"
  shows "descending (wallet_rows w after s)"
proof -
  let ?rows = "sort_key position (filter (\<lambda>h. hr_wallet h = w \<and> before after h) (history s))"
  have "distinct (map position ?rows)"
    using distinct_filter_map [OF distinct_positions [OF assms]] by (simp add: distinct_map)
  then have "sorted_wrt (<) (map position ?rows)" by (simp add: strict_sorted_iff)
  then show ?thesis by (simp add: descending_def wallet_rows_def sorted_wrt_rev sorted_wrt_map)
qed

lemma descending_unique: "descending xs \<Longrightarrow> descending ys \<Longrightarrow> set xs = set ys \<Longrightarrow> xs = ys"
proof (induction xs arbitrary: ys)
  case Nil
  then show ?case by simp
next
  case (Cons x xs)
  obtain y ys' where ys: "ys = y # ys'" using Cons.prems(3) by (cases ys) auto
  have "x = y"
    using Cons.prems unfolding ys descending_def by (metis dual_order.asym list.set_intros(1) set_ConsD sorted_wrt.simps(2))
  moreover have "x \<notin> set xs" "y \<notin> set ys'" using Cons.prems(1,2) by (auto simp: descending_def ys)
  ultimately have "set xs = set ys'" using Cons.prems(3) by (auto simp: ys)
  then show ?case using Cons.IH [of ys'] Cons.prems(1,2) \<open>x = y\<close> by (simp add: descending_def ys)
qed

lemma descending_filter: "descending xs \<Longrightarrow> descending (filter P xs)"
  by (simp add: descending_def sorted_wrt_filter)

text \<open>The rows after the cursor of a page are those that the page has left.\<close>

lemma wallet_rows_after:
  assumes "distinct (map hr_id (history s))" and "x \<in> set (wallet_rows w after s)"
  shows "wallet_rows w (Some (position x)) s = filter (before (Some (position x))) (wallet_rows w after s)"
  using assms(2)
  by (intro descending_unique descending_filter descending_wallet_rows assms(1))
    (auto simp: set_wallet_rows before_def split: option.splits)

lemma filter_after_last:
  assumes "descending (xs @ ys)" and "xs \<noteq> []"
  shows "filter (before (Some (position (last xs)))) (xs @ ys) = ys"
proof -
  have later: "position y < position x" if "x \<in> set xs" "y \<in> set ys" for x y
    using assms(1) that by (simp add: descending_def sorted_wrt_append)
  have "\<not> position x < position (last xs)" if "x \<in> set xs" for x
  proof -
    have "descending xs" using assms(1) by (simp add: descending_def sorted_wrt_append)
    then have "x = last xs \<or> position (last xs) < position x"
      using that assms(2) by (induction xs) (auto simp: descending_def)
    then show ?thesis by (auto dest: order.strict_implies_not_eq order.asym)
  qed
  then have "filter (before (Some (position (last xs)))) xs = []" by (auto simp: filter_empty_conv before_def)
  moreover have "filter (before (Some (position (last xs)))) ys = ys"
    using later assms(2) by (auto simp: filter_id_conv before_def)
  ultimately show ?thesis by simp
qed

section \<open>A page\<close>

lemma page_of_cases:
  assumes "page_of D e w limit rows = Inr p"
  shows "hp_items p = map (history_item_of D) (take limit rows) \<and>
    (case hp_next p of
       None \<Rightarrow> length rows \<le> limit \<or> limit = 0
     | Some c \<Rightarrow> limit < length rows \<and> take limit rows \<noteq> [] \<and>
         encode_history_cursor e w (position (last (take limit rows))) = Inr c)"
  using assms by (auto simp: page_of_def Let_def split: if_splits sum.splits)

lemma of_result_simps [simp]: "of_result (Inl e) = throw e" "of_result (Inr x) = ret x"
  by (simp_all add: of_result_def)

text \<open>Where a page starts: at the beginning, or at the position that its cursor decodes to.\<close>

definition starts_at :: "cursor_env \<Rightarrow> uuid \<Rightarrow> string option \<Rightarrow> cursor_value option \<Rightarrow> bool" where
  "starts_at e w cursor after \<longleftrightarrow>
     (if truthy cursor then map_sum id Some (decode_history_cursor e w (the cursor)) = Inr after else after = None)"

lemma history_query_result:
  assumes "history_query v e client w limit cursor s = (Inr p, u)"
  obtains after where "starts_at e w cursor after" and "1 \<le> limit"
    and "page_of (tv_decimal v) e w (nat limit) (take (nat limit + 1) (wallet_rows w after u)) = Inr p"
  using assms
  by (auto simp: history_query_def starts_at_def bnd_result_Inr ensure_def of_result_def split: if_splits sum.splits)

lemma history_query_step:
  assumes "calm D v"
  shows "steps (transfer_step D) (history_query v e client w limit cursor)"
  unfolding history_query_def of_result_def
  by (intro tx.steps_bnd tx.steps_ensure read_wallet_step pause_step tx.steps_gets tx.steps_if assms tx.steps_ret;
      auto intro: tx.steps_throw tx.steps_ret split: sum.split)

lemma history_query_steady:
  assumes "steady v"
  shows "steps history_step (history_query v e client w limit cursor)"
  unfolding history_query_def of_result_def
  by (intro th.steps_bnd th.steps_ensure steady_wallet steady_pause th.steps_gets th.steps_if assms th.steps_ret;
      auto intro: th.steps_throw th.steps_ret split: sum.split)

section \<open>Without writers\<close>

text \<open>The Account service answers, and says that the client owns the wallet.\<close>

definition owned :: "'w transfer_env \<Rightarrow> uuid \<Rightarrow> string \<Rightarrow> bool" where
  "owned v w client \<longleftrightarrow>
     truthy (tv_account_url v) \<and> truthy (tv_token v) \<and>
     (\<forall>x. case fst (tv_validation v w x) of
        Response n i _ _ \<Rightarrow> 200 \<le> n \<and> n \<le> 299 \<and> wv_owner i = client
      | NoResponse \<Rightarrow> False)"

definition quiet :: "'w transfer_env \<Rightarrow> bool" where
  "quiet v \<longleftrightarrow> (\<forall>k s. tv_others v k s = s)"

lemma owned_read:
  assumes "owned v w client" and "quiet v"
  obtains i y where "read_wallet v w s = (Inr i, s\<lparr>outside := y\<rparr>)" and "wv_owner i = client"
proof -
  obtain r y where r: "tv_validation v w (outside s) = (r, y)" by fastforce
  have "case fst (tv_validation v w (outside s)) of
      Response n i _ _ \<Rightarrow> 200 \<le> n \<and> n \<le> 299 \<and> wv_owner i = client | NoResponse \<Rightarrow> False"
    using assms(1) unfolding owned_def by blast
  then obtain n i c m where "r = Response n i c m" "200 \<le> n" "n \<le> 299" "wv_owner i = client"
    using r by (cases r) auto
  then have "read_wallet v w s = (Inr i, s\<lparr>outside := y\<rparr>)"
    using assms r by (simp add: read_wallet_def quiet_def account_validation_def upstream_def catch_def owned_def)
  then show ?thesis using that \<open>wv_owner i = client\<close> by blast
qed

lemma wallet_rows_world [simp]: "wallet_rows w after (s\<lparr>outside := y\<rparr>) = wallet_rows w after s"
  by (simp add: wallet_rows_def)

lemma history_query_quiet:
  assumes "owned v w client" and "quiet v" and "1 \<le> limit" and "limit \<le> 100" and "starts_at e w cursor after"
  obtains y where "history_query v e client w limit cursor s =
    of_result (page_of (tv_decimal v) e w (nat limit) (take (nat limit + 1) (wallet_rows w after s))) (s\<lparr>outside := y\<rparr>)"
proof -
  obtain i y where i: "read_wallet v w s = (Inr i, s\<lparr>outside := y\<rparr>)" "wv_owner i = client"
    using owned_read [OF assms(1,2), of s] by blast
  show ?thesis
    by (rule that [of y], cases "truthy cursor")
      (use assms(2-5) i in \<open>simp_all add: history_query_def bnd_def [of "read_wallet v w"] quiet_def starts_at_def\<close>)
qed

lemma encoded_not_empty: "encode_history_cursor e w p = Inr c \<Longrightarrow> c \<noteq> []"
  by (auto simp: encode_history_cursor_def Let_def split: if_splits sum.splits)

text \<open>What the cursors need of the rows: instants and identifiers as PostgreSQL gives them.\<close>

definition row_encodes :: "history_row \<Rightarrow> bool" where
  "row_encodes h \<longleftrightarrow> valid_instant (hr_occurred h) \<and> uuid_pattern (hr_id h)"

lemma next_cursor:
  assumes "can_sign e key" and "uuid_pattern w" and "row_encodes h"
  obtains c where "encode_history_cursor e w (position h) = Inr c" and "starts_at e w (Some c) (Some (position h))"
proof -
  have h: "valid_instant (hr_occurred h)" "uuid_pattern (hr_id h)" using assms(3) by (simp_all add: row_encodes_def)
  obtain c where c: "encode_history_cursor e w (position h) = Inr c"
    using encoded_cursor [OF assms(1) h(1)] by (auto simp: position_def)
  moreover have "decode_history_cursor e w c = Inr (position h)"
    using decode_encoded [OF assms(1) h(1) assms(2) h(2)] c by (simp add: position_def)
  ultimately show ?thesis
    using that [of c] encoded_not_empty [OF c] by (simp add: starts_at_def)
qed

lemma read_pages_rest:
  assumes "can_sign e key" and "uuid_pattern w" and "owned v w client" and "quiet v"
    and "1 \<le> limit" and "limit \<le> 100"
  shows "distinct (map hr_id (history s)) \<Longrightarrow> \<forall>h\<in>set (wallet_rows w None s). row_encodes h \<Longrightarrow>
    starts_at e w cursor after \<Longrightarrow> length (wallet_rows w after s) < n \<Longrightarrow>
    read_pages (\<lambda>_. v) e client w limit n cursor s =
      Some (map (history_item_of (tv_decimal v)) (wallet_rows w after s))"
proof (induction n arbitrary: cursor after s)
  case 0
  then show ?case by simp
next
  case (Suc n)
  let ?rows = "wallet_rows w after s" and ?L = "nat limit"
  obtain y where q: "history_query v e client w limit cursor s =
      of_result (page_of (tv_decimal v) e w ?L (take (?L + 1) ?rows)) (s\<lparr>outside := y\<rparr>)"
    using history_query_quiet [OF assms(3-6) Suc.prems(3)] by blast
  show ?case
  proof (cases "?L < length ?rows")
    case False
    then show ?thesis by (simp add: q page_of_def)
  next
    case True
    let ?page = "take ?L ?rows"
    have page: "?page \<noteq> []" "take ?L (take (?L + 1) ?rows) = ?page" "?L < length (take (?L + 1) ?rows)"
      using True assms(5) by auto
    have last: "last ?page \<in> set ?rows" using page(1) by (meson in_set_takeD last_in_set)
    then have "row_encodes (last ?page)"
      using Suc.prems(2) by (auto simp: set_wallet_rows before_def)
    then obtain c where c: "encode_history_cursor e w (position (last ?page)) = Inr c"
      "starts_at e w (Some c) (Some (position (last ?page)))"
      using next_cursor [OF assms(1,2)] by blast
    have rest: "wallet_rows w (Some (position (last ?page))) s = drop ?L ?rows"
      using wallet_rows_after [OF Suc.prems(1) last] page(1)
        filter_after_last [of ?page "drop ?L ?rows"] descending_wallet_rows [OF Suc.prems(1), of w after]
      by simp
    have "read_pages (\<lambda>_. v) e client w limit n (Some c) (s\<lparr>outside := y\<rparr>) =
      Some (map (history_item_of (tv_decimal v)) (drop ?L ?rows))"
      using Suc.IH [of "s\<lparr>outside := y\<rparr>" "Some c" "Some (position (last ?page))"] Suc.prems(1,2,4) c(2) rest
        assms(5) True by simp
    moreover have "history_query v e client w limit cursor s =
      (Inr \<lparr>hp_items = map (history_item_of (tv_decimal v)) ?page, hp_next = Some c\<rparr>, s\<lparr>outside := y\<rparr>)"
      using page c(1) by (simp add: q page_of_def Let_def)
    ultimately show ?thesis by (simp flip: map_append)
  qed
qed

section \<open>With writers\<close>

text \<open>A wallet has one row of a transfer.\<close>

lemma history_of_row:
  assumes "transfers_ok D s" and "h \<in> set (history s)"
  obtains t where "t \<in> set (transfers s)" and "tr_id t = hr_transfer h" and "transfer_check t"
    and "map anonymous (history_of (tr_id t) s) = expected_rows t" and "h \<in> set (history_of (tr_id t) s)"
proof -
  obtain t where "t \<in> set (transfers s)" "tr_id t = hr_transfer h"
    using assms by (auto simp: transfers_ok_def)
  then show ?thesis
    using that assms by (auto simp: transfers_ok_def row_ok_def history_of_def)
qed

lemma anonymous_fields [simp]:
  "hr_wallet (anonymous h) = hr_wallet h" "hr_transfer (anonymous h) = hr_transfer h"
  by (simp_all add: anonymous_def)

lemma two_rows:
  assumes "map anonymous rows = expected_rows t" and "tr_sender t \<noteq> tr_recipient t"
    and "g \<in> set rows" and "h \<in> set rows" and "hr_wallet g = hr_wallet h"
  shows "g = h"
proof (cases "expected_rows t = []")
  case True
  then show ?thesis using assms(1,3) by simp
next
  case False
  then obtain a b where e: "expected_rows t = [a, b]" "hr_wallet a = tr_sender t" "hr_wallet b = tr_recipient t"
    by (auto simp: expected_rows_def split: if_splits)
  then obtain p q where "rows = [p, q]" "anonymous p = a" "anonymous q = b"
    using assms(1) by (auto simp: map_eq_Cons_conv)
  then show ?thesis using assms(2-5) e(2,3) by auto
qed

lemma wallet_transfer_unique:
  assumes "transfers_ok D s" and "g \<in> set (wallet_rows w None s)" and "h \<in> set (wallet_rows w None s)"
    and "hr_transfer g = hr_transfer h"
  shows "g = h"
proof -
  have "g \<in> set (history s)" "h \<in> set (history s)" "hr_wallet g = hr_wallet h"
    using assms(2,3) by (auto simp: set_wallet_rows)
  moreover obtain t where "map anonymous (history_of (tr_id t) s) = expected_rows t" "transfer_check t"
    "tr_id t = hr_transfer h"
    using history_of_row [OF assms(1) \<open>h \<in> set (history s)\<close>] by blast
  ultimately show ?thesis
    using assms(4) by (intro two_rows [of "history_of (tr_id t) s" t]) (auto simp: history_of_def transfer_check_def)
qed

lemma set_rows_before: "set (wallet_rows w after s) = {h \<in> set (wallet_rows w None s). before after h}"
  by (auto simp: set_wallet_rows before_def)

text \<open>What is listed from a position on is exactly the transfers of the rows after it.\<close>

definition lists_after ::
  "uuid \<Rightarrow> cursor_value option \<Rightarrow> 'w transfer_state \<Rightarrow> history_item list \<Rightarrow> bool" where
  "lists_after w after s items \<longleftrightarrow>
     distinct (map hi_transfer items) \<and>
     (\<forall>h\<in>set (wallet_rows w None s). hr_transfer h \<in> hi_transfer ` set items \<longleftrightarrow> before after h)"

lemma hi_transfer_item [simp]: "hi_transfer (history_item_of D h) = hr_transfer h"
  by (simp add: history_item_of_def)

lemma hi_transfer_items [simp]: "hi_transfer ` history_item_of D ` A = hr_transfer ` A"
  by (simp add: image_image)

lemma transfers_of_rows:
  assumes "transfers_ok D s" and "set rows \<subseteq> set (wallet_rows w None s)" and "h \<in> set (wallet_rows w None s)"
  shows "hr_transfer h \<in> hr_transfer ` set rows \<longleftrightarrow> h \<in> set rows"
proof
  assume "hr_transfer h \<in> hr_transfer ` set rows"
  then obtain g where "g \<in> set rows" "hr_transfer h = hr_transfer g" by auto
  then show "h \<in> set rows" using wallet_transfer_unique [OF assms(1,3), of g] assms(2) by auto
qed simp

lemma distinct_transfers:
  assumes "transfers_ok D s" and "set rows \<subseteq> set (wallet_rows w None s)" and "distinct rows"
  shows "distinct (map hr_transfer rows)"
proof -
  have "inj_on hr_transfer (set rows)"
    by (rule inj_onI) (use assms(2) wallet_transfer_unique [OF assms(1)] in blast)
  then show ?thesis using assms(3) by (simp add: distinct_map)
qed

lemma descending_distinct: "descending rows \<Longrightarrow> distinct rows"
  by (induction rows) (auto simp: descending_def)

lemma last_page:
  assumes "transfers_ok D s" and "distinct (map hr_id (history s))"
  shows "lists_after w after s (map (history_item_of E) (wallet_rows w after s))"
proof -
  have sub: "set (wallet_rows w after s) \<subseteq> set (wallet_rows w None s)"
    using set_rows_before [of w after s] by auto
  have "distinct (map hr_transfer (wallet_rows w after s))"
    using distinct_transfers [OF assms(1) sub] descending_distinct [OF descending_wallet_rows [OF assms(2)]] by blast
  moreover have "hr_transfer h \<in> hr_transfer ` set (wallet_rows w after s) \<longleftrightarrow> before after h"
    if "h \<in> set (wallet_rows w None s)" for h
    using transfers_of_rows [OF assms(1) sub that] set_rows_before [of w after s] that by auto
  ultimately show ?thesis by (simp add: lists_after_def comp_def)
qed

lemma further_page:
  assumes ok: "transfers_ok D s" "distinct (map hr_id (history s))"
    and page: "wallet_rows w after s = page @ others" "page \<noteq> []"
    and rest: "lists_after w (Some (position (last page))) s items"
  shows "lists_after w after s (map (history_item_of E) page @ items)"
proof -
  let ?p = "position (last page)"
  have desc: "descending (page @ others)" using descending_wallet_rows [OF ok(2), of w after] page(1) by simp
  have sub: "set page \<subseteq> set (wallet_rows w None s)" "set others \<subseteq> set (wallet_rows w None s)"
    using set_rows_before [of w after s] page(1) by auto
  have left: "filter (before (Some ?p)) (page @ others) = others" using desc page(2) by (rule filter_after_last)
  then have "set others = {h \<in> set page \<union> set others. before (Some ?p) h}" by (metis set_append set_filter)
  moreover have "set page \<inter> set others = {}" using descending_distinct [OF desc] by simp
  ultimately have here: "\<And>h. h \<in> set page \<Longrightarrow> \<not> before (Some ?p) h"
    and gone: "\<And>h. h \<in> set others \<Longrightarrow> before (Some ?p) h" by blast+
  have "before after (last page)"
    using set_rows_before [of w after s] page(1) last_in_set [OF page(2)] by auto
  then have "before (Some ?p) h \<Longrightarrow> before after h" for h
    by (auto simp: before_def split: option.splits)
  then have split: "before after h \<longleftrightarrow> h \<in> set page \<or> before (Some ?p) h" if "h \<in> set (wallet_rows w None s)" for h
    using that set_rows_before [of w after s] page(1) gone by auto
  have items: "hr_transfer h \<in> hi_transfer ` set items \<longleftrightarrow> before (Some ?p) h"
    if "h \<in> set (wallet_rows w None s)" for h
    using rest that by (simp add: lists_after_def)
  have "hr_transfer ` set page \<inter> hi_transfer ` set items = {}"
    using items here sub(1) by fastforce
  then have "distinct (map hi_transfer (map (history_item_of E) page @ items))"
    using distinct_transfers [OF ok(1) sub(1)] descending_distinct [OF desc] rest
    by (auto simp: lists_after_def comp_def)
  moreover have "hr_transfer h \<in> hi_transfer ` set (map (history_item_of E) page @ items) \<longleftrightarrow> before after h"
    if "h \<in> set (wallet_rows w None s)" for h
    using transfers_of_rows [OF ok(1) sub(1) that] items [OF that] split [OF that] by (simp add: image_Un)
  ultimately show ?thesis by (simp add: lists_after_def)
qed

lemma lists_after_earlier:
  assumes "lists_after w after u items" and "grows row_kept (history s) (history u)"
  shows "lists_after w after s items"
proof -
  have "\<exists>g\<in>set (wallet_rows w None u). row_kept h g" if "h \<in> set (wallet_rows w None s)" for h
    using grows_in [OF assms(2), of h] that by (auto simp: set_wallet_rows row_kept_def before_def)
  then show ?thesis
    using assms(1) unfolding lists_after_def row_kept_def before_def position_def
    by (metis (no_types, lifting))
qed

lemma starts_at_unique: "starts_at e w cursor a \<Longrightarrow> starts_at e w cursor b \<Longrightarrow> a = b"
  by (auto simp: starts_at_def split: if_splits)

lemma own_cursor:
  assumes "encode_history_cursor e w p = Inr c" and "starts_at e w (Some c) after"
  shows "after = Some p"
proof -
  from assms(2) encoded_not_empty [OF assms(1)]
  obtain v where v: "decode_history_cursor e w c = Inr v" "after = Some v"
    by (cases "decode_history_cursor e w c") (auto simp: starts_at_def)
  show ?thesis using decode_own [OF assms(1) v(1)] v(2) by simp
qed

lemma read_pages_start:
  assumes "read_pages vs e client w limit n cursor s = Some items"
  obtains after where "starts_at e w cursor after"
proof (cases n)
  case 0
  then show ?thesis using assms by simp
next
  case (Suc m)
  then obtain p u where "history_query (vs m) e client w limit cursor s = (Inr p, u)"
    using assms by (auto split: prod.splits sum.splits)
  then show ?thesis using that history_query_result by blast
qed

lemma read_pages_lists:
  assumes "\<And>k. calm D (vs k)" and "\<And>k. steady (vs k)"
  shows "transfers_ok D s \<Longrightarrow> distinct (map hr_id (history s)) \<Longrightarrow> starts_at e w cursor after \<Longrightarrow>
    read_pages vs e client w limit n cursor s = Some items \<Longrightarrow> lists_after w after s items"
proof (induction n arbitrary: s cursor after items)
  case 0
  then show ?case by simp
next
  case (Suc n)
  obtain p u where q: "history_query (vs n) e client w limit cursor s = (Inr p, u)"
    using Suc.prems(4) by (auto split: prod.splits sum.splits)
  obtain a where a: "starts_at e w cursor a" "1 \<le> limit"
    "page_of (tv_decimal (vs n)) e w (nat limit) (take (nat limit + 1) (wallet_rows w a u)) = Inr p"
    using history_query_result [OF q] by blast
  have a_eq: "a = after" using starts_at_unique [OF a(1) Suc.prems(3)] .
  let ?rows = "wallet_rows w after u" and ?L = "nat limit" and ?D = "tv_decimal (vs n)"
  have u: "transfers_ok D u" "distinct (map hr_id (history u))" "grows row_kept (history s) (history u)"
    using stepsD_eq [OF history_query_step [OF assms(1)] q] stepsD_eq [OF history_query_steady [OF assms(2)] q]
      Suc.prems(1,2) by (auto simp: transfer_step_def history_step_def)
  note page = page_of_cases [OF a(3) [unfolded a_eq]]
  have items: "hp_items p = map (history_item_of ?D) (take ?L ?rows)" using page by (simp add: min_def)
  have "lists_after w after u items"
  proof (cases "hp_next p")
    case None
    then have "take ?L ?rows = ?rows" using page a(2) by auto
    then show ?thesis
      using Suc.prems(4) q None items last_page [OF u(1,2), of w after ?D] by simp
  next
    case (Some c)
    let ?page = "take ?L ?rows"
    have c: "?page \<noteq> []" "encode_history_cursor e w (position (last ?page)) = Inr c"
      using page Some by (auto simp: min_def)
    obtain more where more: "read_pages vs e client w limit n (Some c) u = Some more" "items = hp_items p @ more"
      using Suc.prems(4) q Some by auto
    obtain b where b: "starts_at e w (Some c) b" using read_pages_start [OF more(1)] by blast
    then have "b = Some (position (last ?page))" using own_cursor [OF c(2)] by blast
    then have "lists_after w (Some (position (last ?page))) u more"
      using Suc.IH [OF u(1,2) b more(1)] by simp
    then show ?thesis
      using further_page [OF u(1,2), of w after ?page "drop ?L ?rows" more ?D] c(1) more(2) items by simp
  qed
  then show ?case using u(3) by (rule lists_after_earlier)
qed

section \<open>Properties\<close>

text \<open>
  C15. Paging is complete. Without writers, a client that follows the cursors from the first page, with
  any page limit from 1 to 100, gets a last page, and all pages together are the items of all rows of
  the wallet, each once, by falling instant and identifier.\<close>

theorem history_pages_enumerate:
  fixes s :: "'w transfer_state"
  assumes "can_sign e key" and "uuid_pattern w" and "owned v w client" and "quiet v"
    and "1 \<le> limit" and "limit \<le> 100" and "distinct (map hr_id (history s))"
    and "\<forall>h\<in>set (history s). row_encodes h"
  shows "\<exists>rows. read_pages (\<lambda>_. v) e client w limit (length (history s) + 1) None s =
      Some (map (history_item_of (tv_decimal v)) rows) \<and>
    set rows = {h \<in> set (history s). hr_wallet h = w} \<and>
    sorted_wrt (\<lambda>a b. position b < position a) rows"
proof (intro exI conjI)
  have "length (wallet_rows w None s) < length (history s) + 1"
    by (simp add: wallet_rows_def less_Suc_eq_le)
  then show "read_pages (\<lambda>_. v) e client w limit (length (history s) + 1) None s =
      Some (map (history_item_of (tv_decimal v)) (wallet_rows w None s))"
    using assms by (intro read_pages_rest) (auto simp: set_wallet_rows starts_at_def)
  show "set (wallet_rows w None s) = {h \<in> set (history s). hr_wallet h = w}"
    by (simp add: set_wallet_rows before_def)
  show "sorted_wrt (\<lambda>a b. position b < position a) (wallet_rows w None s)"
    using descending_wallet_rows [OF assms(7)] by (simp add: descending_def)
qed

definition demo_wallet_id :: uuid where
  "demo_wallet_id = ''11111111-1111-4111-8111-111111111111''"

definition demo_pages :: "unit transfer_state" where
  "demo_pages = (empty_transfers ())\<lparr>history :=
     [\<lparr>hr_id = ''22222222-2222-4222-8222-222222222222'', hr_transfer = ''x1'', hr_wallet = demo_wallet_id,
       hr_role = Sender, hr_counterparty = ''wb'', hr_status = Completed, hr_amount = 100,
       hr_currency = ''USD'', hr_fx_quote = None, hr_occurred = 1000\<rparr>,
      \<lparr>hr_id = ''11111111-1111-4111-8111-111111111111'', hr_transfer = ''x2'', hr_wallet = demo_wallet_id,
       hr_role = Recipient, hr_counterparty = ''wb'', hr_status = Pending, hr_amount = 7,
       hr_currency = ''USD'', hr_fx_quote = None, hr_occurred = 1000\<rparr>]\<rparr>"

lemma demo_owned: "w \<noteq> ''wa'' \<Longrightarrow> owned (demo_tx_env p f) w ''bob'' \<and> quiet (demo_tx_env p f)"
  by (simp add: owned_def quiet_def demo_tx_env_def demo_wallet_def)

theorem history_pages_enumerate_witness:
  "\<exists>rows. read_pages (\<lambda>_. demo_tx_env posted_ok posted_ok) demo_cursor_env ''bob'' demo_wallet_id 1 3 None demo_pages =
      Some (map (history_item_of exact_decimal) rows) \<and> set rows = set (history demo_pages)"
proof -
  have "demo_wallet_id \<noteq> ''wa''" "uuid_pattern demo_wallet_id"
    using demo_uuids by (simp_all add: demo_wallet_id_def)
  moreover have "distinct (map hr_id (history demo_pages))" "\<forall>h\<in>set (history demo_pages). row_encodes h"
    using demo_uuids by (simp_all add: demo_pages_def row_encodes_def valid_instant_def)
  moreover have "length (history demo_pages) + 1 = 3" "tv_decimal (demo_tx_env posted_ok posted_ok) = exact_decimal"
    by (simp_all add: demo_pages_def demo_tx_env_def)
  moreover have "{h \<in> set (history demo_pages). hr_wallet h = demo_wallet_id} = set (history demo_pages)"
    by (auto simp: demo_pages_def)
  ultimately show ?thesis
    using history_pages_enumerate [OF demo_can_sign, of demo_wallet_id "demo_tx_env posted_ok posted_ok" "''bob''" 1 demo_pages]
      demo_owned by auto
qed

text \<open>
  C14. Paging is stable under concurrent writers. From any reachable state, while at every \<open>await\<close> of every
  page other requests of the service run, a client that follows the cursors to the last page never sees
  a transfer twice, and sees every transfer of the wallet that had history rows when it started.\<close>

theorem history_pages_stable:
  assumes "transfer_run D (empty_transfers w0) s" and "\<forall>k. tv_decimal (vs k) = D"
    and "\<forall>k n u. transfer_run D u (tv_others (vs k) n u)"
    and "read_pages vs e client w limit n None s = Some items"
  shows "distinct (map hi_transfer items) \<and>
    (\<forall>h\<in>set (history s). hr_wallet h = w \<longrightarrow> hr_transfer h \<in> hi_transfer ` set items)"
proof -
  have "calm D (vs k)" "steady (vs k)" for k
    using assms(2,3) run_calm [of "vs k" D] unfolding steady_def by (blast intro: transfer_run_history)+
  moreover have "transfers_ok D s" using assms(1) by (rule transfer_run_ok)
  moreover have "distinct (map hr_id (history s))"
    using transfer_run_history [OF assms(1)] by (simp add: history_step_def empty_transfers_def)
  ultimately have "lists_after w None s items"
    using assms(4) by (intro read_pages_lists) (auto simp: starts_at_def)
  then show ?thesis by (auto simp: lists_after_def set_wallet_rows before_def)
qed

theorem history_pages_stable_witness:
  "\<exists>items. read_pages (\<lambda>_. demo_tx_env posted_ok posted_ok) demo_cursor_env ''alice'' ''wa'' 50 1 None demo_done =
      Some items \<and> distinct (map hi_transfer items) \<and> ''x1'' \<in> hi_transfer ` set items"
proof -
  let ?vs = "\<lambda>_ :: nat. demo_tx_env posted_ok posted_ok"
  obtain items where items: "read_pages ?vs demo_cursor_env ''alice'' ''wa'' 50 1 None demo_done = Some items"
    by (simp add: history_query_def read_wallet_def account_validation_def upstream_def catch_def bnd_def
        wallet_rows_def before_def page_of_def tx_rows)
  have "\<forall>k. tv_decimal (?vs k) = exact_decimal"
    "\<forall>k n u. transfer_run exact_decimal u (tv_others (?vs k) n u)"
    by (simp_all add: demo_tx_env_def tx_idle)
  then show ?thesis
    using history_pages_stable [OF demo_tx_runs(2) _ _ items] items
    by (auto simp: demo_done_def demo_history_def)
qed

end
