(* ===== verification/HistoryRebuild.thy ===== *)
theory HistoryRebuild
  imports TransferDemo "HOL-Library.Multiset"
begin

text \<open>
  The repair of the history projection
  (services/transaction-service/src/history/history-projection.service.ts and rebuild.ts): for every
  transfer, in batches by identifier, the rows that the transfer calls for are upserted and its other
  rows are deleted. The rows are \<open>expected_rows\<close> of \<open>TransferProofs\<close>.

  The loop has fuel, one unit per batch; it needs one batch more than there are transfers at most.
\<close>

section \<open>Row operations\<close>

definition upsert_history :: "(uuid \<times> uuid \<times> transfer_role \<Rightarrow> uuid) \<Rightarrow> history_row \<Rightarrow> ('w transfer_state, unit) act" where
  "upsert_history ids row s =
     (if key_taken history_key (history_key row) (history s) then
        (case money_column (hr_amount row) of
           None \<Rightarrow> (Inl (DbError DbCheck), s)
         | Some a \<Rightarrow>
             if \<not> history_check (row\<lparr>hr_amount := a\<rparr>) then (Inl (DbError DbCheck), s)
             else (Inr (), s\<lparr>history := update_where (\<lambda>h. history_key h = history_key row)
                     (\<lambda>h. row\<lparr>hr_amount := a, hr_id := hr_id h\<rparr>) (history s)\<rparr>))
      else create_history (row\<lparr>hr_id := ids (history_key row)\<rparr>) s)"

definition delete_history :: "(history_row \<Rightarrow> bool) \<Rightarrow> ('w transfer_state, nat) act" where
  "delete_history P s =
     (Inr (count_where P (history s)), s\<lparr>history := filter (\<lambda>h. \<not> P h) (history s)\<rparr>)"

section \<open>The rebuild\<close>

record rebuild_result =
  rb_scanned :: nat
  rb_written :: nat
  rb_removed :: nat

definition project_transfer ::
  "(uuid \<times> uuid \<times> transfer_role \<Rightarrow> uuid) \<Rightarrow> transfer \<Rightarrow> ('w transfer_state, nat \<times> nat) act" where
  "project_transfer ids t =
     (let rows = expected_rows t in
      if rows = [] then bnd (delete_history (\<lambda>h. hr_transfer h = tr_id t)) (\<lambda>n. ret (0, n))
      else
        bnd (each (upsert_history ids) rows) (\<lambda>_.
        bnd (delete_history (\<lambda>h. hr_transfer h = tr_id t \<and>
               (hr_wallet h, hr_role h) \<notin> set (map (\<lambda>r. (hr_wallet r, hr_role r)) rows))) (\<lambda>n.
        ret (length rows, n))))"

definition next_batch :: "nat \<Rightarrow> uuid option \<Rightarrow> 'w transfer_state \<Rightarrow> transfer list" where
  "next_batch batch_limit after s =
     take batch_limit (sort_key tr_id
       (filter (\<lambda>t. truthy after \<longrightarrow> the after < tr_id t) (transfers s)))"

text \<open>Between the read of a batch and its transaction, and after it, \<open>others\<close> act.\<close>

primrec rebuild_from ::
  "(nat \<Rightarrow> 'w transfer_state \<Rightarrow> 'w transfer_state) \<Rightarrow> (uuid \<times> uuid \<times> transfer_role \<Rightarrow> uuid) \<Rightarrow> nat \<Rightarrow>
     nat \<Rightarrow> uuid option \<Rightarrow> rebuild_result \<Rightarrow> ('w transfer_state, rebuild_result option) act" where
  "rebuild_from others ids batch_limit 0 after result = ret None"
| "rebuild_from others ids batch_limit (Suc n) after result =
     bnd (gets (next_batch batch_limit after)) (\<lambda>batch.
     if batch = [] then ret (Some result)
     else
       bnd (pause (others (2 * n + 1))) (\<lambda>_.
       bnd (transaction (\<lambda>_. True) (each (project_transfer ids) batch)) (\<lambda>counts.
       bnd (pause (others (2 * n))) (\<lambda>_.
       rebuild_from others ids batch_limit n (Some (tr_id (last batch)))
         \<lparr>rb_scanned = rb_scanned result + length batch,
          rb_written = rb_written result + sum_list (map fst counts),
          rb_removed = rb_removed result + sum_list (map snd counts)\<rparr>))))"

text \<open>\<open>batchSize\<close> is \<open>Number(HISTORY_REBUILD_BATCH_SIZE ?? 500)\<close>, when that is finite.\<close>

definition rebuild ::
  "(nat \<Rightarrow> 'w transfer_state \<Rightarrow> 'w transfer_state) \<Rightarrow> (uuid \<times> uuid \<times> transfer_role \<Rightarrow> uuid) \<Rightarrow>
     rat option \<Rightarrow> nat \<Rightarrow> ('w transfer_state, rebuild_result option) act" where
  "rebuild others ids batch_size fuel =
     (case batch_size of
        Some x \<Rightarrow>
          if x = of_int \<lfloor>x\<rfloor> \<and> 1 \<le> x \<and> x \<le> 2000
          then rebuild_from others ids (nat \<lfloor>x\<rfloor>) fuel None \<lparr>rb_scanned = 0, rb_written = 0, rb_removed = 0\<rparr>
          else throw (PlainError ''History rebuild batch size must be between 1 and 2000.'')
      | None \<Rightarrow> throw (PlainError ''History rebuild batch size must be between 1 and 2000.''))"

section \<open>One transfer\<close>

text \<open>
  What the database guarantees of the history table, and identifiers that are new: a row that has the
  identifier generated for a key has that key.
\<close>

definition history_sound :: "(uuid \<times> uuid \<times> transfer_role \<Rightarrow> uuid) \<Rightarrow> 'w transfer_state \<Rightarrow> bool" where
  "history_sound ids s \<longleftrightarrow>
     distinct (map hr_id (history s)) \<and> distinct (map history_key (history s)) \<and> inj ids \<and>
     (\<forall>h\<in>set (history s). \<forall>k. hr_id h = ids k \<longrightarrow> history_key h = k)"

text \<open>A row that fits its columns and passes the checks.\<close>

definition writable :: "'w transfer_state \<Rightarrow> history_row \<Rightarrow> bool" where
  "writable s r \<longleftrightarrow>
     money_column (hr_amount r) = Some (hr_amount r) \<and> history_check r \<and> hr_id r = [] \<and>
     hr_transfer r \<in> tr_id ` set (transfers s)"

definition outside_keys :: "(uuid \<times> uuid \<times> transfer_role) set \<Rightarrow> history_row list \<Rightarrow> history_row list" where
  "outside_keys K rows = filter (\<lambda>h. history_key h \<notin> K) rows"

definition upserted :: "history_row list \<Rightarrow> 'w transfer_state \<Rightarrow> 'w transfer_state \<Rightarrow> bool" where
  "upserted rows s t \<longleftrightarrow>
     t = s\<lparr>history := history t\<rparr> \<and>
     history_key ` set (history t) = history_key ` set (history s) \<union> history_key ` set rows \<and>
     outside_keys (history_key ` set rows) (history t) = outside_keys (history_key ` set rows) (history s) \<and>
     (\<forall>h\<in>set (history t). \<forall>r\<in>set rows. history_key h = history_key r \<longrightarrow> anonymous h = r)"

lemma history_key_simps [simp]:
  "history_key (h\<lparr>hr_id := i\<rparr>) = history_key h" "history_key (h\<lparr>hr_amount := a\<rparr>) = history_key h"
  "history_key (anonymous h) = history_key h"
  by (simp_all add: history_key_def anonymous_def)

lemma history_soundI:
  "distinct (map hr_id (history s)) \<Longrightarrow> distinct (map history_key (history s)) \<Longrightarrow> inj ids \<Longrightarrow>
     (\<And>h k. h \<in> set (history s) \<Longrightarrow> hr_id h = ids k \<Longrightarrow> history_key h = k) \<Longrightarrow> history_sound ids s"
  unfolding history_sound_def by blast

lemma history_soundD:
  assumes "history_sound ids s"
  shows "distinct (map hr_id (history s))" "distinct (map history_key (history s))" "inj ids"
    and "h \<in> set (history s) \<Longrightarrow> hr_id h = ids k \<Longrightarrow> history_key h = k"
  using assms unfolding history_sound_def by blast+

lemma outside_update:
  "(\<And>h. P h \<Longrightarrow> history_key h \<in> K) \<Longrightarrow> (\<And>h. P h \<Longrightarrow> history_key (f h) \<in> K) \<Longrightarrow>
     outside_keys K (update_where P f rows) = outside_keys K rows"
  by (induction rows) (auto simp: outside_keys_def update_where_def)

lemma upsert_effect:
  assumes "history_sound ids s" and "writable s r"
  obtains t where "upsert_history ids r s = (Inr (), t)" and "history_sound ids t" and "upserted [r] s t"
proof (cases "key_taken history_key (history_key r) (history s)")
  case True
  let ?rows = "update_where (\<lambda>h. history_key h = history_key r) (\<lambda>h. r\<lparr>hr_id := hr_id h\<rparr>) (history s)"
  let ?t = "s\<lparr>history := ?rows\<rparr>"
  have keys: "map history_key ?rows = map history_key (history s)" "map hr_id ?rows = map hr_id (history s)"
    by (rule map_update_where; simp)+
  have row: "h \<in> set (history s) \<and> history_key h \<noteq> history_key r \<or>
      (\<exists>q\<in>set (history s). history_key q = history_key r \<and> h = r\<lparr>hr_id := hr_id q\<rparr>)" if "h \<in> set ?rows" for h
    using that by (auto simp: update_where_def split: if_splits)
  have "upsert_history ids r s = (Inr (), ?t)"
    using assms(2) True by (simp add: upsert_history_def writable_def)
  moreover have "history_sound ids ?t"
  proof (rule history_soundI)
    fix h k
    assume "h \<in> set (history ?t)" and h: "hr_id h = ids k"
    then have "h \<in> set ?rows" by simp
    from row [OF this] obtain q where q: "q \<in> set (history s)" "hr_id q = hr_id h" "history_key q = history_key h"
      by fastforce
    show "history_key h = k" using history_soundD(4) [OF assms(1) q(1), of k] h q(2,3) by simp
  qed (use keys history_soundD [OF assms(1)] in simp_all)
  moreover have "upserted [r] s ?t"
    unfolding upserted_def
  proof (intro conjI ballI impI)
    have "history_key r \<in> history_key ` set (history s)" using True by (simp add: key_taken_def)
    moreover have "history_key ` set ?rows = history_key ` set (history s)"
      using arg_cong [OF keys(1), of set] by simp
    ultimately show "history_key ` set (history ?t) = history_key ` set (history s) \<union> history_key ` set [r]"
      by (simp add: insert_absorb)
    show "outside_keys (history_key ` set [r]) (history ?t) = outside_keys (history_key ` set [r]) (history s)"
      using outside_update [of "\<lambda>h. history_key h = history_key r" "{history_key r}"] by simp
    fix h q
    assume "h \<in> set (history ?t)" "q \<in> set [r]" "history_key h = history_key q"
    then have "h \<in> set ?rows" "history_key h = history_key r" "q = r" by simp_all
    then show "anonymous h = q" using row [of h] assms(2) by (auto simp: anonymous_def writable_def)
  qed simp
  ultimately show ?thesis by (rule that)
next
  case False
  let ?r = "r\<lparr>hr_id := ids (history_key r)\<rparr>"
  let ?t = "s\<lparr>history := history s @ [?r]\<rparr>"
  have new: "history_key r \<notin> history_key ` set (history s)" using False by (simp add: key_taken_def)
  have fresh: "ids (history_key r) \<notin> hr_id ` set (history s)"
  proof
    assume "ids (history_key r) \<in> hr_id ` set (history s)"
    then obtain h where "h \<in> set (history s)" "hr_id h = ids (history_key r)" by auto
    then have "history_key h = history_key r" using history_soundD(4) [OF assms(1), of h] by blast
    then show False using new \<open>h \<in> set (history s)\<close> by (metis image_eqI)
  qed
  have "upsert_history ids r s = (Inr (), ?t)"
    using assms(2) False fresh
    by (simp add: upsert_history_def create_history_def writable_def key_taken_def history_check_def Let_def)
  moreover have "history_sound ids ?t"
  proof (rule history_soundI)
    fix h k
    assume "h \<in> set (history ?t)" "hr_id h = ids k"
    then show "history_key h = k"
      using history_soundD(4) [OF assms(1), of h k] injD [OF history_soundD(3) [OF assms(1)], of "history_key r" k]
      by auto
  qed (use new fresh history_soundD [OF assms(1)] in simp_all)
  moreover have "upserted [r] s ?t"
  proof -
    have "\<forall>h\<in>set (history s). history_key h \<noteq> history_key r"
      using new by (metis image_eqI)
    then show ?thesis
      using assms(2) unfolding upserted_def by (auto simp: outside_keys_def anonymous_def writable_def)
  qed
  ultimately show ?thesis by (rule that)
qed

lemma outside_insert:
  "outside_keys (insert k K) rows = outside_keys K (outside_keys {k} rows)"
  "outside_keys (insert k K) rows = outside_keys {k} (outside_keys K rows)"
  by (induction rows) (auto simp: outside_keys_def)

lemma upserted_Cons:
  assumes "upserted [r] s u" and "upserted rows u t" and "history_key r \<notin> history_key ` set rows"
  shows "upserted (r # rows) s t"
proof -
  let ?K = "history_key ` set rows"
  have u: "u = s\<lparr>history := history u\<rparr>" "history_key ` set (history u) = insert (history_key r) (history_key ` set (history s))"
    "outside_keys {history_key r} (history u) = outside_keys {history_key r} (history s)"
    "\<forall>h\<in>set (history u). history_key h = history_key r \<longrightarrow> anonymous h = r"
    using assms(1) by (simp_all add: upserted_def)
  have t: "t = u\<lparr>history := history t\<rparr>" "history_key ` set (history t) = history_key ` set (history u) \<union> ?K"
    "outside_keys ?K (history t) = outside_keys ?K (history u)"
    "\<forall>h\<in>set (history t). \<forall>q\<in>set rows. history_key h = history_key q \<longrightarrow> anonymous h = q"
    using assms(2) unfolding upserted_def by blast+
  have "anonymous h = r" if "h \<in> set (history t)" "history_key h = history_key r" for h
  proof -
    have "h \<in> set (outside_keys ?K (history t))" using that assms(3) by (simp add: outside_keys_def)
    then have "h \<in> set (history u)" unfolding t(3) by (simp add: outside_keys_def)
    then show ?thesis using u(4) that(2) by blast
  qed
  moreover have "outside_keys (insert (history_key r) ?K) (history t) = outside_keys (insert (history_key r) ?K) (history s)"
    by (metis outside_insert t(3) u(3))
  moreover have "t = (s\<lparr>history := history u\<rparr>)\<lparr>history := history t\<rparr>"
    by (subst u(1) [symmetric]) (rule t(1))
  then have "t = s\<lparr>history := history t\<rparr>" by simp
  ultimately show ?thesis
    using t(2,4) u(2) unfolding upserted_def by auto
qed

lemma writable_update [simp]: "writable (s\<lparr>history := h\<rparr>) r = writable s r"
  by (simp add: writable_def)

lemma each_upsert:
  "history_sound ids s \<Longrightarrow> \<forall>r\<in>set rows. writable s r \<Longrightarrow> distinct (map history_key rows) \<Longrightarrow>
     \<exists>t. each (upsert_history ids) rows s = (Inr (map (\<lambda>_. ()) rows), t) \<and> history_sound ids t \<and> upserted rows s t"
proof (induction rows arbitrary: s)
  case Nil
  then show ?case by (auto simp: upserted_def outside_keys_def)
next
  case (Cons r rows)
  obtain u where u: "upsert_history ids r s = (Inr (), u)" "history_sound ids u" "upserted [r] s u"
    using upsert_effect Cons.prems(1,2) by (metis list.set_intros(1))
  have same: "u = s\<lparr>history := history u\<rparr>" using u(3) by (simp add: upserted_def)
  have "\<forall>q\<in>set rows. writable u q" using Cons.prems(2) by (subst same) simp
  then obtain t where t: "each (upsert_history ids) rows u = (Inr (map (\<lambda>_. ()) rows), t)"
    "history_sound ids t" "upserted rows u t"
    using Cons.IH [OF u(2)] Cons.prems(3) by auto
  have "upserted (r # rows) s t"
    using upserted_Cons [OF u(3) t(3)] Cons.prems(3) by simp
  then show ?case using u(1) t(1,2) by (simp add: bnd_def)
qed

text \<open>What the projection of one transfer leaves: exactly its rows, and nothing else changed.\<close>

definition repaired :: "uuid \<Rightarrow> history_row list \<Rightarrow> 'w transfer_state \<Rightarrow> 'w transfer_state \<Rightarrow> bool" where
  "repaired i rows s t \<longleftrightarrow>
     t = s\<lparr>history := history t\<rparr> \<and> (\<forall>j. j \<noteq> i \<longrightarrow> history_of j t = history_of j s) \<and>
     mset (map anonymous (history_of i t)) = mset rows"

lemma history_sound_filter:
  assumes "history_sound ids s"
  shows "history_sound ids (s\<lparr>history := filter P (history s)\<rparr>)"
proof (rule history_soundI)
  fix h k
  assume "h \<in> set (history (s\<lparr>history := filter P (history s)\<rparr>))" "hr_id h = ids k"
  then show "history_key h = k" using history_soundD(4) [OF assms, of h k] by simp
qed (use history_soundD(1-3) [OF assms] in \<open>simp_all add: distinct_map_filter\<close>)

lemma delete_history_state: "delete_history P s = (Inr (count_where P (history s)), s\<lparr>history := filter (\<lambda>h. \<not> P h) (history s)\<rparr>)"
  by (simp add: delete_history_def)

lemma history_of_outside:
  fixes s t :: "'w transfer_state"
  assumes "\<forall>k\<in>K. fst k = i" and "outside_keys K (history t) = outside_keys K (history s)" and "j \<noteq> i"
  shows "history_of j t = history_of j s"
proof -
  have "history_of j u = filter (\<lambda>h. hr_transfer h = j) (outside_keys K (history u))" for u :: "'w transfer_state"
    using assms(1,3) by (auto simp: history_of_def outside_keys_def history_key_def intro!: filter_cong)
  then show ?thesis using assms(2) by simp
qed

lemma project_effect:
  assumes "history_sound ids s" and rows: "rows = expected_rows x" and "\<forall>r\<in>set rows. writable s r"
    and "tr_sender x \<noteq> tr_recipient x"
  obtains n t where "project_transfer ids x s = (Inr n, t)" and "history_sound ids t"
    and "repaired (tr_id x) rows s t"
proof (cases "rows = []")
  case True
  let ?t = "s\<lparr>history := filter (\<lambda>h. hr_transfer h \<noteq> tr_id x) (history s)\<rparr>"
  have "project_transfer ids x s = (Inr (0, count_where (\<lambda>h. hr_transfer h = tr_id x) (history s)), ?t)"
    using True by (simp add: project_transfer_def rows bnd_def delete_history_def)
  moreover have "repaired (tr_id x) rows s ?t"
    using True by (auto simp: repaired_def history_of_def filter_empty_conv intro!: filter_cong)
  ultimately show ?thesis using that history_sound_filter [OF assms(1)] by blast
next
  case False
  let ?i = "tr_id x" and ?K = "history_key ` set rows"
  have keys: "distinct (map history_key rows)" "\<forall>k\<in>?K. fst k = ?i"
    using assms(4) by (auto simp: rows expected_rows_def history_key_def)
  obtain u where u: "each (upsert_history ids) rows s = (Inr (map (\<lambda>_. ()) rows), u)" "history_sound ids u"
    "upserted rows s u"
    using each_upsert [OF assms(1,3) keys(1)] by blast
  let ?P = "\<lambda>h. hr_transfer h = ?i \<and> (hr_wallet h, hr_role h) \<notin> set (map (\<lambda>r. (hr_wallet r, hr_role r)) rows)"
  let ?t = "u\<lparr>history := filter (\<lambda>h. \<not> ?P h) (history u)\<rparr>"
  have same: "u = s\<lparr>history := history u\<rparr>" using u(3) by (simp add: upserted_def)
  have in_K: "(hr_wallet h, hr_role h) \<in> set (map (\<lambda>r. (hr_wallet r, hr_role r)) rows) \<longleftrightarrow> history_key h \<in> ?K"
    if "hr_transfer h = ?i" for h
  proof -
    have "\<forall>r\<in>set rows. hr_transfer r = ?i" by (auto simp: rows expected_rows_def)
    then show ?thesis using that by (force simp: history_key_def)
  qed
  let ?H = "history_of ?i ?t"
  have H: "h \<in> set ?H \<longleftrightarrow> h \<in> set (history u) \<and> history_key h \<in> ?K" for h
    using in_K [of h] keys(2) by (auto simp: history_of_def history_key_def)
  have anon: "anonymous h = r" if "h \<in> set (history u)" "r \<in> set rows" "history_key h = history_key r" for h r
    using u(3) that unfolding upserted_def by blast
  have "set (map anonymous ?H) = set rows"
  proof (intro equalityI subsetI)
    fix r
    assume "r \<in> set (map anonymous ?H)"
    then obtain h q where "h \<in> set (history u)" "q \<in> set rows" "history_key h = history_key q" "r = anonymous h"
      using H by auto
    then show "r \<in> set rows" using anon by auto
  next
    fix r
    assume r: "r \<in> set rows"
    then have "history_key r \<in> history_key ` set (history u)" using u(3) by (auto simp: upserted_def)
    then obtain h where h: "h \<in> set (history u)" "history_key h = history_key r" by auto
    then have "h \<in> set ?H" using H r by auto
    then show "r \<in> set (map anonymous ?H)" using anon [OF h(1) r h(2)] by force
  qed
  moreover have "distinct (map history_key ?H)"
    using history_soundD(2) [OF u(2)] by (simp add: history_of_def distinct_map_filter)
  then have "distinct (map history_key (map anonymous ?H))" by (simp add: comp_def)
  then have "distinct (map anonymous ?H)" unfolding distinct_map by blast
  moreover have "distinct rows" using keys(1) by (simp add: distinct_map)
  ultimately have "mset (map anonymous ?H) = mset rows"
    using set_eq_iff_mset_eq_distinct [of "map anonymous ?H" rows] by blast
  moreover have "history_of j ?t = history_of j s" if "j \<noteq> ?i" for j
  proof -
    have "history_of j u = history_of j s"
      using u(3) unfolding upserted_def by (intro history_of_outside [OF keys(2) _ that]) blast
    moreover have "history_of j ?t = history_of j u"
      using that by (auto simp: history_of_def intro!: filter_cong)
    ultimately show ?thesis by simp
  qed
  moreover have "?t = s\<lparr>history := history ?t\<rparr>"
    by (subst same) simp
  ultimately have "repaired ?i rows s ?t" unfolding repaired_def by blast
  moreover have "project_transfer ids x s = (Inr (length rows, count_where ?P (history u)), ?t)"
    using False u(1) by (simp add: project_transfer_def rows [symmetric] Let_def bnd_def delete_history_def)
  ultimately show ?thesis using that history_sound_filter [OF u(2)] by blast
qed

section \<open>All transfers\<close>

text \<open>The rows of every transfer can be written.\<close>

definition projectable :: "'w transfer_state \<Rightarrow> bool" where
  "projectable s \<longleftrightarrow>
     distinct (map tr_id (transfers s)) \<and>
     (\<forall>t\<in>set (transfers s). tr_id t \<noteq> [] \<and> tr_sender t \<noteq> tr_recipient t \<and>
        (\<forall>r\<in>set (expected_rows t). money_column (hr_amount r) = Some (hr_amount r) \<and> history_check r))"

lemma projectable_writable:
  "projectable s \<Longrightarrow> t \<in> set (transfers s) \<Longrightarrow> \<forall>r\<in>set (expected_rows t). writable s r"
  by (auto simp: projectable_def writable_def expected_rows_def)

lemma projectable_history [simp]: "projectable (s\<lparr>history := h\<rparr>) = projectable s"
  by (simp add: projectable_def)

definition all_repaired :: "transfer list \<Rightarrow> 'w transfer_state \<Rightarrow> 'w transfer_state \<Rightarrow> bool" where
  "all_repaired ts s t \<longleftrightarrow>
     t = s\<lparr>history := history t\<rparr> \<and> (\<forall>j. j \<notin> tr_id ` set ts \<longrightarrow> history_of j t = history_of j s) \<and>
     (\<forall>x\<in>set ts. mset (map anonymous (history_of (tr_id x) t)) = mset (expected_rows x))"

lemma only_history_trans:
  assumes "u = s\<lparr>history := history u\<rparr>" and "t = u\<lparr>history := history t\<rparr>"
  shows "t = s\<lparr>history := history t\<rparr>"
proof -
  have "t = (s\<lparr>history := history u\<rparr>)\<lparr>history := history t\<rparr>"
    by (subst assms(1) [symmetric]) (rule assms(2))
  then show ?thesis by simp
qed

lemma all_repaired_append:
  assumes "all_repaired xs s u" and "all_repaired ys u t" and "tr_id ` set xs \<inter> tr_id ` set ys = {}"
  shows "all_repaired (xs @ ys) s t"
  unfolding all_repaired_def
proof (intro conjI allI ballI impI)
  show "t = s\<lparr>history := history t\<rparr>"
    using assms(1,2) unfolding all_repaired_def by (blast intro: only_history_trans)
  show "history_of j t = history_of j s" if "j \<notin> tr_id ` set (xs @ ys)" for j
  proof -
    have "j \<notin> tr_id ` set xs" "j \<notin> tr_id ` set ys" using that by auto
    then have "history_of j u = history_of j s" "history_of j t = history_of j u"
      using assms(1,2) unfolding all_repaired_def by blast+
    then show ?thesis by simp
  qed
  fix x
  assume "x \<in> set (xs @ ys)"
  then consider "x \<in> set ys" | "x \<in> set xs" "tr_id x \<notin> tr_id ` set ys" using assms(3) by auto
  then show "mset (map anonymous (history_of (tr_id x) t)) = mset (expected_rows x)"
    using assms(1,2) by cases (auto simp: all_repaired_def)
qed

lemma project_batch:
  "history_sound ids s \<Longrightarrow> projectable s \<Longrightarrow> set batch \<subseteq> set (transfers s) \<Longrightarrow> distinct (map tr_id batch) \<Longrightarrow>
     \<exists>ns t. each (project_transfer ids) batch s = (Inr ns, t) \<and> history_sound ids t \<and> all_repaired batch s t"
proof (induction batch arbitrary: s)
  case Nil
  then show ?case by (auto simp: all_repaired_def)
next
  case (Cons x batch)
  have x: "x \<in> set (transfers s)" using Cons.prems(3) by simp
  then have "tr_sender x \<noteq> tr_recipient x" using Cons.prems(2) by (simp add: projectable_def)
  then obtain n u where u: "project_transfer ids x s = (Inr n, u)" "history_sound ids u"
    "repaired (tr_id x) (expected_rows x) s u"
    using project_effect [OF Cons.prems(1) refl projectable_writable [OF Cons.prems(2) x]] by blast
  have one: "all_repaired [x] s u" using u(3) by (auto simp: repaired_def all_repaired_def)
  have same: "u = s\<lparr>history := history u\<rparr>" using u(3) by (simp add: repaired_def)
  have "projectable u" "set batch \<subseteq> set (transfers u)"
    using Cons.prems(2,3) by (subst same, simp)+
  then obtain ns t where t: "each (project_transfer ids) batch u = (Inr ns, t)" "history_sound ids t"
    "all_repaired batch u t"
    using Cons.IH [OF u(2)] Cons.prems(4) by auto
  have "all_repaired (x # batch) s t"
    using all_repaired_append [OF one t(3)] Cons.prems(4) by simp
  then show ?case using u(1) t(1,2) by (simp add: bnd_def)
qed

text \<open>The transfers that are left, in the order in which the batches take them.\<close>

definition remaining :: "uuid option \<Rightarrow> 'w transfer_state \<Rightarrow> transfer list" where
  "remaining after s = sort_key tr_id (filter (\<lambda>t. truthy after \<longrightarrow> the after < tr_id t) (transfers s))"

lemma next_batch_remaining: "next_batch n after s = take n (remaining after s)"
  by (simp add: next_batch_def remaining_def)

lemma remaining_history [simp]: "remaining after (s\<lparr>history := h\<rparr>) = remaining after s"
  by (simp add: remaining_def)

lemma set_remaining: "set (remaining after s) = {t \<in> set (transfers s). truthy after \<longrightarrow> the after < tr_id t}"
  by (auto simp: remaining_def)

lemma remaining_ids:
  assumes "projectable s"
  shows "sorted_wrt (<) (map tr_id (remaining after s))"
proof -
  have "distinct (map tr_id (remaining after s))"
    using assms by (simp add: remaining_def projectable_def distinct_map inj_on_def)
  then show ?thesis by (simp add: strict_sorted_iff remaining_def)
qed

lemma sorted_last:
  fixes f :: "'a \<Rightarrow> 'b :: linorder"
  shows "sorted_wrt (<) (map f xs) \<Longrightarrow> x \<in> set xs \<Longrightarrow> f x \<le> f (last xs)"
  by (induction xs) (auto intro: order.strict_implies_order)

lemma remaining_rest:
  assumes "projectable s" and "take n (remaining after s) \<noteq> []"
  shows "remaining (Some (tr_id (last (take n (remaining after s))))) s = drop n (remaining after s)"
proof -
  let ?page = "take n (remaining after s)" and ?rest = "drop n (remaining after s)"
  let ?b = "tr_id (last ?page)"
  have last: "last ?page \<in> set ?page" "last ?page \<in> set (remaining after s)"
    using assms(2) by (meson in_set_takeD last_in_set)+
  then have b: "?b \<noteq> []" using assms(1) by (simp add: set_remaining projectable_def)
  have sorted: "sorted_wrt (<) (map tr_id ?page @ map tr_id ?rest)"
    using remaining_ids [OF assms(1), of after] by (simp flip: map_append)
  have page: "tr_id x \<le> ?b" if "x \<in> set ?page" for x
    using sorted_last [of tr_id ?page x] sorted that by (simp add: sorted_wrt_append)
  have "set (remaining (Some ?b) s) = {t \<in> set (remaining after s). ?b < tr_id t}"
    using b last(2) by (auto simp: set_remaining)
  also have "\<dots> = {t \<in> set ?page \<union> set ?rest. ?b < tr_id t}"
    by (metis append_take_drop_id set_append)
  also have "\<dots> = set ?rest"
    using page sorted last(1) by (auto simp: sorted_wrt_append dest: leD)
  finally have "set (map tr_id (remaining (Some ?b) s)) = set (map tr_id ?rest)"
    and eq: "set (remaining (Some ?b) s) = set ?rest" by simp_all
  then have "map tr_id (remaining (Some ?b) s) = map tr_id ?rest"
    using remaining_ids [OF assms(1)] sorted
    by (intro strict_sorted_equal) (simp_all add: sorted_wrt_append)
  moreover have "inj_on tr_id (set (remaining (Some ?b) s) \<union> set ?rest)"
  proof (rule inj_on_subset)
    show "inj_on tr_id (set (transfers s))" using assms(1) by (simp add: projectable_def distinct_map)
    show "set (remaining (Some ?b) s) \<union> set ?rest \<subseteq> set (transfers s)"
      unfolding eq [symmetric] by (auto simp: set_remaining)
  qed
  ultimately show ?thesis by (simp add: inj_on_map_eq_map)
qed

section \<open>A projection that is right stays\<close>

definition projected :: "'w transfer_state \<Rightarrow> transfer \<Rightarrow> bool" where
  "projected s t \<longleftrightarrow> map anonymous (history_of (tr_id t) s) = expected_rows t"

lemma upsert_same:
  assumes "history_sound ids s" and "writable s (anonymous h)" and "h \<in> set (history s)"
  shows "upsert_history ids (anonymous h) s = (Inr (), s)"
proof -
  have only: "q = h" if "q \<in> set (history s)" "history_key q = history_key h" for q
    using distinct_key [OF history_soundD(2) [OF assms(1)]] assms(3) that by blast
  have "update_where (\<lambda>q. history_key q = history_key h)
      (\<lambda>q. (anonymous h)\<lparr>hr_amount := hr_amount (anonymous h), hr_id := hr_id q\<rparr>) (history s) = history s"
    unfolding update_where_def by (rule map_idI) (auto simp: anonymous_def dest: only)
  then show ?thesis
    using assms(2,3) by (simp add: upsert_history_def writable_def key_taken_def)
qed

lemma each_same: "\<forall>x\<in>set xs. f x s = (Inr (g x), s) \<Longrightarrow> each f xs s = (Inr (map g xs), s)"
  by (induction xs) (auto simp: bnd_def)

lemma project_same:
  assumes "history_sound ids s" and "projectable s" and "t \<in> set (transfers s)" and "projected s t"
  shows "project_transfer ids t s = (Inr (length (expected_rows t), 0), s)"
proof -
  let ?rows = "expected_rows t"
  have rows: "?rows = map anonymous (history_of (tr_id t) s)" using assms(4) by (simp add: projected_def)
  have none: "delete_history P s = (Inr 0, s)" if "\<And>h. h \<in> set (history s) \<Longrightarrow> \<not> P h" for P
    using that by (simp add: delete_history_def count_where_def filter_True filter_False)
  have "upsert_history ids r s = (Inr (), s)" if "r \<in> set ?rows" for r
  proof -
    obtain h where h: "h \<in> set (history s)" "r = anonymous h" using \<open>r \<in> _\<close> by (auto simp: rows history_of_def)
    then show ?thesis
      using upsert_same [OF assms(1) _ h(1)] projectable_writable [OF assms(2,3)] that by simp
  qed
  then have "each (upsert_history ids) ?rows s = (Inr (map (\<lambda>_. ()) ?rows), s)" by (simp add: each_same)
  moreover have "\<not> (hr_transfer h = tr_id t \<and>
      (hr_wallet h, hr_role h) \<notin> set (map (\<lambda>r. (hr_wallet r, hr_role r)) ?rows))" if "h \<in> set (history s)" for h
    using that by (auto simp: rows history_of_def anonymous_def image_iff)
  moreover have "hr_transfer h \<noteq> tr_id t" if "?rows = []" "h \<in> set (history s)" for h
    using that by (auto simp: rows history_of_def filter_empty_conv)
  ultimately show ?thesis
    by (cases "?rows = []") (simp_all add: project_transfer_def Let_def bnd_def none)
qed

section \<open>The loop\<close>

lemma remaining_in: "set (remaining after s) \<subseteq> set (transfers s)"
  by (auto simp: set_remaining)

lemma rebuild_loop:
  assumes "\<And>k s. others k s = s" and "1 \<le> n"
  shows "projectable s \<Longrightarrow> history_sound ids s \<Longrightarrow> length (remaining after s) < fuel \<Longrightarrow>
    \<exists>res t. rebuild_from others ids n fuel after acc s = (Inr (Some res), t) \<and>
      all_repaired (remaining after s) s t \<and>
      rb_scanned res = rb_scanned acc + length (remaining after s) \<and>
      ((\<forall>x\<in>set (transfers s). projected s x) \<longrightarrow> t = s \<and> rb_removed res = rb_removed acc)"
proof (induction fuel arbitrary: after acc s)
  case 0
  then show ?case by simp
next
  case (Suc fuel)
  let ?rem = "remaining after s"
  let ?batch = "take n ?rem"
  show ?case
  proof (cases "?batch = []")
    case True
    then have "?rem = []" using assms(2) by simp
    then show ?thesis by (simp add: next_batch_remaining all_repaired_def)
  next
    case False
    have split: "?rem = ?batch @ drop n ?rem" by simp
    have sub: "set ?batch \<subseteq> set (transfers s)"
      using remaining_in [of after s] set_take_subset [of n ?rem] by blast
    have ids: "distinct (map tr_id ?rem)"
      using remaining_ids [OF Suc.prems(1), of after] by (simp add: strict_sorted_iff)
    then have dist: "distinct (map tr_id ?batch)" "tr_id ` set ?batch \<inter> tr_id ` set (drop n ?rem) = {}"
      using split by (metis distinct_append map_append set_map)+
    obtain ns u where u: "each (project_transfer ids) ?batch s = (Inr ns, u)" "history_sound ids u"
      "all_repaired ?batch s u"
      using project_batch [OF Suc.prems(2,1) sub dist(1)] by blast
    have only: "u = s\<lparr>history := history u\<rparr>" using u(3) by (simp add: all_repaired_def)
    have rest: "remaining (Some (tr_id (last ?batch))) u = drop n ?rem"
      using remaining_rest [OF Suc.prems(1) False] by (subst only) simp
    let ?acc = "\<lparr>rb_scanned = rb_scanned acc + length ?batch,
      rb_written = rb_written acc + sum_list (map fst ns), rb_removed = rb_removed acc + sum_list (map snd ns)\<rparr>"
    have "projectable u" using Suc.prems(1) by (subst only) simp
    moreover have "0 < length ?rem" using False by auto
    then have "length (drop n ?rem) < fuel"
      using Suc.prems(3) assms(2) length_drop [of n ?rem] by linarith
    ultimately obtain res t where t: "rebuild_from others ids n fuel (Some (tr_id (last ?batch))) ?acc u = (Inr (Some res), t)"
      "all_repaired (drop n ?rem) u t"
      "rb_scanned res = rb_scanned acc + length ?batch + length (drop n ?rem)"
      "(\<forall>x\<in>set (transfers u). projected u x) \<Longrightarrow> t = u \<and> rb_removed res = rb_removed acc + sum_list (map snd ns)"
      using Suc.IH [OF _ u(2), of "Some (tr_id (last ?batch))" ?acc] unfolding rest
      by (auto simp del: length_take length_drop)
    have "rebuild_from others ids n (Suc fuel) after acc s = (Inr (Some res), t)"
      using False u(1) t(1) by (simp add: next_batch_remaining assms(1) transaction_def bnd_def)
    moreover have "all_repaired ?rem s t"
      by (subst split) (rule all_repaired_append [OF u(3) t(2) dist(2)])
    moreover have "length ?batch + length (drop n ?rem) = length ?rem"
      by (metis length_append split)
    then have "rb_scanned res = rb_scanned acc + length ?rem" using t(3) by linarith
    moreover have "t = s \<and> rb_removed res = rb_removed acc" if "\<forall>x\<in>set (transfers s). projected s x"
    proof -
      have "\<forall>x\<in>set ?batch. project_transfer ids x s = (Inr (length (expected_rows x), 0), s)"
        using project_same [OF Suc.prems(2,1)] sub that by blast
      then have "each (project_transfer ids) ?batch s = (Inr (map (\<lambda>x. (length (expected_rows x), 0)) ?batch), s)"
        by (rule each_same)
      then have "u = s" "ns = map (\<lambda>x. (length (expected_rows x), 0)) ?batch" using u(1) by simp_all
      then show ?thesis using t(4) that by (simp add: comp_def)
    qed
    ultimately show ?thesis by blast
  qed
qed

section \<open>Properties\<close>

text \<open>
  C17. A rebuild beside which nothing else writes repairs the projection. From any contents of the history
  table that the database's own constraints allow, and any batch size from 1 to 2000, it ends after scanning
  every transfer once; transfers and idempotency records are untouched, and every transfer has exactly the
  history rows that it calls for. Where the projection was right already, nothing changes and no row is
  removed. The condition is needed: a transfer that completes between the read of its batch and the
  transaction of the batch is left with a stale status (\<open>rebuild_race_leaves_stale_status\<close>).\<close>

theorem rebuild_repairs_projection:
  assumes "projectable s" and "history_sound ids s"
    and "x = of_int \<lfloor>x\<rfloor>" and "1 \<le> x" and "x \<le> 2000"
  shows "\<exists>res t. rebuild (\<lambda>_ s. s) ids (Some x) (length (transfers s) + 1) s = (Inr (Some res), t) \<and>
    transfers t = transfers s \<and> records t = records s \<and> rb_scanned res = length (transfers s) \<and>
    (\<forall>q\<in>set (transfers s). mset (map anonymous (history_of (tr_id q) t)) = mset (expected_rows q)) \<and>
    ((\<forall>q\<in>set (transfers s). projected s q) \<longrightarrow> t = s \<and> rb_removed res = 0)"
proof -
  have all: "remaining None s = sort_key tr_id (transfers s)" by (simp add: remaining_def)
  have "1 \<le> nat \<lfloor>x\<rfloor>" using assms(4) by (simp add: le_nat_iff le_floor_iff)
  then obtain res t where t: "rebuild_from (\<lambda>_ s. s) ids (nat \<lfloor>x\<rfloor>) (length (transfers s) + 1) None
      \<lparr>rb_scanned = 0, rb_written = 0, rb_removed = 0\<rparr> s = (Inr (Some res), t)"
    "all_repaired (remaining None s) s t" "rb_scanned res = length (transfers s)"
    "(\<forall>x\<in>set (transfers s). projected s x) \<longrightarrow> t = s \<and> rb_removed res = 0"
    using rebuild_loop [of "\<lambda>_ s. s" "nat \<lfloor>x\<rfloor>" s ids None "length (transfers s) + 1"
        "\<lparr>rb_scanned = 0, rb_written = 0, rb_removed = 0\<rparr>"] assms(1,2)
    by (auto simp: all)
  have only: "t = s\<lparr>history := history t\<rparr>" using t(2) unfolding all_repaired_def by blast
  have "transfers t = transfers s" "records t = records s" by (subst only, simp)+
  moreover have "rebuild (\<lambda>_ s. s) ids (Some x) (length (transfers s) + 1) s = (Inr (Some res), t)"
    using t(1) assms(3-5) by (simp add: rebuild_def)
  moreover have "\<forall>q\<in>set (transfers s). mset (map anonymous (history_of (tr_id q) t)) = mset (expected_rows q)"
    using t(2) unfolding all_repaired_def all by simp
  ultimately show ?thesis using t(3,4) by blast
qed

text \<open>A table that lost the recipient's row, has a stale status and a row of a foreign wallet.\<close>

definition demo_damaged :: "unit transfer_state" where
  "demo_damaged = demo_done\<lparr>history :=
     [hd (demo_history Pending), (hd (demo_history Pending))\<lparr>hr_id := ''h9'', hr_wallet := ''wz''\<rparr>]\<rparr>"

fun demo_ids :: "uuid \<times> uuid \<times> transfer_role \<Rightarrow> uuid" where
  "demo_ids (t, w, r) =
     (if r = Sender then CHR ''S'' else CHR ''R'') # replicate (length t) CHR ''a'' @ CHR ''b'' # t @ w"

lemma unary_inject:
  "replicate n CHR ''a'' @ CHR ''b'' # x = replicate m CHR ''a'' @ CHR ''b'' # y \<longleftrightarrow> n = m \<and> x = y"
proof (induction n arbitrary: m)
  case 0
  then show ?case by (cases m) auto
next
  case (Suc n)
  then show ?case by (cases m) auto
qed

lemma demo_ids_inj: "inj demo_ids"
proof (rule injI)
  fix a b
  assume eq: "demo_ids a = demo_ids b"
  obtain t w r t' w' r' where ab: "a = (t, w, r)" "b = (t', w', r')" by (cases a, cases b) auto
  have "(r = Sender) = (r' = Sender)" using eq by (auto simp: ab split: if_splits)
  then have "r = r'" by (cases r; cases r') auto
  moreover have "length t = length t' \<and> t @ w = t' @ w'"
    using eq unfolding ab by (simp add: unary_inject)
  ultimately show "a = b" by (auto simp: ab)
qed

lemma demo_expected: "expected_rows demo_done_row = map anonymous (demo_history Completed)"
  by (simp add: expected_rows_def demo_done_row_def demo_row_def demo_history_def anonymous_def)

lemma demo_damaged_facts:
  "transfers demo_damaged = [demo_done_row]" "tr_id demo_done_row = ''x1''" "projectable demo_damaged"
  "history_sound demo_ids demo_damaged"
proof -
  show rows: "transfers demo_damaged = [demo_done_row]" and "tr_id demo_done_row = ''x1''"
    by (simp_all add: demo_damaged_def demo_done_def demo_done_row_def demo_row_def)
  then show "projectable demo_damaged"
    unfolding projectable_def rows demo_expected
    by (simp add: demo_done_row_def demo_row_def expected_rows_def history_check_def is_currency_def
        upper_letter_def money_column_exact has_places_def)
  show "history_sound demo_ids demo_damaged"
    by (rule history_soundI)
      (auto simp: demo_damaged_def demo_history_def history_key_def demo_ids_inj split: if_splits)
qed

theorem rebuild_repairs_projection_witness:
  "\<exists>res t. rebuild (\<lambda>_ s. s) demo_ids (Some 500) 2 demo_damaged = (Inr (Some res), t) \<and>
    mset (map anonymous (history_of ''x1'' t)) = mset (map anonymous (demo_history Completed))"
proof -
  have two: "length (transfers demo_damaged) + 1 = 2" by (simp add: demo_damaged_facts)
  have x: "(500 :: rat) = of_int \<lfloor>500 :: rat\<rfloor>" "1 \<le> (500 :: rat)" "(500 :: rat) \<le> 2000" by simp_all
  show ?thesis
    using rebuild_repairs_projection [OF demo_damaged_facts(3,4) x, unfolded two]
    unfolding demo_damaged_facts(1) by (auto simp: demo_damaged_facts(2) demo_expected)
qed

section \<open>A rebuild beside a running service\<close>

text \<open>
  The batch is read outside the transaction that writes its rows. A transfer that completes in between
  is projected back to the status that the batch saw: the repair leaves a wrong row behind.
\<close>

theorem rebuild_race_leaves_stale_status:
  "\<exists>others res t. (\<forall>k. transfer_run exact_decimal demo_open (others k demo_open)) \<and>
     rebuild others demo_ids (Some 500) 2 demo_open = (Inr (Some res), t) \<and>
     (\<exists>q\<in>set (transfers t). tr_status q = Completed \<and>
        (\<forall>h\<in>set (history_of (tr_id q) t). hr_status h = Processing))"
proof -
  let ?others = "\<lambda>(k::nat) s. if k = 3 then demo_done else s"
  have "\<forall>k. transfer_run exact_decimal demo_open (?others k demo_open)"
    using demo_reconcile_run by (auto intro: tx_idle)
  moreover have "\<exists>res. rebuild ?others demo_ids (Some 500) 2 demo_open =
      (Inr (Some res), demo_done\<lparr>history := demo_history Processing\<rparr>)"
  proof -
    have "next_batch 500 None demo_open = [demo_row]" "tr_id demo_row = ''x1''"
      "next_batch 500 (Some ''x1'') (demo_done\<lparr>history := demo_history Processing\<rparr>) = []"
      by (simp_all add: next_batch_def demo_open_def demo_done_def demo_done_row_def demo_row_def)
    moreover have "project_transfer demo_ids demo_row demo_done =
        (Inr (2, 0), demo_done\<lparr>history := demo_history Processing\<rparr>)"
      by (simp add: demo_done_def demo_row_def demo_history_def bnd_def project_transfer_def expected_rows_def
          upsert_history_def key_taken_def history_key_def money_column_exact has_places_def history_check_def
          is_currency_def upper_letter_def update_where_def delete_history_def count_where_def Let_def)
    ultimately show ?thesis
      by (simp add: rebuild_def numeral_2_eq_2 transaction_def bnd_def)
  qed
  moreover have "demo_done_row \<in> set (transfers (demo_done\<lparr>history := demo_history Processing\<rparr>))"
    "tr_status demo_done_row = Completed"
    "\<forall>h\<in>set (history_of (tr_id demo_done_row) (demo_done\<lparr>history := demo_history Processing\<rparr>)). hr_status h = Processing"
    by (auto simp: demo_done_def demo_done_row_def demo_history_def history_of_def)
  ultimately show ?thesis by (intro exI [of _ ?others]) blast
qed

end
