(* ===== verification/AuditMetadata.thy ===== *)
theory AuditMetadata
  imports JsonText FxQuotes "HOL-Library.Multiset"
begin

text \<open>
  The metadata of audit events (services/admin-service/src/audit/audit.service.ts, from
  \<open>sanitizeMetadata\<close> on, and src/common/redaction.ts): what is accepted, how it is put in canonical
  order, how it is printed for the hash, and what a JSONB column gives back of it.

  A JavaScript number is represented by the rational that its shortest decimal denotes, so that
  \<open>number_text\<close> is the language's \<open>Number::toString\<close>. The length of a string is counted in UTF-16
  units of its UTF-8 bytes. Objects are their own enumerable keys with the values, in order; the
  sanitiser refuses every key that starts with a digit, and JavaScript keeps the others in the order
  in which they were added.
\<close>

section \<open>Keys\<close>

text \<open>\<open>SAFE_METADATA_KEY\<close>, \<open>^[A-Za-z][A-Za-z0-9_.-]{0,63}$\<close>.\<close>

definition safe_metadata_key :: "string \<Rightarrow> bool" where
  "safe_metadata_key k \<longleftrightarrow>
     k \<noteq> [] \<and> is_alnum (hd k) \<and> \<not> is_digit (hd k) \<and> length k \<le> 64 \<and>
     list_all (\<lambda>c. is_alnum c \<or> c \<in> set ''_.-'') (tl k)"

definition lower_char :: "char \<Rightarrow> char" where
  "lower_char c = (if upper_letter c then char_of ((of_char c :: nat) + 32) else c)"

primrec has_suffix_with :: "(string \<Rightarrow> bool) \<Rightarrow> string \<Rightarrow> bool" where
  "has_suffix_with P [] = P []"
| "has_suffix_with P (c # r) = (P (c # r) \<or> has_suffix_with P r)"

definition starts :: "string \<Rightarrow> string \<Rightarrow> bool" where
  "starts w t \<longleftrightarrow> take (length w) t = w"

text \<open>\<open>legal.?name\<close>: between the words at most one UTF-16 unit that does not end a line.\<close>

definition legal_name :: "string \<Rightarrow> bool" where
  "legal_name t \<longleftrightarrow>
     starts ''legal'' t \<and>
     list_ex (\<lambda>i. starts ''name'' (drop (5 + i) t) \<and>
       (i = 0 \<or> utf16_units (take i (drop 5 t)) = 1 \<and>
        take i (drop 5 t) \<notin> {[CHR 0x0A], [CHR 0x0D], [CHR 0xE2, CHR 0x80, CHR 0xA8], [CHR 0xE2, CHR 0x80, CHR 0xA9]}))
       [0, 1, 2, 3]"

definition denied_words :: "string list" where
  "denied_words =
     [''authorization'', ''cookie'', ''token'', ''password'', ''secret'', ''card'', ''kek'', ''dek'',
      ''plaintext'', ''email'', ''phone'', ''address'', ''government'', ''tax'', ''identity'']"

definition denied_metadata_key :: "string \<Rightarrow> bool" where
  "denied_metadata_key k \<longleftrightarrow>
     has_suffix_with (\<lambda>t. list_ex (\<lambda>w. starts w t) denied_words \<or> legal_name t) (map lower_char k)"

section \<open>Sanitising\<close>

definition rejected_metadata :: failure where
  "rejected_metadata =
     http_failure 400 ''AUDIT_METADATA_REJECTED'' ''Audit metadata contains a disallowed key or value.''"

text \<open>\<open>Number.isFinite\<close> of the double nearest to a number of a text.\<close>

definition finite_number :: "rat \<Rightarrow> bool" where
  "finite_number q \<longleftrightarrow> \<bar>q\<bar> < 2 ^ 1024 - 2 ^ 970"

text \<open>Sizes of the parts of a value, for the termination of the functions below.\<close>

lemma member_size [termination_simp]:
  "(k, x) \<in> set ms \<Longrightarrow> size x \<le> size_list (size_prod (\<lambda>_. 0) size) ms"
  by (induction ms) auto

lemma element_size [termination_simp]: "x \<in> set xs \<Longrightarrow> size x \<le> size_list size (xs :: json list)"
  by (induction xs) auto

text \<open>\<open>None\<close> stands for the throw of \<open>rejectedMetadata()\<close>, the only failure of both functions.\<close>

function sanitize_value :: "nat \<Rightarrow> json \<Rightarrow> json option"
  and sanitize_object :: "nat \<Rightarrow> (string \<times> json) list \<Rightarrow> (string \<times> json) list option"
where
  "sanitize_value d v =
     (if 4 < d then None
      else case v of
        JNull \<Rightarrow> Some v
      | JBool b \<Rightarrow> Some v
      | JNum q \<Rightarrow> if finite_number q then Some v else None
      | JStr t \<Rightarrow> if utf16_units t \<le> 256 then Some v else None
      | JArr xs \<Rightarrow> if length xs \<le> 20 then map_option JArr (those (map (sanitize_value (d + 1)) xs)) else None
      | JObj ms \<Rightarrow> map_option JObj (sanitize_object d ms))"
| "sanitize_object d ms =
     (if 4 < d \<or> 40 < length ms then None
      else those (map (\<lambda>(k, v).
        if \<not> safe_metadata_key k \<or> denied_metadata_key k then None
        else map_option (Pair k) (sanitize_value (d + 1) v)) (sort_key fst ms)))"
  by pat_completeness auto

termination
  by (relation "measure (case_sum (\<lambda>(d, v). 2 * size v) (\<lambda>(d, ms). 2 * size_list (size_prod (\<lambda>_. 0) size) ms + 1))")
    (auto simp: less_Suc_eq_le dest: member_size element_size)

declare sanitize_value.simps [simp del] sanitize_object.simps [simp del]

definition sanitize_metadata :: "(string \<times> json) list \<Rightarrow> failure + (string \<times> json) list" where
  "sanitize_metadata ms =
     (case sanitize_object 0 ms of None \<Rightarrow> Inl rejected_metadata | Some r \<Rightarrow> Inr r)"

section \<open>Canonical order\<close>

text \<open>
  \<open>sortObject\<close>. The elements of an array that are objects are sorted; an array within an array is
  taken as it is.
\<close>

function sort_value :: "json \<Rightarrow> json"
  and sort_object :: "(string \<times> json) list \<Rightarrow> (string \<times> json) list"
where
  "sort_value v =
     (case v of
        JObj ms \<Rightarrow> JObj (sort_object ms)
      | JArr xs \<Rightarrow> JArr (map (\<lambda>x. case x of JObj ms \<Rightarrow> JObj (sort_object ms) | _ \<Rightarrow> x) xs)
      | _ \<Rightarrow> v)"
| "sort_object ms = map (\<lambda>(k, v). (k, sort_value v)) (sort_key fst ms)"
  by pat_completeness auto

termination
  by (relation "measure (case_sum (\<lambda>v. 2 * size v) (\<lambda>ms. 2 * size_list (size_prod (\<lambda>_. 0) size) ms + 1))")
    (auto simp: less_Suc_eq_le dest!: member_size element_size)

declare sort_value.simps [simp del] sort_object.simps [simp del]

section \<open>Text\<close>

fun places_from :: "nat \<Rightarrow> rat \<Rightarrow> nat \<Rightarrow> nat" where
  "places_from 0 q p = p"
| "places_from (Suc n) q p =
     (if q * 10 ^ p = of_int \<lfloor>q * 10 ^ p\<rfloor> then p else places_from n q (Suc p))"

fun drop_zeros :: "nat \<Rightarrow> nat \<Rightarrow> nat \<times> nat" where
  "drop_zeros n e = (if n = 0 \<or> n mod 10 \<noteq> 0 then (n, e) else drop_zeros (n div 10) (e + 1))"

declare drop_zeros.simps [simp del]

text \<open>
  \<open>Number::toString\<close>: with \<open>k\<close> significant digits and the decimal point after \<open>n\<close> of them. Doubles
  have at most 1100 places.
\<close>

definition positive_text :: "rat \<Rightarrow> string" where
  "positive_text q =
     (let p = places_from 1100 q 0;
          (m, e) = drop_zeros (nat \<lfloor>q * 10 ^ p\<rfloor>) 0;
          ds = nat_text m; k = int (length ds); n = k + int e - int p
      in if k \<le> n \<and> n \<le> 21 then ds @ replicate (nat (n - k)) CHR ''0''
         else if 0 < n \<and> n \<le> 21 then take (nat n) ds @ ''.'' @ drop (nat n) ds
         else if - 6 < n \<and> n \<le> 0 then ''0.'' @ replicate (nat (- n)) CHR ''0'' @ ds
         else take 1 ds @ (if k = 1 then [] else CHR ''.'' # drop 1 ds) @ ''e'' @
              (if 0 < n then ''+'' else ''-'') @ nat_text (nat \<bar>n - 1\<bar>))"

definition number_text :: "rat \<Rightarrow> string" where
  "number_text q =
     (if q = 0 then ''0'' else if q < 0 then CHR ''-'' # positive_text (- q) else positive_text q)"

fun with_commas :: "string list \<Rightarrow> string" where
  "with_commas [] = []"
| "with_commas [t] = t"
| "with_commas (t # u # ts) = t @ CHR '','' # with_commas (u # ts)"

text \<open>\<open>JSON.stringify\<close>.\<close>

fun json_text :: "json \<Rightarrow> string" where
  "json_text JNull = ''null''"
| "json_text (JBool b) = (if b then ''true'' else ''false'')"
| "json_text (JNum q) = (if finite_number q then number_text q else ''null'')"
| "json_text (JStr t) = json_quote t"
| "json_text (JArr xs) = CHR ''['' # with_commas (map json_text xs) @ '']''"
| "json_text (JObj ms) =
     CHR ''{'' # with_commas (map (\<lambda>(k, v). json_quote k @ CHR '':'' # json_text v) ms) @ ''}''"

definition canonical_metadata :: "(string \<times> json) list \<Rightarrow> string" where
  "canonical_metadata ms = json_text (JObj (sort_object ms))"

section \<open>The column\<close>

text \<open>
  What a JSONB column gives back: PostgreSQL orders the keys of an object, at every level, by their
  length and then by their bytes, and refuses the character U+0000.
\<close>

fun jsonb :: "json \<Rightarrow> json" where
  "jsonb (JArr xs) = JArr (map jsonb xs)"
| "jsonb (JObj ms) =
     JObj (sort_key (\<lambda>m. length (fst m)) (sort_key fst (map (\<lambda>(k, v). (k, jsonb v)) ms)))"
| "jsonb v = v"

fun has_nul :: "json \<Rightarrow> bool" where
  "has_nul (JStr t) = (CHR 0x00 \<in> set t)"
| "has_nul (JArr xs) = list_ex has_nul xs"
| "has_nul (JObj ms) = list_ex (\<lambda>(k, v). CHR 0x00 \<in> set k \<or> has_nul v) ms"
| "has_nul _ = False"

text \<open>\<open>asMetadata\<close>.\<close>

definition as_metadata :: "json \<Rightarrow> (string \<times> json) list" where
  "as_metadata v = (case v of JObj ms \<Rightarrow> ms | _ \<Rightarrow> [])"

section \<open>Redaction of log records\<close>

fun redact_sensitive :: "json \<Rightarrow> json" where
  "redact_sensitive (JArr xs) = JArr (map redact_sensitive xs)"
| "redact_sensitive (JObj ms) =
     JObj (map (\<lambda>(k, v). (k, if denied_metadata_key k then JStr ''[REDACTED]'' else redact_sensitive v)) ms)"
| "redact_sensitive v = v"

section \<open>What the sanitiser accepts\<close>

lemma those_map: "those (map f xs) = Some ys \<longleftrightarrow> list_all2 (\<lambda>x y. f x = Some y) xs ys"
proof (induction xs arbitrary: ys)
  case (Cons x xs)
  show ?case by (cases ys) (auto simp: Cons.IH split: option.splits)
qed auto

text \<open>A value below \<open>d\<close> objects and arrays that follows the rules at every level.\<close>

fun clean_value :: "nat \<Rightarrow> json \<Rightarrow> bool" where
  "clean_value d (JNum q) = (d \<le> 4 \<and> finite_number q)"
| "clean_value d (JStr t) = (d \<le> 4 \<and> utf16_units t \<le> 256)"
| "clean_value d (JArr xs) = (d \<le> 4 \<and> length xs \<le> 20 \<and> list_all (clean_value (d + 1)) xs)"
| "clean_value d (JObj ms) = (d \<le> 4 \<and> length ms \<le> 40 \<and> distinct (map fst ms) \<and>
     list_all (\<lambda>(k, v). safe_metadata_key k \<and> \<not> denied_metadata_key k \<and> clean_value (d + 1) v) ms)"
| "clean_value d v = (d \<le> 4)"

text \<open>No key occurs twice in an object: what \<open>JSON.parse\<close> gives.\<close>

fun keys_distinct :: "json \<Rightarrow> bool" where
  "keys_distinct (JArr xs) = list_all keys_distinct xs"
| "keys_distinct (JObj ms) = (distinct (map fst ms) \<and> list_all (\<lambda>(k, v). keys_distinct v) ms)"
| "keys_distinct v = True"

lemma distinct_sort_key: "distinct (map f (sort_key f xs)) = distinct (map f xs)"
  by (metis mset_eq_imp_distinct_iff mset_map mset_sort)

lemma keys_of_those:
  "list_all2 (\<lambda>x y. (case x of (k, v) \<Rightarrow> if P k then None else map_option (Pair k) (g v)) = Some y) xs ys \<Longrightarrow>
     map fst ys = map fst xs"
  by (induction rule: list_all2_induct) (auto split: if_splits)

lemma sanitized_clean:
  "sanitize_value d v = Some w \<Longrightarrow> keys_distinct v \<Longrightarrow> clean_value d w"
  "sanitize_object d ms = Some r \<Longrightarrow> keys_distinct (JObj ms) \<Longrightarrow> clean_value d (JObj r)"
proof (induction d v and d ms arbitrary: w and r rule: sanitize_value_sanitize_object.induct)
  case (1 d v)
  have d: "\<not> 4 < d" using 1(3) by (auto simp: sanitize_value.simps [of d])
  show ?case
  proof (cases v)
    case (JArr xs)
    then obtain ys where xs: "length xs \<le> 20" "w = JArr ys" "those (map (sanitize_value (d + 1)) xs) = Some ys"
      using 1(3) d by (auto simp: sanitize_value.simps [of d] split: if_splits)
    have ys: "list_all2 (\<lambda>x y. sanitize_value (d + 1) x = Some y) xs ys"
      using xs(3) by (simp add: those_map)
    have "clean_value (d + 1) y" if y: "y \<in> set ys" for y
    proof -
      obtain x where x: "x \<in> set xs" "sanitize_value (d + 1) x = Some y"
        using list_all2_right [OF ys y] by blast
      then show ?thesis using 1(1) [OF d JArr xs(1) x(1) x(2)] 1(4) JArr by (auto simp: list_all_iff)
    qed
    then show ?thesis using xs d list_all2_lengthD [OF ys] by (simp add: list_all_iff)
  next
    case (JObj ms)
    then show ?thesis using 1(2) [OF d JObj] 1(3,4) d by (auto simp: sanitize_value.simps [of d])
  qed (use 1(3) d in \<open>auto simp: sanitize_value.simps [of d] split: if_splits\<close>)
next
  case (2 d ms)
  let ?f = "\<lambda>(k, v). if \<not> safe_metadata_key k \<or> denied_metadata_key k then None
    else map_option (Pair k) (sanitize_value (d + 1) v)"
  have d: "\<not> (4 < d \<or> 40 < length ms)" and r: "list_all2 (\<lambda>x y. ?f x = Some y) (sort_key fst ms) r"
    using 2(2) by (auto simp: sanitize_object.simps [of d] those_map split: if_splits)
  have "safe_metadata_key k \<and> \<not> denied_metadata_key k \<and> clean_value (d + 1) y" if ky: "(k, y) \<in> set r" for k y
  proof -
    obtain m where m: "m \<in> set (sort_key fst ms)" "?f m = Some (k, y)" using list_all2_right [OF r ky] by blast
    obtain k' x where kx: "m = (k', x)" by fastforce
    have k: "\<not> (\<not> safe_metadata_key k' \<or> denied_metadata_key k')" "k' = k" "sanitize_value (d + 1) x = Some y"
      using m(2) kx by (auto split: if_splits)
    have "keys_distinct x" using 2(3) m(1) kx by (auto simp: list_all_iff)
    then show ?thesis using 2(1) [OF d m(1) kx [symmetric] k(1) k(3)] k kx by auto
  qed
  moreover have "map fst r = map fst (sort_key fst ms)" using r by (rule keys_of_those)
  then have "distinct (map fst r)" using 2(3) distinct_sort_key [of fst ms] by simp
  moreover have "length r = length ms" using list_all2_lengthD [OF r] by simp
  ultimately show ?case using d by (auto simp: list_all_iff)
qed

lemma those_None: "those (map f xs) = None \<longleftrightarrow> (\<exists>x\<in>set xs. f x = None)"
  by (induction xs) (auto split: option.splits)

lemma sanitized_None:
  "keys_distinct v \<Longrightarrow> sanitize_value d v = None \<longleftrightarrow> \<not> clean_value d v"
  "keys_distinct (JObj ms) \<Longrightarrow> sanitize_object d ms = None \<longleftrightarrow> \<not> clean_value d (JObj ms)"
proof (induction d v and d ms rule: sanitize_value_sanitize_object.induct)
  case (1 d v)
  show ?case
  proof (cases "4 < d")
    case True
    then show ?thesis by (cases v) (simp_all add: sanitize_value.simps [of d])
  next
    case d: False
    show ?thesis
    proof (cases v)
      case (JArr xs)
      have "sanitize_value (d + 1) x = None \<longleftrightarrow> \<not> clean_value (d + 1) x" if "length xs \<le> 20" "x \<in> set xs" for x
        using 1(1) [OF d JArr that] 1(3) JArr that by (simp add: list_all_iff)
      then show ?thesis using d JArr by (auto simp: sanitize_value.simps [of d] those_None list_all_iff)
    next
      case (JObj ms)
      then show ?thesis using 1(2) [OF d JObj] 1(3) d by (auto simp: sanitize_value.simps [of d])
    qed (use d in \<open>auto simp: sanitize_value.simps [of d]\<close>)
  qed
next
  case (2 d ms)
  show ?case
  proof (cases "4 < d \<or> 40 < length ms")
    case True
    then show ?thesis by (auto simp: sanitize_object.simps [of d])
  next
    case d: False
    have member: "sanitize_value (d + 1) x = None \<longleftrightarrow> \<not> clean_value (d + 1) x"
      if m: "(k, x) \<in> set ms" and k: "\<not> (\<not> safe_metadata_key k \<or> denied_metadata_key k)" for k x
    proof -
      have "(k, x) \<in> set (sort_key fst ms)" using m by simp
      moreover have "keys_distinct x" using 2(2) m by (auto simp: list_all_iff)
      ultimately show ?thesis using 2(1) [OF d _ refl k] by blast
    qed
    have "((case m of (k, v) \<Rightarrow> if \<not> safe_metadata_key k \<or> denied_metadata_key k then None
          else map_option (Pair k) (sanitize_value (d + 1) v)) = None) \<longleftrightarrow>
        \<not> (case m of (k, v) \<Rightarrow> safe_metadata_key k \<and> \<not> denied_metadata_key k \<and> clean_value (d + 1) v)"
      if "m \<in> set ms" for m
      using member [of "fst m" "snd m"] that by (cases m) auto
    then have "(\<exists>m\<in>set ms. (case m of (k, v) \<Rightarrow> if \<not> safe_metadata_key k \<or> denied_metadata_key k then None
          else map_option (Pair k) (sanitize_value (d + 1) v)) = None) \<longleftrightarrow>
        (\<exists>m\<in>set ms. \<not> (case m of (k, v) \<Rightarrow> safe_metadata_key k \<and> \<not> denied_metadata_key k \<and> clean_value (d + 1) v))"
      by (rule bex_cong [OF refl])
    then show ?thesis using d 2(2) by (auto simp: sanitize_object.simps [of d] those_None list_all_iff)
  qed
qed

section \<open>How much it accepts\<close>

fun leaves :: "json \<Rightarrow> nat" where
  "leaves (JArr xs) = sum_list (map leaves xs)"
| "leaves (JObj ms) = sum_list (map (\<lambda>(k, v). leaves v) ms)"
| "leaves v = 1"

lemma sum_list_bound: "(\<And>x. x \<in> set xs \<Longrightarrow> f x \<le> (b :: nat)) \<Longrightarrow> sum_list (map f xs) \<le> length xs * b"
  by (induction xs) (auto simp: add_mono)

lemma clean_depth: "clean_value d v \<Longrightarrow> d \<le> 4"
  by (cases v) auto

text \<open>The values below four objects and arrays are scalars or empty.\<close>

lemma leaves_bound: "clean_value d v \<Longrightarrow> leaves v \<le> 40 ^ (4 - d)"
proof (induction v arbitrary: d)
  case (JArr xs)
  have x: "leaves x \<le> 40 ^ (4 - (d + 1))" "d + 1 \<le> 4" if x: "x \<in> set xs" for x
  proof -
    have "clean_value (d + 1) x" using JArr.prems x by (simp add: list_all_iff)
    then show "leaves x \<le> 40 ^ (4 - (d + 1))" "d + 1 \<le> 4" by (rule JArr.IH [OF x], rule clean_depth)
  qed
  show ?case
  proof (cases xs)
    case Nil
    then show ?thesis by simp
  next
    case (Cons a as)
    then have d: "d + 1 \<le> 4" using x(2) [of a] by simp
    have "sum_list (map leaves xs) \<le> length xs * 40 ^ (4 - (d + 1))" using x(1) by (rule sum_list_bound)
    also have "\<dots> \<le> 40 * 40 ^ (4 - (d + 1))" using JArr.prems by (intro mult_right_mono) simp_all
    also have "\<dots> = 40 ^ (4 - d)" using d by (simp add: power_Suc [symmetric] Suc_diff_Suc del: power_Suc)
    finally show ?thesis by simp
  qed
next
  case (JObj ms)
  have x: "leaves x \<le> 40 ^ (4 - (d + 1))" "d + 1 \<le> 4" if x: "(k, x) \<in> set ms" for k x
  proof -
    have "clean_value (d + 1) x" using JObj.prems x by (auto simp: list_all_iff)
    then show "leaves x \<le> 40 ^ (4 - (d + 1))" "d + 1 \<le> 4"
      by (rule JObj.IH [OF x snds.intros, simplified], rule clean_depth)
  qed
  show ?case
  proof (cases ms)
    case Nil
    then show ?thesis by simp
  next
    case (Cons a as)
    then have d: "d + 1 \<le> 4" using x(2) [of "fst a" "snd a"] by simp
    have "sum_list (map (\<lambda>(k, v). leaves v) ms) \<le> length ms * 40 ^ (4 - (d + 1))"
      using x(1) by (intro sum_list_bound) auto
    also have "\<dots> \<le> 40 * 40 ^ (4 - (d + 1))" using JObj.prems by (intro mult_right_mono) simp_all
    also have "\<dots> = 40 ^ (4 - d)" using d by (simp add: power_Suc [symmetric] Suc_diff_Suc del: power_Suc)
    finally show ?thesis by simp
  qed
qed simp_all

section \<open>The column and the canonical order\<close>

lemma mset_jsonb_members:
  "mset (sort_key (\<lambda>m. length (fst m)) (sort_key fst ms)) = mset ms"
  by simp

lemma distinct_map_perm: "mset xs = mset ys \<Longrightarrow> distinct (map f xs) \<longleftrightarrow> distinct (map f ys)"
  by (rule mset_eq_imp_distinct_iff) (simp only: mset_map)

lemma list_all_perm: "mset xs = mset ys \<Longrightarrow> list_all P xs = list_all P ys"
  by (simp add: list_all_iff flip: set_mset_mset)

lemma map_fst_values: "map fst (map (\<lambda>(k, v). (k, f v)) ms) = map fst ms"
  by (induction ms) auto

lemma jsonb_clean: "clean_value d v \<Longrightarrow> clean_value d (jsonb v)"
proof (induction v arbitrary: d)
  case (JObj ms)
  let ?ms = "map (\<lambda>(k, v). (k, jsonb v)) ms"
  have "distinct (map fst ?ms)" unfolding map_fst_values using JObj.prems by simp
  then have "distinct (map fst (sort_key (\<lambda>m. length (fst m)) (sort_key fst ?ms)))"
    by (simp only: distinct_map_perm [OF mset_jsonb_members])
  moreover have "list_all (\<lambda>(k, v). safe_metadata_key k \<and> \<not> denied_metadata_key k \<and> clean_value (d + 1) v) ?ms"
    using JObj by (auto simp: list_all_iff)
  ultimately show ?case using JObj.prems by (auto simp: list_all_iff)
qed (auto simp: list_all_iff)

text \<open>
  The canonical order forgets the order of the column, for values in which no array holds an array
  that has an object inside.
\<close>

fun no_objects :: "json \<Rightarrow> bool" where
  "no_objects (JArr xs) = list_all no_objects xs"
| "no_objects (JObj ms) = False"
| "no_objects v = True"

fun hashable :: "json \<Rightarrow> bool" where
  "hashable (JArr xs) = list_all (\<lambda>x. case x of JArr ys \<Rightarrow> no_objects x | _ \<Rightarrow> hashable x) xs"
| "hashable (JObj ms) = list_all (\<lambda>(k, v). hashable v) ms"
| "hashable v = True"

lemma jsonb_no_objects: "no_objects v \<Longrightarrow> jsonb v = v"
  by (induction v) (auto simp: list_all_iff map_idI)

lemma insort_key_map_values:
  "insort_key fst (k, f v) (map (\<lambda>(k, v). (k, f v)) ms) = map (\<lambda>(k, v). (k, f v)) (insort_key fst (k, v) ms)"
  by (induction ms) auto

lemma sort_key_map_values: "sort_key fst (map (\<lambda>(k, v). (k, f v)) ms) = map (\<lambda>(k, v). (k, f v)) (sort_key fst ms)"
  by (induction ms) (auto simp del: map_eq_conv simp: insort_key_map_values)

lemma sort_key_perm: "mset xs = mset ys \<Longrightarrow> distinct (map f xs) \<Longrightarrow> sort_key f xs = sort_key f ys"
  by (rule sort_key_inj_key_eq) (auto simp: distinct_map)

lemma sort_object_jsonb:
  assumes "distinct (map fst ms)" and "\<And>k v. (k, v) \<in> set ms \<Longrightarrow> sort_value (jsonb v) = sort_value v"
  shows "sort_object (as_metadata (jsonb (JObj ms))) = sort_object ms"
proof -
  let ?ms = "map (\<lambda>(k, v). (k, jsonb v)) ms"
  have "distinct (map fst ?ms)" unfolding map_fst_values by (rule assms(1))
  then have "sort_key fst (sort_key (\<lambda>m. length (fst m)) (sort_key fst ?ms)) = sort_key fst ?ms"
    by (intro sort_key_perm [symmetric]) (simp_all only: mset_jsonb_members)
  also have "\<dots> = map (\<lambda>(k, v). (k, jsonb v)) (sort_key fst ms)" by (rule sort_key_map_values)
  finally show ?thesis
    using assms(2) by (auto simp: as_metadata_def sort_object.simps)
qed

lemma sort_value_JObj [simp]: "sort_value (JObj ms) = JObj (sort_object ms)"
  by (simp add: sort_value.simps)

lemma sort_value_jsonb: "keys_distinct v \<Longrightarrow> hashable v \<Longrightarrow> sort_value (jsonb v) = sort_value v"
proof (induction v)
  case (JArr xs)
  have "(case jsonb x of JObj ms \<Rightarrow> JObj (sort_object ms) | _ \<Rightarrow> jsonb x) =
      (case x of JObj ms \<Rightarrow> JObj (sort_object ms) | _ \<Rightarrow> x)" if x: "x \<in> set xs" for x
  proof (cases x)
    case (JArr ys)
    then have "jsonb x = x" using JArr.prems x by (intro jsonb_no_objects) (auto simp: list_all_iff split: json.splits)
    then show ?thesis by (simp only: \<open>x = JArr ys\<close> json.case)
  next
    case (JObj ms)
    have "keys_distinct x" "case x of JArr ys \<Rightarrow> no_objects x | _ \<Rightarrow> hashable x"
      using JArr.prems x by (simp_all add: list_all_iff)
    then have "keys_distinct x" "hashable x" by (simp_all only: JObj json.case)
    then have "sort_value (jsonb x) = sort_value x" by (rule JArr.IH [OF x])
    then show ?thesis using JObj by simp
  qed simp_all
  then show ?case by (auto simp: sort_value.simps [of "JArr _"])
next
  case (JObj ms)
  have "sort_object (as_metadata (jsonb (JObj ms))) = sort_object ms"
  proof (rule sort_object_jsonb)
    fix k x
    assume m: "(k, x) \<in> set ms"
    then have "keys_distinct x" "hashable x" using JObj.prems by (auto simp: list_all_iff)
    then show "sort_value (jsonb x) = sort_value x" by (rule JObj.IH [OF m snds.intros, simplified])
  qed (use JObj.prems in simp)
  then show ?case by (simp add: sort_value.simps as_metadata_def)
qed simp_all

lemma canonical_metadata_jsonb:
  "keys_distinct (JObj ms) \<Longrightarrow> hashable (JObj ms) \<Longrightarrow>
     canonical_metadata (as_metadata (jsonb (JObj ms))) = canonical_metadata ms"
  unfolding canonical_metadata_def
  by (subst sort_object_jsonb) (auto simp: list_all_iff intro: sort_value_jsonb)

section \<open>Properties\<close>

text \<open>
  C21. The sanitiser accepts exactly the metadata that follow the rules at every level: at most 40 keys
  in an object and 20 elements in an array, strings of at most 256 characters, at most four levels, and
  no key that is unsafe or that names sensitive data. What it returns follows them too, has its keys in
  order and never more than 2560000 scalars; everything else is refused with \<open>AUDIT_METADATA_REJECTED\<close>.
\<close>

theorem audit_metadata_bounded:
  assumes "keys_distinct (JObj ms)"
  shows "case sanitize_metadata ms of
      Inl e \<Rightarrow> \<not> clean_value 0 (JObj ms) \<and> e = rejected_metadata
    | Inr r \<Rightarrow> clean_value 0 (JObj ms) \<and> clean_value 0 (JObj r) \<and> leaves (JObj r) \<le> 2560000 \<and>
        map fst r = map fst (sort_key fst ms)"
proof (cases "sanitize_object 0 ms")
  case None
  then show ?thesis using sanitized_None(2) [OF assms, of 0] by (simp add: sanitize_metadata_def del: clean_value.simps)
next
  case (Some r)
  have "clean_value 0 (JObj r)" using sanitized_clean(2) [OF Some assms] .
  moreover have "leaves (JObj r) \<le> 2560000" using leaves_bound [OF calculation] by (simp del: leaves.simps)
  moreover have "clean_value 0 (JObj ms)" using sanitized_None(2) [OF assms, of 0] Some by (simp del: clean_value.simps)
  moreover have "map fst r = map fst (sort_key fst ms)"
    using Some by (intro keys_of_those) (auto simp: sanitize_object.simps [of 0] those_map split: if_splits)
  ultimately show ?thesis using Some by (simp add: sanitize_metadata_def del: clean_value.simps leaves.simps)
qed

theorem audit_metadata_bounded_witness:
  "sanitize_metadata [(''b'', JNull), (''a'', JStr ''x'')] = Inr [(''a'', JStr ''x''), (''b'', JNull)] \<and>
   sanitize_metadata [(''apiToken'', JNull)] = Inl rejected_metadata \<and>
   clean_value 0 (JObj [(''a'', JStr ''x''), (''b'', JNull)])"
proof -
  have "sanitize_metadata [(''b'', JNull), (''a'', JStr ''x'')] = Inr [(''a'', JStr ''x''), (''b'', JNull)]"
    "sanitize_metadata [(''apiToken'', JNull)] = Inl rejected_metadata"
    by code_simp+
  then show ?thesis using audit_metadata_bounded [of "[(''b'', JNull), (''a'', JStr ''x'')]"] by simp
qed

end
