(* ===== verification/AuditChain.thy ===== *)
theory AuditChain
  imports AuditMetadata IsoTime HttpPlatform
begin

text \<open>
  The audit trail of the admin service (services/admin-service/src/audit and src/auth): streams whose
  records form a hash chain, appended by the other services through an internal route, and read and
  verified by operators, whose own actions are audited too. The tables and their constraints are
  those of prisma/migrations; the trigger that makes \<open>audit_records\<close> append-only is the absence of any
  operation that changes or removes a row.

  SHA-256 is the parameter \<open>av_sha256\<close>, a function from bytes to 32 bytes; \<open>new Date(text)\<close>, which
  accepts more than the standard's own format, is \<open>av_date\<close>. The transaction of an append locks the row of
  its stream and is one atomic step; \<open>av_others\<close> acts at the awaits around it.
\<close>

section \<open>Rows and requests\<close>

record audit_stream =
  as_key :: string
  as_sequence :: int
  as_hash :: string

record audit_record =
  ar_event :: uuid
  ar_stream :: string
  ar_sequence :: int
  ar_action :: string
  ar_entity_type :: string
  ar_entity :: string
  ar_actor :: "string option"
  ar_occurred :: instant
  ar_metadata :: json
  ar_previous :: string
  ar_current :: string

record audit_state =
  audit_streams :: "audit_stream list"
  audit_records :: "audit_record list"

record append_event_dto =
  ae_event :: uuid
  ae_stream :: string
  ae_action :: string
  ae_entity_type :: string
  ae_entity :: string
  ae_actor :: "string option"
  ae_occurred :: string
  ae_metadata :: "(string \<times> json) list option"

record normalized_event =
  ne_event :: uuid
  ne_stream :: string
  ne_action :: string
  ne_entity_type :: string
  ne_entity :: string
  ne_actor :: "string option"
  ne_occurred :: instant
  ne_metadata :: "(string \<times> json) list"

record audit_response =
  rs_event :: uuid
  rs_stream :: string
  rs_sequence :: string
  rs_action :: string
  rs_entity_type :: string
  rs_entity :: string
  rs_actor :: "string option"
  rs_occurred :: string
  rs_metadata :: "(string \<times> json) list"
  rs_previous :: string
  rs_current :: string

record verification =
  vr_stream :: string
  vr_valid :: bool
  vr_checked :: nat
  vr_first_invalid :: "string option"

record audit_env =
  av_sha256 :: "string \<Rightarrow> string"
  av_date :: "string \<Rightarrow> instant option"
  av_others :: "nat \<Rightarrow> audit_state \<Rightarrow> audit_state"
  av_now :: instant
  av_request_id :: string

record audit_http =
  ah_is_uuid :: "string \<Rightarrow> bool"
  ah_is_iso8601 :: "string \<Rightarrow> bool"
  ah_configured :: "string option"
  ah_supplied :: "string option"

text \<open>\<open>SAFE_IDENTIFIER\<close>, \<open>^[A-Za-z0-9][A-Za-z0-9._:@/-]*$\<close>, with the maximal length of its field.\<close>

definition safe_identifier :: "nat \<Rightarrow> string \<Rightarrow> bool" where
  "safe_identifier n t \<longleftrightarrow>
     t \<noteq> [] \<and> is_alnum (hd t) \<and> list_all (\<lambda>c. is_alnum c \<or> c \<in> set ''._:@/-'') (tl t) \<and> length t \<le> n"

definition append_body_ok :: "audit_http \<Rightarrow> append_event_dto \<Rightarrow> bool" where
  "append_body_ok h c \<longleftrightarrow>
     ah_is_uuid h (ae_event c) \<and> safe_identifier 160 (ae_stream c) \<and> safe_identifier 100 (ae_action c) \<and>
     safe_identifier 80 (ae_entity_type c) \<and> safe_identifier 128 (ae_entity c) \<and>
     (case ae_actor c of None \<Rightarrow> True | Some a \<Rightarrow> safe_identifier 128 a) \<and>
     ah_is_iso8601 h (ae_occurred c) \<and>
     (case ae_metadata c of None \<Rightarrow> True | Some ms \<Rightarrow> keys_distinct (JObj ms))"

section \<open>Hashes\<close>

definition hex_text :: "string \<Rightarrow> string" where
  "hex_text bytes =
     concat (map (\<lambda>c. let k = (of_char c :: nat) in [hex_char (k div 16), hex_char (k mod 16)]) bytes)"

definition genesis_hash :: string where
  "genesis_hash = replicate 64 CHR ''0''"

definition domain_tag :: string where
  "domain_tag = ''novapay:audit-chain:v1''"

definition canonical_event :: "normalized_event \<Rightarrow> int \<Rightarrow> string" where
  "canonical_event e n =
     json_text (JObj
       [(''streamKey'', JStr (ne_stream e)), (''sequence'', JStr (nat_text (nat n))),
        (''action'', JStr (ne_action e)), (''entityType'', JStr (ne_entity_type e)),
        (''entityId'', JStr (ne_entity e)), (''actorId'', opt_str (ne_actor e)),
        (''occurredAt'', JStr (iso_text (ne_occurred e))), (''metadata'', JObj (sort_object (ne_metadata e)))])"

text \<open>What is hashed, and \<open>computeAuditHash\<close>.\<close>

definition hashed_text :: "normalized_event \<Rightarrow> int \<Rightarrow> string \<Rightarrow> string" where
  "hashed_text e n previous = domain_tag @ [CHR 0x00] @ previous @ [CHR 0x00] @ canonical_event e n"

definition compute_audit_hash :: "(string \<Rightarrow> string) \<Rightarrow> normalized_event \<Rightarrow> int \<Rightarrow> string \<Rightarrow> string" where
  "compute_audit_hash sha e n previous = hex_text (sha (hashed_text e n previous))"

definition event_of :: "audit_record \<Rightarrow> normalized_event" where
  "event_of r =
     \<lparr>ne_event = ar_event r, ne_stream = ar_stream r, ne_action = ar_action r,
      ne_entity_type = ar_entity_type r, ne_entity = ar_entity r, ne_actor = ar_actor r,
      ne_occurred = ar_occurred r, ne_metadata = as_metadata (ar_metadata r)\<rparr>"

section \<open>Failures\<close>

definition invalid_occurred_at :: failure where
  "invalid_occurred_at = http_failure 400 ''INVALID_OCCURRED_AT'' ''occurredAt is invalid.''"

definition audit_event_reused :: failure where
  "audit_event_reused =
     http_failure 409 ''AUDIT_EVENT_ID_REUSED''
       ''The audit event ID was already used for different canonical data.''"

definition audit_stream_not_found :: failure where
  "audit_stream_not_found = http_failure 404 ''AUDIT_STREAM_NOT_FOUND'' ''Audit stream not found.''"

definition invalid_idempotency_key :: failure where
  "invalid_idempotency_key =
     http_failure 400 ''INVALID_IDEMPOTENCY_KEY''
       ''Idempotency-Key must contain 1 to 128 visible ASCII characters.''"

definition operator_scope_required :: failure where
  "operator_scope_required =
     http_failure 403 ''OPERATOR_SCOPE_REQUIRED'' ''A distinct operator principal is required.''"

section \<open>Row operations\<close>

definition find_stream :: "string \<Rightarrow> audit_state \<Rightarrow> audit_stream option" where
  "find_stream k s = List.find (\<lambda>a. as_key a = k) (audit_streams s)"

definition find_event :: "uuid \<Rightarrow> audit_state \<Rightarrow> audit_record option" where
  "find_event i s = List.find (\<lambda>r. ar_event r = i) (audit_records s)"

definition stream_records :: "string \<Rightarrow> audit_state \<Rightarrow> audit_record list" where
  "stream_records k s = sort_key ar_sequence (filter (\<lambda>r. ar_stream r = k) (audit_records s))"

text \<open>\<open>INSERT ... ON CONFLICT DO NOTHING\<close> with the defaults of the columns.\<close>

definition insert_stream :: "string \<Rightarrow> (audit_state, unit) act" where
  "insert_stream k s =
     (if char_count k > 160 then (Inl (DbError DbCheck), s)
      else if key_taken as_key k (audit_streams s) then (Inr (), s)
      else (Inr (), s\<lparr>audit_streams := audit_streams s @ [\<lparr>as_key = k, as_sequence = 0, as_hash = genesis_hash\<rparr>]\<rparr>))"

definition hash_column :: "string \<Rightarrow> bool" where
  "hash_column t \<longleftrightarrow> length t = 64 \<and> list_all (\<lambda>c. is_digit c \<or> (CHR ''a'' \<le> c \<and> c \<le> CHR ''f'')) t"

definition record_check :: "audit_record \<Rightarrow> bool" where
  "record_check r \<longleftrightarrow>
     0 < ar_sequence r \<and> ar_sequence r < 2 ^ 63 \<and> hash_column (ar_previous r) \<and> hash_column (ar_current r) \<and>
     char_count (ar_action r) \<le> 100 \<and> char_count (ar_entity_type r) \<le> 80 \<and> char_count (ar_entity r) \<le> 128 \<and>
     (case ar_actor r of None \<Rightarrow> True | Some a \<Rightarrow> char_count a \<le> 128) \<and> \<not> has_nul (ar_metadata r)"

definition create_record :: "audit_record \<Rightarrow> (audit_state, audit_record) act" where
  "create_record r s =
     (let row = r\<lparr>ar_metadata := jsonb (ar_metadata r)\<rparr> in
      if \<not> record_check r \<or> \<not> key_taken as_key (ar_stream r) (audit_streams s) then (Inl (DbError DbCheck), s)
      else if key_taken ar_event (ar_event r) (audit_records s) \<or>
              key_taken (\<lambda>q. (ar_stream q, ar_sequence q)) (ar_stream r, ar_sequence r) (audit_records s) \<or>
              key_taken (\<lambda>q. (ar_stream q, ar_current q)) (ar_stream r, ar_current r) (audit_records s)
      then (Inl (DbError P2002), s)
      else (Inr row, s\<lparr>audit_records := audit_records s @ [row]\<rparr>))"

definition update_stream :: "string \<Rightarrow> int \<Rightarrow> string \<Rightarrow> (audit_state, unit) act" where
  "update_stream k n hash s =
     (if \<not> key_taken as_key k (audit_streams s) then (Inl (DbError P2025), s)
      else if n < 0 \<or> \<not> hash_column hash then (Inl (DbError DbCheck), s)
      else (Inr (), s\<lparr>audit_streams := update_where (\<lambda>a. as_key a = k)
                        (\<lambda>a. a\<lparr>as_sequence := n, as_hash := hash\<rparr>) (audit_streams s)\<rparr>))"

section \<open>The service\<close>

definition normalize_event :: "audit_env \<Rightarrow> append_event_dto \<Rightarrow> failure + normalized_event" where
  "normalize_event v c =
     (case av_date v (ae_occurred c) of
        None \<Rightarrow> Inl invalid_occurred_at
      | Some occurred \<Rightarrow>
          (case sanitize_metadata (case ae_metadata c of None \<Rightarrow> [] | Some ms \<Rightarrow> ms) of
             Inl e \<Rightarrow> Inl e
           | Inr ms \<Rightarrow> Inr
               \<lparr>ne_event = ae_event c, ne_stream = ae_stream c, ne_action = ae_action c,
                ne_entity_type = ae_entity_type c, ne_entity = ae_entity c, ne_actor = ae_actor c,
                ne_occurred = occurred, ne_metadata = ms\<rparr>))"

definition audit_response_of :: "audit_record \<Rightarrow> audit_response" where
  "audit_response_of r =
     \<lparr>rs_event = ar_event r, rs_stream = ar_stream r, rs_sequence = nat_text (nat (ar_sequence r)),
      rs_action = ar_action r, rs_entity_type = ar_entity_type r, rs_entity = ar_entity r,
      rs_actor = ar_actor r, rs_occurred = iso_text (ar_occurred r),
      rs_metadata = as_metadata (ar_metadata r), rs_previous = ar_previous r, rs_current = ar_current r\<rparr>"

definition same_event :: "bool \<Rightarrow> audit_record \<Rightarrow> normalized_event \<Rightarrow> bool" where
  "same_event operator_retry r e \<longleftrightarrow>
     ar_stream r = ne_stream e \<and> ar_action r = ne_action e \<and> ar_entity_type r = ne_entity_type e \<and>
     ar_entity r = ne_entity e \<and> ar_actor r = ne_actor e \<and>
     (operator_retry \<or> ar_occurred r = ne_occurred e) \<and>
     canonical_metadata (as_metadata (ar_metadata r)) = canonical_metadata (ne_metadata e)"

definition resolve_existing :: "audit_record \<Rightarrow> normalized_event \<Rightarrow> bool \<Rightarrow> (audit_state, audit_response) act" where
  "resolve_existing r e operator_retry =
     bnd (ensure (same_event operator_retry r e) audit_event_reused) (\<lambda>_. ret (audit_response_of r))"

definition new_record :: "audit_env \<Rightarrow> normalized_event \<Rightarrow> audit_stream \<Rightarrow> audit_record" where
  "new_record v e head =
     \<lparr>ar_event = ne_event e, ar_stream = ne_stream e, ar_sequence = as_sequence head + 1,
      ar_action = ne_action e, ar_entity_type = ne_entity_type e, ar_entity = ne_entity e,
      ar_actor = ne_actor e, ar_occurred = ne_occurred e, ar_metadata = JObj (ne_metadata e),
      ar_previous = as_hash head,
      ar_current = compute_audit_hash (av_sha256 v) e (as_sequence head + 1) (as_hash head)\<rparr>"

definition append_body :: "audit_env \<Rightarrow> normalized_event \<Rightarrow> (audit_state, audit_record) act" where
  "append_body v e =
     bnd (insert_stream (ne_stream e)) (\<lambda>_.
     bnd (gets (find_stream (ne_stream e))) (\<lambda>head.
     bnd (gets (find_event (ne_event e))) (\<lambda>existing.
     case existing of
       Some r \<Rightarrow> ret r
     | None \<Rightarrow>
         (case head of
            None \<Rightarrow> throw (PlainError ''AUDIT_STREAM_LOCK_FAILED'')
          | Some st \<Rightarrow>
              bnd (create_record (new_record v e st)) (\<lambda>created.
              bnd (update_stream (ne_stream e) (as_sequence st + 1) (ar_current (new_record v e st))) (\<lambda>_.
              ret created))))))"

definition append_normalized :: "audit_env \<Rightarrow> normalized_event \<Rightarrow> bool \<Rightarrow> (audit_state, audit_response) act" where
  "append_normalized v e operator_retry =
     bnd (gets (find_event (ne_event e))) (\<lambda>prior.
     case prior of
       Some r \<Rightarrow> resolve_existing r e operator_retry
     | None \<Rightarrow>
         bnd (pause (av_others v 0)) (\<lambda>_.
         catch (bnd (transaction (\<lambda>_. True) (append_body v e)) (\<lambda>r. resolve_existing r e operator_retry))
           (\<lambda>x. if is_unique_violation x
                then bnd (pause (av_others v 1)) (\<lambda>_.
                     bnd (gets (find_event (ne_event e))) (\<lambda>winner.
                     case winner of Some r \<Rightarrow> resolve_existing r e operator_retry | None \<Rightarrow> throw x))
                else throw x)))"

definition append_event :: "audit_env \<Rightarrow> bool \<Rightarrow> append_event_dto \<Rightarrow> (audit_state, audit_response) act" where
  "append_event v operator_retry c =
     (case normalize_event v c of Inl e \<Rightarrow> throw e | Inr n \<Rightarrow> append_normalized v n operator_retry)"

text \<open>The loop of \<open>verify\<close>: records checked, the first invalid sequence, what is expected next.\<close>

record chain_check =
  cc_checked :: nat
  cc_invalid :: "int option"
  cc_expected :: int
  cc_previous :: string

primrec check_chain :: "(string \<Rightarrow> string) \<Rightarrow> audit_record list \<Rightarrow> chain_check \<Rightarrow> chain_check" where
  "check_chain sha [] c = c"
| "check_chain sha (r # rs) c =
     (let c1 = c\<lparr>cc_checked := cc_checked c + 1\<rparr> in
      if ar_sequence r \<noteq> cc_expected c \<or> ar_previous r \<noteq> cc_previous c
      then c1\<lparr>cc_invalid := Some (cc_expected c)\<rparr>
      else if compute_audit_hash sha (event_of r) (ar_sequence r) (cc_previous c) \<noteq> ar_current r
      then c1\<lparr>cc_invalid := Some (ar_sequence r)\<rparr>
      else check_chain sha rs (c1\<lparr>cc_expected := cc_expected c + 1, cc_previous := ar_current r\<rparr>))"

definition chain_start :: chain_check where
  "chain_start = \<lparr>cc_checked = 0, cc_invalid = None, cc_expected = 1, cc_previous = genesis_hash\<rparr>"

definition verification_of :: "(string \<Rightarrow> string) \<Rightarrow> string \<Rightarrow> audit_stream \<Rightarrow> audit_record list \<Rightarrow> verification" where
  "verification_of sha k st rs =
     (let c = check_chain sha rs chain_start;
          invalid =
            (if cc_invalid c = None \<and>
                (as_sequence st \<noteq> cc_expected c - 1 \<or> as_hash st \<noteq> cc_previous c)
             then Some (cc_expected c) else cc_invalid c)
      in \<lparr>vr_stream = k, vr_valid = (invalid = None), vr_checked = cc_checked c,
          vr_first_invalid = map_option (\<lambda>n. nat_text (nat n)) invalid\<rparr>)"

definition verify_stream :: "audit_env \<Rightarrow> string \<Rightarrow> (audit_state, verification) act" where
  "verify_stream v k =
     bnd (gets (find_stream k)) (\<lambda>found.
     case found of
       None \<Rightarrow> throw audit_stream_not_found
     | Some st \<Rightarrow>
         bnd (pause (av_others v 2)) (\<lambda>_.
         bnd (gets (stream_records k)) (\<lambda>rs.
         ret (verification_of (av_sha256 v) k st rs))))"

definition stream_page :: "audit_env \<Rightarrow> string \<Rightarrow> (audit_state, audit_response list) act" where
  "stream_page v k =
     bnd (gets (find_stream k)) (\<lambda>found.
     case found of
       None \<Rightarrow> throw audit_stream_not_found
     | Some st \<Rightarrow>
         bnd (pause (av_others v 2)) (\<lambda>_.
         bnd (gets (stream_records k)) (\<lambda>rs. ret (map audit_response_of (take 100 rs)))))"

section \<open>Operators and controllers\<close>

text \<open>\<open>OPERATOR_PATTERN\<close>, \<open>^operator:([A-Za-z0-9][A-Za-z0-9._-]{0,79})$\<close>, with its group.\<close>

definition operator_match :: "string \<Rightarrow> string option" where
  "operator_match t =
     (let i = drop 9 t in
      if take 9 t = ''operator:'' \<and> i \<noteq> [] \<and> is_alnum (hd i) \<and> length i \<le> 80 \<and>
         list_all (\<lambda>c. is_alnum c \<or> c \<in> set ''._-'') (tl i)
      then Some i else None)"

definition operator_from_request :: "string option \<Rightarrow> failure + string" where
  "operator_from_request header =
     (case header of
        None \<Rightarrow> Inl invalid_principal
      | Some h \<Rightarrow>
          if take 7 h \<noteq> ''Bearer '' then Inl invalid_principal
          else (case operator_match (trim (drop 7 h)) of
              None \<Rightarrow> Inl operator_scope_required
            | Some i \<Rightarrow> Inr i))"

definition with_operator :: "string option \<Rightarrow> (string \<Rightarrow> ('s, 'a) act) \<Rightarrow> ('s, 'a) act" where
  "with_operator header f =
     (case operator_from_request header of Inl e \<Rightarrow> throw e | Inr i \<Rightarrow> f i)"

text \<open>\<open>^[\x21-\x7E]{1,128}$\<close>.\<close>

definition visible_key :: "string \<Rightarrow> bool" where
  "visible_key t \<longleftrightarrow>
     t \<noteq> [] \<and> length t \<le> 128 \<and> list_all (\<lambda>c. let k = (of_char c :: nat) in 0x21 \<le> k \<and> k \<le> 0x7E) t"

definition deterministic_uuid :: "(string \<Rightarrow> string) \<Rightarrow> string \<Rightarrow> uuid" where
  "deterministic_uuid sha value =
     (let bytes = take 16 (sha value);
          bytes = bytes[6 := char_of ((of_char (bytes ! 6) :: nat) mod 16 + 0x50)];
          bytes = bytes[8 := char_of ((of_char (bytes ! 8) :: nat) mod 64 + 0x80)];
          hex = hex_text bytes
      in take 8 hex @ ''-'' @ take 4 (drop 8 hex) @ ''-'' @ take 4 (drop 12 hex) @ ''-'' @
         take 4 (drop 16 hex) @ ''-'' @ drop 20 hex)"

definition append_route :: "audit_http \<Rightarrow> audit_env \<Rightarrow> append_event_dto \<Rightarrow> (audit_state, audit_response) act" where
  "append_route h v c =
     guarded (ah_configured h) (ah_supplied h) (validated (append_body_ok h c) (append_event v False c))"

definition verified_event :: "audit_env \<Rightarrow> string \<Rightarrow> string \<Rightarrow> string \<Rightarrow> verification \<Rightarrow> append_event_dto" where
  "verified_event v operator key k r =
     \<lparr>ae_event = deterministic_uuid (av_sha256 v) (''audit.verify'' @ [CHR 0x00] @ operator @ [CHR 0x00] @ key),
      ae_stream = ''admin:operator-actions'', ae_action = ''audit.verified'',
      ae_entity_type = ''audit-stream'', ae_entity = k, ae_actor = Some operator,
      ae_occurred = iso_text (av_now v),
      ae_metadata = Some [(''valid'', JBool (vr_valid r)), (''recordsChecked'', JNum (of_nat (vr_checked r)))]\<rparr>"

definition verify_route ::
  "audit_env \<Rightarrow> string option \<Rightarrow> string \<Rightarrow> string \<Rightarrow> (audit_state, verification) act" where
  "verify_route v header key k =
     validated (safe_identifier 160 k)
       (with_operator header (\<lambda>operator.
        bnd (ensure (visible_key key) invalid_idempotency_key) (\<lambda>_.
        bnd (verify_stream v k) (\<lambda>r.
        bnd (append_event v True (verified_event v operator key k r)) (\<lambda>_.
        ret r)))))"

definition read_event :: "audit_env \<Rightarrow> string \<Rightarrow> string \<Rightarrow> nat \<Rightarrow> append_event_dto" where
  "read_event v operator k n =
     \<lparr>ae_event = deterministic_uuid (av_sha256 v) (''audit.read'' @ [CHR 0x00] @ av_request_id v),
      ae_stream = ''admin:operator-actions'', ae_action = ''audit.records.read'',
      ae_entity_type = ''audit-stream'', ae_entity = k, ae_actor = Some operator,
      ae_occurred = iso_text (av_now v),
      ae_metadata = Some [(''recordsReturned'', JNum (of_nat n))]\<rparr>"

definition read_route :: "audit_env \<Rightarrow> string option \<Rightarrow> string \<Rightarrow> (audit_state, audit_response list) act" where
  "read_route v header k =
     with_operator header (\<lambda>operator.
       bnd (stream_page v k) (\<lambda>rs.
       bnd (append_event v True (read_event v operator k (length rs))) (\<lambda>_.
       ret rs)))"

end
