(* ===== verification/AuditProofs.thy ===== *)
theory AuditProofs
  imports AuditChain "HOL-Library.Sublist"
begin

text \<open>
  The invariant of the audit tables and what every request does to them: \<open>audit_ok\<close> holds in every
  state of a run, and \<open>audit_step\<close> between any two of its states.
\<close>

section \<open>Chains\<close>

text \<open>
  A record that an append wrote at place \<open>n\<close> after the hash \<open>prev\<close>: its hash was computed over the
  sanitised metadata, of which the row keeps what the column makes of it.
\<close>

definition genuine :: "(string \<Rightarrow> string) \<Rightarrow> audit_record \<Rightarrow> int \<Rightarrow> string \<Rightarrow> bool" where
  "genuine sha r n prev \<longleftrightarrow>
     ar_sequence r = n \<and> ar_previous r = prev \<and>
     (\<exists>ms. clean_value 0 (JObj ms) \<and> ar_metadata r = jsonb (JObj ms) \<and>
       ar_current r = compute_audit_hash sha ((event_of r)\<lparr>ne_metadata := ms\<rparr>) n prev)"

primrec linked :: "(string \<Rightarrow> string) \<Rightarrow> audit_record list \<Rightarrow> int \<Rightarrow> string \<Rightarrow> int \<Rightarrow> string \<Rightarrow> bool" where
  "linked sha [] n prev m h = (n = m \<and> prev = h)"
| "linked sha (r # rs) n prev m h = (genuine sha r n prev \<and> linked sha rs (n + 1) (ar_current r) m h)"

lemma linked_snoc:
  "linked sha rs n prev m h \<Longrightarrow> genuine sha r m h \<Longrightarrow> linked sha (rs @ [r]) n prev (m + 1) (ar_current r)"
  by (induction rs arbitrary: n prev) auto

lemma linked_sequence: "linked sha rs n prev m h \<Longrightarrow> m = n + int (length rs)"
  by (induction rs arbitrary: n prev) force+

lemma linked_above: "linked sha rs n prev m h \<Longrightarrow> r \<in> set rs \<Longrightarrow> n \<le> ar_sequence r"
  by (induction rs arbitrary: n prev) (force simp: genuine_def)+

lemma linked_sorted: "linked sha rs n prev m h \<Longrightarrow> sort_key ar_sequence rs = rs"
proof -
  assume "linked sha rs n prev m h"
  then have "sorted (map ar_sequence rs)"
    by (induction rs arbitrary: n prev) (auto simp: genuine_def dest: linked_above)
  then show ?thesis by (rule sort_key_id_if_sorted)
qed

section \<open>Row operations\<close>

definition typed_record :: "audit_record \<Rightarrow> bool" where
  "typed_record r \<longleftrightarrow>
     safe_identifier 160 (ar_stream r) \<and> safe_identifier 160 (ar_action r) \<and>
     safe_identifier 160 (ar_entity_type r) \<and> safe_identifier 160 (ar_entity r) \<and>
     (case ar_actor r of None \<Rightarrow> True | Some a \<Rightarrow> safe_identifier 160 a) \<and>
     valid_instant (ar_occurred r) \<and> clean_value 0 (ar_metadata r) \<and> record_check r"

definition audit_ok :: "(string \<Rightarrow> string) \<Rightarrow> audit_state \<Rightarrow> bool" where
  "audit_ok sha s \<longleftrightarrow>
     distinct (map as_key (audit_streams s)) \<and> distinct (map ar_event (audit_records s)) \<and>
     (\<forall>st\<in>set (audit_streams s). safe_identifier 160 (as_key st)) \<and>
     (\<forall>r\<in>set (audit_records s). typed_record r \<and> ar_stream r \<in> as_key ` set (audit_streams s)) \<and>
     (\<forall>st\<in>set (audit_streams s).
       linked sha (filter (\<lambda>r. ar_stream r = as_key st) (audit_records s)) 1 genesis_hash
         (as_sequence st + 1) (as_hash st))"

definition audit_step :: "(string \<Rightarrow> string) \<Rightarrow> audit_state \<Rightarrow> audit_state \<Rightarrow> bool" where
  "audit_step sha s t \<longleftrightarrow>
     (audit_ok sha s \<longrightarrow>
        audit_ok sha t \<and> prefix (audit_records s) (audit_records t) \<and>
        prefix (map as_key (audit_streams s)) (map as_key (audit_streams t)))"

interpretation au: two_state "audit_step sha" for sha
  by unfold_locales (auto simp: audit_step_def intro: prefix_order.trans)

text \<open>What \<open>normalize_event\<close> ensures of an event of a validated request.\<close>

definition event_ok :: "normalized_event \<Rightarrow> bool" where
  "event_ok e \<longleftrightarrow>
     safe_identifier 160 (ne_stream e) \<and> safe_identifier 160 (ne_action e) \<and>
     safe_identifier 160 (ne_entity_type e) \<and> safe_identifier 160 (ne_entity e) \<and>
     (case ne_actor e of None \<Rightarrow> True | Some a \<Rightarrow> safe_identifier 160 a) \<and>
     valid_instant (ne_occurred e) \<and> clean_value 0 (JObj (ne_metadata e))"

lemma audit_okD:
  assumes "audit_ok sha s"
  shows "distinct (map as_key (audit_streams s))" "distinct (map ar_event (audit_records s))"
    and "st \<in> set (audit_streams s) \<Longrightarrow> safe_identifier 160 (as_key st)"
    and "r \<in> set (audit_records s) \<Longrightarrow> typed_record r"
    and "r \<in> set (audit_records s) \<Longrightarrow> ar_stream r \<in> as_key ` set (audit_streams s)"
    and "st \<in> set (audit_streams s) \<Longrightarrow>
      linked sha (filter (\<lambda>r. ar_stream r = as_key st) (audit_records s)) 1 genesis_hash
        (as_sequence st + 1) (as_hash st)"
  using assms unfolding audit_ok_def by blast+

lemma audit_okI:
  assumes "distinct (map as_key (audit_streams s))" "distinct (map ar_event (audit_records s))"
    and "\<And>st. st \<in> set (audit_streams s) \<Longrightarrow> safe_identifier 160 (as_key st)"
    and "\<And>r. r \<in> set (audit_records s) \<Longrightarrow> typed_record r \<and> ar_stream r \<in> as_key ` set (audit_streams s)"
    and "\<And>st. st \<in> set (audit_streams s) \<Longrightarrow>
      linked sha (filter (\<lambda>r. ar_stream r = as_key st) (audit_records s)) 1 genesis_hash
        (as_sequence st + 1) (as_hash st)"
  shows "audit_ok sha s"
  using assms unfolding audit_ok_def by blast

text \<open>The new stream of an append has no record yet.\<close>

lemma insert_stream_step:
  assumes "safe_identifier 160 k" and "insert_stream k s = (Inr (), t)"
  shows "audit_step sha s t" and "audit_records t = audit_records s" and "k \<in> as_key ` set (audit_streams t)"
proof -
  have t: "t = s \<and> key_taken as_key k (audit_streams s) \<or> \<not> key_taken as_key k (audit_streams s) \<and>
      t = s\<lparr>audit_streams := audit_streams s @ [\<lparr>as_key = k, as_sequence = 0, as_hash = genesis_hash\<rparr>]\<rparr>"
    using assms(2) by (auto simp: insert_stream_def split: if_splits)
  then show "audit_records t = audit_records s" "k \<in> as_key ` set (audit_streams t)"
    by (auto simp: key_taken_def)
  show "audit_step sha s t"
    using t
  proof (elim disjE conjE)
    assume "t = s"
    then show ?thesis by (simp add: au.R_refl)
  next
    assume new: "\<not> key_taken as_key k (audit_streams s)"
      and t': "t = s\<lparr>audit_streams := audit_streams s @ [\<lparr>as_key = k, as_sequence = 0, as_hash = genesis_hash\<rparr>]\<rparr>"
    have "audit_ok sha t" if ok: "audit_ok sha s"
    proof (rule audit_okI)
      fix st
      assume st: "st \<in> set (audit_streams t)"
      have "filter (\<lambda>r. ar_stream r = k) (audit_records s) = []"
        using audit_okD(5) [OF ok] new by (auto simp: filter_empty_conv key_taken_def)
      then show "linked sha (filter (\<lambda>r. ar_stream r = as_key st) (audit_records t)) 1 genesis_hash
          (as_sequence st + 1) (as_hash st)"
        using st audit_okD(6) [OF ok] t' by auto
      show "safe_identifier 160 (as_key st)" using st audit_okD(3) [OF ok] t' assms(1) by auto
    next
      fix r
      assume "r \<in> set (audit_records t)"
      then show "typed_record r \<and> ar_stream r \<in> as_key ` set (audit_streams t)"
        using audit_okD(4,5) [OF ok] t' by auto
    qed (use audit_okD(1,2) [OF ok] new t' in \<open>auto simp: key_taken_def\<close>)
    then show ?thesis using t' by (simp add: audit_step_def)
  qed
qed

definition appended :: "audit_env \<Rightarrow> normalized_event \<Rightarrow> audit_stream \<Rightarrow> audit_record" where
  "appended v e st = (new_record v e st)\<lparr>ar_metadata := jsonb (JObj (ne_metadata e))\<rparr>"

lemma append_body_Inr:
  assumes "append_body v e s = (Inr r, t)"
  obtains u where "insert_stream (ne_stream e) s = (Inr (), u)"
    and "find_event (ne_event e) u = Some r \<and> t = u \<or>
      (\<exists>st. find_event (ne_event e) u = None \<and> find_stream (ne_stream e) u = Some st \<and>
         record_check (new_record v e st) \<and> r = appended v e st \<and>
         t = u\<lparr>audit_records := audit_records u @ [r],
               audit_streams := update_where (\<lambda>a. as_key a = ne_stream e)
                 (\<lambda>a. a\<lparr>as_sequence := as_sequence st + 1, as_hash := ar_current r\<rparr>) (audit_streams u)\<rparr>)"
proof -
  obtain u where u: "insert_stream (ne_stream e) s = (Inr (), u)"
    using assms by (auto simp: append_body_def bnd_result_Inr)
  have rest: "(case find_event (ne_event e) u of
       Some r \<Rightarrow> ret r
     | None \<Rightarrow> (case find_stream (ne_stream e) u of
            None \<Rightarrow> throw (PlainError ''AUDIT_STREAM_LOCK_FAILED'')
          | Some st \<Rightarrow>
              bnd (create_record (new_record v e st)) (\<lambda>created.
              bnd (update_stream (ne_stream e) (as_sequence st + 1) (ar_current (new_record v e st))) (\<lambda>_.
              ret created)))) u = (Inr r, t)"
    using assms by (simp add: append_body_def bnd_Inr [where m = "insert_stream (ne_stream e)", OF u])
  show ?thesis
  proof (cases "find_event (ne_event e) u")
    case (Some q)
    then show ?thesis using rest by (intro that [OF u]) simp
  next
    case None
    obtain st where st: "find_stream (ne_stream e) u = Some st"
      using rest None by (cases "find_stream (ne_stream e) u") auto
    obtain w where w: "create_record (new_record v e st) u = (Inr r, w)"
      "update_stream (ne_stream e) (as_sequence st + 1) (ar_current (new_record v e st)) w = (Inr (), t)"
      using rest None st by (auto simp: bnd_result_Inr)
    have "record_check (new_record v e st) \<and> r = appended v e st \<and> w = u\<lparr>audit_records := audit_records u @ [r]\<rparr>"
      using w(1) by (auto simp: create_record_def Let_def appended_def new_record_def split: if_splits)
    moreover have "t = w\<lparr>audit_streams := update_where (\<lambda>a. as_key a = ne_stream e)
        (\<lambda>a. a\<lparr>as_sequence := as_sequence st + 1, as_hash := ar_current (new_record v e st)\<rparr>) (audit_streams w)\<rparr>"
      using w(2) by (auto simp: update_stream_def split: if_splits)
    ultimately show ?thesis
      using None st by (intro that [OF u]) (auto simp: appended_def)
  qed
qed

lemma has_nul_jsonb: "has_nul (jsonb v) = has_nul v"
proof (induction v)
  case (JObj ms)
  have "has_nul (jsonb (snd m)) = has_nul (snd m)" if "m \<in> set ms" for m
    using JObj.IH [OF that, of "snd m"] by (cases m) simp
  then show ?case by (auto simp: list_ex_iff split_beta)
qed (auto simp: list_ex_iff)

lemma typed_appended:
  assumes "event_ok e" and "record_check (new_record v e st)"
  shows "typed_record (appended v e st)"
proof -
  have "clean_value 0 (jsonb (JObj (ne_metadata e)))"
    using assms(1) jsonb_clean by (simp add: event_ok_def del: jsonb.simps clean_value.simps)
  then show ?thesis
    using assms by (simp add: event_ok_def typed_record_def appended_def new_record_def record_check_def has_nul_jsonb
        del: jsonb.simps clean_value.simps has_nul.simps)
qed

lemma genuine_appended:
  "event_ok e \<Longrightarrow> genuine (av_sha256 v) (appended v e st) (as_sequence st + 1) (as_hash st)"
  unfolding genuine_def
  by (auto simp: appended_def new_record_def event_ok_def compute_audit_hash_def hashed_text_def canonical_event_def
      event_of_def simp del: jsonb.simps clean_value.simps intro!: exI [of _ "ne_metadata e"])

lemma append_body_step:
  assumes "event_ok e" and "av_sha256 v = sha" and "append_body v e s = (Inr r, t)"
  shows "audit_step sha s t"
proof -
  obtain u where u: "insert_stream (ne_stream e) s = (Inr (), u)"
    and t: "find_event (ne_event e) u = Some r \<and> t = u \<or>
      (\<exists>st. find_event (ne_event e) u = None \<and> find_stream (ne_stream e) u = Some st \<and>
         record_check (new_record v e st) \<and> r = appended v e st \<and>
         t = u\<lparr>audit_records := audit_records u @ [r],
               audit_streams := update_where (\<lambda>a. as_key a = ne_stream e)
                 (\<lambda>a. a\<lparr>as_sequence := as_sequence st + 1, as_hash := ar_current r\<rparr>) (audit_streams u)\<rparr>)"
    using assms(3) by (rule append_body_Inr)
  have su: "audit_step sha s u"
    using assms(1) u by (intro insert_stream_step(1)) (simp_all add: event_ok_def)
  from t show ?thesis
  proof (elim disjE exE conjE)
    assume "t = u"
    then show ?thesis using su by simp
  next
    fix st
    assume fresh: "find_event (ne_event e) u = None" and st: "find_stream (ne_stream e) u = Some st"
      and check: "record_check (new_record v e st)" and r: "r = appended v e st"
      and t: "t = u\<lparr>audit_records := audit_records u @ [r],
               audit_streams := update_where (\<lambda>a. as_key a = ne_stream e)
                 (\<lambda>a. a\<lparr>as_sequence := as_sequence st + 1, as_hash := ar_current r\<rparr>) (audit_streams u)\<rparr>"
    have st': "st \<in> set (audit_streams u)" "as_key st = ne_stream e"
      using st by (auto simp: find_stream_def dest: find_Some_in)
    have keys: "map as_key (audit_streams t) = map as_key (audit_streams u)"
      using t by (simp add: map_update_where)
    have key_set: "as_key ` set (audit_streams t) = as_key ` set (audit_streams u)"
      using keys by (metis set_map)
    have row: "ar_stream r = ne_stream e" "ar_event r = ne_event e" by (simp_all add: r appended_def new_record_def)
    have "audit_ok sha t" if ok: "audit_ok sha u"
    proof (rule audit_okI)
      show "distinct (map as_key (audit_streams t))" unfolding keys by (rule audit_okD(1) [OF ok])
      have "ne_event e \<notin> ar_event ` set (audit_records u)"
        using fresh by (auto simp: find_event_def find_None_iff_all)
      then show "distinct (map ar_event (audit_records t))" using audit_okD(2) [OF ok] t row by simp
    next
      fix q
      assume "q \<in> set (audit_records t)"
      then consider "q \<in> set (audit_records u)" | "q = r" using t by auto
      then show "typed_record q \<and> ar_stream q \<in> as_key ` set (audit_streams t)"
      proof cases
        case 1
        then show ?thesis unfolding key_set using audit_okD(4,5) [OF ok] by blast
      next
        case 2
        then show ?thesis
          unfolding key_set using typed_appended [OF assms(1) check] r row st' by (metis image_eqI)
      qed
    next
      fix a
      assume "a \<in> set (audit_streams t)"
      then have "a \<in> set (update_where (\<lambda>a. as_key a = ne_stream e)
          (\<lambda>a. a\<lparr>as_sequence := as_sequence st + 1, as_hash := ar_current r\<rparr>) (audit_streams u))" using t by simp
      then obtain b where b: "b \<in> set (audit_streams u)"
        "a = (if as_key b = ne_stream e then b\<lparr>as_sequence := as_sequence st + 1, as_hash := ar_current r\<rparr> else b)"
        by (auto simp: update_where_def)
      show "safe_identifier 160 (as_key a)" using audit_okD(3) [OF ok b(1)] b(2) by auto
      have link: "linked sha (filter (\<lambda>r. ar_stream r = as_key b) (audit_records u)) 1 genesis_hash
          (as_sequence b + 1) (as_hash b)" using audit_okD(6) [OF ok b(1)] .
      show "linked sha (filter (\<lambda>r. ar_stream r = as_key a) (audit_records t)) 1 genesis_hash
          (as_sequence a + 1) (as_hash a)"
      proof (cases "as_key b = ne_stream e")
        case True
        then have "b = st" using distinct_key [OF audit_okD(1) [OF ok] b(1) st'(1)] st'(2) by simp
        then show ?thesis
          using linked_snoc [OF link, of r] genuine_appended [OF assms(1), of v st] True b(2) t row r assms(2) by simp
      next
        case False
        then show ?thesis using link b(2) t row by simp
      qed
    qed
    then have "audit_step sha u t" using t keys by (simp add: audit_step_def)
    with su show ?thesis by (rule au.R_trans)
  qed
qed

section \<open>Requests\<close>

text \<open>
  An environment with the digest \<open>sha\<close> whose clock and whose reader of instants give times that a
  \<open>Date\<close> can hold, and in which what happens at an await is itself a step.
\<close>

definition audit_env_ok :: "(string \<Rightarrow> string) \<Rightarrow> audit_env \<Rightarrow> bool" where
  "audit_env_ok sha v \<longleftrightarrow> av_sha256 v = sha \<and> (\<forall>t i. av_date v t = Some i \<longrightarrow> valid_instant i)"

lemma resolve_step: "steps (audit_step sha) (resolve_existing r e b)"
  unfolding resolve_existing_def by (intro au.steps_rules)

lemma append_transaction_step:
  assumes "event_ok e" and "av_sha256 v = sha"
  shows "steps (audit_step sha) (transaction (\<lambda>_. True) (append_body v e))"
proof (rule stepsI)
  fix s
  obtain z t where z: "transaction (\<lambda>_. True) (append_body v e) s = (z, t)" by fastforce
  show "audit_step sha s (snd (transaction (\<lambda>_. True) (append_body v e) s))"
  proof (cases z)
    case (Inl x)
    then show ?thesis using z by (auto dest: transaction_Inl simp: au.R_refl)
  next
    case (Inr r)
    then have "append_body v e s = (Inr r, t)" using z by (simp add: transaction_Inr)
    then show ?thesis using append_body_step [OF assms] z by simp
  qed
qed

lemma append_normalized_step:
  assumes "event_ok e" and "av_sha256 v = sha" and "\<And>k s. audit_step sha s (av_others v k s)"
  shows "steps (audit_step sha) (append_normalized v e b)"
  unfolding append_normalized_def
  by (intro au.steps_rules resolve_step append_transaction_step assms au.steps_pause)

definition request_event_ok :: "append_event_dto \<Rightarrow> bool" where
  "request_event_ok c \<longleftrightarrow>
     safe_identifier 160 (ae_stream c) \<and> safe_identifier 160 (ae_action c) \<and>
     safe_identifier 160 (ae_entity_type c) \<and> safe_identifier 160 (ae_entity c) \<and>
     (case ae_actor c of None \<Rightarrow> True | Some a \<Rightarrow> safe_identifier 160 a) \<and>
     (case ae_metadata c of None \<Rightarrow> True | Some ms \<Rightarrow> keys_distinct (JObj ms))"

lemma normalized_event_ok:
  assumes "normalize_event v c = Inr e" and "request_event_ok c" and "audit_env_ok sha v"
  shows "event_ok e"
proof -
  let ?ms = "case ae_metadata c of None \<Rightarrow> [] | Some ms \<Rightarrow> ms"
  obtain i ms where i: "av_date v (ae_occurred c) = Some i" and ms: "sanitize_object 0 ?ms = Some ms"
    and e: "e = \<lparr>ne_event = ae_event c, ne_stream = ae_stream c, ne_action = ae_action c,
                ne_entity_type = ae_entity_type c, ne_entity = ae_entity c, ne_actor = ae_actor c,
                ne_occurred = i, ne_metadata = ms\<rparr>"
    using assms(1) by (auto simp: normalize_event_def sanitize_metadata_def split: option.splits)
  have "keys_distinct (JObj ?ms)"
    using assms(2) by (simp add: request_event_ok_def split: option.splits)
  then have "clean_value 0 (JObj ms)" by (rule sanitized_clean(2) [OF ms])
  then show ?thesis
    using assms(2,3) i e by (auto simp: event_ok_def request_event_ok_def audit_env_ok_def simp del: clean_value.simps)
qed

lemma append_event_step:
  assumes "request_event_ok c" and "audit_env_ok sha v" and "\<And>k s. audit_step sha s (av_others v k s)"
  shows "steps (audit_step sha) (append_event v b c)"
proof (cases "normalize_event v c")
  case (Inl x)
  then show ?thesis by (simp add: append_event_def au.steps_throw)
next
  case (Inr e)
  have "av_sha256 v = sha" using assms(2) by (simp add: audit_env_ok_def)
  then show ?thesis
    using append_normalized_step [OF normalized_event_ok [OF Inr assms(1,2)]] assms(3) Inr
    by (simp add: append_event_def)
qed

lemma safe_identifier_mono: "safe_identifier m t \<Longrightarrow> m \<le> n \<Longrightarrow> safe_identifier n t"
  by (auto simp: safe_identifier_def)

lemma body_request_ok: "append_body_ok h c \<Longrightarrow> request_event_ok c"
  by (auto simp: append_body_ok_def request_event_ok_def split: option.splits elim!: safe_identifier_mono)

lemma operator_safe: "operator_from_request header = Inr i \<Longrightarrow> safe_identifier 80 i"
  by (auto simp: operator_from_request_def operator_match_def safe_identifier_def Let_def list_all_iff
      split: option.splits if_splits)

lemma safe_names:
  "safe_identifier 160 ''admin:operator-actions''" "safe_identifier 160 ''audit.verified''"
  "safe_identifier 160 ''audit-stream''" "safe_identifier 160 ''audit.records.read''"
  by code_simp+

lemma verified_event_ok: "safe_identifier 160 k \<Longrightarrow> safe_identifier 80 i \<Longrightarrow> request_event_ok (verified_event v i key k r)"
  by (auto simp: request_event_ok_def verified_event_def safe_names elim: safe_identifier_mono)

lemma read_event_ok: "safe_identifier 160 k \<Longrightarrow> safe_identifier 80 i \<Longrightarrow> request_event_ok (read_event v i k n)"
  by (auto simp: request_event_ok_def read_event_def safe_names elim: safe_identifier_mono)

lemma steps_operator:
  "(\<And>i. safe_identifier 80 i \<Longrightarrow> steps (audit_step sha) (f i)) \<Longrightarrow> steps (audit_step sha) (with_operator header f)"
  unfolding with_operator_def by (cases "operator_from_request header") (auto simp: au.steps_throw dest: operator_safe)

lemma verify_stream_step:
  "(\<And>k s. audit_step sha s (av_others v k s)) \<Longrightarrow> steps (audit_step sha) (verify_stream v k)"
  unfolding verify_stream_def by (intro au.steps_rules au.steps_pause)

lemma stream_page_step:
  "(\<And>k s. audit_step sha s (av_others v k s)) \<Longrightarrow> steps (audit_step sha) (stream_page v k)"
  unfolding stream_page_def by (intro au.steps_rules au.steps_pause)

lemma append_route_step:
  assumes "audit_env_ok sha v" and "\<And>k s. audit_step sha s (av_others v k s)"
  shows "steps (audit_step sha) (append_route h v c)"
  unfolding append_route_def
  by (intro au.steps_guarded au.steps_validated append_event_step body_request_ok assms)

lemma verify_route_step:
  assumes "audit_env_ok sha v" and "\<And>k s. audit_step sha s (av_others v k s)"
  shows "steps (audit_step sha) (verify_route v header key k)"
  unfolding verify_route_def
  by (intro au.steps_validated steps_operator au.steps_rules verify_stream_step append_event_step
      verified_event_ok assms)

lemma read_route_step:
  assumes "audit_env_ok sha v" and "\<And>k s. audit_step sha s (av_others v k s)"
  shows "steps (audit_step sha) (read_route v header k)"
proof (rule stepsI)
  fix s
  have safe: "steps (audit_step sha) (read_route v header k)" if "safe_identifier 160 k"
    unfolding read_route_def
    by (intro steps_operator au.steps_rules stream_page_step append_event_step read_event_ok that assms)
  show "audit_step sha s (snd (read_route v header k s))"
  proof (cases "find_stream k s")
    case None
    then have "snd (read_route v header k s) = s"
      by (auto simp: read_route_def with_operator_def stream_page_def bnd_def split: sum.splits)
    then show ?thesis by (simp add: au.R_refl)
  next
    case (Some st)
    show ?thesis
    proof (cases "audit_ok sha s")
      case True
      have "st \<in> set (audit_streams s)" "as_key st = k" using Some by (auto simp: find_stream_def dest: find_Some_in)
      then have "safe_identifier 160 k" using audit_okD(3) [OF True] by blast
      then show ?thesis using safe by (auto dest: stepsD)
    next
      case False
      then show ?thesis by (simp add: audit_step_def)
    qed
  qed
qed

section \<open>Runs\<close>

datatype audit_request =
    AuditAppend append_event_dto
  | AuditVerify "string option" string string
  | AuditRead "string option" string

fun serve_audit :: "audit_http \<Rightarrow> audit_env \<Rightarrow> audit_request \<Rightarrow> audit_state \<Rightarrow> audit_state" where
  "serve_audit h v (AuditAppend c) s = snd (append_route h v c s)"
| "serve_audit h v (AuditVerify header key k) s = snd (verify_route v header key k s)"
| "serve_audit h v (AuditRead header k) s = snd (read_route v header k s)"

inductive audit_run :: "(string \<Rightarrow> string) \<Rightarrow> audit_state \<Rightarrow> audit_state \<Rightarrow> bool" for sha where
  audit_idle: "audit_run sha s s"
| audit_serve: "audit_env_ok sha v \<Longrightarrow> \<forall>k u. audit_run sha u (av_others v k u) \<Longrightarrow> audit_run sha s t \<Longrightarrow>
    audit_run sha s (serve_audit h v q t)"

definition empty_audit :: audit_state where
  "empty_audit = \<lparr>audit_streams = [], audit_records = []\<rparr>"

lemma empty_audit_ok [simp]: "audit_ok sha empty_audit"
  by (simp add: audit_ok_def empty_audit_def)

lemma serve_audit_step:
  assumes "audit_env_ok sha v" and "\<And>k s. audit_step sha s (av_others v k s)"
  shows "audit_step sha s (serve_audit h v q s)"
proof (cases q)
  case (AuditAppend c)
  then show ?thesis using stepsD [OF append_route_step [OF assms]] by simp
next
  case (AuditVerify header key k)
  then show ?thesis using stepsD [OF verify_route_step [OF assms]] by simp
next
  case (AuditRead header k)
  then show ?thesis using stepsD [OF read_route_step [OF assms]] by simp
qed

lemma audit_run_step: "audit_run sha s t \<Longrightarrow> audit_step sha s t"
proof (induction rule: audit_run.induct)
  case (audit_idle s)
  show ?case by (rule au.R_refl)
next
  case (audit_serve v s t h q)
  have "audit_step sha u (av_others v k u)" for k u using audit_serve.IH(1) by blast
  then show ?case
    using serve_audit_step [OF audit_serve.hyps(1)] audit_serve.IH(2) by (blast intro: au.R_trans)
qed

lemma audit_run_ok: "audit_run sha empty_audit s \<Longrightarrow> audit_ok sha s"
  using audit_run_step [of sha empty_audit s] by (simp add: audit_step_def)

end
