(* ===== verification/AuditProperties.thy ===== *)
theory AuditProperties
  imports AuditProofs HistoryCursor
begin

text \<open>
  What the hash chain gives: a stream verifies in every state of a run, a changed stream does not, and
  an event identifier names one event for ever. The last section holds the concrete run that the
  witnesses use.
\<close>

section \<open>Texts that determine what they print\<close>

lemma json_quote_prefix:
  assumes "json_quote t @ r = json_quote t' @ r'"
  shows "t = t' \<and> r = r'"
  using json_value_quote [of 0 t r] json_value_quote [of 0 t' r'] assms by simp

lemma json_quote_inject [simp]: "json_quote t = json_quote t' \<longleftrightarrow> t = t'"
  using json_quote_prefix [of t "[]" t' "[]"] by auto

lemma json_quote_not_null: "json_quote t @ r \<noteq> CHR ''n'' # q" "CHR ''n'' # q \<noteq> json_quote t @ r"
  by (simp_all add: json_quote_def)

lemma opt_str_prefix:
  assumes "json_text (opt_str a) @ r = json_text (opt_str b) @ r'"
  shows "a = b \<and> r = r'"
  using assms by (cases a; cases b) (auto simp: opt_str_def json_quote_not_null dest: json_quote_prefix)

lemma hex_char_inject: "a < 16 \<Longrightarrow> b < 16 \<Longrightarrow> hex_char a = hex_char b \<Longrightarrow> a = b"
  using hex_value_char by (metis option.inject)

lemma hex_text_inject: "hex_text a = hex_text b \<Longrightarrow> a = b"
proof (induction a arbitrary: b)
  case Nil
  then show ?case by (cases b) (auto simp: hex_text_def Let_def)
next
  case (Cons c cs)
  then obtain d ds where b: "b = d # ds" by (cases b) (auto simp: hex_text_def Let_def)
  define m n where "m = (of_char c :: nat)" and "n = (of_char d :: nat)"
  have "m < 256" "n < 256" by (simp_all add: m_def n_def)
  moreover have "hex_char (m div 16) = hex_char (n div 16)" "hex_char (m mod 16) = hex_char (n mod 16)"
    and rest: "hex_text cs = hex_text ds"
    using Cons.prems b by (auto simp: hex_text_def Let_def m_def n_def)
  ultimately have "m div 16 = n div 16" "m mod 16 = n mod 16" by (auto intro!: hex_char_inject)
  then have "m = n" by (metis div_mult_mod_eq)
  then have "c = d" by (simp add: m_def n_def)
  then show ?case using Cons.IH [OF rest] b by simp
qed

lemma nat_text_inject: "nat_text a = nat_text b \<Longrightarrow> a = b"
  by (metis text_nat_nat_text)

lemma iso_text_inject: "valid_instant i \<Longrightarrow> valid_instant j \<Longrightarrow> iso_text i = iso_text j \<Longrightarrow> i = j"
  by (metis iso_parse_text option.inject)

text \<open>What two events have in common when their canonical texts are equal.\<close>

definition same_content :: "normalized_event \<Rightarrow> normalized_event \<Rightarrow> bool" where
  "same_content e e' \<longleftrightarrow>
     ne_stream e = ne_stream e' \<and> ne_action e = ne_action e' \<and> ne_entity_type e = ne_entity_type e' \<and>
     ne_entity e = ne_entity e' \<and> ne_actor e = ne_actor e' \<and> ne_occurred e = ne_occurred e' \<and>
     canonical_metadata (ne_metadata e) = canonical_metadata (ne_metadata e')"

text \<open>
  What a verification sees of a record: everything except the event identifier, which is not hashed, and the
  spelling of metadata with one canonical text.
\<close>

definition covered :: "audit_record \<Rightarrow> audit_record \<Rightarrow> bool" where
  "covered p q \<longleftrightarrow>
     same_content (event_of p) (event_of q) \<and> ar_sequence p = ar_sequence q \<and>
     ar_previous p = ar_previous q \<and> ar_current p = ar_current q"

lemma canonical_event_inject:
  assumes "canonical_event e n = canonical_event e' n'" and "0 \<le> n" and "0 \<le> n'"
    and "valid_instant (ne_occurred e)" and "valid_instant (ne_occurred e')"
  shows "same_content e e' \<and> n = n'"
proof -
  note eq = assms(1) [unfolded canonical_event_def]
  have 1: "ne_stream e = ne_stream e'" using eq by (auto dest!: json_quote_prefix)
  have 2: "nat_text (nat n) = nat_text (nat n')" using eq 1 by (auto dest!: json_quote_prefix)
  have 3: "ne_action e = ne_action e'" using eq 1 2 by (auto dest!: json_quote_prefix)
  have 4: "ne_entity_type e = ne_entity_type e'" using eq 1 2 3 by (auto dest!: json_quote_prefix)
  have 5: "ne_entity e = ne_entity e'" using eq 1 2 3 4 by (auto dest!: json_quote_prefix)
  have 6: "ne_actor e = ne_actor e'" using eq 1 2 3 4 5 by (auto dest!: opt_str_prefix)
  have 7: "iso_text (ne_occurred e) = iso_text (ne_occurred e')"
    using eq 1 2 3 4 5 6 by (auto dest!: json_quote_prefix)
  have 8: "canonical_metadata (ne_metadata e) = canonical_metadata (ne_metadata e')"
    using eq 1 2 3 4 5 6 7 by (simp add: canonical_metadata_def)
  have "n = n'" using nat_text_inject [OF 2] assms(2,3) by simp
  moreover have "ne_occurred e = ne_occurred e'" using iso_text_inject [OF assms(4,5) 7] .
  ultimately show ?thesis using 1 3 4 5 6 8 by (simp add: same_content_def)
qed

lemma hashed_text_inject:
  assumes "hashed_text e n p = hashed_text e' n' p'" and "length p = length p'" and "0 \<le> n" and "0 \<le> n'"
    and "valid_instant (ne_occurred e)" and "valid_instant (ne_occurred e')"
  shows "same_content e e' \<and> n = n' \<and> p = p'"
proof -
  have "p = p' \<and> canonical_event e n = canonical_event e' n'"
    using assms(1,2) by (simp add: hashed_text_def)
  then show ?thesis using canonical_event_inject [OF _ assms(3-6)] by blast
qed

section \<open>Verified chains\<close>

primrec verified :: "(string \<Rightarrow> string) \<Rightarrow> audit_record list \<Rightarrow> int \<Rightarrow> string \<Rightarrow> int \<Rightarrow> string \<Rightarrow> bool" where
  "verified sha [] n prev m h = (n = m \<and> prev = h)"
| "verified sha (r # rs) n prev m h =
     (ar_sequence r = n \<and> ar_previous r = prev \<and> compute_audit_hash sha (event_of r) n prev = ar_current r \<and>
      verified sha rs (n + 1) (ar_current r) m h)"

lemma verified_snoc:
  "verified sha (rs @ [r]) n prev m h \<longleftrightarrow>
     verified sha rs n prev (m - 1) (ar_previous r) \<and> ar_sequence r = m - 1 \<and>
     compute_audit_hash sha (event_of r) (m - 1) (ar_previous r) = ar_current r \<and> ar_current r = h"
  by (induction rs arbitrary: n prev) auto

lemma verified_length: "verified sha rs n prev m h \<Longrightarrow> m = n + int (length rs)"
  by (induction rs arbitrary: n prev) force+

lemma check_chain_verified:
  "cc_invalid c = None \<Longrightarrow>
     cc_invalid (check_chain sha rs c) = None \<and> cc_expected (check_chain sha rs c) = m \<and>
     cc_previous (check_chain sha rs c) = h \<longleftrightarrow>
     verified sha rs (cc_expected c) (cc_previous c) m h"
  by (induction rs arbitrary: c) (auto simp: Let_def)

lemma check_chain_counts:
  "verified sha rs (cc_expected c) (cc_previous c) m h \<Longrightarrow>
     cc_checked (check_chain sha rs c) = cc_checked c + length rs"
proof (induction rs arbitrary: c)
  case (Cons r rs)
  define c' where "c' = c\<lparr>cc_checked := cc_checked c + 1, cc_expected := cc_expected c + 1, cc_previous := ar_current r\<rparr>"
  have c': "cc_checked c' = cc_checked c + 1" "cc_expected c' = cc_expected c + 1" "cc_previous c' = ar_current r"
    by (simp_all add: c'_def)
  have "check_chain sha (r # rs) c = check_chain sha rs c'"
  proof -
    have "ar_sequence r = cc_expected c" "ar_previous r = cc_previous c"
      "compute_audit_hash sha (event_of r) (cc_expected c) (cc_previous c) = ar_current r"
      using Cons.prems by simp_all
    then have "\<not> (ar_sequence r \<noteq> cc_expected c \<or> ar_previous r \<noteq> cc_previous c)"
      "\<not> compute_audit_hash sha (event_of r) (ar_sequence r) (cc_previous c) \<noteq> ar_current r" by auto
    then show ?thesis unfolding check_chain.simps Let_def c'_def by (simp only: if_False)
  qed
  moreover have "verified sha rs (cc_expected c') (cc_previous c') m h" using Cons.prems by (simp add: c')
  ultimately show ?case using Cons.IH [of c'] by (simp add: c')
qed simp

lemma chain_start_simps [simp]:
  "cc_checked chain_start = 0" "cc_invalid chain_start = None" "cc_expected chain_start = 1"
  "cc_previous chain_start = genesis_hash"
  by (simp_all add: chain_start_def)

lemma valid_result:
  "vr_valid (verification_of sha k st rs) \<longleftrightarrow>
     cc_invalid (check_chain sha rs chain_start) = None \<and>
     cc_expected (check_chain sha rs chain_start) = as_sequence st + 1 \<and>
     cc_previous (check_chain sha rs chain_start) = as_hash st"
  unfolding verification_of_def Let_def verification.select_convs by (auto split: if_split)

lemma verification_valid:
  "vr_valid (verification_of sha k st rs) \<longleftrightarrow> verified sha rs 1 genesis_hash (as_sequence st + 1) (as_hash st)"
  unfolding valid_result
  using check_chain_verified [of chain_start sha rs "as_sequence st + 1" "as_hash st"] by simp

lemma verification_result:
  assumes "vr_valid (verification_of sha k st rs)"
  shows "verification_of sha k st rs = \<lparr>vr_stream = k, vr_valid = True, vr_checked = length rs, vr_first_invalid = None\<rparr>"
proof -
  have "verified sha rs (cc_expected chain_start) (cc_previous chain_start) (as_sequence st + 1) (as_hash st)"
    using assms by (simp add: verification_valid)
  then have "cc_checked (check_chain sha rs chain_start) = length rs"
    using check_chain_counts [of sha rs chain_start] by simp
  then show ?thesis
    using assms unfolding valid_result by (simp add: verification_of_def)
qed

lemma clean_distinct: "clean_value d v \<Longrightarrow> keys_distinct v"
proof (induction v arbitrary: d)
  case (JObj ms)
  have "keys_distinct x" if m: "(k, x) \<in> set ms" for k x
  proof -
    have "clean_value (d + 1) x" using JObj.prems m by (auto simp: list_all_iff)
    then show ?thesis by (rule JObj.IH [OF m snds.intros, simplified])
  qed
  then show ?case using JObj.prems by (auto simp: list_all_iff)
qed (auto simp: list_all_iff)

lemma no_objects_jsonb: "no_objects (jsonb v) = no_objects v"
  by (induction v) (auto simp: list_all_iff)

lemma hashable_jsonb: "hashable (jsonb v) = hashable v"
proof (induction v)
  case (JArr xs)
  have "(case jsonb x of JArr ys \<Rightarrow> no_objects (jsonb x) | _ \<Rightarrow> hashable (jsonb x)) =
      (case x of JArr ys \<Rightarrow> no_objects x | _ \<Rightarrow> hashable x)" if "x \<in> set xs" for x
    using JArr [OF that] no_objects_jsonb [of x] by (cases x) auto
  then show ?case by (auto simp: list_all_iff)
next
  case (JObj ms)
  have "hashable (jsonb (snd m)) = hashable (snd m)" if "m \<in> set ms" for m
    using JObj.IH [OF that, of "snd m"] by (cases m) simp
  then show ?case by (auto simp: list_all_iff split_beta)
qed simp_all

lemma genuine_hash:
  assumes "genuine sha r n prev" and "hashable (ar_metadata r)"
  shows "compute_audit_hash sha (event_of r) n prev = ar_current r"
proof -
  obtain ms where ms: "clean_value 0 (JObj ms)" "ar_metadata r = jsonb (JObj ms)"
    "ar_current r = compute_audit_hash sha ((event_of r)\<lparr>ne_metadata := ms\<rparr>) n prev"
    using assms(1) unfolding genuine_def by blast
  have "hashable (JObj ms)" using assms(2) unfolding ms(2) hashable_jsonb .
  then have "sort_object (as_metadata (jsonb (JObj ms))) = sort_object ms"
    using sort_value_jsonb [OF clean_distinct [OF ms(1)]] by (simp add: as_metadata_def)
  then show ?thesis
    by (simp add: ms(2,3) compute_audit_hash_def hashed_text_def canonical_event_def event_of_def del: jsonb.simps)
qed

lemma linked_verified:
  "linked sha rs n prev m h \<Longrightarrow> \<forall>r\<in>set rs. hashable (ar_metadata r) \<Longrightarrow> verified sha rs n prev m h"
  by (induction rs arbitrary: n prev) (auto simp: genuine_hash, auto simp: genuine_def)

lemma linked_stream:
  assumes "audit_ok sha s" and "find_stream k s = Some st"
  shows "linked sha (stream_records k s) 1 genesis_hash (as_sequence st + 1) (as_hash st)"
proof -
  have "st \<in> set (audit_streams s)" "as_key st = k" using assms(2) by (auto simp: find_stream_def dest: find_Some_in)
  then have link: "linked sha (filter (\<lambda>r. ar_stream r = k) (audit_records s)) 1 genesis_hash (as_sequence st + 1) (as_hash st)"
    using audit_okD(6) [OF assms(1)] by blast
  show ?thesis unfolding stream_records_def linked_sorted [OF link] by (rule link)
qed

lemma linked_numbers: "linked sha rs n prev m h \<Longrightarrow> map ar_sequence rs = [n..m - 1]"
proof (induction rs arbitrary: n prev)
  case (Cons r rs)
  have "m = n + int (length (r # rs))" using Cons.prems by (rule linked_sequence)
  then have "n \<le> m - 1" by simp
  then show ?case using Cons.IH [of "n + 1" "ar_current r"] Cons.prems by (subst upto_rec1) (auto simp: genuine_def)
qed simp

text \<open>The texts whose digests a verification of a stream computes.\<close>

definition chain_texts :: "audit_record list \<Rightarrow> string set" where
  "chain_texts rs = (\<lambda>r. hashed_text (event_of r) (ar_sequence r) (ar_previous r)) ` set rs"

definition readable :: "audit_record \<Rightarrow> bool" where
  "readable r \<longleftrightarrow> record_check r \<and> valid_instant (ar_occurred r)"

lemma readable_hash_length: "readable r \<Longrightarrow> length (ar_previous r) = 64" "readable r \<Longrightarrow> 0 < ar_sequence r"
  by (simp_all add: readable_def record_check_def hash_column_def)

lemma verified_same:
  assumes "verified sha xs 1 genesis_hash m h" and "verified sha ys 1 genesis_hash m h"
    and "inj_on sha (chain_texts xs \<union> chain_texts ys)" and "\<forall>r\<in>set xs \<union> set ys. readable r"
  shows "list_all2 covered xs ys"
  using assms
proof (induction xs arbitrary: ys m h rule: rev_induct)
  case Nil
  then show ?case using verified_length [OF Nil(2)] by auto
next
  case (snoc x xs)
  have "length ys = length (xs @ [x])"
    using verified_length [OF snoc.prems(1)] verified_length [OF snoc.prems(2)] by simp
  then obtain zs y where ys: "ys = zs @ [y]" by (cases ys rule: rev_cases) auto
  have x: "verified sha xs 1 genesis_hash (m - 1) (ar_previous x)" "ar_sequence x = m - 1"
    "compute_audit_hash sha (event_of x) (m - 1) (ar_previous x) = h" "ar_current x = h"
    using snoc.prems(1) by (auto simp: verified_snoc)
  have y: "verified sha zs 1 genesis_hash (m - 1) (ar_previous y)" "ar_sequence y = m - 1"
    "compute_audit_hash sha (event_of y) (m - 1) (ar_previous y) = h" "ar_current y = h"
    using snoc.prems(2) by (auto simp: ys verified_snoc)
  have r: "readable x" "readable y" using snoc.prems(4) by (simp_all add: ys)
  have texts: "hashed_text (event_of x) (m - 1) (ar_previous x) \<in> chain_texts (xs @ [x]) \<union> chain_texts ys"
    "hashed_text (event_of y) (m - 1) (ar_previous y) \<in> chain_texts (xs @ [x]) \<union> chain_texts ys"
    using x(2) y(2) by (simp_all add: chain_texts_def ys)
  have "sha (hashed_text (event_of x) (m - 1) (ar_previous x)) = sha (hashed_text (event_of y) (m - 1) (ar_previous y))"
    using trans [OF x(3) y(3) [symmetric]] unfolding compute_audit_hash_def by (rule hex_text_inject)
  then have "hashed_text (event_of x) (m - 1) (ar_previous x) = hashed_text (event_of y) (m - 1) (ar_previous y)"
    using inj_onD [OF snoc.prems(3)] texts by blast
  moreover have "length (ar_previous x) = length (ar_previous y)" using r readable_hash_length(1) by simp
  moreover have "0 \<le> m - 1" using readable_hash_length(2) [OF r(1)] x(2) by simp
  moreover have "valid_instant (ne_occurred (event_of x))" "valid_instant (ne_occurred (event_of y))"
    using r by (simp_all add: readable_def event_of_def)
  ultimately have "same_content (event_of x) (event_of y) \<and> m - 1 = m - 1 \<and> ar_previous x = ar_previous y"
    by (intro hashed_text_inject)
  then have same: "same_content (event_of x) (event_of y)" "ar_previous x = ar_previous y" by simp_all
  have "inj_on sha (chain_texts xs \<union> chain_texts zs)"
    using snoc.prems(3) by (rule inj_on_subset) (auto simp: chain_texts_def ys)
  then have "list_all2 covered xs zs"
    using snoc.IH [OF x(1), of zs] y(1) same(2) snoc.prems(4) ys by simp
  moreover have "covered x y" using same x(2,4) y(2,4) by (simp add: covered_def)
  ultimately show ?case by (simp add: ys list_all2_appendI)
qed

lemma covered_verified:
  "list_all2 covered xs ys \<Longrightarrow> verified sha ys n prev m h \<Longrightarrow> verified sha xs n prev m h"
proof (induction xs ys arbitrary: n prev rule: list_all2_induct)
  case (Cons x xs y ys)
  have "canonical_event (event_of x) n = canonical_event (event_of y) n"
    using Cons.hyps(1) by (simp add: covered_def same_content_def canonical_event_def canonical_metadata_def)
  then show ?case
    using Cons by (auto simp: covered_def compute_audit_hash_def hashed_text_def)
qed simp

section \<open>A concrete run\<close>

lemma hash_column_hex: "length b = 32 \<Longrightarrow> hash_column (hex_text b)"
proof -
  have "length (hex_text b) = 2 * length b" by (induction b) (simp_all add: hex_text_def Let_def)
  moreover have digit: "is_digit (hex_char n) \<or> CHR ''a'' \<le> hex_char n \<and> hex_char n \<le> CHR ''f''" if "n < 16" for n
  proof -
    have "n \<in> set [0..<16]" using that by simp
    then show ?thesis by (simp add: hex_char_def upt_rec, elim disjE) (simp_all; code_simp)+
  qed
  have "list_all (\<lambda>c. is_digit c \<or> (CHR ''a'' \<le> c \<and> c \<le> CHR ''f'')) (hex_text b)"
  proof (induction b)
    case (Cons c b)
    have "(of_char c :: nat) < 256" by simp
    then have "(of_char c :: nat) div 16 < 16" "(of_char c :: nat) mod 16 < 16"
      by (intro less_mult_imp_div_less, simp, simp)
    then show ?case using Cons digit by (simp add: hex_text_def Let_def)
  qed (simp add: hex_text_def)
  moreover assume "length b = 32"
  ultimately show ?thesis by (simp add: hash_column_def)
qed

lemma genesis_column [simp]: "hash_column genesis_hash"
  by code_simp

text \<open>A digest that tells texts of different lengths apart, and one request.\<close>

definition demo_digest :: "string \<Rightarrow> string" where
  "demo_digest t = replicate 31 CHR 0x07 @ [char_of (length t)]"

definition demo_audit_env :: audit_env where
  "demo_audit_env = \<lparr>av_sha256 = demo_digest, av_date = (\<lambda>t. if t = ''1970-01-01'' then Some 0 else None),
     av_others = (\<lambda>_ s. s), av_now = 0, av_request_id = ''r1''\<rparr>"

definition demo_audit_http :: audit_http where
  "demo_audit_http = \<lparr>ah_is_uuid = (\<lambda>_. True), ah_is_iso8601 = (\<lambda>_. True), ah_configured = Some ''k'', ah_supplied = Some ''k''\<rparr>"

definition demo_event :: append_event_dto where
  "demo_event = \<lparr>ae_event = ''e1'', ae_stream = ''t:1'', ae_action = ''done'', ae_entity_type = ''t'',
     ae_entity = ''1'', ae_actor = None, ae_occurred = ''1970-01-01'', ae_metadata = Some [(''b'', JNull), (''a'', JBool True)]\<rparr>"

definition demo_normal :: normalized_event where
  "demo_normal = \<lparr>ne_event = ''e1'', ne_stream = ''t:1'', ne_action = ''done'', ne_entity_type = ''t'',
     ne_entity = ''1'', ne_actor = None, ne_occurred = 0, ne_metadata = [(''a'', JBool True), (''b'', JNull)]\<rparr>"

definition demo_audit_record :: audit_record where
  "demo_audit_record = \<lparr>ar_event = ''e1'', ar_stream = ''t:1'', ar_sequence = 1, ar_action = ''done'',
     ar_entity_type = ''t'', ar_entity = ''1'', ar_actor = None, ar_occurred = 0,
     ar_metadata = JObj [(''a'', JBool True), (''b'', JNull)], ar_previous = genesis_hash,
     ar_current = compute_audit_hash demo_digest demo_normal 1 genesis_hash\<rparr>"

definition demo_audited :: audit_state where
  "demo_audited = \<lparr>audit_streams = [\<lparr>as_key = ''t:1'', as_sequence = 1, as_hash = ar_current demo_audit_record\<rparr>],
     audit_records = [demo_audit_record]\<rparr>"

lemma demo_normal_names: "ne_stream demo_normal = ''t:1''" "ne_event demo_normal = ''e1''"
  by (simp_all add: demo_normal_def)

lemma demo_normalized: "normalize_event demo_audit_env demo_event = Inr demo_normal"
  by code_simp

lemma demo_hash_column [simp]: "hash_column (compute_audit_hash demo_digest e n p)"
  unfolding compute_audit_hash_def by (rule hash_column_hex) (simp add: demo_digest_def)

lemma demo_new_record:
  "new_record demo_audit_env demo_normal \<lparr>as_key = ''t:1'', as_sequence = 0, as_hash = genesis_hash\<rparr> = demo_audit_record"
  by (simp add: new_record_def demo_normal_def demo_audit_record_def demo_audit_env_def)

lemma demo_check: "record_check demo_audit_record" "jsonb (ar_metadata demo_audit_record) = ar_metadata demo_audit_record"
  by (simp_all add: record_check_def demo_audit_record_def char_count_def)

lemma first_append:
  assumes "char_count (ne_stream e) \<le> 160"
    and "record_check (new_record v e \<lparr>as_key = ne_stream e, as_sequence = 0, as_hash = genesis_hash\<rparr>)"
  shows "append_body v e empty_audit =
    (let st = \<lparr>as_key = ne_stream e, as_sequence = 0, as_hash = genesis_hash\<rparr>
     in (Inr (appended v e st),
         \<lparr>audit_streams = [\<lparr>as_key = ne_stream e, as_sequence = 1, as_hash = ar_current (new_record v e st)\<rparr>],
          audit_records = [appended v e st]\<rparr>))"
proof -
  let ?st = "\<lparr>as_key = ne_stream e, as_sequence = 0, as_hash = genesis_hash\<rparr>"
  have fields: "ar_stream (new_record v e ?st) = ne_stream e" "hash_column (ar_current (new_record v e ?st))"
    "ar_metadata (new_record v e ?st) = JObj (ne_metadata e)"
    using assms(2) by (auto simp: record_check_def) (simp_all add: new_record_def)
  have 1: "insert_stream (ne_stream e) empty_audit = (Inr (), \<lparr>audit_streams = [?st], audit_records = []\<rparr>)"
    using assms(1) by (simp add: insert_stream_def empty_audit_def key_taken_def)
  have 2: "create_record (new_record v e ?st) \<lparr>audit_streams = [?st], audit_records = []\<rparr> =
      (Inr (appended v e ?st), \<lparr>audit_streams = [?st], audit_records = [appended v e ?st]\<rparr>)"
    using assms(2) fields by (simp add: create_record_def Let_def key_taken_def appended_def)
  have 3: "update_stream (ne_stream e) 1 (ar_current (new_record v e ?st)) \<lparr>audit_streams = [?st], audit_records = [appended v e ?st]\<rparr> =
      (Inr (), \<lparr>audit_streams = [\<lparr>as_key = ne_stream e, as_sequence = 1, as_hash = ar_current (new_record v e ?st)\<rparr>],
          audit_records = [appended v e ?st]\<rparr>)"
    using fields by (simp add: update_stream_def key_taken_def update_where_def)
  show ?thesis
    using 2 3 unfolding append_body_def bnd_Inr [where m = "insert_stream (ne_stream e)", OF 1]
    by (simp add: find_stream_def find_event_def bnd_def Let_def)
qed

lemma demo_body: "append_body demo_audit_env demo_normal empty_audit = (Inr demo_audit_record, demo_audited)"
proof -
  have "appended demo_audit_env demo_normal \<lparr>as_key = ''t:1'', as_sequence = 0, as_hash = genesis_hash\<rparr> = demo_audit_record"
    using demo_check(2) by (simp add: appended_def demo_new_record) (simp add: demo_audit_record_def demo_normal_def)
  then show ?thesis
    using first_append [of demo_normal demo_audit_env] demo_check(1)
    by (simp add: demo_new_record demo_normal_names demo_audited_def char_count_def)
qed

lemma demo_same: "same_event b demo_audit_record demo_normal"
  by (simp add: same_event_def demo_audit_record_def demo_normal_def as_metadata_def)

lemma demo_append:
  "append_event demo_audit_env False demo_event empty_audit = (Inr (audit_response_of demo_audit_record), demo_audited)"
proof -
  have "transaction (\<lambda>_. True) (append_body demo_audit_env demo_normal) empty_audit = (Inr demo_audit_record, demo_audited)"
    by (simp add: transaction_Inr demo_body)
  then show ?thesis
    using demo_same
    by (simp add: append_event_def demo_normalized append_normalized_def find_event_def empty_audit_def
        demo_audit_env_def [THEN arg_cong, of av_others] catch_def bnd_def resolve_existing_def)
qed

lemma demo_env_ok: "audit_env_ok demo_digest demo_audit_env" "\<forall>k u. audit_run demo_digest u (av_others demo_audit_env k u)"
  by (auto simp: audit_env_ok_def demo_audit_env_def valid_instant_def intro: audit_idle split: if_splits)

lemma demo_run: "audit_run demo_digest empty_audit demo_audited"
proof -
  have "append_body_ok demo_audit_http demo_event" by code_simp
  then have "serve_audit demo_audit_http demo_audit_env (AuditAppend demo_event) empty_audit = demo_audited"
    by (simp add: append_route_def guarded_def validated_def internal_guard_def demo_audit_http_def demo_append)
  then show ?thesis
    using audit_serve [OF demo_env_ok audit_idle, where h = demo_audit_http and q = "AuditAppend demo_event" and s = empty_audit]
    by simp
qed

section \<open>Properties\<close>

text \<open>
  C18. In every state that the audit service reaches, a stream whose records hold metadata that the
  canonical order covers verifies: the check goes through all its records and finds no invalid
  sequence number, and the records are numbered from 1 without a gap. Nothing has to be assumed of
  SHA-256. (The two reads of a verification are not one transaction, hence the quiet await.)
\<close>

theorem audit_chain_verifies:
  assumes "audit_run (av_sha256 v) empty_audit s" and "av_others v 2 s = s"
    and "find_stream k s = Some st" and "\<forall>r\<in>set (stream_records k s). hashable (ar_metadata r)"
  shows "verify_stream v k s =
    (Inr \<lparr>vr_stream = k, vr_valid = True, vr_checked = length (stream_records k s), vr_first_invalid = None\<rparr>, s) \<and>
    map ar_sequence (stream_records k s) = [1..as_sequence st]"
proof
  have link: "linked (av_sha256 v) (stream_records k s) 1 genesis_hash (as_sequence st + 1) (as_hash st)"
    using audit_run_ok [OF assms(1)] assms(3) by (rule linked_stream)
  then have "vr_valid (verification_of (av_sha256 v) k st (stream_records k s))"
    unfolding verification_valid using assms(4) by (rule linked_verified)
  then show "verify_stream v k s =
    (Inr \<lparr>vr_stream = k, vr_valid = True, vr_checked = length (stream_records k s), vr_first_invalid = None\<rparr>, s)"
    using assms(2,3) by (simp add: verify_stream_def verification_result)
  show "map ar_sequence (stream_records k s) = [1..as_sequence st]"
    using linked_numbers [OF link] by simp
qed

lemma demo_stream: "find_stream ''t:1'' demo_audited = Some \<lparr>as_key = ''t:1'', as_sequence = 1, as_hash = ar_current demo_audit_record\<rparr>"
  "stream_records ''t:1'' demo_audited = [demo_audit_record]"
  by (simp_all add: find_stream_def stream_records_def demo_audited_def) (simp add: demo_audit_record_def)

theorem audit_chain_verifies_witness:
  "verify_stream demo_audit_env ''t:1'' demo_audited =
    (Inr \<lparr>vr_stream = ''t:1'', vr_valid = True, vr_checked = 1, vr_first_invalid = None\<rparr>, demo_audited)"
proof -
  have "av_sha256 demo_audit_env = demo_digest" "av_others demo_audit_env 2 demo_audited = demo_audited"
    by (simp_all add: demo_audit_env_def)
  moreover have "hashable (ar_metadata demo_audit_record)" by (simp add: demo_audit_record_def)
  ultimately show ?thesis
    using audit_chain_verifies [of demo_audit_env demo_audited "''t:1''"] demo_run demo_stream by simp
qed

text \<open>
  C19. What a verification finds. Take a state that the service reached, whose stream \<open>k\<close> holds metadata that
  the canonical order covers, and any other contents of the tables, whoever wrote them, that leave the row of
  the stream as it was and pass the columns' checks. Unless SHA-256 collides on the texts that are hashed, a
  verification reports the stream as valid exactly when its records are, one by one, those of the service in
  stream, sequence number, action, entity, actor, instant, canonical metadata and both hashes. A change of one
  of these, and a removed, added or reordered record, is reported. The event identifier is not among them: it
  is not hashed, and a change of it alone goes unnoticed.
\<close>

theorem audit_tampering_detected:
  assumes "audit_run (av_sha256 v) empty_audit g" and "find_stream k g = Some st"
    and "\<forall>r\<in>set (stream_records k g). hashable (ar_metadata r)"
    and "find_stream k s = Some st" and "\<forall>r\<in>set (stream_records k s). readable r" and "av_others v 2 s = s"
    and "inj_on (av_sha256 v) (chain_texts (stream_records k s) \<union> chain_texts (stream_records k g))"
  shows "\<exists>r. verify_stream v k s = (Inr r, s) \<and>
    (vr_valid r \<longleftrightarrow> list_all2 covered (stream_records k s) (stream_records k g))"
proof -
  let ?r = "verification_of (av_sha256 v) k st (stream_records k s)"
  have ok: "audit_ok (av_sha256 v) g" using assms(1) by (rule audit_run_ok)
  have "readable r" if "r \<in> set (stream_records k g)" for r
  proof -
    have "r \<in> set (audit_records g)" using that by (simp add: stream_records_def)
    then show ?thesis using audit_okD(4) [OF ok] by (simp add: typed_record_def readable_def)
  qed
  moreover have g: "verified (av_sha256 v) (stream_records k g) 1 genesis_hash (as_sequence st + 1) (as_hash st)"
    using linked_stream [OF ok assms(2)] assms(3) by (rule linked_verified)
  ultimately have "vr_valid ?r \<longleftrightarrow> list_all2 covered (stream_records k s) (stream_records k g)"
    unfolding verification_valid
    using verified_same [of "av_sha256 v" "stream_records k s" "as_sequence st + 1" "as_hash st" "stream_records k g"]
      covered_verified [OF _ g] assms(5,7) by blast
  then show ?thesis using assms(4,6) by (simp add: verify_stream_def)
qed

definition demo_tampered :: audit_state where
  "demo_tampered = demo_audited\<lparr>audit_records := [demo_audit_record\<lparr>ar_action := ''undone''\<rparr>]\<rparr>"

lemma demo_tampered_stream:
  "find_stream ''t:1'' demo_tampered = find_stream ''t:1'' demo_audited"
  "stream_records ''t:1'' demo_tampered = [demo_audit_record\<lparr>ar_action := ''undone''\<rparr>]"
  by (simp_all add: find_stream_def stream_records_def demo_tampered_def) (simp add: demo_audit_record_def)

lemma two_more: "(n + 2) mod 256 \<noteq> n mod (256 :: nat)"
proof
  assume "(n + 2) mod 256 = n mod 256"
  then have "256 dvd (n + 2) - n" by (subst mod_eq_dvd_iff_nat [symmetric]) simp_all
  then show False by simp
qed

lemma demo_texts_differ:
  "demo_digest (hashed_text (event_of (demo_audit_record\<lparr>ar_action := ''undone''\<rparr>)) 1 genesis_hash) \<noteq>
   demo_digest (hashed_text (event_of demo_audit_record) 1 genesis_hash)"
proof -
  have "length (hashed_text (event_of (demo_audit_record\<lparr>ar_action := ''undone''\<rparr>)) 1 genesis_hash) =
      length (hashed_text (event_of demo_audit_record) 1 genesis_hash) + 2"
    by (simp add: hashed_text_def canonical_event_def event_of_def demo_audit_record_def json_quote_def escape_char_def Let_def)
  then have "length (hashed_text (event_of (demo_audit_record\<lparr>ar_action := ''undone''\<rparr>)) 1 genesis_hash) mod 256 \<noteq>
      length (hashed_text (event_of demo_audit_record) 1 genesis_hash) mod 256"
    by (simp only: two_more not_False_eq_True)
  then show ?thesis
    by (metis demo_digest_def list.inject of_char_of same_append_eq)
qed

text \<open>The same record under another event identifier.\<close>

definition demo_renamed :: audit_state where
  "demo_renamed = demo_audited\<lparr>audit_records := [demo_audit_record\<lparr>ar_event := ''e2''\<rparr>]\<rparr>"

lemma demo_renamed_stream:
  "find_stream ''t:1'' demo_renamed = find_stream ''t:1'' demo_audited"
  "stream_records ''t:1'' demo_renamed = [demo_audit_record\<lparr>ar_event := ''e2''\<rparr>]"
  by (simp_all add: find_stream_def stream_records_def demo_renamed_def) (simp add: demo_audit_record_def)

theorem audit_tampering_detected_witness:
  "(\<exists>r. verify_stream demo_audit_env ''t:1'' demo_tampered = (Inr r, demo_tampered) \<and> \<not> vr_valid r) \<and>
   (\<exists>r. verify_stream demo_audit_env ''t:1'' demo_renamed = (Inr r, demo_renamed) \<and> vr_valid r)"
proof -
  have fields: "ar_sequence demo_audit_record = 1" "ar_previous demo_audit_record = genesis_hash" "av_sha256 demo_audit_env = demo_digest"
    by (simp_all add: demo_audit_record_def demo_audit_env_def)
  have run: "audit_run (av_sha256 demo_audit_env) empty_audit demo_audited"
    using demo_run by (simp add: demo_audit_env_def)
  have hashable: "\<forall>r\<in>set (stream_records ''t:1'' demo_audited). hashable (ar_metadata r)"
    by (simp add: demo_stream demo_audit_record_def)
  have quiet: "av_others demo_audit_env 2 u = u" for u by (simp add: demo_audit_env_def)
  note found = demo_stream(1) [folded demo_tampered_stream(1)] demo_stream(1) [folded demo_renamed_stream(1)]
  have readable: "\<forall>r\<in>set (stream_records ''t:1'' demo_tampered). readable r"
    "\<forall>r\<in>set (stream_records ''t:1'' demo_renamed). readable r"
    by (simp_all add: demo_tampered_stream demo_renamed_stream readable_def record_check_def demo_audit_record_def
        char_count_def valid_instant_def)
  have tampered: "inj_on (av_sha256 demo_audit_env)
      (chain_texts (stream_records ''t:1'' demo_tampered) \<union> chain_texts (stream_records ''t:1'' demo_audited))"
    unfolding chain_texts_def demo_stream demo_tampered_stream fields inj_on_def
    using demo_texts_differ demo_texts_differ [symmetric] by (simp add: fields)
  have renamed: "inj_on (av_sha256 demo_audit_env)
      (chain_texts (stream_records ''t:1'' demo_renamed) \<union> chain_texts (stream_records ''t:1'' demo_audited))"
    by (simp add: chain_texts_def demo_stream demo_renamed_stream hashed_text_def canonical_event_def event_of_def)
  have same: "\<not> list_all2 covered (stream_records ''t:1'' demo_tampered) (stream_records ''t:1'' demo_audited)"
    "list_all2 covered (stream_records ''t:1'' demo_renamed) (stream_records ''t:1'' demo_audited)"
    by (simp_all add: demo_stream demo_tampered_stream demo_renamed_stream covered_def same_content_def event_of_def
        demo_audit_record_def)
  show ?thesis
    using audit_tampering_detected [OF run demo_stream(1) hashable found(1) readable(1) quiet tampered]
      audit_tampering_detected [OF run demo_stream(1) hashable found(2) readable(2) quiet renamed] same by blast
qed

text \<open>
  C20. An event identifier names one event for ever. When an append has been answered, the record it
  was answered with is stored; in every later state an append with the same identifier, of any
  content and through either entry, changes nothing, and is answered with that record when the
  content is the same and with \<open>AUDIT_EVENT_ID_REUSED\<close> when it is not.
\<close>

theorem audit_event_recorded_once:
  assumes "audit_run (av_sha256 v) empty_audit s" and "audit_env_ok (av_sha256 v) v"
    and "\<forall>k u. audit_run (av_sha256 v) u (av_others v k u)" and "append_event v b c s = (Inr r, t)"
    and "request_event_ok c" and "audit_run (av_sha256 v) t u"
  shows "\<exists>q\<in>set (audit_records t). ar_event q = ae_event c \<and> r = audit_response_of q \<and>
    (\<forall>v' b' c'. ae_event c' = ae_event c \<longrightarrow>
       append_event v' b' c' u =
         (case normalize_event v' c' of
            Inl e \<Rightarrow> Inl e
          | Inr e \<Rightarrow> if same_event b' q e then Inr (audit_response_of q) else Inl audit_event_reused, u))"
proof -
  let ?sha = "av_sha256 v"
  have others: "audit_step ?sha w (av_others v k w)" for k w using assms(3) by (blast intro: audit_run_step)
  obtain e where e: "normalize_event v c = Inr e" and run: "append_normalized v e b s = (Inr r, t)"
    using assms(4) by (auto simp: append_event_def split: sum.splits)
  have ev: "ne_event e = ae_event c"
    using e by (auto simp: normalize_event_def split: option.splits sum.splits)
  have eok: "event_ok e" using normalized_event_ok [OF e assms(5,2)] .
  have existing: "\<exists>q\<in>set (audit_records t). ar_event q = ne_event e \<and> r = audit_response_of q"
    if "find_event (ne_event e) w = Some q" "resolve_existing q e b w = (Inr r, t)" for q w
    using that by (auto simp: resolve_existing_def find_event_def ensure_apply bnd_result_Inr dest!: find_Some_in split: if_splits)
  have body: "\<exists>q\<in>set (audit_records w). ar_event q = ne_event e \<and> q = p"
    if "append_body v e x = (Inr p, w)" for p x w
    using that by (rule append_body_Inr) (auto simp: find_event_def appended_def new_record_def dest!: find_Some_in)
  have "\<exists>q\<in>set (audit_records t). ar_event q = ne_event e \<and> r = audit_response_of q"
  proof (cases "find_event (ne_event e) s")
    case (Some q)
    then show ?thesis using run existing by (simp add: append_normalized_def)
  next
    case None
    let ?w = "av_others v 0 s"
    from run None consider
      (stored) p w where "append_body v e ?w = (Inr p, w)" "resolve_existing p e b w = (Inr r, t)"
    | (winner) w q where "find_event (ne_event e) w = Some q" "resolve_existing q e b w = (Inr r, t)"
      by (auto simp: append_normalized_def catch_result bnd_result_Inr transaction_Inr split: option.splits if_splits)
    then show ?thesis
    proof cases
      case stored
      then show ?thesis
        using body [OF stored(1)] by (auto simp: resolve_existing_def ensure_apply bnd_result_Inr split: if_splits)
    next
      case winner
      then show ?thesis by (rule existing)
    qed
  qed
  then obtain q where q: "q \<in> set (audit_records t)" "ar_event q = ae_event c" "r = audit_response_of q"
    using ev by auto
  have "audit_step ?sha s t"
    using append_event_step [OF assms(5,2) others] assms(4) by (rule stepsD_eq)
  then have t: "audit_ok ?sha t" using audit_run_ok [OF assms(1)] by (simp add: audit_step_def)
  have u: "audit_ok ?sha u" "prefix (audit_records t) (audit_records u)"
    using audit_run_step [OF assms(6)] t by (simp_all add: audit_step_def)
  have "q \<in> set (audit_records u)" using q(1) u(2) by (auto simp: prefix_def)
  then have found: "find_event (ae_event c) u = Some q"
    unfolding find_event_def using find_key_unique [OF audit_okD(2) [OF u(1)]] q(2) by blast
  have "append_event v' b' c' u =
      (case normalize_event v' c' of Inl e \<Rightarrow> Inl e
       | Inr e \<Rightarrow> if same_event b' q e then Inr (audit_response_of q) else Inl audit_event_reused, u)"
    if c': "ae_event c' = ae_event c" for v' b' c'
  proof (cases "normalize_event v' c'")
    case (Inr e')
    then have "ne_event e' = ae_event c'"
      by (auto simp: normalize_event_def split: option.splits sum.splits)
    then show ?thesis
      using Inr found c' by (simp add: append_event_def append_normalized_def resolve_existing_def)
  qed (simp add: append_event_def)
  then show ?thesis using q by blast
qed

theorem audit_event_recorded_once_witness:
  "append_event demo_audit_env False demo_event demo_audited = (Inr (audit_response_of demo_audit_record), demo_audited)"
proof -
  have sha: "av_sha256 demo_audit_env = demo_digest" by (simp add: demo_audit_env_def)
  have "request_event_ok demo_event" by code_simp
  then obtain q where "q \<in> set (audit_records demo_audited)"
    and "append_event demo_audit_env False demo_event demo_audited =
         (case normalize_event demo_audit_env demo_event of
            Inl e \<Rightarrow> Inl e
          | Inr e \<Rightarrow> if same_event False q e then Inr (audit_response_of q) else Inl audit_event_reused, demo_audited)"
    using audit_event_recorded_once [of demo_audit_env empty_audit False demo_event _ demo_audited demo_audited]
      demo_append demo_env_ok audit_idle [of demo_digest] unfolding sha by blast
  then show ?thesis using demo_same by (simp add: demo_normalized demo_audited_def)
qed

text \<open>
  C22. Every row of the audit tables is well typed: its stream, action, entity and actor are safe
  identifiers within their columns, its instant is one a \<open>Date\<close> can hold, its metadata follow the
  sanitiser's rules, both hashes are 64 lower-case hexadecimal digits, and its number is within those of
  its stream, which exists.
\<close>

theorem audit_rows_well_typed:
  assumes "audit_run sha empty_audit s" and "r \<in> set (audit_records s)"
  shows "typed_record r \<and>
    (\<exists>st. find_stream (ar_stream r) s = Some st \<and> 1 \<le> ar_sequence r \<and> ar_sequence r \<le> as_sequence st)"
proof
  have ok: "audit_ok sha s" using assms(1) by (rule audit_run_ok)
  show "typed_record r" using audit_okD(4) [OF ok assms(2)] .
  obtain st where st: "st \<in> set (audit_streams s)" "as_key st = ar_stream r"
    using audit_okD(5) [OF ok assms(2)] by auto
  then have found: "find_stream (ar_stream r) s = Some st"
    unfolding find_stream_def using find_key_unique [OF audit_okD(1) [OF ok]] by blast
  have "map ar_sequence (stream_records (ar_stream r) s) = [1..as_sequence st]"
    using linked_numbers [OF linked_stream [OF ok found]] by simp
  moreover have "r \<in> set (stream_records (ar_stream r) s)" using assms(2) by (simp add: stream_records_def)
  ultimately have "ar_sequence r \<in> set [1..as_sequence st]" by (metis image_eqI set_map)
  then show "\<exists>st. find_stream (ar_stream r) s = Some st \<and> 1 \<le> ar_sequence r \<and> ar_sequence r \<le> as_sequence st"
    using found by auto
qed

theorem audit_rows_well_typed_witness:
  "typed_record demo_audit_record \<and> (\<exists>st. find_stream ''t:1'' demo_audited = Some st \<and> 1 \<le> as_sequence st)"
proof -
  have "demo_audit_record \<in> set (audit_records demo_audited)" by (simp add: demo_audited_def)
  moreover have "ar_stream demo_audit_record = ''t:1''" "ar_sequence demo_audit_record = 1"
    by (simp_all add: demo_audit_record_def)
  ultimately show ?thesis using audit_rows_well_typed [OF demo_run, of demo_audit_record] by auto
qed

text \<open>
  C23. Metadata whose canonical text the column does not preserve, which is what happens to an object
  inside an array inside an array, is stored and refused at once: the append commits its record and
  answers \<open>AUDIT_EVENT_ID_REUSED\<close>, as if the identifier had been taken.
\<close>

theorem reordered_metadata_is_stored_and_refused:
  assumes "normalize_event v c = Inr e" and "find_event (ne_event e) s = None" and "\<forall>k u. av_others v k u = u"
    and "append_body v e s = (Inr q, t)"
    and "canonical_metadata (as_metadata (jsonb (JObj (ne_metadata e)))) \<noteq> canonical_metadata (ne_metadata e)"
  shows "append_event v b c s = (Inl audit_event_reused, t) \<and> q \<in> set (audit_records t) \<and> ar_event q = ne_event e"
proof -
  have "q \<in> set (audit_records t) \<and> ar_event q = ne_event e \<and> \<not> same_event b q e"
  proof (rule append_body_Inr [OF assms(4)])
    fix u
    assume u: "insert_stream (ne_stream e) s = (Inr (), u)"
      and t: "find_event (ne_event e) u = Some q \<and> t = u \<or>
      (\<exists>st. find_event (ne_event e) u = None \<and> find_stream (ne_stream e) u = Some st \<and>
         record_check (new_record v e st) \<and> q = appended v e st \<and>
         t = u\<lparr>audit_records := audit_records u @ [q],
               audit_streams := update_where (\<lambda>a. as_key a = ne_stream e)
                 (\<lambda>a. a\<lparr>as_sequence := as_sequence st + 1, as_hash := ar_current q\<rparr>) (audit_streams u)\<rparr>)"
    have "find_event (ne_event e) u = None"
      using u assms(2) by (auto simp: insert_stream_def find_event_def split: if_splits)
    then obtain st where "q = appended v e st" "audit_records t = audit_records u @ [q]" using t by auto
    then show ?thesis using assms(5) by (simp add: appended_def new_record_def same_event_def del: jsonb.simps)
  qed
  moreover have "transaction (\<lambda>_. True) (append_body v e) s = (Inr q, t)"
    using assms(4) by (simp add: transaction_Inr)
  ultimately show ?thesis
    using assms(1,2,3)
    by (simp add: append_event_def append_normalized_def catch_def bnd_def resolve_existing_def ensure_def audit_event_reused_def)
qed

definition nested_metadata :: "(string \<times> json) list" where
  "nested_metadata = [(''a'', JArr [JArr [JObj [(''bb'', JNull), (''c'', JNull)]]])]"

definition nested_normal :: normalized_event where
  "nested_normal = demo_normal\<lparr>ne_metadata := nested_metadata\<rparr>"

lemma nested_record_check:
  "record_check (new_record demo_audit_env nested_normal \<lparr>as_key = ''t:1'', as_sequence = 0, as_hash = genesis_hash\<rparr>)"
proof -
  have "av_sha256 demo_audit_env = demo_digest" by (simp add: demo_audit_env_def)
  then show ?thesis
    by (simp add: record_check_def new_record_def nested_normal_def nested_metadata_def demo_normal_def char_count_def)
qed

theorem reordered_metadata_is_stored_and_refused_witness:
  "\<exists>t. append_event demo_audit_env False (demo_event\<lparr>ae_metadata := Some nested_metadata\<rparr>) empty_audit = (Inl audit_event_reused, t) \<and>
     length (audit_records t) = 1"
proof -
  have n: "normalize_event demo_audit_env (demo_event\<lparr>ae_metadata := Some nested_metadata\<rparr>) = Inr nested_normal"
    by code_simp
  have names: "ne_stream nested_normal = ''t:1''" "ne_event nested_normal = ''e1''"
    by (simp_all add: nested_normal_def demo_normal_def)
  have "canonical_metadata (as_metadata (jsonb (JObj (ne_metadata nested_normal)))) \<noteq> canonical_metadata (ne_metadata nested_normal)"
    by code_simp
  moreover obtain q t where t: "append_body demo_audit_env nested_normal empty_audit = (Inr q, t)" "length (audit_records t) = 1"
    using first_append [of nested_normal demo_audit_env] nested_record_check by (auto simp: names char_count_def Let_def)
  moreover have "\<forall>k u. av_others demo_audit_env k u = u" "find_event (ne_event nested_normal) empty_audit = None"
    by (simp_all add: demo_audit_env_def find_event_def empty_audit_def)
  ultimately show ?thesis using reordered_metadata_is_stored_and_refused [OF n] by blast
qed

end
