(* ===== verification/PayrollModel.thy ===== *)
theory PayrollModel
  imports TransferService
begin

text \<open>
  The state of the Payroll service (services/payroll-service): the tables of its two migrations with
  their checks and unique indexes, the leases that the workers keep in Redis, its DTOs and the
  environment of a request or a worker.

  \<open>'w\<close> is the world outside: BullMQ's queue and the Account and Transaction services, whose answers are
  functions of the environment that may change it. Redis is modelled by what the two scripts and the
  one command of the lease do to its keys; a lease is a token and the time at which it expires.
\<close>

section \<open>Rows\<close>

datatype job_status = JobPending | JobQueued | JobProcessing | JobCompleted | JobPartiallyFailed | JobFailed
datatype item_status = ItemPending | ItemProcessing | ItemCompleted | ItemFailed

record payroll_job =
  pj_id :: uuid
  pj_employer :: string
  pj_source :: uuid
  pj_currency :: string
  pj_status :: job_status
  pj_total :: nat
  pj_completed :: nat
  pj_failed :: nat
  pj_amount :: rat
  pj_bullmq :: "uuid option"
  pj_queue_failures :: nat
  pj_queue_error :: "string option"
  pj_started :: "instant option"
  pj_finished :: "instant option"
  pj_updated :: instant

record payroll_item =
  pi_id :: uuid
  pi_job :: uuid
  pi_sequence :: nat
  pi_external :: string
  pi_recipient :: uuid
  pi_amount :: rat
  pi_currency :: string
  pi_status :: item_status
  pi_attempts :: nat
  pi_token :: "uuid option"
  pi_started :: "instant option"
  pi_transfer :: "uuid option"
  pi_key :: string
  pi_failure :: "string option"
  pi_finished :: "instant option"

record payroll_record =
  py_employer :: string
  py_key :: string
  py_hash :: string
  py_job :: uuid
  py_state :: idempotency_state
  py_status :: "nat option"
  py_replay_until :: instant
  py_retain_until :: instant

record 'w payroll_state =
  jobs :: "payroll_job list"
  items :: "payroll_item list"
  job_keys :: "payroll_record list"
  leases :: "string \<Rightarrow> (uuid \<times> instant) option"
  others_world :: 'w

definition job_check :: "payroll_job \<Rightarrow> bool" where
  "job_check j \<longleftrightarrow>
     is_currency (pj_currency j) \<and> 0 < pj_amount j \<and> 0 < pj_total j \<and>
     pj_completed j + pj_failed j \<le> pj_total j \<and> char_count (pj_employer j) \<le> 100 \<and>
     short_text 80 (pj_queue_error j)"

definition item_check :: "payroll_item \<Rightarrow> bool" where
  "item_check i \<longleftrightarrow>
     0 < pi_amount i \<and> is_currency (pi_currency i) \<and> (pi_token i = None) = (pi_started i = None) \<and>
     char_count (pi_external i) \<le> 128 \<and> char_count (pi_key i) \<le> 128 \<and> short_text 80 (pi_failure i)"

section \<open>Row operations\<close>

definition create_job :: "payroll_job \<Rightarrow> ('w payroll_state, unit) act" where
  "create_job j s =
     (case money_column (pj_amount j) of
        None \<Rightarrow> (Inl (DbError DbCheck), s)
      | Some a \<Rightarrow>
          let row = j\<lparr>pj_amount := a\<rparr> in
          if \<not> job_check row then (Inl (DbError DbCheck), s)
          else if key_taken pj_id (pj_id row) (jobs s) \<or>
                  (pj_bullmq row \<noteq> None \<and> key_taken pj_bullmq (pj_bullmq row) (jobs s))
          then (Inl (DbError P2002), s)
          else (Inr (), s\<lparr>jobs := jobs s @ [row]\<rparr>))"

definition item_conflict :: "payroll_item \<Rightarrow> payroll_item list \<Rightarrow> bool" where
  "item_conflict i rows \<longleftrightarrow>
     key_taken pi_id (pi_id i) rows \<or>
     key_taken (\<lambda>q. (pi_job q, pi_external q)) (pi_job i, pi_external i) rows \<or>
     key_taken (\<lambda>q. (pi_job q, pi_sequence q)) (pi_job i, pi_sequence i) rows \<or>
     key_taken pi_key (pi_key i) rows \<or>
     (pi_transfer i \<noteq> None \<and> key_taken pi_transfer (pi_transfer i) rows)"

definition create_item :: "payroll_item \<Rightarrow> ('w payroll_state, unit) act" where
  "create_item i s =
     (case money_column (pi_amount i) of
        None \<Rightarrow> (Inl (DbError DbCheck), s)
      | Some a \<Rightarrow>
          let row = i\<lparr>pi_amount := a\<rparr> in
          if \<not> item_check row \<or> \<not> key_taken pj_id (pi_job row) (jobs s) then (Inl (DbError DbCheck), s)
          else if item_conflict row (items s) then (Inl (DbError P2002), s)
          else (Inr (), s\<lparr>items := items s @ [row]\<rparr>))"

definition create_job_key :: "payroll_record \<Rightarrow> ('w payroll_state, unit) act" where
  "create_job_key r s =
     (if \<not> (py_replay_until r \<le> py_retain_until r) \<or> \<not> key_taken pj_id (py_job r) (jobs s) \<or>
         128 < length (py_key r)
      then (Inl (DbError DbCheck), s)
      else if key_taken (\<lambda>q. (py_employer q, py_key q)) (py_employer r, py_key r) (job_keys s) \<or>
              key_taken py_job (py_job r) (job_keys s)
      then (Inl (DbError P2002), s)
      else (Inr (), s\<lparr>job_keys := job_keys s @ [r]\<rparr>))"

text \<open>\<open>updateMany\<close>; the count is the result. \<open>@updatedAt\<close> sets the time of a changed job.\<close>

definition update_jobs :: "instant \<Rightarrow> (payroll_job \<Rightarrow> bool) \<Rightarrow> (payroll_job \<Rightarrow> payroll_job) \<Rightarrow> ('w payroll_state, nat) act" where
  "update_jobs now P f s =
     (let rows = update_where P (\<lambda>j. (f j)\<lparr>pj_updated := now\<rparr>) (jobs s) in
      if \<not> list_all (\<lambda>j. P j \<longrightarrow> job_check (f j)) (jobs s) then (Inl (DbError DbCheck), s)
      else if \<not> unique_some pj_bullmq rows then (Inl (DbError P2002), s)
      else (Inr (count_where P (jobs s)), s\<lparr>jobs := rows\<rparr>))"

definition update_items :: "(payroll_item \<Rightarrow> bool) \<Rightarrow> (payroll_item \<Rightarrow> payroll_item) \<Rightarrow> ('w payroll_state, nat) act" where
  "update_items P f s =
     (let rows = update_where P f (items s) in
      if \<not> list_all (\<lambda>i. P i \<longrightarrow> item_check (f i)) (items s) then (Inl (DbError DbCheck), s)
      else if \<not> unique_some pi_transfer rows then (Inl (DbError P2002), s)
      else (Inr (count_where P (items s)), s\<lparr>items := rows\<rparr>))"

definition update_job_key :: "uuid \<Rightarrow> (payroll_record \<Rightarrow> payroll_record) \<Rightarrow> ('w payroll_state, unit) act" where
  "update_job_key i f s =
     (if \<not> key_taken py_job i (job_keys s) then (Inl (DbError P2025), s)
      else (Inr (), s\<lparr>job_keys := update_where (\<lambda>r. py_job r = i) f (job_keys s)\<rparr>))"

text \<open>\<open>update\<close> of one job by its identifier.\<close>

definition update_job :: "instant \<Rightarrow> uuid \<Rightarrow> (payroll_job \<Rightarrow> payroll_job) \<Rightarrow> ('w payroll_state, unit) act" where
  "update_job now i f =
     bnd (update_jobs now (\<lambda>j. pj_id j = i) f) (\<lambda>count. ensure (count \<noteq> 0) (DbError P2025))"

definition find_job_row :: "uuid \<Rightarrow> 'w payroll_state \<Rightarrow> payroll_job option" where
  "find_job_row i s = List.find (\<lambda>j. pj_id j = i) (jobs s)"

definition items_of :: "uuid \<Rightarrow> item_status \<Rightarrow> 'w payroll_state \<Rightarrow> payroll_item list" where
  "items_of i st s = sort_key pi_sequence (filter (\<lambda>q. pi_job q = i \<and> pi_status q = st) (items s))"

section \<open>Requests\<close>

record payroll_item_dto =
  id_external :: string
  id_recipient :: uuid
  id_amount :: string

record create_payroll_dto =
  cy_source :: uuid
  cy_currency :: string
  cy_items :: "payroll_item_dto list"

text \<open>\<open>^(?:0|[1-9]\d{0,19})\.\d{1,8}$\<close> is \<open>money_pattern\<close>.\<close>

definition create_payroll_ok :: "(string \<Rightarrow> bool) \<Rightarrow> create_payroll_dto \<Rightarrow> bool" where
  "create_payroll_ok is_uuid c \<longleftrightarrow>
     is_uuid (cy_source c) \<and> is_currency (cy_currency c) \<and> cy_items c \<noteq> [] \<and>
     list_all (\<lambda>i. 1 \<le> char_count (id_external i) \<and> char_count (id_external i) \<le> 128 \<and>
       is_uuid (id_recipient i) \<and> money_pattern (id_amount i)) (cy_items c)"

record job_response =
  jr_id :: uuid
  jr_status :: job_status
  jr_total :: nat
  jr_pending :: int
  jr_processing :: nat
  jr_completed :: nat
  jr_failed :: nat
  jr_updated :: instant
  jr_status_url :: "string option"
  jr_failures :: "(string \<times> string) list option"
  jr_queue_failures :: nat
  jr_queue_error :: "string option"

text \<open>\<open>WalletValidation\<close> of this service's account client.\<close>

record source_wallet =
  sw_wallet :: uuid
  sw_owner :: string
  sw_currency :: string
  sw_status :: string

text \<open>
  What a transfer's JSON body gives: the fields \<open>transferId\<close> and \<open>status\<close> when they are strings, and the
  code of its failure.
\<close>

record payroll_transfer =
  pt_id :: "uuid option"
  pt_status :: "string option"
  pt_failure :: "string option"

record domestic_command =
  dc_sender :: uuid
  dc_recipient :: uuid
  dc_amount :: string
  dc_currency :: string

text \<open>What \<open>InternalHttpClient.request\<close> gives: a body, an \<open>UpstreamHttpError\<close>, an \<open>UpstreamUnavailableError\<close>.\<close>

datatype 'a reply =
    Replied 'a
  | Refused nat string string 'a  \<comment> \<open>status, code, message, body\<close>
  | Unreachable

text \<open>
  The environment of a request or a worker. \<open>yv_others k i\<close> is what others do at the await numbered \<open>k\<close>,
  for the item \<open>i\<close> where one is handled; \<open>yv_lost k i\<close> is the value of the flag \<open>leaseLost\<close>, which the
  renewal timer sets, where the code reads it. Queue operations throw when Redis does not answer.
\<close>

record 'w payroll_env =
  yv_decimal :: decimal_lib
  yv_digest :: "json \<Rightarrow> string"
  yv_others :: "nat \<Rightarrow> uuid \<Rightarrow> 'w payroll_state \<Rightarrow> 'w payroll_state"
  yv_lost :: "nat \<Rightarrow> uuid \<Rightarrow> bool"
  yv_now :: "nat \<Rightarrow> instant"
  yv_job_id :: uuid
  yv_item_id :: "nat \<Rightarrow> uuid"
  yv_lease_token :: uuid
  yv_item_token :: "uuid \<Rightarrow> uuid"
  yv_token :: "string option"
  yv_account_url :: "string option"
  yv_transaction_url :: "string option"
  yv_validation :: "uuid \<Rightarrow> 'w \<Rightarrow> source_wallet fetched \<times> 'w"
  yv_create_domestic :: "string \<Rightarrow> string \<Rightarrow> domestic_command \<Rightarrow> 'w \<Rightarrow> payroll_transfer fetched \<times> 'w"
  yv_queue_state :: "uuid \<Rightarrow> 'w \<Rightarrow> failure + string option"  \<comment> \<open>\<open>getJob\<close> and \<open>getState\<close>\<close>
  yv_queue_remove :: "uuid \<Rightarrow> 'w \<Rightarrow> (failure + unit) \<times> 'w"
  yv_queue_add :: "uuid \<Rightarrow> 'w \<Rightarrow> (failure + unit) \<times> 'w"

section \<open>Leases\<close>

text \<open>\<open>encodeURIComponent\<close> on the bytes of a text, and the key of an employer's lease.\<close>

definition unreserved :: "char \<Rightarrow> bool" where
  "unreserved c \<longleftrightarrow> is_alnum c \<or> c \<in> set ''-_.!~*'' \<or> c = CHR 0x27 \<or> c = CHR 0x28 \<or> c = CHR 0x29"

definition upper_hex :: "nat \<Rightarrow> char" where
  "upper_hex n = (if n < 10 then digit_char n else char_of (55 + n))"

definition encode_uri_component :: "string \<Rightarrow> string" where
  "encode_uri_component t =
     concat (map (\<lambda>c. if unreserved c then [c]
       else let k = (of_char c :: nat) in [CHR ''%'', upper_hex (k div 16), upper_hex (k mod 16)]) t)"

definition lease_key :: "string \<Rightarrow> string" where
  "lease_key employer = ''novapay:payroll:employer:'' @ encode_uri_component employer @ '':lease''"

text \<open>The value of a key at a time: an expired one is gone.\<close>

definition held_by :: "instant \<Rightarrow> string \<Rightarrow> 'w payroll_state \<Rightarrow> uuid option" where
  "held_by now k s =
     (case leases s k of None \<Rightarrow> None | Some (token, expires) \<Rightarrow> if now < expires then Some token else None)"

text \<open>
  \<open>SET key token PX ttl NX\<close>, and the two scripts, as Redis carries them out. A call of Redis that is rejected is
  not among the outcomes: the worker would throw as it does when the lease is busy.
\<close>

definition acquire_lease :: "instant \<Rightarrow> string \<Rightarrow> uuid \<Rightarrow> int \<Rightarrow> ('w payroll_state, bool) act" where
  "acquire_lease now employer token ttl s =
     (let k = lease_key employer in
      if held_by now k s \<noteq> None then (Inr False, s)
      else (Inr True, s\<lparr>leases := (leases s)(k := Some (token, now + ttl))\<rparr>))"

definition renew_lease :: "instant \<Rightarrow> string \<Rightarrow> uuid \<Rightarrow> int \<Rightarrow> ('w payroll_state, bool) act" where
  "renew_lease now employer token ttl s =
     (let k = lease_key employer in
      if held_by now k s = Some token
      then (Inr True, s\<lparr>leases := (leases s)(k := Some (token, now + ttl))\<rparr>)
      else (Inr False, s))"

definition release_lease :: "instant \<Rightarrow> string \<Rightarrow> uuid \<Rightarrow> ('w payroll_state, bool) act" where
  "release_lease now employer token s =
     (let k = lease_key employer in
      if held_by now k s = Some token
      then (Inr True, s\<lparr>leases := (leases s)(k := None)\<rparr>)
      else (Inr False, s))"

end
