(* ===== verification/PayrollService.thy ===== *)
theory PayrollService
  imports PayrollModel
begin

text \<open>
  \<open>PayrollService\<close>, its clients, the queue service and the controllers
  (services/payroll-service/src/payroll/payroll.service.ts, src/clients, src/queue): submission with
  its idempotency record, replays, the queue and the views of a job. The order of texts is that of their
  bytes.
\<close>

section \<open>Clients\<close>

text \<open>\<open>InternalHttpClient.request\<close>; \<open>internal\<close> says whether the call carries the service token.\<close>

definition payroll_request ::
  "string \<Rightarrow> string \<Rightarrow> string option \<Rightarrow> string option \<Rightarrow> bool \<Rightarrow> 'a fetched \<Rightarrow> 'a reply" where
  "payroll_request service upper url token internal r =
     (if \<not> truthy url \<or> (internal \<and> \<not> truthy token) then Unreachable
      else case r of
        NoResponse \<Rightarrow> Unreachable
      | Response status body code msg \<Rightarrow>
          if 200 \<le> status \<and> status \<le> 299 then Replied body
          else Refused status (case code of Some c \<Rightarrow> c | None \<Rightarrow> upper @ ''_ERROR'')
            (case msg of Some m \<Rightarrow> m | None \<Rightarrow> service @ '' request failed.'') body)"

definition call_service ::
  "string \<Rightarrow> string \<Rightarrow> string option \<Rightarrow> string option \<Rightarrow> bool \<Rightarrow> ('w \<Rightarrow> 'a fetched \<times> 'w) \<Rightarrow>
     ('w payroll_state, 'a reply) act" where
  "call_service service upper url token internal send s =
     (if \<not> truthy url \<or> (internal \<and> \<not> truthy token) then (Inr Unreachable, s)
      else let (r, w) = send (others_world s)
           in (Inr (payroll_request service upper url token internal r), s\<lparr>others_world := w\<rparr>))"

definition source_validation :: "'w payroll_env \<Rightarrow> uuid \<Rightarrow> ('w payroll_state, source_wallet reply) act" where
  "source_validation v wallet =
     call_service ''account'' ''ACCOUNT'' (yv_account_url v) (yv_token v) True (yv_validation v wallet)"

definition create_domestic_call ::
  "'w payroll_env \<Rightarrow> string \<Rightarrow> string \<Rightarrow> domestic_command \<Rightarrow> ('w payroll_state, payroll_transfer reply) act" where
  "create_domestic_call v employer key c =
     call_service ''transaction'' ''TRANSACTION'' (yv_transaction_url v) (yv_token v) False
       (yv_create_domestic v employer key c)"

section \<open>Errors\<close>

definition payroll_too_large :: failure where
  "payroll_too_large = http_failure 413 ''PAYROLL_TOO_LARGE'' ''Payroll jobs are limited to 15000 items.''"

definition duplicate_external_item :: failure where
  "duplicate_external_item = http_failure 400 ''DUPLICATE_EXTERNAL_ITEM_ID''
     ''Each external item ID must be unique within a payroll job.''"

definition invalid_item_amount :: failure where
  "invalid_item_amount =
     http_failure 400 ''INVALID_AMOUNT'' ''Payroll item amounts must be greater than zero.''"

definition payroll_payload_mismatch :: failure where
  "payroll_payload_mismatch = http_failure 409 ''IDEMPOTENCY_PAYLOAD_MISMATCH''
     ''The idempotency key was already used for a different payroll request.''"

definition payroll_key_expired :: failure where
  "payroll_key_expired =
     http_failure 409 ''IDEMPOTENCY_KEY_EXPIRED'' ''The idempotency replay window has expired.''"

definition payroll_access_denied :: failure where
  "payroll_access_denied = http_failure 403 ''PAYROLL_ACCESS_DENIED''
     ''The payroll job is not accessible to this principal.''"

definition payroll_job_not_found :: failure where
  "payroll_job_not_found = http_failure 404 ''PAYROLL_JOB_NOT_FOUND'' ''Payroll job not found.''"

definition queue_unavailable :: failure where
  "queue_unavailable = http_failure 503 ''QUEUE_UNAVAILABLE''
     ''The payroll job was persisted and will be enqueued when Redis recovers.''"

definition employer_wallet_denied :: "string \<Rightarrow> failure" where
  "employer_wallet_denied msg = http_failure 403 ''EMPLOYER_WALLET_ACCESS_DENIED'' msg"

definition payroll_currency_mismatch :: failure where
  "payroll_currency_mismatch = http_failure 400 ''CURRENCY_MISMATCH''
     ''The payroll currency must match the source wallet currency.''"

definition source_unavailable :: failure where
  "source_unavailable =
     http_failure 503 ''ACCOUNT_UNAVAILABLE'' ''The source wallet could not be validated.''"

section \<open>Commands\<close>

definition max_items :: nat where
  "max_items = 15000"

fun item_problem :: "decimal_lib \<Rightarrow> string list \<Rightarrow> payroll_item_dto list \<Rightarrow> failure option" where
  "item_problem D seen [] = None"
| "item_problem D seen (i # rest) =
     (if id_external i \<in> set seen then Some duplicate_external_item
      else if \<not> dl_positive D (dl_of D (id_amount i)) then Some invalid_item_amount
      else item_problem D (id_external i # seen) rest)"

definition normalize_payroll :: "decimal_lib \<Rightarrow> create_payroll_dto \<Rightarrow> failure + create_payroll_dto" where
  "normalize_payroll D c =
     (if max_items < length (cy_items c) then Inl payroll_too_large
      else case item_problem D [] (cy_items c) of
          Some e \<Rightarrow> Inl e
        | None \<Rightarrow> Inr (c\<lparr>cy_items := sort_key id_external (cy_items c)\<rparr>))"

definition canonical_item :: "decimal_lib \<Rightarrow> payroll_item_dto \<Rightarrow> json" where
  "canonical_item D i =
     JObj [(''externalItemId'', JStr (id_external i)), (''recipientWalletId'', JStr (id_recipient i)),
           (''amount'', JStr (dl_fixed D 8 (dl_of D (id_amount i))))]"

text \<open>\<open>canonicalPayrollHash\<close>; \<open>yv_digest\<close> is the digest of the text that \<open>JSON.stringify\<close> gives.\<close>

definition payroll_body :: "decimal_lib \<Rightarrow> create_payroll_dto \<Rightarrow> json" where
  "payroll_body D c =
     JObj
       [(''method'', JStr ''POST''), (''route'', JStr ''/payroll/jobs''),
        (''sourceWalletId'', JStr (cy_source c)), (''currency'', JStr (cy_currency c)),
        (''items'', JArr (map (canonical_item D) (cy_items c)))]"

definition payroll_hash :: "'w payroll_env \<Rightarrow> create_payroll_dto \<Rightarrow> string" where
  "payroll_hash v c = yv_digest v (payroll_body (yv_decimal v) c)"

definition new_items :: "'w payroll_env \<Rightarrow> create_payroll_dto \<Rightarrow> payroll_item list" where
  "new_items v c =
     map (\<lambda>(n, i).
       \<lparr>pi_id = yv_item_id v n, pi_job = yv_job_id v, pi_sequence = n, pi_external = id_external i,
        pi_recipient = id_recipient i, pi_amount = dl_of (yv_decimal v) (id_amount i),
        pi_currency = cy_currency c, pi_status = ItemPending, pi_attempts = 0, pi_token = None,
        pi_started = None, pi_transfer = None,
        pi_key = ''payroll:'' @ yv_job_id v @ '':'' @ yv_item_id v n, pi_failure = None, pi_finished = None\<rparr>)
     (enumerate 0 (cy_items c))"

definition new_job :: "'w payroll_env \<Rightarrow> string \<Rightarrow> create_payroll_dto \<Rightarrow> payroll_job" where
  "new_job v employer c =
     \<lparr>pj_id = yv_job_id v, pj_employer = employer, pj_source = cy_source c, pj_currency = cy_currency c,
      pj_status = JobPending, pj_total = length (new_items v c), pj_completed = 0, pj_failed = 0,
      pj_amount = foldl (\<lambda>sum i. dl_plus (yv_decimal v) sum (pi_amount i)) 0 (new_items v c),
      pj_bullmq = None, pj_queue_failures = 0, pj_queue_error = None, pj_started = None,
      pj_finished = None, pj_updated = yv_now v 0\<rparr>"

definition payroll_replay_ms :: int where
  "payroll_replay_ms = 24 * 60 * 60 * 1000"

definition payroll_retention_ms :: int where
  "payroll_retention_ms = 7 * 365 * 24 * 60 * 60 * 1000"

definition new_job_key :: "'w payroll_env \<Rightarrow> string \<Rightarrow> string \<Rightarrow> string \<Rightarrow> payroll_record" where
  "new_job_key v employer key hash =
     \<lparr>py_employer = employer, py_key = key, py_hash = hash, py_job = yv_job_id v, py_state = KeyProcessing,
      py_status = None, py_replay_until = yv_now v 0 + payroll_replay_ms,
      py_retain_until = yv_now v 0 + payroll_retention_ms\<rparr>"

definition create_payroll ::
  "'w payroll_env \<Rightarrow> string \<Rightarrow> string \<Rightarrow> string \<Rightarrow> create_payroll_dto \<Rightarrow> ('w payroll_state, unit) act" where
  "create_payroll v employer key hash c =
     bnd (create_job (new_job v employer c)) (\<lambda>_.
     bnd (each create_item (new_items v c)) (\<lambda>_.
     create_job_key (new_job_key v employer key hash)))"

section \<open>Source wallet\<close>

definition validate_source :: "'w payroll_env \<Rightarrow> string \<Rightarrow> create_payroll_dto \<Rightarrow> ('w payroll_state, unit) act" where
  "validate_source v employer c =
     bnd (source_validation v (cy_source c)) (\<lambda>r.
     case r of
       Replied w \<Rightarrow>
         if sw_owner w \<noteq> employer \<or> sw_status w \<noteq> ''ACTIVE''
         then throw (employer_wallet_denied ''The source wallet is not an active wallet owned by the employer.'')
         else ensure (sw_currency w = cy_currency c) payroll_currency_mismatch
     | Refused status _ _ _ \<Rightarrow>
         if status = 404
         then throw (employer_wallet_denied ''The source wallet is not accessible to the employer.'')
         else throw source_unavailable
     | Unreachable \<Rightarrow> throw source_unavailable)"

section \<open>The queue\<close>

definition world_call :: "('w \<Rightarrow> (failure + 'a) \<times> 'w) \<Rightarrow> ('w payroll_state, 'a) act" where
  "world_call f s = (let (r, w) = f (others_world s) in (r, s\<lparr>others_world := w\<rparr>))"

text \<open>\<open>PayrollQueueService.enqueue\<close>: a finished queue job of the same identifier is replaced.\<close>

definition enqueue :: "'w payroll_env \<Rightarrow> uuid \<Rightarrow> ('w payroll_state, unit) act" where
  "enqueue v i =
     bnd (world_call (\<lambda>w. (yv_queue_state v i w, w))) (\<lambda>existing.
     bnd (pause (yv_others v 1 i)) (\<lambda>_.
     case existing of
       None \<Rightarrow> world_call (yv_queue_add v i)
     | Some st \<Rightarrow>
         if st \<notin> {''completed'', ''failed''} then ret ()
         else
           bnd (world_call (yv_queue_remove v i)) (\<lambda>_.
           bnd (pause (yv_others v 2 i)) (\<lambda>_.
           world_call (yv_queue_add v i)))))"

definition mark_queued :: "'w payroll_env \<Rightarrow> uuid \<Rightarrow> ('w payroll_state, unit) act" where
  "mark_queued v i =
     bnd (update_jobs (yv_now v 1) (\<lambda>j. pj_id j = i \<and> pj_status j \<in> {JobPending, JobQueued})
            (\<lambda>j. j\<lparr>pj_status := JobQueued, pj_bullmq := Some i, pj_queue_error := None\<rparr>)) (\<lambda>_.
     update_job_key i (\<lambda>r. r\<lparr>py_state := KeyCompleted, py_status := Some 202\<rparr>))"

definition ensure_enqueued :: "'w payroll_env \<Rightarrow> uuid \<Rightarrow> ('w payroll_state, unit) act" where
  "ensure_enqueued v i =
     catch
       (bnd (enqueue v i) (\<lambda>_.
        bnd (pause (yv_others v 3 i)) (\<lambda>_.
        transaction (\<lambda>_. True) (mark_queued v i))))
       (\<lambda>_.
        bnd (pause (yv_others v 4 i)) (\<lambda>_.
        bnd (update_job (yv_now v 2) i (\<lambda>j. j\<lparr>pj_queue_failures := pj_queue_failures j + 1,
               pj_queue_error := Some ''QUEUE_UNAVAILABLE''\<rparr>)) (\<lambda>_.
        throw queue_unavailable)))"

section \<open>Views\<close>

definition find_job :: "uuid \<Rightarrow> ('w payroll_state, payroll_job) act" where
  "find_job i =
     bnd (gets (find_job_row i)) (\<lambda>found.
     case found of None \<Rightarrow> throw payroll_job_not_found | Some j \<Rightarrow> ret j)"

definition job_response_of ::
  "payroll_job \<Rightarrow> bool \<Rightarrow> nat \<Rightarrow> payroll_item list \<Rightarrow> job_response" where
  "job_response_of j include_url processing unpaid =
     \<lparr>jr_id = pj_id j, jr_status = pj_status j, jr_total = pj_total j,
      jr_pending = int (pj_total j) - int (pj_completed j) - int (pj_failed j) - int processing,
      jr_processing = processing, jr_completed = pj_completed j, jr_failed = pj_failed j,
      jr_updated = pj_updated j,
      jr_status_url = (if include_url then Some (''/payroll/jobs/'' @ pj_id j) else None),
      jr_failures = (if unpaid = [] then None
        else Some (map (\<lambda>q. (pi_external q, case pi_failure q of None \<Rightarrow> ''PAYROLL_ITEM_FAILED'' | Some c \<Rightarrow> c)) unpaid)),
      jr_queue_failures = pj_queue_failures j, jr_queue_error = pj_queue_error j\<rparr>"

text \<open>\<open>toResponse\<close>: the job was read before; the two queries of \<open>Promise.all\<close> follow at a later time.\<close>

definition job_view :: "'w payroll_env \<Rightarrow> payroll_job \<Rightarrow> bool \<Rightarrow> ('w payroll_state, job_response) act" where
  "job_view v j include_url =
     bnd (pause (yv_others v 5 (pj_id j))) (\<lambda>_.
     bnd (gets (\<lambda>s. count_where (\<lambda>q. pi_job q = pj_id j \<and> pi_status q = ItemProcessing) (items s))) (\<lambda>processing.
     bnd (pause (yv_others v 6 (pj_id j))) (\<lambda>_.
     bnd (gets (\<lambda>s. take 20 (items_of (pj_id j) ItemFailed s))) (\<lambda>unpaid.
     ret (job_response_of j include_url processing unpaid)))))"

definition get_for_employer :: "'w payroll_env \<Rightarrow> string \<Rightarrow> uuid \<Rightarrow> bool \<Rightarrow> ('w payroll_state, job_response) act" where
  "get_for_employer v employer i include_url =
     bnd (find_job i) (\<lambda>j.
     bnd (ensure (pj_employer j = employer) payroll_access_denied) (\<lambda>_.
     job_view v j include_url))"

definition get_internal :: "'w payroll_env \<Rightarrow> uuid \<Rightarrow> ('w payroll_state, job_response) act" where
  "get_internal v i = bnd (find_job i) (\<lambda>j. job_view v j False)"

section \<open>Submission\<close>

definition find_job_key :: "string \<Rightarrow> string \<Rightarrow> 'w payroll_state \<Rightarrow> (payroll_record \<times> payroll_job) option" where
  "find_job_key employer key s =
     (case List.find (\<lambda>r. (py_employer r, py_key r) = (employer, key)) (job_keys s) of
        None \<Rightarrow> None
      | Some r \<Rightarrow> map_option (Pair r) (find_job_row (py_job r) s))"

definition replay_payroll :: "'w payroll_env \<Rightarrow> payroll_record \<times> payroll_job \<Rightarrow> string \<Rightarrow> ('w payroll_state, job_response) act" where
  "replay_payroll v found hash =
     (let (r, j) = found in
      bnd (ensure (py_hash r = hash) payroll_payload_mismatch) (\<lambda>_.
      bnd (ensure (yv_now v 3 < py_replay_until r) payroll_key_expired) (\<lambda>_.
      bnd (if pj_status j = JobPending
           then bnd (pause (yv_others v 7 (pj_id j))) (\<lambda>_. ensure_enqueued v (pj_id j)) else ret ()) (\<lambda>_.
      bnd (pause (yv_others v 8 (pj_id j))) (\<lambda>_.
      get_for_employer v (py_employer r) (pj_id j) True)))))"

definition submit_payroll ::
  "'w payroll_env \<Rightarrow> string \<Rightarrow> string \<Rightarrow> create_payroll_dto \<Rightarrow> ('w payroll_state, job_response) act" where
  "submit_payroll v employer key command =
     bnd (ensure (idempotency_key_ok key) invalid_idempotency_key) (\<lambda>_.
     case normalize_payroll (yv_decimal v) command of
       Inl e \<Rightarrow> throw e
     | Inr c \<Rightarrow>
         let hash = payroll_hash v c in
         bnd (gets (find_job_key employer key)) (\<lambda>existing.
         case existing of
           Some found \<Rightarrow> replay_payroll v found hash
         | None \<Rightarrow>
             bnd (pause (yv_others v 9 [])) (\<lambda>_.
             bnd (validate_source v employer c) (\<lambda>_.
             bnd (pause (yv_others v 10 [])) (\<lambda>_.
             bnd (catch
                    (bnd (transaction (\<lambda>_. True) (create_payroll v employer key hash c)) (\<lambda>_. ret None))
                    (\<lambda>e. if is_unique_violation e
                         then bnd (pause (yv_others v 11 [])) (\<lambda>_.
                              bnd (gets (find_job_key employer key)) (\<lambda>winner.
                              case winner of
                                Some found \<Rightarrow> bnd (replay_payroll v found hash) (\<lambda>r. ret (Some r))
                              | None \<Rightarrow> throw e))
                         else throw e)) (\<lambda>replayed.
             case replayed of
               Some r \<Rightarrow> ret r
             | None \<Rightarrow>
                 bnd (pause (yv_others v 12 [])) (\<lambda>_.
                 bnd (ensure_enqueued v (yv_job_id v)) (\<lambda>_.
                 bnd (pause (yv_others v 13 [])) (\<lambda>_.
                 get_for_employer v employer (yv_job_id v) True)))))))))"

section \<open>Controllers\<close>

definition submit_route ::
  "transfer_http \<Rightarrow> 'w payroll_env \<Rightarrow> string option \<Rightarrow> string \<Rightarrow> create_payroll_dto \<Rightarrow> ('w payroll_state, job_response) act" where
  "submit_route h v header key c =
     validated (create_payroll_ok (th_is_uuid h) c)
       (with_principal header (\<lambda>employer. submit_payroll v employer key c))"

definition get_job_route ::
  "transfer_http \<Rightarrow> 'w payroll_env \<Rightarrow> string option \<Rightarrow> uuid \<Rightarrow> ('w payroll_state, job_response) act" where
  "get_job_route h v header i =
     validated (th_is_uuid h i) (with_principal header (\<lambda>employer. get_for_employer v employer i False))"

definition get_internal_job_route ::
  "transfer_http \<Rightarrow> 'w payroll_env \<Rightarrow> uuid \<Rightarrow> ('w payroll_state, job_response) act" where
  "get_internal_job_route h v i =
     guarded (th_token h) (th_supplied h) (validated (th_is_uuid h i) (get_internal v i))"

end
