(* ===== verification/PayrollWorker.thy ===== *)
theory PayrollWorker
  imports PayrollService
begin

text \<open>
  The worker (services/payroll-service/src/payroll/payroll-processor.service.ts) and the recovery
  (src/queue/payroll-recovery.service.ts): a job is processed under its employer's lease, item by item,
  each by one call of the Transaction service with the item's own idempotency key, and every outcome is
  checkpointed with the token under which the item was claimed.

  The loop over batches has fuel, one unit per batch; \<open>None\<close> says that it ran out.
\<close>

section \<open>Checkpoints\<close>

definition checkpoint_body ::
  "'w payroll_env \<Rightarrow> payroll_item \<Rightarrow> bool \<Rightarrow> uuid option \<Rightarrow> string option \<Rightarrow> ('w payroll_state, unit) act" where
  "checkpoint_body v q completed transfer code =
     bnd (update_items (\<lambda>r. pi_id r = pi_id q \<and> pi_status r = ItemProcessing \<and> pi_token r = pi_token q)
            (\<lambda>r. r\<lparr>pi_status := (if completed then ItemCompleted else ItemFailed),
                   pi_transfer := (case transfer of None \<Rightarrow> pi_transfer r | Some t \<Rightarrow> Some t),
                   pi_failure := (if completed then None
                     else Some (case code of None \<Rightarrow> ''PAYROLL_ITEM_FAILED'' | Some c \<Rightarrow> c)),
                   pi_token := None, pi_started := None, pi_finished := Some (yv_now v 4)\<rparr>)) (\<lambda>count.
     if count = 1
     then update_job (yv_now v 5) (pi_job q)
            (\<lambda>j. if completed then j\<lparr>pj_completed := pj_completed j + 1\<rparr> else j\<lparr>pj_failed := pj_failed j + 1\<rparr>)
     else ret ())"

definition checkpoint ::
  "'w payroll_env \<Rightarrow> payroll_item \<Rightarrow> bool \<Rightarrow> uuid option \<Rightarrow> string option \<Rightarrow> ('w payroll_state, unit) act" where
  "checkpoint v q completed transfer code = transaction (\<lambda>_. True) (checkpoint_body v q completed transfer code)"

definition checkpoint_response :: "'w payroll_env \<Rightarrow> payroll_item \<Rightarrow> payroll_transfer \<Rightarrow> ('w payroll_state, unit) act" where
  "checkpoint_response v q t =
     (if pt_status t = Some ''COMPLETED'' then checkpoint v q True (pt_id t) None
      else if pt_status t = Some ''FAILED'' \<or> pt_status t = Some ''REVERSED''
      then checkpoint v q False (pt_id t)
             (Some (case pt_failure t of Some c \<Rightarrow> c | None \<Rightarrow> ''TRANSFER_'' @ the (pt_status t)))
      else
        bnd (update_items (\<lambda>r. pi_id r = pi_id q \<and> pi_status r = ItemProcessing \<and> pi_token r = pi_token q)
               (\<lambda>r. r\<lparr>pi_transfer := (case pt_id t of None \<Rightarrow> pi_transfer r | Some i \<Rightarrow> Some i)\<rparr>)) (\<lambda>_.
        throw (PlainError ''TRANSFER_NOT_TERMINAL'')))"

section \<open>Items\<close>

definition item_command :: "'w payroll_env \<Rightarrow> uuid \<Rightarrow> payroll_item \<Rightarrow> domestic_command" where
  "item_command v source q =
     \<lparr>dc_sender = source, dc_recipient = pi_recipient q,
      dc_amount = dl_fixed (yv_decimal v) 8 (pi_amount q), dc_currency = pi_currency q\<rparr>"

definition execute_item :: "'w payroll_env \<Rightarrow> payroll_job \<Rightarrow> payroll_item \<Rightarrow> ('w payroll_state, unit) act" where
  "execute_item v j q =
     bnd (create_domestic_call v (pj_employer j) (pi_key q) (item_command v (pj_source j) q)) (\<lambda>r.
     bnd (pause (yv_others v 20 (pi_id q))) (\<lambda>_.
     case r of
       Replied t \<Rightarrow> checkpoint_response v q t
     | Refused status code msg t \<Rightarrow>
         if pt_id t \<noteq> None \<and> pt_status t \<noteq> None then checkpoint_response v q t
         else if 400 \<le> status \<and> status < 500 then checkpoint v q False None (Some code)
         else throw (UpstreamHttpError ''transaction'' status code msg (JObj []))
     | Unreachable \<Rightarrow> throw (UpstreamUnavailableError ''transaction'')))"

text \<open>One claim: from \<open>PENDING\<close>, or again from \<open>PROCESSING\<close> with a new token.\<close>

definition claim_item :: "'w payroll_env \<Rightarrow> nat \<Rightarrow> item_status \<Rightarrow> payroll_item \<Rightarrow> ('w payroll_state, payroll_item option) act" where
  "claim_item v k from_status q =
     bnd (pause (yv_others v k (pi_id q))) (\<lambda>_.
     bnd (update_items (\<lambda>r. pi_id r = pi_id q \<and> pi_status r = from_status)
            (\<lambda>r. r\<lparr>pi_status := ItemProcessing, pi_token := Some (yv_item_token v (pi_id q)),
                   pi_started := Some (yv_now v 6), pi_attempts := pi_attempts r + 1\<rparr>)) (\<lambda>count.
     ret (if count = 1
          then Some (q\<lparr>pi_status := ItemProcessing, pi_token := Some (yv_item_token v (pi_id q)),
                       pi_started := Some (yv_now v 7), pi_attempts := pi_attempts q + 1\<rparr>)
          else None)))"

definition reconcile_claimed :: "'w payroll_env \<Rightarrow> payroll_job \<Rightarrow> ('w payroll_state, unit) act" where
  "reconcile_claimed v j =
     bnd (gets (items_of (pj_id j) ItemProcessing)) (\<lambda>qs.
     bnd (each (\<lambda>q. bnd (claim_item v 21 ItemProcessing q) (\<lambda>claimed.
                    case claimed of None \<Rightarrow> ret () | Some c \<Rightarrow>
                      bnd (pause (yv_others v 22 (pi_id q))) (\<lambda>_. execute_item v j c))) qs) (\<lambda>_.
     ret ()))"

definition item_batch_size :: nat where
  "item_batch_size = 100"

definition claim_pending_batch :: "'w payroll_env \<Rightarrow> uuid \<Rightarrow> ('w payroll_state, payroll_item list) act" where
  "claim_pending_batch v i =
     bnd (gets (\<lambda>s. take item_batch_size (items_of i ItemPending s))) (\<lambda>candidates.
     bnd (each (claim_item v 23 ItemPending) candidates) (\<lambda>claimed.
     ret (List.map_filter (\<lambda>c. c) claimed)))"

section \<open>Jobs\<close>

definition lease_lost :: failure where
  "lease_lost = PlainError ''EMPLOYER_LEASE_LOST''"

primrec work_batches :: "'w payroll_env \<Rightarrow> payroll_job \<Rightarrow> nat \<Rightarrow> ('w payroll_state, unit option) act" where
  "work_batches v j 0 = ret None"
| "work_batches v j (Suc n) =
     (if yv_lost v n [] then throw lease_lost
      else
        bnd (pause (yv_others v (24 + n) (pj_id j))) (\<lambda>_.
        bnd (claim_pending_batch v (pj_id j)) (\<lambda>batch.
        if batch = [] then ret (Some ())
        else
          bnd (each (\<lambda>q. if yv_lost v n (pi_id q) then throw lease_lost
                         else bnd (pause (yv_others v 22 (pi_id q))) (\<lambda>_. execute_item v j q)) batch) (\<lambda>_.
          work_batches v j n))))"

definition final_status :: "payroll_job \<Rightarrow> job_status" where
  "final_status j =
     (if pj_failed j = 0 then JobCompleted else if pj_completed j = 0 then JobFailed else JobPartiallyFailed)"

definition finalize_job :: "'w payroll_env \<Rightarrow> uuid \<Rightarrow> ('w payroll_state, unit) act" where
  "finalize_job v i =
     bnd (gets (find_job_row i)) (\<lambda>found.
     case found of
       None \<Rightarrow> throw (DbError P2025)
     | Some j \<Rightarrow>
         bnd (ensure (pj_completed j + pj_failed j = pj_total j) (PlainError ''PAYROLL_ITEMS_NONTERMINAL'')) (\<lambda>_.
         bnd (pause (yv_others v 15 i)) (\<lambda>_.
         update_job (yv_now v 8) i
           (\<lambda>r. r\<lparr>pj_status := final_status j, pj_finished := Some (yv_now v 9), pj_queue_error := None\<rparr>))))"

text \<open>\<open>try\<close> with a \<open>finally\<close> block whose own failure is ignored.\<close>

definition finally_do :: "('s, 'a) act \<Rightarrow> ('s, 'b) act \<Rightarrow> ('s, 'a) act" where
  "finally_do m f s = (let (r, t) = m s in (r, snd (f t)))"

definition is_terminal :: "job_status \<Rightarrow> bool" where
  "is_terminal st \<longleftrightarrow> st \<in> {JobCompleted, JobPartiallyFailed, JobFailed}"

definition lease_ttl_ms :: int where
  "lease_ttl_ms = 30000"

definition process_leased :: "'w payroll_env \<Rightarrow> nat \<Rightarrow> payroll_job \<Rightarrow> ('w payroll_state, unit option) act" where
  "process_leased v n j =
     bnd (update_job (yv_now v 10) (pj_id j)
            (\<lambda>r. r\<lparr>pj_status := JobProcessing,
                   pj_started := (case pj_started j of None \<Rightarrow> Some (yv_now v 11) | Some t \<Rightarrow> Some t),
                   pj_queue_error := None\<rparr>)) (\<lambda>_.
     bnd (pause (yv_others v 16 (pj_id j))) (\<lambda>_.
     bnd (reconcile_claimed v j) (\<lambda>_.
     bnd (work_batches v j n) (\<lambda>worked.
     case worked of
       None \<Rightarrow> ret None
     | Some _ \<Rightarrow>
         bnd (pause (yv_others v 17 (pj_id j))) (\<lambda>_.
         bnd (finalize_job v (pj_id j)) (\<lambda>_. ret (Some ())))))))"

text \<open>
  The release at the end takes effect while the lease is held. The code ignores a release that fails, and the
  lease then stays until it expires, as it does after a crash.
\<close>

definition process_job :: "'w payroll_env \<Rightarrow> nat \<Rightarrow> uuid \<Rightarrow> ('w payroll_state, unit option) act" where
  "process_job v n i =
     bnd (gets (find_job_row i)) (\<lambda>found.
     case found of
       None \<Rightarrow> throw (HttpException 404 None ''Payroll job not found.'')
     | Some j \<Rightarrow>
         if is_terminal (pj_status j) then ret (Some ())
         else
           bnd (pause (yv_others v 14 i)) (\<lambda>_.
           bnd (acquire_lease (yv_now v 12) (pj_employer j) (yv_lease_token v) lease_ttl_ms) (\<lambda>acquired.
           if \<not> acquired then throw (PlainError ''EMPLOYER_LEASE_BUSY'')
           else
             finally_do (bnd (pause (yv_others v 18 i)) (\<lambda>_. process_leased v n j))
               (bnd (pause (yv_others v 19 i)) (\<lambda>_.
                release_lease (yv_now v 13) (pj_employer j) (yv_lease_token v))))))"

definition note_queue_failure :: "'w payroll_env \<Rightarrow> uuid \<Rightarrow> ('w payroll_state, unit) act" where
  "note_queue_failure v i =
     bnd (update_jobs (yv_now v 14) (\<lambda>j. pj_id j = i \<and> pj_status j \<in> {JobPending, JobQueued, JobProcessing})
            (\<lambda>j. j\<lparr>pj_queue_failures := pj_queue_failures j + 1,
                   pj_queue_error := Some ''PAYROLL_WORKER_FAILED''\<rparr>)) (\<lambda>_. ret ())"

text \<open>The queue's worker function, with the handler of its \<open>failed\<close> event.\<close>

definition worker_run :: "'w payroll_env \<Rightarrow> nat \<Rightarrow> uuid \<Rightarrow> ('w payroll_state, unit option) act" where
  "worker_run v n i =
     catch (process_job v n i)
       (\<lambda>e. bnd (pause (yv_others v 0 i)) (\<lambda>_. bnd (note_queue_failure v i) (\<lambda>_. throw e)))"

section \<open>Recovery\<close>

definition open_jobs :: "'w payroll_state \<Rightarrow> uuid list" where
  "open_jobs s =
     map pj_id (take 100 (sort_key pj_updated
       (filter (\<lambda>j. pj_status j \<in> {JobPending, JobQueued, JobProcessing}) (jobs s))))"

definition recover_jobs :: "'w payroll_env \<Rightarrow> ('w payroll_state, unit) act" where
  "recover_jobs v =
     bnd (gets open_jobs) (\<lambda>ids.
     bnd (each (\<lambda>i. bnd (pause (yv_others v 0 i)) (\<lambda>_. catch (enqueue v i) (\<lambda>_. ret ()))) ids) (\<lambda>_.
     ret ()))"

end
