(* ===== verification/PayrollProofs.thy ===== *)
theory PayrollProofs
  imports PayrollWorker TransferRuns
begin

text \<open>
  The invariant of the payroll tables, \<open>payroll_ok\<close>, and what happens to them between any two states:
  items keep what identifies them and only move forward, a finished item never changes, counters only
  grow. Every step of a request or a worker is shown to respect it, whatever the interleaving.
\<close>

section \<open>Invariant\<close>

definition item_core :: "payroll_item \<Rightarrow> uuid \<times> uuid \<times> nat \<times> string \<times> uuid \<times> rat \<times> string \<times> string" where
  "item_core q =
     (pi_id q, pi_job q, pi_sequence q, pi_external q, pi_recipient q, pi_amount q, pi_currency q, pi_key q)"

definition item_done :: "payroll_item \<Rightarrow> bool" where
  "item_done q \<longleftrightarrow> pi_status q = ItemCompleted \<or> pi_status q = ItemFailed"

definition item_ok :: "payroll_item \<Rightarrow> bool" where
  "item_ok q \<longleftrightarrow>
     (pi_token q \<noteq> None) = (pi_status q = ItemProcessing) \<and> (pi_failure q \<noteq> None) = (pi_status q = ItemFailed)"

definition later_item :: "payroll_item \<Rightarrow> payroll_item \<Rightarrow> bool" where
  "later_item p q \<longleftrightarrow>
     item_core q = item_core p \<and> (item_done p \<longrightarrow> q = p) \<and>
     (pi_status q = ItemPending \<longrightarrow> pi_status p = ItemPending) \<and> pi_attempts p \<le> pi_attempts q"

definition job_core :: "payroll_job \<Rightarrow> uuid \<times> string \<times> uuid \<times> string \<times> nat \<times> rat" where
  "job_core j = (pj_id j, pj_employer j, pj_source j, pj_currency j, pj_total j, pj_amount j)"

definition later_job :: "payroll_job \<Rightarrow> payroll_job \<Rightarrow> bool" where
  "later_job p q \<longleftrightarrow>
     job_core q = job_core p \<and> pj_completed p \<le> pj_completed q \<and> pj_failed p \<le> pj_failed q"

definition key_core :: "payroll_record \<Rightarrow> string \<times> string \<times> string \<times> uuid \<times> instant" where
  "key_core r = (py_employer r, py_key r, py_hash r, py_job r, py_replay_until r)"

definition later_key :: "payroll_record \<Rightarrow> payroll_record \<Rightarrow> bool" where
  "later_key p q \<longleftrightarrow> key_core q = key_core p"

definition count_items :: "(item_status \<Rightarrow> bool) \<Rightarrow> uuid \<Rightarrow> payroll_item list \<Rightarrow> nat" where
  "count_items S i rows = count_where (\<lambda>q. pi_job q = i \<and> S (pi_status q)) rows"

definition job_ok :: "payroll_item list \<Rightarrow> payroll_job \<Rightarrow> bool" where
  "job_ok rows j \<longleftrightarrow>
     pj_total j = count_items (\<lambda>_. True) (pj_id j) rows \<and>
     pj_completed j = count_items (\<lambda>st. st = ItemCompleted) (pj_id j) rows \<and>
     pj_failed j = count_items (\<lambda>st. st = ItemFailed) (pj_id j) rows \<and>
     (is_terminal (pj_status j) \<longrightarrow>
        pj_completed j + pj_failed j = pj_total j \<and> pj_status j = final_status j)"

definition payroll_ok :: "'w payroll_state \<Rightarrow> bool" where
  "payroll_ok s \<longleftrightarrow>
     distinct (map pj_id (jobs s)) \<and> distinct (map pi_id (items s)) \<and> distinct (map pi_key (items s)) \<and>
     unique_some pi_transfer (items s) \<and>
     distinct (map (\<lambda>r. (py_employer r, py_key r)) (job_keys s)) \<and> distinct (map py_job (job_keys s)) \<and>
     (\<forall>q\<in>set (items s). item_ok q \<and> pi_job q \<in> pj_id ` set (jobs s)) \<and>
     (\<forall>j\<in>set (jobs s). job_ok (items s) j) \<and>
     (\<forall>r\<in>set (job_keys s). py_job r \<in> pj_id ` set (jobs s))"

definition payroll_later :: "'w payroll_state \<Rightarrow> 'w payroll_state \<Rightarrow> bool" where
  "payroll_later s t \<longleftrightarrow>
     grows later_item (items s) (items t) \<and> grows later_job (jobs s) (jobs t) \<and>
     grows later_key (job_keys s) (job_keys t)"

definition payroll_step :: "'w payroll_state \<Rightarrow> 'w payroll_state \<Rightarrow> bool" where
  "payroll_step s t \<longleftrightarrow> (payroll_ok s \<longrightarrow> payroll_ok t \<and> payroll_later s t)"

lemma later_item_refl [simp]: "later_item q q"
  by (simp add: later_item_def)

lemma later_item_trans: "later_item p q \<Longrightarrow> later_item q r \<Longrightarrow> later_item p r"
  unfolding later_item_def by (metis le_trans)

lemma later_job_refl [simp]: "later_job j j"
  by (simp add: later_job_def)

lemma later_job_trans: "later_job p q \<Longrightarrow> later_job q r \<Longrightarrow> later_job p r"
  unfolding later_job_def by (metis le_trans)

lemma later_key_refl [simp]: "later_key r r"
  by (simp add: later_key_def)

lemma later_key_trans: "later_key p q \<Longrightarrow> later_key q r \<Longrightarrow> later_key p r"
  by (simp add: later_key_def)

lemma payroll_later_refl [simp]: "payroll_later s s"
  by (simp add: payroll_later_def grows_refl)

lemma payroll_later_trans: "payroll_later s t \<Longrightarrow> payroll_later t u \<Longrightarrow> payroll_later s u"
  unfolding payroll_later_def by (meson grows_trans later_item_trans later_job_trans later_key_trans)

interpretation py: two_state payroll_step
  by unfold_locales (auto simp: payroll_step_def intro: payroll_later_trans)

lemma payroll_okD:
  assumes "payroll_ok s"
  shows "distinct (map pj_id (jobs s))" "distinct (map pi_id (items s))" "distinct (map pi_key (items s))"
    and "unique_some pi_transfer (items s)"
    and "distinct (map (\<lambda>r. (py_employer r, py_key r)) (job_keys s))" "distinct (map py_job (job_keys s))"
    and "q \<in> set (items s) \<Longrightarrow> item_ok q" and "q \<in> set (items s) \<Longrightarrow> pi_job q \<in> pj_id ` set (jobs s)"
    and "j \<in> set (jobs s) \<Longrightarrow> job_ok (items s) j"
    and "r \<in> set (job_keys s) \<Longrightarrow> py_job r \<in> pj_id ` set (jobs s)"
  using assms unfolding payroll_ok_def by blast+

text \<open>Steps that leave the three tables alone.\<close>

lemma same_payroll:
  "items t = items s \<Longrightarrow> jobs t = jobs s \<Longrightarrow> job_keys t = job_keys s \<Longrightarrow> payroll_step s t"
  by (simp add: payroll_step_def payroll_ok_def payroll_later_def grows_refl)

lemma world_call_step: "steps payroll_step (world_call f)"
  by (rule stepsI) (auto simp: world_call_def Let_def split: prod.split intro!: same_payroll)

lemma call_service_step: "steps payroll_step (call_service a b c d e f)"
  by (rule stepsI) (auto simp: call_service_def Let_def split: prod.split intro!: same_payroll)

lemma lease_steps:
  "steps payroll_step (acquire_lease now e t ttl)" "steps payroll_step (renew_lease now e t ttl)"
  "steps payroll_step (release_lease now e t)"
  by (rule stepsI, auto simp: acquire_lease_def renew_lease_def release_lease_def Let_def intro!: same_payroll)+

section \<open>Counting\<close>

lemma count_update:
  assumes "\<And>q. q \<in> set rows \<Longrightarrow> P q \<Longrightarrow> pi_job (f q) = pi_job q"
    and "\<And>q. q \<in> set rows \<Longrightarrow> P q \<Longrightarrow> S (pi_status (f q)) = S (pi_status q)"
  shows "count_items S i (update_where P f rows) = count_items S i rows"
  using assms unfolding count_items_def count_where_def
  by (induction rows) (auto simp: update_where_def)

lemma job_ok_counts:
  assumes "count_items (\<lambda>_. True) (pj_id j) rows' = count_items (\<lambda>_. True) (pj_id j) rows"
    and "count_items (\<lambda>st. st = ItemCompleted) (pj_id j) rows' = count_items (\<lambda>st. st = ItemCompleted) (pj_id j) rows"
    and "count_items (\<lambda>st. st = ItemFailed) (pj_id j) rows' = count_items (\<lambda>st. st = ItemFailed) (pj_id j) rows"
  shows "job_ok rows' j = job_ok rows j"
  unfolding job_ok_def assms by (rule refl)

text \<open>An update of items that finishes none.\<close>

lemma update_items_step:
  assumes "\<And>q. P q \<Longrightarrow> item_ok q \<Longrightarrow> later_item q (f q) \<and> item_ok (f q) \<and> \<not> item_done q \<and> \<not> item_done (f q)"
    and "update_items P f s = (r, t)"
  shows "payroll_step s t"
proof -
  consider "t = s" | "t = s\<lparr>items := update_where P f (items s)\<rparr>" "unique_some pi_transfer (update_where P f (items s))"
    using assms(2) by (auto simp: update_items_def Let_def split: if_splits)
  then show ?thesis
  proof cases
    case 1
    then show ?thesis by (simp add: py.R_refl)
  next
    case 2
    have "payroll_ok t \<and> payroll_later s t" if ok: "payroll_ok s"
    proof
      have row: "later_item q (f q)" "item_ok (f q)" "\<not> item_done q" "\<not> item_done (f q)"
        if "q \<in> set (items s)" "P q" for q
        using assms(1) [OF that(2) payroll_okD(7) [OF ok that(1)]] by blast+
      have core: "item_core (f q) = item_core q" if "q \<in> set (items s)" "P q" for q
        using row(1) [OF that] by (simp add: later_item_def)
      have "map item_core (update_where P f (items s)) = map item_core (items s)"
        using core by (auto simp: update_where_def)
      then have keys: "map pi_id (update_where P f (items s)) = map pi_id (items s)"
        "map pi_key (update_where P f (items s)) = map pi_key (items s)"
        by (auto simp: update_where_def item_core_def)
      have counts: "count_items S i (update_where P f (items s)) = count_items S i (items s)"
        if "\<And>st st'. S st \<noteq> S st' \<Longrightarrow> st \<in> {ItemCompleted, ItemFailed} \<or> st' \<in> {ItemCompleted, ItemFailed}" for S i
      proof (rule count_update)
        fix q
        assume q: "q \<in> set (items s)" "P q"
        show "pi_job (f q) = pi_job q" using core [OF q] by (simp add: item_core_def)
        show "S (pi_status (f q)) = S (pi_status q)"
          using that [of "pi_status (f q)" "pi_status q"] row(3,4) [OF q] by (auto simp: item_done_def)
      qed
      show "payroll_ok t"
        unfolding payroll_ok_def
      proof (intro conjI ballI)
        fix q
        assume "q \<in> set (items t)"
        then have "q \<in> set (update_where P f (items s))" using 2(1) by simp
        then consider "q \<in> set (items s)" | p where "p \<in> set (items s)" "P p" "q = f p"
          using in_update_where by fastforce
        then show "item_ok q" "pi_job q \<in> pj_id ` set (jobs t)"
          using payroll_okD(7,8) [OF ok] row(2) core 2(1) by (cases; auto simp: item_core_def)+
      next
        fix j
        assume "j \<in> set (jobs t)"
        then have "job_ok (items s) j" using payroll_okD(9) [OF ok] 2(1) by simp
        moreover have "job_ok (update_where P f (items s)) j = job_ok (items s) j"
          by (rule job_ok_counts) (rule counts; auto)+
        ultimately show "job_ok (items t) j" using 2(1) by simp
      qed (use payroll_okD(1-6,10) [OF ok] keys 2 in simp_all)
      show "payroll_later s t"
        using 2(1) row(1) by (simp add: payroll_later_def grows_refl grows_update)
    qed
    then show ?thesis by (simp add: payroll_step_def)
  qed
qed

lemma update_items_steps:
  assumes "\<And>q. P q \<Longrightarrow> item_ok q \<Longrightarrow> later_item q (f q) \<and> item_ok (f q) \<and> \<not> item_done q \<and> \<not> item_done (f q)"
  shows "steps payroll_step (update_items P f)"
proof (rule stepsI)
  fix s :: "'w payroll_state"
  obtain r t where "update_items P f s = (r, t)" by fastforce
  then show "payroll_step s (snd (update_items P f s))" using update_items_step [of P f, OF assms] by simp
qed

text \<open>An update of jobs that leaves their counters alone.\<close>

lemma update_jobs_step:
  assumes "\<And>j. payroll_ok s \<Longrightarrow> j \<in> set (jobs s) \<Longrightarrow> P j \<Longrightarrow>
      job_core (f j) = job_core j \<and> pj_completed (f j) = pj_completed j \<and> pj_failed (f j) = pj_failed j \<and>
      (is_terminal (pj_status (f j)) \<longrightarrow> pj_completed j + pj_failed j = pj_total j \<and> pj_status (f j) = final_status j)"
    and "update_jobs now P f s = (r, t)"
  shows "payroll_step s t"
proof -
  let ?f = "\<lambda>j. (f j)\<lparr>pj_updated := now\<rparr>"
  consider "t = s" | "t = s\<lparr>jobs := update_where P ?f (jobs s)\<rparr>"
    using assms(2) by (auto simp: update_jobs_def Let_def split: if_splits)
  then show ?thesis
  proof cases
    case 1
    then show ?thesis by (simp add: py.R_refl)
  next
    case 2
    have "payroll_ok t \<and> payroll_later s t" if ok: "payroll_ok s"
    proof
      note row = assms(1) [OF ok]
      have core: "job_core (?f j) = job_core j" if "j \<in> set (jobs s)" "P j" for j
        using row [OF that] by (simp add: job_core_def)
      then have "map pj_id (update_where P ?f (jobs s)) = map pj_id (jobs s)"
        by (auto simp: update_where_def job_core_def)
      then have keys: "map pj_id (jobs t) = map pj_id (jobs s)" using 2 by simp
      have key_set: "pj_id ` set (jobs t) = pj_id ` set (jobs s)" using keys by (metis set_map)
      show "payroll_ok t"
        unfolding payroll_ok_def
      proof (intro conjI ballI)
        show "distinct (map pj_id (jobs t))" unfolding keys by (rule payroll_okD(1) [OF ok])
        fix q
        assume "q \<in> set (items t)"
        then have q: "q \<in> set (items s)" using 2 by simp
        show "item_ok q" "pi_job q \<in> pj_id ` set (jobs t)"
          unfolding key_set using payroll_okD(7,8) [OF ok q] .
      next
        fix j
        assume "j \<in> set (jobs t)"
        then have "j \<in> set (update_where P ?f (jobs s))" using 2 by simp
        then consider "j \<in> set (jobs s)" | p where "p \<in> set (jobs s)" "P p" "j = ?f p"
          using in_update_where by fastforce
        then show "job_ok (items t) j"
        proof cases
          case 1
          then show ?thesis using payroll_okD(9) [OF ok] 2 by simp
        next
          case (2 p)
          have p: "job_ok (items s) p" using payroll_okD(9) [OF ok 2(1)] .
          have "items t = items s" using \<open>t = s\<lparr>jobs := _\<rparr>\<close> by simp
          then show ?thesis using p row [OF 2(1,2)] 2(3) by (auto simp: job_ok_def job_core_def final_status_def)
        qed
      next
        fix r
        assume "r \<in> set (job_keys t)"
        then show "py_job r \<in> pj_id ` set (jobs t)" unfolding key_set using payroll_okD(10) [OF ok] 2 by simp
      qed (use payroll_okD(2-6) [OF ok] 2 in simp_all)
      have "later_job j (?f j)" if "j \<in> set (jobs s)" "P j" for j
        using row [OF that] core [OF that] by (simp add: later_job_def)
      then show "payroll_later s t" using 2 by (simp add: payroll_later_def grows_refl grows_update)
    qed
    then show ?thesis by (simp add: payroll_step_def)
  qed
qed

lemma update_job_step:
  assumes "\<And>j. payroll_ok s \<Longrightarrow> j \<in> set (jobs s) \<Longrightarrow> pj_id j = i \<Longrightarrow>
      job_core (f j) = job_core j \<and> pj_completed (f j) = pj_completed j \<and> pj_failed (f j) = pj_failed j \<and>
      (is_terminal (pj_status (f j)) \<longrightarrow> pj_completed j + pj_failed j = pj_total j \<and> pj_status (f j) = final_status j)"
    and "update_job now i f s = (r, t)"
  shows "payroll_step s t"
proof -
  obtain x u where u: "update_jobs now (\<lambda>j. pj_id j = i) f s = (x, u)" by fastforce
  then have "t = u" using assms(2) by (auto simp: update_job_def bnd_def ensure_def split: sum.splits if_splits)
  moreover have "payroll_step s u" using assms(1) u by (rule update_jobs_step)
  ultimately show ?thesis by simp
qed

lemma update_job_key_step:
  assumes "\<And>r. later_key r (f r)"
  shows "steps payroll_step (update_job_key i f)"
proof (rule stepsI)
  fix s :: "'w payroll_state"
  let ?rows = "update_where (\<lambda>r. py_job r = i) f (job_keys s)"
  consider "snd (update_job_key i f s) = s" | "snd (update_job_key i f s) = s\<lparr>job_keys := ?rows\<rparr>"
    by (cases "key_taken py_job i (job_keys s)") (simp_all add: update_job_key_def)
  then show "payroll_step s (snd (update_job_key i f s))"
  proof cases
    case 1
    then show ?thesis by (simp only: py.R_refl)
  next
    case 2
    have "key_core (f r) = key_core r" for r using assms [of r] by (simp add: later_key_def)
    then have keys: "map (\<lambda>r. (py_employer r, py_key r)) ?rows = map (\<lambda>r. (py_employer r, py_key r)) (job_keys s)"
      "map py_job ?rows = map py_job (job_keys s)"
      by (auto simp: update_where_def key_core_def)
    have "py_job ` set ?rows = py_job ` set (job_keys s)" using keys(2) by (metis set_map)
    then have job_set: "\<forall>r\<in>set ?rows. py_job r \<in> X" if "\<forall>r\<in>set (job_keys s). py_job r \<in> X" for X
      using that by (metis (no_types, lifting) image_iff)
    have "payroll_ok (s\<lparr>job_keys := ?rows\<rparr>)" if ok: "payroll_ok s"
      unfolding payroll_ok_def using payroll_okD [OF ok] keys job_set by simp
    moreover have "payroll_later s (s\<lparr>job_keys := ?rows\<rparr>)"
      using assms by (simp add: payroll_later_def grows_refl grows_update)
    ultimately show ?thesis unfolding 2 by (simp add: payroll_step_def)
  qed
qed

section \<open>Checkpoints\<close>

definition item_known :: "payroll_item \<Rightarrow> 'w payroll_state \<Rightarrow> bool" where
  "item_known q s \<longleftrightarrow> (\<exists>r\<in>set (items s). item_core r = item_core q)"

lemma item_known_later: "item_known q s \<Longrightarrow> payroll_later s t \<Longrightarrow> item_known q t"
proof -
  assume "item_known q s" and later: "payroll_later s t"
  then obtain r where r: "r \<in> set (items s)" "item_core r = item_core q" by (auto simp: item_known_def)
  obtain r' where "r' \<in> set (items t)" "later_item r r'"
    using grows_in [of later_item "items s" "items t" r] later r(1) by (auto simp: payroll_later_def)
  then show "item_known q t" using r(2) by (auto simp: item_known_def later_item_def)
qed

lemma update_one:
  assumes "distinct (map pi_id rows)" and "p \<in> set rows" and "P p" and "\<And>r. r \<in> set rows \<Longrightarrow> P r \<Longrightarrow> pi_id r = pi_id p"
  obtains xs ys where "rows = xs @ p # ys" and "update_where P f rows = xs @ f p # ys" and "count_where P rows = 1"
proof -
  obtain xs ys where rows: "rows = xs @ p # ys" using assms(2) by (auto dest: split_list)
  have "\<not> P r" if "r \<in> set xs \<union> set ys" for r
  proof
    assume "P r"
    then have "pi_id r = pi_id p" using assms(4) that rows by auto
    then show False using assms(1) that rows by (force simp: image_iff)
  qed
  then have "filter P xs = []" "filter P ys = []" "update_where P f xs = xs" "update_where P f ys = ys"
    by (auto simp: filter_empty_conv intro!: update_where_none)
  then show ?thesis
    using rows assms(3) by (intro that) (auto simp: update_where_def count_where_def)
qed

lemma count_items_split:
  "count_items S i (xs @ p # ys) =
     count_items S i xs + count_items S i ys + (if pi_job p = i \<and> S (pi_status p) then 1 else 0)"
  by (simp add: count_items_def count_where_def)

lemma processing_not_terminal:
  assumes "payroll_ok s" and "p \<in> set (items s)" and "\<not> item_done p" and "j \<in> set (jobs s)" and "pj_id j = pi_job p"
  shows "\<not> is_terminal (pj_status j)" and "pj_completed j + pj_failed j < pj_total j"
proof -
  obtain xs ys where rows: "items s = xs @ p # ys" using assms(2) by (auto dest: split_list)
  have ok: "job_ok (items s) j" using payroll_okD(9) [OF assms(1,4)] .
  have "count_items (\<lambda>st. st = ItemCompleted) i xs + count_items (\<lambda>st. st = ItemFailed) i xs \<le> count_items (\<lambda>_. True) i xs" for i xs
    unfolding count_items_def count_where_def by (induction xs) auto
  from this [of "pi_job p" xs] this [of "pi_job p" ys]
  show less: "pj_completed j + pj_failed j < pj_total j"
    using ok assms(3,5) by (simp add: job_ok_def rows count_items_split item_done_def)
  show "\<not> is_terminal (pj_status j)" using ok less by (auto simp: job_ok_def)
qed

lemma checkpoint_body_step:
  assumes "item_known q s" and "checkpoint_body v q completed tr code s = (Inr (), t)"
  shows "payroll_step s t"
proof -
  let ?P = "\<lambda>r. pi_id r = pi_id q \<and> pi_status r = ItemProcessing \<and> pi_token r = pi_token q"
  let ?f = "\<lambda>r. r\<lparr>pi_status := (if completed then ItemCompleted else ItemFailed),
                   pi_transfer := (case tr of None \<Rightarrow> pi_transfer r | Some t \<Rightarrow> Some t),
                   pi_failure := (if completed then None
                     else Some (case code of None \<Rightarrow> ''PAYROLL_ITEM_FAILED'' | Some c \<Rightarrow> c)),
                   pi_token := None, pi_started := None, pi_finished := Some (yv_now v 4)\<rparr>"
  let ?g = "\<lambda>j. if completed then j\<lparr>pj_completed := pj_completed j + 1\<rparr> else j\<lparr>pj_failed := pj_failed j + 1\<rparr>"
  let ?h = "\<lambda>j. (?g j)\<lparr>pj_updated := yv_now v 5\<rparr>"
  obtain n u where u: "update_items ?P ?f s = (Inr n, u)"
    and rest: "(if n = 1 then update_job (yv_now v 5) (pi_job q) ?g else ret ()) u = (Inr (), t)"
    using assms(2) unfolding checkpoint_body_def bnd_result_Inr by auto
  have n: "n = count_where ?P (items s)" "u = s\<lparr>items := update_where ?P ?f (items s)\<rparr>"
    "unique_some pi_transfer (update_where ?P ?f (items s))"
    using u by (auto simp: update_items_def Let_def split: if_splits)
  have "payroll_ok t \<and> payroll_later s t" if ok: "payroll_ok s"
  proof (cases "\<exists>p\<in>set (items s). ?P p")
    case False
    then have "update_where ?P ?f (items s) = items s" "count_where ?P (items s) = 0"
      by (auto simp: count_where_def filter_empty_conv intro!: update_where_none)
    then have "t = s" using rest n by simp
    then show ?thesis using ok by simp
  next
    case True
    then obtain p where p: "p \<in> set (items s)" "?P p" by blast
    obtain xs ys where rows: "items s = xs @ p # ys" "update_where ?P ?f (items s) = xs @ ?f p # ys"
      "count_where ?P (items s) = 1"
      using update_one [OF payroll_okD(2) [OF ok] p(1), of ?P ?f] p(2) by auto
    obtain r where r: "r \<in> set (items s)" "item_core r = item_core q" using assms(1) by (auto simp: item_known_def)
    have "r = p" using distinct_key [OF payroll_okD(2) [OF ok] r(1) p(1)] r(2) p(2) by (simp add: item_core_def)
    then have job: "pi_job q = pi_job p" using r(2) by (simp add: item_core_def)
    have live: "\<not> item_done p" using p(2) by (simp add: item_done_def)
    have t: "t = u\<lparr>jobs := update_where (\<lambda>j. pj_id j = pi_job p) ?h (jobs s)\<rparr>"
      using rest n(1,2) rows(3) job
      by (auto simp: update_job_def update_jobs_def bnd_result_Inr ensure_apply Let_def split: if_splits)
    have items_t: "items t = xs @ ?f p # ys" using t n(2) rows(2) by simp
    have jobs_t: "jobs t = update_where (\<lambda>j. pj_id j = pi_job p) ?h (jobs s)" using t by simp
    have keys_t: "job_keys t = job_keys s" using t n(2) by simp
    have ids: "map pj_id (jobs t) = map pj_id (jobs s)" unfolding jobs_t by (rule map_update_where) simp
    have id_set: "pj_id ` set (jobs t) = pj_id ` set (jobs s)" using ids by (metis set_map)
    have "payroll_ok t"
      unfolding payroll_ok_def
    proof (intro conjI ballI)
      show "distinct (map pj_id (jobs t))" unfolding ids by (rule payroll_okD(1) [OF ok])
      show "distinct (map pi_id (items t))" "distinct (map pi_key (items t))"
        using payroll_okD(2,3) [OF ok] by (simp_all add: items_t rows(1))
      show "unique_some pi_transfer (items t)" using n(3) unfolding rows(2) items_t .
      show "distinct (map (\<lambda>r. (py_employer r, py_key r)) (job_keys t))" "distinct (map py_job (job_keys t))"
        unfolding keys_t by (rule payroll_okD(5,6) [OF ok])+
      fix x
      assume "x \<in> set (items t)"
      then consider "x \<in> set (items s)" | "x = ?f p" by (auto simp: items_t rows(1))
      then show "item_ok x" "pi_job x \<in> pj_id ` set (jobs t)"
        unfolding id_set using payroll_okD(7,8) [OF ok] p(1) by (cases; auto simp: item_ok_def)+
    next
      fix j
      assume "j \<in> set (jobs t)"
      then obtain i where i: "i \<in> set (jobs s)" "j = (if pj_id i = pi_job p then ?h i else i)"
        unfolding jobs_t by (auto simp: update_where_def)
      have iok: "job_ok (items s) i" using payroll_okD(9) [OF ok i(1)] .
      show "job_ok (items t) j"
      proof (cases "pj_id i = pi_job p")
        case True
        have "\<not> is_terminal (pj_status i)" using processing_not_terminal(1) [OF ok p(1) live i(1) True] .
        then show ?thesis
          using iok i(2) True p(2) by (simp add: job_ok_def items_t rows(1) count_items_split)
      next
        case False
        have "job_ok (items t) i = job_ok (items s) i"
          by (rule job_ok_counts) (use False in \<open>simp_all add: items_t rows(1) count_items_split\<close>)
        then show ?thesis using iok i(2) False by simp
      qed
    next
      fix r
      assume "r \<in> set (job_keys t)"
      then show "py_job r \<in> pj_id ` set (jobs t)" unfolding keys_t id_set by (rule payroll_okD(10) [OF ok])
    qed
    moreover have "payroll_later s t"
    proof -
      have "grows later_item (items s) (items t)"
        unfolding grows_def items_t rows(1)
        by (rule exI [of _ "xs @ ?f p # ys"], rule exI [of _ "[]"])
          (use live in \<open>simp add: list_all2_append list_all2_refl later_item_def item_core_def\<close>)
      moreover have "grows later_job (jobs s) (jobs t)"
        unfolding jobs_t by (rule grows_update) (simp_all add: later_job_def job_core_def)
      ultimately show ?thesis using keys_t by (simp add: payroll_later_def grows_refl)
    qed
    ultimately show ?thesis by blast
  qed
  then show ?thesis by (simp add: payroll_step_def)
qed

section \<open>Steps of the worker\<close>

text \<open>The relation of a step that handles known items; every step is one.\<close>

definition known_items :: "payroll_item list \<Rightarrow> 'w payroll_state \<Rightarrow> 'w payroll_state \<Rightarrow> bool" where
  "known_items qs s t \<longleftrightarrow>
     (payroll_ok s \<and> (\<forall>q\<in>set qs. item_known q s) \<longrightarrow> payroll_ok t \<and> payroll_later s t)"

interpretation pk: two_state "known_items qs" for qs
proof
  fix s t u :: "'w payroll_state"
  show "known_items qs s s" by (simp add: known_items_def)
  assume "known_items qs s t" "known_items qs t u"
  then show "known_items qs s u"
    unfolding known_items_def by (meson item_known_later payroll_later_trans)
qed

lemma known_of_step: "payroll_step s t \<Longrightarrow> known_items qs s t"
  by (simp add: payroll_step_def known_items_def)

lemma known_of_steps: "steps payroll_step m \<Longrightarrow> steps (known_items qs) m"
  by (simp add: steps_def known_of_step)

context two_state
begin

lemma steps_reply:
  "(\<And>x. steps R (f x)) \<Longrightarrow> (\<And>a b c d. steps R (g a b c d)) \<Longrightarrow> steps R h \<Longrightarrow>
     steps R (case r of Replied x \<Rightarrow> f x | Refused a b c d \<Rightarrow> g a b c d | Unreachable \<Rightarrow> h)"
  by (cases r) simp_all

end

definition calm_payroll :: "'w payroll_env \<Rightarrow> bool" where
  "calm_payroll v \<longleftrightarrow> (\<forall>k i s. payroll_step s (yv_others v k i s))"

lemma pause_payroll: "calm_payroll v \<Longrightarrow> steps payroll_step (pause (yv_others v k i))"
  by (simp add: calm_payroll_def py.steps_pause)

lemma pause_known: "calm_payroll v \<Longrightarrow> steps (known_items qs) (pause (yv_others v k i))"
  by (rule known_of_steps [OF pause_payroll])

lemma checkpoint_known:
  assumes "item_core q \<in> item_core ` set qs"
  shows "steps (known_items qs) (checkpoint v q completed tr code)"
proof (rule stepsI)
  fix s
  obtain r t where t: "transaction (\<lambda>_. True) (checkpoint_body v q completed tr code) s = (r, t)" by fastforce
  have "known_items qs s t"
  proof (cases r)
    case (Inl e)
    then show ?thesis using transaction_Inl t pk.R_refl by metis
  next
    case (Inr x)
    then have body: "checkpoint_body v q completed tr code s = (Inr (), t)" using t by (simp add: transaction_Inr)
    show ?thesis
      unfolding known_items_def
    proof
      assume known: "payroll_ok s \<and> (\<forall>q\<in>set qs. item_known q s)"
      obtain p where p: "p \<in> set qs" "item_core q = item_core p" using assms by auto
      have "item_known q s" using known p by (auto simp: item_known_def)
      then show "payroll_ok t \<and> payroll_later s t"
        using checkpoint_body_step [OF _ body] known by (simp add: payroll_step_def)
    qed
  qed
  then show "known_items qs s (snd (checkpoint v q completed tr code s))" by (simp add: checkpoint_def t)
qed

lemma item_update_steps:
  "steps payroll_step (update_items (\<lambda>r. pi_id r = i \<and> pi_status r = ItemProcessing \<and> pi_token r = k)
     (\<lambda>r. r\<lparr>pi_transfer := f r\<rparr>))"
proof (rule update_items_steps)
  fix r
  assume "pi_id r = i \<and> pi_status r = ItemProcessing \<and> pi_token r = k" and ok: "item_ok r"
  then have "pi_status r = ItemProcessing" by blast
  then show "later_item r (r\<lparr>pi_transfer := f r\<rparr>) \<and> item_ok (r\<lparr>pi_transfer := f r\<rparr>) \<and>
      \<not> item_done r \<and> \<not> item_done (r\<lparr>pi_transfer := f r\<rparr>)"
    using ok by (simp add: later_item_def item_core_def item_ok_def item_done_def)
qed

lemma claim_update_steps:
  assumes "st \<in> {ItemPending, ItemProcessing}"
  shows "steps payroll_step (update_items (\<lambda>r. pi_id r = i \<and> pi_status r = st)
            (\<lambda>r. r\<lparr>pi_status := ItemProcessing, pi_token := Some k, pi_started := Some now,
                   pi_attempts := pi_attempts r + 1\<rparr>))"
proof (rule update_items_steps)
  fix r :: payroll_item
  let ?r = "r\<lparr>pi_status := ItemProcessing, pi_token := Some k, pi_started := Some now,
                 pi_attempts := pi_attempts r + 1\<rparr>"
  assume r: "pi_id r = i \<and> pi_status r = st" and ok: "item_ok r"
  from r assms have "pi_status r = ItemPending \<or> pi_status r = ItemProcessing" by blast
  then have st: "pi_status r \<noteq> ItemCompleted" "pi_status r \<noteq> ItemFailed" by (elim disjE; simp)+
  then have "later_item r ?r" "item_ok ?r" "\<not> item_done r" "\<not> item_done ?r"
    using ok by (simp_all add: later_item_def item_core_def item_ok_def item_done_def)
  then show "later_item r ?r \<and> item_ok ?r \<and> \<not> item_done r \<and> \<not> item_done ?r" by (intro conjI)
qed

lemma claim_item_step:
  assumes "calm_payroll v" and "st \<in> {ItemPending, ItemProcessing}"
  shows "steps payroll_step (claim_item v k st q)"
  unfolding claim_item_def by (intro py.steps_rules pause_payroll claim_update_steps assms)

lemma checkpoint_response_known:
  assumes "item_core q \<in> item_core ` set qs"
  shows "steps (known_items qs) (checkpoint_response v q t)"
  unfolding checkpoint_response_def
  by (intro pk.steps_rules checkpoint_known known_of_steps [OF item_update_steps] assms)

lemma execute_item_known:
  assumes "item_core q \<in> item_core ` set qs" and "calm_payroll v"
  shows "steps (known_items qs) (execute_item v j q)"
  unfolding execute_item_def create_domestic_call_def
  by (intro pk.steps_rules pk.steps_reply pause_known known_of_steps [OF call_service_step] checkpoint_known
      checkpoint_response_known assms)

lemma claim_item_core: "claim_item v k st q s = (Inr (Some c), t) \<Longrightarrow> item_core c = item_core q"
  by (auto simp: claim_item_def bnd_result_Inr item_core_def split: if_splits)

lemma items_of_known: "q \<in> set (items_of i st s) \<Longrightarrow> item_known q s"
  by (auto simp: items_of_def item_known_def)

end
