(* ===== verification/PayrollRelation.thy ===== *)
theory PayrollRelation
  imports PayrollProofs
begin

text \<open>
  What a relation between the states before and after must be like for everything the Payroll service does
  to stay within it: the locale \<open>payroll_relation\<close>. Its laws are about the single writes and calls of the
  code and what others do at an \<open>await\<close>; inside it, every request, every run of the worker and every
  recovery is shown once to stay within the relation. The relation \<open>known j qs\<close> is for what a worker does
  for its job and its claimed items.
\<close>

section \<open>Batches\<close>

definition claimed_from :: "payroll_item list \<Rightarrow> payroll_item list \<Rightarrow> bool" where
  "claimed_from qs cs \<longleftrightarrow> (\<forall>c\<in>set cs. item_core c \<in> item_core ` set qs)"

lemma each_claims_core:
  "each (claim_item v k st) qs s = (Inr cs, t) \<Longrightarrow> claimed_from qs (List.map_filter (\<lambda>c. c) cs)"
proof (induction qs arbitrary: s cs)
  case Nil
  then show ?case by (simp add: claimed_from_def map_filter_simps)
next
  case (Cons q qs)
  from Cons.prems obtain c u ds where c: "claim_item v k st q s = (Inr c, u)"
    and ds: "each (claim_item v k st) qs u = (Inr ds, t)" and cs: "cs = c # ds"
    by (auto simp: bnd_result_Inr)
  from Cons.IH [OF ds] show ?case
    using claim_item_core [of v k st q s] c
    by (cases c) (auto simp: cs claimed_from_def map_filter_simps)
qed

lemma claim_pending_batch_step:
  "calm_payroll v \<Longrightarrow> steps payroll_step (claim_pending_batch v i)"
  unfolding claim_pending_batch_def by (intro py.steps_rules claim_item_step) simp_all

lemma claim_pending_batch_known:
  assumes "calm_payroll v" and "claim_pending_batch v i s = (Inr batch, t)" and "payroll_ok s" and "c \<in> set batch"
  shows "item_known c t" and "pi_job c = i"
proof -
  let ?qs = "take item_batch_size (items_of i ItemPending s)"
  have later: "payroll_later s t"
    using stepsD_eq [OF claim_pending_batch_step [OF assms(1)] assms(2)] assms(3) by (simp add: payroll_step_def)
  obtain cs where cs: "each (claim_item v 23 ItemPending) ?qs s = (Inr cs, t)" "batch = List.map_filter (\<lambda>c. c) cs"
    using assms(2) by (auto simp: claim_pending_batch_def bnd_result_Inr)
  obtain q where q: "q \<in> set ?qs" "item_core c = item_core q"
    using each_claims_core [OF cs(1)] assms(4) cs(2) by (auto simp: claimed_from_def)
  have in_qs: "q \<in> set (items_of i ItemPending s)" using q(1) by (rule in_set_takeD)
  have "item_known q s" using in_qs by (rule items_of_known)
  then have "item_known q t" using item_known_later later by blast
  then show "item_known c t" using q(2) by (simp add: item_known_def)
  show "pi_job c = i" using in_qs q(2) by (auto simp: items_of_def item_core_def)
qed

lemma steps_finally: "steps R m \<Longrightarrow> steps R f \<Longrightarrow> (\<And>s t u. R s t \<Longrightarrow> R t u \<Longrightarrow> R s u) \<Longrightarrow> steps R (finally_do m f)"
  unfolding steps_def finally_do_def by (metis (mono_tags, lifting) case_prod_unfold snd_conv)

section \<open>The laws\<close>

locale payroll_relation =
  fixes base :: "'w payroll_state \<Rightarrow> 'w payroll_state \<Rightarrow> bool"
    and known :: "payroll_job \<Rightarrow> payroll_item list \<Rightarrow> 'w payroll_state \<Rightarrow> 'w payroll_state \<Rightarrow> bool"
    and env :: "'w payroll_env \<Rightarrow> bool"
  assumes base_refl: "base s s" and base_trans: "base s t \<Longrightarrow> base t u \<Longrightarrow> base s u"
    and known_refl: "known j qs s s" and known_trans: "known j qs s t \<Longrightarrow> known j qs t u \<Longrightarrow> known j qs s u"
    and of_base: "base s t \<Longrightarrow> known j qs s t"
    and unless_ok: "\<not> payroll_ok s \<Longrightarrow> known j qs s t"
    and forget_items: "known j qs s t \<Longrightarrow>
      (payroll_ok s \<Longrightarrow> \<forall>q\<in>set qs. item_known q s \<and> pi_job q = pj_id j) \<Longrightarrow> known j [] s t"
    and of_known: "known j [] s t \<Longrightarrow> known j qs s t"
    and forget_job: "find_job_row i s = Some j \<Longrightarrow> known j [] s t \<Longrightarrow> base s t"
    and env_calm: "env v \<Longrightarrow> calm_payroll v"
    and pauses: "env v \<Longrightarrow> steps base (pause (yv_others v k i))"
    and claims: "env v \<Longrightarrow> st \<in> {ItemPending, ItemProcessing} \<Longrightarrow> steps base (claim_item v k st q)"
    and payments: "env v \<Longrightarrow> item_core q \<in> item_core ` set qs \<Longrightarrow> steps (known j qs) (execute_item v j q)"
    and starts: "steps base (update_job now i
      (\<lambda>r. r\<lparr>pj_status := JobProcessing, pj_started := x, pj_queue_error := None\<rparr>))"
    and finalizes: "env v \<Longrightarrow> steps base (finalize_job v i)"
    and failure_notes: "steps base (note_queue_failure v i)"
    and acquires: "steps base (acquire_lease now e token ttl)"
    and renews: "steps base (renew_lease now e token ttl)"
    and releases: "steps base (release_lease now e token)"
    and queue_reads: "env v \<Longrightarrow> steps base (world_call (\<lambda>w. (yv_queue_state v i w, w)))"
    and queue_removes: "env v \<Longrightarrow> steps base (world_call (yv_queue_remove v i))"
    and queue_adds: "env v \<Longrightarrow> steps base (world_call (yv_queue_add v i))"
    and validations: "env v \<Longrightarrow> steps base (source_validation v i)"
    and marks: "steps base (transaction (\<lambda>_. True) (mark_queued v i))"
    and unqueued: "steps base (update_job now i (\<lambda>j. j\<lparr>pj_queue_failures := pj_queue_failures j + 1,
      pj_queue_error := Some ''QUEUE_UNAVAILABLE''\<rparr>))"
    and creations: "steps base (transaction (\<lambda>_. True) (create_payroll v e key h c))"

sublocale payroll_relation < bs: two_state base
  by unfold_locales (rule base_refl, erule (1) base_trans)

sublocale payroll_relation < kn: two_state "known j qs" for j qs
  by unfold_locales (rule known_refl, erule (1) known_trans)

section \<open>The worker\<close>

context payroll_relation
begin

lemma of_steps: "steps base m \<Longrightarrow> steps (known j qs) m"
  by (simp add: steps_def of_base)

text \<open>A claim, and then the payment of what was claimed.\<close>

lemma claim_and_pay:
  assumes "env v" and "q \<in> set qs"
  shows "steps (known j qs) (bnd (claim_item v 21 ItemProcessing q) (\<lambda>claimed. case claimed of None \<Rightarrow> ret () | Some c \<Rightarrow>
      bnd (pause (yv_others v 22 (pi_id q))) (\<lambda>_. execute_item v j c)))" (is "steps _ (bnd _ ?f)")
proof (rule stepsI)
  fix u :: "'w payroll_state"
  obtain r w where claim: "claim_item v 21 ItemProcessing q u = (r, w)" by fastforce
  have uw: "known j qs u w" using stepsD_eq [OF of_steps [OF claims [OF assms(1)]] claim] by simp
  have pay: "known j qs w (snd (?f c w))" if "r = Inr c" for c
  proof (cases c)
    case None
    then show ?thesis by (simp add: known_refl)
  next
    case (Some d)
    then have "item_core d = item_core q" using claim that by (auto dest: claim_item_core)
    then have core: "item_core d \<in> item_core ` set qs" using assms(2) by (metis image_eqI)
    have "steps (known j qs) (?f c)"
      unfolding Some option.case by (intro kn.steps_bnd of_steps [OF pauses] payments core assms(1))
    then show ?thesis by (rule stepsD)
  qed
  show "known j qs u (snd (bnd (claim_item v 21 ItemProcessing q) ?f u))"
    using claim uw pay known_trans by (cases r) (auto simp: bnd_def)
qed

lemma reconcile_claimed_steps:
  assumes "env v"
  shows "steps (known j []) (reconcile_claimed v j)"
  unfolding reconcile_claimed_def
proof (rule kn.steps_gets_bnd)
  fix s :: "'w payroll_state"
  let ?qs = "items_of (pj_id j) ItemProcessing s"
  let ?f = "\<lambda>q. bnd (claim_item v 21 ItemProcessing q) (\<lambda>claimed. case claimed of None \<Rightarrow> ret () | Some c \<Rightarrow>
      bnd (pause (yv_others v 22 (pi_id q))) (\<lambda>_. execute_item v j c))"
  have "steps (known j ?qs) (bnd (each ?f ?qs) (\<lambda>_. ret ()))"
    by (intro kn.steps_bnd [OF kn.steps_each_in kn.steps_ret] claim_and_pay assms)
  then have "known j ?qs s (snd (bnd (each ?f ?qs) (\<lambda>_. ret ()) s))" by (rule stepsD)
  then show "known j [] s (snd (bnd (each ?f ?qs) (\<lambda>_. ret ()) s))"
    by (rule forget_items) (auto simp: items_of_known items_of_def item_known_def)
qed

lemma claim_batch_steps: "env v \<Longrightarrow> steps base (claim_pending_batch v i)"
  unfolding claim_pending_batch_def by (intro bs.steps_rules claims) simp_all

text \<open>What follows a batch that was claimed.\<close>

lemma batch_then:
  assumes "env v" and "\<And>batch. steps (known j batch) (f batch)"
  shows "steps (known j []) (bnd (claim_pending_batch v (pj_id j)) f)"
proof (rule stepsI)
  fix s :: "'w payroll_state"
  obtain r t where claim: "claim_pending_batch v (pj_id j) s = (r, t)" by fastforce
  have st: "known j [] s t" using of_steps [OF claim_batch_steps [OF assms(1)]] claim by (rule stepsD_eq)
  show "known j [] s (snd (bnd (claim_pending_batch v (pj_id j)) f s))"
  proof (cases r)
    case (Inl e)
    then show ?thesis using claim st by (simp add: bnd_def)
  next
    case (Inr batch)
    obtain w where w: "w = snd (f batch t)" by blast
    have tw: "known j batch t w" unfolding w by (rule stepsD [OF assms(2)])
    show ?thesis
    proof (cases "payroll_ok s")
      case False
      then show ?thesis by (rule unless_ok)
    next
      case True
      have "\<forall>q\<in>set batch. item_known q t \<and> pi_job q = pj_id j"
        using claim_pending_batch_known [OF env_calm [OF assms(1)]] claim True unfolding Inr by blast
      then have "known j [] t w" by (intro forget_items [OF tw])
      then show ?thesis using known_trans [OF st] claim Inr w by (simp add: bnd_def)
    qed
  qed
qed

lemma work_batches_steps:
  assumes "env v"
  shows "steps (known j []) (work_batches v j n)"
proof (induction n)
  case 0
  show ?case by (simp only: work_batches.simps kn.steps_ret)
next
  case (Suc n)
  have rest: "steps (known j batch) (if batch = [] then ret (Some ())
      else bnd (each (\<lambda>q. if yv_lost v n (pi_id q) then throw lease_lost
                         else bnd (pause (yv_others v 22 (pi_id q))) (\<lambda>_. execute_item v j q)) batch)
             (\<lambda>_. work_batches v j n))" for batch
  proof -
    have again: "steps (known j batch) (work_batches v j n)"
      using Suc.IH of_known by (simp add: steps_def)
    have "steps (known j batch) (each (\<lambda>q. if yv_lost v n (pi_id q) then throw lease_lost
                         else bnd (pause (yv_others v 22 (pi_id q))) (\<lambda>_. execute_item v j q)) batch)"
      by (intro kn.steps_each_in kn.steps_if kn.steps_throw kn.steps_bnd of_steps [OF pauses] payments assms) simp
    then show ?thesis by (intro kn.steps_if kn.steps_ret kn.steps_bnd again)
  qed
  show ?case
    unfolding work_batches.simps
    by (intro kn.steps_if kn.steps_throw kn.steps_bnd of_steps [OF pauses] batch_then rest assms)
qed

lemma process_leased_steps:
  assumes "env v"
  shows "steps (known j []) (process_leased v n j)"
  unfolding process_leased_def
  by (intro kn.steps_rules of_steps [OF starts] of_steps [OF pauses] reconcile_claimed_steps work_batches_steps
      of_steps [OF finalizes] assms)

lemma process_job_steps:
  assumes "env v"
  shows "steps base (process_job v n i)"
proof (rule stepsI)
  fix s :: "'w payroll_state"
  show "base s (snd (process_job v n i s))"
  proof (cases "find_job_row i s")
    case None
    then show ?thesis by (simp add: process_job_def base_refl)
  next
    case (Some j)
    have "steps (known j []) (if is_terminal (pj_status j) then ret (Some ())
         else bnd (pause (yv_others v 14 i)) (\<lambda>_.
           bnd (acquire_lease (yv_now v 12) (pj_employer j) (yv_lease_token v) lease_ttl_ms) (\<lambda>acquired.
           if \<not> acquired then throw (PlainError ''EMPLOYER_LEASE_BUSY'')
           else
             finally_do (bnd (pause (yv_others v 18 i)) (\<lambda>_. process_leased v n j))
               (bnd (pause (yv_others v 19 i)) (\<lambda>_.
                release_lease (yv_now v 13) (pj_employer j) (yv_lease_token v))))))" (is "steps _ ?m")
      by (intro kn.steps_rules of_steps [OF pauses] of_steps [OF acquires] of_steps [OF releases] steps_finally
          process_leased_steps assms) (erule (1) known_trans)
    then have "known j [] s (snd (?m s))" by (rule stepsD)
    then show ?thesis using forget_job [OF Some] Some by (simp add: process_job_def)
  qed
qed

lemma worker_run_steps: "env v \<Longrightarrow> steps base (worker_run v n i)"
  unfolding worker_run_def by (intro bs.steps_rules process_job_steps pauses failure_notes)

section \<open>The queue and the requests\<close>

lemma enqueue_steps: "env v \<Longrightarrow> steps base (enqueue v i)"
  unfolding enqueue_def by (intro bs.steps_rules queue_reads queue_removes queue_adds pauses)

lemma recover_jobs_steps: "env v \<Longrightarrow> steps base (recover_jobs v)"
  unfolding recover_jobs_def by (intro bs.steps_rules enqueue_steps pauses)

lemma ensure_enqueued_steps: "env v \<Longrightarrow> steps base (ensure_enqueued v i)"
  unfolding ensure_enqueued_def
  by (intro bs.steps_bnd bs.steps_catch bs.steps_throw enqueue_steps pauses marks unqueued)

lemma view_steps:
  assumes "env v"
  shows "steps base (job_view v j b)" "steps base (get_for_employer v e i b)" "steps base (get_internal v i)"
  unfolding job_view_def get_for_employer_def get_internal_def find_job_def
  by (intro bs.steps_rules pauses assms)+

lemma replay_steps: "env v \<Longrightarrow> steps base (replay_payroll v found hash)"
  unfolding replay_payroll_def Let_def
  by (cases found) (simp only: prod.case, intro bs.steps_rules pauses ensure_enqueued_steps view_steps)

lemma validate_source_steps: "env v \<Longrightarrow> steps base (validate_source v e c)"
  unfolding validate_source_def
  by (intro bs.steps_rules bs.steps_reply validations)

lemma normalized_steps:
  "(\<And>c. steps base (m c)) \<Longrightarrow> steps base (case x of Inl err \<Rightarrow> throw err | Inr c \<Rightarrow> m c)"
  by (cases x) (simp_all only: sum.case bs.steps_throw)

lemma submit_steps:
  assumes "env v"
  shows "steps base (submit_payroll v e k c)"
proof -
  have fresh: "steps base (bnd (transaction (\<lambda>_. True) (create_payroll v e k h c)) (\<lambda>_. ret None))" for h c
    by (intro bs.steps_bnd creations bs.steps_ret)
  show ?thesis
    unfolding submit_payroll_def Let_def
    by (intro normalized_steps bs.steps_ensure bs.steps_bnd [OF bs.steps_ensure] bs.steps_bnd [OF bs.steps_gets]
        bs.steps_bnd [OF pauses] bs.steps_bnd [OF validate_source_steps] bs.steps_option
        bs.steps_bnd [OF bs.steps_catch [OF fresh]] bs.steps_if bs.steps_throw bs.steps_ret
        bs.steps_bnd [OF ensure_enqueued_steps] bs.steps_bnd [OF replay_steps]
        replay_steps view_steps assms)
qed

end

end
