(* ===== verification/PayrollRuns.thy ===== *)
theory PayrollRuns
  imports PayrollRelation
begin

text \<open>
  Every request, every run of the worker and every recovery of the Payroll service stays within
  \<open>payroll_step\<close>, whatever the other services answer and whatever else happens at each \<open>await\<close>; and the
  states that the service reaches.
\<close>

section \<open>Jobs\<close>

lemma counts_le: "job_ok rows j \<Longrightarrow> pj_completed j + pj_failed j \<le> pj_total j"
proof -
  have "count_items (\<lambda>st. st = ItemCompleted) i xs + count_items (\<lambda>st. st = ItemFailed) i xs \<le> count_items (\<lambda>_. True) i xs" for i xs
    unfolding count_items_def count_where_def by (induction xs) auto
  then show "job_ok rows j \<Longrightarrow> ?thesis" by (simp add: job_ok_def)
qed

lemma later_job_find:
  assumes "find_job_row i s = Some j" and "payroll_later s t"
  shows "\<exists>k. find_job_row i t = Some k \<and> later_job j k"
  using grows_find [of later_job "jobs s" "jobs t" pj_id i j] assms
  by (auto simp: find_job_row_def payroll_later_def later_job_def job_core_def)

lemma find_job_row_in: "find_job_row i s = Some j \<Longrightarrow> j \<in> set (jobs s) \<and> pj_id j = i"
  unfolding find_job_row_def by (rule find_Some_in)

lemma finalize_job_step:
  fixes v :: "'w payroll_env"
  assumes "calm_payroll v"
  shows "steps payroll_step (finalize_job v i)"
  unfolding finalize_job_def
proof (rule py.steps_gets_bnd)
  fix s :: "'w payroll_state"
  let ?f = "\<lambda>j r. r\<lparr>pj_status := final_status j, pj_finished := Some (yv_now v 9), pj_queue_error := None\<rparr>"
  let ?m = "\<lambda>found. case found of None \<Rightarrow> throw (DbError P2025) | Some j \<Rightarrow>
      bnd (ensure (pj_completed j + pj_failed j = pj_total j) (PlainError ''PAYROLL_ITEMS_NONTERMINAL'')) (\<lambda>_.
      bnd (pause (yv_others v 15 i)) (\<lambda>_. update_job (yv_now v 8) i (?f j)))"
  show "payroll_step s (snd (?m (find_job_row i s) s))"
  proof (cases "find_job_row i s")
    case None
    then show ?thesis by (simp add: py.R_refl)
  next
    case (Some j)
    show ?thesis
    proof (cases "pj_completed j + pj_failed j = pj_total j")
      case False
      then show ?thesis using Some by (simp add: py.R_refl)
    next
      case True
      let ?u = "yv_others v 15 i s"
      have su: "payroll_step s ?u" using assms by (simp add: calm_payroll_def)
      obtain r t where t: "update_job (yv_now v 8) i (?f j) ?u = (r, t)" by fastforce
      have "payroll_step ?u t" if ok: "payroll_ok s"
      proof (rule update_job_step [OF _ t])
        fix k
        assume k: "payroll_ok ?u" "k \<in> set (jobs ?u)" "pj_id k = i"
        have "payroll_later s ?u" using su ok by (simp add: payroll_step_def)
        then obtain k' where k': "find_job_row i ?u = Some k'" "later_job j k'" using later_job_find Some by blast
        have "k' = k" using distinct_key [OF payroll_okD(1) [OF k(1)]] find_job_row_in [OF k'(1)] k(2,3) by blast
        then have same: "pj_completed j \<le> pj_completed k" "pj_failed j \<le> pj_failed k" "pj_total k = pj_total j"
          using k'(2) by (simp_all add: later_job_def job_core_def)
        have "pj_completed k + pj_failed k \<le> pj_total k" using counts_le payroll_okD(9) [OF k(1,2)] .
        then have "pj_completed k = pj_completed j" "pj_failed k = pj_failed j" using same True by linarith+
        then show "job_core (?f j k) = job_core k \<and> pj_completed (?f j k) = pj_completed k \<and>
            pj_failed (?f j k) = pj_failed k \<and>
            (is_terminal (pj_status (?f j k)) \<longrightarrow>
               pj_completed k + pj_failed k = pj_total k \<and> pj_status (?f j k) = final_status k)"
          using True same(3) by (simp add: job_core_def final_status_def)
      qed
      then have "payroll_step s t" using su py.R_trans by (metis payroll_step_def)
      then show ?thesis using Some True t by simp
    qed
  qed
qed

lemma open_status_step:
  assumes "\<And>j. P j \<Longrightarrow> \<not> is_terminal (pj_status (f j))"
    and "\<And>j. job_core (f j) = job_core j \<and> pj_completed (f j) = pj_completed j \<and> pj_failed (f j) = pj_failed j"
  shows "steps payroll_step (update_jobs now P f)"
proof (rule stepsI)
  fix s :: "'w payroll_state"
  obtain r t where "update_jobs now P f s = (r, t)" by fastforce
  then show "payroll_step s (snd (update_jobs now P f s))"
    using update_jobs_step [of s P f now] assms by simp
qed

lemma update_job_steps:
  assumes "\<And>j. job_core (f j) = job_core j \<and> pj_completed (f j) = pj_completed j \<and> pj_failed (f j) = pj_failed j"
    and "\<And>j. is_terminal (pj_status (f j)) \<Longrightarrow> pj_status (f j) = pj_status j"
  shows "steps payroll_step (update_job now i f)"
proof (rule stepsI)
  fix s :: "'w payroll_state"
  obtain r t where t: "update_job now i f s = (r, t)" by fastforce
  have "payroll_step s t"
  proof (rule update_job_step [OF _ t])
    fix j
    assume "payroll_ok s" "j \<in> set (jobs s)"
    then have "job_ok (items s) j" by (rule payroll_okD(9))
    then show "job_core (f j) = job_core j \<and> pj_completed (f j) = pj_completed j \<and> pj_failed (f j) = pj_failed j \<and>
        (is_terminal (pj_status (f j)) \<longrightarrow>
           pj_completed j + pj_failed j = pj_total j \<and> pj_status (f j) = final_status j)"
      using assms(1) [of j] assms(2) [of j] by (auto simp: job_ok_def)
  qed
  then show "payroll_step s (snd (update_job now i f s))" using t by simp
qed

lemma note_queue_failure_step: "steps payroll_step (note_queue_failure v i)"
  unfolding note_queue_failure_def
  by (intro py.steps_rules open_status_step) (auto simp: job_core_def is_terminal_def)

section \<open>Submission\<close>

lemma mark_queued_step: "steps payroll_step (mark_queued v i)"
  unfolding mark_queued_def
  by (intro py.steps_rules open_status_step update_job_key_step)
    (auto simp: job_core_def is_terminal_def later_key_def key_core_def)

section \<open>Creation of a job\<close>

text \<open>What the rows are that the insertion of items adds.\<close>

definition stored_as :: "payroll_item \<Rightarrow> payroll_item \<Rightarrow> bool" where
  "stored_as q r \<longleftrightarrow> money_column (pi_amount q) = Some (pi_amount r) \<and> r = q\<lparr>pi_amount := pi_amount r\<rparr>"

definition item_keys_ok :: "payroll_item list \<Rightarrow> bool" where
  "item_keys_ok rows \<longleftrightarrow>
     distinct (map pi_id rows) \<and> distinct (map pi_key rows) \<and> unique_some pi_transfer rows"

lemma create_item_effect:
  assumes "create_item q s = (Inr x, t)"
  shows "\<exists>r. stored_as q r \<and> t = s\<lparr>items := items s @ [r]\<rparr> \<and>
    (item_keys_ok (items s) \<longrightarrow> item_keys_ok (items s @ [r])) \<and> pi_job q \<in> pj_id ` set (jobs s)"
proof -
  obtain a where a: "money_column (pi_amount q) = Some a"
    using assms by (auto simp: create_item_def split: option.splits)
  let ?r = "q\<lparr>pi_amount := a\<rparr>"
  have t: "t = s\<lparr>items := items s @ [?r]\<rparr>" "\<not> item_conflict ?r (items s)" "key_taken pj_id (pi_job q) (jobs s)"
    using assms a by (auto simp: create_item_def Let_def split: if_splits)
  have "item_keys_ok (items s @ [?r])" if "item_keys_ok (items s)"
    using that t(2) by (auto simp: item_keys_ok_def item_conflict_def key_taken_def unique_some_snoc)
  then show ?thesis
    using t(1,3) a by (intro exI [of _ ?r]) (auto simp: stored_as_def key_taken_def)
qed

lemma each_create_item:
  assumes "each create_item qs s = (Inr xs, t)"
  shows "\<exists>rows. list_all2 stored_as qs rows \<and> t = s\<lparr>items := items s @ rows\<rparr> \<and>
    (item_keys_ok (items s) \<longrightarrow> item_keys_ok (items s @ rows)) \<and> (\<forall>q\<in>set qs. pi_job q \<in> pj_id ` set (jobs s))"
  using assms
proof (induction qs arbitrary: s xs)
  case Nil
  then show ?case by simp
next
  case (Cons q qs)
  from Cons.prems obtain x u ys where x: "create_item q s = (Inr x, u)" and ys: "each create_item qs u = (Inr ys, t)"
    by (auto simp: bnd_result_Inr)
  obtain r where r: "stored_as q r" "u = s\<lparr>items := items s @ [r]\<rparr>"
    "item_keys_ok (items s) \<longrightarrow> item_keys_ok (items s @ [r])" "pi_job q \<in> pj_id ` set (jobs s)"
    using create_item_effect [OF x] by blast
  obtain rows where rows: "list_all2 stored_as qs rows" "t = u\<lparr>items := items u @ rows\<rparr>"
    "item_keys_ok (items u) \<longrightarrow> item_keys_ok (items u @ rows)" "\<forall>q\<in>set qs. pi_job q \<in> pj_id ` set (jobs u)"
    using Cons.IH [OF ys] by blast
  show ?case
    by (rule exI [of _ "r # rows"]) (use r rows in auto)
qed

definition fresh_item :: "uuid \<Rightarrow> payroll_item \<Rightarrow> bool" where
  "fresh_item i q \<longleftrightarrow> pi_job q = i \<and> pi_status q = ItemPending \<and> pi_token q = None \<and> pi_failure q = None \<and>
     pi_transfer q = None"

lemma new_items_fresh: "q \<in> set (new_items v c) \<Longrightarrow> fresh_item (yv_job_id v) q"
  by (auto simp: new_items_def fresh_item_def)

lemma stored_fresh: "stored_as q r \<Longrightarrow> fresh_item i q \<Longrightarrow> fresh_item i r"
proof -
  assume "stored_as q r" and q: "fresh_item i q"
  then have "r = q\<lparr>pi_amount := pi_amount r\<rparr>" by (simp add: stored_as_def)
  then obtain a where "r = q\<lparr>pi_amount := a\<rparr>" ..
  then show "fresh_item i r" using q by (simp add: fresh_item_def)
qed

lemma count_items_fresh:
  assumes "\<And>q. q \<in> set rows \<Longrightarrow> fresh_item i q"
  shows "count_items S k rows = (if k = i \<and> S ItemPending then length rows else 0)"
  using assms unfolding count_items_def count_where_def fresh_item_def
  by (induction rows) auto

lemma count_items_append: "count_items S i (xs @ ys) = count_items S i xs + count_items S i ys"
  by (simp add: count_items_def count_where_def)

lemma count_items_absent: "(\<And>q. q \<in> set rows \<Longrightarrow> pi_job q \<noteq> i) \<Longrightarrow> count_items S i rows = 0"
  by (auto simp: count_items_def count_where_def filter_empty_conv)

lemma create_payroll_step:
  assumes "create_payroll v e k h c s = (Inr (), t)"
  shows "payroll_step s t"
proof -
  let ?i = "yv_job_id v"
  obtain u w x where job: "create_job (new_job v e c) s = (Inr (), u)"
    and rows: "each create_item (new_items v c) u = (Inr x, w)"
    and key: "create_job_key (new_job_key v e k h) w = (Inr (), t)"
    using assms by (auto simp: create_payroll_def bnd_result_Inr)
  obtain j where j: "u = s\<lparr>jobs := jobs s @ [j]\<rparr>" "\<not> key_taken pj_id ?i (jobs s)" "pj_id j = ?i"
    "pj_total j = length (new_items v c)" "pj_completed j = 0" "pj_failed j = 0" "pj_status j = JobPending"
    using job by (auto simp: create_job_def new_job_def Let_def split: option.splits if_splits)
  obtain added where added: "list_all2 stored_as (new_items v c) added" "w = u\<lparr>items := items u @ added\<rparr>"
    "item_keys_ok (items u) \<longrightarrow> item_keys_ok (items u @ added)"
    using each_create_item [OF rows] by blast
  have t: "t = w\<lparr>job_keys := job_keys w @ [new_job_key v e k h]\<rparr>"
    "(e, k) \<notin> (\<lambda>r. (py_employer r, py_key r)) ` set (job_keys w)" "?i \<notin> py_job ` set (job_keys w)"
    using key by (auto simp: create_job_key_def key_taken_def new_job_key_def split: if_splits)
  have fresh: "fresh_item ?i r" if "r \<in> set added" for r
    using list_all2_right [OF added(1) that] stored_fresh new_items_fresh by blast
  have tabs: "items t = items s @ added" "jobs t = jobs s @ [j]" "job_keys t = job_keys s @ [new_job_key v e k h]"
    using t(1) added(2) j(1) by simp_all
  have "payroll_ok t" if ok: "payroll_ok s"
  proof -
    have keys: "item_keys_ok (items t)"
      using added(3) payroll_okD(2-4) [OF ok] j(1) by (simp add: tabs item_keys_ok_def)
    have old: "pi_job q \<noteq> ?i" if "q \<in> set (items s)" for q
      using payroll_okD(8) [OF ok that] j(2) by (auto simp: key_taken_def)
    have counts: "count_items S i (items t) =
        (if i = ?i then (if S ItemPending then length (new_items v c) else 0) else count_items S i (items s))" for S i
      using count_items_fresh [of added ?i S i, OF fresh] count_items_absent [of "items s" ?i S, OF old]
        list_all2_lengthD [OF added(1)]
      by (simp add: tabs count_items_append)
    show ?thesis
      unfolding payroll_ok_def
    proof (intro conjI ballI)
      show "distinct (map pj_id (jobs t))"
        using payroll_okD(1) [OF ok] j(2,3) by (simp add: tabs key_taken_def)
      show "distinct (map pi_id (items t))" "distinct (map pi_key (items t))" "unique_some pi_transfer (items t)"
        using keys by (simp_all add: item_keys_ok_def)
      show "distinct (map (\<lambda>r. (py_employer r, py_key r)) (job_keys t))" "distinct (map py_job (job_keys t))"
        using payroll_okD(5,6) [OF ok] t(2,3) added(2) j(1) by (simp_all add: tabs new_job_key_def)
      fix q
      assume "q \<in> set (items t)"
      then consider "q \<in> set (items s)" | "fresh_item ?i q" using fresh by (auto simp: tabs)
      then show "item_ok q" "pi_job q \<in> pj_id ` set (jobs t)"
        using payroll_okD(7,8) [OF ok] j(3) by (cases; auto simp: tabs fresh_item_def item_ok_def)+
    next
      fix r
      assume "r \<in> set (jobs t)"
      then consider "r \<in> set (jobs s)" | "r = j" by (auto simp: tabs)
      then show "job_ok (items t) r"
      proof cases
        case 1
        have "pj_id r \<noteq> ?i"
        proof
          assume "pj_id r = ?i"
          then have "?i \<in> pj_id ` set (jobs s)" using 1 by (metis image_eqI)
          then show False using j(2) by (simp add: key_taken_def)
        qed
        then have "job_ok (items t) r = job_ok (items s) r" by (intro job_ok_counts) (simp_all add: counts)
        then show ?thesis using payroll_okD(9) [OF ok 1] by simp
      next
        case 2
        then show ?thesis using j(3-7) by (simp add: job_ok_def counts is_terminal_def)
      qed
    next
      fix r
      assume "r \<in> set (job_keys t)"
      then consider "r \<in> set (job_keys s)" | "py_job r = ?i" by (auto simp: tabs new_job_key_def)
      then show "py_job r \<in> pj_id ` set (jobs t)"
        using payroll_okD(10) [OF ok] j(3) by (cases; auto simp: tabs)
    qed
  qed
  moreover have "payroll_later s t" by (simp add: payroll_later_def tabs grows_snoc)
  ultimately show ?thesis by (simp add: payroll_step_def)
qed

lemma create_transaction_step:
  fixes v :: "'w payroll_env"
  shows "steps payroll_step (transaction (\<lambda>_. True) (create_payroll v e k h c))"
proof (rule stepsI)
  fix s :: "'w payroll_state"
  obtain r t where t: "transaction (\<lambda>_. True) (create_payroll v e k h c) s = (r, t)" by fastforce
  have "payroll_step s t"
  proof (cases r)
    case (Inl x)
    then show ?thesis using transaction_Inl t py.R_refl by metis
  next
    case (Inr x)
    then show ?thesis using t create_payroll_step by (simp add: transaction_Inr)
  qed
  then show "payroll_step s (snd (transaction (\<lambda>_. True) (create_payroll v e k h c) s))" using t by simp
qed

lemma start_job_step:
  "steps payroll_step (update_job now i (\<lambda>r. r\<lparr>pj_status := JobProcessing, pj_started := x, pj_queue_error := None\<rparr>))"
  by (rule update_job_steps) (simp_all add: job_core_def is_terminal_def)

section \<open>The relation\<close>

interpretation pw: payroll_relation payroll_step "\<lambda>_. known_items" calm_payroll
proof
  fix s t :: "'w payroll_state" and qs j
  show "known_items qs s s" by (rule pk.R_refl)
  show "known_items qs s t" if "\<not> payroll_ok s" using that by (simp add: known_items_def)
  show "known_items [] s t" if "known_items qs s t" "payroll_ok s \<Longrightarrow> \<forall>q\<in>set qs. item_known q s \<and> pi_job q = pj_id j"
    using that by (auto simp: known_items_def)
  show "known_items qs s t" if "known_items [] s t" using that by (simp add: known_items_def)
  show "payroll_step s t" if "known_items [] s t" using that by (simp add: known_items_def payroll_step_def)
  show "known_items qs s t" if "payroll_step s t" using that by (rule known_of_step)
qed (auto intro: py.R_refl py.R_trans pk.R_trans pause_payroll claim_item_step execute_item_known start_job_step
    finalize_job_step note_queue_failure_step lease_steps world_call_step call_service_step
    py.steps_transaction mark_queued_step update_job_steps create_transaction_step
    simp: source_validation_def job_core_def)

text \<open>Within the relation without items is within \<open>payroll_step\<close>.\<close>

lemma known_nothing: "known_items [] = payroll_step"
  by (intro ext) (simp add: known_items_def payroll_step_def)

lemmas reconcile_claimed_step = pw.reconcile_claimed_steps [unfolded known_nothing]

lemmas work_batches_step = pw.work_batches_steps [unfolded known_nothing]

lemmas payroll_steps = pw.worker_run_steps pw.recover_jobs_steps pw.view_steps pw.submit_steps

section \<open>Runs\<close>

datatype payroll_request_kind =
    SubmitPayroll "string option" string create_payroll_dto
  | GetPayroll "string option" uuid
  | GetPayrollInternal uuid
  | WorkPayroll nat uuid     \<comment> \<open>the queue gives a job to the worker; the fuel of the batches\<close>
  | RecoverPayroll           \<comment> \<open>the start of the process and the recovery interval\<close>
  | RenewLease string uuid   \<comment> \<open>the renewal timer of a worker\<close>

fun serve_payroll ::
  "transfer_http \<Rightarrow> 'w payroll_env \<Rightarrow> payroll_request_kind \<Rightarrow> 'w payroll_state \<Rightarrow> 'w payroll_state" where
  "serve_payroll h v (SubmitPayroll header key c) s = snd (submit_route h v header key c s)"
| "serve_payroll h v (GetPayroll header i) s = snd (get_job_route h v header i s)"
| "serve_payroll h v (GetPayrollInternal i) s = snd (get_internal_job_route h v i s)"
| "serve_payroll h v (WorkPayroll n i) s = snd (worker_run v n i s)"
| "serve_payroll h v RecoverPayroll s = snd (recover_jobs v s)"
| "serve_payroll h v (RenewLease e token) s = snd (renew_lease (yv_now v 15) e token lease_ttl_ms s)"

inductive payroll_run :: "'w payroll_state \<Rightarrow> 'w payroll_state \<Rightarrow> bool" where
  py_idle: "payroll_run s s"
| py_world: "payroll_run s t \<Longrightarrow> payroll_run s (t\<lparr>others_world := w\<rparr>)"
| py_serve: "\<forall>k i u. payroll_run u (yv_others v k i u) \<Longrightarrow> payroll_run s t \<Longrightarrow>
    payroll_run s (serve_payroll h v q t)"

definition empty_payroll :: "'w \<Rightarrow> 'w payroll_state" where
  "empty_payroll w =
     \<lparr>jobs = [], items = [], job_keys = [], leases = (\<lambda>_. None), others_world = w\<rparr>"

lemma empty_payroll_ok [simp]: "payroll_ok (empty_payroll w)"
  by (simp add: payroll_ok_def empty_payroll_def)

lemma serve_payroll_step:
  assumes "calm_payroll v"
  shows "payroll_step s (serve_payroll h v q s)"
  by (cases q)
    (auto simp: submit_route_def get_job_route_def get_internal_job_route_def
      intro!: stepsD [where R = payroll_step] py.steps_validated py.steps_guarded py.steps_principal
        payroll_steps lease_steps assms)

lemma payroll_run_step: "payroll_run s t \<Longrightarrow> payroll_step s t"
proof (induction rule: payroll_run.induct)
  case (py_idle s)
  then show ?case by (rule py.R_refl)
next
  case (py_world s t w)
  from py_world.IH show ?case by (rule py.R_trans) (simp add: same_payroll)
next
  case (py_serve v s t h q)
  then have "payroll_step t (serve_payroll h v q t)" by (intro serve_payroll_step) (simp add: calm_payroll_def)
  then show ?case using py_serve.IH(2) py.R_trans by blast
qed

lemma payroll_run_ok: "payroll_run (empty_payroll w) s \<Longrightarrow> payroll_ok s"
  using payroll_run_step [of "empty_payroll w" s] by (simp add: payroll_step_def)

lemma payroll_run_later: "payroll_run s t \<Longrightarrow> payroll_ok s \<Longrightarrow> payroll_ok t \<and> payroll_later s t"
  using payroll_run_step [of s t] by (simp add: payroll_step_def)

lemma payroll_run_calm: "\<forall>k i u. payroll_run u (yv_others v k i u) \<Longrightarrow> calm_payroll v"
  by (simp add: calm_payroll_def payroll_run_step)

lemma payroll_run_trans: "payroll_run t u \<Longrightarrow> payroll_run s t \<Longrightarrow> payroll_run s u"
  by (induction rule: payroll_run.induct) (auto intro: payroll_run.intros)

end
