(* ===== verification/PayrollDemo.thy ===== *)
theory PayrollDemo
  imports PayrollRuns TransferDemo
begin

text \<open>
  A concrete run of the Payroll service, at which the properties are applied: the employer alice submits
  a payroll with one payment of 100 USD, and the worker pays it. The answers of the Transaction service
  are a parameter.
\<close>

definition demo_source :: source_wallet where
  "demo_source = \<lparr>sw_wallet = ''wa'', sw_owner = ''alice'', sw_currency = ''USD'', sw_status = ''ACTIVE''\<rparr>"

definition demo_pay_env ::
  "(string \<Rightarrow> string \<Rightarrow> domestic_command \<Rightarrow> 'w \<Rightarrow> payroll_transfer fetched \<times> 'w) \<Rightarrow> 'w payroll_env" where
  "demo_pay_env call = \<lparr>yv_decimal = exact_decimal, yv_digest = (\<lambda>_. ''h''), yv_others = (\<lambda>_ _ s. s),
     yv_lost = (\<lambda>_ _. False), yv_now = (\<lambda>_. 1000), yv_job_id = ''j'', yv_item_id = (\<lambda>_. ''i''),
     yv_lease_token = ''L'', yv_item_token = (\<lambda>_. ''T''), yv_token = Some ''k'', yv_account_url = Some ''a'',
     yv_transaction_url = Some ''t'', yv_validation = (\<lambda>_ w. (Response 200 demo_source None None, w)),
     yv_create_domestic = call, yv_queue_state = (\<lambda>_ _. Inr None), yv_queue_remove = (\<lambda>_ w. (Inr (), w)),
     yv_queue_add = (\<lambda>_ w. (Inr (), w))\<rparr>"

definition demo_payroll :: create_payroll_dto where
  "demo_payroll = \<lparr>cy_source = ''wa'', cy_currency = ''USD'',
     cy_items = [\<lparr>id_external = ''e'', id_recipient = ''wb'', id_amount = ''100.0''\<rparr>]\<rparr>"

definition demo_job :: payroll_job where
  "demo_job = \<lparr>pj_id = ''j'', pj_employer = ''alice'', pj_source = ''wa'', pj_currency = ''USD'',
     pj_status = JobQueued, pj_total = 1, pj_completed = 0, pj_failed = 0, pj_amount = 100,
     pj_bullmq = Some ''j'', pj_queue_failures = 0, pj_queue_error = None, pj_started = None,
     pj_finished = None, pj_updated = 1000\<rparr>"

definition demo_item :: payroll_item where
  "demo_item = \<lparr>pi_id = ''i'', pi_job = ''j'', pi_sequence = 0, pi_external = ''e'', pi_recipient = ''wb'',
     pi_amount = 100, pi_currency = ''USD'', pi_status = ItemPending, pi_attempts = 0, pi_token = None,
     pi_started = None, pi_transfer = None, pi_key = ''payroll:j:i'', pi_failure = None, pi_finished = None\<rparr>"

definition demo_job_key :: payroll_record where
  "demo_job_key = \<lparr>py_employer = ''alice'', py_key = ''pay-1'', py_hash = ''h'', py_job = ''j'',
     py_state = KeyCompleted, py_status = Some 202, py_replay_until = 86401000,
     py_retain_until = 220752001000\<rparr>"

definition demo_sent :: "'w \<Rightarrow> 'w payroll_state" where
  "demo_sent w = \<lparr>jobs = [demo_job], items = [demo_item], job_keys = [demo_job_key], leases = (\<lambda>_. None),
     others_world = w\<rparr>"

definition demo_paid_job :: payroll_job where
  "demo_paid_job = demo_job\<lparr>pj_status := JobCompleted, pj_completed := 1, pj_started := Some 1000,
     pj_finished := Some 1000\<rparr>"

definition demo_paid_item :: payroll_item where
  "demo_paid_item = demo_item\<lparr>pi_status := ItemCompleted, pi_attempts := 1, pi_transfer := Some ''x1'',
     pi_finished := Some 1000\<rparr>"

definition demo_paid_state :: "'w \<Rightarrow> 'w payroll_state" where
  "demo_paid_state w = \<lparr>jobs = [demo_paid_job], items = [demo_paid_item], job_keys = [demo_job_key],
     leases = (\<lambda>_. None), others_world = w\<rparr>"

text \<open>The Transaction service completes every transfer.\<close>

definition demo_transfer :: payroll_transfer where
  "demo_transfer = \<lparr>pt_id = Some ''x1'', pt_status = Some ''COMPLETED'', pt_failure = None\<rparr>"

abbreviation demo_pay :: "unit payroll_env" where
  "demo_pay \<equiv> demo_pay_env (\<lambda>_ _ _ w. (Response 201 demo_transfer None None, w))"

lemmas pay_rows = demo_source_def demo_payroll_def demo_job_def demo_item_def demo_job_key_def demo_sent_def
  demo_paid_job_def demo_paid_item_def demo_paid_state_def demo_transfer_def

lemmas pay_writes = create_job_def create_item_def create_job_key_def job_check_def item_check_def
  item_conflict_def key_taken_def update_jobs_def update_items_def update_job_def update_job_key_def
  update_where_def count_where_def unique_some_def short_text_def char_count_def is_currency_def upper_letter_def
  find_job_row_def items_of_def numeric_column_def

lemma demo_env_simps [simp]:
  "yv_decimal (demo_pay_env call) = exact_decimal" "yv_digest (demo_pay_env call) j = ''h''"
  "yv_others (demo_pay_env call) k i s = s" "yv_lost (demo_pay_env call) k i = False"
  "yv_now (demo_pay_env call) k = 1000" "yv_job_id (demo_pay_env call) = ''j''"
  "yv_item_id (demo_pay_env call) n = ''i''" "yv_lease_token (demo_pay_env call) = ''L''"
  "yv_item_token (demo_pay_env call) i = ''T''" "yv_token (demo_pay_env call) = Some ''k''"
  "yv_account_url (demo_pay_env call) = Some ''a''" "yv_transaction_url (demo_pay_env call) = Some ''t''"
  "yv_validation (demo_pay_env call) i w = (Response 200 demo_source None None, w)"
  "yv_create_domestic (demo_pay_env call) = call" "yv_queue_state (demo_pay_env call) i w = Inr None"
  "yv_queue_add (demo_pay_env call) i w = (Inr (), w)"
  by (simp_all add: demo_pay_env_def)

lemma demo_create_payroll:
  "create_payroll (demo_pay_env call) ''alice'' ''pay-1'' ''h'' demo_payroll (empty_payroll w) =
     (Inr (), \<lparr>jobs = [demo_job\<lparr>pj_status := JobPending, pj_bullmq := None\<rparr>], items = [demo_item],
        job_keys = [demo_job_key\<lparr>py_state := KeyProcessing, py_status := None\<rparr>], leases = (\<lambda>_. None),
        others_world = w\<rparr>)"
  by (simp add: create_payroll_def new_job_def new_items_def new_job_key_def payroll_replay_ms_def
      payroll_retention_ms_def bnd_def pay_writes pay_rows empty_payroll_def Let_def)

lemma demo_ensure_enqueued:
  "ensure_enqueued (demo_pay_env call) ''j''
     \<lparr>jobs = [demo_job\<lparr>pj_status := JobPending, pj_bullmq := None\<rparr>], items = [demo_item],
        job_keys = [demo_job_key\<lparr>py_state := KeyProcessing, py_status := None\<rparr>], leases = (\<lambda>_. None),
        others_world = w\<rparr> = (Inr (), demo_sent w)"
  by (simp add: ensure_enqueued_def enqueue_def world_call_def mark_queued_def transaction_def catch_def bnd_def
      pay_writes pay_rows Let_def)

lemma demo_normalize: "normalize_payroll exact_decimal demo_payroll = Inr demo_payroll"
  by (simp add: normalize_payroll_def demo_payroll_def max_items_def)

lemma demo_submit:
  "snd (submit_payroll (demo_pay_env call) ''alice'' ''pay-1'' demo_payroll (empty_payroll w)) = demo_sent w"
proof -
  have "idempotency_key_ok ''pay-1''" by (simp add: idempotency_key_ok_def)
  moreover have "payroll_hash (demo_pay_env call) demo_payroll = ''h''" by (simp add: payroll_hash_def)
  moreover have "find_job_key ''alice'' ''pay-1'' (empty_payroll w) = None"
    by (simp add: find_job_key_def empty_payroll_def)
  moreover have "validate_source (demo_pay_env call) ''alice'' demo_payroll (empty_payroll w) = (Inr (), empty_payroll w)"
    by (simp add: validate_source_def source_validation_def call_service_def payroll_request_def bnd_def
        demo_source_def demo_payroll_def empty_payroll_def)
  moreover have "snd (get_for_employer (demo_pay_env call) ''alice'' ''j'' True (demo_sent w)) = demo_sent w"
    by (simp add: get_for_employer_def find_job_def job_view_def bnd_def find_job_row_def demo_sent_def demo_job_def)
  ultimately show ?thesis
    using demo_create_payroll [of call w] demo_ensure_enqueued [of call w]
    by (simp add: submit_payroll_def demo_normalize Let_def bnd_def catch_def transaction_def)
qed

text \<open>The steps of the worker.\<close>

definition demo_started :: "'w \<Rightarrow> 'w payroll_state" where
  "demo_started w = (demo_sent w)\<lparr>jobs := [demo_job\<lparr>pj_status := JobProcessing, pj_started := Some 1000\<rparr>],
     leases := (\<lambda>_. None)(lease_key ''alice'' := Some (''L'', 31000))\<rparr>"

definition demo_claimed_item :: payroll_item where
  "demo_claimed_item = demo_item\<lparr>pi_status := ItemProcessing, pi_attempts := 1, pi_token := Some ''T'',
     pi_started := Some 1000\<rparr>"

definition demo_claimed :: "'w \<Rightarrow> 'w payroll_state" where
  "demo_claimed w = (demo_started w)\<lparr>items := [demo_claimed_item]\<rparr>"

definition demo_counted :: "'w \<Rightarrow> 'w payroll_state" where
  "demo_counted w = (demo_started w)\<lparr>
     jobs := [demo_job\<lparr>pj_status := JobProcessing, pj_started := Some 1000, pj_completed := 1\<rparr>],
     items := [demo_paid_item]\<rparr>"

lemma demo_reconcile_claimed:
  "reconcile_claimed (demo_pay_env call) demo_job (demo_started w) = (Inr (), demo_started w)"
  by (simp add: reconcile_claimed_def items_of_def demo_started_def demo_sent_def demo_item_def)

lemma demo_claim_batch:
  "claim_pending_batch (demo_pay_env call) ''j'' (demo_started w) = (Inr [demo_claimed_item], demo_claimed w)"
  by (simp add: claim_pending_batch_def claim_item_def bnd_def item_batch_size_def demo_started_def
      demo_claimed_def demo_claimed_item_def pay_writes demo_sent_def demo_item_def List.map_filter_def)

lemma demo_claim_rest:
  "claim_pending_batch (demo_pay_env call) ''j'' (demo_counted w) = (Inr [], demo_counted w)"
  by (simp add: claim_pending_batch_def demo_counted_def demo_paid_item_def demo_item_def items_of_def
      List.map_filter_def)

lemma demo_checkpoint:
  "checkpoint_response (demo_pay_env call) demo_claimed_item demo_transfer (demo_claimed w) = (Inr (), demo_counted w)"
  by (simp add: checkpoint_response_def demo_transfer_def checkpoint_def checkpoint_body_def bnd_def transaction_def
      demo_claimed_def demo_claimed_item_def demo_counted_def demo_started_def pay_writes demo_sent_def
      demo_item_def demo_job_def demo_paid_item_def)

lemma demo_finalize:
  "finalize_job (demo_pay_env call) ''j'' (demo_counted w) =
     (Inr (), (demo_paid_state w)\<lparr>leases := (\<lambda>_. None)(lease_key ''alice'' := Some (''L'', 31000))\<rparr>)"
  by (simp add: finalize_job_def bnd_def pay_writes demo_counted_def demo_started_def demo_sent_def pay_rows final_status_def)

definition demo_item_command :: domestic_command where
  "demo_item_command = \<lparr>dc_sender = ''wa'', dc_recipient = ''wb'', dc_amount = ''100.00000000'', dc_currency = ''USD''\<rparr>"

lemma demo_execute:
  assumes "call ''alice'' ''payroll:j:i'' demo_item_command w = (Response 201 demo_transfer None None, w')"
  shows "execute_item (demo_pay_env call) demo_job demo_claimed_item (demo_claimed w) = (Inr (), demo_counted w')"
proof -
  have "create_domestic_call (demo_pay_env call) (pj_employer demo_job) (pi_key demo_claimed_item)
      (item_command (demo_pay_env call) (pj_source demo_job) demo_claimed_item) (demo_claimed w) =
      (Inr (Replied demo_transfer), demo_claimed w')"
    using assms
    by (simp add: create_domestic_call_def call_service_def payroll_request_def item_command_def
        demo_job_def demo_claimed_item_def demo_item_def demo_claimed_def demo_started_def demo_sent_def
        demo_item_command_def)
  then show ?thesis using demo_checkpoint [of call w'] by (simp add: execute_item_def bnd_def)
qed

lemma demo_worker_run:
  assumes "call ''alice'' ''payroll:j:i'' demo_item_command w = (Response 201 demo_transfer None None, w')"
  shows "worker_run (demo_pay_env call) 2 ''j'' (demo_sent w) = (Inr (Some ()), demo_paid_state w')"
proof -
  let ?v = "demo_pay_env call"
  let ?held = "(demo_sent w)\<lparr>leases := (\<lambda>_. None)(lease_key ''alice'' := Some (''L'', 31000))\<rparr>"
  let ?released = "(demo_paid_state w')\<lparr>leases := (\<lambda>_. None)(lease_key ''alice'' := Some (''L'', 31000))\<rparr>"
  have id: "pj_id demo_job = ''j''" "pj_employer demo_job = ''alice''" "pj_started demo_job = None" by (simp_all add: demo_job_def)
  have found: "find_job_row ''j'' (demo_sent w) = Some demo_job"
    by (simp add: find_job_row_def demo_sent_def demo_job_def)
  have open_job: "\<not> is_terminal (pj_status demo_job)" by (simp add: is_terminal_def demo_job_def)
  have lease: "acquire_lease 1000 ''alice'' ''L'' lease_ttl_ms (demo_sent w) = (Inr True, ?held)"
    by (simp add: acquire_lease_def held_by_def demo_sent_def lease_ttl_ms_def)
  have start: "update_job 1000 ''j'' (\<lambda>r. r\<lparr>pj_status := JobProcessing, pj_started := Some 1000, pj_queue_error := None\<rparr>) ?held =
      (Inr (), demo_started w)"
    by (simp add: pay_writes bnd_def demo_started_def demo_sent_def demo_job_def)
  have one: "each (\<lambda>q. bnd (pause (\<lambda>s. s)) (\<lambda>_. execute_item ?v demo_job q)) [demo_claimed_item] (demo_claimed w) =
      (Inr [()], demo_counted w')"
    using demo_execute [of call w w', OF assms] by (simp add: bnd_def)
  have work: "work_batches ?v demo_job 2 (demo_started w) = (Inr (Some ()), demo_counted w')"
    using one demo_claim_batch [of call w] demo_claim_rest [of call w']
    by (simp add: numeral_2_eq_2 bnd_def id pause_def)
  have "process_leased ?v 2 demo_job ?held = (Inr (Some ()), ?released)"
    using start work demo_reconcile_claimed [of call w] demo_finalize [of call w']
    by (simp add: process_leased_def bnd_def id)
  moreover have "snd (release_lease 1000 ''alice'' ''L'' ?released) = demo_paid_state w'"
    by (simp add: release_lease_def held_by_def demo_paid_state_def)
  ultimately have "process_job ?v 2 ''j'' (demo_sent w) = (Inr (Some ()), demo_paid_state w')"
    using lease open_job by (simp add: process_job_def found bnd_def id finally_do_def)
  then show ?thesis by (simp add: worker_run_def catch_def)
qed

lemma demo_pay_run_step: "payroll_run s t \<Longrightarrow> payroll_run s (serve_payroll h (demo_pay_env call) q t)"
  by (intro py_serve) (simp_all add: py_idle)

lemma demo_pay_runs:
  fixes w :: "'w"
  shows "payroll_run (empty_payroll w) (demo_sent w)"
proof -
  let ?v = "demo_pay_env (\<lambda>_ _ _ w. (Response 201 demo_transfer None None, w)) :: 'w payroll_env"
  have "submit_route demo_tx_http ?v (Some ''Bearer alice'') ''pay-1'' demo_payroll =
      submit_payroll ?v ''alice'' ''pay-1'' demo_payroll"
    by (rule ext)
      (simp add: submit_route_def validated_def create_payroll_ok_def char_count_def with_principal_def from_request_def
        bearer_token_def trim_def is_space_def principal_pattern_def is_alnum_def is_digit_def
        upper_letter_def is_currency_def decimal_pattern_def Let_def demo_payroll_def demo_tx_http_def)
  then show ?thesis
    using demo_pay_run_step [OF py_idle, of "empty_payroll w" demo_tx_http
        "\<lambda>_ _ _ w. (Response 201 demo_transfer None None, w)" "SubmitPayroll (Some ''Bearer alice'') ''pay-1'' demo_payroll"]
    by (simp add: demo_submit)
qed

lemma demo_paid_run:
  assumes "call ''alice'' ''payroll:j:i'' demo_item_command w = (Response 201 demo_transfer None None, w')"
  shows "payroll_run (demo_sent w) (demo_paid_state w')"
  using demo_pay_run_step [OF py_idle, of "demo_sent w" h call "WorkPayroll 2 ''j''"] demo_worker_run [of call w w', OF assms]
  by simp

end
