(* ===== verification/PayrollCommands.thy ===== *)
theory PayrollCommands
  imports PayrollDemo "HOL-Library.Multiset"
begin

text \<open>
  What a payroll request means: its canonical hash, what becomes of a repeated key, the employer's lease
  and the claims of items.
\<close>

section \<open>The canonical hash\<close>

definition item_payment :: "decimal_lib \<Rightarrow> payroll_item_dto \<Rightarrow> string \<times> uuid \<times> rat" where
  "item_payment D i = (id_external i, id_recipient i, dl_of D (id_amount i))"

definition payment_json :: "decimal_lib \<Rightarrow> string \<times> uuid \<times> rat \<Rightarrow> json" where
  "payment_json D p = (case p of (e, r, a) \<Rightarrow>
     JObj [(''externalItemId'', JStr e), (''recipientWalletId'', JStr r), (''amount'', JStr (dl_fixed D 8 a))])"

lemma canonical_item_payment: "canonical_item D i = payment_json D (item_payment D i)"
  by (simp add: canonical_item_def payment_json_def item_payment_def)

lemma item_problem_distinct:
  "item_problem D seen xs = None \<Longrightarrow> distinct (map id_external xs) \<and> set (map id_external xs) \<inter> set seen = {}"
  by (induction D seen xs rule: item_problem.induct) (auto split: if_splits)

lemma normalize_payroll_Inr:
  assumes "normalize_payroll D c = Inr d"
  shows "d = c\<lparr>cy_items := sort_key id_external (cy_items c)\<rparr>" and "distinct (map id_external (cy_items c))"
proof -
  have "item_problem D [] (cy_items c) = None"
    using assms by (auto simp: normalize_payroll_def split: if_splits option.splits)
  then show "distinct (map id_external (cy_items c))" by (blast dest: item_problem_distinct)
  show "d = c\<lparr>cy_items := sort_key id_external (cy_items c)\<rparr>"
    using assms by (auto simp: normalize_payroll_def split: if_splits option.splits)
qed

lemma payments_distinct:
  assumes "distinct (map id_external xs)"
  shows "inj_on fst (set (map (item_payment D) xs))"
proof (rule inj_onI)
  fix p q
  assume "p \<in> set (map (item_payment D) xs)" "q \<in> set (map (item_payment D) xs)" and eq: "fst p = fst q"
  then obtain x y where xy: "x \<in> set xs" "p = item_payment D x" "y \<in> set xs" "q = item_payment D y" by auto
  then have "id_external x = id_external y" using eq by (simp add: item_payment_def)
  then have "x = y" using distinct_key [OF assms xy(1,3)] by blast
  then show "p = q" using xy by simp
qed

lemma payments_sorted:
  assumes "distinct (map id_external xs)"
  shows "map (item_payment D) (sort_key id_external xs) = sort_key fst (map (item_payment D) xs)"
proof (rule sort_key_inj_key_eq [symmetric])
  show "mset (map (item_payment D) xs) = mset (map (item_payment D) (sort_key id_external xs))" by simp
  have fst: "fst \<circ> item_payment D = id_external" by (auto simp: item_payment_def)
  show "sorted (map fst (map (item_payment D) (sort_key id_external xs)))" by (simp add: fst)
  show "inj_on fst (set (map (item_payment D) xs))" using assms by (rule payments_distinct)
qed

text \<open>
  C28. The hash of a payroll request is canonical: two requests that the service accepts have the same hash
  exactly when they name the same source wallet, the same currency and the same payments (item, recipient
  and amount), in whatever order and however the amounts are spelled, unless the digest collides.
\<close>

theorem payroll_hash_canonical:
  assumes "decimal_lib_ok (yv_decimal v)"
    and "yv_digest v (payroll_body (yv_decimal v) d) = yv_digest v (payroll_body (yv_decimal v) d') \<longrightarrow>
      payroll_body (yv_decimal v) d = payroll_body (yv_decimal v) d'"
    and "normalize_payroll (yv_decimal v) c = Inr d" and "normalize_payroll (yv_decimal v) c' = Inr d'"
    and "create_payroll_ok is_uuid c" and "create_payroll_ok is_uuid c'"
  shows "payroll_hash v d = payroll_hash v d' \<longleftrightarrow>
    cy_source c = cy_source c' \<and> cy_currency c = cy_currency c' \<and>
    mset (map (item_payment (yv_decimal v)) (cy_items c)) = mset (map (item_payment (yv_decimal v)) (cy_items c'))"
proof -
  let ?D = "yv_decimal v"
  let ?pays = "\<lambda>c. sort_key fst (map (item_payment ?D) (cy_items c))"
  have body: "map (canonical_item ?D) (cy_items d) = map (payment_json ?D) (?pays c)"
    if "normalize_payroll ?D c = Inr d" for c d
    using normalize_payroll_Inr(1) [OF that]
    by (simp add: payments_sorted [OF normalize_payroll_Inr(2) [OF that], symmetric] canonical_item_payment)
  have keep: "cy_source d = cy_source c" "cy_currency d = cy_currency c" if "normalize_payroll ?D c = Inr d" for c d
    using normalize_payroll_Inr(1) [OF that] by simp_all
  have amounts: "has_places 8 a \<and> 0 \<le> a" if "(e, r, a) \<in> set (?pays c)" "create_payroll_ok is_uuid c" for e r a c
    using that decimal_lib_okD(6,7) [OF assms(1)]
    by (auto simp: item_payment_def create_payroll_ok_def list_all_iff)
  have inj: "inj_on (payment_json ?D) (set (?pays c) \<union> set (?pays c'))"
  proof (rule inj_onI)
    fix p q
    assume pq: "p \<in> set (?pays c) \<union> set (?pays c')" "q \<in> set (?pays c) \<union> set (?pays c')"
      and eq: "payment_json ?D p = payment_json ?D q"
    obtain e r a e' r' a' where p: "p = (e, r, a)" and q: "q = (e', r', a')" by (metis prod.exhaust)
    have same: "e = e'" "r = r'" "dl_fixed ?D 8 a = dl_fixed ?D 8 a'" using eq by (simp_all add: p q payment_json_def)
    have "has_places 8 a \<and> 0 \<le> a" "has_places 8 a' \<and> 0 \<le> a'"
      using pq amounts assms(5,6) unfolding p q by blast+
    then have "a = a'" using same(3) decimal_lib_okD(5) [OF assms(1)] by metis
    then show "p = q" using same p q by simp
  qed
  have distinct: "inj_on fst (set (map (item_payment ?D) (cy_items c)))" if "normalize_payroll ?D c = Inr d" for c d
    by (rule payments_distinct [OF normalize_payroll_Inr(2) [OF that]])
  have "payroll_hash v d = payroll_hash v d' \<longleftrightarrow> payroll_body ?D d = payroll_body ?D d'"
    using assms(2) by (auto simp: payroll_hash_def)
  moreover have "payroll_body ?D d = payroll_body ?D d' \<longleftrightarrow>
    cy_source c = cy_source c' \<and> cy_currency c = cy_currency c' \<and>
    map (payment_json ?D) (?pays c) = map (payment_json ?D) (?pays c')"
    by (simp add: payroll_body_def keep [OF assms(3)] keep [OF assms(4)] body [OF assms(3)] body [OF assms(4)])
  moreover have "map (payment_json ?D) (?pays c) = map (payment_json ?D) (?pays c') \<longleftrightarrow> ?pays c = ?pays c'"
    using inj_on_map_eq_map [OF inj] .
  moreover have "?pays c = ?pays c' \<longleftrightarrow>
      mset (map (item_payment ?D) (cy_items c)) = mset (map (item_payment ?D) (cy_items c'))"
  proof
    assume "?pays c = ?pays c'"
    then show "mset (map (item_payment ?D) (cy_items c)) = mset (map (item_payment ?D) (cy_items c'))"
      by (metis mset_sort)
  next
    assume m: "mset (map (item_payment ?D) (cy_items c)) = mset (map (item_payment ?D) (cy_items c'))"
    show "?pays c = ?pays c'"
      by (rule sort_key_inj_key_eq [OF _ distinct [OF assms(3)]]) (use m in simp_all)
  qed
  ultimately show ?thesis by blast
qed

text \<open>The same payments in another order, and with other digits.\<close>

definition demo_pair :: "string \<Rightarrow> bool \<Rightarrow> create_payroll_dto" where
  "demo_pair amount swapped =
     (let a = \<lparr>id_external = ''a'', id_recipient = ''wb'', id_amount = ''4.0''\<rparr>;
          b = \<lparr>id_external = ''b'', id_recipient = ''wc'', id_amount = amount\<rparr>
      in \<lparr>cy_source = ''wa'', cy_currency = ''USD'', cy_items = (if swapped then [b, a] else [a, b])\<rparr>)"

lemma pair_amounts: "decimal_value ''4.0'' = 4" "decimal_value ''4.00'' = 4" "fixed_text 8 4 = ''4.00000000''"
  by (simp_all add: decimal_eval)

lemma char_less_ab: "''a'' < ''b''" "\<not> ''b'' \<le> ''a''" "''a'' \<le> ''b''"
  by code_simp+

lemma demo_pair_normalized:
  "amount \<in> {''4.0'', ''4.00''} \<Longrightarrow> normalize_payroll exact_decimal (demo_pair amount b) = Inr (demo_pair amount False)"
  by (auto simp: normalize_payroll_def demo_pair_def Let_def max_items_def pair_amounts char_less_ab)

theorem payroll_hash_canonical_witness:
  "payroll_hash demo_pay (demo_pair ''4.0'' False) = payroll_hash demo_pay (demo_pair ''4.00'' False) \<longleftrightarrow>
     mset [(''a'', ''wb'', 4 :: rat), (''b'', ''wc'', 4)] = mset [(''b'', ''wc'', 4), (''a'', ''wb'', 4)]"
proof -
  let ?v = "demo_pay"
  have "payroll_body exact_decimal (demo_pair ''4.0'' False) = payroll_body exact_decimal (demo_pair ''4.00'' False)"
    by (simp add: payroll_body_def demo_pair_def canonical_item_def pair_amounts)
  moreover have "create_payroll_ok (\<lambda>_. True) (demo_pair amount b)" if "amount \<in> {''4.0'', ''4.00''}" for amount b
    using that by (auto simp: create_payroll_ok_def char_count_def demo_pair_def Let_def is_currency_def upper_letter_def
        decimal_pattern_def is_digit_def)
  ultimately have "payroll_hash ?v (demo_pair ''4.0'' False) = payroll_hash ?v (demo_pair ''4.00'' False) \<longleftrightarrow>
      cy_source (demo_pair ''4.0'' False) = cy_source (demo_pair ''4.00'' True) \<and>
      cy_currency (demo_pair ''4.0'' False) = cy_currency (demo_pair ''4.00'' True) \<and>
      mset (map (item_payment exact_decimal) (cy_items (demo_pair ''4.0'' False))) =
        mset (map (item_payment exact_decimal) (cy_items (demo_pair ''4.00'' True)))"
    using payroll_hash_canonical [of ?v "demo_pair ''4.0'' False" "demo_pair ''4.00'' False" "demo_pair ''4.0'' False"
        "demo_pair ''4.00'' True" "\<lambda>_. True"] exact_decimal_ok demo_pair_normalized
    by simp
  then show ?thesis by (simp add: demo_pair_def item_payment_def pair_amounts)
qed

section \<open>Repeated keys\<close>

lemma replay_answer:
  assumes "replay_payroll v (r, j) hash s = (Inr a, t)"
  shows "jr_id a = pj_id j"
proof -
  obtain u where "get_for_employer v (py_employer r) (pj_id j) True u = (Inr a, t)"
    using assms by (auto simp: replay_payroll_def bnd_result_Inr ensure_apply split: if_splits)
  then obtain k w where "find_job_row (pj_id j) u = Some k" "job_view v k True w = (Inr a, t)"
    by (auto simp: get_for_employer_def find_job_def bnd_result_Inr ensure_apply split: option.splits if_splits)
  then have "jr_id a = pj_id k" "pj_id k = pj_id j"
    using find_job_row_in by (auto simp: job_view_def job_response_of_def)
  then show ?thesis by simp
qed

text \<open>
  A repeated idempotency key: with another payload it is refused with IDEMPOTENCY_PAYLOAD_MISMATCH, past
  its window with IDEMPOTENCY_KEY_EXPIRED, both without any effect; and every other answer is about the job
  that the first request created, the only one that the key ever names.
\<close>

theorem repeated_payroll_key:
  assumes "payroll_run (empty_payroll w) s" and "\<forall>k i u. payroll_run u (yv_others v k i u)"
    and "r \<in> set (job_keys s)" and "idempotency_key_ok (py_key r)"
    and "normalize_payroll (yv_decimal v) c = Inr d"
  shows "(payroll_hash v d \<noteq> py_hash r \<longrightarrow>
      submit_payroll v (py_employer r) (py_key r) c s = (Inl payroll_payload_mismatch, s)) \<and>
    (payroll_hash v d = py_hash r \<and> py_replay_until r \<le> yv_now v 3 \<longrightarrow>
      submit_payroll v (py_employer r) (py_key r) c s = (Inl payroll_key_expired, s)) \<and>
    (\<forall>a t. submit_payroll v (py_employer r) (py_key r) c s = (Inr a, t) \<longrightarrow>
       jr_id a = py_job r \<and>
       (\<forall>x\<in>set (job_keys t). py_employer x = py_employer r \<and> py_key x = py_key r \<longrightarrow> py_job x = py_job r))"
proof -
  have ok: "payroll_ok s" by (rule payroll_run_ok [OF assms(1)])
  have calm: "calm_payroll v" using assms(2) by (rule payroll_run_calm)
  have key: "List.find (\<lambda>x. (py_employer x, py_key x) = (py_employer r, py_key r)) (job_keys s) = Some r"
    by (rule find_key_unique [OF payroll_okD(5) [OF ok] assms(3) refl])
  obtain j where j: "j \<in> set (jobs s)" "pj_id j = py_job r" using payroll_okD(10) [OF ok assms(3)] by auto
  have row: "find_job_row (py_job r) s = Some j"
    unfolding find_job_row_def by (rule find_key_unique [OF payroll_okD(1) [OF ok] j])
  have found: "find_job_key (py_employer r) (py_key r) s = Some (r, j)"
    unfolding find_job_key_def key by (simp add: row)
  have submit: "submit_payroll v (py_employer r) (py_key r) c s = replay_payroll v (r, j) (payroll_hash v d) s"
    using assms(4,5) by (simp add: submit_payroll_def found Let_def)
  have later: "\<forall>x\<in>set (job_keys t). py_employer x = py_employer r \<and> py_key x = py_key r \<longrightarrow> py_job x = py_job r"
    if "submit_payroll v (py_employer r) (py_key r) c s = (Inr a, t)" for a t
  proof (intro ballI impI)
    fix x
    assume x: "x \<in> set (job_keys t)" "py_employer x = py_employer r \<and> py_key x = py_key r"
    have "payroll_step s t" using pw.submit_steps [OF calm] that by (rule stepsD_eq)
    then have t: "payroll_ok t" "payroll_later s t" using ok by (simp_all add: payroll_step_def)
    obtain q where q: "q \<in> set (job_keys t)" "later_key r q"
      using grows_in [of later_key "job_keys s" "job_keys t" r] t(2) assms(3) by (auto simp: payroll_later_def)
    have "q = x" using distinct_key [OF payroll_okD(5) [OF t(1)] q(1) x(1)] q(2) x(2)
      by (simp add: later_key_def key_core_def)
    then show "py_job x = py_job r" using q(2) by (simp add: later_key_def key_core_def)
  qed
  have job: "jr_id a = py_job r" if "submit_payroll v (py_employer r) (py_key r) c s = (Inr a, t)" for a t
    using replay_answer that unfolding submit j(2) [symmetric] by blast
  have mismatch: "submit_payroll v (py_employer r) (py_key r) c s = (Inl payroll_payload_mismatch, s)"
    if "payroll_hash v d \<noteq> py_hash r"
    unfolding submit replay_payroll_def using that by simp
  have expired: "submit_payroll v (py_employer r) (py_key r) c s = (Inl payroll_key_expired, s)"
    if "payroll_hash v d = py_hash r" "py_replay_until r \<le> yv_now v 3"
    unfolding submit replay_payroll_def using that by simp
  show ?thesis
    by (intro conjI impI allI) (erule mismatch, erule conjE, erule (1) expired, erule job, erule later)
qed

theorem repeated_payroll_key_witness:
  "submit_payroll (demo_pay\<lparr>yv_now := (\<lambda>_. 86401000)\<rparr>) ''alice'' ''pay-1'' demo_payroll (demo_sent ()) =
     (Inl payroll_key_expired, demo_sent ())"
proof -
  let ?v = "demo_pay\<lparr>yv_now := (\<lambda>_. 86401000)\<rparr>"
  have r: "demo_job_key \<in> set (job_keys (demo_sent ()))" by (simp add: demo_sent_def)
  have ok: "idempotency_key_ok (py_key demo_job_key)" by (simp add: idempotency_key_ok_def demo_job_key_def)
  have norm: "normalize_payroll (yv_decimal ?v) demo_payroll = Inr demo_payroll" by (simp add: demo_normalize)
  have "\<forall>k i u. payroll_run u (yv_others ?v k i u)" by (simp add: py_idle)
  from repeated_payroll_key [OF demo_pay_runs this r ok norm]
  show ?thesis by (simp add: demo_job_key_def payroll_hash_def)
qed

section \<open>Outcomes of an item\<close>

lemma checkpoint_writes:
  assumes "checkpoint v q completed tr code s = (Inr (), t)" and "p \<in> set (items s)"
    and "pi_id p = pi_id q" and "pi_status p = ItemProcessing" and "pi_token p = pi_token q"
  shows "\<exists>r\<in>set (items t). pi_id r = pi_id q \<and> pi_status r = (if completed then ItemCompleted else ItemFailed) \<and>
    (tr \<noteq> None \<longrightarrow> pi_transfer r = tr) \<and>
    pi_failure r = (if completed then None else Some (case code of None \<Rightarrow> ''PAYROLL_ITEM_FAILED'' | Some c \<Rightarrow> c))"
proof -
  let ?P = "\<lambda>r. pi_id r = pi_id q \<and> pi_status r = ItemProcessing \<and> pi_token r = pi_token q"
  let ?f = "\<lambda>r. r\<lparr>pi_status := (if completed then ItemCompleted else ItemFailed),
      pi_transfer := (case tr of None \<Rightarrow> pi_transfer r | Some x \<Rightarrow> Some x),
      pi_failure := (if completed then None else Some (case code of None \<Rightarrow> ''PAYROLL_ITEM_FAILED'' | Some c \<Rightarrow> c)),
      pi_token := None, pi_started := None, pi_finished := Some (yv_now v 4)\<rparr>"
  let ?g = "\<lambda>j. if completed then j\<lparr>pj_completed := pj_completed j + 1\<rparr> else j\<lparr>pj_failed := pj_failed j + 1\<rparr>"
  have "checkpoint_body v q completed tr code s = (Inr (), t)"
    using assms(1) by (simp add: checkpoint_def transaction_Inr)
  then obtain n u where u: "update_items ?P ?f s = (Inr n, u)"
    and rest: "(if n = 1 then update_job (yv_now v 5) (pi_job q) ?g else ret ()) u = (Inr (), t)"
    unfolding checkpoint_body_def bnd_result_Inr by auto
  have "items t = items u"
    using rest by (auto simp: update_job_def update_jobs_def bnd_result_Inr ensure_apply Let_def split: if_splits)
  moreover have "items u = update_where ?P ?f (items s)"
    using u by (auto simp: update_items_def Let_def split: if_splits)
  moreover have "?f p \<in> set (update_where ?P ?f (items s))"
    unfolding update_where_def set_map by (rule image_eqI [OF _ assms(2)]) (simp add: assms(3-5))
  ultimately have "?f p \<in> set (items t)" by simp
  then show ?thesis by (rule bexI [rotated]) (simp add: assms(3) split: option.split)
qed

text \<open>
  What a payment's answer makes of its item, when the worker still holds the item and records the answer:
  a completed transfer completes it, with the transfer's identifier; a refusal without a transfer is a
  client error and fails it with the code of the refusal; no answer is never recorded.
\<close>

theorem payment_answers_recorded:
  assumes "create_domestic_call v (pj_employer j) (pi_key q) (item_command v (pj_source j) q) s = (Inr a, u)"
    and "p \<in> set (items (yv_others v 20 (pi_id q) u))" and "pi_id p = pi_id q"
    and "pi_status p = ItemProcessing" and "pi_token p = pi_token q"
    and "execute_item v j q s = (Inr (), t)"
  shows "case a of
      Replied x \<Rightarrow> \<exists>r\<in>set (items t). pi_id r = pi_id q \<and>
        (if pt_status x = Some ''COMPLETED'' then pi_status r = ItemCompleted \<and> (pt_id x \<noteq> None \<longrightarrow> pi_transfer r = pt_id x)
         else pi_status r = ItemFailed \<and> pt_status x \<in> {Some ''FAILED'', Some ''REVERSED''})
    | Refused status code msg x \<Rightarrow> pt_id x = None \<or> pt_status x = None \<longrightarrow>
        400 \<le> status \<and> status < 500 \<and> (\<exists>r\<in>set (items t). pi_id r = pi_id q \<and> pi_status r = ItemFailed \<and> pi_failure r = Some code)
    | Unreachable \<Rightarrow> False"
proof -
  let ?w = "yv_others v 20 (pi_id q) u"
  note written = checkpoint_writes [OF _ assms(2-5)]
  have run: "(case a of Replied t \<Rightarrow> checkpoint_response v q t
     | Refused status code msg t \<Rightarrow>
         if pt_id t \<noteq> None \<and> pt_status t \<noteq> None then checkpoint_response v q t
         else if 400 \<le> status \<and> status < 500 then checkpoint v q False None (Some code)
         else throw (UpstreamHttpError ''transaction'' status code msg (JObj []))
     | Unreachable \<Rightarrow> throw (UpstreamUnavailableError ''transaction'')) ?w = (Inr (), t)"
    using assms(1,6) by (simp add: execute_item_def bnd_def)
  show ?thesis
  proof (cases a)
    case (Replied x)
    consider "pt_status x = Some ''COMPLETED''" "checkpoint v q True (pt_id x) None ?w = (Inr (), t)"
      | c where "pt_status x \<in> {Some ''FAILED'', Some ''REVERSED''}" "pt_status x \<noteq> Some ''COMPLETED''"
          "checkpoint v q False (pt_id x) c ?w = (Inr (), t)"
      using run Replied by (auto simp: checkpoint_response_def bnd_result_Inr split: if_splits)
    then show ?thesis
    proof cases
      case 1
      then show ?thesis using written [OF 1(2)] by (simp add: Replied) blast
    next
      case 2
      then show ?thesis using written [OF 2(3)] by (simp add: Replied) blast
    qed
  next
    case (Refused status code msg x)
    show ?thesis
    proof (cases "pt_id x = None \<or> pt_status x = None")
      case True
      then have "400 \<le> status" "status < 500" "checkpoint v q False None (Some code) ?w = (Inr (), t)"
        using run Refused by (auto split: if_splits)
      then show ?thesis using written [of v False None "Some code" t] by (simp add: Refused)
    next
      case False
      then show ?thesis by (auto simp: Refused)
    qed
  next
    case Unreachable
    then show ?thesis using run by simp
  qed
qed

theorem payment_answers_recorded_witness:
  "\<exists>r\<in>set (items (demo_counted ())). pi_id r = ''i'' \<and> pi_status r = ItemCompleted \<and> pi_transfer r = Some ''x1''"
proof -
  let ?call = "\<lambda>_ _ _ (w :: unit). (Response 201 demo_transfer None None, w)"
  let ?v = "demo_pay_env ?call"
  have call: "create_domestic_call ?v (pj_employer demo_job) (pi_key demo_claimed_item)
      (item_command ?v (pj_source demo_job) demo_claimed_item) (demo_claimed ()) =
      (Inr (Replied demo_transfer), demo_claimed ())"
    by (simp add: create_domestic_call_def call_service_def payroll_request_def demo_claimed_def demo_started_def
        demo_sent_def)
  have item: "demo_claimed_item \<in> set (items (yv_others ?v 20 (pi_id demo_claimed_item) (demo_claimed ())))"
    "pi_status demo_claimed_item = ItemProcessing"
    by (simp_all add: demo_claimed_def demo_claimed_item_def)
  have "execute_item ?v demo_job demo_claimed_item (demo_claimed ()) = (Inr (), demo_counted ())"
    by (rule demo_execute) simp
  from payment_answers_recorded [OF call item(1) refl item(2) refl this]
  show ?thesis by (simp add: demo_transfer_def demo_claimed_item_def demo_item_def)
qed

text \<open>
  A worker whose claim of an item was taken over writes nothing: when no item has its identifier, is in
  progress and carries the token of the claim, the outcome of the payment changes no table.
\<close>

theorem superseded_claim_writes_nothing:
  assumes "payroll_run (empty_payroll w) s"
    and "\<forall>r\<in>set (items s). pi_id r = pi_id q \<longrightarrow> pi_status r \<noteq> ItemProcessing \<or> pi_token r \<noteq> pi_token q"
  shows "checkpoint v q completed tr code s = (Inr (), s)"
proof -
  let ?P = "\<lambda>r. pi_id r = pi_id q \<and> pi_status r = ItemProcessing \<and> pi_token r = pi_token q"
  have none: "\<not> ?P r" if "r \<in> set (items s)" for r using assms(2) that by blast
  have "update_items ?P f s = (Inr 0, s)" for f
  proof -
    have "update_where ?P f (items s) = items s" using none by (rule update_where_none)
    moreover have "count_where ?P (items s) = 0" using none by (simp add: count_where_def filter_empty_conv)
    moreover have "list_all (\<lambda>i. ?P i \<longrightarrow> item_check (f i)) (items s)" using none by (auto simp: list_all_iff)
    moreover have "unique_some pi_transfer (items s)" using payroll_okD(4) [OF payroll_run_ok [OF assms(1)]] .
    ultimately show ?thesis by (simp only: update_items_def Let_def) simp
  qed
  then show ?thesis by (simp add: checkpoint_def checkpoint_body_def transaction_def bnd_def)
qed

theorem superseded_claim_writes_nothing_witness:
  "checkpoint demo_pay demo_claimed_item True (Some ''x2'') None (demo_sent ()) = (Inr (), demo_sent ())"
  by (rule superseded_claim_writes_nothing [OF demo_pay_runs])
    (simp add: demo_sent_def demo_item_def)

section \<open>The employer's lease\<close>

text \<open>What workers do to leases: each operation at its time, with the token of its worker.\<close>

datatype lease_op =
    Acquire instant string uuid int
  | Renew instant string uuid int
  | Release instant string uuid

fun do_lease :: "lease_op \<Rightarrow> ('w payroll_state, bool) act" where
  "do_lease (Acquire now e token ttl) = acquire_lease now e token ttl"
| "do_lease (Renew now e token ttl) = renew_lease now e token ttl"
| "do_lease (Release now e token) = release_lease now e token"

fun lease_op_time :: "lease_op \<Rightarrow> instant" where
  "lease_op_time (Acquire now e token ttl) = now"
| "lease_op_time (Renew now e token ttl) = now"
| "lease_op_time (Release now e token) = now"

fun lease_op_token :: "lease_op \<Rightarrow> uuid" where
  "lease_op_token (Acquire now e token ttl) = token"
| "lease_op_token (Renew now e token ttl) = token"
| "lease_op_token (Release now e token) = token"

fun lease_op_employer :: "lease_op \<Rightarrow> string" where
  "lease_op_employer (Acquire now e token ttl) = e"
| "lease_op_employer (Renew now e token ttl) = e"
| "lease_op_employer (Release now e token) = e"

lemma foreign_lease_op:
  assumes "leases s (lease_key e) = Some (token, expires)" and "lease_op_token op \<noteq> token"
    and "lease_op_time op < expires"
  shows "leases (snd (do_lease op s)) (lease_key e) = Some (token, expires)"
    and "lease_op_employer op = e \<Longrightarrow> do_lease op s = (Inr False, s)"
  using assms
  by (cases op; auto simp: acquire_lease_def renew_lease_def release_lease_def held_by_def Let_def)+

text \<open>
  C29. One worker per employer: whatever other workers acquire, renew or release, at times before a lease
  expires, the lease stays with the token that took it, and every attempt on the same employer fails.
\<close>

theorem lease_is_exclusive:
  assumes "leases s (lease_key e) = Some (token, expires)"
    and "\<forall>op\<in>set ops. lease_op_token op \<noteq> token \<and> lease_op_time op < expires"
    and "each do_lease ops s = (Inr rs, t)"
  shows "leases t (lease_key e) = Some (token, expires) \<and>
    (\<forall>k<length ops. lease_op_employer (ops ! k) = e \<longrightarrow> \<not> rs ! k)"
  using assms
proof (induction ops arbitrary: s rs)
  case Nil
  then show ?case by simp
next
  case (Cons op ops)
  from Cons.prems(3) obtain r u rs' where r: "do_lease op s = (Inr r, u)" and rest: "each do_lease ops u = (Inr rs', t)"
    and rs: "rs = r # rs'" by (auto simp: bnd_result_Inr)
  have op: "lease_op_token op \<noteq> token" "lease_op_time op < expires" using Cons.prems(2) by simp_all
  have u: "leases u (lease_key e) = Some (token, expires)"
    using foreign_lease_op(1) [OF Cons.prems(1) op] r by simp
  have "\<not> r" if "lease_op_employer op = e" using foreign_lease_op(2) [OF Cons.prems(1) op that] r by simp
  moreover have "leases t (lease_key e) = Some (token, expires) \<and>
      (\<forall>k<length ops. lease_op_employer (ops ! k) = e \<longrightarrow> \<not> rs' ! k)"
    using Cons.prems(2) by (intro Cons.IH [OF u _ rest]) simp
  ultimately show ?case by (auto simp: rs less_Suc_eq_0_disj)
qed

theorem lease_is_exclusive_witness:
  "leases (snd (each do_lease [Acquire 2000 ''alice'' ''M'' 30000, Release 2001 ''alice'' ''M''] (demo_started ())))
     (lease_key ''alice'') = Some (''L'', 31000)"
proof -
  let ?ops = "[Acquire 2000 ''alice'' ''M'' 30000, Release 2001 ''alice'' ''M'']"
  have held: "leases (demo_started ()) (lease_key ''alice'') = Some (''L'', 31000)" by (simp add: demo_started_def)
  have ops: "each do_lease ?ops (demo_started ()) = (Inr [False, False], demo_started ())"
    by (simp add: bnd_def acquire_lease_def release_lease_def held_by_def demo_started_def)
  show ?thesis using lease_is_exclusive [OF held _ ops] unfolding ops by simp
qed

end
