(* ===== verification/PayrollProperties.thy ===== *)
theory PayrollProperties
  imports PayrollDemo
begin

text \<open>
  What the Payroll service promises in every state it reaches: counters and statuses that agree with the
  items, finished items that stay as they are, a worker that ends and leaves every item of its job
  finished, answers with no negative count, replays, and one worker per employer.
\<close>

section \<open>Counters\<close>

lemma all_done_iff:
  assumes "job_ok rows j"
  shows "pj_completed j + pj_failed j = pj_total j \<longleftrightarrow> (\<forall>q\<in>set rows. pi_job q = pj_id j \<longrightarrow> item_done q)"
proof -
  have le: "count_items (\<lambda>st. st = ItemCompleted) i xs + count_items (\<lambda>st. st = ItemFailed) i xs \<le>
      count_items (\<lambda>_. True) i xs" for i xs
    unfolding count_items_def count_where_def by (induction xs) auto
  have "count_items (\<lambda>st. st = ItemCompleted) i xs + count_items (\<lambda>st. st = ItemFailed) i xs =
      count_items (\<lambda>_. True) i xs \<longleftrightarrow> (\<forall>q\<in>set xs. pi_job q = i \<longrightarrow> item_done q)" for i xs
  proof (induction xs)
    case Nil
    then show ?case by (simp add: count_items_def count_where_def)
  next
    case (Cons x xs)
    then show ?case
      using le [of i xs] count_items_split [of _ i "[]" x xs]
      by (cases "pi_job x = i"; cases "pi_status x") (auto simp: item_done_def count_items_def count_where_def)
  qed
  then show ?thesis using assms by (simp add: job_ok_def)
qed

text \<open>
  C25. In every state the Payroll service reaches, the counters of a job are the numbers of its items, of its
  completed items and of its failed items; and a job that is finished has only finished items and is
  COMPLETED, FAILED or PARTIALLY_FAILED according to what became of them.
\<close>

theorem payroll_counts:
  assumes "payroll_run (empty_payroll w) s" and "j \<in> set (jobs s)"
  shows "pj_total j = length (filter (\<lambda>q. pi_job q = pj_id j) (items s)) \<and>
    pj_completed j = length (filter (\<lambda>q. pi_job q = pj_id j \<and> pi_status q = ItemCompleted) (items s)) \<and>
    pj_failed j = length (filter (\<lambda>q. pi_job q = pj_id j \<and> pi_status q = ItemFailed) (items s)) \<and>
    (is_terminal (pj_status j) \<longrightarrow>
       (\<forall>q\<in>set (items s). pi_job q = pj_id j \<longrightarrow> pi_status q = ItemCompleted \<or> pi_status q = ItemFailed) \<and>
       pj_status j = (if pj_failed j = 0 then JobCompleted
         else if pj_completed j = 0 then JobFailed else JobPartiallyFailed))"
proof -
  have ok: "job_ok (items s) j" using payroll_okD(9) [OF payroll_run_ok [OF assms(1)] assms(2)] .
  then show ?thesis
    using all_done_iff [OF ok]
    by (auto simp: job_ok_def count_items_def count_where_def final_status_def item_done_def)
qed

lemma demo_transfer_call:
  "payroll_run (empty_payroll ()) (demo_paid_state ())"
  by (rule payroll_run_trans [OF demo_paid_run [where call = "\<lambda>_ _ _ w. (Response 201 demo_transfer None None, w)"] demo_pay_runs])
    simp

theorem payroll_counts_witness:
  "pj_completed demo_paid_job = length (filter (\<lambda>q. pi_job q = ''j'' \<and> pi_status q = ItemCompleted) [demo_paid_item])"
  using payroll_counts [OF demo_transfer_call, of demo_paid_job]
  by (simp add: demo_paid_state_def) (simp add: demo_paid_job_def demo_job_def demo_paid_item_def demo_item_def)

section \<open>Finished items\<close>

text \<open>
  C26. A completed or failed item is never written again, whatever workers, timers and requests do later; and
  no other item, then or later, has its identifier, its idempotency key or its transfer.
\<close>

theorem finished_item_is_final:
  assumes "payroll_run (empty_payroll w) s" and "payroll_run s t" and "q \<in> set (items s)"
    and "pi_status q = ItemCompleted \<or> pi_status q = ItemFailed"
  shows "q \<in> set (items t) \<and>
    (\<forall>r\<in>set (items t). pi_id r = pi_id q \<or> pi_key r = pi_key q \<or>
       (pi_transfer q \<noteq> None \<and> pi_transfer r = pi_transfer q) \<longrightarrow> r = q)"
proof -
  have ok: "payroll_ok s" by (rule payroll_run_ok [OF assms(1)])
  then have t: "payroll_ok t" "payroll_later s t" using payroll_run_later [OF assms(2)] by blast+
  obtain r where r: "r \<in> set (items t)" "later_item q r"
    using grows_in [of later_item "items s" "items t" q] t(2) assms(3) by (auto simp: payroll_later_def)
  then have "r = q" using assms(4) by (simp add: later_item_def item_done_def)
  then have q: "q \<in> set (items t)" using r(1) by simp
  note d = payroll_okD [OF t(1)]
  have "x = q" if x: "x \<in> set (items t)"
    and same: "pi_id x = pi_id q \<or> pi_key x = pi_key q \<or> (pi_transfer q \<noteq> None \<and> pi_transfer x = pi_transfer q)" for x
    using same
  proof (elim disjE conjE)
    assume "pi_transfer q \<noteq> None" and eq: "pi_transfer x = pi_transfer q"
    then obtain k where "pi_transfer q = Some k" by blast
    then show ?thesis using unique_someD [OF d(4) x q _ _ d(2)] eq by simp
  qed (use distinct_key [OF d(2) x q] distinct_key [OF d(3) x q] in blast)+
  then show ?thesis using q by blast
qed

theorem finished_item_is_final_witness: "demo_paid_item \<in> set (items (demo_paid_state ()))"
proof -
  have "payroll_run (demo_paid_state ()) (demo_paid_state ())" by (rule py_idle)
  then show ?thesis
    using finished_item_is_final [OF demo_transfer_call, of "demo_paid_state ()" demo_paid_item]
    by (simp add: demo_paid_state_def demo_paid_item_def)
qed

section \<open>Termination\<close>

abbreviation pending_items :: "uuid \<Rightarrow> 'w payroll_state \<Rightarrow> nat" where
  "pending_items i s \<equiv> count_items (\<lambda>st. st = ItemPending) i (items s)"

abbreviation known_job :: "uuid \<Rightarrow> 'w payroll_state \<Rightarrow> bool" where
  "known_job i s \<equiv> i \<in> pj_id ` set (jobs s)"

lemma later_counts:
  "list_all2 later_item rows olds \<Longrightarrow>
     count_items (\<lambda>_. True) i olds = count_items (\<lambda>_. True) i rows \<and>
     count_items (\<lambda>st. st = ItemPending) i olds \<le> count_items (\<lambda>st. st = ItemPending) i rows"
  by (induction rule: list_all2_induct)
    (auto simp: count_items_def count_where_def later_item_def item_core_def)

lemma count_items_mono:
  "(\<And>st. S st \<Longrightarrow> T st) \<Longrightarrow> count_items S i rows \<le> count_items T i rows"
  unfolding count_items_def count_where_def by (induction rows) auto

lemma known_job_later: "payroll_later s t \<Longrightarrow> known_job i s \<Longrightarrow> known_job i t"
proof -
  assume later: "payroll_later s t" and "known_job i s"
  then obtain j where j: "j \<in> set (jobs s)" "pj_id j = i" by blast
  then obtain k where k: "k \<in> set (jobs t)" "later_job j k"
    using grows_in [of later_job "jobs s" "jobs t" j] later by (auto simp: payroll_later_def)
  then have "pj_id k = i" using j(2) by (simp add: later_job_def job_core_def)
  then show "known_job i t" using k(1) by (metis image_eqI)
qed

lemma pending_later:
  assumes "payroll_ok s" and "payroll_ok t" and "payroll_later s t" and "known_job i s"
  shows "pending_items i t \<le> pending_items i s"
proof -
  obtain j where j: "j \<in> set (jobs s)" "pj_id j = i" using assms(4) by blast
  obtain k where k: "k \<in> set (jobs t)" "later_job j k"
    using grows_in [of later_job "jobs s" "jobs t" j] assms(3) j(1) by (auto simp: payroll_later_def)
  have "pj_total k = pj_total j" "pj_id k = i" using k(2) j(2) by (auto simp: later_job_def job_core_def)
  then have total: "count_items (\<lambda>_. True) i (items t) = count_items (\<lambda>_. True) i (items s)"
    using payroll_okD(9) [OF assms(1) j(1)] payroll_okD(9) [OF assms(2) k(1)] j(2) by (simp add: job_ok_def)
  obtain olds news where n: "items t = olds @ news" "list_all2 later_item (items s) olds"
    using assms(3) by (auto simp: payroll_later_def grows_def)
  have "count_items (\<lambda>_. True) i news = 0"
    using total later_counts [OF n(2), of i] by (simp add: n(1) count_items_append)
  then have "count_items (\<lambda>st. st = ItemPending) i news = 0"
    using count_items_mono [of "\<lambda>st. st = ItemPending" "\<lambda>_. True" i news] by simp
  then show ?thesis using later_counts [OF n(2), of i] by (simp add: n(1) count_items_append)
qed

lemma known_item_job: "payroll_ok s \<Longrightarrow> item_known q s \<Longrightarrow> known_job (pi_job q) s"
proof -
  assume ok: "payroll_ok s" and "item_known q s"
  then obtain r where r: "r \<in> set (items s)" "item_core r = item_core q" by (auto simp: item_known_def)
  have "known_job (pi_job r) s" by (rule payroll_okD(8) [OF ok r(1)])
  then show "known_job (pi_job q) s" using r(2) by (simp add: item_core_def)
qed

lemma claim_decreases:
  assumes "calm_payroll v" and "claim_item v k ItemPending q s = (Inr (Some c), t)"
    and "payroll_ok s" and "item_known q s"
  shows "pending_items (pi_job q) t < pending_items (pi_job q) s"
proof -
  let ?u = "yv_others v k (pi_id q) s"
  let ?P = "\<lambda>r. pi_id r = pi_id q \<and> pi_status r = ItemPending"
  let ?f = "\<lambda>r. r\<lparr>pi_status := ItemProcessing, pi_token := Some (yv_item_token v (pi_id q)),
                   pi_started := Some (yv_now v 6), pi_attempts := pi_attempts r + 1\<rparr>"
  have "payroll_step s ?u" using assms(1) by (simp add: calm_payroll_def)
  then have u: "payroll_ok ?u" "payroll_later s ?u" using assms(3) by (simp_all add: payroll_step_def)
  have t: "t = ?u\<lparr>items := update_where ?P ?f (items ?u)\<rparr>" "count_where ?P (items ?u) = 1"
    using assms(2) by (auto simp: claim_item_def bnd_result_Inr update_items_def Let_def split: if_splits)
  have "filter ?P (items ?u) \<noteq> []" using t(2) by (auto simp: count_where_def)
  then obtain p where p: "p \<in> set (items ?u)" "?P p" by (auto simp: filter_empty_conv)
  obtain r where r: "r \<in> set (items ?u)" "item_core r = item_core q"
    using item_known_later [OF assms(4) u(2)] by (auto simp: item_known_def)
  have "r = p" using distinct_key [OF payroll_okD(2) [OF u(1)] r(1) p(1)] r(2) p(2) by (simp add: item_core_def)
  then have job: "pi_job p = pi_job q" using r(2) by (simp add: item_core_def)
  have only: "pi_id r = pi_id p" if "pi_id r = pi_id q" for r using that p(2) by simp
  obtain xs ys where rows: "items ?u = xs @ p # ys" "update_where ?P ?f (items ?u) = xs @ ?f p # ys"
  proof (rule update_one [OF payroll_okD(2) [OF u(1)] p(1), of ?P ?f])
  qed (use p(2) only that in blast)+
  have "pending_items (pi_job q) t < pending_items (pi_job q) ?u"
    using p(2) job rows t(1) by (simp add: count_items_split)
  moreover have "known_job (pi_job q) s" by (rule known_item_job [OF assms(3,4)])
  ultimately show ?thesis using pending_later [OF assms(3) u(1,2)] by (metis less_le_trans)
qed

lemma step_pending:
  "payroll_step s t \<Longrightarrow> payroll_ok s \<Longrightarrow> known_job i s \<Longrightarrow>
     payroll_ok t \<and> payroll_later s t \<and> known_job i t \<and> pending_items i t \<le> pending_items i s"
  using pending_later known_job_later unfolding payroll_step_def by blast

lemma each_claims_decrease:
  assumes "calm_payroll v" and "each (claim_item v k ItemPending) qs s = (Inr cs, t)" and "payroll_ok s"
    and "\<forall>q\<in>set qs. item_known q s \<and> pi_job q = i" and "List.map_filter (\<lambda>c. c) cs \<noteq> []"
  shows "pending_items i t < pending_items i s"
  using assms(2-5)
proof (induction qs arbitrary: s cs)
  case Nil
  then show ?case by (simp add: map_filter_simps)
next
  case (Cons q qs)
  from Cons.prems(1) obtain c u ds where c: "claim_item v k ItemPending q s = (Inr c, u)"
    and ds: "each (claim_item v k ItemPending) qs u = (Inr ds, t)" and cs: "cs = c # ds"
    by (auto simp: bnd_result_Inr)
  have su: "payroll_step s u" using stepsD_eq [OF claim_item_step [OF assms(1)] c] by simp
  have job: "known_job i s"
    using known_item_job [OF Cons.prems(2), of q] Cons.prems(3) by simp
  have u: "payroll_ok u" "payroll_later s u" "known_job i u" "pending_items i u \<le> pending_items i s"
    using step_pending [OF su Cons.prems(2) job] by blast+
  have ut: "payroll_step u t"
    using stepsD_eq [OF py.steps_each [OF claim_item_step [OF assms(1)]] ds] by simp
  have known: "\<forall>q\<in>set qs. item_known q u \<and> pi_job q = i"
    using Cons.prems(3) item_known_later u(2) by auto
  show ?case
  proof (cases c)
    case None
    then have "List.map_filter (\<lambda>c. c) ds \<noteq> []" using Cons.prems(4) cs by (simp add: map_filter_simps)
    then show ?thesis using Cons.IH [OF ds u(1) known] u(4) by linarith
  next
    case (Some d)
    have "pending_items i u < pending_items i s"
      using claim_decreases [OF assms(1) c [unfolded Some] Cons.prems(2)] Cons.prems(3) by auto
    moreover have "pending_items i t \<le> pending_items i u" using step_pending [OF ut u(1,3)] by blast
    ultimately show ?thesis by linarith
  qed
qed

lemma each_items_known:
  assumes "calm_payroll v"
  shows "steps (known_items batch) (each (\<lambda>q. if yv_lost v n (pi_id q) then throw lease_lost
           else bnd (pause (yv_others v 22 (pi_id q))) (\<lambda>_. execute_item v j q)) batch)"
  by (intro pk.steps_each_in pk.steps_if pk.steps_throw pk.steps_bnd pause_known execute_item_known assms) simp

lemma work_batches_end:
  assumes "calm_payroll v" and "payroll_ok s" and "known_job (pj_id j) s" and "pending_items (pj_id j) s < n"
  shows "fst (work_batches v j n s) \<noteq> Inr None"
  using assms(2-4)
proof (induction n arbitrary: s)
  case 0
  then show ?case by simp
next
  case (Suc n)
  let ?i = "pj_id j"
  let ?items = "each (\<lambda>q. if yv_lost v n (pi_id q) then throw lease_lost
           else bnd (pause (yv_others v 22 (pi_id q))) (\<lambda>_. execute_item v j q))"
  let ?u = "yv_others v (24 + n) ?i s"
  have "payroll_step s ?u" using assms(1) by (simp add: calm_payroll_def)
  then have u: "payroll_ok ?u" "known_job ?i ?u" "pending_items ?i ?u \<le> pending_items ?i s"
    using step_pending Suc.prems(1,2) by blast+
  obtain r t where claim: "claim_pending_batch v ?i ?u = (r, t)" by fastforce
  have ut: "payroll_step ?u t" using claim_pending_batch_step [OF assms(1)] claim by (rule stepsD_eq)
  have t: "payroll_ok t" "known_job ?i t" using step_pending [OF ut u(1,2)] by blast+
  have next_batch: "fst (bnd (?items batch) (\<lambda>_. work_batches v j n) t) \<noteq> Inr None"
    if r: "r = Inr batch" and some: "batch \<noteq> []" for batch
  proof -
    have claimed: "claim_pending_batch v ?i ?u = (Inr batch, t)" using claim r by simp
    let ?qs = "take item_batch_size (items_of ?i ItemPending ?u)"
    obtain cs where cs: "each (claim_item v 23 ItemPending) ?qs ?u = (Inr cs, t)" "batch = List.map_filter (\<lambda>c. c) cs"
      using claimed by (auto simp: claim_pending_batch_def bnd_result_Inr)
    have "item_known q ?u \<and> pi_job q = ?i" if "q \<in> set ?qs" for q
    proof -
      have in_qs: "q \<in> set (items_of ?i ItemPending ?u)" using that by (rule in_set_takeD)
      then show ?thesis using items_of_known by (simp add: items_of_def item_known_def) blast
    qed
    then have less: "pending_items ?i t < pending_items ?i ?u"
      using each_claims_decrease [OF assms(1) cs(1) u(1)] some cs(2) by blast
    obtain x w where w: "?items batch t = (x, w)" by fastforce
    have "known_items batch t w" using each_items_known [OF assms(1)] w by (rule stepsD_eq)
    moreover have "\<forall>q\<in>set batch. item_known q t"
      using claim_pending_batch_known(1) [OF assms(1) claimed u(1)] by blast
    ultimately have tw: "payroll_ok w" "payroll_later t w" using t(1) by (simp_all add: known_items_def)
    have "pending_items ?i w < n"
      using pending_later [OF t(1) tw t(2)] less u(3) Suc.prems(3) by linarith
    then have "fst (work_batches v j n w) \<noteq> Inr None"
      by (rule Suc.IH [OF tw(1) known_job_later [OF tw(2) t(2)]])
    then show ?thesis using w by (cases x) (simp_all add: bnd_def)
  qed
  show ?case
    using claim next_batch by (cases r) (auto simp: bnd_def split: prod.splits sum.splits)
qed

definition few_pending :: "uuid \<Rightarrow> nat \<Rightarrow> 'w payroll_state \<Rightarrow> bool" where
  "few_pending i n s \<longleftrightarrow> payroll_ok s \<and> known_job i s \<and> pending_items i s < n"

lemma few_pending_kept: "steps payroll_step m \<Longrightarrow> steps (keeping (few_pending i n)) m"
  unfolding steps_def keeping_def few_pending_def using step_pending le_less_trans by blast

lemma results_finally: "results I m (\<lambda>x _. P x) \<Longrightarrow> results I (finally_do m f) (\<lambda>x _. P x)"
  by (auto simp: results_def finally_do_def split: prod.splits)

lemma process_leased_ends:
  assumes "calm_payroll v"
  shows "results (few_pending (pj_id j) n) (process_leased v n j) (\<lambda>x _. x \<noteq> None)"
proof -
  have work: "results (few_pending (pj_id j) n) (work_batches v j n) (\<lambda>x _. x \<noteq> None)"
  proof (rule resultsI)
    fix s x t
    assume "few_pending (pj_id j) n s" and r: "work_batches v j n s = (Inr x, t)"
    then have "fst (work_batches v j n s) \<noteq> Inr None"
      unfolding few_pending_def by (elim conjE) (rule work_batches_end [OF assms])
    then show "x \<noteq> None" unfolding r by simp
  qed
  have finish: "results (few_pending (pj_id j) n) (case x of None \<Rightarrow> ret None | Some _ \<Rightarrow>
         bnd (pause (yv_others v 17 (pj_id j))) (\<lambda>_. bnd (finalize_job v (pj_id j)) (\<lambda>_. ret (Some ()))))
         (\<lambda>x _. x \<noteq> None)" if some: "x \<noteq> None" for x :: "unit option"
  proof -
    obtain y where x: "x = Some y" using some by blast
    have fin: "results (few_pending (pj_id j) n) (ret (Some ())) (\<lambda>x _. x \<noteq> None)" by (rule results_ret) simp
    show ?thesis
      unfolding x option.case
      by (rule results_bnd [OF few_pending_kept [OF pause_payroll [OF assms]]
            results_bnd [OF few_pending_kept [OF finalize_job_step [OF assms]] fin]])
  qed
  show ?thesis
    unfolding process_leased_def
    by (rule results_bnd [OF few_pending_kept [OF start_job_step]
          results_bnd [OF few_pending_kept [OF pause_payroll [OF assms]]
          results_bnd [OF few_pending_kept [OF reconcile_claimed_step [OF assms]]
          results_bnd_that [OF few_pending_kept [OF work_batches_step [OF assms]] work finish]]]])
qed

lemma process_job_ends:
  assumes "calm_payroll v"
  shows "results (few_pending i n) (process_job v n i) (\<lambda>x _. x \<noteq> None)"
proof (rule resultsI)
  fix s x t
  assume s: "few_pending i n s" and r: "process_job v n i s = (Inr x, t)"
  show "x \<noteq> None"
  proof (cases "find_job_row i s")
    case None
    then show ?thesis using r by (simp add: process_job_def)
  next
    case (Some j)
    then have j: "pj_id j = i" using find_job_row_in by blast
    have m: "results (few_pending i n)
        (bnd (pause (yv_others v 14 i)) (\<lambda>_.
         bnd (acquire_lease (yv_now v 12) (pj_employer j) (yv_lease_token v) lease_ttl_ms) (\<lambda>acquired.
         if \<not> acquired then throw (PlainError ''EMPLOYER_LEASE_BUSY'')
         else finally_do (bnd (pause (yv_others v 18 i)) (\<lambda>_. process_leased v n j))
               (bnd (pause (yv_others v 19 i)) (\<lambda>_.
                release_lease (yv_now v 13) (pj_employer j) (yv_lease_token v)))))) (\<lambda>x _. x \<noteq> None)"
      using process_leased_ends [OF assms, of j n] unfolding j
      by (intro results_bnd few_pending_kept pause_payroll lease_steps assms results_if results_throw results_finally)
    show ?thesis
    proof (cases "is_terminal (pj_status j)")
      case True
      then show ?thesis using r Some by (simp add: process_job_def)
    next
      case False
      then show ?thesis using resultsD [OF m s] r Some by (simp add: process_job_def)
    qed
  qed
qed

text \<open>
  C27. The loop over the batches of a job always ends: a run of the worker with more fuel than the job has
  pending items never runs out of it, whatever other workers and requests do meanwhile, whatever the
  Transaction service answers and whenever the lease is lost; so the worker returns or throws.
\<close>

theorem payroll_work_terminates:
  assumes "payroll_run (empty_payroll w) s" and "\<forall>k i u. payroll_run u (yv_others v k i u)"
    and "length (filter (\<lambda>q. pi_job q = i \<and> pi_status q = ItemPending) (items s)) < n"
  shows "fst (worker_run v n i s) \<noteq> Inr None"
proof
  have calm: "calm_payroll v" using assms(2) by (rule payroll_run_calm)
  have ok: "payroll_ok s" by (rule payroll_run_ok [OF assms(1)])
  assume "fst (worker_run v n i s) = Inr None"
  then obtain t where "worker_run v n i s = (Inr None, t)" by (metis prod.collapse)
  then have r: "process_job v n i s = (Inr None, t)"
    by (auto simp: worker_run_def catch_result bnd_result_Inr)
  show False
  proof (cases "find_job_row i s")
    case None
    then show ?thesis using r by (simp add: process_job_def)
  next
    case (Some j)
    then have "known_job i s" using find_job_row_in by force
    then have "few_pending i n s" using ok assms(3) by (simp add: few_pending_def count_items_def count_where_def)
    then show ?thesis using resultsD [OF process_job_ends [OF calm] _ r] by blast
  qed
qed

theorem payroll_work_terminates_witness: "fst (worker_run demo_pay 2 ''j'' (demo_sent ())) \<noteq> Inr None"
  by (rule payroll_work_terminates [OF demo_pay_runs])
    (simp_all add: py_idle demo_sent_def demo_item_def)

section \<open>A run of the worker that returns\<close>

definition settled_job :: "uuid \<Rightarrow> 'w payroll_state \<Rightarrow> bool" where
  "settled_job i s \<longleftrightarrow>
     payroll_ok s \<and> (\<exists>j\<in>set (jobs s). pj_id j = i \<and> pj_completed j + pj_failed j = pj_total j)"

lemma settled_step: "payroll_step s t \<Longrightarrow> settled_job i s \<Longrightarrow> settled_job i t"
proof -
  assume st: "payroll_step s t" and "settled_job i s"
  then obtain j where ok: "payroll_ok s" and j: "j \<in> set (jobs s)" "pj_id j = i"
    "pj_completed j + pj_failed j = pj_total j" by (auto simp: settled_job_def)
  have t: "payroll_ok t" "payroll_later s t" using st ok by (simp_all add: payroll_step_def)
  obtain k where k: "k \<in> set (jobs t)" "later_job j k"
    using grows_in [of later_job "jobs s" "jobs t" j] t(2) j(1) by (auto simp: payroll_later_def)
  have "pj_completed k + pj_failed k \<le> pj_total k" using counts_le payroll_okD(9) [OF t(1) k(1)] .
  moreover have "pj_id k = i" "pj_total k = pj_total j" "pj_completed j \<le> pj_completed k" "pj_failed j \<le> pj_failed k"
    using k(2) j(2) by (simp_all add: later_job_def job_core_def)
  ultimately show "settled_job i t"
    unfolding settled_job_def using t(1) k(1) j(3) by (intro conjI bexI [of _ k]) simp_all
qed

lemma settled_kept: "steps payroll_step m \<Longrightarrow> steps (keeping (settled_job i)) m"
  unfolding steps_def keeping_def using settled_step by blast

lemma ok_kept: "steps payroll_step m \<Longrightarrow> steps (keeping payroll_ok) m"
  by (simp add: steps_def keeping_def payroll_step_def)

lemma finalize_settles: 
  assumes "calm_payroll v"
  shows "results payroll_ok (finalize_job v i) (\<lambda>_. settled_job i)"
proof (rule resultsI)
  fix s x t
  assume ok: "payroll_ok s" and r: "finalize_job v i s = (Inr x, t)"
  obtain j where j: "find_job_row i s = Some j"
    using r by (auto simp: finalize_job_def split: option.splits)
  have "pj_completed j + pj_failed j = pj_total j"
    using r j by (auto simp: finalize_job_def split: if_splits)
  then have "settled_job i s" using ok find_job_row_in [OF j] by (auto simp: settled_job_def)
  moreover have "payroll_step s t" using finalize_job_step [OF assms] r by (rule stepsD_eq)
  ultimately show "settled_job i t" by (rule settled_step [rotated])
qed

lemma process_leased_settles:
  assumes "calm_payroll v"
  shows "results payroll_ok (process_leased v n j) (\<lambda>x t. x = Some () \<longrightarrow> settled_job (pj_id j) t)"
proof -
  let ?Q = "\<lambda>x t. x = Some () \<longrightarrow> settled_job (pj_id j) t"
  have finish: "results payroll_ok (case x of None \<Rightarrow> ret None | Some _ \<Rightarrow>
         bnd (pause (yv_others v 17 (pj_id j))) (\<lambda>_. bnd (finalize_job v (pj_id j)) (\<lambda>_. ret (Some ())))) ?Q"
    for x :: "unit option"
  proof (cases x)
    case None
    show ?thesis unfolding None option.case by (rule results_ret) simp
  next
    case (Some y)
    have "results (settled_job (pj_id j)) (ret (Some ())) ?Q" by (rule results_ret) simp
    then show ?thesis
      unfolding Some option.case
      by (rule results_bnd [OF ok_kept [OF pause_payroll [OF assms]] results_bind [OF finalize_settles [OF assms]]])
  qed
  show ?thesis
    unfolding process_leased_def
    by (rule results_bnd [OF ok_kept [OF start_job_step]
          results_bnd [OF ok_kept [OF pause_payroll [OF assms]]
          results_bnd [OF ok_kept [OF reconcile_claimed_step [OF assms]]
          results_bnd [OF ok_kept [OF work_batches_step [OF assms]] finish]]]])
qed

lemma results_finally_state:
  assumes "results I m (\<lambda>x t. P x \<longrightarrow> J t)" and "steps (keeping J) f"
  shows "results I (finally_do m f) (\<lambda>x t. P x \<longrightarrow> J t)"
proof (rule resultsI)
  fix s x t
  assume s: "I s" and r: "finally_do m f s = (Inr x, t)"
  obtain r' u where m: "m s = (r', u)" by fastforce
  then have "r' = Inr x" "t = snd (f u)" using r by (simp_all add: finally_do_def)
  then show "P x \<longrightarrow> J t"
    using resultsD [OF assms(1) s, of x u] m stepsD [OF assms(2), of u] by (simp add: keeping_def)
qed

text \<open>
  When a run of the worker returns, every item of its job is completed or failed and the job's counters
  account for all of them, whatever other workers and requests did meanwhile.
\<close>

theorem returned_worker_has_finished_the_job:
  assumes "payroll_run (empty_payroll w) s" and "\<forall>k i u. payroll_run u (yv_others v k i u)"
    and "worker_run v n i s = (Inr (Some ()), t)"
  shows "(\<exists>j\<in>set (jobs t). pj_id j = i \<and> pj_completed j + pj_failed j = pj_total j) \<and>
    (\<forall>q\<in>set (items t). pi_job q = i \<longrightarrow> pi_status q = ItemCompleted \<or> pi_status q = ItemFailed)"
proof -
  have calm: "calm_payroll v" using assms(2) by (rule payroll_run_calm)
  have ok: "payroll_ok s" by (rule payroll_run_ok [OF assms(1)])
  have r: "process_job v n i s = (Inr (Some ()), t)"
    using assms(3) by (auto simp: worker_run_def catch_result bnd_result_Inr)
  have "settled_job i t"
  proof (cases "find_job_row i s")
    case None
    then show ?thesis using r by (simp add: process_job_def)
  next
    case (Some j)
    then have j: "j \<in> set (jobs s)" "pj_id j = i" using find_job_row_in by blast+
    show ?thesis
    proof (cases "is_terminal (pj_status j)")
      case True
      then have "settled_job i s" using ok j payroll_okD(9) [OF ok j(1)] by (auto simp: settled_job_def job_ok_def)
      then show ?thesis using r Some True by (simp add: process_job_def)
    next
      case False
      have held: "results payroll_ok (if \<not> acquired then throw (PlainError ''EMPLOYER_LEASE_BUSY'')
           else finally_do (bnd (pause (yv_others v 18 i)) (\<lambda>_. process_leased v n j))
                 (bnd (pause (yv_others v 19 i)) (\<lambda>_.
                  release_lease (yv_now v 13) (pj_employer j) (yv_lease_token v))))
          (\<lambda>x t. x = Some () \<longrightarrow> settled_job i t)" for acquired
        using process_leased_settles [OF calm, of n j] unfolding j(2)
        by (intro results_if results_throw results_finally_state results_bnd ok_kept settled_kept
            pause_payroll py.steps_bnd lease_steps calm)
      have "results payroll_ok
        (bnd (pause (yv_others v 14 i)) (\<lambda>_.
         bnd (acquire_lease (yv_now v 12) (pj_employer j) (yv_lease_token v) lease_ttl_ms) (\<lambda>acquired.
         if \<not> acquired then throw (PlainError ''EMPLOYER_LEASE_BUSY'')
         else finally_do (bnd (pause (yv_others v 18 i)) (\<lambda>_. process_leased v n j))
               (bnd (pause (yv_others v 19 i)) (\<lambda>_.
                release_lease (yv_now v 13) (pj_employer j) (yv_lease_token v))))))
        (\<lambda>x t. x = Some () \<longrightarrow> settled_job i t)"
        by (rule results_bnd [OF ok_kept [OF pause_payroll [OF calm]] results_bnd [OF ok_kept [OF lease_steps(1)] held]])
      from resultsD [OF this ok] show ?thesis using r Some False by (simp add: process_job_def)
    qed
  qed
  then obtain j where t: "payroll_ok t" and j: "j \<in> set (jobs t)" "pj_id j = i" "pj_completed j + pj_failed j = pj_total j"
    by (auto simp: settled_job_def)
  have "\<forall>q\<in>set (items t). pi_job q = i \<longrightarrow> pi_status q = ItemCompleted \<or> pi_status q = ItemFailed"
    using all_done_iff [OF payroll_okD(9) [OF t j(1)]] j(2,3) by (simp add: item_done_def)
  then show ?thesis using j by blast
qed

theorem returned_worker_has_finished_the_job_witness:
  "pi_status demo_paid_item = ItemCompleted \<or> pi_status demo_paid_item = ItemFailed"
proof -
  have r: "worker_run demo_pay 2 ''j'' (demo_sent ()) = (Inr (Some ()), demo_paid_state ())"
    by (rule demo_worker_run) simp
  have "\<forall>k i u. payroll_run u (yv_others demo_pay k i u)" by (simp add: py_idle)
  from conjunct2 [OF returned_worker_has_finished_the_job [OF demo_pay_runs this r]]
  show ?thesis by (simp add: demo_paid_state_def demo_paid_item_def demo_item_def)
qed

section \<open>Answers\<close>

lemma processing_le:
  assumes "payroll_ok t" and "j \<in> set (jobs t)"
  shows "pj_completed j + pj_failed j + count_items (\<lambda>st. st = ItemProcessing) (pj_id j) (items t) \<le> pj_total j"
proof -
  have "count_items (\<lambda>st. st = ItemCompleted) i xs + count_items (\<lambda>st. st = ItemFailed) i xs +
      count_items (\<lambda>st. st = ItemProcessing) i xs \<le> count_items (\<lambda>_. True) i xs" for i xs
    unfolding count_items_def count_where_def by (induction xs) auto
  then show ?thesis using payroll_okD(9) [OF assms] by (simp add: job_ok_def)
qed

lemma job_view_bounds:
  assumes "calm_payroll v" and "payroll_ok s" and "find_job_row i s = Some j"
    and "job_view v j b s = (Inr r, t)"
  shows "0 \<le> jr_pending r \<and>
    jr_pending r + int (jr_processing r) + int (jr_completed r) + int (jr_failed r) = int (jr_total r) \<and>
    (case jr_failures r of None \<Rightarrow> True | Some l \<Rightarrow> length l \<le> 20)"
proof -
  let ?u = "yv_others v 5 (pj_id j) s"
  have "payroll_step s ?u" using assms(1) by (simp add: calm_payroll_def)
  then have u: "payroll_ok ?u" "payroll_later s ?u" using assms(2) by (simp_all add: payroll_step_def)
  obtain k where k: "find_job_row i ?u = Some k" "later_job j k" using later_job_find [OF assms(3) u(2)] by blast
  have ki: "k \<in> set (jobs ?u)" "pj_id k = i" using find_job_row_in [OF k(1)] by blast+
  have ji: "pj_id j = i" using find_job_row_in [OF assms(3)] by blast
  let ?p = "count_where (\<lambda>q. pi_job q = pj_id j \<and> pi_status q = ItemProcessing) (items ?u)"
  have "pj_completed k + pj_failed k + ?p \<le> pj_total k"
    using processing_le [OF u(1) ki(1)] ki(2) ji by (simp add: count_items_def)
  then have "pj_completed j + pj_failed j + ?p \<le> pj_total j"
    using k(2) by (simp add: later_job_def job_core_def)
  then have le: "int (pj_completed j) + int (pj_failed j) + int ?p \<le> int (pj_total j)" by linarith
  obtain unpaid where r: "job_response_of j b ?p unpaid = r" and few: "length unpaid \<le> 20"
  proof
    let ?w = "yv_others v 6 (pj_id j) ?u"
    show "job_response_of j b ?p (take 20 (items_of (pj_id j) ItemFailed ?w)) = r"
      using assms(4) unfolding job_view_def bnd_pause bnd_gets ret_apply prod.inject sum.inject by (rule conjunct1)
    show "length (take 20 (items_of (pj_id j) ItemFailed ?w)) \<le> 20" by simp
  qed
  show ?thesis unfolding r [symmetric] job_response_of_def using le few by simp
qed

text \<open>
  In every answer about a payroll job, whatever changes between the query of the job and those of its
  items, the pending, processing, completed and failed items add up to all items of the job, none of the
  numbers is negative, and at most 20 failures are listed.
\<close>

theorem payroll_answers_bounded:
  assumes "payroll_run (empty_payroll w) s" and "\<forall>k i u. payroll_run u (yv_others v k i u)"
    and "get_for_employer v employer i b s = (Inr r, t)"
  shows "0 \<le> jr_pending r \<and>
    jr_pending r + int (jr_processing r) + int (jr_completed r) + int (jr_failed r) = int (jr_total r) \<and>
    (case jr_failures r of None \<Rightarrow> True | Some l \<Rightarrow> length l \<le> 20)"
proof -
  have calm: "calm_payroll v" using assms(2) by (rule payroll_run_calm)
  obtain j where j: "find_job_row i s = Some j" "job_view v j b s = (Inr r, t)"
    using assms(3) by (auto simp: get_for_employer_def find_job_def bnd_result_Inr split: option.splits if_splits)
  then show ?thesis using job_view_bounds [OF calm payroll_run_ok [OF assms(1)]] by blast
qed

theorem payroll_answers_bounded_witness:
  "fst (get_for_employer demo_pay ''alice'' ''j'' True (demo_sent ())) \<noteq> Inl payroll_job_not_found \<and>
   (\<exists>r t. get_for_employer demo_pay ''alice'' ''j'' True (demo_sent ()) = (Inr r, t) \<and> 0 \<le> jr_pending r)"
proof -
  obtain r t where r: "get_for_employer demo_pay ''alice'' ''j'' True (demo_sent ()) = (Inr r, t)"
    by (simp add: get_for_employer_def find_job_def job_view_def bnd_def find_job_row_def demo_sent_def demo_job_def)
  have "\<forall>k i u. payroll_run u (yv_others demo_pay k i u)" by (simp add: py_idle)
  then show ?thesis using payroll_answers_bounded [OF demo_pay_runs _ r] r by simp
qed

end
