(* ===== verification/PayrollSaga.thy ===== *)
theory PayrollSaga
  imports PayrollProperties
begin

text \<open>
  The Payroll service with the service that pays: the locale \<open>payment_provider\<close> is what Payroll relies on,
  and inside it every completed item is shown to have its payment.
\<close>

section \<open>What Payroll relies on\<close>

type_synonym 'w payment_call = "string \<Rightarrow> string \<Rightarrow> domestic_command \<Rightarrow> 'w \<Rightarrow> payroll_transfer fetched \<times> 'w"

text \<open>
  \<open>call_ok\<close> are the calls that the provider may answer with; \<open>good\<close> and \<open>later\<close> say what its states and their
  changes are like; \<open>paid e k c x w\<close> says that in \<open>w\<close> the transfer \<open>x\<close> has paid the command \<open>c\<close> of the
  client \<open>e\<close> under the key \<open>k\<close>.
\<close>

locale payment_provider =
  fixes call_ok :: "'w payment_call \<Rightarrow> bool"
    and good :: "'w \<Rightarrow> bool"
    and later :: "'w \<Rightarrow> 'w \<Rightarrow> bool"
    and paid :: "string \<Rightarrow> string \<Rightarrow> domestic_command \<Rightarrow> uuid \<Rightarrow> 'w \<Rightarrow> bool"
  assumes later_refl: "later w w"
    and later_trans: "later w w' \<Longrightarrow> later w' w'' \<Longrightarrow> later w w''"
    and good_later: "good w \<Longrightarrow> later w w' \<Longrightarrow> good w'"
    and paid_later: "good w \<Longrightarrow> later w w' \<Longrightarrow> paid e k c x w \<Longrightarrow> paid e k c x w'"
    and call_later: "call_ok call \<Longrightarrow> good w \<Longrightarrow> later w (snd (call e k c w))"
    and call_paid: "call_ok call \<Longrightarrow> good w \<Longrightarrow> call e k c w = (Response status body code msg, w') \<Longrightarrow>
      pt_status body = Some ''COMPLETED'' \<Longrightarrow> \<exists>x. pt_id body = Some x \<and> paid e k c x w'"

section \<open>Items and their payments\<close>

definition item_due :: "decimal_lib \<Rightarrow> payroll_job \<Rightarrow> payroll_item \<Rightarrow> domestic_command" where
  "item_due D j q =
     \<lparr>dc_sender = pj_source j, dc_recipient = pi_recipient q, dc_amount = dl_fixed D 8 (pi_amount q),
      dc_currency = pi_currency q\<rparr>"

definition item_paid ::
  "(string \<Rightarrow> string \<Rightarrow> domestic_command \<Rightarrow> uuid \<Rightarrow> 'w \<Rightarrow> bool) \<Rightarrow> decimal_lib \<Rightarrow> 'w payroll_state \<Rightarrow> payroll_item \<Rightarrow> bool" where
  "item_paid paid D s q \<longleftrightarrow>
     (\<exists>j\<in>set (jobs s). pj_id j = pi_job q \<and>
        (\<exists>x. pi_transfer q = Some x \<and> paid (pj_employer j) (pi_key q) (item_due D j q) x (others_world s)))"

definition paid_ok ::
  "('w \<Rightarrow> bool) \<Rightarrow> (string \<Rightarrow> string \<Rightarrow> domestic_command \<Rightarrow> uuid \<Rightarrow> 'w \<Rightarrow> bool) \<Rightarrow> decimal_lib \<Rightarrow> 'w payroll_state \<Rightarrow> bool" where
  "paid_ok good paid D s \<longleftrightarrow>
     good (others_world s) \<and> (\<forall>q\<in>set (items s). pi_status q = ItemCompleted \<longrightarrow> item_paid paid D s q)"

definition saga_step ::
  "('w \<Rightarrow> bool) \<Rightarrow> ('w \<Rightarrow> 'w \<Rightarrow> bool) \<Rightarrow> (string \<Rightarrow> string \<Rightarrow> domestic_command \<Rightarrow> uuid \<Rightarrow> 'w \<Rightarrow> bool) \<Rightarrow> decimal_lib \<Rightarrow>
     'w payroll_state \<Rightarrow> 'w payroll_state \<Rightarrow> bool" where
  "saga_step good later paid D s t \<longleftrightarrow>
     payroll_step s t \<and>
     (payroll_ok s \<and> paid_ok good paid D s \<longrightarrow>
        paid_ok good paid D t \<and> later (others_world s) (others_world t))"

definition job_known :: "payroll_job \<Rightarrow> 'w payroll_state \<Rightarrow> bool" where
  "job_known j s \<longleftrightarrow> (\<exists>k\<in>set (jobs s). job_core k = job_core j)"

definition saga_known ::
  "('w \<Rightarrow> bool) \<Rightarrow> ('w \<Rightarrow> 'w \<Rightarrow> bool) \<Rightarrow> (string \<Rightarrow> string \<Rightarrow> domestic_command \<Rightarrow> uuid \<Rightarrow> 'w \<Rightarrow> bool) \<Rightarrow> decimal_lib \<Rightarrow>
     payroll_job \<Rightarrow> payroll_item list \<Rightarrow> 'w payroll_state \<Rightarrow> 'w payroll_state \<Rightarrow> bool" where
  "saga_known good later paid D j qs s t \<longleftrightarrow>
     known_items qs s t \<and>
     (payroll_ok s \<and> paid_ok good paid D s \<and> job_known j s \<and> (\<forall>q\<in>set qs. item_known q s \<and> pi_job q = pj_id j) \<longrightarrow>
        paid_ok good paid D t \<and> later (others_world s) (others_world t))"

definition saga_env ::
  "('w payment_call \<Rightarrow> bool) \<Rightarrow> ('w \<Rightarrow> bool) \<Rightarrow> ('w \<Rightarrow> 'w \<Rightarrow> bool) \<Rightarrow>
     (string \<Rightarrow> string \<Rightarrow> domestic_command \<Rightarrow> uuid \<Rightarrow> 'w \<Rightarrow> bool) \<Rightarrow> decimal_lib \<Rightarrow> 'w payroll_env \<Rightarrow> bool" where
  "saga_env call_ok good later paid D v \<longleftrightarrow>
     yv_decimal v = D \<and> call_ok (yv_create_domestic v) \<and>
     (\<forall>k i s. saga_step good later paid D s (yv_others v k i s)) \<and>
     (\<forall>i w. good w \<longrightarrow> later w (snd (yv_validation v i w)) \<and> later w (snd (yv_queue_remove v i w)) \<and>
        later w (snd (yv_queue_add v i w)))"

lemma job_known_later: "job_known j s \<Longrightarrow> payroll_later s t \<Longrightarrow> job_known j t"
proof -
  assume "job_known j s" and later: "payroll_later s t"
  then obtain k where k: "k \<in> set (jobs s)" "job_core k = job_core j" by (auto simp: job_known_def)
  obtain k' where "k' \<in> set (jobs t)" "later_job k k'"
    using grows_in [of later_job "jobs s" "jobs t" k] later k(1) by (auto simp: payroll_later_def)
  then show "job_known j t" using k(2) by (auto simp: job_known_def later_job_def)
qed

lemma due_core:
  "item_core r = item_core q \<Longrightarrow> job_core k = job_core j \<Longrightarrow>
     pi_key r = pi_key q \<and> item_due D k r = item_due D j q \<and> pj_employer k = pj_employer j \<and> pj_id k = pj_id j"
  by (simp add: item_core_def job_core_def item_due_def)

lemma call_service_reply:
  assumes "call_service a b c d e send s = (Inr r, u)" and "r = Replied x \<or> (\<exists>st c m. r = Refused st c m x)"
  shows "\<exists>st code msg. send (others_world s) = (Response st x code msg, others_world u)"
proof -
  obtain f w where f: "send (others_world s) = (f, w)" by fastforce
  have "\<not> (\<not> truthy c \<or> (e \<and> \<not> truthy d))"
  proof
    assume off: "\<not> truthy c \<or> (e \<and> \<not> truthy d)"
    have "call_service a b c d e send s = (Inr Unreachable, s)" unfolding call_service_def if_P [OF off] ..
    then show False using assms by auto
  qed
  then have r: "payroll_request a b c d e f = r" "u = s\<lparr>others_world := w\<rparr>"
    using assms(1) f by (auto simp: call_service_def)
  have "\<exists>st code msg. f = Response st x code msg"
    using assms(2) r(1) by (cases f) (auto simp: payroll_request_def split: if_splits)
  then show ?thesis using f r(2) by auto
qed

section \<open>Writes that complete no item\<close>

definition quiet :: "'w payroll_state \<Rightarrow> 'w payroll_state \<Rightarrow> bool" where
  "quiet s t \<longleftrightarrow>
     others_world t = others_world s \<and> (\<forall>q\<in>set (items t). pi_status q = ItemCompleted \<longrightarrow> q \<in> set (items s)) \<and>
     (\<forall>j\<in>set (jobs s). \<exists>k\<in>set (jobs t). job_core k = job_core j)"

interpretation qu: two_state quiet
  by unfold_locales (auto simp: quiet_def, metis+)

lemma quiet_items:
  assumes "\<And>q. P q \<Longrightarrow> pi_status (f q) \<noteq> ItemCompleted"
  shows "steps quiet (update_items P f)"
proof (rule stepsI)
  fix s :: "'w payroll_state"
  obtain r t where t: "update_items P f s = (r, t)" by fastforce
  consider "t = s" | "t = s\<lparr>items := update_where P f (items s)\<rparr>"
    using t by (auto simp: update_items_def Let_def split: if_splits)
  then have "quiet s t"
  proof cases
    case 1
    then show ?thesis by (simp add: qu.R_refl)
  next
    case 2
    have "q \<in> set (items s)" if "q \<in> set (update_where P f (items s))" "pi_status q = ItemCompleted" for q
      using in_update_where [OF that(1)] assms that(2) by blast
    then show ?thesis unfolding 2 by (auto simp: quiet_def)
  qed
  then show "quiet s (snd (update_items P f s))" by (simp add: t)
qed

lemma quiet_jobs:
  assumes "\<And>j. job_core (f j) = job_core j"
  shows "steps quiet (update_jobs now P f)"
proof (rule stepsI)
  fix s :: "'w payroll_state"
  let ?rows = "update_where P (\<lambda>j. (f j)\<lparr>pj_updated := now\<rparr>) (jobs s)"
  obtain r t where t: "update_jobs now P f s = (r, t)" by fastforce
  consider "t = s" | "t = s\<lparr>jobs := ?rows\<rparr>"
    using t by (auto simp: update_jobs_def Let_def split: if_splits)
  then have "quiet s t"
  proof cases
    case 1
    then show ?thesis by (simp add: qu.R_refl)
  next
    case 2
    have "\<exists>k\<in>set ?rows. job_core k = job_core j" if "j \<in> set (jobs s)" for j
    proof
      let ?k = "if P j then (f j)\<lparr>pj_updated := now\<rparr> else j"
      show "?k \<in> set ?rows" using that by (auto simp: update_where_def)
      show "job_core ?k = job_core j" using assms [of j] by (simp add: job_core_def)
    qed
    then show ?thesis unfolding 2 by (simp add: quiet_def)
  qed
  then show "quiet s (snd (update_jobs now P f s))" by (simp add: t)
qed

lemma quiet_job: "(\<And>j. job_core (f j) = job_core j) \<Longrightarrow> steps quiet (update_job now i f)"
  unfolding update_job_def by (intro qu.steps_bnd quiet_jobs qu.steps_ensure)

lemma quiet_same: "items t = items s \<Longrightarrow> jobs t = jobs s \<Longrightarrow> others_world t = others_world s \<Longrightarrow> quiet s t"
  by (auto simp: quiet_def)

lemma quiet_key: "steps quiet (update_job_key i f)"
  by (rule stepsI) (auto simp: update_job_key_def intro!: quiet_same)

lemma quiet_leases:
  "steps quiet (acquire_lease now e k ttl)" "steps quiet (renew_lease now e k ttl)" "steps quiet (release_lease now e k)"
  by (rule stepsI, auto simp: acquire_lease_def renew_lease_def release_lease_def Let_def intro!: quiet_same)+

lemma quiet_create: "steps quiet (create_payroll v e k h c)"
  unfolding create_payroll_def
proof (intro qu.steps_bnd qu.steps_each_in)
  show "steps quiet (create_job j)" for j
    by (rule stepsI) (auto simp: create_job_def Let_def quiet_def split: option.split)
  show "steps quiet (create_job_key r)" for r
    by (rule stepsI) (auto simp: create_job_key_def intro!: quiet_same)
  show "steps quiet (create_item q)" if "q \<in> set (new_items v c)" for q
    using new_items_fresh [OF that]
    by (intro stepsI) (auto simp: create_item_def Let_def quiet_def fresh_item_def split: option.split)
qed

section \<open>The relation\<close>

context payment_provider
begin

lemma item_paid_kept:
  assumes "good (others_world s)" and "later (others_world s) (others_world t)"
    and "\<And>j. j \<in> set (jobs s) \<Longrightarrow> \<exists>k\<in>set (jobs t). job_core k = job_core j" and "item_paid paid D s q"
  shows "item_paid paid D t q"
proof -
  obtain j x where j: "j \<in> set (jobs s)" "pj_id j = pi_job q" and x: "pi_transfer q = Some x"
    "paid (pj_employer j) (pi_key q) (item_due D j q) x (others_world s)"
    using assms(4) by (auto simp: item_paid_def)
  obtain k where k: "k \<in> set (jobs t)" "job_core k = job_core j" using assms(3) [OF j(1)] by blast
  note same = due_core [OF refl k(2), of q D]
  have "paid (pj_employer k) (pi_key q) (item_due D k q) x (others_world t)"
    using paid_later [OF assms(1,2) x(2)] same by simp
  then show ?thesis using k(1) same j(2) x(1) by (auto simp: item_paid_def)
qed

lemma quiet_paid:
  assumes "quiet s t" and "paid_ok good paid D s"
  shows "paid_ok good paid D t"
  unfolding paid_ok_def
proof (intro conjI ballI impI)
  show "good (others_world t)" using assms by (simp add: quiet_def paid_ok_def)
  fix q
  assume "q \<in> set (items t)" "pi_status q = ItemCompleted"
  then have "item_paid paid D s q" using assms by (simp add: quiet_def paid_ok_def)
  then show "item_paid paid D t q"
    using assms by (intro item_paid_kept [of s t]) (auto simp: quiet_def paid_ok_def later_refl)
qed

lemma saga_quiet: "steps payroll_step m \<Longrightarrow> steps quiet m \<Longrightarrow> steps (saga_step good later paid D) m"
  unfolding steps_def saga_step_def using quiet_paid by (metis quiet_def later_refl)

lemma world_paid:
  assumes "paid_ok good paid D s" and "later (others_world s) w"
  shows "paid_ok good paid D (s\<lparr>others_world := w\<rparr>)"
proof -
  let ?t = "s\<lparr>others_world := w\<rparr>"
  have good: "good (others_world s)" using assms(1) by (simp add: paid_ok_def)
  have "item_paid paid D ?t q" if "item_paid paid D s q" for q
  proof (rule item_paid_kept [OF good])
    show "later (others_world s) (others_world ?t)" using assms(2) by simp
    show "\<exists>k\<in>set (jobs ?t). job_core k = job_core j" if "j \<in> set (jobs s)" for j
      by (rule bexI [of _ j]) (use that in simp_all)
  qed (rule that)
  moreover have "good w" by (rule good_later [OF good assms(2)])
  ultimately show ?thesis using assms(1) unfolding paid_ok_def by simp
qed

lemma saga_outside:
  assumes "good (others_world s) \<Longrightarrow> later (others_world s) w"
  shows "saga_step good later paid D s (s\<lparr>others_world := w\<rparr>)"
  unfolding saga_step_def
proof (intro conjI impI)
  show "payroll_step s (s\<lparr>others_world := w\<rparr>)" by (rule same_payroll) simp_all
  assume "payroll_ok s \<and> paid_ok good paid D s"
  then have paid: "paid_ok good paid D s" and later: "later (others_world s) w"
    using assms by (simp_all add: paid_ok_def)
  show "paid_ok good paid D (s\<lparr>others_world := w\<rparr>)" by (rule world_paid [OF paid later])
  show "later (others_world s) (others_world (s\<lparr>others_world := w\<rparr>))" using later by simp
qed

lemma saga_world:
  assumes "\<And>w. good w \<Longrightarrow> later w (snd (f w))"
  shows "steps (saga_step good later paid D) (world_call f)"
  by (rule stepsI) (simp add: world_call_def case_prod_unfold Let_def saga_outside assms)

lemma saga_refl: "saga_step good later paid D s s"
  by (simp add: saga_step_def py.R_refl later_refl)

lemma saga_call:
  assumes "\<And>w. good w \<Longrightarrow> later w (snd (f w))"
  shows "steps (saga_step good later paid D) (call_service a b c d e f)"
  by (rule stepsI) (simp add: call_service_def case_prod_unfold Let_def saga_outside saga_refl assms)

end

sublocale payment_provider < ss: two_state "saga_step good later paid D" for D
proof
  show "saga_step good later paid D s s" for s by (rule saga_refl)
  fix s t u :: "'w payroll_state"
  assume st: "saga_step good later paid D s t" and tu: "saga_step good later paid D t u"
  show "saga_step good later paid D s u"
    unfolding saga_step_def
  proof (intro conjI impI)
    show "payroll_step s u" using st tu py.R_trans unfolding saga_step_def by blast
    assume "payroll_ok s \<and> paid_ok good paid D s"
    moreover from this have "payroll_ok t" using st by (simp add: saga_step_def payroll_step_def)
    ultimately show "paid_ok good paid D u" "later (others_world s) (others_world u)"
      using st tu later_trans unfolding saga_step_def by blast+
  qed
qed

sublocale payment_provider < sk: two_state "saga_known good later paid D j qs" for D j qs
proof
  show "saga_known good later paid D j qs s s" for s by (simp add: saga_known_def pk.R_refl later_refl)
  fix s t u :: "'w payroll_state"
  assume st: "saga_known good later paid D j qs s t" and tu: "saga_known good later paid D j qs t u"
  show "saga_known good later paid D j qs s u"
    unfolding saga_known_def
  proof (intro conjI impI)
    show "known_items qs s u" using st tu pk.R_trans unfolding saga_known_def by blast
    assume s: "payroll_ok s \<and> paid_ok good paid D s \<and> job_known j s \<and> (\<forall>q\<in>set qs. item_known q s \<and> pi_job q = pj_id j)"
    then have t: "payroll_ok t" "payroll_later s t" using st by (simp_all add: saga_known_def known_items_def)
    then have "job_known j t \<and> (\<forall>q\<in>set qs. item_known q t \<and> pi_job q = pj_id j)"
      using s job_known_later item_known_later by blast
    then show "paid_ok good paid D u" "later (others_world s) (others_world u)"
      using s t st tu later_trans unfolding saga_known_def by blast+
  qed
qed

section \<open>Payments\<close>

context payment_provider
begin

lemma saga_of_base: "saga_step good later paid D s t \<Longrightarrow> saga_known good later paid D j qs s t"
  by (simp add: saga_step_def saga_known_def known_of_step)

lemma saga_of_steps: "steps (saga_step good later paid D) m \<Longrightarrow> steps (saga_known good later paid D j qs) m"
  by (simp add: steps_def saga_of_base)

text \<open>A checkpoint of a failure, and one of a completed transfer that was paid.\<close>

lemma checkpoint_body_items:
  assumes "checkpoint_body v q completed tr code s = (Inr (), t)"
  shows "others_world t = others_world s" and "\<forall>j\<in>set (jobs s). \<exists>k\<in>set (jobs t). job_core k = job_core j"
    and "r \<in> set (items t) \<Longrightarrow> r \<in> set (items s) \<or> (\<exists>p\<in>set (items s). pi_id p = pi_id q \<and> item_core r = item_core p \<and>
      pi_status r = (if completed then ItemCompleted else ItemFailed) \<and> (tr \<noteq> None \<longrightarrow> pi_transfer r = tr))"
proof -
  let ?P = "\<lambda>r. pi_id r = pi_id q \<and> pi_status r = ItemProcessing \<and> pi_token r = pi_token q"
  let ?f = "\<lambda>r. r\<lparr>pi_status := (if completed then ItemCompleted else ItemFailed),
      pi_transfer := (case tr of None \<Rightarrow> pi_transfer r | Some x \<Rightarrow> Some x),
      pi_failure := (if completed then None else Some (case code of None \<Rightarrow> ''PAYROLL_ITEM_FAILED'' | Some c \<Rightarrow> c)),
      pi_token := None, pi_started := None, pi_finished := Some (yv_now v 4)\<rparr>"
  let ?g = "\<lambda>j. if completed then j\<lparr>pj_completed := pj_completed j + 1\<rparr> else j\<lparr>pj_failed := pj_failed j + 1\<rparr>"
  obtain n u where u: "update_items ?P ?f s = (Inr n, u)"
    and rest: "(if n = 1 then update_job (yv_now v 5) (pi_job q) ?g else ret ()) u = (Inr (), t)"
    using assms unfolding checkpoint_body_def bnd_result_Inr by auto
  have su: "u = s\<lparr>items := update_where ?P ?f (items s)\<rparr>"
    using u by (auto simp: update_items_def Let_def split: if_splits)
  have "steps quiet (if n = 1 then update_job (yv_now v 5) (pi_job q) ?g else ret ())"
    by (intro qu.steps_if quiet_job qu.steps_ret) (simp_all add: job_core_def)
  then have ut: "quiet u t" using rest by (rule stepsD_eq)
  show "others_world t = others_world s" "\<forall>j\<in>set (jobs s). \<exists>k\<in>set (jobs t). job_core k = job_core j"
    using ut su by (simp_all add: quiet_def)
  have "items t = items u"
    using rest by (auto simp: update_job_def update_jobs_def bnd_result_Inr ensure_apply Let_def split: if_splits)
  then have rows: "items t = update_where ?P ?f (items s)" using su by simp
  assume r: "r \<in> set (items t)"
  have "r \<in> set (items s) \<or> (\<exists>p\<in>set (items s). ?P p \<and> r = ?f p)"
    using r unfolding rows by (rule in_update_where)
  then show "r \<in> set (items s) \<or> (\<exists>p\<in>set (items s). pi_id p = pi_id q \<and> item_core r = item_core p \<and>
      pi_status r = (if completed then ItemCompleted else ItemFailed) \<and> (tr \<noteq> None \<longrightarrow> pi_transfer r = tr))"
  proof (elim disjE bexE)
    fix p
    assume p: "p \<in> set (items s)" and fp: "?P p \<and> r = ?f p"
    note r = conjunct2 [OF fp]
    have "item_core r = item_core p" unfolding r by (simp add: item_core_def)
    moreover have "pi_status r = (if completed then ItemCompleted else ItemFailed)" unfolding r by simp
    moreover have "tr \<noteq> None \<longrightarrow> pi_transfer r = tr" unfolding r by (auto split: option.split)
    ultimately show ?thesis using p fp by blast
  qed (rule disjI1)
qed

lemma checkpoint_pays:
  assumes "checkpoint_body v q completed tr code s = (Inr (), t)" and "payroll_ok s" and "paid_ok good paid D s"
    and "job_known j s" and "item_known q s" and "pi_job q = pj_id j"
    and "completed \<Longrightarrow> \<exists>x. tr = Some x \<and> paid (pj_employer j) (pi_key q) (item_due D j q) x (others_world s)"
  shows "paid_ok good paid D t \<and> later (others_world s) (others_world t)"
proof -
  note eff = checkpoint_body_items [OF assms(1)]
  have good: "good (others_world s)" using assms(3) by (simp add: paid_ok_def)
  have "item_paid paid D t r" if r: "r \<in> set (items t)" "pi_status r = ItemCompleted" for r
    using eff(3) [OF r(1)]
  proof (elim disjE bexE conjE)
    assume "r \<in> set (items s)"
    then have "item_paid paid D s r" using assms(3) r(2) by (simp add: paid_ok_def)
    then show ?thesis using good eff(2) by (intro item_paid_kept [of s t]) (simp_all add: eff(1) later_refl)
  next
    fix p
    assume p: "p \<in> set (items s)" "pi_id p = pi_id q" "item_core r = item_core p"
      "pi_status r = (if completed then ItemCompleted else ItemFailed)" "tr \<noteq> None \<longrightarrow> pi_transfer r = tr"
    have fin: completed using p(4) r(2) by (simp split: if_splits)
    then obtain x where x: "tr = Some x" "paid (pj_employer j) (pi_key q) (item_due D j q) x (others_world s)"
      using assms(7) by blast
    obtain p' where p': "p' \<in> set (items s)" "item_core p' = item_core q" using assms(5) by (auto simp: item_known_def)
    have "p' = p" using distinct_key [OF payroll_okD(2) [OF assms(2)] p'(1) p(1)] p'(2) p(2) by (simp add: item_core_def)
    then have core: "item_core r = item_core q" using p(3) p'(2) by simp
    obtain k where k: "k \<in> set (jobs s)" "job_core k = job_core j" using assms(4) by (auto simp: job_known_def)
    obtain k' where k': "k' \<in> set (jobs t)" "job_core k' = job_core k" using eff(2) k(1) by blast
    note same = due_core [OF core, of k' j D]
    have "pi_job r = pi_job q" using core by (simp add: item_core_def)
    then show ?thesis
      unfolding item_paid_def eff(1)
      using same k k' x p(5) assms(6) by (intro bexI [OF _ k'(1)]) auto
  qed
  then show ?thesis using good by (simp add: paid_ok_def eff(1) later_refl)
qed

text \<open>What a worker knows of its job and its items when it writes.\<close>

definition saga_now :: "decimal_lib \<Rightarrow> payroll_job \<Rightarrow> payroll_item list \<Rightarrow> 'w payroll_state \<Rightarrow> bool" where
  "saga_now D j qs s \<longleftrightarrow> payroll_ok s \<and> paid_ok good paid D s \<and> job_known j s \<and>
     (\<forall>q\<in>set qs. item_known q s \<and> pi_job q = pj_id j)"

lemma saga_knownI:
  "known_items qs s t \<Longrightarrow> (saga_now D j qs s \<Longrightarrow> paid_ok good paid D t \<and> later (others_world s) (others_world t)) \<Longrightarrow>
     saga_known good later paid D j qs s t"
  by (simp add: saga_known_def saga_now_def)

lemma saga_now_later:
  assumes "saga_known good later paid D j qs s t" and "saga_now D j qs s"
  shows "saga_now D j qs t" and "later (others_world s) (others_world t)"
proof -
  have s: "payroll_ok s" "job_known j s" "\<forall>q\<in>set qs. item_known q s \<and> pi_job q = pj_id j"
    using assms(2) by (simp_all add: saga_now_def)
  have t: "payroll_ok t" "payroll_later s t"
    using assms(1) s by (simp_all add: saga_known_def known_items_def)
  have "paid_ok good paid D t \<and> later (others_world s) (others_world t)"
    using assms by (simp add: saga_known_def saga_now_def)
  then show "saga_now D j qs t" "later (others_world s) (others_world t)"
    unfolding saga_now_def using t s job_known_later item_known_later by blast+
qed

lemma checkpoint_saga:
  assumes "item_core q \<in> item_core ` set qs"
    and "completed \<Longrightarrow> saga_now D j qs s \<Longrightarrow>
      \<exists>x. tr = Some x \<and> paid (pj_employer j) (pi_key q) (item_due D j q) x (others_world s)"
  shows "saga_known good later paid D j qs s (snd (checkpoint v q completed tr code s))"
proof (rule saga_knownI)
  show "known_items qs s (snd (checkpoint v q completed tr code s))"
    by (rule stepsD [OF checkpoint_known [OF assms(1)]])
  assume now: "saga_now D j qs s"
  obtain p where p: "p \<in> set qs" "item_core q = item_core p" using assms(1) by auto
  then have "item_known p s" "pi_job p = pj_id j" using now by (simp_all add: saga_now_def)
  then have q: "item_known q s" "pi_job q = pj_id j"
    using p(2) by (simp_all add: item_known_def item_core_def)
  obtain r t where t: "transaction (\<lambda>_. True) (checkpoint_body v q completed tr code) s = (r, t)" by fastforce
  have "paid_ok good paid D t \<and> later (others_world s) (others_world t)"
  proof (cases r)
    case (Inl e)
    then have "t = s" using t by (simp add: transaction_Inl)
    then show ?thesis using now by (simp add: saga_now_def later_refl)
  next
    case (Inr x)
    then have body: "checkpoint_body v q completed tr code s = (Inr (), t)" using t by (simp add: transaction_Inr)
    show ?thesis
      by (rule checkpoint_pays [OF body _ _ _ q]) (use now assms(2) in \<open>simp_all add: saga_now_def\<close>)
  qed
  then show "paid_ok good paid D (snd (checkpoint v q completed tr code s)) \<and>
      later (others_world s) (others_world (snd (checkpoint v q completed tr code s)))"
    by (simp add: checkpoint_def t)
qed

lemma response_saga:
  assumes "item_core q \<in> item_core ` set qs"
    and "pt_status b = Some ''COMPLETED'' \<Longrightarrow> saga_now D j qs s \<Longrightarrow>
      \<exists>x. pt_id b = Some x \<and> paid (pj_employer j) (pi_key q) (item_due D j q) x (others_world s)"
  shows "saga_known good later paid D j qs s (snd (checkpoint_response v q b s))"
proof -
  have "steps quiet (update_items (\<lambda>r. pi_id r = pi_id q \<and> pi_status r = ItemProcessing \<and> pi_token r = pi_token q)
               (\<lambda>r. r\<lparr>pi_transfer := (case pt_id b of None \<Rightarrow> pi_transfer r | Some i \<Rightarrow> Some i)\<rparr>))"
    by (rule quiet_items) simp
  then have note_id: "steps (saga_known good later paid D j qs)
      (bnd (update_items (\<lambda>r. pi_id r = pi_id q \<and> pi_status r = ItemProcessing \<and> pi_token r = pi_token q)
               (\<lambda>r. r\<lparr>pi_transfer := (case pt_id b of None \<Rightarrow> pi_transfer r | Some i \<Rightarrow> Some i)\<rparr>)) (\<lambda>_.
        throw (PlainError ''TRANSFER_NOT_TERMINAL'')) :: ('w payroll_state, unit) act)"
    by (intro sk.steps_bnd sk.steps_throw saga_of_steps saga_quiet item_update_steps)
  show ?thesis
    unfolding checkpoint_response_def
    using checkpoint_saga [OF assms(1), of True D j s "pt_id b"] checkpoint_saga [OF assms(1), of False D j s]
      stepsD [OF note_id, of s] assms(2)
    by simp
qed

lemma execute_saga:
  assumes "saga_env call_ok good later paid D v" and "item_core q \<in> item_core ` set qs"
  shows "steps (saga_known good later paid D j qs) (execute_item v j q)"
proof (rule stepsI)
  fix s :: "'w payroll_state"
  let ?c = "item_command v (pj_source j) q"
  have v: "yv_decimal v = D" "call_ok (yv_create_domestic v)"
    and others: "\<And>k i s. saga_step good later paid D s (yv_others v k i s)"
    using assms(1) by (simp_all add: saga_env_def)
  have due: "?c = item_due D j q" using v(1) by (simp add: item_command_def item_due_def)
  have "\<exists>r u. create_domestic_call v (pj_employer j) (pi_key q) ?c s = (Inr r, u)"
    by (simp add: create_domestic_call_def call_service_def Let_def case_prod_unfold)
  then obtain r u where call: "create_domestic_call v (pj_employer j) (pi_key q) ?c s = (Inr r, u)" by blast
  let ?w = "yv_others v 20 (pi_id q) u"
  have "steps (saga_step good later paid D) (create_domestic_call v (pj_employer j) (pi_key q) ?c)"
    unfolding create_domestic_call_def by (rule saga_call) (rule call_later [OF v(2)])
  from saga_of_base [OF stepsD_eq [OF this call]] have su: "saga_known good later paid D j qs s u" .
  have uw: "saga_known good later paid D j qs u ?w" by (rule saga_of_base [OF others])
  have sw: "saga_known good later paid D j qs s ?w" by (rule sk.R_trans [OF su uw])
  have settled: "\<exists>x. pt_id b = Some x \<and> paid (pj_employer j) (pi_key q) (item_due D j q) x (others_world ?w)"
    if "saga_now D j qs s" "pt_status b = Some ''COMPLETED''" "r = Replied b \<or> (\<exists>st c m. r = Refused st c m b)" for b
  proof -
    note completed = that(2) and reply = that(3)
    have good: "good (others_world s)" using that(1) by (simp add: saga_now_def paid_ok_def)
    obtain st c m where resp: "yv_create_domestic v (pj_employer j) (pi_key q) ?c (others_world s) =
        (Response st b c m, others_world u)"
      using call_service_reply [OF call [unfolded create_domestic_call_def] reply] by blast
    obtain x where x: "pt_id b = Some x" "paid (pj_employer j) (pi_key q) ?c x (others_world u)"
      using call_paid [OF v(2) good resp completed] by blast
    have "saga_now D j qs u" by (rule saga_now_later(1) [OF su that(1)])
    then have "later (others_world u) (others_world ?w)" "good (others_world u)"
      using saga_now_later(2) [OF uw] by (simp_all add: saga_now_def paid_ok_def)
    then show ?thesis using paid_later x due by auto
  qed
  have response: "saga_known good later paid D j qs s (snd (checkpoint_response v q b ?w))"
    if "r = Replied b \<or> (\<exists>st c m. r = Refused st c m b)" for b
  proof (cases "saga_now D j qs s")
    case True
    show ?thesis by (rule sk.R_trans [OF sw response_saga [OF assms(2) settled [OF True _ that]]])
  next
    case False
    have "steps (known_items qs) (checkpoint_response v q b)" by (rule checkpoint_response_known [OF assms(2)])
    then have "known_items qs ?w (snd (checkpoint_response v q b ?w))" by (rule stepsD)
    then have "known_items qs s (snd (checkpoint_response v q b ?w))"
      using sw pk.R_trans unfolding saga_known_def by blast
    then show ?thesis by (rule saga_knownI) (use False in simp)
  qed
  have failed: "saga_known good later paid D j qs s (snd (checkpoint v q False tr code ?w))" for tr code
    by (rule sk.R_trans [OF sw checkpoint_saga [OF assms(2)]]) simp
  show "saga_known good later paid D j qs s (snd (execute_item v j q s))"
    using response failed sw call by (cases r) (auto simp: execute_item_def bnd_def)
qed

end

context payment_provider
begin

lemma finalize_saga:
  assumes "calm_payroll v" and "saga_env call_ok good later paid D v"
  shows "steps (saga_step good later paid D) (finalize_job v i)"
proof (rule stepsI)
  fix s :: "'w payroll_state"
  let ?u = "yv_others v 15 i s" and ?t = "snd (finalize_job v i s)"
  have st: "payroll_step s ?t" by (rule stepsD [OF finalize_job_step [OF assms(1)]])
  have su: "saga_step good later paid D s ?u" using assms(2) by (simp add: saga_env_def)
  consider "?t = s" | "quiet ?u ?t"
  proof (cases "find_job_row i s")
    case None
    then show ?thesis using that(1) by (simp add: finalize_job_def)
  next
    case (Some j)
    have "quiet ?u (snd (update_job (yv_now v 8) i
        (\<lambda>r. r\<lparr>pj_status := final_status j, pj_finished := Some (yv_now v 9), pj_queue_error := None\<rparr>) ?u))"
      by (rule stepsD [OF quiet_job]) (simp add: job_core_def)
    then show ?thesis
      using that Some by (cases "pj_completed j + pj_failed j = pj_total j") (simp_all add: finalize_job_def)
  qed
  then show "saga_step good later paid D s ?t"
  proof cases
    case 1
    then show ?thesis by (simp add: saga_refl)
  next
    case 2
    have "paid_ok good paid D ?t \<and> later (others_world s) (others_world ?t)"
      if "payroll_ok s \<and> paid_ok good paid D s"
    proof
      have u: "paid_ok good paid D ?u" "later (others_world s) (others_world ?u)"
        using su that by (simp_all add: saga_step_def)
      show "paid_ok good paid D ?t" by (rule quiet_paid [OF 2 u(1)])
      have "others_world ?t = others_world ?u" using 2 by (simp add: quiet_def)
      then show "later (others_world s) (others_world ?t)" using u(2) by simp
    qed
    then show ?thesis using st by (simp add: saga_step_def)
  qed
qed

end

text \<open>The claims and the requests keep every completed item paid.\<close>

sublocale payment_provider < sg: payroll_relation "saga_step good later paid D" "saga_known good later paid D"
    "\<lambda>v. calm_payroll v \<and> saga_env call_ok good later paid D v" for D
proof
  fix s t u :: "'w payroll_state" and v :: "'w payroll_env" and j qs i st k q now e token ttl x key h c
  let ?base = "saga_step good later paid D" and ?known = "saga_known good later paid D"
  let ?env = "calm_payroll v \<and> saga_env call_ok good later paid D v"
  show "?base s s" by (rule saga_refl)
  show "?base s u" if "?base s t" "?base t u" using that by (rule ss.R_trans)
  show "?known j qs s s" by (rule sk.R_refl)
  show "?known j qs s u" if "?known j qs s t" "?known j qs t u" using that by (rule sk.R_trans)
  show "?known j qs s t" if "?base s t" using that by (rule saga_of_base)
  show "?known j qs s t" if "\<not> payroll_ok s" using that by (simp add: saga_known_def known_items_def)
  show "?known j [] s t" if "?known j qs s t" "payroll_ok s \<Longrightarrow> \<forall>q\<in>set qs. item_known q s \<and> pi_job q = pj_id j"
    using that by (auto simp: saga_known_def known_items_def)
  show "?known j qs s t" if "?known j [] s t" using that by (auto simp: saga_known_def known_items_def)
  show "?base s t" if "find_job_row i s = Some j" "?known j [] s t"
  proof -
    have "job_known j s" using find_job_row_in [OF that(1)] by (auto simp: job_known_def)
    then show ?thesis using that(2) by (auto simp: saga_known_def saga_step_def known_items_def payroll_step_def)
  qed
  show "calm_payroll v" if ?env using that by (rule conjunct1)
  have pauses: "steps ?base (pause (yv_others v n m))" if ?env for n m
    using that by (intro ss.steps_pause) (simp add: saga_env_def)
  show "steps ?base (pause (yv_others v n i))" if ?env for n using that by (rule pauses)
  show "steps ?base (claim_item v n st q)" if ?env "st \<in> {ItemPending, ItemProcessing}" for n
  proof -
    have "steps ?base (update_items (\<lambda>r. pi_id r = pi_id q \<and> pi_status r = st)
            (\<lambda>r. r\<lparr>pi_status := ItemProcessing, pi_token := Some (yv_item_token v (pi_id q)),
                   pi_started := Some (yv_now v 6), pi_attempts := pi_attempts r + 1\<rparr>))"
      by (rule saga_quiet [OF claim_update_steps [OF that(2)] quiet_items]) simp
    then show ?thesis
      unfolding claim_item_def by (intro ss.steps_bnd pauses [OF that(1)] ss.steps_ret)
  qed
  show "steps (?known j qs) (execute_item v j q)" if ?env "item_core q \<in> item_core ` set qs"
    using that by (intro execute_saga) simp_all
  show "steps ?base (update_job now i (\<lambda>r. r\<lparr>pj_status := JobProcessing, pj_started := x, pj_queue_error := None\<rparr>))"
    by (intro saga_quiet start_job_step quiet_job) (simp add: job_core_def)
  show "steps ?base (note_queue_failure v i)"
    by (intro saga_quiet note_queue_failure_step) (auto simp: note_queue_failure_def job_core_def intro!: qu.steps_bnd quiet_jobs qu.steps_ret)
  show "steps ?base (acquire_lease now e token ttl)" "steps ?base (renew_lease now e token ttl)"
    "steps ?base (release_lease now e token)"
    by (intro saga_quiet lease_steps quiet_leases)+
  show "steps ?base (world_call (\<lambda>w. (yv_queue_state v i w, w)))"
    by (rule saga_world) (simp add: later_refl)
  show "steps ?base (world_call (yv_queue_remove v i))" "steps ?base (world_call (yv_queue_add v i))"
    "steps ?base (source_validation v i)" if ?env
    using that by (auto simp: saga_env_def source_validation_def intro!: saga_world saga_call)
  show "steps ?base (transaction (\<lambda>_. True) (mark_queued v i))"
    by (intro saga_quiet py.steps_transaction mark_queued_step qu.steps_transaction)
      (auto simp: mark_queued_def job_core_def intro!: qu.steps_bnd quiet_jobs quiet_key)
  show "steps ?base (update_job now i (\<lambda>j. j\<lparr>pj_queue_failures := pj_queue_failures j + 1,
      pj_queue_error := Some ''QUEUE_UNAVAILABLE''\<rparr>))"
    by (intro saga_quiet update_job_steps quiet_job) (simp_all add: job_core_def)
  show "steps ?base (transaction (\<lambda>_. True) (create_payroll v e key h c))"
    by (intro saga_quiet create_transaction_step qu.steps_transaction quiet_create)
  show "steps ?base (finalize_job v i)" if ?env
    using that by (intro finalize_saga) simp_all
qed

end
