(* ===== verification/TransferAnswers.thy ===== *)
theory TransferAnswers
  imports TransferOutcomes
begin

text \<open>
  What an answer of the Transfer service says is true of its tables when it is given: an answer about a
  transfer that it calls COMPLETED is about a transfer that is completed, under the key and with the hash
  of the request.
\<close>

definition says :: "decimal_lib \<Rightarrow> uuid \<Rightarrow> execution_result \<Rightarrow> 'w transfer_state \<Rightarrow> bool" where
  "says D i x s \<longleftrightarrow>
     (\<exists>t. tr_id t = i \<and> ex_body x = transfer_response_of D t \<and> (tr_status t = Completed \<longrightarrow> find_row i s = Some t))"

lemma transfers_kept: "steps (transfer_step D) m \<Longrightarrow> steps (keeping (transfers_ok D)) m"
  by (simp add: steps_def keeping_def transfer_step_def)

lemma says_row: "find_row i s = Some t \<Longrightarrow> ex_body x = transfer_response_of D t \<Longrightarrow> says D i x s"
  using find_row_Some [of i s t] by (auto simp: says_def)

lemma says_open: "tr_id t = i \<Longrightarrow> tr_status t \<noteq> Completed \<Longrightarrow> ex_body x = transfer_response_of D t \<Longrightarrow> says D i x s"
  by (auto simp: says_def)

lemma complete_says: "calm D v \<Longrightarrow> results (transfers_ok D) (complete v i ledger) (says D i)"
proof (rule resultsI)
  fix s x t
  assume calm: "calm D v" and ok: "transfers_ok D s" and r: "complete v i ledger s = (Inr x, t)"
  let ?u = "tv_others v 15 s"
  have u: "transfers_ok D ?u" using calm ok by (auto simp: calm_def transfer_step_def)
  obtain row where c: "complete_transaction v i ledger ?u = (Inr row, t)"
    and x: "ex_body x = transfer_response_of D row"
    using r calm_decimal [OF calm]
    by (auto simp: complete_def bnd_result_Inr transaction_Inr result_for_transfer_def split: if_splits)
  show "says D i x t" using complete_effect [OF c u calm_decimal [OF calm]] x says_row by blast
qed

lemma fail_says: "calm D v \<Longrightarrow> results (transfers_ok D) (fail v i status code msg) (says D i)"
proof (rule resultsI)
  fix s x t
  assume calm: "calm D v" and ok: "transfers_ok D s" and r: "fail v i status code msg s = (Inr x, t)"
  let ?u = "tv_others v 15 s"
  have u: "transfers_ok D ?u" using calm ok by (auto simp: calm_def transfer_step_def)
  obtain row moved where c: "fail_transaction v i status code msg ?u = (Inr (row, moved), t)"
    and x: "ex_body x = transfer_response_of D row"
    using r calm_decimal [OF calm]
    by (auto simp: fail_def bnd_result_Inr transaction_Inr result_for_transfer_def split: if_splits)
  show "says D i x t" using fail_effect [OF c u calm_decimal [OF calm]] x says_row by blast
qed

lemma processing_says:
  "tv_decimal v = D \<Longrightarrow> tr_id t = i \<Longrightarrow> tr_status t \<noteq> Completed \<Longrightarrow>
     results I (ret (processing_result (tv_decimal v) t)) (says D i)"
  by (rule results_ret) (auto intro: says_open simp: processing_result_def)

lemma failure_says:
  assumes "calm D v" and "tr_status t \<noteq> Completed"
  shows "results (transfers_ok D) (handle_account_failure v i e) (says D i)"
    and "results (transfers_ok D) (handle_fx_failure v t e) (says D (tr_id t))"
    and "results (transfers_ok D) (handle_ledger_failure v t e) (says D (tr_id t))"
  using fail_says [OF assms(1)] processing_says [OF calm_decimal [OF assms(1)] refl assms(2)]
  by (auto simp: handle_account_failure_def handle_fx_failure_def handle_ledger_failure_def
      intro!: results_throw split: failure.split)

lemma results_cond: "(c \<Longrightarrow> results I m Q) \<Longrightarrow> (\<not> c \<Longrightarrow> results I n Q) \<Longrightarrow> results I (if c then m else n) Q"
  by simp

lemma results_sum:
  "(\<And>e. results I (f e) Q) \<Longrightarrow> (\<And>x. results I (g x) Q) \<Longrightarrow>
     results I (case r of Inl e \<Rightarrow> f e | Inr x \<Rightarrow> g x) Q"
  by (cases r) simp_all

lemma results_opt:
  "results I n Q \<Longrightarrow> (\<And>x. results I (f x) Q) \<Longrightarrow> results I (case v of None \<Rightarrow> n | Some x \<Rightarrow> f x) Q"
  by (cases v) simp_all

lemma results_failure:
  "(\<And>a b c. results I (f a b c) Q) \<Longrightarrow> (\<And>a. results I (g a) Q) \<Longrightarrow> (\<And>a. results I (h a) Q) \<Longrightarrow>
     (\<And>a b c d e. results I (k a b c d e) Q) \<Longrightarrow> (\<And>a. results I (l a) Q) \<Longrightarrow>
     results I (case e of HttpException a b c \<Rightarrow> f a b c | DbError a \<Rightarrow> g a | PlainError a \<Rightarrow> h a
       | UpstreamHttpError a b c d e \<Rightarrow> k a b c d e | UpstreamUnavailableError a \<Rightarrow> l a) Q"
  by (cases e) simp_all

lemma results_ok: "results I m Q \<Longrightarrow> results (\<lambda>s. I s \<and> J s) m Q"
  unfolding results_def by blast

lemmas results_cases = results_cond results_sum results_opt results_failure results_throw

lemma results_find:
  assumes "\<And>t. tr_id t = i \<Longrightarrow> results (\<lambda>s. I s \<and> find_row i s = Some t) (f t) Q"
  shows "results I (bnd (find_transfer i) f) Q" and "results I (bnd (row_or_throw i) f) Q"
proof -
  have "Q x u" if "I s" "find_row i s = Some t" "f t s = (Inr x, u)" for s t x u
    using resultsD [OF assms, of t s x u] find_row_Some [OF that(2)] that by blast
  then show "results I (bnd (find_transfer i) f) Q" "results I (bnd (row_or_throw i) f) Q"
    by (auto simp: results_def bnd_result_Inr find_transfer_Inr row_or_throw_Inr)
qed

lemma results_weaken: "results I m Q \<Longrightarrow> (\<And>s. J s \<Longrightarrow> I s) \<Longrightarrow> results J m Q"
  by (auto simp: results_def)

lemma row_says:
  "tv_decimal v = D \<Longrightarrow> results (\<lambda>s. I s \<and> find_row i s = Some t) (ret (result_for_transfer (tv_decimal v) t)) (says D i)"
  by (rule results_ret) (auto intro: says_row simp: result_for_transfer_def)

lemma process_says:
  fixes v :: "'w transfer_env"
  assumes "calm D v"
  shows "results (transfers_ok D) (process v i) (says D i)"
  unfolding process_def
proof (rule results_bnd [OF transfers_kept [OF pause_step [OF assms]]], rule results_find(1), rule results_cond)
  fix t :: transfer
  assume i: "tr_id t = i"
  show "results (\<lambda>s. transfers_ok D s \<and> find_row i s = Some t) (ret (result_for_transfer (tv_decimal v) t)) (says D i)"
    by (rule row_says [OF calm_decimal [OF assms]])
  assume "\<not> tr_status t \<noteq> Processing"
  then have st: "tr_status t \<noteq> Completed" by simp
  note pauses = results_bnd [OF transfers_kept [OF pause_step [OF assms]]]
  show "results (\<lambda>s. transfers_ok D s \<and> find_row i s = Some t)
     (bnd (pause (tv_others v 12)) (\<lambda>_. bnd (attempt (validated_wallets v t)) (\<lambda>checked.
       case checked of
         Inl e \<Rightarrow> handle_account_failure v (tr_id t) e
       | Inr _ \<Rightarrow>
           bnd (pause (tv_others v 13)) (\<lambda>_.
           bnd (attempt (post_transfer v t)) (\<lambda>posted.
           case posted of
             Inl e \<Rightarrow> handle_ledger_failure v t e
           | Inr p \<Rightarrow> complete v (tr_id t) (pr_id p)))))) (says D i)"
    unfolding i [symmetric]
    by (rule results_ok)
      (intro pauses results_bnd [OF transfers_kept [OF tx.steps_attempt [OF validated_wallets_step]]]
        results_bnd [OF transfers_kept [OF tx.steps_attempt [OF post_transfer_step]]] results_sum
        failure_says [OF assms st] complete_says [OF assms])
qed

lemma known_kept: "steps (known_step D t) m \<Longrightarrow> steps (keeping (\<lambda>s. transfers_ok D s \<and> known t s)) m"
  by (simp add: steps_def keeping_def known_step_def)

lemma prepare_says:
  fixes v :: "'w transfer_env"
  assumes "calm D v"
  shows "results (\<lambda>s. transfers_ok D s \<and> find_row (tr_id t) s = Some t) (prepare_international v t) (says D (tr_id t))"
  unfolding prepare_international_def
proof (rule results_cond)
  note D = calm_decimal [OF assms]
  show "results (\<lambda>s. transfers_ok D s \<and> find_row (tr_id t) s = Some t) (ret (result_for_transfer (tv_decimal v) t)) (says D (tr_id t))"
    by (rule row_says [OF D])
  assume "\<not> (tr_status t \<noteq> Pending \<or> tr_type t \<noteq> International \<or> \<not> truthy (tr_fx_quote t))"
  then have st: "tr_status t \<noteq> Completed" by simp
  let ?I = "\<lambda>s :: 'w transfer_state. transfers_ok D s \<and> known t s"
  note pauses = results_bnd [OF known_kept [OF known_steps [OF pause_step [OF assms]]]]
  show "results (\<lambda>s. transfers_ok D s \<and> find_row (tr_id t) s = Some t)
     (bnd (pause (tv_others v 8)) (\<lambda>_.
        bnd (attempt (fx_consume v (the (tr_fx_quote t)) (consume_command v t))) (\<lambda>consumed.
        case consumed of
          Inl e \<Rightarrow> handle_fx_failure v t e
        | Inr q \<Rightarrow>
            bnd (pause (tv_others v 9)) (\<lambda>_.
            bnd (transaction (\<lambda>_. True) (prepare_transaction v t q)) (\<lambda>prepared.
            if \<not> prepared
            then bnd (pause (tv_others v 10)) (\<lambda>_.
                 bnd (find_transfer (tr_id t)) (\<lambda>r. ret (result_for_transfer (tv_decimal v) r)))
            else process v (tr_id t)))))) (says D (tr_id t))"
    by (rule results_weaken [where I = ?I])
      (intro pauses results_bnd [OF known_kept [OF known_steps [OF tx.steps_attempt [OF client_steps(3)]]]]
        results_bnd [OF known_kept [OF prepare_transaction_step [OF D]]] results_sum results_cond
        results_ok [OF failure_says(2) [OF assms st]] results_ok [OF process_says [OF assms]]
        results_find(1) row_says [OF D], auto intro: known_row)
qed

lemma reconcile_says:
  fixes v :: "'w transfer_env"
  assumes "calm D v"
  shows "results (transfers_ok D) (reconcile v i force) (says D i)"
  unfolding reconcile_def Let_def
proof (rule results_find(1), rule results_cond, goal_cases)
  note D = calm_decimal [OF assms]
  note pauses = results_bnd [OF transfers_kept [OF pause_step [OF assms]]]
  {
    case (1 t)
    have "results (\<lambda>s. transfers_ok D s \<and> find_row (tr_id t) s = Some r) (prepare_international v r) (says D (tr_id t))"
      if "tr_id r = tr_id t" for r
      using prepare_says [OF assms, of r] that by simp
    then show ?case
      unfolding 1(1) [symmetric] by (rule results_ok [OF pauses [OF results_find(2)]])
  next
    case (2 t)
    show ?case
    proof (rule results_cond, goal_cases)
      case 1
      show ?case by (rule row_says [OF D])
    next
      case 3: 2
      then have st: "tr_status t \<noteq> Completed" by simp
      show ?case
        unfolding 2(1) [symmetric]
        by (rule results_ok)
          (intro pauses results_bnd [OF transfers_kept [OF tx.steps_attempt [OF by_reference_step]]]
            results_bnd [OF transfers_kept [OF claim_processing_retry_step]] results_cases
            complete_says [OF assms] processing_says [OF D refl st] process_says [OF assms]
            results_find(1) row_says [OF D])
    qed
  }
qed

section \<open>The answer to a domestic transfer\<close>

lemma existing_says:
  assumes "calm D v" and "transfers_ok D s" and "claimed D client key s (t, r)"
    and "handle_existing v t r hash s = (Inr x, u)"
  shows "says D (tr_id t) x u" and "ir_hash r = hash"
proof -
  let ?w = "tv_others v 4 s"
  have w: "transfers_ok D ?w" "transfers_later s ?w"
    using assms(1,2) by (auto simp: calm_def transfer_step_def)
  have match: "record_matches D t r" using assms(3) by (simp add: claimed_def)
  show "ir_hash r = hash" using assms(4) by (simp add: handle_existing_def split: if_splits)
  have rest: "(case (ir_state r, ir_status r, ir_body r) of
       (KeyProcessing, _, _) \<Rightarrow> reconcile v (tr_id t) False
     | (_, Some status, Some body) \<Rightarrow>
         if status \<noteq> 0 then ret \<lparr>ex_status = status, ex_body = body\<rparr> else reconcile v (tr_id t) False
     | _ \<Rightarrow> reconcile v (tr_id t) False) ?w = (Inr x, u)"
    using assms(4) by (simp add: handle_existing_def split: if_splits)
  consider "reconcile v (tr_id t) False ?w = (Inr x, u)"
    | body where "ir_state r \<noteq> KeyProcessing" "ir_body r = Some body" "ex_body x = body" "u = ?w"
    using rest by (auto split: idempotency_state.splits option.splits if_splits)
  then show "says D (tr_id t) x u"
  proof cases
    case 1
    show ?thesis by (rule resultsD [OF reconcile_says [OF assms(1)] w(1) 1])
  next
    case 2
    have body: "ex_body x = transfer_response_of D t" and final: "tr_status t \<in> {Completed, Failed}"
      using match 2(1-3) by (auto simp: record_matches_def split: transfer_status.splits)
    have "find_row (tr_id t) s = Some t" using assms(3) by (simp add: claimed_def)
    then obtain t' where t': "find_row (tr_id t) ?w = Some t'" "later_transfer t t'"
      using find_row_later [OF w(2)] by blast
    then have "t' = t" using final by (auto simp: later_transfer_def)
    then show ?thesis using t'(1) body 2(4) says_row by blast
  qed
qed

lemma create_domestic_answer:
  assumes "calm D v" and "transfers_ok D s" and "create_domestic v client key c s = (Inr x, u)"
  shows "\<exists>t r. claimed D client key u (t, r) \<and> ir_hash r = domestic_hash v c \<and> rs_id (ex_body x) = tr_id t \<and>
    (rs_status (ex_body x) = Completed \<longrightarrow> tr_status t = Completed)"
proof -
  obtain created t r w where claim: "claim v client key (domestic_hash v c) c s = (Inr (created, t, r), w)"
    and rest: "(if \<not> created then handle_existing v t r (domestic_hash v c)
       else bnd (pause (tv_others v 2)) (\<lambda>_. bnd (transition v (tr_id t)) (\<lambda>_. process v (tr_id t)))) w = (Inr x, u)"
  proof -
    have "bnd (claim v client key (domestic_hash v c) c) (\<lambda>(created, t, r).
       if \<not> created then handle_existing v t r (domestic_hash v c)
       else bnd (pause (tv_others v 2)) (\<lambda>_. bnd (transition v (tr_id t)) (\<lambda>_. process v (tr_id t)))) s = (Inr x, u)"
      using assms(3)
      by (simp add: create_domestic_def Let_def check_that_def bnd_def [of "throw _"] split: if_splits option.splits)
    then obtain y w where y: "claim v client key (domestic_hash v c) c s = (Inr y, w)"
      and rest: "(case y of (created, t, r) \<Rightarrow>
       if \<not> created then handle_existing v t r (domestic_hash v c)
       else bnd (pause (tv_others v 2)) (\<lambda>_. bnd (transition v (tr_id t)) (\<lambda>_. process v (tr_id t)))) w = (Inr x, u)"
      unfolding bnd_result_Inr by blast
    show thesis by (rule that [of "fst y" "fst (snd y)" "snd (snd y)" w]) (use y rest in \<open>simp_all add: case_prod_unfold\<close>)
  qed
  note cl = claim_result [OF claim assms(2,1)]
  have w: "transfers_ok D w" and tr: "claimed D client key w (t, r)"
    and new: "created \<Longrightarrow> r = new_record v client key (domestic_hash v c)" using cl by auto
  have step: "steps (transfer_step D) (if \<not> created then handle_existing v t r (domestic_hash v c)
       else bnd (pause (tv_others v 2)) (\<lambda>_. bnd (transition v (tr_id t)) (\<lambda>_. process v (tr_id t))))"
    by (intro tx.steps_if handle_existing_step tx.steps_bnd pause_step transition_step process_step assms)
  then have u: "transfers_ok D u" "transfers_later w u"
    using stepsD_eq [OF step rest] w by (simp_all add: transfer_step_def)
  have says: "says D (tr_id t) x u \<and> ir_hash r = domestic_hash v c"
  proof (cases created)
    case True
    have go: "results (transfers_ok D) (bnd (pause (tv_others v 2)) (\<lambda>_. bnd (transition v (tr_id t)) (\<lambda>_. process v (tr_id t))))
        (says D (tr_id t))"
      by (intro results_bnd transfers_kept pause_step transition_step process_says assms)
    have "says D (tr_id t) x u" using rest True by (intro resultsD [where I = "transfers_ok D", OF go w]) simp
    then show ?thesis using new [OF True] by (simp add: new_record_def)
  next
    case False
    then show ?thesis using existing_says [OF assms(1) w tr] rest by simp
  qed
  obtain q where q: "claimed D client key u q" "later_transfer t (fst q)" "later_record r (snd q)"
    using claimed_later [OF tr u(2,1)] by auto
  obtain t' r' where tr': "q = (t', r')" by fastforce
  have id: "tr_id t' = tr_id t" and hash: "ir_hash r' = ir_hash r"
    using q(2,3) by (simp_all add: tr' later_transfer_def later_record_def record_key_def)
  obtain z where z: "tr_id z = tr_id t" "ex_body x = transfer_response_of D z"
    "tr_status z = Completed \<longrightarrow> find_row (tr_id t) u = Some z" using says by (auto simp: says_def)
  have "find_row (tr_id t) u = Some t'" using q(1) by (simp add: tr' claimed_def id)
  then have "rs_status (ex_body x) = Completed \<longrightarrow> tr_status t' = Completed"
    using z by (auto simp: transfer_response_of_def)
  moreover have "rs_id (ex_body x) = tr_id t'" using z(1,2) id by (simp add: transfer_response_of_def)
  ultimately show ?thesis using q(1) hash says by (auto simp: tr')
qed

end
