(* ===== verification/ServiceCalls.thy ===== *)
theory ServiceCalls
  imports HttpPlatform
begin

text \<open>
  A call of one service by another over HTTP: the request may not arrive, and the answer may be lost after
  the route has done its work. The body of an error's answer is \<open>blank\<close>; the callers read only its code and
  its message.
\<close>

datatype delivery = Delivered | AnswerLost | NotSent

fun deliver :: "delivery \<Rightarrow> ('s, 'a) act \<Rightarrow> (failure + 'a \<Rightarrow> 'b fetched) \<Rightarrow> 's \<Rightarrow> 'b fetched \<times> 's" where
  "deliver Delivered route reply s = (let (r, t) = route s in (reply r, t))"
| "deliver AnswerLost route reply s = (NoResponse, snd (route s))"
| "deliver NotSent route reply s = (NoResponse, s)"

definition http_reply :: "(nat \<Rightarrow> string) \<Rightarrow> nat \<Rightarrow> ('a \<Rightarrow> 'b) \<Rightarrow> 'b \<Rightarrow> failure + 'a \<Rightarrow> 'b fetched" where
  "http_reply num status body blank r =
     (case r of
        Inr x \<Rightarrow> Response status (body x) None None
      | Inl e \<Rightarrow>
          let reply = exception_filter num e in
          Response (he_status reply) blank (Some (he_code reply)) (Some (he_message reply)))"

lemma deliver_state:
  "snd (deliver fate route reply s) = s \<or> snd (deliver fate route reply s) = snd (route s)"
  by (cases fate) (simp_all add: Let_def case_prod_unfold)

lemma deliver_steps: "steps R route \<Longrightarrow> R s s \<Longrightarrow> R s (snd (deliver fate route reply s))"
  using deliver_state [of fate route reply s] by (auto dest: stepsD)

lemma deliver_answer:
  assumes "deliver fate route reply s = (Response st body code msg, t)"
  obtains r where "route s = (r, t)" and "reply r = Response st body code msg"
proof (cases fate)
  case Delivered
  then show ?thesis using assms by (cases "route s") (simp add: that)
qed (use assms in simp_all)

text \<open>A failure that the filter answers outside of 200 to 299.\<close>

definition refusal :: "failure \<Rightarrow> bool" where
  "refusal e \<longleftrightarrow> (case e of HttpException st _ _ \<Rightarrow> 400 \<le> st | _ \<Rightarrow> True)"

lemma refusal_simps [simp]:
  "refusal (HttpException st code msg) \<longleftrightarrow> 400 \<le> st" "refusal (DbError d)" "refusal (PlainError t)"
  by (simp_all add: refusal_def)

lemma refusal_status: "refusal e \<Longrightarrow> 400 \<le> he_status (exception_filter num e)"
  by (auto simp: refusal_def exception_filter_def Let_def split: failure.splits prod.splits option.splits)

lemma accepted_reply:
  assumes "http_reply num status body blank r = Response st b code msg" and "st \<le> 299"
    and "\<And>e. r = Inl e \<Longrightarrow> refusal e"
  obtains x where "r = Inr x" and "b = body x"
proof (cases r)
  case (Inl e)
  then show ?thesis using assms(1,2) refusal_status [OF assms(3) [OF Inl], of num] by (simp add: http_reply_def Let_def)
next
  case (Inr x)
  then show ?thesis using assms(1) that by (simp add: http_reply_def)
qed

lemma failures_guarded: "failures m refusal \<Longrightarrow> failures (guarded a b m) refusal"
  unfolding guarded_def by (intro failures_rules) (simp_all add: internal_auth_required_def)

lemma failures_validated: "failures m refusal \<Longrightarrow> failures (validated ok m) refusal"
  unfolding validated_def by (intro failures_rules) (simp_all add: validation_failed_def)

end
