(* ===== verification/PayrollTransfers.thy ===== *)
theory PayrollTransfers
  imports PayrollSaga TransferAnswers PayrollDemo ServiceCalls
begin

text \<open>
  Payroll over the Transaction service: \<open>TransactionClient.createDomestic\<close> reaches the route of
  TransferService, any answer may be lost, and every completed item is shown to have its completed transfer.
\<close>

section \<open>The call\<close>

fun transfer_status_text :: "transfer_status \<Rightarrow> string" where
  "transfer_status_text Pending = ''PENDING''"
| "transfer_status_text Processing = ''PROCESSING''"
| "transfer_status_text Completed = ''COMPLETED''"
| "transfer_status_text Failed = ''FAILED''"
| "transfer_status_text Reversed = ''REVERSED''"

definition payroll_transfer_of :: "transfer_response \<Rightarrow> payroll_transfer" where
  "payroll_transfer_of r =
     \<lparr>pt_id = Some (rs_id r), pt_status = Some (transfer_status_text (rs_status r)),
      pt_failure = map_option fst (rs_failure r)\<rparr>"

definition payment_request :: "domestic_command \<Rightarrow> create_transfer_dto" where
  "payment_request c =
     \<lparr>ct_sender = dc_sender c, ct_recipient = dc_recipient c, ct_amount = dc_amount c, ct_currency = dc_currency c\<rparr>"

text \<open>The route's answer on the wire; an error's body is that of the exception filter.\<close>

definition transfer_reply :: "(nat \<Rightarrow> string) \<Rightarrow> failure + execution_result \<Rightarrow> payroll_transfer fetched" where
  "transfer_reply num r =
     http_reply num (case r of Inr x \<Rightarrow> ex_status x | Inl _ \<Rightarrow> 500) (\<lambda>x. payroll_transfer_of (ex_body x))
       \<lparr>pt_id = None, pt_status = None, pt_failure = None\<rparr> r"

definition transfer_call ::
  "transfer_http \<Rightarrow> (nat \<Rightarrow> string) \<Rightarrow>
     (string \<Rightarrow> string \<Rightarrow> domestic_command \<Rightarrow> 'w transfer_state \<Rightarrow> 'w transfer_env \<times> delivery) \<Rightarrow>
     'w transfer_state payment_call" where
  "transfer_call h num how employer key c w =
     (let (v, fate) = how employer key c w
      in deliver fate
           (create_domestic_route h v (Some (''Bearer '' @ employer)) (Some key) (payment_request c))
           (transfer_reply num) w)"

text \<open>The calls that reach a Transaction service with the decimals \<open>D\<close> and the digest \<open>g\<close>.\<close>

definition transfer_calls :: "decimal_lib \<Rightarrow> (json \<Rightarrow> string) \<Rightarrow> 'w transfer_state payment_call \<Rightarrow> bool" where
  "transfer_calls D g call \<longleftrightarrow>
     (\<exists>h num how. call = transfer_call h num how \<and>
        (\<forall>e k c w. let v = fst (how e k c w) in
           tv_decimal v = D \<and> tv_digest v = g \<and> (\<forall>n u. transfer_run D u (tv_others v n u))))"

definition payment_hash :: "decimal_lib \<Rightarrow> (json \<Rightarrow> string) \<Rightarrow> domestic_command \<Rightarrow> string" where
  "payment_hash D g c =
     g (JObj
       [(''method'', JStr ''POST''), (''route'', JStr ''/transfers''),
        (''senderWalletId'', JStr (dc_sender c)), (''recipientWalletId'', JStr (dc_recipient c)),
        (''amount'', JStr (dl_fixed D 8 (dl_of D (dc_amount c)))), (''currency'', JStr (dc_currency c))])"

definition transfer_paid ::
  "decimal_lib \<Rightarrow> (json \<Rightarrow> string) \<Rightarrow> string \<Rightarrow> string \<Rightarrow> domestic_command \<Rightarrow> uuid \<Rightarrow> 'w transfer_state \<Rightarrow> bool" where
  "transfer_paid D g employer key c i w \<longleftrightarrow>
     (\<exists>t r. claimed D (trim employer) key w (t, r) \<and> tr_id t = i \<and> tr_status t = Completed \<and>
        ir_hash r = payment_hash D g c)"

lemma transfer_status_text_inject: "transfer_status_text st = ''COMPLETED'' \<Longrightarrow> st = Completed"
  by (cases st) simp_all

lemma transfer_paid_later:
  assumes "transfer_step D s u" and "transfers_ok D s" and "transfer_paid D g e k c i s"
  shows "transfer_paid D g e k c i u"
proof -
  obtain t r where t: "claimed D (trim e) k s (t, r)" "tr_id t = i" "tr_status t = Completed"
    "ir_hash r = payment_hash D g c"
    using assms(3) by (auto simp: transfer_paid_def)
  have u: "transfers_ok D u" "transfers_later s u" using assms(1,2) by (simp_all add: transfer_step_def)
  obtain q where q: "claimed D (trim e) k u q" "later_transfer t (fst q)" "later_record r (snd q)"
    using claimed_later [OF t(1) u(2,1)] by auto
  have "fst q = t" using q(2) t(3) by (simp add: later_transfer_def)
  moreover have "ir_hash (snd q) = ir_hash r" using q(3) by (simp add: later_record_def record_key_def)
  ultimately show ?thesis using q(1) t(2-4) unfolding transfer_paid_def by (intro exI [of _ t] exI [of _ "snd q"]) auto
qed

lemma transfer_calls_calm:
  "transfer_calls D g call \<Longrightarrow> \<exists>h num how. call = transfer_call h num how \<and>
     (\<forall>e k c w. calm D (fst (how e k c w)) \<and> tv_digest (fst (how e k c w)) = g)"
  unfolding transfer_calls_def Let_def using run_calm by blast

lemma route_step: "calm D v \<Longrightarrow> steps (transfer_step D) (create_domestic_route h v header key c)"
  unfolding create_domestic_route_def by (intro tx.steps_validated tx.steps_principal create_domestic_step)

lemma route_pays:
  assumes "calm D v" and "tv_digest v = g" and "transfers_ok D w"
    and "create_domestic_route h v (Some (''Bearer '' @ e)) (Some k) (payment_request c) w = (Inr x, u)"
    and "rs_status (ex_body x) = Completed"
  shows "transfer_paid D g e k c (rs_id (ex_body x)) u"
proof -
  have client: "create_domestic v (trim e) k (payment_request c) w = (Inr x, u)"
    using assms(4)
    by (auto simp: create_domestic_route_def validated_def with_principal_def from_request_def bearer_token_def
        bnd_result_Inr ensure_apply Let_def split: if_splits)
  have "domestic_hash v (payment_request c) = payment_hash D g c"
    using assms(2) calm_decimal [OF assms(1)] by (simp add: domestic_hash_def payment_hash_def payment_request_def)
  then show ?thesis
    using create_domestic_answer [OF assms(1,3) client] assms(5) unfolding transfer_paid_def by metis
qed

interpretation tp: payment_provider "transfer_calls D g" "transfers_ok D" "transfer_step D" "transfer_paid D g" for D g
proof
  fix w w' w'' :: "'w transfer_state" and e k c x call status body code msg
  show "transfer_step D w w" by (rule tx.R_refl)
  show "transfer_step D w w''" if "transfer_step D w w'" "transfer_step D w' w''" using that by (rule tx.R_trans)
  show "transfers_ok D w'" if "transfers_ok D w" "transfer_step D w w'" using that by (simp add: transfer_step_def)
  show "transfer_paid D g e k c x w'"
    if "transfers_ok D w" "transfer_step D w w'" "transfer_paid D g e k c x w"
    using transfer_paid_later [OF that(2,1,3)] .
  show "transfer_step D w (snd (call e k c w))" if call: "transfer_calls D g call" "transfers_ok D w"
  proof -
    obtain h num how where c: "call = transfer_call h num how" "calm D (fst (how e k c w))"
      using transfer_calls_calm [OF call(1)] by metis
    obtain v fate where v: "how e k c w = (v, fate)" by fastforce
    then have "calm D v" using c(2) by simp
    from deliver_steps [OF route_step [OF this] tx.R_refl] show ?thesis by (simp add: c(1) v transfer_call_def)
  qed
  show "\<exists>x. pt_id body = Some x \<and> transfer_paid D g e k c x w'"
    if call: "transfer_calls D g call" "transfers_ok D w" "call e k c w = (Response status body code msg, w')"
      "pt_status body = Some ''COMPLETED''"
  proof -
    obtain h num how where c: "call = transfer_call h num how" "calm D (fst (how e k c w))"
      "tv_digest (fst (how e k c w)) = g"
      using transfer_calls_calm [OF call(1)] by metis
    obtain v fate where v: "how e k c w = (v, fate)" by fastforce
    obtain r where r: "create_domestic_route h v (Some (''Bearer '' @ e)) (Some k) (payment_request c) w = (r, w')"
      and reply: "transfer_reply num r = Response status body code msg"
      using call(3) unfolding c(1) transfer_call_def v Let_def prod.case by (rule deliver_answer)
    then obtain z where z: "r = Inr z" "body = payroll_transfer_of (ex_body z)"
      using call(4) by (cases r) (auto simp: transfer_reply_def http_reply_def Let_def)
    have settled: "rs_status (ex_body z) = Completed"
      using call(4) z(2) transfer_status_text_inject by (simp add: payroll_transfer_of_def)
    have "transfer_paid D g e k c (rs_id (ex_body z)) w'"
      by (rule route_pays [OF _ _ call(2) r [unfolded z(1)] settled]) (use c v in simp_all)
    then show ?thesis using z(2) by (simp add: payroll_transfer_of_def)
  qed
qed

section \<open>Runs of both services\<close>

text \<open>
  Payroll runs whose payments go to a Transaction service that also serves others; the Account service and
  the queue are outside of both.
\<close>

inductive saga_run ::
  "decimal_lib \<Rightarrow> (json \<Rightarrow> string) \<Rightarrow> 'w transfer_state payroll_state \<Rightarrow> 'w transfer_state payroll_state \<Rightarrow> bool"
  for D g where
  sg_idle: "saga_run D g s s"
| sg_transfers: "saga_run D g s t \<Longrightarrow> transfer_run D (others_world t) w \<Longrightarrow> saga_run D g s (t\<lparr>others_world := w\<rparr>)"
| sg_serve: "yv_decimal v = D \<Longrightarrow> transfer_calls D g (yv_create_domestic v) \<Longrightarrow>
    \<forall>i w. snd (yv_validation v i w) = w \<and> snd (yv_queue_remove v i w) = w \<and> snd (yv_queue_add v i w) = w \<Longrightarrow>
    \<forall>k i u. saga_run D g u (yv_others v k i u) \<Longrightarrow> saga_run D g s t \<Longrightarrow>
    saga_run D g s (serve_payroll h v q t)"

lemma serve_saga_step:
  assumes "calm_payroll v" and "saga_env (transfer_calls D g) (transfers_ok D) (transfer_step D) (transfer_paid D g) D v"
  shows "saga_step (transfers_ok D) (transfer_step D) (transfer_paid D g) D s (serve_payroll h v q s)"
  by (cases q)
    (auto simp: submit_route_def get_job_route_def get_internal_job_route_def
      intro!: stepsD [where R = "saga_step (transfers_ok D) (transfer_step D) (transfer_paid D g) D"]
        tp.ss.steps_validated tp.ss.steps_guarded tp.ss.steps_principal
        tp.sg.worker_run_steps tp.sg.recover_jobs_steps tp.sg.view_steps tp.sg.submit_steps tp.saga_quiet lease_steps quiet_leases assms)

lemma saga_run_step:
  "saga_run D g s t \<Longrightarrow> saga_step (transfers_ok D) (transfer_step D) (transfer_paid D g) D s t"
proof (induction rule: saga_run.induct)
  case (sg_idle s)
  then show ?case by (rule tp.saga_refl)
next
  case (sg_transfers s t w)
  have "saga_step (transfers_ok D) (transfer_step D) (transfer_paid D g) D t (t\<lparr>others_world := w\<rparr>)"
    by (rule tp.saga_outside) (rule transfer_run_step [OF sg_transfers.hyps(2)])
  then show ?case using sg_transfers.IH by (rule tp.ss.R_trans [rotated])
next
  case (sg_serve v s t h q)
  have others: "\<forall>k i u. saga_step (transfers_ok D) (transfer_step D) (transfer_paid D g) D u (yv_others v k i u)"
    using sg_serve.IH(1) by blast
  then have "calm_payroll v" by (simp add: calm_payroll_def saga_step_def)
  moreover have "saga_env (transfer_calls D g) (transfers_ok D) (transfer_step D) (transfer_paid D g) D v"
    using sg_serve.hyps(1-3) others by (simp add: saga_env_def tx.R_refl)
  ultimately have "saga_step (transfers_ok D) (transfer_step D) (transfer_paid D g) D t (serve_payroll h v q t)"
    by (rule serve_saga_step)
  then show ?case using sg_serve.IH(2) by (rule tp.ss.R_trans [rotated])
qed

lemma saga_run_paid:
  assumes "saga_run D g (empty_payroll (empty_transfers w)) s"
  shows "payroll_ok s" and "paid_ok (transfers_ok D) (transfer_paid D g) D s"
proof -
  let ?e = "empty_payroll (empty_transfers w)"
  have "paid_ok (transfers_ok D) (transfer_paid D g) D ?e" by (simp add: paid_ok_def empty_payroll_def)
  then show "payroll_ok s" "paid_ok (transfers_ok D) (transfer_paid D g) D s"
    using saga_run_step [OF assms] by (simp_all add: saga_step_def payroll_step_def)
qed

end
