(* ===== verification/PayrollLinked.thy ===== *)
theory PayrollLinked
  imports PayrollTransfers
begin

text \<open>The payment of every completed item, and the run of both services at which it is applied.\<close>

section \<open>A run of both services\<close>

definition demo_pay_record :: idem_record where
  "demo_pay_record = demo_record\<lparr>ir_key := ''payroll:j:i''\<rparr>"

definition demo_pay_open :: "unit transfer_state" where
  "demo_pay_open = demo_open\<lparr>records := [demo_pay_record]\<rparr>"

definition demo_pay_done :: "unit transfer_state" where
  "demo_pay_done = demo_done\<lparr>records := [demo_pay_record\<lparr>ir_state := KeyCompleted, ir_status := Some 201,
       ir_body := Some (transfer_response_of exact_decimal demo_done_row)\<rparr>]\<rparr>"

lemmas demo_pay_rows = demo_pay_record_def demo_pay_open_def demo_pay_done_def

abbreviation demo_pays :: "unit transfer_env" where
  "demo_pays \<equiv> demo_tx_env posted_ok NoResponse"

lemma demo_pay_amount [simp]: "decimal_value ''100.00000000'' = 100"
  by code_simp

lemma demo_pay_request:
  "payment_request demo_item_command = demo_command\<lparr>ct_amount := ''100.00000000''\<rparr>"
  by (simp add: payment_request_def demo_item_command_def demo_command_def)

lemma demo_pay_claim:
  "claim demo_pays ''alice'' ''payroll:j:i'' ''h'' (payment_request demo_item_command) (empty_transfers ()) =
     (Inr (True, demo_row\<lparr>tr_status := Pending, tr_version := 0\<rparr>, demo_pay_record),
      \<lparr>transfers = [demo_row\<lparr>tr_status := Pending, tr_version := 0\<rparr>], records = [demo_pay_record],
       history = demo_history Pending, reconciling = False, outside = ()\<rparr>)"
  by (simp add: demo_pay_request demo_pay_rows tx_rows tx_writes tx_code empty_transfers_def bnd_def catch_def
      transaction_def Let_def replay_window_ms_def retention_window_ms_def)

lemma demo_pay_transition:
  "transition demo_pays ''x1'' \<lparr>transfers = [demo_row\<lparr>tr_status := Pending, tr_version := 0\<rparr>],
       records = [demo_pay_record], history = demo_history Pending, reconciling = False, outside = ()\<rparr> =
     (Inr (), demo_pay_open)"
  by (simp add: demo_pay_rows tx_rows tx_writes tx_code bnd_def transaction_def)

lemma demo_pay_process:
  "process demo_pays ''x1'' demo_pay_open =
     (Inr \<lparr>ex_status = 201, ex_body = transfer_response_of exact_decimal demo_done_row\<rparr>, demo_pay_done)"
proof -
  have "find_transfer ''x1'' demo_pay_open = (Inr demo_row, demo_pay_open)"
    by (simp add: find_transfer_def find_row_def demo_pay_open_def demo_open_def demo_row_def)
  moreover have "tr_status demo_row = Processing" "tr_id demo_row = ''x1''" by (simp_all add: demo_row_def)
  moreover have "tv_others demo_pays k s = s" for k s by (simp add: demo_tx_env_def)
  moreover have "validated_wallets demo_pays demo_row demo_pay_open = (Inr (), demo_pay_open)"
    by (simp add: demo_pay_rows tx_rows tx_code internal_request_def)
  moreover have "post_transfer demo_pays demo_row demo_pay_open = (Inr demo_posting, demo_pay_open)"
    by (simp add: demo_pay_rows tx_rows tx_code Let_def internal_request_def)
  moreover have "complete demo_pays ''x1'' (pr_id demo_posting) demo_pay_open =
      (Inr \<lparr>ex_status = 201, ex_body = transfer_response_of exact_decimal demo_done_row\<rparr>, demo_pay_done)"
    by (simp add: demo_pay_rows tx_rows tx_writes tx_code bnd_def transaction_def)
  ultimately show ?thesis by (simp add: process_def bnd_def attempt_def)
qed

lemma demo_pay_create:
  "create_domestic_route demo_tx_http demo_pays (Some ''Bearer alice'') (Some ''payroll:j:i'')
     (payment_request demo_item_command) (empty_transfers ()) =
     (Inr \<lparr>ex_status = 201, ex_body = transfer_response_of exact_decimal demo_done_row\<rparr>, demo_pay_done)"
proof -
  let ?c = "payment_request demo_item_command"
  have "create_domestic_route demo_tx_http demo_pays (Some ''Bearer alice'') (Some ''payroll:j:i'') ?c =
      create_domestic demo_pays ''alice'' ''payroll:j:i'' ?c"
    by (rule ext)
      (simp add: create_domestic_route_def validated_def create_transfer_ok_def with_principal_def
        from_request_def bearer_token_def trim_def is_space_def principal_pattern_def is_alnum_def
        is_digit_def upper_letter_def is_currency_def decimal_pattern_def Let_def demo_pay_request demo_command_def
        demo_tx_http_def)
  moreover have "domestic_hash demo_pays ?c = ''h''" by (simp add: domestic_hash_def demo_tx_env_def)
  moreover have "idempotency_key_ok ''payroll:j:i''" by (simp add: idempotency_key_ok_def)
  moreover have "check_that (validate_command (tv_decimal demo_pays) ?c) s = (Inr (), s)" for s :: "unit transfer_state"
    by (simp add: check_that_def validate_command_def demo_pay_request demo_command_def demo_tx_env_def)
  moreover have "tr_id (demo_row\<lparr>tr_status := Pending, tr_version := 0\<rparr>) = ''x1''" by (simp add: demo_row_def)
  moreover have "tv_others demo_pays k s = s" for k s by (simp add: demo_tx_env_def)
  ultimately show ?thesis
    using demo_pay_claim demo_pay_transition demo_pay_process by (simp add: create_domestic_def bnd_def Let_def)
qed

definition demo_link :: "unit transfer_state payment_call" where
  "demo_link = transfer_call demo_tx_http (\<lambda>_. []) (\<lambda>_ _ _ _. (demo_pays, Delivered))"

lemma demo_link_calls: "transfer_calls exact_decimal (\<lambda>_. ''h'') demo_link"
  unfolding transfer_calls_def demo_link_def
  by (intro exI conjI, rule refl) (simp add: demo_tx_env_def tx_idle)

lemma demo_link_answer:
  "demo_link ''alice'' ''payroll:j:i'' demo_item_command (empty_transfers ()) =
     (Response 201 demo_transfer None None, demo_pay_done)"
proof -
  have "payroll_transfer_of (transfer_response_of exact_decimal demo_done_row) = demo_transfer"
    by (simp add: payroll_transfer_of_def transfer_response_of_def demo_done_row_def demo_row_def demo_transfer_def)
  then show ?thesis
    using demo_pay_create by (simp add: demo_link_def transfer_call_def transfer_reply_def http_reply_def)
qed

lemma demo_link_step:
  "saga_run exact_decimal (\<lambda>_. ''h'') s t \<Longrightarrow>
     saga_run exact_decimal (\<lambda>_. ''h'') s (serve_payroll h (demo_pay_env demo_link) q t)"
  by (intro sg_serve) (simp_all add: sg_idle demo_link_calls demo_pay_env_def)

lemma demo_link_run:
  "saga_run exact_decimal (\<lambda>_. ''h'') (empty_payroll (empty_transfers ())) (demo_paid_state demo_pay_done)"
proof -
  let ?v = "demo_pay_env demo_link" and ?s = "empty_payroll (empty_transfers ())"
  have "submit_route demo_tx_http ?v (Some ''Bearer alice'') ''pay-1'' demo_payroll =
      submit_payroll ?v ''alice'' ''pay-1'' demo_payroll"
    by (rule ext)
      (simp add: submit_route_def validated_def create_payroll_ok_def char_count_def with_principal_def from_request_def
        bearer_token_def trim_def is_space_def principal_pattern_def is_alnum_def is_digit_def
        upper_letter_def is_currency_def decimal_pattern_def Let_def demo_payroll_def demo_tx_http_def)
  then have sent: "serve_payroll demo_tx_http ?v (SubmitPayroll (Some ''Bearer alice'') ''pay-1'' demo_payroll) ?s =
      demo_sent (empty_transfers ())"
    by (simp add: demo_submit)
  have "worker_run ?v 2 ''j'' (demo_sent (empty_transfers ())) = (Inr (Some ()), demo_paid_state demo_pay_done)"
    by (rule demo_worker_run) (rule demo_link_answer)
  then have paid: "serve_payroll demo_tx_http ?v (WorkPayroll 2 ''j'') (demo_sent (empty_transfers ())) =
      demo_paid_state demo_pay_done" by simp
  from demo_link_step [OF sg_idle, of ?s demo_tx_http "SubmitPayroll (Some ''Bearer alice'') ''pay-1'' demo_payroll"]
  have "saga_run exact_decimal (\<lambda>_. ''h'') ?s (demo_sent (empty_transfers ()))" unfolding sent .
  from demo_link_step [OF this, of demo_tx_http "WorkPayroll 2 ''j''"] show ?thesis unfolding paid .
qed

section \<open>The property\<close>

text \<open>
  C24. A completed payroll item was paid, once, by its own completed transfer. In every state that Payroll
  and the Transaction service reach together (other clients transfer in between, any answer may be lost,
  any step interleaved), the transfer that a COMPLETED item names is a row of the Transaction service in
  the status COMPLETED, recorded under the employer and the item's idempotency key with the hash of the
  item's payment (source wallet, recipient, amount, currency); and no other item names that transfer.
\<close>

theorem completed_item_has_its_transfer:
  assumes "saga_run D g (empty_payroll (empty_transfers w)) s"
    and "q \<in> set (items s)" and "pi_status q = ItemCompleted"
  shows "\<exists>j t r. j \<in> set (jobs s) \<and> pj_id j = pi_job q \<and> pi_transfer q = Some (tr_id t) \<and>
    find_row (tr_id t) (others_world s) = Some t \<and> tr_status t = Completed \<and>
    r \<in> set (records (others_world s)) \<and> ir_transfer r = tr_id t \<and>
    ir_client r = trim (pj_employer j) \<and> ir_key r = pi_key q \<and> ir_hash r = payment_hash D g (item_due D j q) \<and>
    \<not> (\<exists>p\<in>set (items s). p \<noteq> q \<and> pi_transfer p = Some (tr_id t))"
proof -
  note inv = saga_run_paid [OF assms(1)]
  have "item_paid (transfer_paid D g) D s q" using inv(2) assms(2,3) by (simp add: paid_ok_def)
  then obtain j t r where j: "j \<in> set (jobs s)" "pj_id j = pi_job q" "pi_transfer q = Some (tr_id t)"
    and t: "claimed D (trim (pj_employer j)) (pi_key q) (others_world s) (t, r)" "tr_status t = Completed"
      "ir_hash r = payment_hash D g (item_due D j q)"
    unfolding item_paid_def transfer_paid_def by blast
  have "r \<in> set (records_of (tr_id t) (others_world s))" using t(1) by (simp add: claimed_def)
  then have r: "r \<in> set (records (others_world s))" "ir_transfer r = tr_id t" by (auto simp: records_of_def)
  have "\<not> (\<exists>p\<in>set (items s). p \<noteq> q \<and> pi_transfer p = Some (tr_id t))"
    using unique_someD [OF payroll_okD(4) [OF inv(1)] _ assms(2) _ j(3) payroll_okD(2) [OF inv(1)]] by blast
  then show ?thesis using j t r by (auto simp: claimed_def)
qed

theorem completed_item_has_its_transfer_witness:
  "demo_paid_item \<in> set (items (demo_paid_state demo_pay_done)) \<and>
   (\<exists>t r. find_row (tr_id t) demo_pay_done = Some t \<and> tr_status t = Completed \<and> r \<in> set (records demo_pay_done) \<and>
     ir_key r = ''payroll:j:i'' \<and> ir_client r = ''alice'')"
proof -
  have q: "demo_paid_item \<in> set (items (demo_paid_state demo_pay_done))" "pi_status demo_paid_item = ItemCompleted"
    by (simp_all add: demo_paid_state_def demo_paid_item_def)
  have alice: "trim ''alice'' = ''alice''" by (simp add: trim_def is_space_def)
  from completed_item_has_its_transfer [OF demo_link_run q] show ?thesis
    using q(1) by (auto simp: demo_paid_state_def demo_paid_item_def demo_item_def demo_paid_job_def demo_job_def alice)
qed

end
