(* ===== verification/IdentityCrypto.thy ===== *)
theory IdentityCrypto
  imports HistoryCursor AuditMetadata
begin

text \<open>
  \<open>IdentityCryptoService\<close> of the Account service (services/account-service/src/identity/
  identity-crypto.service.ts): the key ring in the environment, the normal form and the canonical text of
  an identity, and its encryption under a data key that the active key of the ring wraps.

  Texts are their UTF-8 bytes and a buffer is its bytes, so \<open>Buffer.from\<close> and \<open>toString\<close> are the
  identity. AES-256-GCM, HMAC-SHA256, the random bytes and the Unicode tables of \<open>normalize('NFKC')\<close> and
  \<open>toLowerCase\<close> are parameters.
\<close>

section \<open>Parameters\<close>

text \<open>
  \<open>cl_encrypt key iv plaintext aad\<close> gives the ciphertext and the tag; \<open>cl_decrypt key iv ciphertext tag aad\<close>
  is \<open>None\<close> when the decipher throws.
\<close>

record crypto_lib =
  cl_encrypt :: "string \<Rightarrow> string \<Rightarrow> string \<Rightarrow> string \<Rightarrow> string \<times> string"
  cl_decrypt :: "string \<Rightarrow> string \<Rightarrow> string \<Rightarrow> string \<Rightarrow> string \<Rightarrow> string option"
  cl_hmac :: "string \<Rightarrow> string \<Rightarrow> string"
  cl_nfkc :: "string \<Rightarrow> string"
  cl_lower :: "string \<Rightarrow> string"

text \<open>The variables \<open>IDENTITY_ACTIVE_KEY_VERSION\<close>, \<open>IDENTITY_KEK_RING\<close> and \<open>IDENTITY_LOOKUP_HMAC_KEY\<close>.\<close>

record identity_config =
  ic_active :: "string option"
  ic_ring :: "string option"
  ic_lookup :: "string option"

text \<open>The three calls of \<open>randomBytes\<close> in an encryption.\<close>

record seal_random =
  sr_dek :: string
  sr_iv :: string
  sr_dek_iv :: string

text \<open>
  What is assumed of AES-256-GCM: decryption gives back what was encrypted, it accepts nothing that is not
  an encryption under the same key, IV and additional data, the ciphertext is as long as the plaintext, the
  tag has 16 bytes and an HMAC-SHA256 has 32.
\<close>

definition crypto_lib_ok :: "crypto_lib \<Rightarrow> bool" where
  "crypto_lib_ok L \<longleftrightarrow>
     (\<forall>key iv p aad. cl_decrypt L key iv (fst (cl_encrypt L key iv p aad)) (snd (cl_encrypt L key iv p aad)) aad = Some p \<and>
        length (fst (cl_encrypt L key iv p aad)) = length p \<and> length (snd (cl_encrypt L key iv p aad)) = 16) \<and>
     (\<forall>key iv c t aad p. cl_decrypt L key iv c t aad = Some p \<longrightarrow> cl_encrypt L key iv p aad = (c, t)) \<and>
     (\<forall>key t. length (cl_hmac L key t) = 32)"

section \<open>Trimming\<close>

text \<open>\<open>String.prototype.trim\<close> on UTF-8: the white space and line terminators of ECMAScript.\<close>

definition white_spaces :: "string list" where
  "white_spaces =
     map utf8 ([9, 10, 11, 12, 13, 32, 0xA0, 0x1680, 0x2028, 0x2029, 0x202F, 0x205F, 0x3000, 0xFEFF] @ [0x2000..<0x200B])"

function strip_front :: "string list \<Rightarrow> string \<Rightarrow> string" where
  "strip_front ps t =
     (case List.find (\<lambda>p. p \<noteq> [] \<and> take (length p) t = p) ps of
        None \<Rightarrow> t
      | Some p \<Rightarrow> strip_front ps (drop (length p) t))"
  by pat_completeness auto
termination
proof (relation "measure (\<lambda>(ps, t). length t)")
  fix ps :: "string list" and t p :: string
  assume "List.find (\<lambda>p. p \<noteq> [] \<and> take (length p) t = p) ps = Some p"
  then have "p \<noteq> []" "take (length p) t = p" using find_Some_in by fastforce+
  then show "((ps, drop (length p) t), (ps, t)) \<in> measure (\<lambda>(ps, t). length t)" by (cases t) auto
qed simp

declare strip_front.simps [simp del]

lemma strip_front_none: "List.find (\<lambda>p. p \<noteq> [] \<and> take (length p) t = p) ps = None \<Longrightarrow> strip_front ps t = t"
  by (subst strip_front.simps) simp

lemma strip_front_some:
  "List.find (\<lambda>p. p \<noteq> [] \<and> take (length p) t = p) ps = Some p \<Longrightarrow> strip_front ps t = strip_front ps (drop (length p) t)"
  by (subst strip_front.simps) simp

lemma white_spaces_bytes:
  "white_spaces = map (map char_of)
     [[9], [10], [11], [12], [13], [32], [194, 160], [225, 154, 128], [226, 128, 168], [226, 128, 169],
      [226, 128, 175], [226, 129, 159], [227, 128, 128], [239, 187, 191], [226, 128, 128], [226, 128, 129],
      [226, 128, 130], [226, 128, 131], [226, 128, 132], [226, 128, 133], [226, 128, 134], [226, 128, 135],
      [226, 128, 136], [226, 128, 137], [226, 128, 138 :: nat]]"
  by (simp add: white_spaces_def upt_rec utf8_def)

definition js_trim :: "string \<Rightarrow> string" where
  "js_trim t = rev (strip_front (map rev white_spaces) (rev (strip_front white_spaces t)))"

section \<open>Identities\<close>

record identity_payload =
  ip_name :: "string option"
  ip_email :: "string option"
  ip_phone :: "string option"
  ip_address :: "string option"
  ip_government :: "string option"

definition normalize_optional :: "crypto_lib \<Rightarrow> string option \<Rightarrow> string option" where
  "normalize_optional L value =
     (case value of
        None \<Rightarrow> None
      | Some t \<Rightarrow> let n = js_trim (cl_nfkc L t) in if n = [] then None else Some n)"

definition normalize_email :: "crypto_lib \<Rightarrow> string \<Rightarrow> string" where
  "normalize_email L t = cl_lower L (js_trim (cl_nfkc L t))"

text \<open>\<open>normalizeIdentity\<close>; a missing field of the partial input is \<open>None\<close>, like \<open>null\<close>.\<close>

definition normalize_identity :: "crypto_lib \<Rightarrow> identity_payload \<Rightarrow> identity_payload" where
  "normalize_identity L i =
     \<lparr>ip_name = normalize_optional L (ip_name i),
      ip_email = (if truthy (ip_email i) then map_option (normalize_email L) (ip_email i) else None),
      ip_phone = normalize_optional L (ip_phone i),
      ip_address = normalize_optional L (ip_address i),
      ip_government = normalize_optional L (ip_government i)\<rparr>"

definition no_identity :: identity_payload where
  "no_identity = \<lparr>ip_name = None, ip_email = None, ip_phone = None, ip_address = None, ip_government = None\<rparr>"

definition canonical_identity :: "identity_payload \<Rightarrow> string" where
  "canonical_identity i =
     json_text (JObj
       [(''legalName'', opt_str (ip_name i)), (''email'', opt_str (ip_email i)), (''phone'', opt_str (ip_phone i)),
        (''postalAddress'', opt_str (ip_address i)), (''governmentId'', opt_str (ip_government i))])"

definition identity_keys :: "string list" where
  "identity_keys = [''legalName'', ''email'', ''phone'', ''postalAddress'', ''governmentId'']"

text \<open>\<open>parseIdentity\<close>: a property that is absent is neither \<open>null\<close> nor a string.\<close>

definition text_or_null :: "json option \<Rightarrow> string option option" where
  "text_or_null x = (case x of Some JNull \<Rightarrow> Some None | Some (JStr t) \<Rightarrow> Some (Some t) | _ \<Rightarrow> None)"

definition parse_identity :: "string \<Rightarrow> identity_payload option" where
  "parse_identity plaintext =
     (case json_parse plaintext of
        Some (JObj ms) \<Rightarrow>
          (let get = (\<lambda>k. text_or_null (member k (JObj ms))) in
           if list_ex (\<lambda>(k, _). k \<notin> set identity_keys) ms \<or> list_ex (\<lambda>k. get k = None) identity_keys then None
           else Some \<lparr>ip_name = the (get ''legalName''), ip_email = the (get ''email''), ip_phone = the (get ''phone''),
                      ip_address = the (get ''postalAddress''), ip_government = the (get ''governmentId'')\<rparr>)
      | _ \<Rightarrow> None)"

section \<open>Keys\<close>

definition decode_key :: "string \<Rightarrow> string \<Rightarrow> failure + string" where
  "decode_key encoded name =
     (let key = from_base64 encoded in
      if length key \<noteq> 32 \<or> base64 key \<noteq> encoded
      then Inl (PlainError (name @ '' must be canonical base64 for exactly 32 bytes.'')) else Inr key)"

text \<open>\<open>^[A-Za-z0-9._-]{1,40}$\<close>\<close>

definition key_version_ok :: "string \<Rightarrow> bool" where
  "key_version_ok t \<longleftrightarrow> t \<noteq> [] \<and> length t \<le> 40 \<and> list_all (\<lambda>c. is_alnum c \<or> c \<in> set ''._-'') t"

text \<open>\<open>Object.entries\<close> of a parsed object: the last of several equal keys counts.\<close>

definition object_entries :: "(string \<times> json) list \<Rightarrow> (string \<times> json) list" where
  "object_entries ms = map (\<lambda>k. (k, the (map_of (rev ms) k))) (remdups (map fst ms))"

primrec read_ring :: "(string \<times> json) list \<Rightarrow> failure + (string \<times> string) list" where
  "read_ring [] = Inr []"
| "read_ring (e # es) =
     (case e of
        (version, JStr encoded) \<Rightarrow>
          if \<not> key_version_ok version then Inl (PlainError ''IDENTITY_KEK_RING contains an invalid entry.'')
          else (case decode_key encoded (''IDENTITY_KEK_RING.'' @ version) of
              Inl x \<Rightarrow> Inl x
            | Inr key \<Rightarrow> map_sum id (Cons (version, key)) (read_ring es))
      | _ \<Rightarrow> Inl (PlainError ''IDENTITY_KEK_RING contains an invalid entry.''))"

record key_configuration =
  kc_active :: string
  kc_keys :: "(string \<times> string) list"
  kc_lookup :: string

definition load_keys :: "identity_config \<Rightarrow> failure + key_configuration" where
  "load_keys C =
     (if \<not> truthy (ic_active C) \<or> \<not> truthy (ic_ring C) \<or> \<not> truthy (ic_lookup C)
      then Inl (PlainError ''Identity encryption configuration is required.'')
      else case json_parse (the (ic_ring C)) of
          None \<Rightarrow> Inl (PlainError ''IDENTITY_KEK_RING must be valid JSON.'')
        | Some (JObj ms) \<Rightarrow>
            (case read_ring (object_entries ms) of
               Inl x \<Rightarrow> Inl x
             | Inr keys \<Rightarrow>
                 if map_of keys (the (ic_active C)) = None
                 then Inl (PlainError ''The active identity key version is absent from IDENTITY_KEK_RING.'')
                 else map_sum id (\<lambda>lookup. \<lparr>kc_active = the (ic_active C), kc_keys = keys, kc_lookup = lookup\<rparr>)
                        (decode_key (the (ic_lookup C)) ''IDENTITY_LOOKUP_HMAC_KEY''))
        | Some _ \<Rightarrow> Inl (PlainError ''IDENTITY_KEK_RING must be a key map.''))"

section \<open>Encryption\<close>

record sealed_identity =
  si_ciphertext :: string
  si_iv :: string
  si_tag :: string
  si_dek :: string
  si_dek_iv :: string
  si_dek_tag :: string
  si_version :: string
  si_email :: "string option"

definition identity_decryption_failed :: failure where
  "identity_decryption_failed =
     http_failure 500 ''IDENTITY_DECRYPTION_FAILED'' ''The encrypted identity could not be authenticated.''"

definition identity_aad :: "uuid \<Rightarrow> string" where
  "identity_aad user = ''novapay:user-identity:v1:'' @ user"

definition dek_aad :: "uuid \<Rightarrow> string \<Rightarrow> string" where
  "dek_aad user version = ''novapay:user-dek:v1:'' @ user @ '':'' @ version"

definition encrypt_identity ::
  "crypto_lib \<Rightarrow> identity_config \<Rightarrow> seal_random \<Rightarrow> uuid \<Rightarrow> identity_payload \<Rightarrow> failure + sealed_identity" where
  "encrypt_identity L C r user input =
     (let payload = normalize_identity L input in
      case load_keys C of
        Inl x \<Rightarrow> Inl x
      | Inr K \<Rightarrow>
          let (ciphertext, tag) = cl_encrypt L (sr_dek r) (sr_iv r) (canonical_identity payload) (identity_aad user);
              (wrapped, dek_tag) = cl_encrypt L (the (map_of (kc_keys K) (kc_active K))) (sr_dek_iv r) (sr_dek r)
                (dek_aad user (kc_active K))
          in Inr \<lparr>si_ciphertext = ciphertext, si_iv = sr_iv r, si_tag = tag, si_dek = wrapped,
                  si_dek_iv = sr_dek_iv r, si_dek_tag = dek_tag, si_version = kc_active K,
                  si_email = (if truthy (ip_email payload) then map_option (cl_hmac L (kc_lookup K)) (ip_email payload) else None)\<rparr>)"

text \<open>The data key of a row; \<open>None\<close> when its wrapping is not authentic.\<close>

definition unwrap_dek :: "crypto_lib \<Rightarrow> string \<Rightarrow> uuid \<Rightarrow> sealed_identity \<Rightarrow> string option" where
  "unwrap_dek L kek user e = cl_decrypt L kek (si_dek_iv e) (si_dek e) (si_dek_tag e) (dek_aad user (si_version e))"

definition open_identity :: "crypto_lib \<Rightarrow> string \<Rightarrow> uuid \<Rightarrow> sealed_identity \<Rightarrow> identity_payload option" where
  "open_identity L dek user e =
     Option.bind (cl_decrypt L dek (si_iv e) (si_ciphertext e) (si_tag e) (identity_aad user)) parse_identity"

definition decrypt_identity ::
  "crypto_lib \<Rightarrow> identity_config \<Rightarrow> uuid \<Rightarrow> sealed_identity \<Rightarrow> failure + identity_payload" where
  "decrypt_identity L C user e =
     (if si_ciphertext e = [] then Inr (normalize_identity L no_identity)
      else case load_keys C of
          Inl x \<Rightarrow> Inl x
        | Inr K \<Rightarrow>
            (case map_of (kc_keys K) (si_version e) of
               None \<Rightarrow> Inl identity_decryption_failed
             | Some kek \<Rightarrow>
                 (case Option.bind (unwrap_dek L kek user e) (\<lambda>dek. open_identity L dek user e) of
                    None \<Rightarrow> Inl identity_decryption_failed
                  | Some payload \<Rightarrow> Inr payload)))"

text \<open>\<open>rewrapDek\<close>: the fields it returns are those of the wrapped data key.\<close>

record wrapped_dek =
  wd_dek :: string
  wd_iv :: string
  wd_tag :: string
  wd_version :: string

definition rewrap_dek ::
  "crypto_lib \<Rightarrow> identity_config \<Rightarrow> string \<Rightarrow> uuid \<Rightarrow> sealed_identity \<Rightarrow> failure + wrapped_dek" where
  "rewrap_dek L C iv user e =
     (case load_keys C of
        Inl x \<Rightarrow> Inl x
      | Inr K \<Rightarrow>
          (case (map_of (kc_keys K) (si_version e), map_of (kc_keys K) (kc_active K)) of
             (Some old, Some new) \<Rightarrow>
               (case unwrap_dek L old user e of
                  None \<Rightarrow> Inl identity_decryption_failed
                | Some dek \<Rightarrow>
                    let (wrapped, tag) = cl_encrypt L new iv dek (dek_aad user (kc_active K))
                    in Inr \<lparr>wd_dek = wrapped, wd_iv = iv, wd_tag = tag, wd_version = kc_active K\<rparr>)
           | _ \<Rightarrow> Inl identity_decryption_failed))"

definition with_dek :: "wrapped_dek \<Rightarrow> sealed_identity \<Rightarrow> sealed_identity" where
  "with_dek w e = e\<lparr>si_dek := wd_dek w, si_dek_iv := wd_iv w, si_dek_tag := wd_tag w, si_version := wd_version w\<rparr>"

definition email_digest :: "crypto_lib \<Rightarrow> identity_config \<Rightarrow> string \<Rightarrow> failure + string" where
  "email_digest L C email = map_sum id (\<lambda>K. cl_hmac L (kc_lookup K) (normalize_email L email)) (load_keys C)"

end
