(* ===== verification/AccountModel.thy ===== *)
theory AccountModel
  imports IdentityCrypto AuditChain LedgerModel
begin

text \<open>
  The state of the Account service (services/account-service): the tables \<open>users\<close>, \<open>wallets\<close> and
  \<open>wallet_idempotency_records\<close> of its three migrations with their checks and unique indexes, its DTOs and
  the environment of a request. \<open>'w\<close> is the world outside, which the calls of the Ledger and of the Admin
  service may change. Rows are never deleted.
\<close>

section \<open>Rows\<close>

datatype user_status = UserPending | UserActive | UserSuspended | UserClosed
datatype wallet_status = WalletPending | WalletActive | WalletFrozen | WalletClosed

record user =
  us_id :: uuid
  us_external :: string
  us_sealed :: sealed_identity
  us_status :: user_status
  us_updated :: instant

record wallet =
  wl_id :: uuid
  wl_user :: uuid
  wl_currency :: string
  wl_label :: "string option"
  wl_status :: wallet_status
  wl_ledger :: "uuid option"
  wl_created :: instant
  wl_updated :: instant

record wallet_key =
  wk_user :: uuid
  wk_key :: string
  wk_hash :: string
  wk_wallet :: uuid

record 'w account_state =
  users :: "user list"
  wallets :: "wallet list"
  wallet_keys :: "wallet_key list"
  account_world :: 'w

definition user_check :: "user \<Rightarrow> bool" where
  "user_check u \<longleftrightarrow>
     length (si_iv (us_sealed u)) \<in> {0, 12} \<and> length (si_tag (us_sealed u)) \<in> {0, 16} \<and>
     length (si_dek_iv (us_sealed u)) \<in> {0, 12} \<and> length (si_dek_tag (us_sealed u)) \<in> {0, 16} \<and>
     length (si_dek (us_sealed u)) \<in> {0, 32} \<and>
     (case si_email (us_sealed u) of None \<Rightarrow> True | Some h \<Rightarrow> length h = 32) \<and>
     char_count (us_external u) \<le> 100 \<and> char_count (si_version (us_sealed u)) \<le> 40"

definition wallet_check :: "wallet \<Rightarrow> bool" where
  "wallet_check w \<longleftrightarrow>
     is_currency (wl_currency w) \<and> (case wl_label w of None \<Rightarrow> True | Some t \<Rightarrow> char_count t \<le> 80)"

section \<open>Row operations\<close>

definition user_email :: "user \<Rightarrow> string option" where
  "user_email u = si_email (us_sealed u)"

definition find_user :: "uuid \<Rightarrow> 'w account_state \<Rightarrow> user option" where
  "find_user i s = List.find (\<lambda>u. us_id u = i) (users s)"

definition find_external :: "string \<Rightarrow> 'w account_state \<Rightarrow> user option" where
  "find_external e s = List.find (\<lambda>u. us_external u = e) (users s)"

definition find_wallet :: "uuid \<Rightarrow> 'w account_state \<Rightarrow> wallet option" where
  "find_wallet i s = List.find (\<lambda>w. wl_id w = i) (wallets s)"

definition create_user :: "user \<Rightarrow> ('w account_state, user) act" where
  "create_user u s =
     (if \<not> user_check u then (Inl (DbError DbCheck), s)
      else if key_taken us_id (us_id u) (users s) \<or> key_taken us_external (us_external u) (users s) \<or>
              (user_email u \<noteq> None \<and> key_taken user_email (user_email u) (users s))
      then (Inl (DbError P2002), s)
      else (Inr u, s\<lparr>users := users s @ [u]\<rparr>))"

text \<open>\<open>update\<close> of one row by its identifier; the changed row is the result and \<open>@updatedAt\<close> sets its time.\<close>

definition update_user :: "instant \<Rightarrow> uuid \<Rightarrow> (sealed_identity \<Rightarrow> sealed_identity) \<Rightarrow> ('w account_state, user) act" where
  "update_user now i f s =
     (case find_user i s of
        None \<Rightarrow> (Inl (DbError P2025), s)
      | Some u \<Rightarrow>
          let row = u\<lparr>us_sealed := f (us_sealed u), us_updated := now\<rparr>;
              rows = update_where (\<lambda>q. us_id q = i) (\<lambda>_. row) (users s) in
          if \<not> user_check row then (Inl (DbError DbCheck), s)
          else if \<not> unique_some user_email rows then (Inl (DbError P2002), s)
          else (Inr row, s\<lparr>users := rows\<rparr>))"

definition create_wallet_row :: "wallet \<Rightarrow> ('w account_state, wallet) act" where
  "create_wallet_row w s =
     (if \<not> wallet_check w \<or> \<not> key_taken us_id (wl_user w) (users s) then (Inl (DbError DbCheck), s)
      else if key_taken wl_id (wl_id w) (wallets s) \<or>
              key_taken (\<lambda>q. (wl_user q, wl_currency q)) (wl_user w, wl_currency w) (wallets s) \<or>
              (wl_ledger w \<noteq> None \<and> key_taken wl_ledger (wl_ledger w) (wallets s))
      then (Inl (DbError P2002), s)
      else (Inr w, s\<lparr>wallets := wallets s @ [w]\<rparr>))"

definition create_wallet_key :: "wallet_key \<Rightarrow> ('w account_state, unit) act" where
  "create_wallet_key r s =
     (if 128 < length (wk_key r) \<or> \<not> key_taken us_id (wk_user r) (users s) \<or> \<not> key_taken wl_id (wk_wallet r) (wallets s)
      then (Inl (DbError DbCheck), s)
      else if key_taken (\<lambda>q. (wk_user q, wk_key q)) (wk_user r, wk_key r) (wallet_keys s) \<or>
              key_taken wk_wallet (wk_wallet r) (wallet_keys s)
      then (Inl (DbError P2002), s)
      else (Inr (), s\<lparr>wallet_keys := wallet_keys s @ [r]\<rparr>))"

definition update_wallet :: "instant \<Rightarrow> uuid \<Rightarrow> (wallet \<Rightarrow> wallet) \<Rightarrow> ('w account_state, wallet) act" where
  "update_wallet now i f s =
     (case find_wallet i s of
        None \<Rightarrow> (Inl (DbError P2025), s)
      | Some w \<Rightarrow>
          let row = (f w)\<lparr>wl_updated := now\<rparr>;
              rows = update_where (\<lambda>q. wl_id q = i) (\<lambda>_. row) (wallets s) in
          if \<not> unique_some wl_ledger rows then (Inl (DbError P2002), s)
          else (Inr row, s\<lparr>wallets := rows\<rparr>))"

section \<open>Requests\<close>

record create_wallet_dto =
  cw_currency :: string
  cw_label :: "string option"

definition create_wallet_ok :: "create_wallet_dto \<Rightarrow> bool" where
  "create_wallet_ok c \<longleftrightarrow>
     is_currency (cw_currency c) \<and>
     (case cw_label c of None \<Rightarrow> True | Some t \<Rightarrow> 1 \<le> char_count t \<and> char_count t \<le> 80)"

text \<open>\<open>UpdateUserIdentityDto\<close>; \<open>is_email\<close> is class-validator's \<open>IsEmail\<close>.\<close>

definition update_identity_ok :: "(string \<Rightarrow> bool) \<Rightarrow> identity_payload \<Rightarrow> bool" where
  "update_identity_ok is_email i \<longleftrightarrow>
     (case ip_name i of None \<Rightarrow> False | Some t \<Rightarrow> 1 \<le> char_count t \<and> char_count t \<le> 160) \<and>
     (case ip_email i of None \<Rightarrow> False | Some t \<Rightarrow> is_email t \<and> char_count t \<le> 254) \<and>
     (case ip_phone i of None \<Rightarrow> True | Some t \<Rightarrow> char_count t \<le> 40) \<and>
     (case ip_address i of None \<Rightarrow> True | Some t \<Rightarrow> char_count t \<le> 500) \<and>
     (case ip_government i of None \<Rightarrow> True | Some t \<Rightarrow> char_count t \<le> 100)"

record identity_response =
  ir_user :: uuid
  ir_external :: string
  ir_identity :: identity_payload

record wallet_response =
  wr_id :: uuid
  wr_currency :: string
  wr_label :: "string option"
  wr_status :: wallet_status
  wr_ledger :: "uuid option"
  wr_balance :: "(string \<times> string \<times> int) option"  \<comment> \<open>available, currency, version\<close>

record owner_view =
  ov_wallet :: uuid
  ov_user :: uuid
  ov_owner :: string
  ov_currency :: string
  ov_status :: wallet_status
  ov_ledger :: "uuid option"

text \<open>
  The environment: \<open>nv_others k\<close> is what other requests do at the await numbered \<open>k\<close>, \<open>nv_random k\<close> the
  random bytes of the encryption numbered \<open>k\<close>. A response whose body is not JSON counts as no response.
\<close>

record 'w account_env =
  nv_crypto :: crypto_lib
  nv_config :: identity_config
  nv_digest :: "json \<Rightarrow> string"
  nv_sha256 :: "string \<Rightarrow> string"
  nv_random :: "nat \<Rightarrow> seal_random"
  nv_rewrap_iv :: "uuid \<Rightarrow> string"
  nv_others :: "nat \<Rightarrow> 'w account_state \<Rightarrow> 'w account_state"
  nv_now :: "nat \<Rightarrow> instant"
  nv_user_id :: uuid
  nv_wallet_id :: uuid
  nv_token :: "string option"
  nv_ledger_url :: "string option"
  nv_admin_url :: "string option"
  nv_provision :: "uuid \<Rightarrow> string \<Rightarrow> 'w \<Rightarrow> balance_response fetched \<times> 'w"
  nv_balance :: "uuid \<Rightarrow> 'w \<Rightarrow> balance_response fetched \<times> 'w"
  nv_balances :: "uuid list \<Rightarrow> 'w \<Rightarrow> balance_response list fetched \<times> 'w"
  nv_append :: "append_event_dto \<Rightarrow> 'w \<Rightarrow> unit fetched \<times> 'w"

end
