(* ===== verification/AccountService.thy ===== *)
theory AccountService
  imports AccountModel
begin

text \<open>
  \<open>IdentityService\<close>, the re-wrapping script, \<open>WalletService\<close>, the clients of the Ledger and of the Admin
  service and the controllers (services/account-service/src/identity, src/wallets, src/audit).
\<close>

section \<open>Errors\<close>

definition email_already_exists :: failure where
  "email_already_exists =
     http_failure 409 ''EMAIL_ALREADY_EXISTS'' ''The normalized email is already assigned to another user.''"

definition identity_not_found :: failure where
  "identity_not_found = http_failure 404 ''USER_IDENTITY_NOT_FOUND'' ''User identity not found.''"

definition audit_unavailable :: failure where
  "audit_unavailable =
     http_failure 503 ''AUDIT_UNAVAILABLE'' ''The required audit event could not be recorded.''"

definition ledger_not_configured :: failure where
  "ledger_not_configured = http_failure 503 ''LEDGER_UNAVAILABLE'' ''Ledger service is not configured.''"

definition ledger_unavailable :: failure where
  "ledger_unavailable = http_failure 503 ''LEDGER_UNAVAILABLE'' ''Ledger service is temporarily unavailable.''"

definition invalid_wallet_key :: failure where
  "invalid_wallet_key =
     http_failure 409 ''INVALID_IDEMPOTENCY_KEY'' ''Idempotency-Key must contain 1 to 128 visible ASCII characters.''"

definition wallet_key_mismatch :: failure where
  "wallet_key_mismatch =
     http_failure 409 ''IDEMPOTENCY_KEY_REUSED'' ''The idempotency key was already used with a different request.''"

definition wallet_already_exists :: failure where
  "wallet_already_exists = http_failure 409 ''WALLET_ALREADY_EXISTS'' ''A wallet already exists for this currency.''"

definition wallet_not_found :: failure where
  "wallet_not_found = http_failure 404 ''WALLET_NOT_FOUND'' ''Wallet not found.''"

section \<open>Clients\<close>

text \<open>\<open>LedgerClient.request\<close>.\<close>

definition ledger_answer :: "'a fetched \<Rightarrow> failure + 'a" where
  "ledger_answer r =
     (case r of
        NoResponse \<Rightarrow> Inl ledger_unavailable
      | Response status body code msg \<Rightarrow>
          if 200 \<le> status \<and> status \<le> 299 then Inr body
          else if status = 409
          then Inl (http_failure 409 (case code of Some c \<Rightarrow> c | None \<Rightarrow> ''LEDGER_CONFLICT'')
            (case msg of Some m \<Rightarrow> m | None \<Rightarrow> ''Ledger request conflicts with current state.''))
          else Inl ledger_unavailable)"

definition ledger_request :: "'w account_env \<Rightarrow> ('w \<Rightarrow> 'a fetched \<times> 'w) \<Rightarrow> ('w account_state, 'a) act" where
  "ledger_request v send s =
     (if \<not> truthy (nv_ledger_url v) \<or> \<not> truthy (nv_token v) then (Inl ledger_not_configured, s)
      else let (r, w) = send (account_world s) in (ledger_answer r, s\<lparr>account_world := w\<rparr>))"

text \<open>\<open>new Map\<close> of the balances by wallet: a later one of the same wallet counts.\<close>

definition wallet_balances ::
  "'w account_env \<Rightarrow> uuid list \<Rightarrow> ('w account_state, uuid \<Rightarrow> balance_response option) act" where
  "wallet_balances v ids =
     (if ids = [] then ret (\<lambda>_. None)
      else bnd (ledger_request v (nv_balances v ids)) (\<lambda>bs. ret (map_of (rev (map (\<lambda>b. (br_wallet b, b)) bs)))))"

text \<open>\<open>AuditClient.append\<close>.\<close>

definition append_audit :: "'w account_env \<Rightarrow> append_event_dto \<Rightarrow> ('w account_state, unit) act" where
  "append_audit v c s =
     (if \<not> truthy (nv_admin_url v) \<or> \<not> truthy (nv_token v) then (Inl audit_unavailable, s)
      else let (r, w) = nv_append v c (account_world s)
           in (case r of
                 NoResponse \<Rightarrow> Inl audit_unavailable
               | Response status _ _ _ \<Rightarrow> if 200 \<le> status \<and> status \<le> 299 then Inr () else Inl audit_unavailable,
               s\<lparr>account_world := w\<rparr>))"

definition identity_event :: "(string \<Rightarrow> string) \<Rightarrow> uuid \<Rightarrow> string \<Rightarrow> string \<Rightarrow> instant \<Rightarrow> append_event_dto" where
  "identity_event sha user actor canonical occurred =
     \<lparr>ae_event = deterministic_uuid sha (''identity.updated'' @ [CHR 0x00] @ user @ [CHR 0x00] @ canonical),
      ae_stream = ''user:'' @ user, ae_action = ''user.identity.updated'', ae_entity_type = ''user'',
      ae_entity = user, ae_actor = Some actor, ae_occurred = iso_text occurred,
      ae_metadata = Some [(''schemaVersion'', JStr ''v1'')]\<rparr>"

definition activation_event :: "(string \<Rightarrow> string) \<Rightarrow> uuid \<Rightarrow> string \<Rightarrow> string \<Rightarrow> instant \<Rightarrow> append_event_dto" where
  "activation_event sha wallet actor cur occurred =
     \<lparr>ae_event = deterministic_uuid sha (''wallet.activated'' @ [CHR 0x00] @ wallet),
      ae_stream = ''wallet:'' @ wallet, ae_action = ''wallet.activated'', ae_entity_type = ''wallet'',
      ae_entity = wallet, ae_actor = Some actor, ae_occurred = iso_text occurred,
      ae_metadata = Some [(''currency'', JStr cur)]\<rparr>"

section \<open>Identities\<close>

text \<open>An encryption that throws does so before the row is written.\<close>

definition sealed :: "'w account_env \<Rightarrow> nat \<Rightarrow> uuid \<Rightarrow> identity_payload \<Rightarrow> ('w account_state, sealed_identity) act" where
  "sealed v k i input s = (encrypt_identity (nv_crypto v) (nv_config v) (nv_random v k) i input, s)"

definition opened :: "'w account_env \<Rightarrow> user \<Rightarrow> ('w account_state, identity_payload) act" where
  "opened v u s = (decrypt_identity (nv_crypto v) (nv_config v) (us_id u) (us_sealed u), s)"

definition ensure_user :: "'w account_env \<Rightarrow> string \<Rightarrow> ('w account_state, user) act" where
  "ensure_user v external =
     bnd (gets (find_external external)) (\<lambda>existing.
     bnd (pause (nv_others v 0)) (\<lambda>_.
     case existing of
       Some u \<Rightarrow>
         if si_ciphertext (us_sealed u) = []
         then bnd (sealed v 0 (us_id u) no_identity) (\<lambda>e. update_user (nv_now v 0) (us_id u) (\<lambda>_. e))
         else ret u
     | None \<Rightarrow>
         catch
           (bnd (sealed v 0 (nv_user_id v) no_identity) (\<lambda>e.
            create_user \<lparr>us_id = nv_user_id v, us_external = external, us_sealed = e, us_status = UserActive,
              us_updated = nv_now v 0\<rparr>))
           (\<lambda>x. if is_unique_violation x
                then bnd (pause (nv_others v 1)) (\<lambda>_.
                     bnd (gets (find_external external)) (\<lambda>winner.
                     case winner of Some u \<Rightarrow> ret u | None \<Rightarrow> throw (DbError P2025)))
                else throw x)))"

definition identity_response_of :: "user \<Rightarrow> identity_payload \<Rightarrow> identity_response" where
  "identity_response_of u p = \<lparr>ir_user = us_id u, ir_external = us_external u, ir_identity = p\<rparr>"

definition update_identity ::
  "'w account_env \<Rightarrow> string \<Rightarrow> identity_payload \<Rightarrow> ('w account_state, identity_response) act" where
  "update_identity v external input =
     bnd (ensure_user v external) (\<lambda>u.
     let normalized = normalize_identity (nv_crypto v) input; canonical = canonical_identity normalized in
     bnd (opened v u) (\<lambda>existing.
     bnd (if canonical_identity existing \<noteq> canonical
          then bnd (pause (nv_others v 2)) (\<lambda>_.
               catch (bnd (sealed v 1 (us_id u) normalized) (\<lambda>e. update_user (nv_now v 1) (us_id u) (\<lambda>_. e)))
                 (\<lambda>x. throw (if is_unique_violation x then email_already_exists else x)))
          else ret u) (\<lambda>updated.
     bnd (pause (nv_others v 3)) (\<lambda>_.
     bnd (append_audit v (identity_event (nv_sha256 v) (us_id u) external canonical (us_updated updated))) (\<lambda>_.
     bnd (opened v updated) (\<lambda>p.
     ret (identity_response_of updated p)))))))"

definition get_identity :: "'w account_env \<Rightarrow> string \<Rightarrow> ('w account_state, identity_response) act" where
  "get_identity v external =
     bnd (gets (find_external external)) (\<lambda>found.
     case found of
       None \<Rightarrow> throw identity_not_found
     | Some u \<Rightarrow> bnd (opened v u) (\<lambda>p. ret (identity_response_of u p)))"

definition lookup_email :: "'w account_env \<Rightarrow> string \<Rightarrow> ('w account_state, uuid \<times> string \<times> user_status) act" where
  "lookup_email v email =
     (case email_digest (nv_crypto v) (nv_config v) email of
        Inl x \<Rightarrow> throw x
      | Inr h \<Rightarrow>
          bnd (gets (\<lambda>s. List.find (\<lambda>u. user_email u = Some h) (users s))) (\<lambda>found.
          case found of
            None \<Rightarrow> throw identity_not_found
          | Some u \<Rightarrow> ret (us_id u, us_external u, us_status u)))"

text \<open>The script \<open>rewrap\<close>: its rows were read at the start; the result counts the re-wrapped ones.\<close>

definition rewrap_user :: "'w account_env \<Rightarrow> user \<Rightarrow> ('w account_state, bool) act" where
  "rewrap_user v u =
     (if si_ciphertext (us_sealed u) = [] then ret False
      else case rewrap_dek (nv_crypto v) (nv_config v) (nv_rewrap_iv v (us_id u)) (us_id u) (us_sealed u) of
          Inl x \<Rightarrow> throw x
        | Inr w \<Rightarrow>
            if wd_version w = si_version (us_sealed u) then ret False
            else bnd (update_user (nv_now v 4) (us_id u) (with_dek w)) (\<lambda>_. ret True))"

definition rewrap_users :: "'w account_env \<Rightarrow> ('w account_state, nat) act" where
  "rewrap_users v =
     bnd (gets users) (\<lambda>us.
     bnd (each (\<lambda>u. bnd (pause (nv_others v 4)) (\<lambda>_. rewrap_user v u)) us) (\<lambda>changed.
     ret (length (filter id changed))))"

section \<open>Wallets\<close>

definition wallet_hash :: "'w account_env \<Rightarrow> create_wallet_dto \<Rightarrow> string" where
  "wallet_hash v c =
     nv_digest v (JObj [(''currency'', JStr (cw_currency c)), (''label'', opt_str (map_option js_trim (cw_label c)))])"

definition find_wallet_key :: "uuid \<Rightarrow> string \<Rightarrow> 'w account_state \<Rightarrow> (wallet_key \<times> wallet) option" where
  "find_wallet_key user key s =
     (case List.find (\<lambda>r. (wk_user r, wk_key r) = (user, key)) (wallet_keys s) of
        None \<Rightarrow> None
      | Some r \<Rightarrow> map_option (Pair r) (find_wallet (wk_wallet r) s))"

definition find_user_currency :: "uuid \<Rightarrow> string \<Rightarrow> 'w account_state \<Rightarrow> wallet option" where
  "find_user_currency user cur s = List.find (\<lambda>w. (wl_user w, wl_currency w) = (user, cur)) (wallets s)"

definition insert_wallet ::
  "'w account_env \<Rightarrow> uuid \<Rightarrow> string \<Rightarrow> string \<Rightarrow> create_wallet_dto \<Rightarrow> ('w account_state, wallet) act" where
  "insert_wallet v user key hash c =
     bnd (create_wallet_row \<lparr>wl_id = nv_wallet_id v, wl_user = user, wl_currency = cw_currency c,
            wl_label = map_option js_trim (cw_label c), wl_status = WalletPending, wl_ledger = None,
            wl_created = nv_now v 2, wl_updated = nv_now v 2\<rparr>) (\<lambda>created.
     bnd (create_wallet_key \<lparr>wk_user = user, wk_key = key, wk_hash = hash, wk_wallet = wl_id created\<rparr>) (\<lambda>_.
     ret created))"

definition claim_wallet ::
  "'w account_env \<Rightarrow> uuid \<Rightarrow> string \<Rightarrow> string \<Rightarrow> create_wallet_dto \<Rightarrow> ('w account_state, wallet) act" where
  "claim_wallet v user key hash c =
     bnd (gets (find_wallet_key user key)) (\<lambda>existing.
     case existing of
       Some (r, w) \<Rightarrow> bnd (ensure (wk_hash r = hash) wallet_key_mismatch) (\<lambda>_. ret w)
     | None \<Rightarrow>
         bnd (pause (nv_others v 5)) (\<lambda>_.
         bnd (gets (find_user_currency user (cw_currency c))) (\<lambda>same.
         bnd (ensure (same = None) wallet_already_exists) (\<lambda>_.
         bnd (pause (nv_others v 6)) (\<lambda>_.
         catch (transaction (\<lambda>_. True) (insert_wallet v user key hash c))
           (\<lambda>x. if \<not> is_unique_violation x then throw x
                else
                  bnd (pause (nv_others v 7)) (\<lambda>_.
                  bnd (gets (find_wallet_key user key)) (\<lambda>winner.
                  case winner of
                    None \<Rightarrow> throw wallet_already_exists
                  | Some (r, w) \<Rightarrow> bnd (ensure (wk_hash r = hash) wallet_key_mismatch) (\<lambda>_. ret w)))))))))"

definition wallet_response_of :: "wallet \<Rightarrow> balance_response option \<Rightarrow> wallet_response" where
  "wallet_response_of w b =
     \<lparr>wr_id = wl_id w, wr_currency = wl_currency w, wr_label = wl_label w, wr_status = wl_status w,
      wr_ledger = wl_ledger w,
      wr_balance = map_option (\<lambda>b. (br_available b, br_currency b, br_version b)) b\<rparr>"

definition activate_wallet :: "'w account_env \<Rightarrow> wallet \<Rightarrow> balance_response \<Rightarrow> ('w account_state, wallet) act" where
  "activate_wallet v w p =
     update_wallet (nv_now v 3) (wl_id w) (\<lambda>q. q\<lparr>wl_ledger := Some (br_account p), wl_status := WalletActive\<rparr>)"

definition create_wallet ::
  "'w account_env \<Rightarrow> string \<Rightarrow> string \<Rightarrow> create_wallet_dto \<Rightarrow> ('w account_state, wallet_response) act" where
  "create_wallet v external key c =
     bnd (ensure (visible_key key) invalid_wallet_key) (\<lambda>_.
     let hash = wallet_hash v c in
     bnd (ensure_user v external) (\<lambda>u.
     bnd (pause (nv_others v 8)) (\<lambda>_.
     bnd (claim_wallet v (us_id u) key hash c) (\<lambda>w.
     bnd (pause (nv_others v 9)) (\<lambda>_.
     bnd (ledger_request v (nv_provision v (wl_id w) (wl_currency w))) (\<lambda>p.
     bnd (pause (nv_others v 10)) (\<lambda>_.
     bnd (if wl_status w = WalletActive \<and> wl_ledger w = Some (br_account p) then ret w else activate_wallet v w p) (\<lambda>active.
     bnd (pause (nv_others v 11)) (\<lambda>_.
     bnd (append_audit v (activation_event (nv_sha256 v) (wl_id active) external (wl_currency active) (wl_updated active))) (\<lambda>_.
     ret (wallet_response_of active (Some p))))))))))))"

definition list_wallets :: "'w account_env \<Rightarrow> string \<Rightarrow> ('w account_state, wallet_response list) act" where
  "list_wallets v external =
     bnd (ensure_user v external) (\<lambda>u.
     bnd (pause (nv_others v 8)) (\<lambda>_.
     bnd (gets (\<lambda>s. sort_key wl_created (sort_key wl_id (filter (\<lambda>w. wl_user w = us_id u) (wallets s))))) (\<lambda>ws.
     bnd (pause (nv_others v 9)) (\<lambda>_.
     bnd (wallet_balances v (map wl_id (filter (\<lambda>w. wl_ledger w \<noteq> None) ws))) (\<lambda>bal.
     ret (map (\<lambda>w. wallet_response_of w (bal (wl_id w))) ws))))))"

definition wallet_balance_of :: "'w account_env \<Rightarrow> string \<Rightarrow> uuid \<Rightarrow> ('w account_state, balance_response) act" where
  "wallet_balance_of v external i =
     bnd (ensure_user v external) (\<lambda>u.
     bnd (pause (nv_others v 8)) (\<lambda>_.
     bnd (gets (\<lambda>s. List.find (\<lambda>w. wl_id w = i \<and> wl_user w = us_id u) (wallets s))) (\<lambda>found.
     case found of
       None \<Rightarrow> throw wallet_not_found
     | Some w \<Rightarrow>
         bnd (ensure (truthy (wl_ledger w)) wallet_not_found) (\<lambda>_.
         bnd (pause (nv_others v 9)) (\<lambda>_.
         ledger_request v (nv_balance v (wl_id w)))))))"

definition owner_view_of :: "uuid \<Rightarrow> ('w account_state, owner_view) act" where
  "owner_view_of i =
     bnd (gets (\<lambda>s. Option.bind (find_wallet i s) (\<lambda>w. map_option (Pair w) (find_user (wl_user w) s)))) (\<lambda>found.
     case found of
       None \<Rightarrow> throw wallet_not_found
     | Some (w, u) \<Rightarrow> ret
         \<lparr>ov_wallet = wl_id w, ov_user = wl_user w, ov_owner = us_external u, ov_currency = wl_currency w,
          ov_status = wl_status w, ov_ledger = wl_ledger w\<rparr>)"

definition reconcile_wallet :: "'w account_env \<Rightarrow> uuid \<Rightarrow> ('w account_state, wallet_response) act" where
  "reconcile_wallet v i =
     bnd (gets (find_wallet i)) (\<lambda>found.
     case found of
       None \<Rightarrow> throw wallet_not_found
     | Some w \<Rightarrow>
         bnd (pause (nv_others v 9)) (\<lambda>_.
         bnd (ledger_request v (nv_provision v (wl_id w) (wl_currency w))) (\<lambda>p.
         bnd (pause (nv_others v 10)) (\<lambda>_.
         bnd (activate_wallet v w p) (\<lambda>active.
         ret (wallet_response_of active (Some p)))))))"

section \<open>Routes\<close>

record account_http =
  nh_is_uuid :: "string \<Rightarrow> bool"
  nh_is_email :: "string \<Rightarrow> bool"
  nh_token :: "string option"
  nh_supplied :: "string option"

definition create_wallet_route ::
  "account_http \<Rightarrow> 'w account_env \<Rightarrow> string option \<Rightarrow> string \<Rightarrow> create_wallet_dto \<Rightarrow>
     ('w account_state, wallet_response) act" where
  "create_wallet_route h v header key c =
     validated (create_wallet_ok c) (with_principal header (\<lambda>e. create_wallet v e key c))"

definition list_wallets_route ::
  "'w account_env \<Rightarrow> string option \<Rightarrow> ('w account_state, wallet_response list) act" where
  "list_wallets_route v header = with_principal header (list_wallets v)"

definition wallet_balance_route ::
  "account_http \<Rightarrow> 'w account_env \<Rightarrow> string option \<Rightarrow> uuid \<Rightarrow> ('w account_state, balance_response) act" where
  "wallet_balance_route h v header i =
     validated (nh_is_uuid h i) (with_principal header (\<lambda>e. wallet_balance_of v e i))"

definition validation_route :: "account_http \<Rightarrow> uuid \<Rightarrow> ('w account_state, owner_view) act" where
  "validation_route h i = guarded (nh_token h) (nh_supplied h) (validated (nh_is_uuid h i) (owner_view_of i))"

definition reconcile_wallet_route ::
  "account_http \<Rightarrow> 'w account_env \<Rightarrow> uuid \<Rightarrow> ('w account_state, wallet_response) act" where
  "reconcile_wallet_route h v i =
     guarded (nh_token h) (nh_supplied h) (validated (nh_is_uuid h i) (reconcile_wallet v i))"

definition update_identity_route ::
  "account_http \<Rightarrow> 'w account_env \<Rightarrow> string option \<Rightarrow> identity_payload \<Rightarrow> ('w account_state, identity_response) act" where
  "update_identity_route h v header i =
     validated (update_identity_ok (nh_is_email h) i) (with_principal header (\<lambda>e. update_identity v e i))"

definition get_identity_route ::
  "'w account_env \<Rightarrow> string option \<Rightarrow> ('w account_state, identity_response) act" where
  "get_identity_route v header = with_principal header (get_identity v)"

definition lookup_email_route ::
  "account_http \<Rightarrow> 'w account_env \<Rightarrow> string \<Rightarrow> ('w account_state, uuid \<times> string \<times> user_status) act" where
  "lookup_email_route h v email =
     guarded (nh_token h) (nh_supplied h)
       (validated (nh_is_email h email \<and> char_count email \<le> 254) (lookup_email v email))"

end
