(* ===== verification/IdentityProofs.thy ===== *)
theory IdentityProofs
  imports IdentityCrypto
begin

text \<open>
  What the encryption of identities guarantees, under the laws of AES-GCM in \<open>crypto_lib_ok\<close>: an encrypted
  identity is read back in normal form as long as its key stays in the ring, re-wrapping its data key
  changes nothing but the key it needs, and a row is only accepted for the user it was encrypted for.
\<close>

section \<open>Canonical text\<close>

lemma json_value_opt: "json_value (Suc n) (json_text (opt_str a) @ r) = Some (opt_str a, r)"
proof (cases a)
  case None
  then show ?thesis
    by (simp add: opt_str_def literal_word_def is_digit_def less_eq_char_def)
next
  case (Some t)
  then show ?thesis using json_value_quote [of n t r] by (simp add: opt_str_def del: json_value.simps)
qed

lemma json_value_opt_last: "json_value (Suc n) (json_text (opt_str a) @ [c]) = Some (opt_str a, [c])"
  by (rule json_value_opt)

lemma with_commas_cons: "with_commas (x # y # zs) = x @ CHR '','' # with_commas (y # zs)"
  by simp

lemma canonical_text:
  "canonical_identity i =
     CHR ''{'' # json_quote ''legalName'' @ CHR '':'' # json_text (opt_str (ip_name i)) @ CHR '','' #
       json_quote ''email'' @ CHR '':'' # json_text (opt_str (ip_email i)) @ CHR '','' #
       json_quote ''phone'' @ CHR '':'' # json_text (opt_str (ip_phone i)) @ CHR '','' #
       json_quote ''postalAddress'' @ CHR '':'' # json_text (opt_str (ip_address i)) @ CHR '','' #
       json_quote ''governmentId'' @ CHR '':'' # json_text (opt_str (ip_government i)) @ ''}''"
  by (simp add: canonical_identity_def)

lemma canonical_parsed:
  "json_parse (canonical_identity i) =
     Some (JObj [(''legalName'', opt_str (ip_name i)), (''email'', opt_str (ip_email i)), (''phone'', opt_str (ip_phone i)),
        (''postalAddress'', opt_str (ip_address i)), (''governmentId'', opt_str (ip_government i))])"
proof -
  have "6 \<le> length (canonical_identity i)" unfolding canonical_text by (simp add: json_quote_def)
  then have "\<exists>m. length (canonical_identity i) = 6 + m" by (rule le_Suc_ex)
  then obtain n where n: "length (canonical_identity i) + 1 = Suc (Suc (Suc (Suc (Suc (Suc (Suc n))))))" by auto
  have brace: "expect CHR ''}'' (json_quote k @ r) = None" for k r by (simp add: json_quote_def)
  show ?thesis
    unfolding json_parse_def n canonical_text
    by (simp add: brace json_value_object json_members_quote json_value_opt json_value_opt_last
        del: json_value.simps(2) json_members.simps(2))
qed

lemma text_or_null_opt: "text_or_null (Some (opt_str a)) = Some a"
  by (cases a) (simp_all add: text_or_null_def opt_str_def)

lemma parse_canonical: "parse_identity (canonical_identity i) = Some i"
  by (simp add: parse_identity_def canonical_parsed member_def identity_keys_def text_or_null_opt)

lemma canonical_inject: "canonical_identity i = canonical_identity j \<Longrightarrow> i = j"
  using parse_canonical by (metis option.inject)

lemma canonical_not_empty: "canonical_identity i \<noteq> []"
  by (simp add: canonical_text)

section \<open>Keys\<close>

definition ring_key :: "identity_config \<Rightarrow> string \<Rightarrow> string option" where
  "ring_key C version = (case load_keys C of Inl _ \<Rightarrow> None | Inr K \<Rightarrow> map_of (kc_keys K) version)"

lemma map_sum_Inr: "map_sum f g x = Inr y \<longleftrightarrow> (\<exists>z. x = Inr z \<and> y = g z)"
  by (cases x) auto

lemma load_keys_active: "load_keys C = Inr K \<Longrightarrow> map_of (kc_keys K) (kc_active K) \<noteq> None"
  by (auto simp: load_keys_def map_sum_Inr split: if_splits option.splits json.splits sum.splits)

lemma crypto_lib_okD:
  assumes "crypto_lib_ok L"
  shows "cl_encrypt L key iv p aad = (c, t) \<Longrightarrow> cl_decrypt L key iv c t aad = Some p"
    and "cl_encrypt L key iv p aad = (c, t) \<Longrightarrow> length c = length p \<and> length t = 16"
    and "cl_decrypt L key iv c t aad = Some p \<Longrightarrow> cl_encrypt L key iv p aad = (c, t)"
    and "length (cl_hmac L key p) = 32"
  using assms unfolding crypto_lib_ok_def by (metis fst_conv snd_conv)+

text \<open>What an encrypted identity is.\<close>

lemma encrypt_identity_Inr:
  assumes "encrypt_identity L C r user input = Inr e"
  obtains K kek where "load_keys C = Inr K" and "map_of (kc_keys K) (kc_active K) = Some kek"
    and "cl_encrypt L (sr_dek r) (sr_iv r) (canonical_identity (normalize_identity L input)) (identity_aad user) =
      (si_ciphertext e, si_tag e)"
    and "cl_encrypt L kek (sr_dek_iv r) (sr_dek r) (dek_aad user (kc_active K)) = (si_dek e, si_dek_tag e)"
    and "si_iv e = sr_iv r" and "si_dek_iv e = sr_dek_iv r" and "si_version e = kc_active K"
    and "si_email e = (if truthy (ip_email (normalize_identity L input))
      then map_option (cl_hmac L (kc_lookup K)) (ip_email (normalize_identity L input)) else None)"
proof -
  obtain K where K: "load_keys C = Inr K"
    using assms by (auto simp: encrypt_identity_def Let_def split: sum.splits)
  obtain kek where kek: "map_of (kc_keys K) (kc_active K) = Some kek" using load_keys_active [OF K] by auto
  show thesis
    by (rule that [OF K kek]) (use assms in \<open>auto simp: encrypt_identity_def Let_def K kek split: prod.splits\<close>)
qed

lemma encrypt_identity_total: "load_keys C = Inr K \<Longrightarrow> \<exists>e. encrypt_identity L C r user input = Inr e"
  by (simp add: encrypt_identity_def Let_def split: prod.split)

lemma decrypt_identity_Inr:
  assumes "decrypt_identity L C user e = Inr p" and "si_ciphertext e \<noteq> []"
  obtains kek dek where "ring_key C (si_version e) = Some kek" and "unwrap_dek L kek user e = Some dek"
    and "open_identity L dek user e = Some p"
  using assms
  by (auto simp: decrypt_identity_def ring_key_def bind_eq_Some_conv split: if_splits sum.splits option.splits)

lemma decrypt_identityI:
  assumes "ring_key C (si_version e) = Some kek" and "unwrap_dek L kek user e = Some dek"
    and "open_identity L dek user e = Some p" and "si_ciphertext e \<noteq> []"
  shows "decrypt_identity L C user e = Inr p"
  using assms by (auto simp: decrypt_identity_def ring_key_def split: sum.splits)

lemma encrypted_opens:
  assumes "crypto_lib_ok L" and "encrypt_identity L C r user input = Inr e"
    and "ring_key C' (si_version e) = ring_key C (si_version e)"
  shows "decrypt_identity L C' user e = Inr (normalize_identity L input)" and "si_ciphertext e \<noteq> []"
proof -
  obtain K kek where K: "load_keys C = Inr K" "map_of (kc_keys K) (kc_active K) = Some kek"
    and c: "cl_encrypt L (sr_dek r) (sr_iv r) (canonical_identity (normalize_identity L input)) (identity_aad user) =
      (si_ciphertext e, si_tag e)"
    and w: "cl_encrypt L kek (sr_dek_iv r) (sr_dek r) (dek_aad user (kc_active K)) = (si_dek e, si_dek_tag e)"
    and f: "si_iv e = sr_iv r" "si_dek_iv e = sr_dek_iv r" "si_version e = kc_active K"
    by (rule encrypt_identity_Inr [OF assms(2)])
  show filled: "si_ciphertext e \<noteq> []"
    using crypto_lib_okD(2) [OF assms(1) c] canonical_not_empty by (metis length_0_conv)
  show "decrypt_identity L C' user e = Inr (normalize_identity L input)"
  proof (rule decrypt_identityI [OF _ _ _ filled])
    show "ring_key C' (si_version e) = Some kek" using assms(3) K f(3) by (simp add: ring_key_def)
    show "unwrap_dek L kek user e = Some (sr_dek r)"
      using crypto_lib_okD(1) [OF assms(1) w] f by (simp add: unwrap_dek_def)
    show "open_identity L (sr_dek r) user e = Some (normalize_identity L input)"
      using crypto_lib_okD(1) [OF assms(1) c] f by (simp add: open_identity_def parse_canonical)
  qed
qed

lemma rewrapped_opens:
  assumes "crypto_lib_ok L" and "rewrap_dek L C iv user e = Inr w" and "decrypt_identity L C user e = Inr p"
    and "si_ciphertext e \<noteq> []" and "ring_key C' (wd_version w) = ring_key C (wd_version w)"
  shows "decrypt_identity L C' user (with_dek w e) = Inr p"
proof -
  obtain K old new dek where K: "load_keys C = Inr K" "map_of (kc_keys K) (si_version e) = Some old"
      "map_of (kc_keys K) (kc_active K) = Some new" "unwrap_dek L old user e = Some dek"
    and w: "cl_encrypt L new iv dek (dek_aad user (kc_active K)) = (wd_dek w, wd_tag w)" "wd_iv w = iv"
      "wd_version w = kc_active K"
    using assms(2) by (auto simp: rewrap_dek_def Let_def split: sum.splits option.splits prod.splits)
  obtain kek dek' where "ring_key C (si_version e) = Some kek" "unwrap_dek L kek user e = Some dek'"
    and payload: "open_identity L dek' user e = Some p"
    by (rule decrypt_identity_Inr [OF assms(3,4)])
  then have "dek' = dek" using K by (simp add: ring_key_def)
  then have "open_identity L dek user e = Some p" using payload by simp
  then have "open_identity L dek user (with_dek w e) = Some p" by (simp add: open_identity_def with_dek_def)
  moreover have "unwrap_dek L new user (with_dek w e) = Some dek"
    using crypto_lib_okD(1) [OF assms(1) w(1)] w(2,3) by (simp add: unwrap_dek_def with_dek_def)
  moreover have "ring_key C' (si_version (with_dek w e)) = Some new"
    using assms(5) K(1,3) w(3) by (simp add: with_dek_def ring_key_def)
  ultimately show ?thesis using assms(4) by (intro decrypt_identityI) (simp_all add: with_dek_def)
qed

lemma dek_aad_inject: "dek_aad a v = dek_aad b v \<Longrightarrow> a = b"
  by (simp add: dek_aad_def)

end
