(* ===== verification/AccountProofs.thy ===== *)
theory AccountProofs
  imports AccountService IdentityProofs
begin

text \<open>
  The invariant of the Account tables, the relation between two of their states, and what every operation
  keeps of them, inside the locale \<open>account_providers\<close> of what the service relies on: a Ledger that holds
  the accounts it says it has provisioned and an audit trail that keeps what it says it has recorded.
\<close>

section \<open>Handlers with assertions\<close>

text \<open>
  \<open>hoare R P m Q\<close>: from a state with \<open>P\<close> the handler stays within the two-state relation \<open>R\<close>, and when it
  returns \<open>x\<close> it leaves a state with \<open>Q x\<close>.
\<close>

definition hoare :: "('s \<Rightarrow> 's \<Rightarrow> bool) \<Rightarrow> ('s \<Rightarrow> bool) \<Rightarrow> ('s, 'a) act \<Rightarrow> ('a \<Rightarrow> 's \<Rightarrow> bool) \<Rightarrow> bool" where
  "hoare R P m Q \<longleftrightarrow>
     (\<forall>s. P s \<longrightarrow> R s (snd (m s)) \<and> (\<forall>x. fst (m s) = Inr x \<longrightarrow> Q x (snd (m s))))"

definition stable :: "('s \<Rightarrow> 's \<Rightarrow> bool) \<Rightarrow> ('s \<Rightarrow> bool) \<Rightarrow> bool" where
  "stable R P \<longleftrightarrow> (\<forall>s t. P s \<longrightarrow> R s t \<longrightarrow> P t)"

lemma hoareI:
  "(\<And>s r t. P s \<Longrightarrow> m s = (r, t) \<Longrightarrow> R s t \<and> (\<forall>x. r = Inr x \<longrightarrow> Q x t)) \<Longrightarrow> hoare R P m Q"
  unfolding hoare_def by (metis prod.collapse)

lemma hoareD:
  assumes "hoare R P m Q" and "P s" and "m s = (r, t)"
  shows "R s t" and "r = Inr x \<Longrightarrow> Q x t"
  using assms unfolding hoare_def by (metis fst_conv snd_conv)+

lemma hoare_weaken:
  "hoare R P m Q \<Longrightarrow> (\<And>s. P' s \<Longrightarrow> P s) \<Longrightarrow> (\<And>x s. Q x s \<Longrightarrow> Q' x s) \<Longrightarrow> hoare R P' m Q'"
  unfolding hoare_def by blast

lemma hoare_if: "(c \<Longrightarrow> hoare R P m Q) \<Longrightarrow> (\<not> c \<Longrightarrow> hoare R P n Q) \<Longrightarrow> hoare R P (if c then m else n) Q"
  by simp

context two_state
begin

lemma hoare_bnd:
  assumes "hoare R P m A" and "\<And>x. hoare R (A x) (f x) Q"
  shows "hoare R P (bnd m f) Q"
proof (rule hoareI)
  fix s r t
  assume s: "P s" and r: "bnd m f s = (r, t)"
  obtain y u where m: "m s = (y, u)" by fastforce
  note first = hoareD [OF assms(1) s m]
  show "R s t \<and> (\<forall>x. r = Inr x \<longrightarrow> Q x t)"
  proof (cases y)
    case (Inl e)
    then show ?thesis using r m first(1) by (auto simp: bnd_def)
  next
    case (Inr x)
    then have "f x u = (r, t)" using r m by (simp add: bnd_def)
    from hoareD [OF assms(2) first(2) [OF Inr] this] show ?thesis using first(1) R_trans by blast
  qed
qed

lemma hoare_ret: "(\<And>s. P s \<Longrightarrow> Q x s) \<Longrightarrow> hoare R P (ret x) Q"
  by (simp add: hoare_def R_refl)

lemma hoare_throw: "hoare R P (throw e) Q"
  by (simp add: hoare_def R_refl)

lemma hoare_gets: "(\<And>s. P s \<Longrightarrow> Q (f s) s) \<Longrightarrow> hoare R P (gets f) Q"
  by (simp add: hoare_def R_refl)

lemma hoare_ensure: "(\<And>s. P s \<Longrightarrow> c \<Longrightarrow> Q () s) \<Longrightarrow> hoare R P (ensure c e) Q"
  by (auto simp: hoare_def ensure_def R_refl)

lemma hoare_steps: "steps R m \<Longrightarrow> stable R P \<Longrightarrow> hoare R P m (\<lambda>_. P)"
  unfolding hoare_def steps_def stable_def by blast

lemma hoare_catch:
  assumes "stable R P" and "hoare R P m Q" and "\<And>e. hoare R P (h e) Q"
  shows "hoare R P (catch m h) Q"
proof (rule hoareI)
  fix s r t
  assume s: "P s" and r: "catch m h s = (r, t)"
  obtain y u where m: "m s = (y, u)" by fastforce
  note first = hoareD [OF assms(2) s m]
  show "R s t \<and> (\<forall>x. r = Inr x \<longrightarrow> Q x t)"
  proof (cases y)
    case (Inl e)
    then have "h e u = (r, t)" using r m by (simp add: catch_def)
    moreover have "P u" using assms(1) s first(1) by (simp add: stable_def)
    ultimately show ?thesis using hoareD [OF assms(3)] first(1) R_trans by blast
  next
    case (Inr x)
    then show ?thesis using r m first by (simp add: catch_def)
  qed
qed

lemma steps_hoare: "hoare R P m Q \<Longrightarrow> (\<And>s. \<not> P s \<Longrightarrow> R s (snd (m s))) \<Longrightarrow> steps R m"
  unfolding hoare_def steps_def by blast

end

section \<open>The tables\<close>

definition users_ok :: "crypto_lib \<Rightarrow> identity_config \<Rightarrow> user list \<Rightarrow> bool" where
  "users_ok L C us \<longleftrightarrow>
     distinct (map us_id us) \<and> distinct (map us_external us) \<and> unique_some user_email us \<and>
     (\<forall>u\<in>set us. si_ciphertext (us_sealed u) \<noteq> [] \<and> (\<exists>p. decrypt_identity L C (us_id u) (us_sealed u) = Inr p))"

definition wallets_ok :: "user list \<Rightarrow> wallet list \<Rightarrow> bool" where
  "wallets_ok us ws \<longleftrightarrow>
     distinct (map wl_id ws) \<and> distinct (map (\<lambda>w. (wl_user w, wl_currency w)) ws) \<and> unique_some wl_ledger ws \<and>
     (\<forall>w\<in>set ws. wl_user w \<in> us_id ` set us \<and> (wl_status w = WalletActive \<longrightarrow> wl_ledger w \<noteq> None))"

definition wallet_keys_ok :: "wallet list \<Rightarrow> wallet_key list \<Rightarrow> bool" where
  "wallet_keys_ok ws ks \<longleftrightarrow>
     distinct (map (\<lambda>r. (wk_user r, wk_key r)) ks) \<and> distinct (map wk_wallet ks) \<and>
     (\<forall>r\<in>set ks. \<exists>w\<in>set ws. wl_id w = wk_wallet r \<and> wl_user w = wk_user r) \<and>
     (\<forall>w\<in>set ws. wl_id w \<in> wk_wallet ` set ks)"

definition account_ok :: "crypto_lib \<Rightarrow> identity_config \<Rightarrow> 'w account_state \<Rightarrow> bool" where
  "account_ok L C s \<longleftrightarrow>
     users_ok L C (users s) \<and> wallets_ok (users s) (wallets s) \<and> wallet_keys_ok (wallets s) (wallet_keys s)"

definition later_user :: "user \<Rightarrow> user \<Rightarrow> bool" where
  "later_user p q \<longleftrightarrow> us_id q = us_id p \<and> us_external q = us_external p \<and> us_status q = us_status p"

definition wallet_core :: "wallet \<Rightarrow> uuid \<times> uuid \<times> string \<times> string option \<times> instant" where
  "wallet_core w = (wl_id w, wl_user w, wl_currency w, wl_label w, wl_created w)"

definition later_wallet :: "wallet \<Rightarrow> wallet \<Rightarrow> bool" where
  "later_wallet p q \<longleftrightarrow> wallet_core q = wallet_core p \<and> (wl_status p = WalletActive \<longrightarrow> wl_status q = WalletActive)"

definition account_later :: "'w account_state \<Rightarrow> 'w account_state \<Rightarrow> bool" where
  "account_later s t \<longleftrightarrow>
     grows later_user (users s) (users t) \<and> grows later_wallet (wallets s) (wallets t) \<and>
     grows (=) (wallet_keys s) (wallet_keys t)"

lemma later_user_refl: "later_user u u"
  by (simp add: later_user_def)

lemma later_wallet_refl: "later_wallet w w"
  by (simp add: later_wallet_def)

lemma account_later_refl: "account_later s s"
  by (simp add: account_later_def grows_refl later_user_refl later_wallet_refl)

lemma account_later_trans:
  assumes "account_later s t" and "account_later t u"
  shows "account_later s u"
proof -
  have "later_user p r" if "later_user p q" "later_user q r" for p q r using that by (simp add: later_user_def)
  moreover have "later_wallet p r" if "later_wallet p q" "later_wallet q r" for p q r
    using that by (auto simp: later_wallet_def)
  ultimately show ?thesis
    using assms unfolding account_later_def by (blast intro: grows_trans [where R = "(=)"] grows_trans)
qed

text \<open>What a request knows of a wallet that it has read.\<close>

definition wallet_known :: "wallet \<Rightarrow> 'w account_state \<Rightarrow> bool" where
  "wallet_known w s \<longleftrightarrow> (\<exists>q\<in>set (wallets s). later_wallet w q)"

lemma wallet_known_later: "wallet_known w s \<Longrightarrow> account_later s t \<Longrightarrow> wallet_known w t"
proof -
  assume "wallet_known w s" "account_later s t"
  then obtain q where q: "q \<in> set (wallets s)" "later_wallet w q" and g: "grows later_wallet (wallets s) (wallets t)"
    by (auto simp: wallet_known_def account_later_def)
  obtain r where "r \<in> set (wallets t)" "later_wallet q r" using grows_in [OF g q(1)] by blast
  then show "wallet_known w t" using q(2) by (auto simp: wallet_known_def later_wallet_def)
qed

lemma wallet_known_in: "w \<in> set (wallets s) \<Longrightarrow> wallet_known w s"
  unfolding wallet_known_def by (rule bexI [of _ w]) (simp_all add: later_wallet_refl)

lemma find_wallet_in: "find_wallet i s = Some w \<Longrightarrow> w \<in> set (wallets s) \<and> wl_id w = i"
  unfolding find_wallet_def by (rule find_Some_in)

lemma find_user_in: "find_user i s = Some u \<Longrightarrow> u \<in> set (users s) \<and> us_id u = i"
  unfolding find_user_def by (rule find_Some_in)

lemma find_wallet_key_in: "find_wallet_key user key s = Some (r, w) \<Longrightarrow> w \<in> set (wallets s)"
  by (auto simp: find_wallet_key_def dest: find_wallet_in split: option.splits)

section \<open>What the service relies on\<close>

text \<open>
  \<open>account i w c x\<close>: in the world \<open>x\<close> the Ledger has the account \<open>i\<close> of the wallet \<open>w\<close> in the currency \<open>c\<close>;
  \<open>logged e x\<close>: the audit trail has the event \<open>e\<close>.
\<close>

locale account_providers =
  fixes env_ok :: "'w account_env \<Rightarrow> bool"
    and good :: "'w \<Rightarrow> bool"
    and later :: "'w \<Rightarrow> 'w \<Rightarrow> bool"
    and account :: "uuid \<Rightarrow> uuid \<Rightarrow> string \<Rightarrow> 'w \<Rightarrow> bool"
    and logged :: "append_event_dto \<Rightarrow> 'w \<Rightarrow> bool"
  assumes later_refl: "later x x"
    and later_trans: "later x y \<Longrightarrow> later y z \<Longrightarrow> later x z"
    and good_later: "good x \<Longrightarrow> later x y \<Longrightarrow> good y"
    and account_kept: "good x \<Longrightarrow> later x y \<Longrightarrow> account i w c x \<Longrightarrow> account i w c y"
    and logged_kept: "good x \<Longrightarrow> later x y \<Longrightarrow> logged e x \<Longrightarrow> logged e y"
    and calls_later: "env_ok v \<Longrightarrow> good x \<Longrightarrow> later x (snd (nv_provision v w c x))"
      "env_ok v \<Longrightarrow> good x \<Longrightarrow> later x (snd (nv_balance v w x))"
      "env_ok v \<Longrightarrow> good x \<Longrightarrow> later x (snd (nv_balances v ws x))"
      "env_ok v \<Longrightarrow> good x \<Longrightarrow> later x (snd (nv_append v e x))"
    and provision_account: "env_ok v \<Longrightarrow> good x \<Longrightarrow> nv_provision v w c x = (Response st b code msg, y) \<Longrightarrow>
      200 \<le> st \<Longrightarrow> st \<le> 299 \<Longrightarrow> account (br_account b) w c y"
    and append_logged: "env_ok v \<Longrightarrow> good x \<Longrightarrow> nv_append v e x = (Response st () code msg, y) \<Longrightarrow>
      200 \<le> st \<Longrightarrow> st \<le> 299 \<Longrightarrow> logged e y"

definition account_inv ::
  "('w \<Rightarrow> bool) \<Rightarrow> (uuid \<Rightarrow> uuid \<Rightarrow> string \<Rightarrow> 'w \<Rightarrow> bool) \<Rightarrow> crypto_lib \<Rightarrow> identity_config \<Rightarrow> 'w account_state \<Rightarrow> bool" where
  "account_inv good account L C s \<longleftrightarrow>
     account_ok L C s \<and> good (account_world s) \<and>
     (\<forall>w\<in>set (wallets s). \<forall>i. wl_ledger w = Some i \<longrightarrow> account i (wl_id w) (wl_currency w) (account_world s))"

definition account_step ::
  "('w \<Rightarrow> bool) \<Rightarrow> ('w \<Rightarrow> 'w \<Rightarrow> bool) \<Rightarrow> (uuid \<Rightarrow> uuid \<Rightarrow> string \<Rightarrow> 'w \<Rightarrow> bool) \<Rightarrow> crypto_lib \<Rightarrow> identity_config \<Rightarrow>
     'w account_state \<Rightarrow> 'w account_state \<Rightarrow> bool" where
  "account_step good later account L C s t \<longleftrightarrow>
     (account_inv good account L C s \<longrightarrow>
        account_inv good account L C t \<and> account_later s t \<and> later (account_world s) (account_world t))"

definition account_calm ::
  "('w account_env \<Rightarrow> bool) \<Rightarrow> ('w \<Rightarrow> bool) \<Rightarrow> ('w \<Rightarrow> 'w \<Rightarrow> bool) \<Rightarrow> (uuid \<Rightarrow> uuid \<Rightarrow> string \<Rightarrow> 'w \<Rightarrow> bool) \<Rightarrow> crypto_lib \<Rightarrow>
     identity_config \<Rightarrow> 'w account_env \<Rightarrow> bool" where
  "account_calm env_ok good later account L C v \<longleftrightarrow>
     env_ok v \<and> nv_crypto v = L \<and> nv_config v = C \<and> crypto_lib_ok L \<and>
     (\<forall>k s. account_step good later account L C s (nv_others v k s))"

sublocale account_providers < ac: two_state "account_step good later account L C" for L C
  by unfold_locales
    (auto simp: account_step_def account_later_refl later_refl intro: account_later_trans later_trans)

end
