(* ===== verification/AccountSteps.thy ===== *)
theory AccountSteps
  imports AccountProofs
begin

text \<open>
  Every operation of the Account service keeps its invariant, whatever other requests do at its awaits, and
  a wallet that is created or reconciled is one that the Ledger has an account for.
\<close>

section \<open>Rows\<close>

lemma users_ok_step:
  assumes "users_ok L C us" and "find_user i s = Some u" and "users s = us"
    and "row = u\<lparr>us_sealed := e, us_updated := now\<rparr>" and "si_ciphertext e \<noteq> []" and "decrypt_identity L C i e = Inr p"
    and "unique_some user_email (update_where (\<lambda>q. us_id q = i) (\<lambda>_. row) us)"
  shows "users_ok L C (update_where (\<lambda>q. us_id q = i) (\<lambda>_. row) us)"
    and "grows later_user us (update_where (\<lambda>q. us_id q = i) (\<lambda>_. row) us)"
    and "us_id ` set (update_where (\<lambda>q. us_id q = i) (\<lambda>_. row) us) = us_id ` set us"
proof -
  let ?rows = "update_where (\<lambda>q. us_id q = i) (\<lambda>_. row) us"
  have u: "u \<in> set us" "us_id u = i" using find_user_in [OF assms(2)] assms(3) by simp_all
  have same: "q = u" if "q \<in> set us" "us_id q = i" for q
    using distinct_key [of us_id us q u] assms(1) that u by (simp add: users_ok_def)
  have eq: "?rows = update_where (\<lambda>q. us_id q = i) (\<lambda>q. q\<lparr>us_sealed := e, us_updated := now\<rparr>) us"
    using same unfolding update_where_def assms(4) by (intro map_cong) auto
  have ids: "map us_id ?rows = map us_id us" "map us_external ?rows = map us_external us"
    unfolding eq by (rule map_update_where; simp)+
  have "si_ciphertext (us_sealed q) \<noteq> [] \<and> (\<exists>p. decrypt_identity L C (us_id q) (us_sealed q) = Inr p)"
    if "q \<in> set ?rows" for q
    using in_update_where [OF that] assms(1,4-6) u(2) by (auto simp: users_ok_def)
  then show "users_ok L C ?rows" using assms(1,7) ids by (simp add: users_ok_def)
  show "grows later_user us ?rows"
    unfolding eq by (rule grows_update) (simp_all add: later_user_def)
  show "us_id ` set ?rows = us_id ` set us" using ids(1) by (metis list.set_map)
qed

lemma update_user_Inr:
  "update_user now i f s = (Inr row, t) \<Longrightarrow>
     \<exists>u. find_user i s = Some u \<and> row = u\<lparr>us_sealed := f (us_sealed u), us_updated := now\<rparr> \<and> user_check row \<and>
       unique_some user_email (update_where (\<lambda>q. us_id q = i) (\<lambda>_. row) (users s)) \<and>
       t = s\<lparr>users := update_where (\<lambda>q. us_id q = i) (\<lambda>_. row) (users s)\<rparr>"
  by (auto simp: update_user_def Let_def split: option.splits if_splits)

lemma update_user_Inl: "update_user now i f s = (Inl x, t) \<Longrightarrow> t = s"
  by (auto simp: update_user_def Let_def split: option.splits if_splits)

lemma create_user_Inr:
  "create_user u s = (Inr r, t) \<Longrightarrow>
     us_id u \<notin> us_id ` set (users s) \<and> us_external u \<notin> us_external ` set (users s) \<and>
     (user_email u = None \<or> user_email u \<notin> set (map user_email (users s))) \<and> r = u \<and> t = s\<lparr>users := users s @ [u]\<rparr>"
  by (auto simp: create_user_def key_taken_def split: if_splits)

lemma create_user_Inl: "create_user u s = (Inl x, t) \<Longrightarrow> t = s"
  by (auto simp: create_user_def split: if_splits)

lemma update_wallet_Inr:
  "update_wallet now i f s = (Inr row, t) \<Longrightarrow>
     \<exists>w. find_wallet i s = Some w \<and> row = (f w)\<lparr>wl_updated := now\<rparr> \<and>
       unique_some wl_ledger (update_where (\<lambda>q. wl_id q = i) (\<lambda>_. row) (wallets s)) \<and>
       t = s\<lparr>wallets := update_where (\<lambda>q. wl_id q = i) (\<lambda>_. row) (wallets s)\<rparr>"
  by (auto simp: update_wallet_def Let_def split: option.splits if_splits)

lemma update_wallet_Inl: "update_wallet now i f s = (Inl x, t) \<Longrightarrow> t = s"
  by (auto simp: update_wallet_def Let_def split: option.splits if_splits)

lemma insert_wallet_Inr:
  "insert_wallet v user key hash c s = (Inr w, t) \<Longrightarrow>
     wl_id w = nv_wallet_id v \<and> wl_user w = user \<and> wl_status w = WalletPending \<and> wl_ledger w = None \<and>
     wl_currency w = cw_currency c \<and>
     wl_id w \<notin> wl_id ` set (wallets s) \<and> (user, cw_currency c) \<notin> (\<lambda>q. (wl_user q, wl_currency q)) ` set (wallets s) \<and>
     user \<in> us_id ` set (users s) \<and> (user, key) \<notin> (\<lambda>q. (wk_user q, wk_key q)) ` set (wallet_keys s) \<and>
     wl_id w \<notin> wk_wallet ` set (wallet_keys s) \<and>
     t = s\<lparr>wallets := wallets s @ [w],
           wallet_keys := wallet_keys s @ [\<lparr>wk_user = user, wk_key = key, wk_hash = hash, wk_wallet = wl_id w\<rparr>]\<rparr>"
  by (auto simp: insert_wallet_def bnd_result_Inr create_wallet_row_def create_wallet_key_def key_taken_def
      split: if_splits)

lemma inserted_ok:
  assumes "insert_wallet v user key hash c s = (Inr w, t)" and "account_ok L C s"
  shows "account_ok L C t" and "account_later s t"
proof -
  note w = insert_wallet_Inr [OF assms(1)]
  have ok: "wallets_ok (users s) (wallets s)" "wallet_keys_ok (wallets s) (wallet_keys s)" "users_ok L C (users s)"
    using assms(2) by (simp_all add: account_ok_def)
  have "wallets_ok (users t) (wallets t)"
    using ok(1) w by (auto simp: wallets_ok_def unique_some_snoc)
  moreover have "wallet_keys_ok (wallets t) (wallet_keys t)"
    using ok(2) w by (auto simp: wallet_keys_ok_def)
  ultimately show "account_ok L C t" using ok(3) w by (simp add: account_ok_def)
  show "account_later s t"
    using w by (auto simp: account_later_def later_user_refl later_wallet_refl intro: grows_refl grows_snoc)
qed

lemma wallet_updated_ok:
  assumes "account_ok L C s" and "find_wallet i s = Some w"
    and "row = w\<lparr>wl_ledger := Some a, wl_status := WalletActive, wl_updated := now\<rparr>"
    and "unique_some wl_ledger (update_where (\<lambda>q. wl_id q = i) (\<lambda>_. row) (wallets s))"
    and "t = s\<lparr>wallets := update_where (\<lambda>q. wl_id q = i) (\<lambda>_. row) (wallets s)\<rparr>"
  shows "account_ok L C t" and "account_later s t" and "row \<in> set (wallets t)"
proof -
  let ?rows = "update_where (\<lambda>q. wl_id q = i) (\<lambda>_. row) (wallets s)"
  have w: "w \<in> set (wallets s)" "wl_id w = i" using find_wallet_in [OF assms(2)] by simp_all
  have ok: "wallets_ok (users s) (wallets s)" "wallet_keys_ok (wallets s) (wallet_keys s)"
    using assms(1) by (simp_all add: account_ok_def)
  have same: "q = w" if "q \<in> set (wallets s)" "wl_id q = i" for q
    using distinct_key [of wl_id "wallets s" q w] ok(1) that w by (simp add: wallets_ok_def)
  have eq: "?rows = update_where (\<lambda>q. wl_id q = i)
      (\<lambda>q. q\<lparr>wl_ledger := Some a, wl_status := WalletActive, wl_updated := now\<rparr>) (wallets s)"
    using same unfolding update_where_def assms(3) by (intro map_cong) auto
  have cores: "map wallet_core ?rows = map wallet_core (wallets s)"
    unfolding eq by (rule map_update_where) (simp add: wallet_core_def)
  have keys: "map f ?rows = map f (wallets s)" if "\<And>p q. wallet_core p = wallet_core q \<Longrightarrow> f p = f q" for f :: "wallet \<Rightarrow> 'k"
    unfolding eq by (rule map_update_where) (simp add: that [of "_\<lparr>wl_ledger := _, wl_status := _, wl_updated := _\<rparr>"] wallet_core_def)
  have ids: "map wl_id ?rows = map wl_id (wallets s)"
    "map (\<lambda>q. (wl_user q, wl_currency q)) ?rows = map (\<lambda>q. (wl_user q, wl_currency q)) (wallets s)"
    "map (\<lambda>q. (wl_id q, wl_user q)) ?rows = map (\<lambda>q. (wl_id q, wl_user q)) (wallets s)"
    by (rule keys; simp add: wallet_core_def)+
  have "wl_user q \<in> us_id ` set (users s) \<and> (wl_status q = WalletActive \<longrightarrow> wl_ledger q \<noteq> None)" if "q \<in> set ?rows" for q
    using in_update_where [OF that] ok(1) w assms(3) by (auto simp: wallets_ok_def)
  then have "wallets_ok (users s) ?rows" using ok(1) ids(1,2) assms(4) by (simp add: wallets_ok_def)
  moreover have "wallet_keys_ok ?rows (wallet_keys s)"
  proof -
    have sets: "(\<exists>q\<in>set rows. wl_id q = x \<and> wl_user q = y) \<longleftrightarrow> (x, y) \<in> set (map (\<lambda>q. (wl_id q, wl_user q)) rows)"
      "(\<forall>q\<in>set rows. wl_id q \<in> A) \<longleftrightarrow> set (map wl_id rows) \<subseteq> A" for rows x y A
      by force+
    show ?thesis using ok(2) unfolding wallet_keys_ok_def sets ids .
  qed
  ultimately show "account_ok L C t" using assms(1,5) by (simp add: account_ok_def)
  have "grows later_wallet (wallets s) ?rows"
    unfolding eq by (rule grows_update) (simp_all add: later_wallet_def wallet_core_def)
  then show "account_later s t"
    using assms(5) by (auto simp: account_later_def later_user_refl intro: grows_refl)
  show "row \<in> set (wallets t)" using w assms(5) by (auto simp: update_where_def intro: image_eqI [where x = w])
qed

section \<open>Operations\<close>

context account_providers
begin

lemma inv_stable:
  assumes "\<And>s t. P s \<Longrightarrow> account_inv good account L C s \<Longrightarrow> account_later s t \<Longrightarrow> later (account_world s) (account_world t) \<Longrightarrow> P t"
  shows "stable (account_step good later account L C) (\<lambda>s. account_inv good account L C s \<and> P s)"
  using assms unfolding stable_def account_step_def by blast

lemma inv_alone: "stable (account_step good later account L C) (account_inv good account L C)"
  unfolding stable_def account_step_def by blast

lemma known_stable:
  "stable (account_step good later account L C) (\<lambda>s. account_inv good account L C s \<and> wallet_known w s)"
  by (rule inv_stable) (rule wallet_known_later)

lemma calmD:
  assumes "account_calm env_ok good later account L C v"
  shows "env_ok v" "nv_crypto v = L" "nv_config v = C" "crypto_lib_ok L"
    "steps (account_step good later account L C) (pause (nv_others v k))"
  using assms by (simp_all add: account_calm_def ac.steps_pause)

lemma outside_step:
  assumes "good (account_world s) \<Longrightarrow> later (account_world s) x"
  shows "account_step good later account L C s (s\<lparr>account_world := x\<rparr>)"
  using assms account_kept good_later
  by (auto simp: account_step_def account_inv_def account_ok_def account_later_def
      later_user_refl later_wallet_refl intro!: grows_refl)

lemma tables_step:
  assumes "account_inv good account L C s \<Longrightarrow> account_ok L C t \<and> account_later s t \<and> account_world t = account_world s \<and>
    (\<forall>w\<in>set (wallets t). w \<in> set (wallets s) \<or>
       (\<forall>i. wl_ledger w = Some i \<longrightarrow> account i (wl_id w) (wl_currency w) (account_world s)))"
  shows "account_step good later account L C s t"
  using assms later_refl unfolding account_step_def account_inv_def by (metis (no_types, lifting))

lemma ledger_request_step:
  assumes "\<And>x. good x \<Longrightarrow> later x (snd (send x))"
  shows "steps (account_step good later account L C) (ledger_request v send)"
  by (rule stepsI) (simp add: ledger_request_def case_prod_unfold Let_def ac.R_refl outside_step assms)

lemma append_audit_step: "env_ok v \<Longrightarrow> steps (account_step good later account L C) (append_audit v e)"
  by (rule stepsI) (simp add: append_audit_def case_prod_unfold Let_def ac.R_refl outside_step calls_later)

text \<open>An identity that was encrypted with the service's own keys can be read.\<close>

definition sealed_for :: "crypto_lib \<Rightarrow> identity_config \<Rightarrow> uuid \<Rightarrow> sealed_identity \<Rightarrow> bool" where
  "sealed_for L C i e \<longleftrightarrow> si_ciphertext e \<noteq> [] \<and> (\<exists>p. decrypt_identity L C i e = Inr p)"

lemma update_user_step:
  assumes "sealed_for L C i e"
  shows "steps (account_step good later account L C) (update_user now i (\<lambda>_. e))"
proof (rule stepsI)
  fix s :: "'w account_state"
  obtain r t where r: "update_user now i (\<lambda>_. e) s = (r, t)" by fastforce
  show "account_step good later account L C s (snd (update_user now i (\<lambda>_. e) s))"
  proof (cases r)
    case (Inl x)
    then have "t = s" using update_user_Inl r by blast
    then show ?thesis using r ac.R_refl by simp
  next
    case (Inr row)
    obtain u where u: "find_user i s = Some u" "row = u\<lparr>us_sealed := e, us_updated := now\<rparr>"
      "unique_some user_email (update_where (\<lambda>q. us_id q = i) (\<lambda>_. row) (users s))"
      "t = s\<lparr>users := update_where (\<lambda>q. us_id q = i) (\<lambda>_. row) (users s)\<rparr>"
      using update_user_Inr [of now i "\<lambda>_. e" s row t] r Inr by blast
    obtain p where p: "si_ciphertext e \<noteq> []" "decrypt_identity L C i e = Inr p" using assms by (auto simp: sealed_for_def)
    have "account_step good later account L C s t"
    proof (rule tables_step)
      assume "account_inv good account L C s"
      then have ok: "account_ok L C s" by (simp add: account_inv_def)
      then have us: "users_ok L C (users s)" by (simp add: account_ok_def)
      note kept = users_ok_step [OF us u(1) refl u(2) p u(3)]
      have "account_ok L C t" using ok kept(1,3) u(4) by (simp add: account_ok_def wallets_ok_def)
      then show "account_ok L C t \<and> account_later s t \<and> account_world t = account_world s \<and>
        (\<forall>w\<in>set (wallets t). w \<in> set (wallets s) \<or>
           (\<forall>i. wl_ledger w = Some i \<longrightarrow> account i (wl_id w) (wl_currency w) (account_world s)))"
        using kept(2) u(4) by (auto simp: account_later_def later_wallet_refl intro: grows_refl)
    qed
    then show ?thesis using r by simp
  qed
qed

lemma create_user_step:
  assumes "sealed_for L C (us_id u) (us_sealed u)"
  shows "steps (account_step good later account L C) (create_user u)"
proof (rule stepsI)
  fix s :: "'w account_state"
  obtain r t where r: "create_user u s = (r, t)" by fastforce
  show "account_step good later account L C s (snd (create_user u s))"
  proof (cases r)
    case (Inl x)
    then have "t = s" using create_user_Inl r by blast
    then show ?thesis using r ac.R_refl by simp
  next
    case (Inr row)
    note new = create_user_Inr [of u s row t]
    have t: "t = s\<lparr>users := users s @ [u]\<rparr>" "us_id u \<notin> us_id ` set (users s)"
      "us_external u \<notin> us_external ` set (users s)" "user_email u = None \<or> user_email u \<notin> set (map user_email (users s))"
      using new r Inr by simp_all
    have "account_step good later account L C s t"
    proof (rule tables_step)
      assume "account_inv good account L C s"
      then have ok: "account_ok L C s" by (simp add: account_inv_def)
      then have "users_ok L C (users t)"
        using t assms by (auto simp: account_ok_def users_ok_def unique_some_snoc sealed_for_def)
      moreover have "wallets_ok (users t) (wallets t)" using ok t(1) by (auto simp: account_ok_def wallets_ok_def)
      ultimately have "account_ok L C t" using ok t(1) by (simp add: account_ok_def)
      then show "account_ok L C t \<and> account_later s t \<and> account_world t = account_world s \<and>
        (\<forall>w\<in>set (wallets t). w \<in> set (wallets s) \<or>
           (\<forall>i. wl_ledger w = Some i \<longrightarrow> account i (wl_id w) (wl_currency w) (account_world s)))"
        using t(1) by (auto simp: account_later_def later_user_refl later_wallet_refl intro: grows_refl grows_snoc)
    qed
    then show ?thesis using r by simp
  qed
qed

lemma sealed_bnd:
  assumes "account_calm env_ok good later account L C v"
    and "\<And>e. sealed_for L C i e \<Longrightarrow> steps (account_step good later account L C) (f e)"
  shows "steps (account_step good later account L C) (bnd (sealed v k i input) f)"
proof (rule stepsI)
  fix s :: "'w account_state"
  show "account_step good later account L C s (snd (bnd (sealed v k i input) f s))"
  proof (cases "encrypt_identity L C (nv_random v k) i input")
    case (Inl x)
    then show ?thesis using calmD [OF assms(1)] by (simp add: bnd_def sealed_def ac.R_refl)
  next
    case (Inr e)
    have "sealed_for L C i e"
      using encrypted_opens [OF calmD(4) [OF assms(1)] Inr refl] by (auto simp: sealed_for_def)
    then show ?thesis
      using stepsD [OF assms(2)] Inr calmD [OF assms(1)] by (simp add: bnd_def sealed_def)
  qed
qed

lemma opened_step: "steps (account_step good later account L C) (opened v u)"
  by (simp add: steps_def opened_def ac.R_refl)

lemma ensure_user_step:
  assumes "account_calm env_ok good later account L C v"
  shows "steps (account_step good later account L C) (ensure_user v external)"
  unfolding ensure_user_def
  by (intro ac.steps_rules calmD(5) [OF assms] sealed_bnd [OF assms] update_user_step create_user_step) simp_all

lemma update_identity_step:
  assumes "account_calm env_ok good later account L C v"
  shows "steps (account_step good later account L C) (update_identity v external input)"
  unfolding update_identity_def Let_def
  by (intro ac.steps_bnd ac.steps_if ac.steps_catch ac.steps_ret ac.steps_throw ensure_user_step opened_step
      calmD(5) [OF assms] sealed_bnd [OF assms] update_user_step append_audit_step calmD(1) [OF assms] assms)

lemma reads_step:
  "steps (account_step good later account L C) (get_identity v external)"
  "steps (account_step good later account L C) (lookup_email v email)"
  "steps (account_step good later account L C) (owner_view_of i)"
  unfolding get_identity_def lookup_email_def owner_view_of_def
  by (auto intro!: ac.steps_rules opened_step split: sum.split)

section \<open>Wallets\<close>

lemma insert_hoare:
  "hoare (account_step good later account L C) (account_inv good account L C)
     (transaction (\<lambda>_. True) (insert_wallet v user key hash c))
     (\<lambda>w s. account_inv good account L C s \<and> wallet_known w s)"
proof (rule hoareI)
  fix s r t
  assume inv: "account_inv good account L C s" and r: "transaction (\<lambda>_. True) (insert_wallet v user key hash c) s = (r, t)"
  show "account_step good later account L C s t \<and> (\<forall>x. r = Inr x \<longrightarrow> account_inv good account L C t \<and> wallet_known x t)"
  proof (cases r)
    case (Inl x)
    then show ?thesis using r ac.R_refl by (auto dest: transaction_Inl)
  next
    case (Inr w)
    then have w: "insert_wallet v user key hash c s = (Inr w, t)" using r by (simp add: transaction_Inr)
    note new = insert_wallet_Inr [OF w]
    have ok: "account_ok L C t" "account_later s t"
      using inserted_ok [OF w, of L C] inv by (simp_all add: account_inv_def)
    have step: "account_step good later account L C s t"
      by (rule tables_step) (use ok new in auto)
    then have "account_inv good account L C t" using inv by (simp add: account_step_def)
    moreover have "wallet_known w t" using new by (intro wallet_known_in) simp
    ultimately show ?thesis using step Inr by simp
  qed
qed

lemma claim_hoare:
  assumes "account_calm env_ok good later account L C v"
  shows "hoare (account_step good later account L C) (account_inv good account L C)
     (claim_wallet v user key hash c) (\<lambda>w s. account_inv good account L C s \<and> wallet_known w s)"
proof -
  let ?R = "account_step good later account L C" and ?I = "account_inv good account L C"
  have replay: "hoare ?R ?I (bnd (gets (find_wallet_key user key)) (\<lambda>found.
      case found of Some (r, w) \<Rightarrow> bnd (ensure (wk_hash r = hash) wallet_key_mismatch) (\<lambda>_. ret w) | None \<Rightarrow> m))
      (\<lambda>w s. ?I s \<and> wallet_known w s)"
    if m: "hoare ?R ?I m (\<lambda>w s. ?I s \<and> wallet_known w s)" for m
  proof (rule ac.hoare_bnd)
    show "hoare ?R ?I (gets (find_wallet_key user key))
        (\<lambda>found s. ?I s \<and> (\<forall>r w. found = Some (r, w) \<longrightarrow> wallet_known w s))"
      by (rule ac.hoare_gets) (auto dest: find_wallet_key_in intro: wallet_known_in)
    fix found
    show "hoare ?R (\<lambda>s. ?I s \<and> (\<forall>r w. found = Some (r, w) \<longrightarrow> wallet_known w s))
        (case found of Some (r, w) \<Rightarrow> bnd (ensure (wk_hash r = hash) wallet_key_mismatch) (\<lambda>_. ret w) | None \<Rightarrow> m)
        (\<lambda>w s. ?I s \<and> wallet_known w s)"
    proof (cases found)
      case None
      then show ?thesis using m by (auto intro: hoare_weaken)
    next
      case (Some p)
      obtain r w where p: "p = (r, w)" by fastforce
      show ?thesis
        unfolding Some p option.case prod.case
        by (rule ac.hoare_bnd [OF ac.hoare_ensure ac.hoare_ret, where A = "\<lambda>_ s. ?I s \<and> wallet_known w s"]) simp_all
    qed
  qed
  have pause: "hoare ?R ?I (bnd (pause (nv_others v k)) (\<lambda>_. m)) Q" if "hoare ?R ?I m Q" for k m and Q :: "wallet \<Rightarrow> 'w account_state \<Rightarrow> bool"
    by (rule ac.hoare_bnd [OF ac.hoare_steps [OF calmD(5) [OF assms] inv_alone] that])
  show ?thesis
    unfolding claim_wallet_def
    by (rule replay [of "bnd _ _"], intro pause ac.hoare_bnd [OF ac.hoare_steps [OF ac.steps_gets inv_alone]]
        ac.hoare_bnd [OF ac.hoare_steps [OF ac.steps_ensure inv_alone]]
        ac.hoare_catch [OF inv_alone insert_hoare] hoare_if ac.hoare_throw replay [OF ac.hoare_throw])
qed

end

end
