(* ===== verification/AccountRuns.thy ===== *)
theory AccountRuns
  imports AccountSteps
begin

text \<open>
  Provisioning a wallet, the requests of the Account service and what they leave behind, for any providers
  that keep their promises.
\<close>

definition provisioned ::
  "(uuid \<Rightarrow> uuid \<Rightarrow> string \<Rightarrow> 'w \<Rightarrow> bool) \<Rightarrow> wallet \<Rightarrow> 'w account_state \<Rightarrow> bool" where
  "provisioned account w s \<longleftrightarrow>
     wallet_known w s \<and> wl_status w = WalletActive \<and>
     (\<exists>i. wl_ledger w = Some i \<and> account i (wl_id w) (wl_currency w) (account_world s))"

context account_providers
begin

lemma provisioned_stable:
  "stable (account_step good later account L C) (\<lambda>s. account_inv good account L C s \<and> provisioned account w s)"
proof (rule inv_stable)
  fix s t :: "'w account_state"
  assume p: "provisioned account w s" and inv: "account_inv good account L C s"
    and later: "account_later s t" "later (account_world s) (account_world t)"
  have "good (account_world s)" using inv by (simp add: account_inv_def)
  then show "provisioned account w t"
    using p wallet_known_later [OF _ later(1)] account_kept [OF _ later(2)] by (auto simp: provisioned_def)
qed

lemma account_stable:
  "stable (account_step good later account L C)
     (\<lambda>s. account_inv good account L C s \<and> wallet_known w s \<and> account i (wl_id w) (wl_currency w) (account_world s))"
  by (rule inv_stable) (auto simp: account_inv_def dest: wallet_known_later intro: account_kept)

lemma provision_hoare:
  assumes "env_ok v"
  shows "hoare (account_step good later account L C)
     (\<lambda>s. account_inv good account L C s \<and> wallet_known w s)
     (ledger_request v (nv_provision v (wl_id w) (wl_currency w)))
     (\<lambda>p s. account_inv good account L C s \<and> wallet_known w s \<and>
        account (br_account p) (wl_id w) (wl_currency w) (account_world s))"
proof (rule hoareI)
  fix s r t
  assume s: "account_inv good account L C s \<and> wallet_known w s"
    and r: "ledger_request v (nv_provision v (wl_id w) (wl_currency w)) s = (r, t)"
  have st: "account_step good later account L C s t"
    by (rule stepsD_eq [OF ledger_request_step r]) (rule calls_later(1) [OF assms])
  then have t: "account_inv good account L C t" "account_later s t" using s by (simp_all add: account_step_def)
  have "account (br_account p) (wl_id w) (wl_currency w) (account_world t)" if p: "r = Inr p" for p
  proof -
    obtain f x where f: "nv_provision v (wl_id w) (wl_currency w) (account_world s) = (f, x)" by fastforce
    then have "ledger_answer f = Inr p" and x: "account_world t = x"
      using r p by (auto simp: ledger_request_def split: if_splits)
    then obtain st code msg where "f = Response st p code msg" "200 \<le> st" "st \<le> 299"
      by (cases f) (auto simp: ledger_answer_def split: if_splits)
    moreover have "good (account_world s)" using s by (simp add: account_inv_def)
    ultimately show ?thesis using provision_account [OF assms] f x by blast
  qed
  then show "account_step good later account L C s t \<and>
      (\<forall>p. r = Inr p \<longrightarrow> account_inv good account L C t \<and> wallet_known w t \<and>
         account (br_account p) (wl_id w) (wl_currency w) (account_world t))"
    using st t s wallet_known_later by blast
qed

lemma activate_hoare:
  "hoare (account_step good later account L C)
     (\<lambda>s. account_inv good account L C s \<and> wallet_known w s \<and>
        account (br_account p) (wl_id w) (wl_currency w) (account_world s))
     (activate_wallet v w p)
     (\<lambda>a s. account_inv good account L C s \<and> provisioned account a s)"
proof (rule hoareI)
  fix s r t
  assume s: "account_inv good account L C s \<and> wallet_known w s \<and>
      account (br_account p) (wl_id w) (wl_currency w) (account_world s)"
    and r: "activate_wallet v w p s = (r, t)"
  show "account_step good later account L C s t \<and>
      (\<forall>a. r = Inr a \<longrightarrow> account_inv good account L C t \<and> provisioned account a t)"
  proof (cases r)
    case (Inl x)
    then show ?thesis using r update_wallet_Inl ac.R_refl unfolding activate_wallet_def by blast
  next
    case (Inr a)
    obtain q where q: "find_wallet (wl_id w) s = Some q"
      and a: "a = q\<lparr>wl_ledger := Some (br_account p), wl_status := WalletActive, wl_updated := nv_now v 3\<rparr>"
      and u: "unique_some wl_ledger (update_where (\<lambda>q. wl_id q = wl_id w) (\<lambda>_. a) (wallets s))"
      and t: "t = s\<lparr>wallets := update_where (\<lambda>q. wl_id q = wl_id w) (\<lambda>_. a) (wallets s)\<rparr>"
      using update_wallet_Inr [OF r [unfolded Inr activate_wallet_def]] by auto
    have ok: "account_ok L C s" using s by (simp add: account_inv_def)
    note upd = wallet_updated_ok [OF ok q a u t]
    obtain q' where q': "q' \<in> set (wallets s)" "wallet_core q' = wallet_core w"
      using s by (auto simp: wallet_known_def later_wallet_def)
    have "wl_id q' = wl_id q" using find_wallet_in [OF q] q'(2) by (simp add: wallet_core_def)
    then have "q' = q"
      using distinct_key [of wl_id "wallets s" q' q] ok q'(1) find_wallet_in [OF q]
      by (simp add: account_ok_def wallets_ok_def)
    then have core: "wl_id a = wl_id w" "wl_currency a = wl_currency w" using q'(2) a by (simp_all add: wallet_core_def)
    have held: "account (br_account p) (wl_id a) (wl_currency a) (account_world s)" using s core by simp
    have step: "account_step good later account L C s t"
    proof (rule tables_step)
      have "w' \<in> set (wallets s) \<or> w' = a" if "w' \<in> set (wallets t)" for w'
        using in_update_where [of w' _ _ "wallets s"] that t by auto
      moreover have "wl_ledger a = Some i \<longrightarrow> account i (wl_id a) (wl_currency a) (account_world s)" for i
        using held a by auto
      ultimately have "\<forall>w\<in>set (wallets t). w \<in> set (wallets s) \<or>
          (\<forall>i. wl_ledger w = Some i \<longrightarrow> account i (wl_id w) (wl_currency w) (account_world s))" by blast
      moreover have "account_world t = account_world s" using t by simp
      ultimately show "account_ok L C t \<and> account_later s t \<and> account_world t = account_world s \<and>
        (\<forall>w\<in>set (wallets t). w \<in> set (wallets s) \<or>
           (\<forall>i. wl_ledger w = Some i \<longrightarrow> account i (wl_id w) (wl_currency w) (account_world s)))"
        using upd(1,2) by blast
    qed
    moreover have "account_inv good account L C t" using step s by (simp add: account_step_def)
    moreover have "provisioned account a t"
      using wallet_known_in [OF upd(3)] held t a by (simp add: provisioned_def)
    ultimately show ?thesis using Inr by simp
  qed
qed

lemma append_audit_logged:
  assumes "env_ok v" and "append_audit v e s = (Inr u, t)" and "good (account_world s)"
  shows "logged e (account_world t)"
proof -
  obtain f x where f: "nv_append v e (account_world s) = (f, x)" by fastforce
  then obtain st code msg where "f = Response st () code msg" "200 \<le> st" "st \<le> 299" "account_world t = x"
    using assms(2) by (cases f) (auto simp: append_audit_def split: if_splits)
  then show ?thesis using append_logged [OF assms(1,3)] f by blast
qed

lemma audit_hoare:
  assumes "env_ok v" and "stable (account_step good later account L C) (\<lambda>s. account_inv good account L C s \<and> P s)"
  shows "hoare (account_step good later account L C) (\<lambda>s. account_inv good account L C s \<and> P s) (append_audit v e)
     (\<lambda>_ s. account_inv good account L C s \<and> P s \<and> logged e (account_world s))"
proof (rule hoareI)
  fix s r t
  assume s: "account_inv good account L C s \<and> P s" and r: "append_audit v e s = (r, t)"
  have st: "account_step good later account L C s t" by (rule stepsD_eq [OF append_audit_step [OF assms(1)] r])
  then have "account_inv good account L C t \<and> P t" using assms(2) s unfolding stable_def by blast
  moreover have "logged e (account_world t)" if "r = Inr u" for u
    using append_audit_logged [OF assms(1) r [unfolded that]] s by (simp add: account_inv_def)
  ultimately show "account_step good later account L C s t \<and>
      (\<forall>u. r = Inr u \<longrightarrow> account_inv good account L C t \<and> P t \<and> logged e (account_world t))"
    using st by blast
qed

text \<open>What an answer to a creation says of the tables, the Ledger and the audit trail.\<close>

definition created_wallet :: "(string \<Rightarrow> string) \<Rightarrow> string \<Rightarrow> wallet_response \<Rightarrow> 'w account_state \<Rightarrow> bool" where
  "created_wallet sha actor r s \<longleftrightarrow>
     (\<exists>a p. r = wallet_response_of a (Some p) \<and> provisioned account a s \<and>
        logged (activation_event sha (wl_id a) actor (wl_currency a) (wl_updated a)) (account_world s))"

lemma create_wallet_hoare:
  assumes "account_calm env_ok good later account L C v"
  shows "hoare (account_step good later account L C) (account_inv good account L C) (create_wallet v external key c)
     (\<lambda>r s. account_inv good account L C s \<and> created_wallet (nv_sha256 v) external r s)"
proof -
  let ?R = "account_step good later account L C" and ?I = "account_inv good account L C"
  have pause: "hoare ?R P (bnd (pause (nv_others v k)) (\<lambda>_. m)) Q" if "stable ?R P" "hoare ?R P m Q"
    for k P and m :: "('w account_state, wallet_response) act" and Q
    by (rule ac.hoare_bnd [OF ac.hoare_steps [OF calmD(5) [OF assms] that(1)] that(2)])
  have settle: "hoare ?R (\<lambda>s. ?I s \<and> wallet_known w s \<and> account (br_account p) (wl_id w) (wl_currency w) (account_world s))
      (if wl_status w = WalletActive \<and> wl_ledger w = Some (br_account p) then ret w else activate_wallet v w p)
      (\<lambda>a s. ?I s \<and> provisioned account a s)" for w p
    by (intro hoare_if activate_hoare ac.hoare_ret) (auto simp: provisioned_def)
  have answer: "hoare ?R (\<lambda>s. ?I s \<and> provisioned account a s)
      (bnd (append_audit v (activation_event (nv_sha256 v) (wl_id a) external (wl_currency a) (wl_updated a)))
         (\<lambda>_. ret (wallet_response_of a (Some p))))
      (\<lambda>r s. ?I s \<and> created_wallet (nv_sha256 v) external r s)" for a p
    by (rule ac.hoare_bnd [OF audit_hoare [OF calmD(1) [OF assms] provisioned_stable] ac.hoare_ret]) (auto simp: created_wallet_def)
  show ?thesis
    unfolding create_wallet_def Let_def
    by (intro ac.hoare_bnd [OF ac.hoare_steps [OF ac.steps_ensure inv_alone]]
        ac.hoare_bnd [OF ac.hoare_steps [OF ensure_user_step [OF assms] inv_alone]]
        pause inv_alone ac.hoare_bnd [OF claim_hoare [OF assms]] known_stable
        ac.hoare_bnd [OF provision_hoare [OF calmD(1) [OF assms]]] account_stable
        ac.hoare_bnd [OF settle] provisioned_stable answer)
qed

lemma reconcile_wallet_hoare:
  assumes "account_calm env_ok good later account L C v"
  shows "hoare (account_step good later account L C) (account_inv good account L C) (reconcile_wallet v i)
     (\<lambda>r s. account_inv good account L C s \<and> (\<exists>a p. r = wallet_response_of a (Some p) \<and> provisioned account a s))"
proof -
  let ?R = "account_step good later account L C" and ?I = "account_inv good account L C"
  have pause: "hoare ?R P (bnd (pause (nv_others v k)) (\<lambda>_. m)) Q" if "stable ?R P" "hoare ?R P m Q"
    for k P and m :: "('w account_state, wallet_response) act" and Q
    by (rule ac.hoare_bnd [OF ac.hoare_steps [OF calmD(5) [OF assms] that(1)] that(2)])
  have go: "hoare ?R (\<lambda>s. ?I s \<and> wallet_known w s)
      (bnd (pause (nv_others v 9)) (\<lambda>_.
         bnd (ledger_request v (nv_provision v (wl_id w) (wl_currency w))) (\<lambda>p.
         bnd (pause (nv_others v 10)) (\<lambda>_.
         bnd (activate_wallet v w p) (\<lambda>active. ret (wallet_response_of active (Some p)))))))
      (\<lambda>r s. ?I s \<and> (\<exists>a p. r = wallet_response_of a (Some p) \<and> provisioned account a s))" for w
    by (intro pause known_stable ac.hoare_bnd [OF provision_hoare [OF calmD(1) [OF assms]]] account_stable
        ac.hoare_bnd [OF activate_hoare] ac.hoare_ret) auto
  show ?thesis
    unfolding reconcile_wallet_def
  proof (rule ac.hoare_bnd [where A = "\<lambda>found s. ?I s \<and> (\<forall>w. found = Some w \<longrightarrow> wallet_known w s)"])
    show "hoare ?R ?I (gets (find_wallet i)) (\<lambda>found s. ?I s \<and> (\<forall>w. found = Some w \<longrightarrow> wallet_known w s))"
      by (rule ac.hoare_gets) (auto dest: find_wallet_in intro: wallet_known_in)
    fix found
    show "hoare ?R (\<lambda>s. ?I s \<and> (\<forall>w. found = Some w \<longrightarrow> wallet_known w s))
        (case found of None \<Rightarrow> throw wallet_not_found | Some w \<Rightarrow>
           bnd (pause (nv_others v 9)) (\<lambda>_.
           bnd (ledger_request v (nv_provision v (wl_id w) (wl_currency w))) (\<lambda>p.
           bnd (pause (nv_others v 10)) (\<lambda>_.
           bnd (activate_wallet v w p) (\<lambda>active. ret (wallet_response_of active (Some p)))))))
        (\<lambda>r s. ?I s \<and> (\<exists>a p. r = wallet_response_of a (Some p) \<and> provisioned account a s))"
      by (cases found) (auto intro: ac.hoare_throw hoare_weaken [OF go])
  qed
qed

lemma steps_of_hoare:
  "hoare (account_step good later account L C) (account_inv good account L C) m Q \<Longrightarrow>
     steps (account_step good later account L C) m"
  by (erule ac.steps_hoare) (simp add: account_step_def)

lemma list_wallets_step:
  assumes "account_calm env_ok good later account L C v"
  shows "steps (account_step good later account L C) (list_wallets v external)"
    and "steps (account_step good later account L C) (wallet_balance_of v external i)"
proof -
  show "steps (account_step good later account L C) (list_wallets v external)"
    unfolding list_wallets_def wallet_balances_def
    by (intro ac.steps_rules ensure_user_step calmD(5) [OF assms] ledger_request_step
        calls_later [OF calmD(1) [OF assms]] assms)
  show "steps (account_step good later account L C) (wallet_balance_of v external i)"
    unfolding wallet_balance_of_def
    by (intro ac.steps_rules ensure_user_step calmD(5) [OF assms] ledger_request_step
        calls_later [OF calmD(1) [OF assms]] assms)
qed

lemmas account_steps = ensure_user_step update_identity_step reads_step list_wallets_step
  steps_of_hoare [OF create_wallet_hoare] steps_of_hoare [OF reconcile_wallet_hoare]

end

section \<open>Requests\<close>

datatype account_request =
    CreateWallet "string option" string create_wallet_dto
  | ListWallets "string option"
  | WalletBalance "string option" uuid
  | ValidateWallet uuid
  | ReconcileWallet uuid
  | UpdateIdentity "string option" identity_payload
  | GetIdentity "string option"
  | LookupEmail string

fun serve_account ::
  "account_http \<Rightarrow> 'w account_env \<Rightarrow> account_request \<Rightarrow> 'w account_state \<Rightarrow> 'w account_state" where
  "serve_account h v (CreateWallet header key c) s = snd (create_wallet_route h v header key c s)"
| "serve_account h v (ListWallets header) s = snd (list_wallets_route v header s)"
| "serve_account h v (WalletBalance header i) s = snd (wallet_balance_route h v header i s)"
| "serve_account h v (ValidateWallet i) s = snd (validation_route h i s)"
| "serve_account h v (ReconcileWallet i) s = snd (reconcile_wallet_route h v i s)"
| "serve_account h v (UpdateIdentity header i) s = snd (update_identity_route h v header i s)"
| "serve_account h v (GetIdentity header) s = snd (get_identity_route v header s)"
| "serve_account h v (LookupEmail email) s = snd (lookup_email_route h v email s)"

definition empty_account :: "'w \<Rightarrow> 'w account_state" where
  "empty_account x = \<lparr>users = [], wallets = [], wallet_keys = [], account_world = x\<rparr>"

lemma empty_account_ok [simp]: "account_ok L C (empty_account x)"
  by (simp add: account_ok_def users_ok_def wallets_ok_def wallet_keys_ok_def empty_account_def)

context account_providers
begin

lemma serve_account_step:
  assumes "account_calm env_ok good later account L C v"
  shows "account_step good later account L C s (serve_account h v q s)"
  by (cases q)
    (auto simp: create_wallet_route_def list_wallets_route_def wallet_balance_route_def validation_route_def
      reconcile_wallet_route_def update_identity_route_def get_identity_route_def lookup_email_route_def
      intro!: stepsD [where R = "account_step good later account L C"] ac.steps_validated ac.steps_guarded
        ac.steps_principal account_steps assms)

end

end
