(* ===== verification/AccountAnswers.thy ===== *)
theory AccountAnswers
  imports AccountRuns
begin

text \<open>
  What the answers of the Account service say: the identity that an update returns is the one it was asked
  to store, recorded under its own event, and the wallets that are shown belong to the caller.
\<close>

definition user_known :: "string \<Rightarrow> user \<Rightarrow> 'w account_state \<Rightarrow> bool" where
  "user_known external u s \<longleftrightarrow>
     us_external u = external \<and> (\<exists>q\<in>set (users s). us_id q = us_id u \<and> us_external q = external)"

lemma user_known_later: "user_known e u s \<Longrightarrow> account_later s t \<Longrightarrow> user_known e u t"
  unfolding user_known_def account_later_def by (metis grows_in later_user_def)

lemma user_known_in: "u \<in> set (users s) \<Longrightarrow> us_external u = e \<Longrightarrow> user_known e u s"
  by (auto simp: user_known_def)

lemma find_external_in: "find_external e s = Some u \<Longrightarrow> u \<in> set (users s) \<and> us_external u = e"
  unfolding find_external_def by (rule find_Some_in)

definition wallet_owned :: "string \<Rightarrow> uuid \<Rightarrow> 'w account_state \<Rightarrow> bool" where
  "wallet_owned external i s \<longleftrightarrow>
     (\<exists>w\<in>set (wallets s). wl_id w = i \<and> (\<exists>u\<in>set (users s). us_id u = wl_user w \<and> us_external u = external))"

lemma wallet_owned_later: "wallet_owned e i s \<Longrightarrow> account_later s t \<Longrightarrow> wallet_owned e i t"
  unfolding wallet_owned_def account_later_def
  by (smt (verit, best) grows_in later_user_def later_wallet_def wallet_core_def prod.inject)

context account_providers
begin

lemma user_stable:
  "stable (account_step good later account L C) (\<lambda>s. account_inv good account L C s \<and> user_known e u s)"
  by (rule inv_stable) (rule user_known_later)

lemma owned_stable:
  "stable (account_step good later account L C) (\<lambda>s. account_inv good account L C s \<and> (\<forall>i\<in>A. wallet_owned e i s))"
  by (rule inv_stable) (auto dest: wallet_owned_later)

text \<open>Storing an encrypted identity of a known user.\<close>

lemma store_hoare:
  assumes "account_calm env_ok good later account L C v"
  shows "hoare (account_step good later account L C)
     (\<lambda>s. account_inv good account L C s \<and> user_known e u s)
     (bnd (sealed v k (us_id u) p) (\<lambda>q. update_user now (us_id u) (\<lambda>_. q)))
     (\<lambda>w s. account_inv good account L C s \<and> user_known e w s \<and> us_id w = us_id u \<and>
        decrypt_identity L C (us_id w) (us_sealed w) = Inr (normalize_identity L p))"
proof (rule hoareI)
  fix s r t
  let ?m = "bnd (sealed v k (us_id u) p) (\<lambda>q. update_user now (us_id u) (\<lambda>_. q))"
  assume s: "account_inv good account L C s \<and> user_known e u s" and r: "?m s = (r, t)"
  have st: "account_step good later account L C s t"
    by (rule stepsD_eq [OF sealed_bnd [OF assms update_user_step] r])
  have "user_known e w t \<and> us_id w = us_id u \<and> decrypt_identity L C (us_id w) (us_sealed w) = Inr (normalize_identity L p)"
    if w: "r = Inr w" for w
  proof -
    obtain q where q: "encrypt_identity L C (nv_random v k) (us_id u) p = Inr q"
      and row: "update_user now (us_id u) (\<lambda>_. q) s = (Inr w, t)"
      using r w calmD [OF assms] by (auto simp: bnd_def sealed_def split: sum.splits)
    obtain u0 where u0: "find_user (us_id u) s = Some u0" "w = u0\<lparr>us_sealed := q, us_updated := now\<rparr>"
      "t = s\<lparr>users := update_where (\<lambda>q. us_id q = us_id u) (\<lambda>_. w) (users s)\<rparr>"
      using update_user_Inr [OF row] by auto
    have u0_in: "u0 \<in> set (users s)" "us_id u0 = us_id u" using find_user_in [OF u0(1)] by auto
    obtain q0 where q0: "q0 \<in> set (users s)" "us_id q0 = us_id u" "us_external q0 = e"
      using s by (auto simp: user_known_def)
    have "distinct (map us_id (users s))" using s by (simp add: account_inv_def account_ok_def users_ok_def)
    then have "q0 = u0" using distinct_key q0 u0_in by metis
    then have ext: "us_external w = e" using q0(3) u0(2) by simp
    have "w \<in> set (users t)" using u0(3) u0_in by (auto simp: update_where_def image_iff)
    then have "user_known e w t" using ext by (rule user_known_in)
    then show ?thesis
      using u0(2) u0_in(2) encrypted_opens(1) [OF calmD(4) [OF assms] q refl] by simp
  qed
  moreover have "account_inv good account L C t" using st s by (simp add: account_step_def)
  ultimately show "account_step good later account L C s t \<and>
      (\<forall>w. r = Inr w \<longrightarrow> account_inv good account L C t \<and> user_known e w t \<and> us_id w = us_id u \<and>
         decrypt_identity L C (us_id w) (us_sealed w) = Inr (normalize_identity L p))"
    using st by blast
qed

lemma found_user_hoare:
  "hoare (account_step good later account L C) (account_inv good account L C) (gets (find_external e))
     (\<lambda>found s. account_inv good account L C s \<and> (\<forall>u. found = Some u \<longrightarrow> user_known e u s))"
  by (rule ac.hoare_gets) (auto dest: find_external_in intro: user_known_in)

lemma ensure_user_hoare:
  assumes "account_calm env_ok good later account L C v"
  shows "hoare (account_step good later account L C) (account_inv good account L C) (ensure_user v e)
     (\<lambda>u s. account_inv good account L C s \<and> user_known e u s)"
proof -
  let ?R = "account_step good later account L C" and ?I = "account_inv good account L C"
  let ?Q = "\<lambda>u s. ?I s \<and> user_known e u s"
  have pause: "hoare ?R P (bnd (pause (nv_others v k)) (\<lambda>_. m)) Q" if "stable ?R P" "hoare ?R P m Q"
    for k P and m :: "('w account_state, user) act" and Q
    by (rule ac.hoare_bnd [OF ac.hoare_steps [OF calmD(5) [OF assms] that(1)] that(2)])
  have known: "hoare ?R (\<lambda>s. ?I s \<and> user_known e u s)
      (if si_ciphertext (us_sealed u) = []
       then bnd (sealed v 0 (us_id u) no_identity) (\<lambda>q. update_user (nv_now v 0) (us_id u) (\<lambda>_. q)) else ret u) ?Q" for u
    by (intro hoare_if ac.hoare_ret) (auto intro: hoare_weaken [OF store_hoare [OF assms]])
  have fresh: "hoare ?R ?I
      (bnd (sealed v 0 (nv_user_id v) no_identity) (\<lambda>q.
         create_user \<lparr>us_id = nv_user_id v, us_external = e, us_sealed = q, us_status = UserActive,
           us_updated = nv_now v 0\<rparr>)) ?Q"
  proof (rule hoareI)
    fix s r t
    let ?m = "bnd (sealed v 0 (nv_user_id v) no_identity) (\<lambda>q.
         create_user \<lparr>us_id = nv_user_id v, us_external = e, us_sealed = q, us_status = UserActive,
           us_updated = nv_now v 0\<rparr>)"
    assume s: "?I s" and r: "?m s = (r, t)"
    have "steps ?R ?m" by (rule sealed_bnd [OF assms create_user_step]) simp
    then have st: "?R s t" using r by (rule stepsD_eq)
    have "user_known e u t" if "r = Inr u" for u
      using r that by (auto simp: bnd_def sealed_def user_known_def dest!: create_user_Inr split: sum.splits)
    then show "?R s t \<and> (\<forall>u. r = Inr u \<longrightarrow> ?Q u t)" using st s by (simp add: account_step_def)
  qed
  have winner: "hoare ?R ?I (bnd (gets (find_external e)) (\<lambda>w. case w of Some u \<Rightarrow> ret u | None \<Rightarrow> throw x)) ?Q" for x
  proof (rule ac.hoare_bnd [OF found_user_hoare])
    fix w
    show "hoare ?R (\<lambda>s. ?I s \<and> (\<forall>u. w = Some u \<longrightarrow> user_known e u s)) (case w of Some u \<Rightarrow> ret u | None \<Rightarrow> throw x) ?Q"
      by (cases w) (auto intro: ac.hoare_throw ac.hoare_ret)
  qed
  have created: "hoare ?R ?I
      (catch
         (bnd (sealed v 0 (nv_user_id v) no_identity) (\<lambda>q.
            create_user \<lparr>us_id = nv_user_id v, us_external = e, us_sealed = q, us_status = UserActive,
              us_updated = nv_now v 0\<rparr>))
         (\<lambda>x. if is_unique_violation x
              then bnd (pause (nv_others v 1)) (\<lambda>_. bnd (gets (find_external e)) (\<lambda>w.
                     case w of Some u \<Rightarrow> ret u | None \<Rightarrow> throw (DbError P2025)))
              else throw x)) ?Q"
    by (intro ac.hoare_catch [OF inv_alone fresh] hoare_if ac.hoare_throw pause inv_alone winner)
  show ?thesis
    unfolding ensure_user_def
  proof (rule ac.hoare_bnd [OF found_user_hoare])
    fix found
    have st: "stable ?R (\<lambda>s. ?I s \<and> (\<forall>u. found = Some u \<longrightarrow> user_known e u s))"
      by (rule inv_stable) (auto dest: user_known_later)
    have branch: "hoare ?R (\<lambda>s. ?I s \<and> (\<forall>u. found = Some u \<longrightarrow> user_known e u s))
        (case found of Some u \<Rightarrow> f u | None \<Rightarrow> m) ?Q"
      if "hoare ?R ?I m ?Q" "\<And>u. hoare ?R (\<lambda>s. ?I s \<and> user_known e u s) (f u) ?Q" for f m
      using that by (cases found) (auto intro: hoare_weaken)
    show "hoare ?R (\<lambda>s. ?I s \<and> (\<forall>u. found = Some u \<longrightarrow> user_known e u s))
      (bnd (pause (nv_others v 0)) (\<lambda>_.
         case found of
           Some u \<Rightarrow>
             if si_ciphertext (us_sealed u) = []
             then bnd (sealed v 0 (us_id u) no_identity) (\<lambda>q. update_user (nv_now v 0) (us_id u) (\<lambda>_. q)) else ret u
         | None \<Rightarrow>
             catch
               (bnd (sealed v 0 (nv_user_id v) no_identity) (\<lambda>q.
                  create_user \<lparr>us_id = nv_user_id v, us_external = e, us_sealed = q, us_status = UserActive,
                    us_updated = nv_now v 0\<rparr>))
               (\<lambda>x. if is_unique_violation x
                    then bnd (pause (nv_others v 1)) (\<lambda>_. bnd (gets (find_external e)) (\<lambda>w.
                           case w of Some u \<Rightarrow> ret u | None \<Rightarrow> throw (DbError P2025)))
                    else throw x))) ?Q"
      by (rule pause [OF st branch [OF created known]])
  qed
qed

end

text \<open>An update of an identity.\<close>

definition identity_stored :: "crypto_lib \<Rightarrow> string \<Rightarrow> identity_payload \<Rightarrow> identity_response \<Rightarrow> 'w account_state \<Rightarrow> bool" where
  "identity_stored L external input r s \<longleftrightarrow>
     ir_external r = external \<and>
     ir_identity r \<in> {normalize_identity L input, normalize_identity L (normalize_identity L input)} \<and>
     (\<exists>q\<in>set (users s). us_id q = ir_user r \<and> us_external q = external)"

context account_providers
begin

lemma update_identity_hoare:
  assumes "account_calm env_ok good later account L C v"
  shows "hoare (account_step good later account L C) (account_inv good account L C) (update_identity v external input)
     (\<lambda>r s. account_inv good account L C s \<and> identity_stored L external input r s \<and>
        (\<exists>occurred. logged (identity_event (nv_sha256 v) (ir_user r) external
           (canonical_identity (normalize_identity L input)) occurred) (account_world s)))"
proof -
  let ?R = "account_step good later account L C" and ?I = "account_inv good account L C"
  let ?n = "normalize_identity L input"
  let ?Q = "\<lambda>r s. ?I s \<and> identity_stored L external input r s \<and>
        (\<exists>occurred. logged (identity_event (nv_sha256 v) (ir_user r) external (canonical_identity ?n) occurred) (account_world s))"
  let ?read = "\<lambda>u w. us_id w = us_id u \<and> (\<exists>p\<in>{?n, normalize_identity L ?n}. decrypt_identity L C (us_id w) (us_sealed w) = Inr p)"
  have L: "nv_crypto v = L" "nv_config v = C" using calmD [OF assms] by simp_all
  have pause: "hoare ?R P (bnd (pause (nv_others v k)) (\<lambda>_. m)) Q" if "stable ?R P" "hoare ?R P m Q"
    for k P and m :: "('w account_state, 'b) act" and Q
    by (rule ac.hoare_bnd [OF ac.hoare_steps [OF calmD(5) [OF assms] that(1)] that(2)])
  have known: "stable ?R (\<lambda>s. ?I s \<and> user_known external w s \<and> ?read u w)" for u w
    by (rule inv_stable) (auto dest: user_known_later)
  have last: "hoare ?R (\<lambda>s. ?I s \<and> (user_known external w s \<and> ?read u w) \<and>
        logged (identity_event (nv_sha256 v) (us_id u) external (canonical_identity ?n) (us_updated w)) (account_world s))
      (bnd (opened v w) (\<lambda>p. ret (identity_response_of w p))) ?Q" for u w
    unfolding hoare_def
    by (auto simp: bnd_def opened_def L ac.R_refl identity_stored_def identity_response_of_def user_known_def) blast+
  have answer: "hoare ?R (\<lambda>s. ?I s \<and> user_known external w s \<and> ?read u w)
      (bnd (pause (nv_others v 3)) (\<lambda>_.
       bnd (append_audit v (identity_event (nv_sha256 v) (us_id u) external (canonical_identity ?n) (us_updated w))) (\<lambda>_.
       bnd (opened v w) (\<lambda>p. ret (identity_response_of w p))))) ?Q" for u w
    by (rule pause [OF known ac.hoare_bnd [OF audit_hoare [OF calmD(1) [OF assms] known] last]])
  have change: "hoare ?R (\<lambda>s. ?I s \<and> user_known external u s)
      (bnd (pause (nv_others v 2)) (\<lambda>_.
         catch (bnd (sealed v 1 (us_id u) ?n) (\<lambda>e. update_user (nv_now v 1) (us_id u) (\<lambda>_. e)))
           (\<lambda>x. throw (if is_unique_violation x then email_already_exists else x))))
      (\<lambda>w s. ?I s \<and> user_known external w s \<and> ?read u w)" for u
    by (rule pause [OF user_stable ac.hoare_catch [OF user_stable _ ac.hoare_throw]])
      (rule hoare_weaken [OF store_hoare [OF assms]], auto)
  have body: "hoare ?R (\<lambda>s. ?I s \<and> user_known external u s)
      (bnd (opened v u) (\<lambda>existing.
       bnd (if canonical_identity existing \<noteq> canonical_identity ?n
            then bnd (pause (nv_others v 2)) (\<lambda>_.
               catch (bnd (sealed v 1 (us_id u) ?n) (\<lambda>e. update_user (nv_now v 1) (us_id u) (\<lambda>_. e)))
                 (\<lambda>x. throw (if is_unique_violation x then email_already_exists else x)))
            else ret u) (\<lambda>w.
       bnd (pause (nv_others v 3)) (\<lambda>_.
       bnd (append_audit v (identity_event (nv_sha256 v) (us_id u) external (canonical_identity ?n) (us_updated w))) (\<lambda>_.
       bnd (opened v w) (\<lambda>p. ret (identity_response_of w p))))))) ?Q" for u
  proof (rule ac.hoare_bnd [where A = "\<lambda>x s. ?I s \<and> user_known external u s \<and> decrypt_identity L C (us_id u) (us_sealed u) = Inr x"])
    show "hoare ?R (\<lambda>s. ?I s \<and> user_known external u s) (opened v u)
        (\<lambda>x s. ?I s \<and> user_known external u s \<and> decrypt_identity L C (us_id u) (us_sealed u) = Inr x)"
      by (simp add: hoare_def opened_def L ac.R_refl)
    show "hoare ?R (\<lambda>s. ?I s \<and> user_known external u s \<and> decrypt_identity L C (us_id u) (us_sealed u) = Inr x)
      (bnd (if canonical_identity x \<noteq> canonical_identity ?n
            then bnd (pause (nv_others v 2)) (\<lambda>_.
               catch (bnd (sealed v 1 (us_id u) ?n) (\<lambda>e. update_user (nv_now v 1) (us_id u) (\<lambda>_. e)))
                 (\<lambda>x. throw (if is_unique_violation x then email_already_exists else x)))
            else ret u) (\<lambda>w.
       bnd (pause (nv_others v 3)) (\<lambda>_.
       bnd (append_audit v (identity_event (nv_sha256 v) (us_id u) external (canonical_identity ?n) (us_updated w))) (\<lambda>_.
       bnd (opened v w) (\<lambda>p. ret (identity_response_of w p)))))) ?Q" for x
    proof (rule ac.hoare_bnd [OF hoare_if answer])
      show "hoare ?R (\<lambda>s. ?I s \<and> user_known external u s \<and> decrypt_identity L C (us_id u) (us_sealed u) = Inr x)
        (bnd (pause (nv_others v 2)) (\<lambda>_.
               catch (bnd (sealed v 1 (us_id u) ?n) (\<lambda>e. update_user (nv_now v 1) (us_id u) (\<lambda>_. e)))
                 (\<lambda>x. throw (if is_unique_violation x then email_already_exists else x))))
        (\<lambda>w s. ?I s \<and> user_known external w s \<and> ?read u w)"
        by (rule hoare_weaken [OF change]) auto
      assume "\<not> canonical_identity x \<noteq> canonical_identity ?n"
      then have "x = ?n" using canonical_inject by blast
      then show "hoare ?R (\<lambda>s. ?I s \<and> user_known external u s \<and> decrypt_identity L C (us_id u) (us_sealed u) = Inr x)
        (ret u) (\<lambda>w s. ?I s \<and> user_known external w s \<and> ?read u w)"
        by (intro ac.hoare_ret) auto
    qed
  qed
  show ?thesis
    unfolding update_identity_def Let_def L
    by (rule ac.hoare_bnd [OF ensure_user_hoare [OF assms] body])
qed

text \<open>The wallets that a request reads are those of its caller.\<close>

lemma list_wallets_hoare:
  assumes "account_calm env_ok good later account L C v"
  shows "hoare (account_step good later account L C) (account_inv good account L C) (list_wallets v external)
     (\<lambda>rs s. account_inv good account L C s \<and> (\<forall>i\<in>wr_id ` set rs. wallet_owned external i s))"
proof -
  let ?R = "account_step good later account L C" and ?I = "account_inv good account L C"
  have pause: "hoare ?R P (bnd (pause (nv_others v k)) (\<lambda>_. m)) Q" if "stable ?R P" "hoare ?R P m Q"
    for k P and m :: "('w account_state, 'b) act" and Q
    by (rule ac.hoare_bnd [OF ac.hoare_steps [OF calmD(5) [OF assms] that(1)] that(2)])
  let ?own = "\<lambda>ws s. ?I s \<and> (\<forall>i\<in>wl_id ` set ws. wallet_owned external i s)"
  have read: "hoare ?R (\<lambda>s. ?I s \<and> user_known external u s)
      (gets (\<lambda>s. sort_key wl_created (sort_key wl_id (filter (\<lambda>w. wl_user w = us_id u) (wallets s))))) ?own" for u
    by (rule ac.hoare_gets) (auto simp: user_known_def wallet_owned_def, metis)
  have balances: "hoare ?R (?own ws) (wallet_balances v (map wl_id (filter (\<lambda>w. wl_ledger w \<noteq> None) ws))) (\<lambda>_. ?own ws)" for ws
    unfolding wallet_balances_def
    by (rule ac.hoare_steps [OF _ owned_stable])
      (intro ac.steps_rules ledger_request_step calls_later [OF calmD(1) [OF assms]])
  have answer: "hoare ?R (?own ws) (ret (map (\<lambda>w. wallet_response_of w (bal (wl_id w))) ws))
      (\<lambda>rs s. ?I s \<and> (\<forall>i\<in>wr_id ` set rs. wallet_owned external i s))" for ws and bal :: "uuid \<Rightarrow> balance_response option"
    by (rule ac.hoare_ret) (auto simp: wallet_response_of_def)
  show ?thesis
    unfolding list_wallets_def
    by (rule ac.hoare_bnd [OF ensure_user_hoare [OF assms]
        pause [OF user_stable ac.hoare_bnd [OF read pause [OF owned_stable ac.hoare_bnd [OF balances answer]]]]])
qed

lemma wallet_balance_hoare:
  assumes "account_calm env_ok good later account L C v"
  shows "hoare (account_step good later account L C) (account_inv good account L C) (wallet_balance_of v external i)
     (\<lambda>_ s. account_inv good account L C s \<and> (\<forall>j\<in>{i}. wallet_owned external j s))"
proof -
  let ?R = "account_step good later account L C" and ?I = "account_inv good account L C"
  let ?own = "\<lambda>s. ?I s \<and> (\<forall>j\<in>{i}. wallet_owned external j s)"
  have pause: "hoare ?R P (bnd (pause (nv_others v k)) (\<lambda>_. m)) Q" if "stable ?R P" "hoare ?R P m Q"
    for k P and m :: "('w account_state, balance_response) act" and Q
    by (rule ac.hoare_bnd [OF ac.hoare_steps [OF calmD(5) [OF assms] that(1)] that(2)])
  have read: "hoare ?R (\<lambda>s. ?I s \<and> user_known external u s)
      (gets (\<lambda>s. List.find (\<lambda>w. wl_id w = i \<and> wl_user w = us_id u) (wallets s)))
      (\<lambda>found s. ?I s \<and> (\<forall>j\<in>{k. found \<noteq> None \<and> k = i}. wallet_owned external j s))" for u
    by (rule ac.hoare_gets) (auto simp: user_known_def wallet_owned_def dest!: find_Some_in, metis)
  have rest: "hoare ?R ?own
      (bnd (ensure (truthy (wl_ledger w)) wallet_not_found) (\<lambda>_.
         bnd (pause (nv_others v 9)) (\<lambda>_. ledger_request v (nv_balance v (wl_id w))))) (\<lambda>_. ?own)" for w
    by (intro ac.hoare_steps [OF _ owned_stable] ac.steps_rules calmD(5) [OF assms] ledger_request_step
        calls_later [OF calmD(1) [OF assms]])
  show ?thesis
    unfolding wallet_balance_of_def
  proof (rule ac.hoare_bnd [OF ensure_user_hoare [OF assms] pause [OF user_stable ac.hoare_bnd [OF read]]])
    fix found
    show "hoare ?R (\<lambda>s. ?I s \<and> (\<forall>j\<in>{k. found \<noteq> None \<and> k = i}. wallet_owned external j s))
      (case found of None \<Rightarrow> throw wallet_not_found | Some w \<Rightarrow>
         bnd (ensure (truthy (wl_ledger w)) wallet_not_found) (\<lambda>_.
         bnd (pause (nv_others v 9)) (\<lambda>_. ledger_request v (nv_balance v (wl_id w))))) (\<lambda>_. ?own)"
      by (cases found) (auto intro: ac.hoare_throw hoare_weaken [OF rest])
  qed
qed

end

end
