(* ===== verification/AccountLinked.thy ===== *)
theory AccountLinked
  imports AccountAnswers ServiceCalls LedgerRuns AuditProofs
begin

text \<open>
  The Account service between the Ledger service and the audit trail of the Admin service: its clients reach
  the routes of LedgerAccounts and of AuditChain, any answer may be lost, and the three services also serve
  others. The world of the Account tables is the pair of the two other services' tables.
\<close>

type_synonym world = "ledger_state \<times> audit_state"

section \<open>The calls\<close>

definition on_ledger :: "(ledger_state \<Rightarrow> 'a fetched \<times> ledger_state) \<Rightarrow> world \<Rightarrow> 'a fetched \<times> world" where
  "on_ledger f x = (let (r, l) = f (fst x) in (r, (l, snd x)))"

definition on_audit :: "(audit_state \<Rightarrow> 'a fetched \<times> audit_state) \<Rightarrow> world \<Rightarrow> 'a fetched \<times> world" where
  "on_audit f x = (let (r, a) = f (snd x) in (r, (fst x, a)))"

definition no_balance :: balance_response where
  "no_balance = \<lparr>br_wallet = [], br_account = [], br_available = [], br_currency = [], br_version = 0\<rparr>"

text \<open>\<open>LedgerClient.provision\<close>, \<open>balance\<close> and \<open>balances\<close>, and \<open>AuditClient.append\<close>.\<close>

definition provision_link ::
  "ledger_http \<Rightarrow> (nat \<Rightarrow> string) \<Rightarrow> (uuid \<Rightarrow> ledger_state \<Rightarrow> ledger_env \<times> uuid \<times> delivery) \<Rightarrow>
     uuid \<Rightarrow> string \<Rightarrow> world \<Rightarrow> balance_response fetched \<times> world" where
  "provision_link h num how w c =
     on_ledger (\<lambda>l. let (v, i, fate) = how w l
       in deliver fate (provision_route h v i \<lparr>pv_wallet = w, pv_currency = c\<rparr>) (http_reply num 201 id no_balance) l)"

definition balance_link ::
  "ledger_http \<Rightarrow> (nat \<Rightarrow> string) \<Rightarrow> (uuid \<Rightarrow> ledger_state \<Rightarrow> ledger_env \<times> delivery) \<Rightarrow>
     uuid \<Rightarrow> world \<Rightarrow> balance_response fetched \<times> world" where
  "balance_link h num how w =
     on_ledger (\<lambda>l. let (v, fate) = how w l
       in deliver fate (balance_route h v w) (http_reply num 200 id no_balance) l)"

definition balances_link ::
  "ledger_http \<Rightarrow> (nat \<Rightarrow> string) \<Rightarrow> (uuid list \<Rightarrow> ledger_state \<Rightarrow> ledger_env \<times> delivery) \<Rightarrow>
     uuid list \<Rightarrow> world \<Rightarrow> balance_response list fetched \<times> world" where
  "balances_link h num how ws =
     on_ledger (\<lambda>l. let (v, fate) = how ws l
       in deliver fate (balances_route h v ws) (http_reply num 201 id []) l)"

definition append_link ::
  "audit_http \<Rightarrow> (nat \<Rightarrow> string) \<Rightarrow> (append_event_dto \<Rightarrow> audit_state \<Rightarrow> audit_env \<times> delivery) \<Rightarrow>
     append_event_dto \<Rightarrow> world \<Rightarrow> unit fetched \<times> world" where
  "append_link h num how e =
     on_audit (\<lambda>a. let (v, fate) = how e a
       in deliver fate (append_route h v e) (http_reply num 201 (\<lambda>_. ()) ()) a)"

text \<open>The environments whose calls reach a Ledger with the decimals \<open>D\<close> and a trail with the digest \<open>sha\<close>.\<close>

definition ledger_peer :: "decimal_lib \<Rightarrow> ledger_env \<Rightarrow> bool" where
  "ledger_peer D v \<longleftrightarrow> lv_decimal v = D \<and> (\<forall>k u. ledger_run D u (lv_others v k u))"

definition audit_peer :: "(string \<Rightarrow> string) \<Rightarrow> audit_env \<Rightarrow> bool" where
  "audit_peer sha v \<longleftrightarrow> audit_env_ok sha v \<and> (\<forall>k u. audit_run sha u (av_others v k u))"

definition account_links :: "decimal_lib \<Rightarrow> (string \<Rightarrow> string) \<Rightarrow> world account_env \<Rightarrow> bool" where
  "account_links D sha v \<longleftrightarrow>
     (\<exists>h num how. nv_provision v = provision_link h num how \<and> (\<forall>w l. ledger_peer D (fst (how w l)))) \<and>
     (\<exists>h num how. nv_balance v = balance_link h num how \<and> (\<forall>w l. ledger_peer D (fst (how w l)))) \<and>
     (\<exists>h num how. nv_balances v = balances_link h num how \<and> (\<forall>ws l. ledger_peer D (fst (how ws l)))) \<and>
     (\<exists>h num how. nv_append v = append_link h num how \<and> (\<forall>e a. audit_peer sha (fst (how e a))))"

section \<open>What the other services hold\<close>

definition world_ok :: "(string \<Rightarrow> string) \<Rightarrow> world \<Rightarrow> bool" where
  "world_ok sha x \<longleftrightarrow> ledger_inv (fst x) \<and> audit_ok sha (snd x)"

definition world_later :: "decimal_lib \<Rightarrow> (string \<Rightarrow> string) \<Rightarrow> world \<Rightarrow> world \<Rightarrow> bool" where
  "world_later D sha x y \<longleftrightarrow> books D (fst x) (fst y) \<and> audit_step sha (snd x) (snd y)"

definition ledger_holds :: "uuid \<Rightarrow> uuid \<Rightarrow> string \<Rightarrow> world \<Rightarrow> bool" where
  "ledger_holds i w c x \<longleftrightarrow>
     (\<exists>a\<in>set (accounts (fst x)). la_id a = i \<and> la_wallet a = Some w \<and> la_currency a = c)"

text \<open>A record with the event's fields, and its metadata after their sanitising, up to the order of keys.\<close>

definition records_event :: "append_event_dto \<Rightarrow> audit_record \<Rightarrow> bool" where
  "records_event e q \<longleftrightarrow>
     ar_event q = ae_event e \<and> ar_stream q = ae_stream e \<and> ar_action q = ae_action e \<and>
     ar_entity_type q = ae_entity_type e \<and> ar_entity q = ae_entity e \<and> ar_actor q = ae_actor e \<and>
     (case sanitize_metadata (case ae_metadata e of None \<Rightarrow> [] | Some ms \<Rightarrow> ms) of
        Inl _ \<Rightarrow> False
      | Inr ms \<Rightarrow> canonical_metadata (as_metadata (ar_metadata q)) = canonical_metadata ms)"

definition trail_has :: "append_event_dto \<Rightarrow> world \<Rightarrow> bool" where
  "trail_has e x \<longleftrightarrow> (\<exists>q\<in>set (audit_records (snd x)). records_event e q)"

subsection \<open>Provisioning\<close>

lemma to_balance_Inr:
  "to_balance D s a = Inr b \<Longrightarrow> br_account b = la_id a"
  by (auto simp: to_balance_def split: option.splits if_splits)

lemma wallet_account_in: "wallet_account w s = Some a \<Longrightarrow> a \<in> set (accounts s) \<and> la_wallet a = Some w"
  by (auto simp: wallet_account_def dest: find_Some_in)

lemma account_holds:
  "wallet_account w t = Some r \<Longrightarrow> to_balance D t r = Inr b \<Longrightarrow> ledger_holds (br_account b) w (la_currency r) (t, a)"
  unfolding ledger_holds_def using wallet_account_in to_balance_Inr by fastforce

lemma created_holds:
  "create_account r u = (Inr q, t) \<Longrightarrow> to_balance D t q = Inr b \<Longrightarrow> la_wallet r = Some w \<Longrightarrow>
     ledger_holds (br_account b) w (la_currency r) (t, a)"
  by (auto simp: create_account_Inr ledger_holds_def dest: to_balance_Inr)

lemma provision_holds:
  assumes "provision v i w c s = (Inr b, t)"
  shows "ledger_holds (br_account b) w c (t, a)"
  using assms
  by (auto simp: provision_def bnd_result_Inr catch_result lift_result_def ensure_apply split: option.splits if_splits
      dest: account_holds created_holds)

lemma failures_lift: "(\<And>s e. f s = Inl e \<Longrightarrow> Q e) \<Longrightarrow> failures (lift_result f) Q"
  by (simp add: failures_def lift_result_def)

lemma to_balance_refusal: "to_balance D s a = Inl e \<Longrightarrow> refusal e"
  by (auto simp: to_balance_def missing_balance_def split: option.splits if_splits)

lemma create_account_refusal: "failures (create_account r) refusal"
  by (auto simp: failures_def create_account_def split: if_splits)

lemma provision_refusal: "failures (provision v i w c) refusal"
proof -
  have "failures (bnd (create_account r) (\<lambda>q. lift_result (\<lambda>s. to_balance D s q))) refusal" for r D
    by (intro failures_rules failures_lift create_account_refusal) (rule to_balance_refusal)
  then show ?thesis
    unfolding provision_def failures_def catch_result bnd_result_Inl
    by (auto simp: ledger_account_mismatch_def lift_result_def ensure_apply catch_result bnd_result_Inl
        dest: to_balance_refusal split: option.splits if_splits)
qed

subsection \<open>Recording\<close>

lemma recorded_event:
  assumes "append_event v False c s = (Inr r, t)"
  shows "\<exists>q\<in>set (audit_records t). records_event c q"
proof -
  obtain e where e: "normalize_event v c = Inr e" and run: "append_normalized v e False s = (Inr r, t)"
    using assms by (auto simp: append_event_def split: sum.splits)
  have found: "\<exists>q\<in>set (audit_records t). records_event c q"
    if "q \<in> set (audit_records w)" "ar_event q = ne_event e" "resolve_existing q e False w = (Inr r, t)" for q w
  proof -
    have "same_event False q e" "w = t" using that(3) by (auto simp: resolve_existing_def ensure_apply bnd_result_Inr split: if_splits)
    then show ?thesis
      using that(1,2) e
      by (intro bexI [of _ q])
        (auto simp: records_event_def same_event_def normalize_event_def split: option.splits sum.splits)
  qed
  have body: "q \<in> set (audit_records w) \<and> ar_event q = ne_event e" if "append_body v e x = (Inr q, w)" for q x w
    using that by (rule append_body_Inr) (auto simp: find_event_def appended_def new_record_def dest!: find_Some_in)
  have event: "q \<in> set (audit_records w) \<and> ar_event q = ne_event e" if "find_event (ne_event e) w = Some q" for q w
    using that by (auto simp: find_event_def dest: find_Some_in)
  from run show ?thesis
    unfolding append_normalized_def
    by (auto simp: catch_result bnd_result_Inr transaction_Inr split: option.splits if_splits
        intro: found dest: body event)
qed

lemma resolve_refusal: "failures (resolve_existing q e b) refusal"
  unfolding resolve_existing_def by (intro failures_rules) (simp add: audit_event_reused_def)

lemma append_body_refusal: "failures (append_body v e) refusal"
proof -
  have "failures (insert_stream k) refusal" "failures (create_record q) refusal" "failures (update_stream k n h) refusal"
    for k q n h
    by (auto simp: failures_def insert_stream_def create_record_def update_stream_def Let_def split: if_splits)
  then show ?thesis unfolding append_body_def by (intro failures_rules) simp_all
qed

lemma append_refusal: "failures (append_event v b c) refusal"
proof -
  have body: "failures (bnd (transaction (\<lambda>_. True) (append_body v e)) (\<lambda>q. resolve_existing q e b)) refusal" for e
    using append_body_refusal [of v e]
    by (intro failures_rules resolve_refusal) (auto simp: failures_def transaction_def split: prod.splits sum.splits)
  have "failures (append_normalized v e b) refusal" for e
    unfolding append_normalized_def failures_def
    using failuresD [OF body] failuresD [OF resolve_refusal]
    by (auto simp: catch_result bnd_result_Inl split: option.splits if_splits)
  then show ?thesis
    by (auto simp: append_event_def failures_def normalize_event_def invalid_occurred_at_def sanitize_metadata_def
        rejected_metadata_def split: option.splits sum.splits)
qed

section \<open>The services keep their promises\<close>

lemma on_ledger_state: "snd (on_ledger f x) = (snd (f (fst x)), snd x)"
  by (simp add: on_ledger_def Let_def case_prod_unfold)

lemma on_audit_state: "snd (on_audit f x) = (fst x, snd (f (snd x)))"
  by (simp add: on_audit_def Let_def case_prod_unfold)

lemma peer_tame: "ledger_peer D v \<Longrightarrow> books.tame D v"
  by (simp add: ledger_peer_def books.tame_def run_books)

lemma ledger_route_steps:
  assumes "ledger_peer D v"
  shows "steps (books D) (provision_route h v i c)" "steps (books D) (balance_route h v w)"
    "steps (books D) (balances_route h v ws)"
  using books.serve_step [OF peer_tame [OF assms], of _ h "ProvisionRequest i c"]
    books.serve_step [OF peer_tame [OF assms], of _ h "BalanceRequest w"]
    books.serve_step [OF peer_tame [OF assms], of _ h "BalancesRequest ws"]
  by (simp_all add: steps_def)

lemma append_peer_steps: "audit_peer sha v \<Longrightarrow> steps (audit_step sha) (append_route h v e)"
  unfolding audit_peer_def by (blast intro: append_route_step audit_run_step)

lemma ledger_holds_kept:
  "world_ok sha x \<Longrightarrow> world_later D sha x y \<Longrightarrow> ledger_holds i w c x \<Longrightarrow> ledger_holds i w c y"
  by (auto simp: world_ok_def world_later_def books_def journal_extends_def ledger_holds_def dest!: set_mono_prefix)

lemma trail_kept: "world_ok sha x \<Longrightarrow> world_later D sha x y \<Longrightarrow> trail_has e x \<Longrightarrow> trail_has e y"
  by (auto simp: world_ok_def world_later_def audit_step_def trail_has_def dest!: set_mono_prefix)

lemma on_ledger_later: "(\<And>l. books D l (snd (f l))) \<Longrightarrow> world_later D sha x (snd (on_ledger f x))"
  by (simp add: on_ledger_state world_later_def au.R_refl)

lemma on_audit_later: "(\<And>a. audit_step sha a (snd (f a))) \<Longrightarrow> world_later D sha x (snd (on_audit f x))"
  by (simp add: on_audit_state world_later_def books.R_refl)

lemma provision_link_later:
  "(\<And>w l. ledger_peer D (fst (how w l))) \<Longrightarrow> world_later D sha x (snd (provision_link h num how w c x))"
  unfolding provision_link_def Let_def case_prod_unfold
  by (rule on_ledger_later, rule deliver_steps [where R = "books D"]) (simp_all add: ledger_route_steps books.R_refl)

lemma balance_link_later:
  "(\<And>w l. ledger_peer D (fst (how w l))) \<Longrightarrow> world_later D sha x (snd (balance_link h num how w x))"
  unfolding balance_link_def Let_def case_prod_unfold
  by (rule on_ledger_later, rule deliver_steps [where R = "books D"]) (simp_all add: ledger_route_steps books.R_refl)

lemma balances_link_later:
  "(\<And>ws l. ledger_peer D (fst (how ws l))) \<Longrightarrow> world_later D sha x (snd (balances_link h num how ws x))"
  unfolding balances_link_def Let_def case_prod_unfold
  by (rule on_ledger_later, rule deliver_steps [where R = "books D"]) (simp_all add: ledger_route_steps books.R_refl)

lemma append_link_later:
  "(\<And>e a. audit_peer sha (fst (how e a))) \<Longrightarrow> world_later D sha x (snd (append_link h num how e x))"
  unfolding append_link_def Let_def case_prod_unfold
  by (rule on_audit_later, rule deliver_steps [where R = "audit_step sha"]) (simp_all add: append_peer_steps au.R_refl)

lemma provision_link_holds:
  assumes "provision_link h num how w c x = (Response st b code msg, y)" and "st \<le> 299"
  shows "ledger_holds (br_account b) w c y"
proof -
  obtain v i fate where v: "how w (fst x) = (v, i, fate)" by (cases "how w (fst x)") auto
  obtain l where y: "y = (l, snd x)" and l: "deliver fate (provision_route h v i \<lparr>pv_wallet = w, pv_currency = c\<rparr>)
      (http_reply num 201 id no_balance) (fst x) = (Response st b code msg, l)"
    using assms(1) v by (auto simp: provision_link_def on_ledger_def Let_def split: prod.splits)
  obtain r where r: "provision_route h v i \<lparr>pv_wallet = w, pv_currency = c\<rparr> (fst x) = (r, l)"
    and reply: "http_reply num 201 id no_balance r = Response st b code msg"
    using l by (rule deliver_answer)
  have fails: "failures (provision_route h v i \<lparr>pv_wallet = w, pv_currency = c\<rparr>) refusal"
    unfolding provision_route_def by (intro failures_guarded failures_validated provision_refusal)
  have "r = Inl e \<Longrightarrow> refusal e" for e using failuresD [OF fails, of "fst x" e l] r by simp
  then have "r = Inr b" using accepted_reply [OF reply assms(2)] by auto
  then have "provision v i w c (fst x) = (Inr b, l)"
    using r by (auto simp: provision_route_def guarded_def validated_def bnd_result_Inr ensure_apply split: if_splits)
  then show ?thesis using y provision_holds by blast
qed

lemma append_link_records:
  assumes "append_link h num how e x = (Response st b code msg, y)" and "st \<le> 299"
  shows "trail_has e y"
proof -
  obtain v fate where v: "how e (snd x) = (v, fate)" by fastforce
  obtain a where y: "y = (fst x, a)" and a: "deliver fate (append_route h v e) (http_reply num 201 (\<lambda>_. ()) ()) (snd x) =
      (Response st b code msg, a)"
    using assms(1) v by (auto simp: append_link_def on_audit_def Let_def split: prod.splits)
  obtain r where r: "append_route h v e (snd x) = (r, a)"
    and reply: "http_reply num 201 (\<lambda>_. ()) () r = Response st b code msg"
    using a by (rule deliver_answer)
  have fails: "failures (append_route h v e) refusal"
    unfolding append_route_def by (intro failures_guarded failures_validated append_refusal)
  have "r = Inl q \<Longrightarrow> refusal q" for q using failuresD [OF fails, of "snd x" q a] r by simp
  then obtain z where "r = Inr z" using accepted_reply [OF reply assms(2)] by auto
  then have "append_event v False e (snd x) = (Inr z, a)"
    using r by (auto simp: append_route_def guarded_def validated_def bnd_result_Inr ensure_apply split: if_splits)
  then show ?thesis using y recorded_event by (simp add: trail_has_def)
qed

lemma account_linksE:
  assumes "account_links D sha v"
  obtains h1 n1 f1 h2 n2 f2 h3 n3 f3 h4 n4 f4
  where "nv_provision v = provision_link h1 n1 f1" "\<And>w l. ledger_peer D (fst (f1 w l))"
    and "nv_balance v = balance_link h2 n2 f2" "\<And>w l. ledger_peer D (fst (f2 w l))"
    and "nv_balances v = balances_link h3 n3 f3" "\<And>ws l. ledger_peer D (fst (f3 ws l))"
    and "nv_append v = append_link h4 n4 f4" "\<And>e a. audit_peer sha (fst (f4 e a))"
  using assms unfolding account_links_def by blast

interpretation ap: account_providers "account_links D sha" "world_ok sha" "world_later D sha" ledger_holds trail_has
  for D sha
proof
  fix x y z :: world and v :: "world account_env" and w i c ws e b code msg and st :: nat
  show "world_later D sha x x" by (simp add: world_later_def books.R_refl au.R_refl)
  show "world_later D sha x z" if "world_later D sha x y" "world_later D sha y z"
    using that unfolding world_later_def by (blast intro: books.R_trans au.R_trans)
  show "world_ok sha y" if "world_ok sha x" "world_later D sha x y"
    using that by (simp add: world_ok_def world_later_def books_def audit_step_def)
  show "ledger_holds i w c y" if "world_ok sha x" "world_later D sha x y" "ledger_holds i w c x"
    using that by (rule ledger_holds_kept)
  show "trail_has e y" if "world_ok sha x" "world_later D sha x y" "trail_has e x"
    using that by (rule trail_kept)
  assume v: "account_links D sha v"
  show "world_later D sha x (snd (nv_provision v w c x))"
    using v by (rule account_linksE) (simp add: provision_link_later)
  show "world_later D sha x (snd (nv_balance v w x))"
    using v by (rule account_linksE) (simp add: balance_link_later)
  show "world_later D sha x (snd (nv_balances v ws x))"
    using v by (rule account_linksE) (simp add: balances_link_later)
  show "world_later D sha x (snd (nv_append v e x))"
    using v by (rule account_linksE) (simp add: append_link_later)
  show "ledger_holds (br_account b) w c y" if "nv_provision v w c x = (Response st b code msg, y)" "st \<le> 299"
    using v by (rule account_linksE) (use that provision_link_holds in metis)
  show "trail_has e y" if "nv_append v e x = (Response st () code msg, y)" "st \<le> 299"
    using v by (rule account_linksE) (use that append_link_records in metis)
qed

section \<open>Runs of the three services\<close>

inductive account_run ::
  "decimal_lib \<Rightarrow> (string \<Rightarrow> string) \<Rightarrow> crypto_lib \<Rightarrow> identity_config \<Rightarrow> world account_state \<Rightarrow> world account_state \<Rightarrow> bool"
  for D sha L C where
  an_idle: "account_run D sha L C s s"
| an_ledger: "account_run D sha L C s t \<Longrightarrow> ledger_run D (fst (account_world t)) l \<Longrightarrow>
    account_run D sha L C s (t\<lparr>account_world := (l, snd (account_world t))\<rparr>)"
| an_audit: "account_run D sha L C s t \<Longrightarrow> audit_run sha (snd (account_world t)) a \<Longrightarrow>
    account_run D sha L C s (t\<lparr>account_world := (fst (account_world t), a)\<rparr>)"
| an_serve: "account_links D sha v \<Longrightarrow> nv_crypto v = L \<Longrightarrow> nv_config v = C \<Longrightarrow>
    \<forall>k u. account_run D sha L C u (nv_others v k u) \<Longrightarrow> account_run D sha L C s t \<Longrightarrow>
    account_run D sha L C s (serve_account h v q t)"

abbreviation linked_step ::
  "decimal_lib \<Rightarrow> (string \<Rightarrow> string) \<Rightarrow> crypto_lib \<Rightarrow> identity_config \<Rightarrow> world account_state \<Rightarrow> world account_state \<Rightarrow> bool" where
  "linked_step D sha \<equiv> account_step (world_ok sha) (world_later D sha) ledger_holds"

abbreviation linked_inv :: "(string \<Rightarrow> string) \<Rightarrow> crypto_lib \<Rightarrow> identity_config \<Rightarrow> world account_state \<Rightarrow> bool" where
  "linked_inv sha \<equiv> account_inv (world_ok sha) ledger_holds"

lemma account_run_step:
  assumes "crypto_lib_ok L"
  shows "account_run D sha L C s t \<Longrightarrow> linked_step D sha L C s t"
proof (induction rule: account_run.induct)
  case (an_idle s)
  show ?case by (rule ap.ac.R_refl)
next
  case (an_ledger s t l)
  have "world_later D sha (account_world t) (l, snd (account_world t))"
    using run_books [OF an_ledger.hyps(2)] by (simp add: world_later_def au.R_refl)
  then have "linked_step D sha L C t (t\<lparr>account_world := (l, snd (account_world t))\<rparr>)" by (rule ap.outside_step)
  with an_ledger.IH show ?case by (rule ap.ac.R_trans)
next
  case (an_audit s t a)
  have "world_later D sha (account_world t) (fst (account_world t), a)"
    using audit_run_step [OF an_audit.hyps(2)] by (simp add: world_later_def books.R_refl)
  then have "linked_step D sha L C t (t\<lparr>account_world := (fst (account_world t), a)\<rparr>)" by (rule ap.outside_step)
  with an_audit.IH show ?case by (rule ap.ac.R_trans)
next
  case (an_serve v s t h q)
  have "linked_step D sha L C u (nv_others v k u)" for k u using an_serve.IH(1) by blast
  then have "account_calm (account_links D sha) (world_ok sha) (world_later D sha) ledger_holds L C v"
    using an_serve.hyps(1-3) assms by (simp add: account_calm_def)
  then have "linked_step D sha L C t (serve_account h v q t)" by (rule ap.serve_account_step)
  with an_serve.IH(2) show ?case by (rule ap.ac.R_trans)
qed

lemma account_run_calm:
  "crypto_lib_ok L \<Longrightarrow> account_links D sha v \<Longrightarrow> nv_crypto v = L \<Longrightarrow> nv_config v = C \<Longrightarrow>
     \<forall>k u. account_run D sha L C u (nv_others v k u) \<Longrightarrow>
     account_calm (account_links D sha) (world_ok sha) (world_later D sha) ledger_holds L C v"
  by (simp add: account_calm_def account_run_step)

lemma empty_linked: "world_ok sha x \<Longrightarrow> linked_inv sha L C (empty_account x)"
  by (simp add: account_inv_def) (simp add: empty_account_def)

lemma account_run_inv:
  "crypto_lib_ok L \<Longrightarrow> world_ok sha x \<Longrightarrow> account_run D sha L C (empty_account x) s \<Longrightarrow> linked_inv sha L C s"
  using account_run_step [of L D sha C "empty_account x" s] empty_linked [of sha x L C] by (simp add: account_step_def)

end
