(* ===== verification/AccountDemo.thy ===== *)
theory AccountDemo
  imports AccountLinked AuditProperties
begin

text \<open>
  Concrete runs of the Account service: a cipher that appends a tag of its key and additional data, a ring
  of two keys, and a wallet that is created, provisioned and recorded.
\<close>

section \<open>Keys and cipher\<close>

definition demo_tag :: "string \<Rightarrow> string \<Rightarrow> string" where
  "demo_tag key aad = take 16 (take 4 (rev key) @ take 12 (rev aad) @ replicate 16 CHR ''.'')"

definition demo_crypto :: crypto_lib where
  "demo_crypto = \<lparr>cl_encrypt = (\<lambda>key iv p aad. (p, demo_tag key aad)),
     cl_decrypt = (\<lambda>key iv c t aad. if t = demo_tag key aad then Some c else None),
     cl_hmac = (\<lambda>key t. take 32 (t @ replicate 32 CHR ''.'')), cl_nfkc = (\<lambda>t. t), cl_lower = (\<lambda>t. t)\<rparr>"

definition demo_key :: "char \<Rightarrow> string" where
  "demo_key c = replicate 32 c"

definition demo_ring :: string where
  "demo_ring = json_text (JObj [(''k1'', JStr (base64 (demo_key CHR ''1''))), (''k2'', JStr (base64 (demo_key CHR ''2'')))])"

definition demo_config :: "string \<Rightarrow> identity_config" where
  "demo_config active = \<lparr>ic_active = Some active, ic_ring = Some demo_ring, ic_lookup = Some (base64 (demo_key CHR ''l''))\<rparr>"

lemma demo_crypto_ok [simp]: "crypto_lib_ok demo_crypto"
  by (simp add: crypto_lib_ok_def demo_crypto_def demo_tag_def) arith

lemma two_members_parsed:
  "json_parse (json_text (JObj [(a, JStr x), (b, JStr y)])) = Some (JObj [(a, JStr x), (b, JStr y)])"
proof -
  let ?t = "json_text (JObj [(a, JStr x), (b, JStr y)])"
  have shape: "?t = CHR ''{'' # json_quote a @ CHR '':'' # json_quote x @ CHR '','' # json_quote b @ CHR '':'' # json_quote y @ ''}''"
    by simp
  have "3 \<le> length ?t" unfolding shape by (simp add: json_quote_def)
  then have "\<exists>m. length ?t = 3 + m" by (rule le_Suc_ex)
  then obtain n where n: "length ?t + 1 = Suc (Suc (Suc (Suc n)))" by auto
  have brace: "expect CHR ''}'' (json_quote k @ r) = None" for k r by (simp add: json_quote_def)
  show ?thesis
    unfolding json_parse_def n shape
    by (simp add: brace json_value_object json_members_quote json_value_quote
        del: json_value.simps(2) json_members.simps(2))
qed

lemma decode_demo_key: "decode_key (base64 (demo_key c)) name = Inr (demo_key c)"
  by (simp add: decode_key_def from_base64_text) (simp add: demo_key_def)

lemma demo_ring_read:
  "read_ring (object_entries [(''k1'', JStr (base64 (demo_key CHR ''1''))), (''k2'', JStr (base64 (demo_key CHR ''2'')))]) =
     Inr [(''k1'', demo_key CHR ''1''), (''k2'', demo_key CHR ''2'')]"
proof -
  have "key_version_ok ''k1''" "key_version_ok ''k2''" by code_simp+
  then show ?thesis by (simp add: object_entries_def decode_demo_key)
qed

lemma demo_keys:
  assumes "active = ''k1'' \<or> active = ''k2''"
  shows "load_keys (demo_config active) = Inr \<lparr>kc_active = active,
     kc_keys = [(''k1'', demo_key CHR ''1''), (''k2'', demo_key CHR ''2'')], kc_lookup = demo_key CHR ''l''\<rparr>"
proof -
  have "truthy (Some (base64 (demo_key CHR ''l'')))"
    using decode_demo_key [of "CHR ''l''" "[]"] by (auto simp: truthy_def decode_key_def demo_key_def from_base64_def)
  moreover have "truthy (Some demo_ring)" by (simp add: truthy_def demo_ring_def)
  ultimately show ?thesis
    using assms by (auto simp: load_keys_def demo_config_def demo_ring_def two_members_parsed demo_ring_read
        decode_demo_key truthy_def simp del: json_text.simps)
qed

section \<open>Identities\<close>

definition demo_random :: seal_random where
  "demo_random = \<lparr>sr_dek = demo_key CHR ''d'', sr_iv = replicate 12 CHR ''i'', sr_dek_iv = replicate 12 CHR ''j''\<rparr>"

definition demo_kek :: "string \<Rightarrow> string" where
  "demo_kek version = demo_key (last version)"

definition demo_sealed :: "string \<Rightarrow> seal_random \<Rightarrow> uuid \<Rightarrow> identity_payload \<Rightarrow> sealed_identity" where
  "demo_sealed active r user p =
     \<lparr>si_ciphertext = canonical_identity p, si_iv = sr_iv r, si_tag = demo_tag (sr_dek r) (identity_aad user),
      si_dek = sr_dek r, si_dek_iv = sr_dek_iv r, si_dek_tag = demo_tag (demo_kek active) (dek_aad user active),
      si_version = active,
      si_email = (if truthy (ip_email p) then map_option (cl_hmac demo_crypto (demo_key CHR ''l'')) (ip_email p) else None)\<rparr>"

lemma demo_encrypt:
  assumes "active = ''k1'' \<or> active = ''k2''"
  shows "encrypt_identity demo_crypto (demo_config active) r user input =
     Inr (demo_sealed active r user (normalize_identity demo_crypto input))"
proof -
  have "cl_encrypt demo_crypto key iv p aad = (p, demo_tag key aad)" for key iv p aad
    by (simp add: demo_crypto_def)
  then show ?thesis
    using assms unfolding encrypt_identity_def demo_keys [OF assms]
    by (auto simp: Let_def demo_sealed_def demo_kek_def)
qed

lemma demo_decrypt:
  assumes "active = ''k1'' \<or> active = ''k2''" and "version = ''k1'' \<or> version = ''k2''"
  shows "decrypt_identity demo_crypto (demo_config active) user (demo_sealed version r user p) = Inr p"
proof (rule decrypt_identityI)
  show "ring_key (demo_config active) (si_version (demo_sealed version r user p)) = Some (demo_kek version)"
    using assms(2) by (auto simp: ring_key_def demo_keys [OF assms(1)] demo_sealed_def demo_kek_def)
  show "unwrap_dek demo_crypto (demo_kek version) user (demo_sealed version r user p) = Some (sr_dek r)"
    by (simp add: unwrap_dek_def demo_sealed_def demo_crypto_def)
  show "open_identity demo_crypto (sr_dek r) user (demo_sealed version r user p) = Some p"
    by (simp add: open_identity_def demo_sealed_def demo_crypto_def parse_canonical)
  show "si_ciphertext (demo_sealed version r user p) \<noteq> []"
    by (simp add: demo_sealed_def canonical_not_empty)
qed

section \<open>The other services\<close>

definition demo_books_env :: ledger_env where
  "demo_books_env = \<lparr>lv_decimal = exact_decimal, lv_digest = (\<lambda>_. ''h''), lv_collate = (\<lambda>t. t),
     lv_others = (\<lambda>k s. s), lv_aborts = (\<lambda>n. False), lv_transaction_id = (\<lambda>n. ''t1''),
     lv_clearing_id = (\<lambda>cur. ''c1''), lv_node_env = None, lv_test_funding = None\<rparr>"

definition demo_books_http :: ledger_http where
  "demo_books_http = \<lparr>lh_token = Some ''k'', lh_supplied = Some ''k'', lh_is_uuid = (\<lambda>t. t \<noteq> [])\<rparr>"

definition demo_trail_env :: audit_env where
  "demo_trail_env = \<lparr>av_sha256 = demo_digest, av_date = (\<lambda>t. if t = iso_text 0 then Some 0 else None),
     av_others = (\<lambda>_ s. s), av_now = 0, av_request_id = ''r1''\<rparr>"

definition demo_account_env :: "string \<Rightarrow> world account_env" where
  "demo_account_env active = \<lparr>nv_crypto = demo_crypto, nv_config = demo_config active, nv_digest = (\<lambda>_. ''h''),
     nv_sha256 = demo_digest, nv_random = (\<lambda>_. demo_random), nv_rewrap_iv = (\<lambda>_. replicate 12 CHR ''r''),
     nv_others = (\<lambda>_ s. s), nv_now = (\<lambda>_. 0), nv_user_id = ''u1'', nv_wallet_id = ''w1'', nv_token = Some ''k'',
     nv_ledger_url = Some ''l'', nv_admin_url = Some ''a'',
     nv_provision = provision_link demo_books_http (\<lambda>_. []) (\<lambda>_ _. (demo_books_env, ''a1'', Delivered)),
     nv_balance = balance_link demo_books_http (\<lambda>_. []) (\<lambda>_ _. (demo_books_env, Delivered)),
     nv_balances = balances_link demo_books_http (\<lambda>_. []) (\<lambda>_ _. (demo_books_env, Delivered)),
     nv_append = append_link demo_audit_http (\<lambda>_. []) (\<lambda>_ _. (demo_trail_env, Delivered))\<rparr>"

lemma demo_peers: "ledger_peer exact_decimal demo_books_env" "audit_peer demo_digest demo_trail_env"
  by (auto simp: ledger_peer_def demo_books_env_def audit_peer_def demo_trail_env_def audit_env_ok_def
      valid_instant_def intro: run_idle audit_idle split: if_splits)

lemma demo_account_links: "account_links exact_decimal demo_digest (demo_account_env active)"
  unfolding account_links_def
  by (intro conjI; rule exI, rule exI, rule exI, rule conjI, simp add: demo_account_env_def, simp add: demo_peers)

definition demo_balance :: balance_response where
  "demo_balance = \<lparr>br_wallet = ''w1'', br_account = ''a1'', br_available = dl_fixed exact_decimal 8 0,
     br_currency = ''USD'', br_version = 0\<rparr>"

definition demo_ledger :: ledger_state where
  "demo_ledger = empty_ledger\<lparr>
     accounts := [\<lparr>la_id = ''a1'', la_wallet = Some ''w1'', la_type = CUSTOMER, la_currency = ''USD'',
                   la_normal = CREDIT, la_status = ACTIVE\<rparr>],
     balances := [\<lparr>wb_account = ''a1'', wb_currency = ''USD'', wb_available = 0, wb_version = 0\<rparr>]\<rparr>"

lemma demo_provisioned:
  "nv_provision (demo_account_env active) ''w1'' ''USD'' (empty_ledger, a) =
     (Response 201 demo_balance None None, (demo_ledger, a))"
proof -
  have "provision demo_books_env ''a1'' ''w1'' ''USD'' empty_ledger = (Inr demo_balance, demo_ledger)"
    by (simp add: provision_def wallet_account_def create_account_def account_check_def is_currency_def upper_letter_def
        account_conflict_def key_taken_def lift_result_def to_balance_def find_balance_def demo_books_env_def
        demo_ledger_def demo_balance_def empty_ledger_def bnd_def catch_def)
  then show ?thesis
    by (simp add: demo_account_env_def provision_link_def on_ledger_def provision_route_def guarded_def validated_def
        provision_dto_ok_def demo_books_http_def internal_guard_def truthy_def bnd_def is_currency_def upper_letter_def http_reply_def)
qed

definition demo_activation :: append_event_dto where
  "demo_activation = activation_event demo_digest ''w1'' ''alice'' ''USD'' 0"

definition demo_activated :: normalized_event where
  "demo_activated = \<lparr>ne_event = ae_event demo_activation, ne_stream = ''wallet:w1'', ne_action = ''wallet.activated'',
     ne_entity_type = ''wallet'', ne_entity = ''w1'', ne_actor = Some ''alice'', ne_occurred = 0,
     ne_metadata = [(''currency'', JStr ''USD'')]\<rparr>"

definition demo_stream :: "normalized_event \<Rightarrow> audit_stream" where
  "demo_stream e = \<lparr>as_key = ne_stream e, as_sequence = 0, as_hash = genesis_hash\<rparr>"

definition demo_trail_of :: "normalized_event \<Rightarrow> audit_state" where
  "demo_trail_of e =
     \<lparr>audit_streams = [\<lparr>as_key = ne_stream e, as_sequence = 1, as_hash = ar_current (new_record demo_trail_env e (demo_stream e))\<rparr>],
      audit_records = [appended demo_trail_env e (demo_stream e)]\<rparr>"

lemma demo_recorded:
  assumes "normalize_event demo_trail_env c = Inr e" and "append_body_ok demo_audit_http c"
    and "char_count (ne_stream e) \<le> 160" and "record_check (new_record demo_trail_env e (demo_stream e))"
    and "same_event False (appended demo_trail_env e (demo_stream e)) e"
  shows "nv_append (demo_account_env active) c (l, empty_audit) = (Response 201 () None None, (l, demo_trail_of e))"
proof -
  have "append_body demo_trail_env e empty_audit = (Inr (appended demo_trail_env e (demo_stream e)), demo_trail_of e)"
    using first_append [OF assms(3) assms(4) [unfolded demo_stream_def]] by (simp add: Let_def demo_trail_of_def demo_stream_def)
  then have "transaction (\<lambda>_. True) (append_body demo_trail_env e) empty_audit =
      (Inr (appended demo_trail_env e (demo_stream e)), demo_trail_of e)"
    by (simp add: transaction_Inr)
  then have "append_event demo_trail_env False c empty_audit =
      (Inr (audit_response_of (appended demo_trail_env e (demo_stream e))), demo_trail_of e)"
    using assms(5)
    by (simp add: append_event_def assms(1) append_normalized_def find_event_def empty_audit_def
        demo_trail_env_def [THEN arg_cong, of av_others] catch_def bnd_def resolve_existing_def)
  then show ?thesis
    using assms(2)
    by (simp add: demo_account_env_def append_link_def on_audit_def append_route_def guarded_def validated_def
        demo_audit_http_def internal_guard_def truthy_def bnd_def http_reply_def)
qed

lemma demo_current: "hash_column (ar_current (new_record demo_trail_env e st))"
  by (simp add: new_record_def demo_trail_env_def)

lemma demo_activation_names:
  "ae_stream demo_activation = ''wallet:w1''" "ae_action demo_activation = ''wallet.activated''"
  "ae_entity_type demo_activation = ''wallet''" "ae_entity demo_activation = ''w1''"
  "ae_actor demo_activation = Some ''alice''" "ae_occurred demo_activation = iso_text 0"
  "ae_metadata demo_activation = Some [(''currency'', JStr ''USD'')]"
  by (simp_all add: demo_activation_def activation_event_def)

lemma demo_activation_ok: "append_body_ok demo_audit_http demo_activation"
proof -
  have "safe_identifier 160 ''wallet:w1''" "safe_identifier 100 ''wallet.activated''" "safe_identifier 80 ''wallet''"
    "safe_identifier 128 ''w1''" "safe_identifier 128 ''alice''" by code_simp+
  then show ?thesis by (simp add: append_body_ok_def demo_activation_names demo_audit_http_def)
qed

lemma demo_activation_normal: "normalize_event demo_trail_env demo_activation = Inr demo_activated"
proof -
  have "sanitize_metadata [(''currency'', JStr ''USD'')] = Inr [(''currency'', JStr ''USD'')]" by code_simp
  then show ?thesis
    by (simp add: normalize_event_def demo_activation_names demo_trail_env_def demo_activated_def)
qed

lemma demo_appended:
  "nv_append (demo_account_env active) demo_activation (l, empty_audit) =
     (Response 201 () None None, (l, demo_trail_of demo_activated))"
proof (rule demo_recorded [OF demo_activation_normal demo_activation_ok])
  show "record_check (new_record demo_trail_env demo_activated (demo_stream demo_activated))"
    using demo_current [of demo_activated "demo_stream demo_activated"]
    by (simp add: record_check_def) (simp add: new_record_def demo_activated_def demo_stream_def char_count_def)
qed (simp_all add: demo_activated_def char_count_def same_event_def appended_def new_record_def as_metadata_def)

section \<open>A wallet\<close>

definition demo_user :: "string \<Rightarrow> user" where
  "demo_user active = \<lparr>us_id = ''u1'', us_external = ''alice'', us_sealed = demo_sealed active demo_random ''u1'' no_identity,
     us_status = UserActive, us_updated = 0\<rparr>"

definition demo_wallet :: wallet where
  "demo_wallet = \<lparr>wl_id = ''w1'', wl_user = ''u1'', wl_currency = ''USD'', wl_label = None, wl_status = WalletActive,
     wl_ledger = Some ''a1'', wl_created = 0, wl_updated = 0\<rparr>"

definition demo_accounted :: "string \<Rightarrow> world account_state" where
  "demo_accounted active = \<lparr>users = [demo_user active], wallets = [demo_wallet],
     wallet_keys = [\<lparr>wk_user = ''u1'', wk_key = ''key'', wk_hash = ''h'', wk_wallet = ''w1''\<rparr>],
     account_world = (demo_ledger, demo_trail_of demo_activated)\<rparr>"

definition demo_wallet_dto :: create_wallet_dto where
  "demo_wallet_dto = \<lparr>cw_currency = ''USD'', cw_label = None\<rparr>"

lemma demo_user_check: "user_check (demo_user active) \<longleftrightarrow> char_count active \<le> 40"
proof -
  have "length (demo_tag k a) = 16" for k a by (simp add: demo_tag_def)
  then show ?thesis
    by (simp add: user_check_def demo_user_def demo_sealed_def demo_random_def demo_key_def no_identity_def char_count_def)
qed

lemma no_identity_normal [simp]: "normalize_identity L no_identity = no_identity"
  by (simp add: normalize_identity_def no_identity_def normalize_optional_def truthy_def)

lemma demo_env_values:
  "nv_user_id (demo_account_env a) = ''u1''" "nv_now (demo_account_env a) k = 0" "nv_wallet_id (demo_account_env a) = ''w1''"
  "nv_sha256 (demo_account_env a) = demo_digest" "nv_token (demo_account_env a) = Some ''k''"
  "nv_ledger_url (demo_account_env a) = Some ''l''" "nv_admin_url (demo_account_env a) = Some ''a''"
  "nv_digest (demo_account_env a) j = ''h''" "nv_others (demo_account_env a) k s = s"
  "nv_crypto (demo_account_env a) = demo_crypto" "nv_config (demo_account_env a) = demo_config a"
  "nv_random (demo_account_env a) k = demo_random" "nv_rewrap_iv (demo_account_env a) i = replicate 12 CHR ''r''"
  by (simp_all add: demo_account_env_def)

lemma demo_sealing:
  "active = ''k1'' \<or> active = ''k2'' \<Longrightarrow> sealed (demo_account_env active) k user p s =
     (Inr (demo_sealed active demo_random user (normalize_identity demo_crypto p)), s)"
  using demo_encrypt by (simp add: sealed_def demo_env_values)

lemma demo_ensured:
  assumes "active = ''k1'' \<or> active = ''k2''"
  shows "ensure_user (demo_account_env active) ''alice'' (empty_account x) =
     (Inr (demo_user active), (empty_account x)\<lparr>users := [demo_user active]\<rparr>)"
proof -
  have row: "\<lparr>us_id = ''u1'', us_external = ''alice'', us_sealed = demo_sealed active demo_random ''u1'' no_identity,
      us_status = UserActive, us_updated = 0\<rparr> = demo_user active" by (simp add: demo_user_def)
  have "user_check (demo_user active)" using assms by (auto simp: demo_user_check char_count_def)
  then have "create_user (demo_user active) (empty_account x) = (Inr (demo_user active), (empty_account x)\<lparr>users := [demo_user active]\<rparr>)"
    by (simp add: create_user_def empty_account_def key_taken_def)
  moreover have "find_external ''alice'' (empty_account x) = None" by (simp add: find_external_def empty_account_def)
  ultimately show ?thesis
    by (simp add: ensure_user_def bnd_def catch_def demo_env_values demo_sealing [OF assms] row)
qed

lemma demo_created:
  assumes "active = ''k1'' \<or> active = ''k2''"
  shows "create_wallet (demo_account_env active) ''alice'' ''key'' demo_wallet_dto (empty_account (empty_ledger, empty_audit)) =
     (Inr (wallet_response_of demo_wallet (Some demo_balance)), demo_accounted active)"
proof -
  let ?v = "demo_account_env active"
  let ?x = "(empty_ledger, empty_audit)"
  let ?s1 = "(empty_account ?x)\<lparr>users := [demo_user active]\<rparr>"
  let ?w = "demo_wallet\<lparr>wl_status := WalletPending, wl_ledger := None\<rparr>"
  let ?s2 = "?s1\<lparr>wallets := [?w], wallet_keys := wallet_keys (demo_accounted active)\<rparr>"
  note env = demo_env_values
  have user: "ensure_user ?v ''alice'' (empty_account ?x) = (Inr (demo_user active), ?s1)" by (rule demo_ensured [OF assms])
  have claim: "claim_wallet ?v ''u1'' ''key'' ''h'' demo_wallet_dto ?s1 = (Inr ?w, ?s2)"
    by (simp add: claim_wallet_def bnd_def catch_def env find_wallet_key_def find_user_currency_def
        insert_wallet_def create_wallet_row_def create_wallet_key_def transaction_def key_taken_def wallet_check_def
        is_currency_def upper_letter_def empty_account_def demo_wallet_dto_def demo_wallet_def demo_user_def
        demo_accounted_def)
  have prov: "ledger_request ?v (nv_provision ?v ''w1'' ''USD'') ?s2 =
      (Inr demo_balance, ?s2\<lparr>account_world := (demo_ledger, empty_audit)\<rparr>)"
    by (simp add: ledger_request_def env truthy_def demo_provisioned ledger_answer_def empty_account_def)
  have active: "activate_wallet ?v ?w demo_balance (?s2\<lparr>account_world := (demo_ledger, empty_audit)\<rparr>) =
      (Inr demo_wallet, (demo_accounted active)\<lparr>account_world := (demo_ledger, empty_audit)\<rparr>)"
    by (simp add: activate_wallet_def update_wallet_def find_wallet_def update_where_def env demo_wallet_def
        demo_accounted_def demo_balance_def empty_account_def unique_some_def Let_def)
  have "activation_event demo_digest ''w1'' ''alice'' ''USD'' 0 = demo_activation" by (simp add: demo_activation_def)
  then have logged: "append_audit ?v (activation_event demo_digest ''w1'' ''alice'' ''USD'' 0)
      ((demo_accounted active)\<lparr>account_world := (demo_ledger, empty_audit)\<rparr>) = (Inr (), demo_accounted active)"
    by (simp add: append_audit_def env truthy_def demo_appended) (simp add: demo_accounted_def)
  have key: "visible_key ''key''" by code_simp
  have names: "us_id (demo_user active) = ''u1''" "wl_id ?w = ''w1''" "wl_currency ?w = ''USD''" "wl_status ?w = WalletPending"
    "wl_id demo_wallet = ''w1''" "wl_currency demo_wallet = ''USD''" "wl_updated demo_wallet = 0"
    by (simp_all add: demo_user_def demo_wallet_def)
  show ?thesis
    using user claim prov active logged key names
    by (simp add: create_wallet_def Let_def bnd_def env wallet_hash_def)
qed

lemma demo_wallet_route:
  "active = ''k1'' \<or> active = ''k2'' \<Longrightarrow>
   create_wallet_route h (demo_account_env active) (Some ''Bearer alice'') ''key'' demo_wallet_dto (empty_account (empty_ledger, empty_audit)) =
     (Inr (wallet_response_of demo_wallet (Some demo_balance)), demo_accounted active)"
  using demo_created [of active]
  by (simp add: create_wallet_route_def validated_def create_wallet_ok_def demo_wallet_dto_def is_currency_def upper_letter_def
      with_principal_def from_request_def bearer_token_def trim_def is_space_def principal_pattern_def is_alnum_def
      is_digit_def Let_def bnd_def)

lemma demo_account_run:
  assumes "active = ''k1'' \<or> active = ''k2''"
  shows "account_run exact_decimal demo_digest demo_crypto (demo_config active)
     (empty_account (empty_ledger, empty_audit)) (demo_accounted active)"
proof -
  let ?run = "account_run exact_decimal demo_digest demo_crypto (demo_config active)"
  have "?run s (serve_account h (demo_account_env active) q s)" for s h q
    by (rule an_serve [OF demo_account_links]) (simp_all add: demo_account_env_def an_idle)
  then have "?run (empty_account (empty_ledger, empty_audit))
     (serve_account h (demo_account_env active) (CreateWallet (Some ''Bearer alice'') ''key'' demo_wallet_dto) (empty_account (empty_ledger, empty_audit)))"
    for h by blast
  then show ?thesis using demo_wallet_route [OF assms] by simp
qed

lemma empty_world [simp]: "world_ok sha (empty_ledger, empty_audit)"
  by (simp add: world_ok_def)

end
