(* ===== verification/AccountProperties.thy ===== *)
theory AccountProperties
  imports AccountDemo
begin

text \<open>The properties of the Account service; the lemmas that precede a property belong to it.\<close>

section \<open>Identities\<close>

text \<open>
  C32. An encrypted identity is read back in normal form by any later configuration that still has the key of
  its version, whichever key is active by then, and a look-up by the same email address finds its digest.
\<close>

theorem identity_round_trip:
  assumes "crypto_lib_ok L" and "encrypt_identity L C r user input = Inr e"
    and "ring_key C' (si_version e) = ring_key C (si_version e)"
  shows "si_ciphertext e \<noteq> [] \<and> decrypt_identity L C' user e = Inr (normalize_identity L input) \<and>
    (\<forall>m. ip_email input = Some m \<and> m \<noteq> [] \<and> normalize_email L m \<noteq> [] \<longrightarrow>
       map_option Inr (si_email e) = Some (email_digest L C m))"
proof -
  obtain K kek where K: "load_keys C = Inr K" and email: "si_email e = (if truthy (ip_email (normalize_identity L input))
      then map_option (cl_hmac L (kc_lookup K)) (ip_email (normalize_identity L input)) else None)"
    by (rule encrypt_identity_Inr [OF assms(2)])
  have "map_option Inr (si_email e) = Some (email_digest L C m)"
    if "ip_email input = Some m" "m \<noteq> []" "normalize_email L m \<noteq> []" for m
    using that email by (simp add: normalize_identity_def truthy_def email_digest_def K)
  then show ?thesis using encrypted_opens [OF assms] by blast
qed

definition demo_identity :: identity_payload where
  "demo_identity = no_identity\<lparr>ip_name := Some '' Ann'', ip_email := Some ''a@b''\<rparr>"

lemma demo_trims: "js_trim '' Ann'' = ''Ann''" "js_trim ''Ann'' = ''Ann''" "js_trim ''a@b'' = ''a@b''"
proof -
  let ?find = "\<lambda>t ps. List.find (\<lambda>p. p \<noteq> [] \<and> take (length p) t = p) ps"
  have "?find '' Ann'' white_spaces = Some '' ''" "?find ''Ann'' white_spaces = None" "?find ''a@b'' white_spaces = None"
    "?find ''nnA'' (map rev white_spaces) = None" "?find ''b@a'' (map rev white_spaces) = None"
    by (simp_all add: white_spaces_bytes char_of_def bit_Suc_0_iff)
  then show "js_trim '' Ann'' = ''Ann''" "js_trim ''Ann'' = ''Ann''" "js_trim ''a@b'' = ''a@b''"
    by (simp_all add: js_trim_def strip_front_none strip_front_some)
qed

lemma demo_identity_normal:
  "normalize_identity demo_crypto demo_identity = no_identity\<lparr>ip_name := Some ''Ann'', ip_email := Some ''a@b''\<rparr>"
  by (simp add: normalize_identity_def demo_identity_def no_identity_def demo_crypto_def normalize_optional_def
      normalize_email_def truthy_def demo_trims)

theorem identity_round_trip_witness:
  "decrypt_identity demo_crypto (demo_config ''k2'') ''u1''
     (demo_sealed ''k1'' demo_random ''u1'' (no_identity\<lparr>ip_name := Some ''Ann'', ip_email := Some ''a@b''\<rparr>)) =
     Inr (no_identity\<lparr>ip_name := Some ''Ann'', ip_email := Some ''a@b''\<rparr>)"
proof -
  have enc: "encrypt_identity demo_crypto (demo_config ''k1'') demo_random ''u1'' demo_identity =
      Inr (demo_sealed ''k1'' demo_random ''u1'' (normalize_identity demo_crypto demo_identity))"
    by (simp add: demo_encrypt)
  have "ring_key (demo_config ''k2'') v = ring_key (demo_config ''k1'') v" for v
    by (simp add: ring_key_def demo_keys)
  then show ?thesis using identity_round_trip [OF demo_crypto_ok enc] by (simp add: demo_identity_normal)
qed

subsection \<open>Re-wrapping\<close>

text \<open>The row after the script has handled it.\<close>

definition rewrapped_row :: "crypto_lib \<Rightarrow> identity_config \<Rightarrow> identity_config \<Rightarrow> string \<Rightarrow> user \<Rightarrow> user \<Rightarrow> bool" where
  "rewrapped_row L C C' active p q \<longleftrightarrow>
     us_id q = us_id p \<and> us_external q = us_external p \<and> us_status q = us_status p \<and> user_email q = user_email p \<and>
     si_version (us_sealed q) = active \<and>
     decrypt_identity L C' (us_id q) (us_sealed q) = decrypt_identity L C (us_id p) (us_sealed p)"

lemma decrypt_same_ring:
  assumes "decrypt_identity L C user e = Inr p" and "si_ciphertext e \<noteq> []" and "ring_key C' (si_version e) = ring_key C (si_version e)"
  shows "decrypt_identity L C' user e = Inr p"
proof -
  obtain kek dek where "ring_key C (si_version e) = Some kek" "unwrap_dek L kek user e = Some dek" "open_identity L dek user e = Some p"
    by (rule decrypt_identity_Inr [OF assms(1,2)])
  then show ?thesis using assms(2,3) by (intro decrypt_identityI) simp_all
qed

lemma rewrap_user_row:
  assumes "crypto_lib_ok L" and "nv_crypto v = L" and "nv_config v = C" and "load_keys C = Inr K"
    and "ring_key C' (kc_active K) = ring_key C (kc_active K)"
    and dist: "distinct (map us_id (users s))" and u: "u \<in> set (users s)"
    and p: "decrypt_identity L C (us_id u) (us_sealed u) = Inr p" and c: "si_ciphertext (us_sealed u) \<noteq> []"
    and run: "rewrap_user v u s = (Inr b, t)"
  obtains q where "rewrapped_row L C C' (kc_active K) u q"
    and "users t = map (\<lambda>p. if us_id p = us_id u then q else p) (users s)"
proof -
  obtain w where w: "rewrap_dek L C (nv_rewrap_iv v (us_id u)) (us_id u) (us_sealed u) = Inr w"
    and rest: "(if wd_version w = si_version (us_sealed u) then ret False
       else bnd (update_user (nv_now v 4) (us_id u) (with_dek w)) (\<lambda>_. ret True)) s = (Inr b, t)"
    using assms(2,3) run c by (auto simp: rewrap_user_def split: sum.splits)
  have active: "wd_version w = kc_active K"
    using w assms(4) by (auto simp: rewrap_dek_def Let_def split: option.splits prod.splits)
  show thesis
  proof (cases "wd_version w = si_version (us_sealed u)")
    case True
    then have "t = s" using rest by simp
    moreover have "map (\<lambda>p. if us_id p = us_id u then u else p) (users s) = users s"
      using distinct_key [OF dist _ u] by (intro map_idI) auto
    moreover have "decrypt_identity L C' (us_id u) (us_sealed u) = Inr p"
      using True active assms(5) by (intro decrypt_same_ring [OF p c]) simp
    ultimately show ?thesis using True active p by (intro that [of u]) (simp_all add: rewrapped_row_def)
  next
    case False
    then obtain q where upd: "update_user (nv_now v 4) (us_id u) (with_dek w) s = (Inr q, t)"
      using rest by (auto simp: bnd_result_Inr)
    obtain u0 where u0: "find_user (us_id u) s = Some u0"
      "q = u0\<lparr>us_sealed := with_dek w (us_sealed u0), us_updated := nv_now v 4\<rparr>"
      "t = s\<lparr>users := update_where (\<lambda>p. us_id p = us_id u) (\<lambda>_. q) (users s)\<rparr>"
      using update_user_Inr [OF upd] by auto
    have "u0 = u" using find_user_in [OF u0(1)] distinct_key [OF dist _ u] by auto
    then have q: "q = u\<lparr>us_sealed := with_dek w (us_sealed u), us_updated := nv_now v 4\<rparr>" using u0(2) by simp
    have "decrypt_identity L C' (us_id u) (with_dek w (us_sealed u)) = Inr p"
      using active assms(5) by (intro rewrapped_opens [OF assms(1) w p c]) simp
    then have "rewrapped_row L C C' (kc_active K) u q"
      using p active by (simp add: rewrapped_row_def q user_email_def with_dek_def)
    then show ?thesis using u0(3) by (intro that [of q]) (auto simp: update_where_def)
  qed
qed

lemma rewrap_each:
  assumes "crypto_lib_ok L" and "nv_crypto v = L" and "nv_config v = C" and "load_keys C = Inr K"
    and "ring_key C' (kc_active K) = ring_key C (kc_active K)"
  shows "distinct (map us_id (users s)) \<Longrightarrow>
     \<forall>u\<in>set us. si_ciphertext (us_sealed u) \<noteq> [] \<and> (\<exists>p. decrypt_identity L C (us_id u) (us_sealed u) = Inr p) \<Longrightarrow>
     set us \<subseteq> set (users s) \<Longrightarrow> distinct us \<Longrightarrow> each (rewrap_user v) us s = (Inr bs, t) \<Longrightarrow>
     \<exists>g. users t = map g (users s) \<and> (\<forall>u\<in>set us. rewrapped_row L C C' (kc_active K) u (g u)) \<and>
       (\<forall>u\<in>set (users s) - set us. g u = u)"
proof (induction us arbitrary: s bs)
  case Nil
  then show ?case by (intro exI [of _ id]) simp
next
  case (Cons a us)
  note dist = Cons.prems(1) and readable = Cons.prems(2) and sub = Cons.prems(3) and once = Cons.prems(4)
  obtain b s1 cs where one: "rewrap_user v a s = (Inr b, s1)" and rest: "each (rewrap_user v) us s1 = (Inr cs, t)"
    using Cons.prems(5) by (auto simp: bnd_result_Inr)
  have a: "a \<in> set (users s)" using sub by simp
  obtain q where q: "rewrapped_row L C C' (kc_active K) a q"
    and s1: "users s1 = map (\<lambda>p. if us_id p = us_id a then q else p) (users s)"
    using rewrap_user_row [OF assms dist a _ _ one] readable by auto
  have same: "p = a" if "p \<in> set (users s)" "us_id p = us_id a" for p
    using distinct_key [OF dist that(1) a that(2)] .
  have ids: "map us_id (users s1) = map us_id (users s)"
    using q unfolding s1 by (simp add: rewrapped_row_def)
  have kept: "u \<in> set (users s1)" if "u \<in> set us" for u
  proof -
    have "u \<in> set (users s)" "u \<noteq> a" using that sub once by auto
    then show ?thesis using same unfolding s1 by force
  qed
  obtain g where g: "users t = map g (users s1)" "\<forall>u\<in>set us. rewrapped_row L C C' (kc_active K) u (g u)"
    "\<forall>u\<in>set (users s1) - set us. g u = u"
    using Cons.IH [of s1 cs] dist ids readable kept once rest by auto
  have q_new: "q \<in> set (users s1) - set us"
  proof -
    have "q \<notin> set us"
    proof
      assume "q \<in> set us"
      then have "q \<in> set (users s)" "us_id q = us_id a" using sub q by (auto simp: rewrapped_row_def)
      then show False using same once \<open>q \<in> set us\<close> by auto
    qed
    then show ?thesis using a unfolding s1 by force
  qed
  let ?g = "\<lambda>p. g (if us_id p = us_id a then q else p)"
  have "users t = map ?g (users s)" unfolding g(1) s1 by simp
  moreover have "rewrapped_row L C C' (kc_active K) u (?g u)" if "u \<in> set (a # us)" for u
    using that same sub once g(2,3) q q_new by auto
  moreover have "?g u = u" if "u \<in> set (users s) - set (a # us)" for u
  proof -
    have "us_id u \<noteq> us_id a" using that same by auto
    moreover have "u \<in> set (users s1)" using that calculation unfolding s1 by force
    ultimately show ?thesis using that g(3) by simp
  qed
  ultimately show ?case by (intro exI [of _ ?g]) blast
qed

text \<open>
  C33. When no other request writes meanwhile, the re-wrapping script leaves every user with a data key that
  the active key wraps, and every identity reads as before with a configuration that keeps only that key.
\<close>

theorem rewrap_keeps_identities:
  assumes "crypto_lib_ok (nv_crypto v)" and "load_keys (nv_config v) = Inr K"
    and "ring_key C' (kc_active K) = ring_key (nv_config v) (kc_active K)" and "\<forall>k s. nv_others v k s = s"
    and "users_ok (nv_crypto v) (nv_config v) (users s)" and "rewrap_users v s = (Inr n, t)"
  shows "list_all2 (rewrapped_row (nv_crypto v) (nv_config v) C' (kc_active K)) (users s) (users t)"
proof -
  have "(\<lambda>u. bnd (pause (nv_others v 4)) (\<lambda>_. rewrap_user v u)) = rewrap_user v"
    by (intro ext) (simp add: bnd_def assms(4))
  then obtain bs where run: "each (rewrap_user v) (users s) s = (Inr bs, t)"
    using assms(6) by (auto simp: rewrap_users_def bnd_result_Inr)
  have us: "distinct (map us_id (users s))"
    "\<forall>u\<in>set (users s). si_ciphertext (us_sealed u) \<noteq> [] \<and>
       (\<exists>p. decrypt_identity (nv_crypto v) (nv_config v) (us_id u) (us_sealed u) = Inr p)"
    using assms(5) by (simp_all add: users_ok_def)
  then have "distinct (users s)" by (simp add: distinct_map)
  from rewrap_each [OF assms(1) refl refl assms(2,3) us subset_refl this run]
  show ?thesis by (auto simp: list_all2_map2 list_all2_same)
qed

lemma demo_rewrap:
  "rewrap_dek demo_crypto (demo_config ''k2'') iv user (demo_sealed ''k1'' r user p) =
     Inr \<lparr>wd_dek = sr_dek r, wd_iv = iv, wd_tag = demo_tag (demo_kek ''k2'') (dek_aad user ''k2''), wd_version = ''k2''\<rparr>"
  by (simp add: rewrap_dek_def demo_keys unwrap_dek_def demo_sealed_def demo_kek_def) (simp add: demo_crypto_def)

lemma demo_rewrap_user:
  assumes "users s = [u]" and "us_id u = ''u1''" and "us_sealed u = demo_sealed version r ''u1'' p" and "user_check u"
    and "user_check (u\<lparr>us_sealed := (us_sealed u)\<lparr>si_dek := demo_key CHR ''d'', si_dek_iv := replicate 12 CHR ''r'',
       si_dek_tag := demo_tag (demo_kek ''k2'') (dek_aad ''u1'' ''k2''), si_version := ''k2''\<rparr>, us_updated := nv_now (demo_account_env ''k2'') 4\<rparr>)"
  shows "rewrap_user (demo_account_env ''k2'') (demo_user ''k1'') s =
     (Inr True, s\<lparr>users := [u\<lparr>us_sealed := (us_sealed u)\<lparr>si_dek := demo_key CHR ''d'', si_dek_iv := replicate 12 CHR ''r'',
       si_dek_tag := demo_tag (demo_kek ''k2'') (dek_aad ''u1'' ''k2''), si_version := ''k2''\<rparr>,
       us_updated := nv_now (demo_account_env ''k2'') 4\<rparr>]\<rparr>)"
proof -
  have "us_id (demo_user ''k1'') = ''u1''" "us_sealed (demo_user ''k1'') = demo_sealed ''k1'' demo_random ''u1'' no_identity"
    "si_ciphertext (demo_sealed ''k1'' demo_random ''u1'' no_identity) \<noteq> []" "si_version (demo_sealed ''k1'' demo_random ''u1'' no_identity) = ''k1''"
    by (simp_all add: demo_user_def demo_sealed_def canonical_not_empty)
  moreover have "sr_dek demo_random = demo_key CHR ''d''" by (simp add: demo_random_def)
  ultimately show ?thesis
    using assms
    by (simp add: rewrap_user_def demo_env_values demo_rewrap bnd_def update_user_def find_user_def with_dek_def
        update_where_def unique_some_def Let_def)
qed

theorem rewrap_keeps_identities_witness:
  "\<exists>n t. rewrap_users (demo_account_env ''k2'') (demo_accounted ''k1'') = (Inr n, t) \<and> n = 1 \<and>
     list_all2 (rewrapped_row demo_crypto (demo_config ''k2'') (demo_config ''k2'') ''k2'') [demo_user ''k1''] (users t)"
proof -
  let ?u = "demo_user ''k1''"
  have check: "user_check ?u"
    "user_check (?u\<lparr>us_sealed := (us_sealed ?u)\<lparr>si_dek := demo_key CHR ''d'', si_dek_iv := replicate 12 CHR ''r'',
       si_dek_tag := demo_tag (demo_kek ''k2'') (dek_aad ''u1'' ''k2''), si_version := ''k2''\<rparr>, us_updated := n\<rparr>)" for n
    by (simp_all add: user_check_def demo_user_def demo_sealed_def demo_random_def demo_tag_def demo_key_def no_identity_def
        truthy_def char_count_def)
  have row: "us_id ?u = ''u1''" "us_sealed ?u = demo_sealed ''k1'' demo_random ''u1'' no_identity" "users (demo_accounted ''k1'') = [?u]"
    by (simp_all add: demo_user_def demo_accounted_def)
  obtain t where one: "rewrap_user (demo_account_env ''k2'') ?u (demo_accounted ''k1'') = (Inr True, t)"
    using demo_rewrap_user [OF row(3,1,2) check] by blast
  have run: "rewrap_users (demo_account_env ''k2'') (demo_accounted ''k1'') = (Inr 1, t)"
    using one by (simp add: rewrap_users_def bnd_def row(3) demo_env_values)
  have "users_ok demo_crypto (demo_config ''k2'') [?u]"
    by (simp add: users_ok_def row demo_decrypt unique_some_def) (simp add: demo_sealed_def canonical_not_empty)
  then show ?thesis
    using rewrap_keeps_identities [OF _ _ _ _ _ run, of _ "demo_config ''k2''"] run
    by (simp add: demo_env_values demo_keys row(3))
qed

lemma find_replaced:
  "key row = k \<Longrightarrow> List.find (\<lambda>p. key p = k) ps = Some q \<Longrightarrow>
     List.find (\<lambda>p. key p = k) (update_where (\<lambda>p. key p = k) (\<lambda>_. row) ps) = Some row"
  by (induction ps) (auto simp: update_where_def split: if_splits)

text \<open>
  C34. The script's update has no guard: when an identity was stored under a new data key after the script had
  read the row, the script puts the old data key beside the new ciphertext, and the identity is lost.
\<close>

theorem rewrap_overwrites_newer_identity:
  assumes "crypto_lib_ok (nv_crypto v)" and "rewrap_user v u s = (Inr True, t)"
    and "find_user (us_id u) s = Some q" and "si_ciphertext (us_sealed q) \<noteq> []"
    and "\<forall>kek dek p. ring_key (nv_config v) (si_version (us_sealed u)) = Some kek \<and>
       unwrap_dek (nv_crypto v) kek (us_id u) (us_sealed u) = Some dek \<longrightarrow>
       cl_encrypt (nv_crypto v) dek (si_iv (us_sealed q)) p (identity_aad (us_id u)) \<noteq>
         (si_ciphertext (us_sealed q), si_tag (us_sealed q))"
  shows "\<exists>w. find_user (us_id u) t = Some w \<and> si_ciphertext (us_sealed w) = si_ciphertext (us_sealed q) \<and>
    decrypt_identity (nv_crypto v) (nv_config v) (us_id w) (us_sealed w) = Inl identity_decryption_failed"
proof -
  let ?L = "nv_crypto v" and ?C = "nv_config v"
  obtain w where w: "rewrap_dek ?L ?C (nv_rewrap_iv v (us_id u)) (us_id u) (us_sealed u) = Inr w"
    and upd: "\<exists>row. update_user (nv_now v 4) (us_id u) (with_dek w) s = (Inr row, t)"
    using assms(2) by (auto simp: rewrap_user_def bnd_result_Inr split: if_splits sum.splits)
  obtain K old new dek where K: "load_keys ?C = Inr K" "map_of (kc_keys K) (si_version (us_sealed u)) = Some old"
    "map_of (kc_keys K) (kc_active K) = Some new" "unwrap_dek ?L old (us_id u) (us_sealed u) = Some dek"
    and wrapped: "cl_encrypt ?L new (wd_iv w) dek (dek_aad (us_id u) (kc_active K)) = (wd_dek w, wd_tag w)"
      "wd_version w = kc_active K"
    using w by (auto simp: rewrap_dek_def Let_def split: sum.splits option.splits prod.splits)
  obtain row where row: "row = q\<lparr>us_sealed := with_dek w (us_sealed q), us_updated := nv_now v 4\<rparr>"
    and t: "t = s\<lparr>users := update_where (\<lambda>p. us_id p = us_id u) (\<lambda>_. row) (users s)\<rparr>"
    using upd update_user_Inr assms(3) by fastforce
  have q: "us_id q = us_id u" using find_user_in [OF assms(3)] by simp
  have "find_user (us_id u) t = Some row"
    using assms(3) q row unfolding t find_user_def by (simp add: find_replaced)
  moreover have "decrypt_identity ?L ?C (us_id row) (us_sealed row) = Inl identity_decryption_failed"
  proof -
    have "cl_decrypt ?L dek (si_iv (us_sealed q)) (si_ciphertext (us_sealed q)) (si_tag (us_sealed q)) (identity_aad (us_id u)) \<noteq> Some p" for p
    proof -
      have "ring_key ?C (si_version (us_sealed u)) = Some old" using K by (simp add: ring_key_def)
      then show ?thesis using assms(5) K(4) crypto_lib_okD(3) [OF assms(1)] by metis
    qed
    then have "open_identity ?L dek (us_id u) (with_dek w (us_sealed q)) = None"
      by (auto simp: open_identity_def with_dek_def bind_eq_None_conv)
    moreover have "unwrap_dek ?L new (us_id u) (with_dek w (us_sealed q)) = Some dek"
      using crypto_lib_okD(1) [OF assms(1) wrapped(1)] wrapped(2) by (simp add: unwrap_dek_def with_dek_def)
    ultimately show ?thesis
      using assms(4) K q row wrapped(2) by (simp add: decrypt_identity_def) (simp add: with_dek_def)
  qed
  ultimately show ?thesis using row by (intro exI [of _ row]) (simp add: with_dek_def)
qed

definition demo_newer :: user where
  "demo_newer = (demo_user ''k1'')\<lparr>us_sealed :=
     demo_sealed ''k2'' (demo_random\<lparr>sr_dek := demo_key CHR ''e''\<rparr>) ''u1'' (no_identity\<lparr>ip_name := Some ''Ann''\<rparr>)\<rparr>"

theorem rewrap_overwrites_newer_identity_witness:
  "decrypt_identity demo_crypto (demo_config ''k2'') ''u1'' (us_sealed demo_newer) = Inr (no_identity\<lparr>ip_name := Some ''Ann''\<rparr>) \<and>
   (\<exists>t w. rewrap_user (demo_account_env ''k2'') (demo_user ''k1'') ((demo_accounted ''k1'')\<lparr>users := [demo_newer]\<rparr>) = (Inr True, t) \<and>
     find_user ''u1'' t = Some w \<and>
     decrypt_identity demo_crypto (demo_config ''k2'') (us_id w) (us_sealed w) = Inl identity_decryption_failed)"
proof -
  let ?u = "demo_user ''k1''" and ?s = "(demo_accounted ''k1'')\<lparr>users := [demo_newer]\<rparr>"
  have check: "user_check demo_newer"
    "user_check (demo_newer\<lparr>us_sealed := (us_sealed demo_newer)\<lparr>si_dek := demo_key CHR ''d'', si_dek_iv := replicate 12 CHR ''r'',
       si_dek_tag := demo_tag (demo_kek ''k2'') (dek_aad ''u1'' ''k2''), si_version := ''k2''\<rparr>, us_updated := n\<rparr>)" for n
    by (simp_all add: user_check_def demo_newer_def demo_user_def demo_sealed_def demo_random_def demo_tag_def demo_key_def
        no_identity_def truthy_def char_count_def)
  have row: "us_id demo_newer = ''u1''"
    "us_sealed demo_newer = demo_sealed ''k2'' (demo_random\<lparr>sr_dek := demo_key CHR ''e''\<rparr>) ''u1'' (no_identity\<lparr>ip_name := Some ''Ann''\<rparr>)"
    "us_id ?u = ''u1''" "us_sealed ?u = demo_sealed ''k1'' demo_random ''u1'' no_identity"
    by (simp_all add: demo_newer_def demo_user_def)
  obtain t where run: "rewrap_user (demo_account_env ''k2'') ?u ?s = (Inr True, t)"
    using demo_rewrap_user [of ?s, OF _ row(1,2) check] by simp
  have found: "find_user (us_id ?u) ?s = Some demo_newer" by (simp add: find_user_def row)
  have filled: "si_ciphertext (us_sealed demo_newer) \<noteq> []" by (simp add: row demo_sealed_def canonical_not_empty)
  have "demo_tag (demo_key CHR ''d'') a \<noteq> demo_tag (demo_key CHR ''e'') a" for a
    by (simp add: demo_tag_def demo_key_def numeral_eq_Suc)
  then have "\<forall>kek dek p. ring_key (demo_config ''k2'') (si_version (us_sealed ?u)) = Some kek \<and>
       unwrap_dek demo_crypto kek (us_id ?u) (us_sealed ?u) = Some dek \<longrightarrow>
       cl_encrypt demo_crypto dek (si_iv (us_sealed demo_newer)) p (identity_aad (us_id ?u)) \<noteq>
         (si_ciphertext (us_sealed demo_newer), si_tag (us_sealed demo_newer))"
    by (auto simp: unwrap_dek_def row demo_sealed_def demo_crypto_def demo_random_def)
  then obtain w where "find_user ''u1'' t = Some w"
    "decrypt_identity demo_crypto (demo_config ''k2'') (us_id w) (us_sealed w) = Inl identity_decryption_failed"
    using rewrap_overwrites_newer_identity [OF _ run found filled] by (auto simp: demo_env_values row)
  moreover have "decrypt_identity demo_crypto (demo_config ''k2'') ''u1'' (us_sealed demo_newer) = Inr (no_identity\<lparr>ip_name := Some ''Ann''\<rparr>)"
    by (simp add: row demo_decrypt)
  ultimately show ?thesis using run by blast
qed

section \<open>Updates\<close>

text \<open>A request in a run of the three services.\<close>

definition account_request_in ::
  "decimal_lib \<Rightarrow> (string \<Rightarrow> string) \<Rightarrow> world \<Rightarrow> world account_env \<Rightarrow> world account_state \<Rightarrow> bool" where
  "account_request_in D sha x v s \<longleftrightarrow>
     crypto_lib_ok (nv_crypto v) \<and> world_ok sha x \<and> account_links D sha v \<and>
     (\<forall>k u. account_run D sha (nv_crypto v) (nv_config v) u (nv_others v k u)) \<and>
     account_run D sha (nv_crypto v) (nv_config v) (empty_account x) s"

lemma request_in_run:
  assumes "account_request_in D sha x v s"
  shows "account_calm (account_links D sha) (world_ok sha) (world_later D sha) ledger_holds (nv_crypto v) (nv_config v) v"
    and "linked_inv sha (nv_crypto v) (nv_config v) s"
  using assms unfolding account_request_in_def by (blast intro: account_run_calm account_run_inv)+

lemma demo_request_in:
  assumes "active = ''k1'' \<or> active = ''k2''"
  shows "account_request_in exact_decimal demo_digest (empty_ledger, empty_audit) (demo_account_env active) (demo_accounted active)"
    "account_request_in exact_decimal demo_digest (empty_ledger, empty_audit) (demo_account_env active)
       (empty_account (empty_ledger, empty_audit))"
  using demo_account_run [OF assms]
  by (simp_all add: account_request_in_def demo_env_values demo_account_links an_idle)

text \<open>
  C35. An update of an identity that is answered returns the identity it was asked to store, in normal form,
  for the caller's own user, and the audit trail has its event: one that names the user and the caller, and
  whose identifier is derived from the canonical text.
\<close>

theorem identity_update_answered:
  assumes "account_request_in D sha x v s" and "update_identity v external input s = (Inr r, t)"
  shows "ir_external r = external \<and> (\<exists>q\<in>set (users t). us_id q = ir_user r \<and> us_external q = external) \<and>
    ir_identity r \<in> {normalize_identity (nv_crypto v) input, normalize_identity (nv_crypto v) (normalize_identity (nv_crypto v) input)} \<and>
    (\<exists>q\<in>set (audit_records (snd (account_world t))).
       ar_event q = deterministic_uuid (nv_sha256 v) (''identity.updated'' @ [CHR 0x00] @ ir_user r @ [CHR 0x00] @
         canonical_identity (normalize_identity (nv_crypto v) input)) \<and>
       ar_action q = ''user.identity.updated'' \<and> ar_entity q = ir_user r \<and> ar_actor q = Some external)"
proof -
  note calm = request_in_run [OF assms(1)]
  from hoareD(2) [OF ap.update_identity_hoare [OF calm(1), of external input] calm(2) assms(2) refl]
  obtain occurred where r: "identity_stored (nv_crypto v) external input r t"
    and "trail_has (identity_event (nv_sha256 v) (ir_user r) external
      (canonical_identity (normalize_identity (nv_crypto v) input)) occurred) (account_world t)" by blast
  then obtain q where "q \<in> set (audit_records (snd (account_world t)))"
    "records_event (identity_event (nv_sha256 v) (ir_user r) external
      (canonical_identity (normalize_identity (nv_crypto v) input)) occurred) q"
    by (auto simp: trail_has_def)
  then show ?thesis using r by (auto simp: identity_stored_def records_event_def identity_event_def)
qed

lemma demo_identity_recorded:
  "\<exists>a. nv_append (demo_account_env active) (identity_event demo_digest ''u1'' ''alice'' t 0) (l, empty_audit) =
     (Response 201 () None None, (l, a))"
proof -
  let ?c = "identity_event demo_digest ''u1'' ''alice'' t 0"
  obtain e where e: "e = \<lparr>ne_event = ae_event ?c, ne_stream = ''user:u1'', ne_action = ''user.identity.updated'',
     ne_entity_type = ''user'', ne_entity = ''u1'', ne_actor = Some ''alice'', ne_occurred = 0,
     ne_metadata = [(''schemaVersion'', JStr ''v1'')]\<rparr>" by blast
  have names: "ae_stream ?c = ''user:u1''" "ae_action ?c = ''user.identity.updated''" "ae_entity_type ?c = ''user''"
    "ae_entity ?c = ''u1''" "ae_actor ?c = Some ''alice''" "ae_occurred ?c = iso_text 0"
    "ae_metadata ?c = Some [(''schemaVersion'', JStr ''v1'')]"
    by (simp_all add: identity_event_def)
  have safe: "safe_identifier 160 ''user:u1''" "safe_identifier 100 ''user.identity.updated''" "safe_identifier 80 ''user''"
    "safe_identifier 128 ''u1''" "safe_identifier 128 ''alice''" by code_simp+
  have clean: "sanitize_metadata [(''schemaVersion'', JStr ''v1'')] = Inr [(''schemaVersion'', JStr ''v1'')]" by code_simp
  have "normalize_event demo_trail_env ?c = Inr e"
    by (simp add: normalize_event_def names clean demo_trail_env_def e)
  moreover have "append_body_ok demo_audit_http ?c"
    using safe by (simp add: append_body_ok_def names demo_audit_http_def)
  moreover have "record_check (new_record demo_trail_env e (demo_stream e))"
    using demo_current [of e "demo_stream e"]
    by (simp add: record_check_def) (simp add: new_record_def e demo_stream_def char_count_def)
  moreover have "char_count (ne_stream e) \<le> 160" "same_event False (appended demo_trail_env e (demo_stream e)) e"
    by (simp_all add: e char_count_def same_event_def appended_def new_record_def as_metadata_def)
  ultimately show ?thesis using demo_recorded by blast
qed

lemma demo_newer_check:
  "user_check (\<lparr>us_id = ''u1'', us_external = ''alice'', us_sealed = demo_sealed ''k2'' demo_random ''u1'' p, us_status = UserActive, us_updated = n\<rparr>)"
  if "p = no_identity\<lparr>ip_name := Some ''Ann'', ip_email := Some ''a@b''\<rparr>"
  using that
  by (simp add: user_check_def demo_sealed_def demo_random_def demo_tag_def demo_key_def no_identity_def truthy_def
      char_count_def demo_crypto_def)

lemma demo_update:
  "\<exists>t. update_identity (demo_account_env ''k2'') ''alice'' demo_identity (empty_account (empty_ledger, empty_audit)) =
     (Inr \<lparr>ir_user = ''u1'', ir_external = ''alice'', ir_identity = no_identity\<lparr>ip_name := Some ''Ann'', ip_email := Some ''a@b''\<rparr>\<rparr>, t)"
proof -
  let ?v = "demo_account_env ''k2''" and ?n = "no_identity\<lparr>ip_name := Some ''Ann'', ip_email := Some ''a@b''\<rparr>"
  let ?s = "(empty_account (empty_ledger, empty_audit))\<lparr>users := [demo_user ''k2'']\<rparr>"
  let ?w = "(demo_user ''k2'')\<lparr>us_sealed := demo_sealed ''k2'' demo_random ''u1'' ?n\<rparr>"
  let ?event = "identity_event demo_digest ''u1'' ''alice'' (canonical_identity ?n) 0"
  have normal: "normalize_identity demo_crypto ?n = ?n"
    by (simp add: normalize_identity_def no_identity_def demo_crypto_def normalize_optional_def normalize_email_def
        truthy_def demo_trims)
  obtain a where logged: "nv_append ?v ?event (empty_ledger, empty_audit) = (Response 201 () None None, (empty_ledger, a))"
    using demo_identity_recorded by blast
  have row: "us_id (demo_user ''k2'') = ''u1''" "us_sealed (demo_user ''k2'') = demo_sealed ''k2'' demo_random ''u1'' no_identity"
    "us_external (demo_user ''k2'') = ''alice''" "us_updated (demo_user ''k2'') = 0"
    by (simp_all add: demo_user_def)
  have user: "ensure_user ?v ''alice'' (empty_account (empty_ledger, empty_audit)) = (Inr (demo_user ''k2''), ?s)"
    by (rule demo_ensured) simp
  have "canonical_identity no_identity \<noteq> canonical_identity ?n" using canonical_inject by (fastforce simp: no_identity_def)
  moreover have "opened ?v (demo_user ''k2'') ?s = (Inr no_identity, ?s)"
    by (simp add: opened_def demo_env_values row demo_decrypt)
  moreover have "bnd (sealed ?v 1 ''u1'' ?n) (\<lambda>e. update_user (nv_now ?v 1) ''u1'' (\<lambda>_. e)) ?s = (Inr ?w, ?s\<lparr>users := [?w]\<rparr>)"
    using demo_newer_check normal
    by (simp add: bnd_def demo_sealing update_user_def find_user_def update_where_def unique_some_def Let_def
        demo_env_values row) (simp add: demo_user_def)
  moreover have "append_audit ?v ?event (?s\<lparr>users := [?w]\<rparr>) = (Inr (), ?s\<lparr>users := [?w], account_world := (empty_ledger, a)\<rparr>)"
    using logged by (simp add: append_audit_def demo_env_values truthy_def empty_account_def)
  moreover have "opened ?v ?w q = (Inr ?n, q)" for q
    by (simp add: opened_def demo_env_values row demo_decrypt)
  ultimately show ?thesis
    using user by (simp add: update_identity_def Let_def bnd_def catch_def demo_env_values demo_identity_normal row identity_response_of_def)
qed

theorem identity_update_answered_witness:
  "\<exists>r t q. update_identity (demo_account_env ''k2'') ''alice'' demo_identity (empty_account (empty_ledger, empty_audit)) = (Inr r, t) \<and>
     ir_identity r = no_identity\<lparr>ip_name := Some ''Ann'', ip_email := Some ''a@b''\<rparr> \<and>
     q \<in> set (audit_records (snd (account_world t))) \<and> ar_action q = ''user.identity.updated'' \<and> ar_entity q = ''u1''"
proof -
  obtain t where t: "update_identity (demo_account_env ''k2'') ''alice'' demo_identity (empty_account (empty_ledger, empty_audit)) =
     (Inr \<lparr>ir_user = ''u1'', ir_external = ''alice'', ir_identity = no_identity\<lparr>ip_name := Some ''Ann'', ip_email := Some ''a@b''\<rparr>\<rparr>, t)"
    using demo_update by blast
  from identity_update_answered [OF demo_request_in(2) t]
  obtain q where "q \<in> set (audit_records (snd (account_world t)))" "ar_action q = ''user.identity.updated''" "ar_entity q = ''u1''"
    by auto
  then show ?thesis using t by (intro exI [of _ t] exI conjI; simp?) auto
qed

section \<open>The tables\<close>

text \<open>
  C30. In every state that the Account service reaches with the Ledger and the audit trail, whatever answers are
  lost and whatever else they serve: a user has at most one wallet of a currency, no two wallets share a
  ledger account, an active wallet has an account that the Ledger really holds for it in its currency, every
  wallet has its one idempotency key of its own user, every identity can be decrypted, and the books and the
  chains of the other two are sound.
\<close>

theorem account_tables_sound:
  assumes "crypto_lib_ok L" and "world_ok sha x" and "account_run D sha L C (empty_account x) s"
  shows "distinct (map (\<lambda>w. (wl_user w, wl_currency w)) (wallets s)) \<and> unique_some wl_ledger (wallets s) \<and>
    (\<forall>w\<in>set (wallets s).
       (wl_status w = WalletActive \<longrightarrow> (\<exists>i. wl_ledger w = Some i \<and> ledger_holds i (wl_id w) (wl_currency w) (account_world s))) \<and>
       (\<exists>r\<in>set (wallet_keys s). wk_wallet r = wl_id w \<and> wk_user r = wl_user w)) \<and>
    (\<forall>u\<in>set (users s). \<exists>p. decrypt_identity L C (us_id u) (us_sealed u) = Inr p) \<and>
    world_ok sha (account_world s)"
proof -
  have inv: "linked_inv sha L C s" using assms by (rule account_run_inv)
  then have ok: "account_ok L C s" and w: "world_ok sha (account_world s)"
    and held: "\<forall>w\<in>set (wallets s). \<forall>i. wl_ledger w = Some i \<longrightarrow> ledger_holds i (wl_id w) (wl_currency w) (account_world s)"
    by (simp_all add: account_inv_def)
  have ids: "distinct (map wl_id (wallets s))" using ok by (simp add: account_ok_def wallets_ok_def)
  have "\<exists>r\<in>set (wallet_keys s). wk_wallet r = wl_id w \<and> wk_user r = wl_user w" if q: "w \<in> set (wallets s)" for w
  proof -
    obtain r where r: "r \<in> set (wallet_keys s)" "wk_wallet r = wl_id w"
      using ok q by (auto simp: account_ok_def wallet_keys_ok_def)
    obtain q' where "q' \<in> set (wallets s)" "wl_id q' = wk_wallet r" "wl_user q' = wk_user r"
      using ok r(1) by (auto simp: account_ok_def wallet_keys_ok_def)
    then show ?thesis using distinct_key [OF ids _ q] r by metis
  qed
  then show ?thesis using ok w held by (auto simp: account_ok_def users_ok_def wallets_ok_def)
qed

theorem account_tables_sound_witness:
  "ledger_holds ''a1'' ''w1'' ''USD'' (account_world (demo_accounted ''k2'')) \<and>
   (\<exists>p. decrypt_identity demo_crypto (demo_config ''k2'') ''u1'' (us_sealed (demo_user ''k2'')) = Inr p)"
proof -
  have row: "demo_wallet \<in> set (wallets (demo_accounted ''k2''))" "demo_user ''k2'' \<in> set (users (demo_accounted ''k2''))"
    by (simp_all add: demo_accounted_def)
  have active: "wl_status demo_wallet = WalletActive" by (simp add: demo_wallet_def)
  note sound = account_tables_sound [OF demo_crypto_ok empty_world demo_account_run [of "''k2''"]]
  have "\<exists>i. wl_ledger demo_wallet = Some i \<and>
      ledger_holds i (wl_id demo_wallet) (wl_currency demo_wallet) (account_world (demo_accounted ''k2''))"
    using sound row(1) active by blast
  moreover have "\<exists>p. decrypt_identity demo_crypto (demo_config ''k2'') (us_id (demo_user ''k2'')) (us_sealed (demo_user ''k2'')) = Inr p"
    using sound row(2) by blast
  ultimately show ?thesis by (simp add: demo_wallet_def demo_user_def)
qed

section \<open>Wallets\<close>

text \<open>
  C31. A creation that is answered leaves the caller's wallet active with a ledger account that the Ledger holds
  for it in its currency, and with the activation recorded in the audit trail under the wallet's one event;
  this holds for a repetition too, and however the requests of others interleave with it.
\<close>

theorem created_wallet_is_provisioned_and_recorded:
  assumes "account_request_in D sha x v s" and "create_wallet v external key c s = (Inr r, t)"
  shows "wr_status r = WalletActive \<and>
    (\<exists>q\<in>set (wallets t). wl_id q = wr_id r \<and> wl_currency q = wr_currency r \<and> wl_status q = WalletActive) \<and>
    (\<exists>i. wr_ledger r = Some i \<and> ledger_holds i (wr_id r) (wr_currency r) (account_world t)) \<and>
    (\<exists>q\<in>set (audit_records (snd (account_world t))).
       ar_event q = deterministic_uuid (nv_sha256 v) (''wallet.activated'' @ [CHR 0x00] @ wr_id r) \<and>
       ar_action q = ''wallet.activated'' \<and> ar_entity q = wr_id r \<and> ar_actor q = Some external)"
proof -
  note calm = request_in_run [OF assms(1)]
  from hoareD(2) [OF ap.create_wallet_hoare [OF calm(1), of external key c] calm(2) assms(2) refl]
  obtain a p where r: "r = wallet_response_of a (Some p)" and a: "provisioned ledger_holds a t"
    and "trail_has (activation_event (nv_sha256 v) (wl_id a) external (wl_currency a) (wl_updated a)) (account_world t)"
    by (auto simp: ap.created_wallet_def)
  then obtain q where "q \<in> set (audit_records (snd (account_world t)))"
    "records_event (activation_event (nv_sha256 v) (wl_id a) external (wl_currency a) (wl_updated a)) q"
    by (auto simp: trail_has_def)
  then show ?thesis
    using a unfolding r
    by (auto simp: records_event_def activation_event_def wallet_response_of_def provisioned_def wallet_known_def
        later_wallet_def wallet_core_def)
qed

theorem created_wallet_is_provisioned_and_recorded_witness:
  "create_wallet (demo_account_env ''k2'') ''alice'' ''key'' demo_wallet_dto (empty_account (empty_ledger, empty_audit)) =
     (Inr (wallet_response_of demo_wallet (Some demo_balance)), demo_accounted ''k2'') \<and>
   (\<exists>q\<in>set (audit_records (snd (account_world (demo_accounted ''k2'')))). ar_action q = ''wallet.activated'' \<and> ar_entity q = ''w1'')"
proof -
  have run: "create_wallet (demo_account_env ''k2'') ''alice'' ''key'' demo_wallet_dto (empty_account (empty_ledger, empty_audit)) =
     (Inr (wallet_response_of demo_wallet (Some demo_balance)), demo_accounted ''k2'')"
    by (rule demo_created) simp
  have "wr_id (wallet_response_of demo_wallet (Some demo_balance)) = ''w1''"
    by (simp add: wallet_response_of_def demo_wallet_def)
  then show ?thesis
    using created_wallet_is_provisioned_and_recorded [OF demo_request_in(2) run] run by auto
qed

lemma quiet_pause: "\<forall>k s. nv_others v k s = s \<Longrightarrow> bnd (pause (nv_others v k)) f = f ()"
  by (rule ext) (simp add: bnd_def)

lemma call_rows:
  "ledger_request v send s = (r, t) \<Longrightarrow> users t = users s \<and> wallets t = wallets s \<and> wallet_keys t = wallet_keys s"
  "append_audit v e s = (q, t) \<Longrightarrow> users t = users s \<and> wallets t = wallets s \<and> wallet_keys t = wallet_keys s"
  by (auto simp: ledger_request_def append_audit_def split: if_splits prod.splits)

lemma activate_rows:
  assumes "activate_wallet v w p s = (r, t)"
  shows "users t = users s \<and> wallet_keys t = wallet_keys s \<and> map wl_id (wallets t) = map wl_id (wallets s)"
    and "r = Inr a \<Longrightarrow> wl_id a = wl_id w \<and> wl_status a = WalletActive \<and> a \<in> set (wallets t)"
proof -
  have new: "find_wallet (wl_id w) s \<noteq> None \<and> wl_id a = wl_id w \<and> wl_status a = WalletActive \<and>
      t = s\<lparr>wallets := update_where (\<lambda>q. wl_id q = wl_id w) (\<lambda>_. a) (wallets s)\<rparr>" if "r = Inr a" for a
    using update_wallet_Inr [OF assms [unfolded activate_wallet_def that]] by (auto dest: find_wallet_in)
  show "users t = users s \<and> wallet_keys t = wallet_keys s \<and> map wl_id (wallets t) = map wl_id (wallets s)"
  proof (cases r)
    case (Inl x)
    then show ?thesis using assms update_wallet_Inl unfolding activate_wallet_def by blast
  next
    case (Inr a)
    then show ?thesis using new by (simp add: map_update_where)
  qed
  show "wl_id a = wl_id w \<and> wl_status a = WalletActive \<and> a \<in> set (wallets t)" if "r = Inr a"
    using new [OF that] by (auto simp: update_where_def image_iff dest: find_wallet_in)
qed

text \<open>
  When a key of the caller was used before: with another currency or label the request is refused and
  nothing changes; with the same ones, the answer is for the wallet of that key, and no user, wallet or key is added.
\<close>

theorem wallet_key_replay:
  assumes "\<forall>k s. nv_others v k s = s" and "visible_key key"
    and "find_external external s = Some u" and "si_ciphertext (us_sealed u) \<noteq> []"
    and "find_wallet_key (us_id u) key s = Some (r, w)" and "create_wallet v external key c s = (z, t)"
  shows "if wk_hash r \<noteq> wallet_hash v c then z = Inl wallet_key_mismatch \<and> t = s
    else users t = users s \<and> wallet_keys t = wallet_keys s \<and> map wl_id (wallets t) = map wl_id (wallets s) \<and>
      (\<forall>x. z = Inr x \<longrightarrow> wr_id x = wl_id w \<and> wr_status x = WalletActive)"
proof -
  let ?prov = "ledger_request v (nv_provision v (wl_id w) (wl_currency w))"
  have user: "ensure_user v external s = (Inr u, s)"
    using assms(1,3,4) by (simp add: ensure_user_def bnd_def)
  have claim: "claim_wallet v (us_id u) key h c s =
      (if wk_hash r = h then (Inr w, s) else (Inl wallet_key_mismatch, s))" for h
    using assms(5) by (simp add: claim_wallet_def bnd_def ensure_apply)
  show ?thesis
  proof (cases "wk_hash r = wallet_hash v c")
    case False
    then show ?thesis
      using assms(1,2,6) user claim by (simp add: create_wallet_def Let_def bnd_def)
  next
    case True
    let ?event = "\<lambda>a. activation_event (nv_sha256 v) (wl_id a) external (wl_currency a) (wl_updated a)"
    let ?settle = "\<lambda>p. if wl_status w = WalletActive \<and> wl_ledger w = Some (br_account p) then ret w else activate_wallet v w p"
    obtain p s1 where p: "?prov s = (p, s1)" by fastforce
    note s1 = call_rows(1) [OF p]
    have run: "(case p of Inl e \<Rightarrow> (Inl e, s1) | Inr b \<Rightarrow>
        bnd (?settle b) (\<lambda>a. bnd (append_audit v (?event a)) (\<lambda>_. ret (wallet_response_of a (Some b)))) s1) = (z, t)"
      using assms(2,6) user claim True p
      by (simp add: create_wallet_def Let_def quiet_pause [OF assms(1)]) (simp add: bnd_def split: sum.splits)
    show ?thesis
    proof (cases p)
      case (Inl e)
      then show ?thesis using run True s1 by auto
    next
      case (Inr b)
      obtain a s2 where a: "?settle b s1 = (a, s2)" by fastforce
      have s2: "users s2 = users s1 \<and> wallet_keys s2 = wallet_keys s1 \<and> map wl_id (wallets s2) = map wl_id (wallets s1)"
        using a activate_rows(1) [of v w b s1 a s2] by (auto split: if_splits)
      have row: "wl_id q = wl_id w \<and> wl_status q = WalletActive" if "a = Inr q" for q
        using a that activate_rows(2) [of v w b s1 a s2 q] by (auto split: if_splits)
      show ?thesis
      proof (cases a)
        case (Inl e)
        then show ?thesis using run Inr a s1 s2 True by (auto simp: bnd_def)
      next
        case (Inr q)
        obtain y s3 where y: "append_audit v (?event q) s2 = (y, s3)" by fastforce
        have "z = (case y of Inl e \<Rightarrow> Inl e | Inr _ \<Rightarrow> Inr (wallet_response_of q (Some b)))" "t = s3"
          using run \<open>p = Inr b\<close> a Inr y by (auto simp: bnd_def split: sum.splits)
        then show ?thesis
          using True s1 s2 call_rows(2) [OF y] row [OF Inr] by (auto simp: wallet_response_of_def split: sum.splits)
      qed
    qed
  qed
qed

theorem wallet_key_replay_witness:
  "create_wallet ((demo_account_env ''k2'')\<lparr>nv_digest := (\<lambda>_. ''x'')\<rparr>) ''alice'' ''key'' demo_wallet_dto (demo_accounted ''k2'') =
     (Inl wallet_key_mismatch, demo_accounted ''k2'')"
proof -
  let ?v = "(demo_account_env ''k2'')\<lparr>nv_digest := (\<lambda>_. ''x'')\<rparr>" and ?s = "demo_accounted ''k2''"
  let ?r = "\<lparr>wk_user = ''u1'', wk_key = ''key'', wk_hash = ''h'', wk_wallet = ''w1''\<rparr>"
  obtain z t where run: "create_wallet ?v ''alice'' ''key'' demo_wallet_dto ?s = (z, t)" by fastforce
  have others: "\<forall>k s. nv_others ?v k s = s" by (simp add: demo_account_env_def)
  have key: "visible_key ''key''" by code_simp
  have user: "find_external ''alice'' ?s = Some (demo_user ''k2'')" "si_ciphertext (us_sealed (demo_user ''k2'')) \<noteq> []"
    by (simp_all add: find_external_def demo_accounted_def demo_user_def demo_sealed_def canonical_not_empty)
  have found: "find_wallet_key (us_id (demo_user ''k2'')) ''key'' ?s = Some (?r, demo_wallet)"
    by (simp add: find_wallet_key_def find_wallet_def demo_accounted_def demo_user_def demo_wallet_def)
  have "wk_hash ?r \<noteq> wallet_hash ?v demo_wallet_dto" by (simp add: wallet_hash_def)
  then show ?thesis using wallet_key_replay [OF others key user found run] run by simp
qed

text \<open>
  Reconciling a wallet makes it active whatever its status was, a frozen or a closed one too.
\<close>

theorem reconciling_activates_any_wallet:
  assumes "\<forall>k s. nv_others v k s = s" and "find_wallet i s = Some w" and "wl_status w \<in> {WalletFrozen, WalletClosed}"
    and "reconcile_wallet v i s = (Inr r, t)"
  shows "wr_id r = i \<and> wr_status r = WalletActive \<and> (\<exists>q\<in>set (wallets t). wl_id q = i \<and> wl_status q = WalletActive)"
proof -
  obtain p s1 where p: "ledger_request v (nv_provision v (wl_id w) (wl_currency w)) s = (p, s1)" by fastforce
  obtain b where b: "p = Inr b" "bnd (activate_wallet v w b) (\<lambda>active. ret (wallet_response_of active (Some b))) s1 = (Inr r, t)"
    using assms(2,4) p by (cases p) (auto simp: reconcile_wallet_def quiet_pause [OF assms(1)] bnd_def)
  obtain a where a: "activate_wallet v w b s1 = (Inr a, t)" "r = wallet_response_of a (Some b)"
    using b(2) by (auto simp: bnd_result_Inr)
  show ?thesis using activate_rows(2) [OF a(1) refl] a(2) find_wallet_in [OF assms(2)] by (auto simp: wallet_response_of_def)
qed

definition demo_frozen :: "world account_state" where
  "demo_frozen = (demo_accounted ''k2'')\<lparr>wallets := [demo_wallet\<lparr>wl_status := WalletFrozen\<rparr>], account_world := (empty_ledger, empty_audit)\<rparr>"

theorem reconciling_activates_any_wallet_witness:
  "\<exists>r t. reconcile_wallet (demo_account_env ''k2'') ''w1'' demo_frozen = (Inr r, t) \<and> wr_status r = WalletActive"
proof -
  let ?v = "demo_account_env ''k2''"
  have found: "find_wallet ''w1'' demo_frozen = Some (demo_wallet\<lparr>wl_status := WalletFrozen\<rparr>)"
    by (simp add: find_wallet_def demo_frozen_def demo_wallet_def)
  have prov: "ledger_request ?v (nv_provision ?v ''w1'' ''USD'') demo_frozen =
      (Inr demo_balance, demo_frozen\<lparr>account_world := (demo_ledger, empty_audit)\<rparr>)"
    by (simp add: ledger_request_def demo_env_values truthy_def ledger_answer_def demo_frozen_def demo_provisioned)
  have "activate_wallet ?v (demo_wallet\<lparr>wl_status := WalletFrozen\<rparr>) demo_balance (demo_frozen\<lparr>account_world := (demo_ledger, empty_audit)\<rparr>) =
      (Inr demo_wallet, demo_frozen\<lparr>wallets := [demo_wallet], account_world := (demo_ledger, empty_audit)\<rparr>)"
    by (simp add: activate_wallet_def update_wallet_def find_wallet_def update_where_def demo_env_values demo_wallet_def
        demo_frozen_def demo_balance_def unique_some_def Let_def)
  moreover have "wl_id (demo_wallet\<lparr>wl_status := WalletFrozen\<rparr>) = ''w1''" "wl_currency (demo_wallet\<lparr>wl_status := WalletFrozen\<rparr>) = ''USD''"
    by (simp_all add: demo_wallet_def)
  ultimately obtain r t where run: "reconcile_wallet ?v ''w1'' demo_frozen = (Inr r, t)"
    using prov by (simp add: reconcile_wallet_def found bnd_def demo_env_values)
  have "\<forall>k s. nv_others ?v k s = s" by (simp add: demo_env_values)
  from reconciling_activates_any_wallet [OF this found _ run] show ?thesis using run by auto
qed

text \<open>
  C36. A list of wallets holds only wallets of the caller's own user, and a balance is answered only for one.
\<close>

theorem wallets_shown_to_their_owner:
  assumes "account_request_in D sha x v s"
  shows "(\<forall>rs t. list_wallets v external s = (Inr rs, t) \<longrightarrow> (\<forall>r\<in>set rs. wallet_owned external (wr_id r) t)) \<and>
    (\<forall>b t. wallet_balance_of v external i s = (Inr b, t) \<longrightarrow> wallet_owned external i t)"
proof -
  note calm = request_in_run [OF assms]
  show ?thesis
    using hoareD(2) [OF ap.list_wallets_hoare [OF calm(1)] calm(2) _ refl]
      hoareD(2) [OF ap.wallet_balance_hoare [OF calm(1)] calm(2) _ refl] by fastforce
qed

theorem wallets_shown_to_their_owner_witness:
  "\<exists>rs t. list_wallets (demo_account_env ''k2'') ''alice'' (demo_accounted ''k2'') = (Inr rs, t) \<and>
     length rs = 1 \<and> (\<forall>r\<in>set rs. wallet_owned ''alice'' (wr_id r) t)"
proof -
  let ?v = "demo_account_env ''k2''" and ?s = "demo_accounted ''k2''"
  have user: "find_external ''alice'' ?s = Some (demo_user ''k2'')" "si_ciphertext (us_sealed (demo_user ''k2'')) \<noteq> []"
    by (simp_all add: find_external_def demo_accounted_def demo_user_def demo_sealed_def canonical_not_empty)
  have "ensure_user ?v ''alice'' ?s = (Inr (demo_user ''k2''), ?s)"
    using user by (simp add: ensure_user_def bnd_def demo_env_values)
  moreover have "us_id (demo_user ''k2'') = ''u1''" "wallets ?s = [demo_wallet]" "wl_user demo_wallet = ''u1''"
    "wl_id demo_wallet = ''w1''" "wl_ledger demo_wallet = Some ''a1''"
    by (simp_all add: demo_user_def demo_accounted_def demo_wallet_def)
  moreover have "ledger_request ?v (nv_balances ?v [''w1'']) ?s = (Inr [demo_balance], ?s)"
  proof -
    have "balances_query demo_books_env [''w1''] demo_ledger = (Inr [demo_balance], demo_ledger)"
      by (simp add: balances_query_def lift_result_def to_balance_def find_balance_def demo_books_env_def
          demo_ledger_def demo_balance_def bnd_def)
    then have "nv_balances ?v [''w1''] (demo_ledger, a) = (Response 201 [demo_balance] None None, (demo_ledger, a))" for a
      by (simp add: demo_account_env_def balances_link_def on_ledger_def balances_route_def guarded_def validated_def
          balance_query_ok_def demo_books_http_def internal_guard_def truthy_def bnd_def http_reply_def)
    then show ?thesis
      by (simp add: ledger_request_def demo_env_values truthy_def ledger_answer_def demo_accounted_def)
  qed
  ultimately obtain rs t where run: "list_wallets ?v ''alice'' ?s = (Inr rs, t)" "length rs = 1"
    by (simp add: list_wallets_def bnd_def demo_env_values wallet_balances_def)
  then show ?thesis using wallets_shown_to_their_owner [OF demo_request_in(1) [of "''k2''"]] by blast
qed

end
