(* ===== verification/ChangeDetection.thy ===== *)
theory ChangeDetection
  imports IdentityCrypto "HOL-Library.Extended_Nat" "HOL-Library.Log_Nat"
begin

text \<open>
  The change detection of the pipeline (tools/ci/affected-services.mjs): which services a list of changed
  paths concerns, and whether each service that was changed has a higher semantic version than before. Git
  and the files of the work tree are the parameter \<open>repository\<close>; writing the result is left out.
\<close>

section \<open>Text\<close>

text \<open>\<open>String.prototype.split\<close> with one character, and the text before and after its first occurrence.\<close>

fun split_text :: "char \<Rightarrow> string \<Rightarrow> string list" where
  "split_text c [] = [[]]"
| "split_text c (x # xs) =
     (if x = c then [] # split_text c xs
      else case split_text c xs of [] \<Rightarrow> [[x]] | w # ws \<Rightarrow> (x # w) # ws)"

definition split_first :: "char \<Rightarrow> string \<Rightarrow> string \<times> string option" where
  "split_first c t =
     (let rest = dropWhile (\<lambda>x. x \<noteq> c) t in (takeWhile (\<lambda>x. x \<noteq> c) t, if rest = [] then None else Some (tl rest)))"

definition starts_with :: "string \<Rightarrow> string \<Rightarrow> bool" where
  "starts_with p t \<longleftrightarrow> take (length p) t = p"

definition ends_with :: "string \<Rightarrow> string \<Rightarrow> bool" where
  "ends_with p t \<longleftrightarrow> length p \<le> length t \<and> drop (length t - length p) t = p"

definition lower_ascii :: "char \<Rightarrow> char" where
  "lower_ascii c = (if upper_letter c then char_of ((of_char c :: nat) + 32) else c)"

text \<open>
  \<open>Number\<close> of a text of digits: the nearest value with 53 significant bits, ties to the even one, and
  \<open>Infinity\<close> from the middle above the largest one on.
\<close>

definition js_number :: "nat \<Rightarrow> enat" where
  "js_number n =
     (let e = floorlog 2 n - 53; q = n div 2 ^ e; r = n mod 2 ^ e;
          up = (if 2 * r > 2 ^ e \<or> (2 * r = 2 ^ e \<and> odd q) then 1 else 0); x = (q + up) * 2 ^ e
      in if 2 ^ 1024 \<le> x then \<infinity> else enat x)"

section \<open>Versions\<close>

record semver =
  sv_major :: enat
  sv_minor :: enat
  sv_patch :: enat
  sv_pre :: "string list"

definition digits :: "string \<Rightarrow> bool" where
  "digits t \<longleftrightarrow> t \<noteq> [] \<and> list_all is_digit t"

definition core_number :: "string \<Rightarrow> bool" where
  "core_number t \<longleftrightarrow> t = ''0'' \<or> (digits t \<and> hd t \<noteq> CHR ''0'')"

definition identifier_ok :: "string \<Rightarrow> bool" where
  "identifier_ok t \<longleftrightarrow> t \<noteq> [] \<and> list_all (\<lambda>c. is_alnum c \<or> c = CHR ''-'') t"

definition identifiers_ok :: "string \<Rightarrow> bool" where
  "identifiers_ok t \<longleftrightarrow> list_all identifier_ok (split_text CHR ''.'' t)"

definition number_of :: "string \<Rightarrow> enat" where
  "number_of t = js_number (text_nat t)"

text \<open>
  \<open>SEMVER\<close> and \<open>parseSemver\<close>. The numbers hold neither \<open>-\<close> nor \<open>+\<close> and a prerelease holds no \<open>+\<close>, so the
  first of each divides the text.
\<close>

definition parse_semver :: "string \<Rightarrow> failure + semver" where
  "parse_semver version =
     (let (release, build) = split_first CHR ''+'' version; (core, pre) = split_first CHR ''-'' release in
      case split_text CHR ''.'' core of
        [major, minor, patch] \<Rightarrow>
          if core_number major \<and> core_number minor \<and> core_number patch \<and>
             (case pre of None \<Rightarrow> True | Some p \<Rightarrow> identifiers_ok p) \<and>
             (case build of None \<Rightarrow> True | Some b \<Rightarrow> identifiers_ok b)
          then Inr \<lparr>sv_major = number_of major, sv_minor = number_of minor, sv_patch = number_of patch,
                    sv_pre = (case pre of None \<Rightarrow> [] | Some p \<Rightarrow> split_text CHR ''.'' p)\<rparr>
          else Inl (PlainError (''Invalid semantic version: '' @ version))
      | _ \<Rightarrow> Inl (PlainError (''Invalid semantic version: '' @ version)))"

text \<open>The loop over the prerelease identifiers.\<close>

fun compare_identifiers :: "string list \<Rightarrow> string list \<Rightarrow> int" where
  "compare_identifiers [] [] = 0"
| "compare_identifiers [] (b # bs) = -1"
| "compare_identifiers (a # as) [] = 1"
| "compare_identifiers (a # as) (b # bs) =
     (if a = b then compare_identifiers as bs
      else if digits a \<and> digits b then (if number_of a > number_of b then 1 else -1)
      else if digits a \<noteq> digits b then (if digits a then -1 else 1)
      else if a > b then 1 else -1)"

definition compare_parsed :: "semver \<Rightarrow> semver \<Rightarrow> int" where
  "compare_parsed a b =
     (if sv_major a \<noteq> sv_major b then (if sv_major a > sv_major b then 1 else -1)
      else if sv_minor a \<noteq> sv_minor b then (if sv_minor a > sv_minor b then 1 else -1)
      else if sv_patch a \<noteq> sv_patch b then (if sv_patch a > sv_patch b then 1 else -1)
      else if sv_pre a = [] \<or> sv_pre b = []
      then (if length (sv_pre a) = length (sv_pre b) then 0 else if sv_pre a = [] then 1 else -1)
      else compare_identifiers (sv_pre a) (sv_pre b))"

definition compare_semver :: "string \<Rightarrow> string \<Rightarrow> failure + int" where
  "compare_semver left right =
     (case parse_semver left of
        Inl e \<Rightarrow> Inl e
      | Inr a \<Rightarrow> (case parse_semver right of Inl e \<Rightarrow> Inl e | Inr b \<Rightarrow> Inr (compare_parsed a b)))"

text \<open>\<open>validateVersionChange\<close>; \<open>base\<close> is \<open>None\<close> when it is \<open>null\<close> or \<open>undefined\<close>.\<close>

definition validate_version_change :: "string \<Rightarrow> string option \<Rightarrow> string \<Rightarrow> bool \<Rightarrow> failure + unit" where
  "validate_version_change service base current is_new =
     (case parse_semver current of
        Inl e \<Rightarrow> Inl e
      | Inr _ \<Rightarrow>
          if is_new
          then (if current \<noteq> ''0.1.0'' then Inl (PlainError (service @ '' is new and must start at version 0.1.0'')) else Inr ())
          else if \<not> truthy base then Inl (PlainError (''Cannot read the base version for '' @ service))
          else (case parse_semver (the base) of
              Inl e \<Rightarrow> Inl e
            | Inr _ \<Rightarrow>
                (case compare_semver current (the base) of
                   Inl e \<Rightarrow> Inl e
                 | Inr c \<Rightarrow>
                     if c \<le> 0
                     then Inl (PlainError (service @ '' must increase its version above '' @ the base @
                       ''; current version is '' @ current))
                     else Inr ())))"

section \<open>Paths\<close>

definition services :: "string list" where
  "services = [''account-service'', ''admin-service'', ''fx-service'', ''ledger-service'', ''payroll-service'', ''transaction-service'']"

text \<open>What one path means.\<close>

datatype path_class = SkipPath | ServicePath string | AllServices bool  \<comment> \<open>whether it is infrastructure\<close>

definition service_segment :: "string \<Rightarrow> string option" where
  "service_segment file =
     (if \<not> starts_with ''services/'' file then None
      else case split_first CHR ''/'' (drop 9 file) of
          (s, Some _) \<Rightarrow> if s = [] then None else Some s
        | _ \<Rightarrow> None)"

definition one_segment :: "string \<Rightarrow> bool" where
  "one_segment t \<longleftrightarrow> t \<noteq> [] \<and> CHR ''/'' \<notin> set t"

definition shared_config :: "string \<Rightarrow> bool" where
  "shared_config file \<longleftrightarrow>
     file = ''package.json'' \<or> file = ''package-lock.json'' \<or> file = ''tsconfig.json'' \<or>
     (starts_with ''tsconfig.'' file \<and> ends_with ''.json'' file \<and> 14 < length file \<and>
      one_segment (take (length file - 14) (drop 9 file))) \<or>
     (starts_with ''eslint.config.'' file \<and> one_segment (drop 14 file))"

definition public_document :: "string \<Rightarrow> bool" where
  "public_document file \<longleftrightarrow>
     (let t = map lower_ascii file; t = (if ends_with ''.md'' t then take (length t - 3) t else t)
      in t \<in> {''readme'', ''api_examples'', ''decisions'', ''license'', ''security'', ''contributing''})"

definition classify_path :: "string \<Rightarrow> path_class" where
  "classify_path raw =
     (let file = (if starts_with ''./'' raw then drop 2 raw else raw) in
      if file = [] then SkipPath
      else case service_segment file of
          Some s \<Rightarrow> if s \<in> set services then ServicePath s else AllServices False
        | None \<Rightarrow>
            if starts_with ''infra/'' file \<or> file = ''postman/docker-compose.yml'' then AllServices True
            else if starts_with ''postman/'' file then SkipPath
            else if starts_with ''.github/'' file \<or> starts_with ''tools/ci/'' file \<or> shared_config file then AllServices False
            else if starts_with ''docs/'' file \<or> public_document file then SkipPath
            else AllServices False)"

record change_set =
  cs_selected :: "string list"
  cs_direct :: "string list"
  cs_infrastructure :: bool
  cs_all :: bool

text \<open>The sets that the loop over the paths collects, and what \<open>classifyChanges\<close> returns.\<close>

primrec collect_paths :: "string list \<Rightarrow> string list \<times> bool \<times> bool \<Rightarrow> string list \<times> bool \<times> bool" where
  "collect_paths [] acc = acc"
| "collect_paths (p # ps) acc =
     (let (direct, every, infra) = acc in
      collect_paths ps
        (case classify_path p of
           SkipPath \<Rightarrow> acc
         | ServicePath s \<Rightarrow> (List.insert s direct, every, infra)
         | AllServices i \<Rightarrow> (direct, True, infra \<or> i)))"

definition classify_changes :: "string list \<Rightarrow> change_set" where
  "classify_changes paths =
     (let (direct, every, infra) = collect_paths paths ([], False, False)
      in \<lparr>cs_selected = (if every then services else sort direct), cs_direct = sort direct,
          cs_infrastructure = infra, cs_all = every\<rparr>)"

section \<open>Arguments\<close>

definition is_lower :: "char \<Rightarrow> bool" where
  "is_lower c \<longleftrightarrow> CHR ''a'' \<le> c \<and> c \<le> CHR ''z''"

text \<open>\<open>replace(/-([a-z])/g, ...)\<close>\<close>

fun camel_case :: "string \<Rightarrow> string" where
  "camel_case (x # c # t) =
     (if x = CHR ''-'' \<and> is_lower c then char_of ((of_char c :: nat) - 32) # camel_case t else x # camel_case (c # t))"
| "camel_case t = t"

fun read_arguments :: "string list \<Rightarrow> (string \<rightharpoonup> string) \<Rightarrow> failure + (string \<rightharpoonup> string)" where
  "read_arguments [] opts = Inr opts"
| "read_arguments (a # rest) opts =
     (if \<not> starts_with ''--'' a then Inl (PlainError (''Unknown argument: '' @ a))
      else case rest of
          [] \<Rightarrow> Inl (PlainError (''Missing value for '' @ a))
        | value # others \<Rightarrow>
            if value = [] \<or> starts_with ''--'' value then Inl (PlainError (''Missing value for '' @ a))
            else read_arguments others (opts(camel_case (drop 2 a) \<mapsto> value)))"

definition parse_arguments :: "string list \<Rightarrow> failure + (string \<rightharpoonup> string)" where
  "parse_arguments argv = read_arguments argv [''mode'' \<mapsto> ''manual'', ''head'' \<mapsto> ''HEAD'']"

section \<open>Detection\<close>

text \<open>
  Git and the work tree: whether a commit exists, the output of \<open>merge-base\<close> and of \<open>diff --name-only -z\<close>
  when they succeed, and the \<open>version\<close> of a package file. A version at the base is \<open>None\<close> when git has no
  such file or its version is \<open>null\<close>, and \<open>Some None\<close> when the file has no version.
\<close>

record repository =
  rp_commit :: "string \<Rightarrow> bool"
  rp_merge_base :: "string \<Rightarrow> string \<Rightarrow> string option"
  rp_diff :: "string \<Rightarrow> string \<Rightarrow> string option"
  rp_version :: "string \<Rightarrow> failure + string"
  rp_base_version :: "string \<Rightarrow> string \<Rightarrow> failure + string option option"

record matrix_entry =
  me_service :: string
  me_directory :: string
  me_workspace :: string
  me_version :: string

record detection =
  dr_matrix :: "matrix_entry list"
  dr_has_services :: bool
  dr_infrastructure :: bool
  dr_fallback :: bool
  dr_summary :: string

definition package_version :: "repository \<Rightarrow> string \<Rightarrow> failure + string" where
  "package_version R service =
     (case rp_version R service of
        Inl e \<Rightarrow> Inl e
      | Inr v \<Rightarrow> (case parse_semver v of Inl e \<Rightarrow> Inl e | Inr _ \<Rightarrow> Inr v))"

definition matrix_for :: "repository \<Rightarrow> string list \<Rightarrow> failure + matrix_entry list" where
  "matrix_for R =
     map_result (\<lambda>s. map_sum id (\<lambda>v. \<lparr>me_service = s, me_directory = ''services/'' @ s,
       me_workspace = ''@novapay/'' @ s, me_version = v\<rparr>) (package_version R s))"

definition fallback_result :: "repository \<Rightarrow> string \<Rightarrow> failure + detection" where
  "fallback_result R reason =
     map_sum id (\<lambda>m. \<lparr>dr_matrix = m, dr_has_services = True, dr_infrastructure = True, dr_fallback = True,
       dr_summary = ''Selected all services: '' @ reason\<rparr>) (matrix_for R services)"

primrec check_versions :: "repository \<Rightarrow> string \<Rightarrow> string list \<Rightarrow> failure + unit" where
  "check_versions R base [] = Inr ()"
| "check_versions R base (s # ss) =
     (case rp_base_version R base s of
        Inl e \<Rightarrow> Inl e
      | Inr before \<Rightarrow>
          (case package_version R s of
             Inl e \<Rightarrow> Inl e
           | Inr now \<Rightarrow>
               (case validate_version_change s (Option.bind before id) now (before = None) of
                  Inl e \<Rightarrow> Inl e
                | Inr _ \<Rightarrow> check_versions R base ss)))"

definition comma_separated :: "string list \<Rightarrow> string" where
  "comma_separated ts = (case ts of [] \<Rightarrow> [] | t # rest \<Rightarrow> t @ concat (map (\<lambda>u. '', '' @ u) rest))"

text \<open>What is done with the paths that changed since the comparison base.\<close>

definition detect_changes :: "repository \<Rightarrow> string \<Rightarrow> string list \<Rightarrow> failure + detection" where
  "detect_changes R base paths =
     (let c = classify_changes paths in
      case check_versions R base (cs_direct c) of
        Inl e \<Rightarrow> Inl e
      | Inr _ \<Rightarrow>
          map_sum id (\<lambda>m. \<lparr>dr_matrix = m, dr_has_services = (cs_selected c \<noteq> []),
            dr_infrastructure = cs_infrastructure c, dr_fallback = False,
            dr_summary = (if cs_selected c \<noteq> [] then ''Selected services: '' @ comma_separated (cs_selected c)
              else ''No runtime services selected.'')\<rparr>) (matrix_for R (cs_selected c)))"

definition changed_paths :: "string \<Rightarrow> string list" where
  "changed_paths out = filter (\<lambda>p. p \<noteq> []) (split_text (CHR 0x00) out)"

definition comparison_base :: "repository \<Rightarrow> (string \<rightharpoonup> string) \<Rightarrow> string \<Rightarrow> string option" where
  "comparison_base R opts base =
     (if opts ''mode'' = Some ''pull_request''
      then (case rp_merge_base R base (the (opts ''head'')) of
          None \<Rightarrow> None
        | Some out \<Rightarrow> if js_trim out = [] then None else Some (js_trim out))
      else Some base)"

definition run_detection :: "repository \<Rightarrow> (string \<rightharpoonup> string) \<Rightarrow> failure + detection" where
  "run_detection R opts =
     (if \<not> truthy (opts ''base'') \<or> the (opts ''base'') = replicate 40 CHR ''0'' \<or> opts ''mode'' = Some ''manual''
      then fallback_result R ''no trustworthy comparison base was supplied''
      else if \<not> rp_commit R (the (opts ''base'')) then fallback_result R ''the comparison base is unavailable''
      else case comparison_base R opts (the (opts ''base'')) of
          None \<Rightarrow> fallback_result R ''the pull-request merge base is unavailable''
        | Some base \<Rightarrow>
            (case rp_diff R base (the (opts ''head'')) of
               None \<Rightarrow> fallback_result R ''the changed-path diff failed''
             | Some out \<Rightarrow> detect_changes R base (changed_paths out)))"

end
