(* ===== verification/ChangeProperties.thy ===== *)
theory ChangeProperties
  imports ChangeDetection "HOL-Library.Product_Lexorder"
begin

text \<open>
  What the change detection guarantees: versions are compared by a linear order, and whatever was changed is
  built, with a version above the one before.
\<close>

section \<open>The order of versions\<close>

text \<open>A part of a prerelease: numbers come before names.\<close>

datatype version_part = Numeric enat | Alpha string

instantiation version_part :: linorder
begin

fun less_eq_version_part :: "version_part \<Rightarrow> version_part \<Rightarrow> bool" where
  "less_eq_version_part (Numeric m) (Numeric n) = (m \<le> n)"
| "less_eq_version_part (Numeric m) (Alpha t) = True"
| "less_eq_version_part (Alpha s) (Numeric n) = False"
| "less_eq_version_part (Alpha s) (Alpha t) = (s \<le> t)"

definition less_version_part :: "version_part \<Rightarrow> version_part \<Rightarrow> bool" where
  "less_version_part p q \<longleftrightarrow> p \<le> q \<and> \<not> q \<le> p"

instance
proof
  fix p q r :: version_part
  show "p < q \<longleftrightarrow> p \<le> q \<and> \<not> q \<le> p" by (rule less_version_part_def)
  show "p \<le> p" by (cases p) simp_all
  show "p \<le> q \<or> q \<le> p" by (cases p; cases q) auto
  show "p = q" if "p \<le> q" "q \<le> p" using that by (cases p; cases q) auto
  show "p \<le> r" if "p \<le> q" "q \<le> r" using that by (cases p; cases q; cases r) auto
qed

end

lemma less_version_part_simps [simp]:
  "Numeric m < Numeric n \<longleftrightarrow> m < n" "Numeric m < Alpha t" "\<not> Alpha s < Numeric n" "Alpha s < Alpha t \<longleftrightarrow> s < t"
  by (auto simp: less_version_part_def)

definition part_of :: "string \<Rightarrow> version_part" where
  "part_of t = (if digits t then Numeric (number_of t) else Alpha t)"

text \<open>A release comes after its prereleases.\<close>

definition version_key :: "semver \<Rightarrow> enat \<times> enat \<times> enat \<times> bool \<times> version_part list" where
  "version_key v = (sv_major v, sv_minor v, sv_patch v, sv_pre v = [], map part_of (sv_pre v))"

text \<open>Numeric identifiers without a leading zero that a double holds exactly.\<close>

definition plain_pre :: "string list \<Rightarrow> bool" where
  "plain_pre ts \<longleftrightarrow> (\<forall>t\<in>set ts. digits t \<longrightarrow> core_number t \<and> text_nat t < 2 ^ 53)"

lemma js_number_exact: "n < 2 ^ 53 \<Longrightarrow> js_number n = enat n"
proof -
  assume n: "n < 2 ^ 53"
  then have "floorlog 2 n \<le> 53" by (intro floorlog_leI) auto
  moreover have "n < 2 ^ 1024" by (rule less_trans [OF n]) simp
  ultimately show ?thesis by (simp add: js_number_def)
qed

lemma digit_char_digit: "is_digit c \<Longrightarrow> digit_char (char_digit c) = c"
  by (auto simp: is_digit_def digit_char_def char_digit_def less_eq_char_def)

lemma digit_below: "is_digit c \<Longrightarrow> char_digit c < 10"
  by (auto simp: is_digit_def char_digit_def less_eq_char_def)

lemma digit_char_zero: "digit_char 0 = CHR ''0''"
  by code_simp

lemma canonical_digits: "digits t \<Longrightarrow> hd t \<noteq> CHR ''0'' \<Longrightarrow> nat_text (text_nat t) = t \<and> 0 < text_nat t"
proof (induction t rule: rev_induct)
  case Nil
  then show ?case by (simp add: digits_def)
next
  case (snoc c t)
  then have c: "is_digit c" by (simp add: digits_def)
  show ?case
  proof (cases "t = []")
    case True
    then have "digit_char (char_digit c) \<noteq> digit_char 0"
      using snoc.prems(2) digit_char_digit [OF c] by (simp only: digit_char_zero) simp
    then have "char_digit c \<noteq> 0" by (rule contrapos_nn) simp
    moreover have "text_nat [c] = char_digit c" by (simp add: text_nat_def)
    ultimately show ?thesis
      using True digit_below [OF c] digit_char_digit [OF c] by (subst nat_text.simps) simp
  next
    case False
    then have t: "nat_text (text_nat t) = t" "0 < text_nat t" using snoc by (simp_all add: digits_def)
    have "\<not> text_nat (t @ [c]) < 10" using t(2) by (simp add: text_nat_snoc)
    then show ?thesis
      using t digit_below [OF c] digit_char_digit [OF c]
      by (subst nat_text.simps) (simp add: text_nat_snoc)
  qed
qed

lemma core_number_text: "core_number t \<Longrightarrow> nat_text (text_nat t) = t"
  by (auto simp: core_number_def dest: canonical_digits) code_simp

lemma part_inject:
  assumes "plain_pre [a]" and "plain_pre [b]" and "part_of a = part_of b"
  shows "a = b"
proof (cases "digits a")
  case True
  then have b: "digits b" "number_of a = number_of b" using assms(3) by (auto simp: part_of_def split: if_splits)
  then have "text_nat a = text_nat b"
    using True assms(1,2) js_number_exact by (simp add: plain_pre_def number_of_def)
  then show ?thesis using True b(1) assms(1,2) core_number_text by (metis plain_pre_def list.set_intros(1))
next
  case False
  then show ?thesis using assms(3) by (auto simp: part_of_def split: if_splits)
qed

lemma compare_identifiers_order:
  "plain_pre as \<Longrightarrow> plain_pre bs \<Longrightarrow>
     compare_identifiers as bs =
       (if map part_of as < map part_of bs then -1 else if map part_of as = map part_of bs then 0 else 1)"
proof (induction as bs rule: compare_identifiers.induct)
  case (4 a as b bs)
  then have plain: "plain_pre [a]" "plain_pre [b]" "plain_pre as" "plain_pre bs" by (simp_all add: plain_pre_def)
  show ?case
  proof (cases "a = b")
    case True
    then show ?thesis using "4.IH" plain by simp
  next
    case False
    then have "part_of a \<noteq> part_of b" using part_inject [OF plain(1,2)] by blast
    then show ?thesis
      using False by (auto simp: part_of_def not_less_iff_gr_or_eq split: if_splits)
  qed
qed simp_all

lemma compare_parsed_order:
  assumes "plain_pre (sv_pre a)" and "plain_pre (sv_pre b)"
  shows "compare_parsed a b =
    (if version_key a < version_key b then -1 else if version_key a = version_key b then 0 else 1)"
  using compare_identifiers_order [OF assms]
  by (auto simp: compare_parsed_def version_key_def less_le_not_le [where 'a = bool])

lemma parsed_not_empty: "parse_semver t = Inr v \<Longrightarrow> t \<noteq> []"
  by (auto simp: parse_semver_def split_first_def)

text \<open>
  C38. Where numeric prerelease identifiers have no leading zero and are below 2 ^ 53, the comparison of two
  versions is that of their keys in a linear order, and the version check accepts exactly a greater key.\<close>

theorem version_check_is_version_order:
  assumes "parse_semver current = Inr a" and "parse_semver base = Inr b"
    and "plain_pre (sv_pre a)" and "plain_pre (sv_pre b)"
  shows "compare_semver current base =
      Inr (if version_key a < version_key b then -1 else if version_key a = version_key b then 0 else 1)
    \<and> validate_version_change service (Some base) current False =
      (if version_key b < version_key a then Inr ()
       else Inl (PlainError (service @ '' must increase its version above '' @ base @
         ''; current version is '' @ current)))"
  using assms(1,2) compare_parsed_order [OF assms(3,4)] parsed_not_empty [OF assms(2)]
  by (auto simp: compare_semver_def validate_version_change_def truthy_def)

lemma version_check_is_version_order_witness:
  "validate_version_change ''fx-service'' (Some ''1.2.0-rc.2'') ''1.2.0-rc.10'' False = Inr () \<and>
   compare_semver ''1.2.0-rc.2'' ''1.2.0-rc.10'' = Inr (-1)"
proof -
  define v where "v k = \<lparr>sv_major = 1, sv_minor = 2, sv_patch = 0, sv_pre = [''rc'', k]\<rparr>" for k
  have parsed: "parse_semver ''1.2.0-rc.2'' = Inr (v ''2'')" "parse_semver ''1.2.0-rc.10'' = Inr (v ''10'')"
    by (simp_all add: v_def parse_semver_def split_first_def core_number_def digits_def is_digit_def number_of_def
        js_number_exact text_nat_def char_digit_def identifiers_ok_def identifier_ok_def is_alnum_def
        less_eq_char_def zero_enat_def one_enat_def numeral_eq_enat)
  have plain: "plain_pre (sv_pre (v ''2''))" "plain_pre (sv_pre (v ''10''))"
    by (simp_all add: v_def plain_pre_def core_number_def digits_def is_digit_def text_nat_def char_digit_def
        less_eq_char_def)
  have order: "version_key (v ''2'') < version_key (v ''10'')"
    by (simp add: v_def version_key_def part_of_def digits_def is_digit_def number_of_def js_number_exact
        text_nat_def char_digit_def less_eq_char_def)
  show ?thesis
    using version_check_is_version_order [OF parsed(2,1) plain(2,1), of "''fx-service''"]
      version_check_is_version_order [OF parsed(1,2) plain(1,2)] order by simp
qed

text \<open>Leading zeros are admitted in a prerelease and break the order: each of these two texts is below the other.\<close>

lemma leading_zero_breaks_order:
  "compare_identifiers [''01''] [''1''] = -1 \<and> compare_identifiers [''1''] [''01''] = -1 \<and> identifiers_ok ''01''"
  by (simp add: digits_def is_digit_def number_of_def text_nat_def char_digit_def less_eq_char_def
      identifiers_ok_def identifier_ok_def is_alnum_def)

section \<open>What is built\<close>

lemma map_sum_Inr_cases: "map_sum id f r = Inr y \<Longrightarrow> (\<And>x. r = Inr x \<Longrightarrow> y = f x \<Longrightarrow> P) \<Longrightarrow> P"
  by (cases r) auto

lemma collect_paths_result:
  "collect_paths ps (direct, every, infra) = (d, e, i) \<Longrightarrow>
     set d = set direct \<union> {s. ServicePath s \<in> classify_path ` set ps} \<and>
     (e \<longleftrightarrow> every \<or> (\<exists>b. AllServices b \<in> classify_path ` set ps)) \<and>
     (i \<longleftrightarrow> infra \<or> AllServices True \<in> classify_path ` set ps)"
proof (induction ps arbitrary: direct every infra)
  case Nil
  then show ?case by simp
next
  case (Cons p ps)
  show ?case
  proof (cases "classify_path p")
    case SkipPath
    then show ?thesis using Cons.IH [of direct every infra] Cons.prems by auto
  next
    case (ServicePath s)
    then show ?thesis using Cons.IH [of "List.insert s direct" every infra] Cons.prems by auto
  next
    case (AllServices b)
    then show ?thesis using Cons.IH [of direct True "infra \<or> b"] Cons.prems by auto
  qed
qed

lemma classify_changes_result:
  "set (cs_direct (classify_changes ps)) = {s. ServicePath s \<in> classify_path ` set ps}"
  "cs_all (classify_changes ps) \<longleftrightarrow> (\<exists>b. AllServices b \<in> classify_path ` set ps)"
  "cs_infrastructure (classify_changes ps) \<longleftrightarrow> AllServices True \<in> classify_path ` set ps"
  "cs_selected (classify_changes ps) =
     (if cs_all (classify_changes ps) then services else cs_direct (classify_changes ps))"
  by (cases "collect_paths ps ([], False, False)"; auto simp: classify_changes_def dest!: collect_paths_result)+

lemma classified_service: "classify_path p = ServicePath s \<Longrightarrow> s \<in> set services"
  by (auto simp: classify_path_def Let_def split: if_splits option.splits)

lemma map_result_services:
  "matrix_for R ss = Inr m \<Longrightarrow>
     map me_service m = ss \<and> (\<forall>x\<in>set m. package_version R (me_service x) = Inr (me_version x))"
  unfolding matrix_for_def
proof (induction ss arbitrary: m)
  case (Cons s ss)
  then show ?case by (cases "package_version R s") (auto split: sum.splits)
qed simp

text \<open>The version of a service is above the one at the base, or the first one of a new service.\<close>

definition version_raised :: "repository \<Rightarrow> string \<Rightarrow> string \<Rightarrow> string \<Rightarrow> bool" where
  "version_raised R base s v =
     (case rp_base_version R base s of
        Inl e \<Rightarrow> False
      | Inr None \<Rightarrow> v = ''0.1.0''
      | Inr (Some None) \<Rightarrow> False
      | Inr (Some (Some b)) \<Rightarrow> compare_semver v b = Inr 1)"

lemma compare_identifiers_range: "compare_identifiers as bs \<le> 0 \<or> compare_identifiers as bs = 1"
  by (induction as bs rule: compare_identifiers.induct) auto

lemma compare_semver_range: "compare_semver a b = Inr c \<Longrightarrow> \<not> c \<le> 0 \<Longrightarrow> c = 1"
  using compare_identifiers_range
  by (auto simp: compare_semver_def compare_parsed_def split: sum.splits if_splits)

lemma validated_is_raised:
  assumes "rp_base_version R base s = Inr before"
    and "validate_version_change s (Option.bind before id) v (before = None) = Inr ()"
  shows "version_raised R base s v"
  using assms
  by (auto simp: version_raised_def validate_version_change_def truthy_def dest: compare_semver_range
      split: sum.splits if_splits option.splits)

lemma checked_are_raised:
  "check_versions R base ss = Inr () \<Longrightarrow> s \<in> set ss \<Longrightarrow> \<exists>v. package_version R s = Inr v \<and> version_raised R base s v"
  by (induction ss) (auto dest: validated_is_raised split: sum.splits)

lemma detected_changes:
  assumes "detect_changes R base paths = Inr d"
  shows "\<not> dr_fallback d"
    and "map me_service (dr_matrix d) = cs_selected (classify_changes paths)"
    and "dr_infrastructure d = cs_infrastructure (classify_changes paths)"
    and "\<forall>x\<in>set (dr_matrix d). package_version R (me_service x) = Inr (me_version x)"
    and "check_versions R base (cs_direct (classify_changes paths)) = Inr ()"
  using assms
  by (auto simp: detect_changes_def Let_def dest: map_result_services split: sum.splits
      elim!: map_sum_Inr_cases)

text \<open>What a detection promises for one path.\<close>

definition path_served :: "repository \<Rightarrow> string \<Rightarrow> detection \<Rightarrow> string \<Rightarrow> bool" where
  "path_served R base d p =
     (case classify_path p of
        SkipPath \<Rightarrow> True
      | AllServices infra \<Rightarrow> map me_service (dr_matrix d) = services \<and> (infra \<longrightarrow> dr_infrastructure d)
      | ServicePath s \<Rightarrow> (\<exists>x\<in>set (dr_matrix d). me_service x = s \<and> version_raised R base s (me_version x)))"

lemma detected_paths_served:
  assumes d: "detect_changes R base paths = Inr d" and p: "p \<in> set paths"
  shows "path_served R base d p"
proof (cases "classify_path p")
  case (ServicePath s)
  then have s: "s \<in> set (cs_direct (classify_changes paths))" "s \<in> set services"
    using p classified_service by (auto simp: classify_changes_result intro: rev_image_eqI)
  then have "s \<in> set (map me_service (dr_matrix d))"
    by (simp add: detected_changes(2) [OF d] classify_changes_result(4))
  then obtain x where "x \<in> set (dr_matrix d)" "me_service x = s" by auto
  then show ?thesis
    using ServicePath checked_are_raised [OF detected_changes(5) [OF d] s(1)] detected_changes(4) [OF d]
    by (auto simp: path_served_def intro!: bexI [of _ x])
next
  case (AllServices infra)
  then have "AllServices infra \<in> classify_path ` set paths" using p by (metis imageI)
  then show ?thesis
    using AllServices detected_changes(2,3) [OF d]
    by (auto simp: path_served_def classify_changes_result)
qed (simp add: path_served_def)

lemma built_for_a_path:
  assumes "detect_changes R base paths = Inr d" and "x \<in> set (dr_matrix d)"
  shows "\<exists>p\<in>set paths. classify_path p = ServicePath (me_service x) \<or> (\<exists>b. classify_path p = AllServices b)"
proof -
  have "me_service x \<in> set (cs_selected (classify_changes paths))"
    using assms(2) detected_changes(2) [OF assms(1)] by (metis imageI list.set_map)
  then show ?thesis
    by (auto simp: classify_changes_result split: if_splits) (metis (no_types))+
qed

lemma fallback_builds_all:
  "fallback_result R reason = Inr d \<Longrightarrow>
     dr_fallback d \<and> dr_infrastructure d \<and> map me_service (dr_matrix d) = services"
  by (auto simp: fallback_result_def dest: map_result_services elim!: map_sum_Inr_cases)

text \<open>
  C37. A detection that falls back builds all services. Any other one builds every service with a changed path,
  and its version is above the one at the comparison base (or is 0.1.0 for a new service); a path that is
  shared builds all services, and as infrastructure when it is that. What is built was asked for by a path.\<close>

theorem changed_services_are_built:
  assumes "run_detection R opts = Inr d"
  shows "if dr_fallback d then dr_infrastructure d \<and> map me_service (dr_matrix d) = services
    else \<exists>base out. comparison_base R opts (the (opts ''base'')) = Some base
      \<and> rp_diff R base (the (opts ''head'')) = Some out
      \<and> (\<forall>p\<in>set (changed_paths out). path_served R base d p)
      \<and> (\<forall>x\<in>set (dr_matrix d). \<exists>p\<in>set (changed_paths out).
           classify_path p = ServicePath (me_service x) \<or> (\<exists>b. classify_path p = AllServices b))"
proof (cases "dr_fallback d")
  case True
  then show ?thesis
    using assms fallback_builds_all detected_changes(1)
    by (auto simp: run_detection_def split: if_splits option.splits)
next
  case False
  then obtain base out where "comparison_base R opts (the (opts ''base'')) = Some base"
    and "rp_diff R base (the (opts ''head'')) = Some out" and d: "detect_changes R base (changed_paths out) = Inr d"
    using assms by (auto simp: run_detection_def dest: fallback_builds_all split: if_splits option.splits)
  then show ?thesis
    using False detected_paths_served [OF d] built_for_a_path [OF d] by auto
qed

definition demo_repository :: repository where
  "demo_repository = \<lparr>rp_commit = (\<lambda>c. True), rp_merge_base = (\<lambda>a b. Some (''base'' @ [CHR 0x0A])),
     rp_diff = (\<lambda>a b. Some (''services/fx-service/src/main.ts'' @ [CHR 0x00] @ ''README.md'' @ [CHR 0x00])),
     rp_version = (\<lambda>s. Inr ''0.2.0''), rp_base_version = (\<lambda>b s. Inr (Some (Some ''0.1.0'')))\<rparr>"

definition demo_options :: "string \<rightharpoonup> string" where
  "demo_options = [''mode'' \<mapsto> ''pull_request'', ''head'' \<mapsto> ''HEAD'', ''base'' \<mapsto> ''main'']"

lemma demo_detection:
  "run_detection demo_repository demo_options = Inr
     \<lparr>dr_matrix = [\<lparr>me_service = ''fx-service'', me_directory = ''services/fx-service'',
        me_workspace = ''@novapay/fx-service'', me_version = ''0.2.0''\<rparr>],
      dr_has_services = True, dr_infrastructure = False, dr_fallback = False,
      dr_summary = ''Selected services: fx-service''\<rparr>"
proof -
  have v: "parse_semver ''0.2.0'' = Inr \<lparr>sv_major = 0, sv_minor = 2, sv_patch = 0, sv_pre = []\<rparr>"
    "parse_semver ''0.1.0'' = Inr \<lparr>sv_major = 0, sv_minor = 1, sv_patch = 0, sv_pre = []\<rparr>"
    by (simp_all add: parse_semver_def split_first_def core_number_def digits_def is_digit_def number_of_def
        js_number_exact text_nat_def char_digit_def less_eq_char_def zero_enat_def one_enat_def numeral_eq_enat)
  have paths: "changed_paths (''services/fx-service/src/main.ts'' @ [CHR 0x00] @ ''README.md'' @ [CHR 0x00]) =
      [''services/fx-service/src/main.ts'', ''README.md'']"
    by (simp add: changed_paths_def)
  have "classify_path ''services/fx-service/src/main.ts'' = ServicePath ''fx-service''"
      "classify_path ''README.md'' = SkipPath"
    by code_simp+
  then have c: "classify_changes [''services/fx-service/src/main.ts'', ''README.md''] =
      \<lparr>cs_selected = [''fx-service''], cs_direct = [''fx-service''], cs_infrastructure = False, cs_all = False\<rparr>"
    by (simp add: classify_changes_def)
  let ?find = "\<lambda>t ps. List.find (\<lambda>p. p \<noteq> [] \<and> take (length p) t = p) ps"
  have f: "?find (''base'' @ [CHR 0x0A]) white_spaces = None" "?find (CHR 0x0A # ''esab'') (map rev white_spaces) = Some [CHR 0x0A]"
    "?find ''esab'' (map rev white_spaces) = None"
    by (simp_all add: white_spaces_bytes char_of_def bit_Suc_0_iff)
  have "strip_front white_spaces (''base'' @ [CHR 0x0A]) = ''base'' @ [CHR 0x0A]"
    by (rule strip_front_none [OF f(1)])
  moreover have "strip_front (map rev white_spaces) (CHR 0x0A # ''esab'') = ''esab''"
    using strip_front_some [OF f(2)] strip_front_none [OF f(3)] by simp
  ultimately have "js_trim (''base'' @ [CHR 0x0A]) = ''base''" by (simp add: js_trim_def)
  then have b: "comparison_base demo_repository demo_options ''main'' = Some ''base''"
    by (simp add: comparison_base_def demo_repository_def demo_options_def)
  have r: "validate_version_change ''fx-service'' (Some ''0.1.0'') ''0.2.0'' False = Inr ()"
    by (simp add: validate_version_change_def v compare_semver_def compare_parsed_def)
  have "detect_changes demo_repository ''base'' [''services/fx-service/src/main.ts'', ''README.md''] = Inr
     \<lparr>dr_matrix = [\<lparr>me_service = ''fx-service'', me_directory = ''services/fx-service'',
        me_workspace = ''@novapay/fx-service'', me_version = ''0.2.0''\<rparr>],
      dr_has_services = True, dr_infrastructure = False, dr_fallback = False,
      dr_summary = ''Selected services: fx-service''\<rparr>"
    unfolding detect_changes_def c Let_def
    by (simp add: demo_repository_def r matrix_for_def package_version_def v comma_separated_def)
  moreover have "run_detection demo_repository demo_options =
      detect_changes demo_repository ''base''
        (changed_paths (''services/fx-service/src/main.ts'' @ [CHR 0x00] @ ''README.md'' @ [CHR 0x00]))"
  proof -
    have z: "''main'' \<noteq> replicate 40 CHR ''0''" by (auto dest: arg_cong [where f = length])
    have o: "demo_options ''base'' = Some ''main''" "demo_options ''mode'' = Some ''pull_request''"
      by (simp_all add: demo_options_def)
    show ?thesis
      unfolding run_detection_def o using b z by (simp add: demo_repository_def)
  qed
  ultimately show ?thesis by (simp only: paths)
qed

lemma changed_services_are_built_witness:
  "\<exists>base out. rp_diff demo_repository base ''HEAD'' = Some out \<and>
     path_served demo_repository base
       \<lparr>dr_matrix = [\<lparr>me_service = ''fx-service'', me_directory = ''services/fx-service'',
          me_workspace = ''@novapay/fx-service'', me_version = ''0.2.0''\<rparr>],
        dr_has_services = True, dr_infrastructure = False, dr_fallback = False,
        dr_summary = ''Selected services: fx-service''\<rparr> ''services/fx-service/src/main.ts''"
  using changed_services_are_built [OF demo_detection]
  by (fastforce simp: demo_options_def demo_repository_def changed_paths_def)

end
