(* ===== verification/ServiceRuntime.thy ===== *)
theory ServiceRuntime
  imports ChangeDetection "HOL-Library.Sublist"
begin

text \<open>
  What a service does before and beside its requests: the environment variables that src/common/environment.ts
  reads and that main.ts and worker.ts require, the readiness of its dependencies (src/health), with the
  probe of Redis as a state machine over the events of its socket, and the request identifier and the
  metrics of src/common and src/observability. The URL parser is the parameter \<open>url_lib\<close>.
\<close>

section \<open>Numbers of a text\<close>

definition two_to :: "int \<Rightarrow> rat" where
  "two_to k = (if 0 \<le> k then 2 ^ nat k else 1 / 2 ^ nat (- k))"

text \<open>The double nearest to a positive number, ties to the even significand; \<open>None\<close> is \<open>Infinity\<close>.\<close>

definition nearest_double :: "rat \<Rightarrow> rat option" where
  "nearest_double q =
     (let k = (if 1 \<le> q then int (floorlog 2 (nat \<lfloor>q\<rfloor>)) else 1 - int (floorlog 2 (nat (\<lceil>1 / q\<rceil> - 1))));
          u = two_to (max (k - 53) (- 1074)); m = \<lfloor>q / u\<rfloor>; r = q / u - of_int m;
          x = of_int (if r > 1 / 2 \<or> (r = 1 / 2 \<and> odd m) then m + 1 else m) * u
      in if 2 ^ 1024 \<le> x then None else Some x)"

definition digits_of :: "string \<Rightarrow> string \<times> string" where
  "digits_of t = (takeWhile is_digit t, dropWhile is_digit t)"

definition exponent_of :: "string \<Rightarrow> int option" where
  "exponent_of t =
     (case t of
        [] \<Rightarrow> Some 0
      | c # r \<Rightarrow>
          if c \<noteq> CHR ''e'' \<and> c \<noteq> CHR ''E'' then None
          else let minus = (r \<noteq> [] \<and> hd r = CHR ''-''); ds = (if r \<noteq> [] \<and> (hd r = CHR ''-'' \<or> hd r = CHR ''+'') then tl r else r)
            in if ds \<noteq> [] \<and> list_all is_digit ds
               then Some (if minus then - int (text_nat ds) else int (text_nat ds)) else None)"

definition unsigned_literal :: "string \<Rightarrow> rat option" where
  "unsigned_literal t =
     (let (whole, r) = digits_of t;
          (part, r) = (if r \<noteq> [] \<and> hd r = CHR ''.'' then digits_of (tl r) else ([], r))
      in if whole = [] \<and> part = [] then None
         else map_option (\<lambda>e.
           let d = e - int (length part)
           in of_nat (text_nat (whole @ part)) * (if 0 \<le> d then 10 ^ nat d else 1 / 10 ^ nat (- d)))
           (exponent_of r))"

definition radix_value :: "nat \<Rightarrow> string \<Rightarrow> rat option" where
  "radix_value base t =
     (if t \<noteq> [] \<and> list_all (\<lambda>c. case hex_value c of None \<Rightarrow> False | Some d \<Rightarrow> d < base) t
      then Some (of_nat (foldl (\<lambda>a c. base * a + the (hex_value c)) 0 t)) else None)"

text \<open>\<open>Number\<close> of a text; \<open>None\<close> is \<open>NaN\<close> or an infinity.\<close>

definition js_to_number :: "string \<Rightarrow> rat option" where
  "js_to_number text =
     (let t = js_trim text;
          prefix = take 2 t;
          exact = (if t = [] then Some 0
            else if prefix \<in> {''0x'', ''0X''} then radix_value 16 (drop 2 t)
            else if prefix \<in> {''0o'', ''0O''} then radix_value 8 (drop 2 t)
            else if prefix \<in> {''0b'', ''0B''} then radix_value 2 (drop 2 t)
            else if hd t = CHR ''-'' then map_option uminus (unsigned_literal (tl t))
            else if hd t = CHR ''+'' then unsigned_literal (tl t)
            else unsigned_literal t)
      in case exact of
           None \<Rightarrow> None
         | Some q \<Rightarrow>
             if q = 0 then Some 0
             else if 0 < q then nearest_double q
             else map_option uminus (nearest_double (- q)))"

text \<open>\<open>Number.isInteger\<close>, with the integer.\<close>

definition js_integer :: "rat option \<Rightarrow> int option" where
  "js_integer v = (case v of None \<Rightarrow> None | Some q \<Rightarrow> if of_int \<lfloor>q\<rfloor> = q then Some \<lfloor>q\<rfloor> else None)"

section \<open>Environment variables\<close>

type_synonym process_env = "string \<Rightarrow> string option"

record service_environment =
  se_node_env :: string
  se_port :: int

record url =
  ur_protocol :: string
  ur_host :: string
  ur_port :: string
  ur_username :: string
  ur_password :: string

type_synonym url_lib = "string \<Rightarrow> url option"  \<comment> \<open>\<open>new URL\<close>; \<open>None\<close> when it throws\<close>

definition or_default :: "string option \<Rightarrow> string \<Rightarrow> string" where
  "or_default v d = (case v of None \<Rightarrow> d | Some t \<Rightarrow> t)"

definition load_environment :: "process_env \<Rightarrow> nat \<Rightarrow> failure + service_environment" where
  "load_environment E default_port =
     (let node = or_default (E ''NODE_ENV'') ''development'' in
      if node \<notin> {''development'', ''test'', ''production''}
      then Inl (PlainError ''NODE_ENV must be one of development, test, or production.'')
      else case js_integer (js_to_number (or_default (E ''PORT'') (nat_text default_port))) of
          None \<Rightarrow> Inl (PlainError ''PORT must be an integer between 1 and 65535.'')
        | Some port \<Rightarrow>
            if port < 1 \<or> port > 65535 then Inl (PlainError ''PORT must be an integer between 1 and 65535.'')
            else Inr \<lparr>se_node_env = node, se_port = port\<rparr>)"

definition require_url :: "url_lib \<Rightarrow> process_env \<Rightarrow> string \<Rightarrow> string list \<Rightarrow> failure + string" where
  "require_url U E name protocols =
     (if \<not> truthy (E name) then Inl (PlainError (name @ '' is required.''))
      else case U (the (E name)) of
          None \<Rightarrow> Inl (PlainError (name @ '' must be a valid URL.''))
        | Some u \<Rightarrow>
            if ur_protocol u \<notin> set protocols then Inl (PlainError (name @ '' must use one of: '' @ comma_separated protocols @ ''.''))
            else Inr (the (E name)))"

text \<open>The minimum is a parameter in the Account service, 16 in the FX service and 24 in the others.\<close>

definition require_secret :: "process_env \<Rightarrow> string \<Rightarrow> nat \<Rightarrow> failure + string" where
  "require_secret E name minimum =
     (if \<not> truthy (E name) \<or> utf16_units (the (E name)) < minimum
      then Inl (PlainError (name @ '' must contain at least '' @ nat_text minimum @ '' characters.''))
      else Inr (the (E name)))"

text \<open>The one of the Payroll service, which takes any text that is not blank.\<close>

definition require_variable :: "process_env \<Rightarrow> string \<Rightarrow> failure + string" where
  "require_variable E name =
     (if \<not> truthy (map_option js_trim (E name)) then Inl (PlainError (name @ '' is required.'')) else Inr (the (E name)))"

definition require_base64_key :: "process_env \<Rightarrow> string \<Rightarrow> failure + string" where
  "require_base64_key E name =
     (if \<not> truthy (E name) then Inl (PlainError (name @ '' is required.''))
      else let key = from_base64 (the (E name)) in
        if length key \<noteq> 32 \<or> base64 key \<noteq> the (E name)
        then Inl (PlainError (name @ '' must be a canonical base64-encoded 32-byte key.''))
        else Inr (the (E name)))"

definition read_positive_integer :: "process_env \<Rightarrow> string \<Rightarrow> nat \<Rightarrow> failure + int" where
  "read_positive_integer E name fallback =
     (let refused = Inl (PlainError (name @ '' must be a positive integer no greater than 86400000.'')) in
      case js_integer (case E name of None \<Rightarrow> Some (of_nat fallback) | Some t \<Rightarrow> js_to_number t) of
        None \<Rightarrow> refused
      | Some v \<Rightarrow> if v < 1 \<or> v > 86400000 then refused else Inr v)"

text \<open>\<open>invariantIntervalMs\<close> of the Ledger.\<close>

definition invariant_interval_ms :: "process_env \<Rightarrow> int" where
  "invariant_interval_ms E =
     (case js_integer (case E ''LEDGER_INVARIANT_INTERVAL_MS'' of None \<Rightarrow> Some 15000 | Some t \<Rightarrow> js_to_number t) of
        Some v \<Rightarrow> if v \<ge> 1000 then v else 15000
      | None \<Rightarrow> 15000)"

section \<open>Start\<close>

text \<open>The checks of \<open>bootstrap\<close> before the application is created; the first that throws ends the process.\<close>

primrec all_pass :: "(failure + unit) list \<Rightarrow> failure + unit" where
  "all_pass [] = Inr ()"
| "all_pass (c # cs) = (case c of Inl e \<Rightarrow> Inl e | Inr _ \<Rightarrow> all_pass cs)"

definition checked :: "failure + 'a \<Rightarrow> failure + unit" where
  "checked r = map_sum id (\<lambda>_. ()) r"

definition http_urls :: "string list" where
  "http_urls = [''http:'', ''https:'']"

definition postgres_urls :: "string list" where
  "postgres_urls = [''postgres:'', ''postgresql:'']"

definition start_with :: "failure + service_environment \<Rightarrow> (failure + unit) list \<Rightarrow> failure + service_environment" where
  "start_with env cs = (case env of Inl e \<Rightarrow> Inl e | Inr x \<Rightarrow> map_sum id (\<lambda>_. x) (all_pass cs))"

definition start_account :: "url_lib \<Rightarrow> process_env \<Rightarrow> failure + service_environment" where
  "start_account U E = start_with (load_environment E 3001)
     [checked (require_url U E ''DATABASE_URL'' postgres_urls),
      checked (require_url U E ''LEDGER_BASE_URL'' http_urls),
      checked (require_url U E ''ADMIN_BASE_URL'' http_urls),
      checked (require_secret E ''INTERNAL_SERVICE_TOKEN'' 24),
      checked (require_secret E ''IDENTITY_ACTIVE_KEY_VERSION'' 1),
      checked (require_secret E ''IDENTITY_KEK_RING'' 20),
      checked (require_secret E ''IDENTITY_LOOKUP_HMAC_KEY'' 40)]"

definition start_admin :: "url_lib \<Rightarrow> process_env \<Rightarrow> failure + service_environment" where
  "start_admin U E = start_with (load_environment E 3006)
     [checked (require_url U E ''DATABASE_URL'' postgres_urls),
      checked (require_secret E ''INTERNAL_SERVICE_TOKEN'' 24)]"

definition start_ledger :: "url_lib \<Rightarrow> process_env \<Rightarrow> failure + service_environment" where
  "start_ledger U E = start_with (load_environment E 3003)
     [checked (require_url U E ''DATABASE_URL'' postgres_urls),
      checked (require_secret E ''INTERNAL_SERVICE_TOKEN'' 24)]"

definition start_fx :: "url_lib \<Rightarrow> process_env \<Rightarrow> failure + service_environment" where
  "start_fx U E = start_with (load_environment E 3004)
     [checked (require_url U E ''DATABASE_URL'' postgres_urls),
      checked (require_secret E ''INTERNAL_SERVICE_TOKEN'' 16),
      (if or_default (E ''FX_PROVIDER_MODE'') ''normal'' \<notin> {''normal'', ''unavailable''}
       then Inl (PlainError ''FX_PROVIDER_MODE must be normal or unavailable.'') else Inr ())]"

definition start_transaction :: "url_lib \<Rightarrow> process_env \<Rightarrow> failure + service_environment" where
  "start_transaction U E = start_with (load_environment E 3002)
     [checked (require_url U E ''DATABASE_URL'' postgres_urls),
      checked (require_url U E ''ACCOUNT_BASE_URL'' http_urls),
      checked (require_url U E ''LEDGER_BASE_URL'' http_urls),
      checked (require_url U E ''FX_BASE_URL'' http_urls),
      checked (require_secret E ''INTERNAL_SERVICE_TOKEN'' 24),
      checked (require_base64_key E ''HISTORY_CURSOR_HMAC_KEY''),
      checked (read_positive_integer E ''STALE_PROCESSING_MS'' 30000),
      checked (read_positive_integer E ''RECONCILIATION_INTERVAL_MS'' 30000)]"

definition payroll_requirements :: "url_lib \<Rightarrow> process_env \<Rightarrow> (failure + unit) list" where
  "payroll_requirements U E =
     [checked (require_url U E ''DATABASE_URL'' postgres_urls),
      checked (require_url U E ''REDIS_URL'' [''redis:'']),
      checked (require_url U E ''ACCOUNT_BASE_URL'' http_urls),
      checked (require_url U E ''TRANSACTION_BASE_URL'' http_urls),
      checked (require_variable E ''INTERNAL_SERVICE_TOKEN'')]"

definition start_payroll :: "url_lib \<Rightarrow> process_env \<Rightarrow> failure + service_environment" where
  "start_payroll U E = start_with (load_environment E 3005) (payroll_requirements U E)"

text \<open>worker.ts, which leaves the environment of its process with the worker enabled.\<close>

definition start_worker :: "url_lib \<Rightarrow> process_env \<Rightarrow> failure + process_env" where
  "start_worker U E = map_sum id (\<lambda>_. E(''PAYROLL_WORKER_ENABLED'' := Some ''true'')) (all_pass (payroll_requirements U E))"

text \<open>
  \<open>readServiceVersion\<close>, the next step of \<open>bootstrap\<close>, on the \<open>version\<close> of the package file; \<open>None\<close> when it is no
  string. Its digits hold no \<open>-\<close>, so the first one divides the text.
\<close>

definition service_version_ok :: "string \<Rightarrow> bool" where
  "service_version_ok version =
     (let (core, pre) = split_first CHR ''-'' version in
      case split_text CHR ''.'' core of
        [a, b, c] \<Rightarrow> digits a \<and> digits b \<and> digits c \<and>
          (case pre of None \<Rightarrow> True | Some p \<Rightarrow> p \<noteq> [] \<and> list_all (\<lambda>x. is_alnum x \<or> x = CHR ''.'' \<or> x = CHR ''-'') p)
      | _ \<Rightarrow> False)"

definition read_service_version :: "string option \<Rightarrow> failure + string" where
  "read_service_version version =
     (case version of
        Some v \<Rightarrow>
          if service_version_ok v then Inr v
          else Inl (PlainError ''Service package version must be a valid semantic version.'')
      | None \<Rightarrow> Inl (PlainError ''Service package version must be a valid semantic version.''))"

section \<open>The probe of Redis\<close>

text \<open>\<open>encodeCommand\<close>; text is its UTF-8 bytes, so \<open>length\<close> is \<open>Buffer.byteLength\<close>.\<close>

definition crlf :: string where
  "crlf = [CHR 0x0D, CHR 0x0A]"

definition encode_part :: "string \<Rightarrow> string" where
  "encode_part p = CHR ''$'' # nat_text (length p) @ crlf @ p @ crlf"

definition encode_command :: "string list \<Rightarrow> string" where
  "encode_command parts = CHR ''*'' # nat_text (length parts) @ crlf @ concat (map encode_part parts)"

text \<open>
  \<open>decodeURIComponent\<close>: the escapes give bytes, which have to be UTF-8. The parser of URLs has left only ASCII
  in what is decoded.
\<close>

fun utf8_valid :: "nat list \<Rightarrow> bool" where
  "utf8_valid [] = True"
| "utf8_valid (a # r) =
     (let tail = (\<lambda>b. 128 \<le> b \<and> b < 192) in
      if a < 128 then utf8_valid r
      else if 194 \<le> a \<and> a < 224 then (case r of b # t \<Rightarrow> tail b \<and> utf8_valid t | _ \<Rightarrow> False)
      else if 224 \<le> a \<and> a < 240
      then (case r of
          b # c # t \<Rightarrow> tail b \<and> tail c \<and> (a = 224 \<longrightarrow> 160 \<le> b) \<and> (a = 237 \<longrightarrow> b < 160) \<and> utf8_valid t
        | _ \<Rightarrow> False)
      else if 240 \<le> a \<and> a < 245
      then (case r of
          b # c # d # t \<Rightarrow> tail b \<and> tail c \<and> tail d \<and> (a = 240 \<longrightarrow> 144 \<le> b) \<and> (a = 244 \<longrightarrow> b < 144) \<and> utf8_valid t
        | _ \<Rightarrow> False)
      else False)"

fun unescape :: "string \<Rightarrow> string option" where
  "unescape [] = Some []"
| "unescape (c # t) =
     (if c \<noteq> CHR ''%'' then map_option ((#) c) (unescape t)
      else case t of
          a # b # r \<Rightarrow>
            (case (hex_value a, hex_value b) of
               (Some m, Some n) \<Rightarrow> map_option ((#) (char_of (16 * m + n))) (unescape r)
             | _ \<Rightarrow> None)
        | _ \<Rightarrow> None)"

definition decode_uri :: "string \<Rightarrow> failure + string" where
  "decode_uri t =
     (case unescape t of
        Some r \<Rightarrow> if utf8_valid (map of_char r) then Inr r else Inl (PlainError ''URIError'')
      | None \<Rightarrow> Inl (PlainError ''URIError''))"

definition redis_commands :: "string \<Rightarrow> string \<Rightarrow> string list list" where
  "redis_commands username password =
     (if password \<noteq> []
      then [''AUTH'' # (if username \<noteq> [] then [username, password] else [password]), [''PING'']]
      else [[''PING'']])"

text \<open>Where the probe connects and what it sends.\<close>

record redis_target =
  rt_host :: string
  rt_port :: nat
  rt_commands :: "string list list"

definition redis_target_of :: "url_lib \<Rightarrow> process_env \<Rightarrow> failure + redis_target" where
  "redis_target_of U E =
     (if \<not> truthy (E ''REDIS_URL'') then Inl (PlainError ''REDIS_URL is required.'')
      else case U (the (E ''REDIS_URL'')) of
          None \<Rightarrow> Inl (PlainError ''TypeError'')
        | Some u \<Rightarrow>
            if ur_protocol u \<noteq> ''redis:'' then Inl (PlainError ''REDIS_URL must use the redis protocol.'')
            else (case decode_uri (ur_password u) of
                Inl e \<Rightarrow> Inl e
              | Inr password \<Rightarrow>
                  map_sum id (\<lambda>username. \<lparr>rt_host = ur_host u,
                      rt_port = (if ur_port u \<noteq> [] then text_nat (ur_port u) else 6379),
                      rt_commands = redis_commands username password\<rparr>) (decode_uri (ur_username u))))"

text \<open>
  The events of the socket and of the timer. Every ASCII character of the bytes is one of the text that
  \<open>toString\<close> makes of them, so the bytes are searched. A listener of \<open>once\<close> hears the
  first event only.
\<close>

datatype socket_event = Connected | SocketError string | Data string | TimerFired

record probe =
  pb_buffer :: string
  pb_settled :: bool
  pb_timer :: bool
  pb_error_heard :: bool
  pb_connect_heard :: bool
  pb_written :: string
  pb_closed :: bool
  pb_outcome :: "(failure + unit) option"

definition first_probe :: probe where
  "first_probe = \<lparr>pb_buffer = [], pb_settled = False, pb_timer = True, pb_error_heard = False,
     pb_connect_heard = False, pb_written = [], pb_closed = False, pb_outcome = None\<rparr>"

text \<open>The first call of \<open>resolve\<close> or \<open>reject\<close> counts.\<close>

definition answer_promise :: "failure + unit \<Rightarrow> probe \<Rightarrow> probe" where
  "answer_promise r p = p\<lparr>pb_outcome := (case pb_outcome p of None \<Rightarrow> Some r | Some q \<Rightarrow> Some q)\<rparr>"

definition finish_probe :: "failure + unit \<Rightarrow> probe \<Rightarrow> probe" where
  "finish_probe r p =
     (if pb_settled p then p
      else answer_promise r (p\<lparr>pb_settled := True, pb_timer := False, pb_closed := True\<rparr>))"

definition occurs :: "string \<Rightarrow> string \<Rightarrow> bool" where
  "occurs t b \<longleftrightarrow> list_ex (\<lambda>k. take (length t) (drop k b) = t) [0..<Suc (length b)]"

definition rejected_text :: "string \<Rightarrow> bool" where
  "rejected_text b \<longleftrightarrow> (b \<noteq> [] \<and> hd b = CHR ''-'') \<or> occurs (crlf @ ''-'') b"

definition timed_out :: failure where
  "timed_out = PlainError ''Redis readiness check timed out.''"

definition redis_rejected :: failure where
  "redis_rejected = PlainError ''Redis rejected the readiness check.''"

fun probe_event :: "string list list \<Rightarrow> socket_event \<Rightarrow> probe \<Rightarrow> probe" where
  "probe_event cs TimerFired p =
     (if pb_timer p then answer_promise (Inl timed_out) (p\<lparr>pb_timer := False, pb_closed := True\<rparr>) else p)"
| "probe_event cs (SocketError m) p =
     (if pb_error_heard p then p else finish_probe (Inl (PlainError m)) (p\<lparr>pb_error_heard := True\<rparr>))"
| "probe_event cs Connected p =
     (if pb_connect_heard p then p
      else p\<lparr>pb_connect_heard := True, pb_written := pb_written p @ concat (map encode_command cs)\<rparr>)"
| "probe_event cs (Data chunk) p =
     (let b = pb_buffer p @ chunk; p = p\<lparr>pb_buffer := b\<rparr> in
      if rejected_text b then finish_probe (Inl redis_rejected) p
      else if occurs (''+PONG'' @ crlf) b then finish_probe (Inr ()) p
      else p)"

definition run_probe :: "string list list \<Rightarrow> socket_event list \<Rightarrow> probe" where
  "run_probe cs es = fold (probe_event cs) es first_probe"

section \<open>Readiness\<close>

definition service_not_ready :: failure where
  "service_not_ready = http_failure 503 ''SERVICE_NOT_READY'' ''A required service dependency is unavailable.''"

text \<open>
  \<open>ReadinessService.check\<close> of the services with a database only, and of the Payroll service, whose
  \<open>Promise.all\<close> needs both.
\<close>

definition readiness :: "failure + unit \<Rightarrow> failure + (string \<times> string) list" where
  "readiness db = (case db of Inl _ \<Rightarrow> Inl service_not_ready | Inr _ \<Rightarrow> Inr [(''database'', ''up'')])"

definition payroll_readiness :: "failure + unit \<Rightarrow> failure + unit \<Rightarrow> failure + (string \<times> string) list" where
  "payroll_readiness db redis =
     (case db of
        Inl _ \<Rightarrow> Inl service_not_ready
      | Inr _ \<Rightarrow> (case redis of Inl _ \<Rightarrow> Inl service_not_ready | Inr _ \<Rightarrow> Inr [(''database'', ''up''), (''redis'', ''up'')]))"

record health =
  hl_status :: string
  hl_service :: string
  hl_timestamp :: instant
  hl_uptime :: int
  hl_dependencies :: "(string \<times> string) list option"

definition health_snapshot :: "string \<Rightarrow> instant \<Rightarrow> rat \<Rightarrow> health" where
  "health_snapshot service now uptime = \<lparr>hl_status = ''ok'', hl_service = service, hl_timestamp = now,
     hl_uptime = \<lfloor>uptime\<rfloor>, hl_dependencies = None\<rparr>"

definition health_ready :: "string \<Rightarrow> instant \<Rightarrow> rat \<Rightarrow> failure + (string \<times> string) list \<Rightarrow> failure + health" where
  "health_ready service now uptime r =
     map_sum id (\<lambda>deps. (health_snapshot service now uptime)\<lparr>hl_dependencies := Some deps\<rparr>) r"

section \<open>Requests: identifier, log and metrics\<close>

text \<open>\<open>RequestContextMiddleware\<close>: the identifier of the caller when it is a UUID, otherwise a fresh one.\<close>

record request_context =
  rc_request :: string
  rc_transaction :: "string option"
  rc_user :: "string option"

definition request_context_of :: "(string \<Rightarrow> bool) \<Rightarrow> string option \<Rightarrow> string \<Rightarrow> request_context" where
  "request_context_of is_uuid provided fresh =
     \<lparr>rc_request = (case provided of Some i \<Rightarrow> if is_uuid i then i else fresh | None \<Rightarrow> fresh),
      rc_transaction = None, rc_user = None\<rparr>"

text \<open>\<open>RequestContextService\<close>; there is no context outside a request.\<close>

definition request_id :: "request_context option \<Rightarrow> string" where
  "request_id c = (case c of None \<Rightarrow> ''unbound'' | Some c \<Rightarrow> rc_request c)"

definition set_user_id :: "string \<Rightarrow> request_context option \<Rightarrow> request_context option" where
  "set_user_id u = map_option (rc_user_update (\<lambda>_. Some u))"

definition set_transaction_id :: "string \<Rightarrow> request_context option \<Rightarrow> request_context option" where
  "set_transaction_id t = map_option (rc_transaction_update (\<lambda>_. Some t))"

record http_request =
  hr_method :: string
  hr_base_url :: string
  hr_path :: string
  hr_route :: "string option"

definition log_route :: "http_request \<Rightarrow> string" where
  "log_route r = (if truthy (hr_route r) then hr_base_url r @ the (hr_route r) else hr_path r)"

definition metric_route :: "http_request \<Rightarrow> string" where
  "metric_route r = (if truthy (hr_route r) then log_route r else ''unmatched'')"

text \<open>\<open>MetricsService.observeHttp\<close>: a counter and a histogram under the labels of the observation.\<close>

type_synonym http_labels = "string \<times> string \<times> string"

record http_metrics =
  hm_requests :: "http_labels \<Rightarrow> nat"
  hm_durations :: "http_labels \<Rightarrow> rat list"

definition http_labels_of :: "http_request \<Rightarrow> nat \<Rightarrow> http_labels" where
  "http_labels_of r status = (hr_method r, metric_route r, nat_text (status div 100) @ ''xx'')"

definition observe_http :: "http_labels \<Rightarrow> rat \<Rightarrow> http_metrics \<Rightarrow> http_metrics" where
  "observe_http l seconds m =
     m\<lparr>hm_requests := (hm_requests m)(l := hm_requests m l + 1),
       hm_durations := (hm_durations m)(l := hm_durations m l @ [seconds])\<rparr>"

text \<open>
  \<open>RequestLoggingInterceptor\<close>: two log lines per request and one observation. A field that is \<open>undefined\<close> is
  left out of its line.
\<close>

definition optional_field :: "string \<Rightarrow> string option \<Rightarrow> (string \<times> json) list" where
  "optional_field k v = (case v of None \<Rightarrow> [] | Some t \<Rightarrow> [(k, JStr t)])"

definition started_line :: "request_context option \<Rightarrow> http_request \<Rightarrow> string \<Rightarrow> json" where
  "started_line c r now = redact_sensitive (JObj
     [(''event'', JStr ''http.request.started''), (''requestId'', JStr (request_id c)),
      (''method'', JStr (hr_method r)), (''route'', JStr (log_route r)), (''timestamp'', JStr now)])"

definition finished_line ::
  "string \<Rightarrow> request_context option \<Rightarrow> http_request \<Rightarrow> nat \<Rightarrow> rat \<Rightarrow> string option \<Rightarrow> string \<Rightarrow> json" where
  "finished_line event c r status ms trace now = redact_sensitive (JObj
     ([(''event'', JStr event), (''requestId'', JStr (request_id c)), (''method'', JStr (hr_method r)),
       (''route'', JStr (log_route r)), (''statusCode'', JNum (of_nat status)), (''durationMs'', JNum ms)] @
      optional_field ''userId'' (Option.bind c rc_user) @
      optional_field ''transactionId'' (Option.bind c rc_transaction) @
      optional_field ''traceId'' trace @ [(''timestamp'', JStr now)]))"

definition failure_status :: "failure \<Rightarrow> nat" where
  "failure_status e = (case e of HttpException status _ _ \<Rightarrow> status | _ \<Rightarrow> 500)"

definition intercept ::
  "request_context option \<Rightarrow> http_request \<Rightarrow> string option \<Rightarrow> rat \<Rightarrow> string \<Rightarrow> failure + nat \<Rightarrow> http_metrics \<Rightarrow>
     json \<times> http_metrics" where
  "intercept c r trace ms now outcome m =
     (case outcome of
        Inr status \<Rightarrow>
          (finished_line ''http.request.completed'' c r status ms trace now,
           observe_http (http_labels_of r status) (ms / 1000) m)
      | Inl e \<Rightarrow>
          (finished_line ''http.request.failed'' c r (failure_status e) ms trace now,
           observe_http (http_labels_of r (failure_status e)) (ms / 1000) m))"

end
