(* ===== verification/RuntimeProperties.thy ===== *)
theory RuntimeProperties
  imports ServiceRuntime ChangeProperties TransferService
begin

text \<open>
  What starting and probing guarantee: a Transfer service that starts has the configuration that its requests
  need, and the probe of Redis decides by the first event that decides.
\<close>

section \<open>Numbers\<close>

lemma nearest_double_nat:
  assumes "0 < n" and "n < 2 ^ 53"
  shows "nearest_double (of_nat n) = Some (of_nat n)"
proof -
  let ?k = "floorlog 2 n"
  have k: "?k \<le> 53" using assms(2) by (intro floorlog_leI) auto
  then have u: "two_to (max (int ?k - 53) (- 1074)) = 1 / 2 ^ (53 - ?k)"
    by (auto simp: two_to_def max_def nat_diff_distrib)
  have q: "of_nat n / (1 / 2 ^ (53 - ?k) :: rat) = of_int (int (n * 2 ^ (53 - ?k)))" by simp
  have "(of_nat n :: rat) < 2 ^ 1024"
  proof -
    have "n < 2 ^ 1024" by (rule less_trans [OF assms(2)]) simp
    then show ?thesis by (metis of_nat_less_iff of_nat_power of_nat_numeral)
  qed
  then have small: "\<not> 2 ^ 1024 \<le> (of_nat n :: rat)" by simp
  have e: "(if 1 \<le> (of_nat n :: rat) then int (floorlog 2 (nat \<lfloor>of_nat n :: rat\<rfloor>))
      else 1 - int (floorlog 2 (nat (\<lceil>1 / of_nat n :: rat\<rceil> - 1)))) = int ?k"
    using assms(1) by simp
  have x: "of_int (int (n * 2 ^ (53 - ?k))) * (1 / 2 ^ (53 - ?k)) = (of_nat n :: rat)" by simp
  have half: "((0::rat) > 1 / 2) = False" "((0::rat) = 1 / 2) = False" by simp_all
  show ?thesis
    unfolding nearest_double_def Let_def e u q floor_of_int
    by (simp only: half diff_self simp_thms if_False x small)
qed

lemma trim_plain:
  assumes "t \<noteq> []" and "\<forall>c\<in>set t. is_digit c"
  shows "js_trim t = t"
proof -
  have front: "List.find (\<lambda>p. p \<noteq> [] \<and> take (length p) t = p) ps = None"
    if "t \<noteq> []" "is_digit (hd t)" "\<forall>p\<in>set ps. p \<noteq> [] \<longrightarrow> \<not> is_digit (hd p)" for t ps
    using that by (auto simp: find_None_iff_all neq_Nil_conv)
  have spaces: "\<forall>p\<in>set white_spaces. p \<noteq> [] \<longrightarrow> \<not> is_digit (hd p)"
    "\<forall>p\<in>set (map rev white_spaces). p \<noteq> [] \<longrightarrow> \<not> is_digit (hd p)"
    by (simp_all add: white_spaces_bytes is_digit_def less_eq_char_def)
  have "strip_front white_spaces t = t"
    by (rule strip_front_none [OF front [OF _ _ spaces(1)]]) (use assms in \<open>auto\<close>)
  moreover have "strip_front (map rev white_spaces) (rev t) = rev t"
    by (rule strip_front_none [OF front [OF _ _ spaces(2)]]) (use assms in \<open>auto simp: hd_rev\<close>)
  ultimately show ?thesis by (simp add: js_trim_def)
qed

lemma nat_text_is_digits: "c \<in> set (nat_text n) \<Longrightarrow> is_digit c"
  using nat_text_digits [of c n] by (auto simp: is_digit_def less_eq_char_def)

lemma takeWhile_digits [simp]: "takeWhile is_digit (nat_text n) = nat_text n" "dropWhile is_digit (nat_text n) = []"
  by (auto simp: takeWhile_eq_all_conv dropWhile_eq_Nil_conv nat_text_is_digits)

lemma digits_no_radix:
  assumes "\<forall>c\<in>set t. is_digit c" and "\<not> is_digit x"
  shows "take 2 t \<noteq> [y, x]"
proof
  assume "take 2 t = [y, x]"
  then have "x \<in> set t" by (metis in_set_takeD list.set_intros(1) list.set_intros(2))
  then show False using assms by blast
qed

lemma number_of_nat_text:
  assumes "n < 2 ^ 53"
  shows "js_to_number (nat_text n) = Some (of_nat n)"
proof -
  have d: "\<forall>c\<in>set (nat_text n). is_digit c" by (simp add: nat_text_is_digits)
  have no: "take 2 (nat_text n) \<noteq> ''0x''" "take 2 (nat_text n) \<noteq> ''0X''" "take 2 (nat_text n) \<noteq> ''0o''"
    "take 2 (nat_text n) \<noteq> ''0O''" "take 2 (nat_text n) \<noteq> ''0b''" "take 2 (nat_text n) \<noteq> ''0B''"
    by (rule digits_no_radix [OF d]; simp add: is_digit_def less_eq_char_def)+
  have h: "is_digit (hd (nat_text n))" using d nat_text_not_Nil hd_in_set by blast
  have sign: "hd (nat_text n) \<noteq> CHR ''-''" "hd (nat_text n) \<noteq> CHR ''+''"
    using h by (auto simp: is_digit_def less_eq_char_def)
  have "unsigned_literal (nat_text n) = Some (of_nat n)"
    by (simp add: unsigned_literal_def digits_of_def exponent_of_def text_nat_nat_text)
  then show ?thesis
    using nearest_double_nat [of n] assms
    by (simp add: js_to_number_def Let_def trim_plain [OF nat_text_not_Nil d] no sign)
qed

text \<open>A port in decimal is accepted exactly in its range, and read back.\<close>

lemma port_is_read:
  assumes "E ''NODE_ENV'' = Some ''production''" and "E ''PORT'' = Some (nat_text p)" and "p < 2 ^ 53"
  shows "load_environment E d =
    (if 1 \<le> p \<and> p \<le> 65535 then Inr \<lparr>se_node_env = ''production'', se_port = int p\<rparr>
     else Inl (PlainError ''PORT must be an integer between 1 and 65535.''))"
  using assms(1,2) number_of_nat_text [OF assms(3)]
  by (auto simp: load_environment_def or_default_def js_integer_def)

text \<open>The interval of the invariant check has no upper bound; a timer of Node.js holds 31 bits.\<close>

lemma invariant_interval_unbounded:
  "invariant_interval_ms (\<lambda>_. Some (nat_text 3000000000)) = 3000000000"
  using number_of_nat_text [of 3000000000] by (simp add: invariant_interval_ms_def js_integer_def)

section \<open>A service that starts\<close>

lemma all_pass_iff: "all_pass cs = Inr () \<longleftrightarrow> (\<forall>c\<in>set cs. c = Inr ())"
  by (induction cs) (auto split: sum.splits)

lemma started_with:
  assumes "start_with r cs = Inr env"
  shows "r = Inr env" "\<forall>c\<in>set cs. c = Inr ()"
  using assms all_pass_iff [of cs]
  by (cases r; cases "all_pass cs"; auto simp: start_with_def)+

lemma checked_Inr: "checked r = Inr () \<longleftrightarrow> (\<exists>x. r = Inr x)"
  by (cases r) (auto simp: checked_def)

lemma loaded_environment:
  "load_environment E d = Inr env \<Longrightarrow>
     se_node_env env \<in> {''development'', ''test'', ''production''} \<and> 1 \<le> se_port env \<and> se_port env \<le> 65535"
  by (auto simp: load_environment_def Let_def split: if_splits option.splits)

lemma required_url:
  "require_url U E n ps = Inr t \<Longrightarrow> truthy (E n) \<and> (\<exists>u. U (the (E n)) = Some u \<and> ur_protocol u \<in> set ps)"
  by (auto simp: require_url_def split: if_splits option.splits)

lemma required_secret: "require_secret E n m = Inr t \<Longrightarrow> truthy (E n) \<and> m \<le> utf16_units (the (E n))"
  by (auto simp: require_secret_def split: if_splits)

lemma required_key:
  "require_base64_key E ''HISTORY_CURSOR_HMAC_KEY'' = Inr t \<Longrightarrow>
     \<exists>k. history_cursor_key \<lparr>hx_key = E ''HISTORY_CURSOR_HMAC_KEY'', hx_hmac = h\<rparr> = Inr k \<and> length k = 32"
  by (auto simp: require_base64_key_def history_cursor_key_def Let_def truthy_def split: if_splits option.splits)

lemma read_interval:
  "read_positive_integer E n d = Inr v \<Longrightarrow>
     1 \<le> v \<and> v \<le> 86400000 \<and>
     js_integer (case E n of None \<Rightarrow> Some (of_nat d) | Some t \<Rightarrow> js_to_number t) = Some v"
  by (auto simp: read_positive_integer_def Let_def split: if_splits option.splits)

text \<open>
  A Transfer service that starts is configured for its requests: it listens on a port, its key signs the
  history cursors, every call of another service is sent, the internal guard admits its token and nothing
  else, and its reconciliation interval is at most a day.\<close>

theorem started_transfer_service_is_configured:
  assumes "start_transaction U E = Inr env"
  shows "1 \<le> se_port env \<and> se_port env \<le> 65535
    \<and> (\<exists>k. history_cursor_key \<lparr>hx_key = E ''HISTORY_CURSOR_HMAC_KEY'', hx_hmac = h\<rparr> = Inr k \<and> length k = 32)
    \<and> (\<forall>n\<in>{''ACCOUNT_BASE_URL'', ''LEDGER_BASE_URL'', ''FX_BASE_URL''}.
         internal_request service upper (E n) (E ''INTERNAL_SERVICE_TOKEN'') r = Inl (UpstreamUnavailableError service)
           \<longleftrightarrow> r = NoResponse)
    \<and> 24 \<le> utf16_units (the (E ''INTERNAL_SERVICE_TOKEN''))
    \<and> (internal_guard (E ''INTERNAL_SERVICE_TOKEN'') supplied \<longleftrightarrow> supplied = E ''INTERNAL_SERVICE_TOKEN'')
    \<and> 1 \<le> stale_ms (Option.bind (E ''STALE_PROCESSING_MS'') js_to_number)
    \<and> stale_ms (Option.bind (E ''STALE_PROCESSING_MS'') js_to_number) \<le> 86400000"
proof -
  note start = started_with [OF assms [unfolded start_transaction_def]]
  then obtain a l f t k v where
    urls: "require_url U E ''ACCOUNT_BASE_URL'' http_urls = Inr a" "require_url U E ''LEDGER_BASE_URL'' http_urls = Inr l"
      "require_url U E ''FX_BASE_URL'' http_urls = Inr f" and
    token: "require_secret E ''INTERNAL_SERVICE_TOKEN'' 24 = Inr t" and
    key: "require_base64_key E ''HISTORY_CURSOR_HMAC_KEY'' = Inr k" and
    stale: "read_positive_integer E ''STALE_PROCESSING_MS'' 30000 = Inr v"
    by (auto simp: checked_Inr)
  have T: "truthy (E ''INTERNAL_SERVICE_TOKEN'')" "24 \<le> utf16_units (the (E ''INTERNAL_SERVICE_TOKEN''))"
    using required_secret [OF token] by auto
  have U: "truthy (E n)" if "n \<in> {''ACCOUNT_BASE_URL'', ''LEDGER_BASE_URL'', ''FX_BASE_URL''}" for n
    using that urls [THEN required_url] by auto
  have calls: "internal_request service upper (E n) (E ''INTERNAL_SERVICE_TOKEN'') r = Inl (UpstreamUnavailableError service)
      \<longleftrightarrow> r = NoResponse" if "n \<in> {''ACCOUNT_BASE_URL'', ''LEDGER_BASE_URL'', ''FX_BASE_URL''}" for n
    using U [OF that] T(1) by (cases r) (auto simp: internal_request_def)
  have interval: "1 \<le> stale_ms (Option.bind (E ''STALE_PROCESSING_MS'') js_to_number)
      \<and> stale_ms (Option.bind (E ''STALE_PROCESSING_MS'') js_to_number) \<le> 86400000"
    using read_interval [OF stale] by (auto simp: stale_ms_def js_integer_def split: option.splits if_splits)
  show ?thesis
    using loaded_environment [OF start(1)] required_key [OF key] calls T interval
    by (auto simp: internal_guard_def)
qed

definition demo_urls :: url_lib where
  "demo_urls t =
     (if t = [] then None
      else Some \<lparr>ur_protocol = (if hd t = CHR ''p'' then ''postgres:'' else ''http:''), ur_host = ''db'', ur_port = [],
        ur_username = [], ur_password = []\<rparr>)"

definition demo_process :: process_env where
  "demo_process = [''NODE_ENV'' \<mapsto> ''production'', ''PORT'' \<mapsto> nat_text 3002, ''DATABASE_URL'' \<mapsto> ''postgres://db/tx'',
     ''ACCOUNT_BASE_URL'' \<mapsto> ''http://account'', ''LEDGER_BASE_URL'' \<mapsto> ''http://ledger'', ''FX_BASE_URL'' \<mapsto> ''http://fx'',
     ''INTERNAL_SERVICE_TOKEN'' \<mapsto> replicate 24 CHR ''t'',
     ''HISTORY_CURSOR_HMAC_KEY'' \<mapsto> base64 (replicate 32 CHR ''k'')]"

lemma started_transfer_service_is_configured_witness:
  "internal_request ''ledger'' ''LEDGER'' (demo_process ''LEDGER_BASE_URL'') (demo_process ''INTERNAL_SERVICE_TOKEN'') r
     = Inl (UpstreamUnavailableError ''ledger'') \<longleftrightarrow> r = (NoResponse :: json fetched)"
proof -
  have key: "from_base64 (base64 (replicate 32 CHR ''k'')) = replicate 32 CHR ''k''" by (rule from_base64_text)
  have E: "demo_process ''NODE_ENV'' = Some ''production''" "demo_process ''PORT'' = Some (nat_text 3002)"
    by (simp_all add: demo_process_def)
  have "load_environment demo_process 3002 = Inr \<lparr>se_node_env = ''production'', se_port = 3002\<rparr>"
    using port_is_read [OF E] by simp
  moreover have "require_base64_key demo_process ''HISTORY_CURSOR_HMAC_KEY'' = Inr (base64 (replicate 32 CHR ''k''))"
    using key base64_empty [of "replicate 32 CHR ''k''"]
    by (auto simp: require_base64_key_def demo_process_def simp del: replicate.simps)
  moreover have "utf16_units (replicate 24 CHR ''t'') = 24" by (simp add: utf16_units_def sum_list_replicate)
  ultimately have "start_transaction demo_urls demo_process = Inr \<lparr>se_node_env = ''production'', se_port = 3002\<rparr>"
    by (simp add: start_transaction_def start_with_def checked_def)
      (simp add: demo_process_def require_url_def demo_urls_def require_secret_def read_positive_integer_def
        js_integer_def http_urls_def postgres_urls_def)
  from started_transfer_service_is_configured [OF this, of undefined "''ledger''" "''LEDGER''" r] show ?thesis
    by simp
qed

text \<open>
  The Account service checks the length of its key ring only, so it starts with a ring that is no JSON, and
  every encryption is refused.
\<close>

lemma start_does_not_read_the_ring:
  assumes "start_account U E = Inr env" and "20 \<le> utf16_units t" and "t \<noteq> []" and "json_parse t = None"
    and "F = E(''IDENTITY_KEK_RING'' := Some t)"
  shows "start_account U F = Inr env"
    and "ic_ring C = F ''IDENTITY_KEK_RING'' \<Longrightarrow> \<exists>e. encrypt_identity L C r user i = Inl e"
proof -
  have "require_secret F ''IDENTITY_KEK_RING'' 20 = Inr t" using assms(2,3,5) by (simp add: require_secret_def)
  moreover have same: "F n = E n" if "n \<noteq> ''IDENTITY_KEK_RING''" for n
    using that assms(5) by simp
  then have "F ''NODE_ENV'' = E ''NODE_ENV''" "F ''PORT'' = E ''PORT''" by simp_all
  then have "load_environment F 3001 = load_environment E 3001" by (simp only: load_environment_def)
  moreover have "require_secret F n m = require_secret E n m" "require_url U F n ps = require_url U E n ps"
    if "n \<noteq> ''IDENTITY_KEK_RING''" for n m ps
    by (simp_all only: require_secret_def require_url_def same [OF that])
  ultimately show "start_account U F = Inr env"
    using started_with [OF assms(1) [unfolded start_account_def]]
    by (simp add: start_account_def start_with_def checked_def)
  show "\<exists>e. encrypt_identity L C r user i = Inl e" if "ic_ring C = F ''IDENTITY_KEK_RING''"
    using that assms(3-5) by (auto simp: encrypt_identity_def load_keys_def Let_def)
qed

section \<open>The version of a service\<close>

lemma split_text_chars: "x \<in> set t \<Longrightarrow> x = c \<or> (\<exists>w\<in>set (split_text c t). x \<in> set w)"
  by (induction t) (auto split: list.splits)

lemma split_first_chars:
  assumes "split_first c t = (a, b)"
  shows "set t \<subseteq> set a \<union> (case b of None \<Rightarrow> {} | Some r \<Rightarrow> insert c (set r))"
proof -
  have "t = takeWhile (\<lambda>x. x \<noteq> c) t @ dropWhile (\<lambda>x. x \<noteq> c) t" by simp
  then have t: "set t = set (takeWhile (\<lambda>x. x \<noteq> c) t) \<union> set (dropWhile (\<lambda>x. x \<noteq> c) t)"
    by (metis set_append)
  show ?thesis
  proof (cases "dropWhile (\<lambda>x. x \<noteq> c) t")
    case Nil
    have "a = takeWhile (\<lambda>x. x \<noteq> c) t" "b = None" using assms Nil by (simp_all add: split_first_def)
    then show ?thesis unfolding t Nil by simp
  next
    case (Cons y ys)
    have "y = c" using hd_dropWhile [of "\<lambda>x. x \<noteq> c" t] Cons by simp
    moreover have "a = takeWhile (\<lambda>x. x \<noteq> c) t" "b = Some ys" using assms Cons by (simp_all add: split_first_def)
    ultimately show ?thesis unfolding t Cons by simp
  qed
qed

lemma split_first_absent: "c \<notin> set t \<Longrightarrow> split_first c t = (t, None)"
proof -
  assume "c \<notin> set t"
  then have "\<forall>x\<in>set t. x \<noteq> c" by blast
  then show ?thesis by (simp add: split_first_def takeWhile_eq_all_conv [THEN iffD2])
qed

lemma digit_part: "x \<in> set a \<Longrightarrow> digits a \<Longrightarrow> is_digit x"
  by (auto simp: digits_def list_all_iff)

lemma core_number_digits: "core_number t \<Longrightarrow> digits t"
  by (auto simp: core_number_def digits_def is_digit_def less_eq_char_def)

lemma identifiers_chars:
  assumes "identifiers_ok p"
  shows "p \<noteq> [] \<and> list_all (\<lambda>x. is_alnum x \<or> x = CHR ''.'' \<or> x = CHR ''-'') p"
  using assms split_text_chars [of _ p "CHR ''.''"]
  by (auto simp: identifiers_ok_def identifier_ok_def list_all_iff)

lemma service_version_chars:
  assumes "service_version_ok v" and "x \<in> set v"
  shows "is_alnum x \<or> x = CHR ''.'' \<or> x = CHR ''-''"
proof -
  obtain core pre where v: "split_first CHR ''-'' v = (core, pre)" by fastforce
  from assms(1) v obtain a b c where core: "split_text CHR ''.'' core = [a, b, c]" "digits a" "digits b" "digits c"
    and pre: "\<forall>p. pre = Some p \<longrightarrow> list_all (\<lambda>x. is_alnum x \<or> x = CHR ''.'' \<or> x = CHR ''-'') p"
    by (auto simp: service_version_ok_def split: list.splits option.splits)
  show ?thesis
    using split_first_chars [OF v] assms(2) split_text_chars [of x core "CHR ''.''"] core pre digit_part
    by (fastforce simp: is_alnum_def list_all_iff split: option.splits)
qed

text \<open>
  C39. Of the versions that the pipeline admits, a service starts with exactly those that have no build
  metadata: one with a \<open>+\<close> passes the version check and stops the service that carries it.\<close>

theorem admitted_version_starts:
  assumes "parse_semver v = Inr s"
  shows "read_service_version (Some v) =
    (if CHR ''+'' \<in> set v then Inl (PlainError ''Service package version must be a valid semantic version.'') else Inr v)"
proof (cases "CHR ''+'' \<in> set v")
  case True
  have "\<not> is_alnum CHR ''+''" by code_simp
  then have "\<not> service_version_ok v" using service_version_chars [OF _ True] by auto
  then show ?thesis using True by (simp add: read_service_version_def)
next
  case False
  obtain core pre where v: "split_first CHR ''-'' v = (core, pre)" by fastforce
  have "service_version_ok v"
    using assms core_number_digits identifiers_chars
    by (auto simp: parse_semver_def split_first_absent [OF False] v service_version_ok_def
        split: list.splits if_splits option.splits)
  then show ?thesis using False by (simp add: read_service_version_def)
qed

lemma admitted_version_starts_witness:
  "validate_version_change ''fx-service'' (Some ''0.1.0'') ''0.1.1+b'' False = Inr () \<and>
   read_service_version (Some ''0.1.1+b'') = Inl (PlainError ''Service package version must be a valid semantic version.'')"
proof -
  have p: "parse_semver ''0.1.1+b'' = Inr \<lparr>sv_major = 0, sv_minor = 1, sv_patch = 1, sv_pre = []\<rparr>"
    "parse_semver ''0.1.0'' = Inr \<lparr>sv_major = 0, sv_minor = 1, sv_patch = 0, sv_pre = []\<rparr>"
    by (simp_all add: parse_semver_def split_first_def core_number_def digits_def is_digit_def number_of_def
        js_number_exact text_nat_def char_digit_def identifiers_ok_def identifier_ok_def is_alnum_def
        less_eq_char_def zero_enat_def one_enat_def numeral_eq_enat)
  show ?thesis
    using admitted_version_starts [OF p(1)] by (simp add: validate_version_change_def compare_semver_def compare_parsed_def p)
qed

section \<open>The probe of Redis\<close>

text \<open>A reader of commands, which the encoding is checked against.\<close>

definition read_size :: "string \<Rightarrow> (nat \<times> string) option" where
  "read_size t =
     (let r = dropWhile is_digit t in
      if take 2 r = crlf then Some (text_nat (takeWhile is_digit t), drop 2 r) else None)"

fun read_parts :: "nat \<Rightarrow> string \<Rightarrow> (string list \<times> string) option" where
  "read_parts 0 t = Some ([], t)"
| "read_parts (Suc n) t =
     (case t of
        [] \<Rightarrow> None
      | c # r \<Rightarrow>
          if c \<noteq> CHR ''$'' then None
          else Option.bind (read_size r) (\<lambda>(k, u).
            if take 2 (drop k u) \<noteq> crlf then None
            else map_option (\<lambda>(ps, v). (take k u # ps, v)) (read_parts n (drop (k + 2) u))))"

definition read_command :: "string \<Rightarrow> (string list \<times> string) option" where
  "read_command t =
     (case t of
        [] \<Rightarrow> None
      | c # r \<Rightarrow> if c \<noteq> CHR ''*'' then None else Option.bind (read_size r) (\<lambda>(n, u). read_parts n u))"

primrec read_commands :: "nat \<Rightarrow> string \<Rightarrow> string list list option" where
  "read_commands 0 t = (if t = [] then Some [] else None)"
| "read_commands (Suc n) t = Option.bind (read_command t) (\<lambda>(ps, r). map_option ((#) ps) (read_commands n r))"

lemma crlf_not_digit: "\<not> is_digit (hd (crlf @ t))" "crlf \<noteq> []" "length crlf = 2"
  by (simp_all add: crlf_def is_digit_def less_eq_char_def)

lemma read_size_text: "read_size (nat_text n @ crlf @ t) = Some (n, t)"
proof -
  have "dropWhile is_digit (nat_text n @ crlf @ t) = crlf @ t"
    "takeWhile is_digit (nat_text n @ crlf @ t) = nat_text n"
    using crlf_not_digit(1) [of t] by (auto simp: crlf_def nat_text_is_digits dropWhile_append2 takeWhile_append2)
  then show ?thesis by (simp add: read_size_def text_nat_nat_text crlf_not_digit(3))
qed

lemma read_parts_encoded: "read_parts (length ps) (concat (map encode_part ps) @ t) = Some (ps, t)"
  by (induction ps) (auto simp: encode_part_def read_size_text crlf_not_digit(3))

lemma read_command_encoded: "read_command (encode_command ps @ t) = Some (ps, t)"
  by (simp add: read_command_def encode_command_def read_size_text read_parts_encoded)

lemma read_commands_encoded: "read_commands (length cs) (concat (map encode_command cs)) = Some cs"
  by (induction cs) (simp_all add: read_command_encoded)

text \<open>What the last event of a sequence decides, and the first decision among its beginnings.\<close>

definition received :: "socket_event list \<Rightarrow> string" where
  "received es = concat (map (\<lambda>e. case e of Data c \<Rightarrow> c | _ \<Rightarrow> []) es)"

definition decided :: "socket_event list \<Rightarrow> (failure + unit) option" where
  "decided es =
     (if es = [] then None
      else case last es of
          TimerFired \<Rightarrow> Some (Inl timed_out)
        | SocketError m \<Rightarrow> Some (Inl (PlainError m))
        | Data _ \<Rightarrow>
            if rejected_text (received es) then Some (Inl redis_rejected)
            else if occurs (''+PONG'' @ crlf) (received es) then Some (Inr ())
            else None
        | Connected \<Rightarrow> None)"

definition verdict :: "socket_event list \<Rightarrow> (failure + unit) option" where
  "verdict es = Option.bind (List.find (\<lambda>p. decided p \<noteq> None) (prefixes es)) decided"

lemma run_probe_snoc: "run_probe cs (es @ [e]) = probe_event cs e (run_probe cs es)"
  by (simp add: run_probe_def)

lemma verdict_snoc: "verdict (es @ [e]) = (case verdict es of None \<Rightarrow> decided (es @ [e]) | Some r \<Rightarrow> Some r)"
  by (auto simp: verdict_def find_append split: option.splits dest!: find_Some_in)

lemma probe_state:
  "pb_buffer (run_probe cs es) = received es \<and> pb_outcome (run_probe cs es) = verdict es \<and>
   (pb_settled (run_probe cs es) \<or> pb_error_heard (run_probe cs es) \<or> \<not> pb_timer (run_probe cs es) \<longrightarrow> verdict es \<noteq> None) \<and>
   pb_written (run_probe cs es) = (if Connected \<in> set es then concat (map encode_command cs) else []) \<and>
   (pb_connect_heard (run_probe cs es) \<longleftrightarrow> Connected \<in> set es) \<and>
   (verdict es \<noteq> None \<longrightarrow> pb_closed (run_probe cs es))"
proof (induction es rule: rev_induct)
  case Nil
  then show ?case by (simp add: run_probe_def first_probe_def received_def verdict_def decided_def)
next
  case (snoc e es)
  show ?case
  proof (cases e)
    case Connected
    then show ?thesis
      using snoc by (auto simp: run_probe_snoc verdict_snoc decided_def received_def split: option.splits)
  next
    case (SocketError m)
    then show ?thesis
      using snoc by (auto simp: run_probe_snoc verdict_snoc decided_def received_def finish_probe_def answer_promise_def
        split: option.splits)
  next
    case (Data c)
    then show ?thesis
      using snoc by (auto simp: run_probe_snoc verdict_snoc decided_def received_def Let_def finish_probe_def
        answer_promise_def split: option.splits)
  next
    case TimerFired
    then show ?thesis
      using snoc by (auto simp: run_probe_snoc verdict_snoc decided_def received_def answer_promise_def split: option.splits)
  qed
qed

text \<open>
  C40. The probe of Redis answers what the first deciding event says: an error of the socket, the timer, a
  rejection in what was received so far, or a PONG in it. Once the timer has fired, or one of the others has
  come, it has an answer and has closed its socket. What it writes once connected reads back as its commands.\<close>

theorem redis_probe_decided:
  "pb_outcome (run_probe cs es) = verdict es
    \<and> (TimerFired \<in> set es \<longrightarrow> pb_outcome (run_probe cs es) \<noteq> None)
    \<and> (pb_outcome (run_probe cs es) \<noteq> None \<longrightarrow> pb_closed (run_probe cs es))
    \<and> (Connected \<in> set es \<longrightarrow> read_commands (length cs) (pb_written (run_probe cs es)) = Some cs)"
proof -
  have "verdict es \<noteq> None" if "TimerFired \<in> set es"
  proof -
    have "\<exists>xs ys. es = xs @ TimerFired # ys" using that by (rule split_list)
    then obtain xs ys where "es = xs @ TimerFired # ys" by blast
    then have "xs @ [TimerFired] \<in> set (prefixes es)" by (simp add: prefix_def)
    moreover have "decided (xs @ [TimerFired]) \<noteq> None" by (simp add: decided_def)
    ultimately have "List.find (\<lambda>p. decided p \<noteq> None) (prefixes es) \<noteq> None"
      unfolding find_None_iff_all by blast
    then obtain p where p: "List.find (\<lambda>p. decided p \<noteq> None) (prefixes es) = Some p" by blast
    then show ?thesis using find_Some_in [OF p] by (simp add: verdict_def)
  qed
  then show ?thesis using probe_state [of cs es] read_commands_encoded by auto
qed

lemma redis_probe_decided_witness:
  "pb_outcome (run_probe (redis_commands [] ''pw'') [Connected, Data ''+OK'', TimerFired]) \<noteq> None \<and>
   read_commands 2 (pb_written (run_probe (redis_commands [] ''pw'') [Connected, Data ''+OK'', TimerFired])) =
     Some [[''AUTH'', ''pw''], [''PING'']]"
proof -
  have cs: "redis_commands [] ''pw'' = [[''AUTH'', ''pw''], [''PING'']]" by (simp add: redis_commands_def)
  have "TimerFired \<in> set [Connected, Data ''+OK'', TimerFired]" "Connected \<in> set [Connected, Data ''+OK'', TimerFired]"
    and n: "length [[''AUTH'', ''pw''], [''PING'']] = 2" by simp_all
  then show ?thesis
    using redis_probe_decided [of "[[''AUTH'', ''pw''], [''PING'']]" "[Connected, Data ''+OK'', TimerFired]"]
    unfolding cs n by blast
qed

section \<open>The log of requests\<close>

text \<open>The status that is observed for a failure is the one that the exception filter answers.\<close>

lemma observed_status_is_answered: "failure_status e = he_status (exception_filter num e)"
  by (cases e) (auto simp: failure_status_def exception_filter_def Let_def split: prod.splits option.splits)

lemma every_request_is_counted:
  "hm_requests (snd (intercept c r trace ms now outcome m)) =
     (let l = http_labels_of r (case outcome of Inl e \<Rightarrow> he_status (exception_filter num e) | Inr status \<Rightarrow> status)
      in (hm_requests m)(l := hm_requests m l + 1))"
  by (auto simp: intercept_def observe_http_def Let_def observed_status_is_answered [of _ num] split: sum.splits)

end
