(* ===== verification/Spec2Isabelle.thy ===== *)
theory Spec2Isabelle
  imports LedgerOperations LedgerProperties LedgerCommands FxProofs TransferOutcomes HistoryPages HistoryRebuild
    AuditProperties PayrollCommands PayrollLinked AccountProperties ChangeProperties RuntimeProperties
begin

text \<open>
  NovaPay: a verification of the six payment services of this repository and of the change detection of its
  pipeline. This theory imports all others; it holds this description only.

  \<^bold>\<open>The program.\<close> Every service under services/ is a NestJS process with a PostgreSQL database of its own.
  The Ledger service keeps accounts, balances and a double-entry journal. The FX service quotes exchange rates
  and hands a quote to one transfer. The Transaction service carries out transfers: it asks the Account service
  who owns the wallets and the FX service to consume the quote, and posts to the Ledger; it keeps an
  idempotency record, the transfer with its status and the history rows, and a job completes the transfers
  whose outcome is unknown. The Payroll service takes a list of payments; a worker, one per employer by a lease
  in Redis, pays each item by one call of the Transaction service. The Account service keeps encrypted
  identities and the wallets, provisions their ledger accounts and reports to the audit trail, which the Admin
  service keeps as streams of records that form hash chains. Calls between services are HTTP requests with an
  internal token; a request or its answer may be lost.

  \<^bold>\<open>How a handler is modelled.\<close> An \<open>async\<close> method is a function \<open>'s \<Rightarrow> (failure + 'a) \<times> 's\<close> of the tables
  (NovaPrelude): \<open>bnd\<close> is \<open>await\<close> and what follows, \<open>throw\<close> and \<open>catch\<close> are those of the language, \<open>transaction\<close>
  leaves the tables as they were when its body throws. At every \<open>await\<close> between two transactions there is a
  \<open>pause\<close>: there the field \<open>..._others\<close> of the environment changes the state, and its first argument numbers the
  place in the code. What a handler does is proved for all such interference that itself stays within the
  relation of the component. A table is a list of rows; its operations check what the migrations declare
  (CHECK, UNIQUE, foreign keys, triggers) and fail with the database error that the service sees. The
  environment of a request (\<open>ledger_env\<close>, \<open>transfer_env\<close>, \<open>payroll_env\<close>, \<open>account_env\<close> and so on) has the clocks,
  the fresh identifiers, the libraries and the answers of other services.

  \<^bold>\<open>Theories and sources.\<close>
  \<^item> Shared: NovaPrelude (failures, handlers, tables, the locale \<open>two_state\<close>), DecimalText (Prisma.Decimal),
    JsonText, IsoTime and Base64Text (what the services use of the language for texts), HttpPlatform
    (src/common: exception filter, internal guard, validation; src/clients/internal-http.client.ts),
    ServiceCalls (one service calling a route of another).
  \<^item> Ledger, services/ledger-service: LedgerModel (migrations, DTOs), LedgerPosting (posting.service.ts),
    LedgerAccounts (ledger-account.service.ts, ledger-invariant.service.ts, ledger.controller.ts). LedgerEffects
    says what each database call does, LedgerSafety and LedgerRuns prove the invariants over all runs
    (\<open>ledger_run\<close>), LedgerDemo is a concrete ledger; LedgerProperties, LedgerOperations and LedgerCommands hold the
    properties.
  \<^item> FX, services/fx-service: FxQuotes (quotes, provider, principal, controllers) and FxProofs (\<open>fx_run\<close>).
  \<^item> Transfers, services/transaction-service: TransferModel (migrations, DTOs), TransferService
    (transfer.service.ts, clients, reconciliation.service.ts, controllers), TransferProofs and TransferRuns
    (\<open>transfer_run\<close>), TransferProperties, TransferOutcomes and TransferAnswers. History: HistoryCursor
    (history-cursor.ts), TransferHistory with HistoryPages (the query, and a client that follows the cursors)
    and HistoryRebuild (history-projection.service.ts).
  \<^item> Audit, services/admin-service: AuditMetadata (metadata and redaction.ts), AuditChain (audit.service.ts,
    audit.controller.ts, operator.service.ts), AuditProofs (\<open>audit_run\<close>) and AuditProperties.
  \<^item> Payroll, services/payroll-service: PayrollModel (migrations, leases, DTOs), PayrollService
    (payroll.service.ts, clients, queue, controllers), PayrollWorker (payroll-processor.service.ts,
    payroll-recovery.service.ts), PayrollProofs, PayrollRelation and PayrollRuns (\<open>payroll_run\<close>), PayrollProperties
    and PayrollCommands; PayrollSaga, PayrollTransfers and PayrollLinked join it to the Transaction service
    (\<open>saga_run\<close>).
  \<^item> Accounts, services/account-service: IdentityCrypto and IdentityProofs (identity-crypto.service.ts),
    AccountModel (migrations, DTOs), AccountService (identity.service.ts, rewrap.ts, wallet.service.ts,
    ledger.client.ts, audit.client.ts, controllers), AccountProofs, AccountSteps, AccountRuns, AccountAnswers;
    AccountLinked joins it to the Ledger and the audit trail (\<open>account_run\<close>); AccountProperties.
  \<^item> All services: ServiceRuntime and RuntimeProperties (environment.ts, main.ts, worker.ts, service-version.ts,
    health, request context, request log, metrics).
  \<^item> Pipeline: ChangeDetection and ChangeProperties (tools/ci/affected-services.mjs).

  \<^bold>\<open>Interfaces.\<close> \<open>two_state\<close> (NovaPrelude) is a reflexive and transitive relation between the states before and
  after; its lemmas pass through the handler combinators once. It is interpreted by the relations \<open>keep\<close>,
  \<open>journal\<close>, \<open>unposted\<close>, \<open>fx\<close>, \<open>tx\<close>, \<open>txk\<close>, \<open>th\<close>, \<open>au\<close>, \<open>py\<close>, \<open>pk\<close>, \<open>qu\<close> and \<open>outworld\<close>. \<open>ledger_steps\<close> extends it with the
  writes of the Ledger (interpretation \<open>books\<close>), \<open>payroll_relation\<close> states what the Payroll service may do to a
  relation (interpretation \<open>pw\<close>, and \<open>sg\<close> inside the saga). \<open>payment_provider\<close> is what Payroll relies on of the
  service that pays: interpretation \<open>tp\<close> discharges it by the model of the Transaction service.
  \<open>account_providers\<close> is what the Account service relies on of the Ledger and of the audit trail: interpretation
  \<open>ap\<close> discharges it by the routes of LedgerAccounts and AuditChain.

  \<^bold>\<open>What is shown.\<close>
  \<^item> Ledger: in every state of every run each posted transaction balances per currency, the stored balances
    are the sums of the journal, and customer accounts are not negative; a posting moves exactly its entries
    (both below a posted total of \<open>10 ^ 12\<close>, where decimal sums are exact), its replay changes nothing, a reversal
    cancels its original, and an attempt is repeated twice at most.
  \<^item> FX and transfers: a quote is consumed by one transfer; statuses follow the lifecycle; every transfer has
    one idempotency record and the history rows that a rebuild writes; a settled key is answered from
    its record until it expires; a transfer whose ledger answer was lost is completed by reconciliation without
    another posting; quotes, postings and keys are not shared.
  \<^item> History: following the cursors lists the history in order, without writers completely, with writers
    without losing or repeating what was there; cursors cannot be forged; the rebuild repairs any projection when
    nothing else writes beside it.
  \<^item> Audit: chains verify in every state of a run, and a changed one exactly when the change is in what is not
    hashed, the event identifiers and the spelling of metadata (for a hash without collisions on the records at
    hand); an event is recorded once; metadata stays within its bounds.
  \<^item> Payroll: counters agree with the items, finished items are final, the worker terminates, one worker has the
    lease of an employer, and every completed item has its completed transfer in the Transaction service.
  \<^item> Accounts: one wallet per user and currency, an active wallet has its ledger account, an answered creation
    is provisioned and in the audit trail, identities are read back, re-wrapping keeps them.
  \<^item> Runtime and pipeline: the probe of Redis decides by the first event that decides; the pipeline builds every
    service that was changed, with a higher version; which of those versions a service starts with.

  Some of the theorems describe behaviour that the authors will not want: a re-wrap that overtakes an update
  makes an identity unreadable (AccountProperties), metadata that a JSONB column reorders are stored and
  then refused as a reused identifier, and a changed event identifier goes unnoticed (AuditProperties), a version with build metadata passes the pipeline and stops its service
  (RuntimeProperties).

  \<^bold>\<open>Bounds and fuel.\<close> A posting has three attempts, as the code has. The loop of the payroll worker has one
  unit of fuel per batch and needs more units than there are pending items; the rebuild needs one batch more
  than there are transfers; the JSON reader needs one unit more than the length of the text. Each of these is
  proved to be enough where a property speaks of the result.

  \<^bold>\<open>Parameters.\<close> Code that is not in the repository is an argument with named laws: the decimal library
  (\<open>decimal_lib_ok\<close>, with \<open>exact_decimal\<close> as an instance), AES-GCM, HMAC and the Unicode tables
  (\<open>crypto_lib_ok\<close>, instance in AccountDemo), SHA-256, \<open>new Date\<close> of arbitrary text, the URL parser, git and the
  package files, clocks, random bytes and identifiers, and the queue. No law states what a property concludes.

  \<^bold>\<open>What the model abstracts.\<close> A database transaction is one step: in the Ledger they are serializable, with
  aborts as an argument; elsewhere the first write locks the row that all writers write first, and in the FX
  service, where a read comes before, others may act between. Instants are milliseconds. A text is its UTF-8
  bytes and texts are ordered by them; lengths are counted in
  UTF-16 units (\<open>utf16_units\<close>) where the code reads \<open>length\<close> and in code points (\<open>char_count\<close>) where a VARCHAR or
  class-validator limits them; texts that a pattern keeps in ASCII are counted in bytes. JSON numbers are the rationals they
  denote. Validation with class-validator is a predicate per DTO; a UUID has its canonical spelling. An answer
  with a success status has the shape of its DTO. A lost call is one that did not arrive or whose answer did not.

  \<^bold>\<open>Not modelled.\<close> Logging apart from the request log, tracing, the texts of Swagger and of the metrics, the
  wiring of modules, the Prisma, Redis and BullMQ clients, and the deployment files, since they are
  configuration or calls of third-party code. The re-wrapping script is verified by itself and is not part of
  the runs of the Account service: its update is not conditional on what it has read, so that no invariant that
  makes identities readable survives its interleaving with an update, which is proved as such. The copies that
  the services have of the common files are modelled once; where a copy differs (the guard of the FX service,
  the minimum of its token, the variable check of the Payroll service) the difference is modelled.
\<close>

end
